(* ===== verification/Prelude.thy ===== *)
theory Prelude
  imports Main "HOL-Library.Word"
begin

text \<open>
  Shared vocabulary of the development: the fixed-width integers of the C++ code, the
  little-endian byte representation that every packet uses, the \<open>error + value\<close> results
  that model C++ exceptions and failed assertions, and a model of \<open>std::map\<close> (a sorted
  association list) behind an interface locale.
\<close>

unbundle bit_operations_syntax

section \<open>Integer types and sizes\<close>

type_synonym u8 = "8 word"
type_synonym u16 = "16 word"
type_synonym u32 = "32 word"
type_synonym u64 = "64 word"

named_theorems bytes_simps \<open>lengths and round trips of byte sequences\<close>

text \<open>
  \<open>size_t\<close> values are natural numbers; the one operation of \<open>size_t\<close> that the code can
  drive below zero is subtraction, which wraps around at 64 bits.
\<close>

definition size_minus :: "nat \<Rightarrow> nat \<Rightarrow> nat" where
  "size_minus a b = (if b \<le> a then a - b else 2 ^ 64 + a - b)"

lemma size_minus_le [simp]: "b \<le> a \<Longrightarrow> size_minus a b = a - b"
  by (simp add: size_minus_def)

text \<open>The bytes of a string literal; what a C string function sees of a byte string.\<close>

definition ascii :: "string \<Rightarrow> u8 list" where
  "ascii s = map (\<lambda>c. of_nat (of_char c)) s"

definition c_string :: "u8 list \<Rightarrow> u8 list" where
  "c_string s = takeWhile (\<lambda>b. b \<noteq> 0) s"

section \<open>Results\<close>

text \<open>A computation that may throw: \<open>Inl\<close> the exception, \<open>Inr\<close> the result.\<close>

definition sum_bind :: "'e + 'a \<Rightarrow> ('a \<Rightarrow> 'e + 'b) \<Rightarrow> 'e + 'b" where
  "sum_bind m f = (case m of Inl e \<Rightarrow> Inl e | Inr x \<Rightarrow> f x)"

lemma sum_bind_simps [simp]:
  "sum_bind (Inl e) f = Inl e"
  "sum_bind (Inr x) f = f x"
  by (simp_all add: sum_bind_def)

lemma sum_bind_Inr_iff: "sum_bind m f = Inr y \<longleftrightarrow> (\<exists>x. m = Inr x \<and> f x = Inr y)"
  by (cases m) simp_all

lemma sum_bind_Inl_iff:
  "sum_bind m f = Inl e \<longleftrightarrow> m = Inl e \<or> (\<exists>x. m = Inr x \<and> f x = Inl e)"
  by (cases m) auto

lemma sum_bind_assoc: "sum_bind (sum_bind m f) g = sum_bind m (\<lambda>x. sum_bind (f x) g)"
  by (cases m) simp_all

text \<open>A chain of state updates, as in \<open>out << a << b << c\<close>: stop at the first exception.\<close>

fun chain :: "('s \<Rightarrow> 'e + 's) list \<Rightarrow> 's \<Rightarrow> 'e + 's" where
  "chain [] s = Inr s"
| "chain (f # fs) s = sum_bind (f s) (chain fs)"

lemma chain_append: "chain (fs @ gs) s = sum_bind (chain fs s) (chain gs)"
proof (induction fs arbitrary: s)
  case (Cons f fs)
  then show ?case by (cases "f s") simp_all
qed simp

section \<open>Bit masks\<close>

text \<open>The simplifier moves bits of word literals to \<open>int\<close> literals; these decide the masks.\<close>

lemma bit_int_masks [simp]:
  "bit (31 :: int) n \<longleftrightarrow> n < 5"
  "bit (255 :: int) n \<longleftrightarrow> n < 8"
  "bit (4095 :: int) n \<longleftrightarrow> n < 12"
  "bit (8191 :: int) n \<longleftrightarrow> n < 13"
  "bit (65535 :: int) n \<longleftrightarrow> n < 16"
  "bit (1048575 :: int) n \<longleftrightarrow> n < 20"
  "bit (4294967295 :: int) n \<longleftrightarrow> n < 32"
  using bit_mask_iff [of 5 n, where 'a = int] bit_mask_iff [of 8 n, where 'a = int]
    bit_mask_iff [of 12 n, where 'a = int] bit_mask_iff [of 13 n, where 'a = int]
    bit_mask_iff [of 16 n, where 'a = int] bit_mask_iff [of 20 n, where 'a = int]
    bit_mask_iff [of 32 n, where 'a = int]
  by (simp_all add: mask_eq_exp_minus_1)

lemma unat_drop_bit_8_less: "(g :: 'a::len word) \<noteq> 0 \<Longrightarrow> 8 < LENGTH('a) \<Longrightarrow> unat (drop_bit 8 g) < unat g"
  by (simp only: unsigned_drop_bit_eq)
    (simp add: unat_gt_0 drop_bit_eq_div take_bit_nat_eq_self div_less_dividend)

section \<open>Little-endian bytes\<close>

text \<open>
  \<open>le_bytes n w\<close> are the \<open>n\<close> low bytes of \<open>w\<close>, least significant first: the memory image of a
  value on the wire. \<open>le_word\<close> reads such an image back.
\<close>

fun le_bytes :: "nat \<Rightarrow> 'a::len word \<Rightarrow> u8 list" where
  "le_bytes 0 w = []"
| "le_bytes (Suc n) w = ucast w # le_bytes n (drop_bit 8 w)"

fun le_word :: "u8 list \<Rightarrow> 'a::len word" where
  "le_word [] = 0"
| "le_word (b # bs) = ucast b OR push_bit 8 (le_word bs)"

lemma length_le_bytes [simp, bytes_simps]: "length (le_bytes n w) = n"
  by (induction n arbitrary: w) simp_all

lemma le_bytes_step: "0 < n \<Longrightarrow> le_bytes n w = ucast w # le_bytes (n - 1) (drop_bit 8 w)"
  by (cases n) simp_all

lemma le_bytes_2: "le_bytes 2 w = [ucast w, ucast (drop_bit 8 w)]"
  by (simp add: le_bytes_step)

lemma le_bytes_4:
  "le_bytes 4 w = [ucast w, ucast (drop_bit 8 w), ucast (drop_bit 16 w), ucast (drop_bit 24 w)]"
  by (simp add: le_bytes_step drop_bit_drop_bit)

lemma bit_le_word:
  "bit (le_word bs :: 'a::len word) i \<longleftrightarrow>
     i < LENGTH('a) \<and> i < 8 * length bs \<and> bit (bs ! (i div 8)) (i mod 8)"
proof (induction bs arbitrary: i)
  case Nil
  then show ?case by simp
next
  case (Cons b bs)
  show ?case
  proof (cases "i < 8")
    case True
    then show ?thesis by (auto simp: bit_or_iff bit_unsigned_iff bit_push_bit_iff dest: bit_imp_le_length)
  next
    case False
    then obtain j where j: "i = j + 8" by (metis add.commute le_Suc_ex not_less)
    have "\<not> bit b (j + 8)" using bit_imp_le_length [of b "j + 8"] by auto
    moreover have "(j + 8) div 8 = Suc (j div 8)" by simp
    ultimately
    show ?thesis
      by (auto simp: bit_or_iff bit_unsigned_iff bit_push_bit_iff Cons.IH j)
  qed
qed

lemma nth_le_bytes: "i < n \<Longrightarrow> le_bytes n w ! i = ucast (drop_bit (8 * i) w)"
proof (induction n arbitrary: w i)
  case (Suc n)
  then show ?case by (cases i) (simp_all add: drop_bit_drop_bit algebra_simps)
qed simp

lemma le_word_le_bytes [simp, bytes_simps]:
  assumes "LENGTH('a) \<le> 8 * n"
  shows "le_word (le_bytes n w) = (w :: 'a::len word)"
proof (rule bit_word_eqI)
  fix i assume i: "i < LENGTH('a)"
  with assms have "i div 8 < n" by auto
  with i assms show "bit (le_word (le_bytes n w) :: 'a word) i = bit w i"
    by (auto simp: bit_le_word nth_le_bytes bit_unsigned_iff bit_drop_bit_eq)
qed

lemma le_bytes_le_word [bytes_simps]:
  assumes "8 * length bs \<le> LENGTH('a)"
  shows "le_bytes (length bs) (le_word bs :: 'a::len word) = bs"
proof (rule nth_equalityI)
  fix i assume "i < length (le_bytes (length bs) (le_word bs :: 'a word))"
  then have i: "i < length bs" by simp
  show "le_bytes (length bs) (le_word bs :: 'a word) ! i = bs ! i"
  proof (rule bit_word_eqI)
    fix k assume k: "k < LENGTH(8)"
    have "(8 * i + k) div 8 = i" "(8 * i + k) mod 8 = k" using k by auto
    moreover have "8 * i + k < 8 * length bs" using i k by auto
    ultimately show "bit (le_bytes (length bs) (le_word bs :: 'a word) ! i) k = bit (bs ! i) k"
      using i k assms by (simp add: nth_le_bytes bit_unsigned_iff bit_drop_bit_eq bit_le_word)
  qed
qed simp

section \<open>Ordered maps\<close>

text \<open>
  \<open>std::map\<close> is a list of entries with strictly increasing keys. \<open>om_put\<close> is
  \<open>m[k] = v\<close>, \<open>om_get\<close> is \<open>find\<close>, \<open>om_erase\<close> is \<open>erase(k)\<close>, \<open>om_begin\<close> is \<open>*begin()\<close> with
  \<open>None\<close> for \<open>begin() == end()\<close>. \<open>std::set\<close> is the same with \<open>unit\<close> values.
\<close>

type_synonym ('k, 'v) omap = "('k \<times> 'v) list"

definition om_get :: "('k, 'v) omap \<Rightarrow> 'k \<Rightarrow> 'v option" where
  "om_get m k = map_of m k"

fun om_put :: "'k::linorder \<Rightarrow> 'v \<Rightarrow> ('k, 'v) omap \<Rightarrow> ('k, 'v) omap" where
  "om_put k v [] = [(k, v)]"
| "om_put k v ((a, b) # m) =
     (if k < a then (k, v) # (a, b) # m
      else if k = a then (k, v) # m
      else (a, b) # om_put k v m)"

definition om_erase :: "'k \<Rightarrow> ('k, 'v) omap \<Rightarrow> ('k, 'v) omap" where
  "om_erase k m = filter (\<lambda>e. fst e \<noteq> k) m"

definition om_begin :: "('k, 'v) omap \<Rightarrow> ('k \<times> 'v) option" where
  "om_begin m = (case m of [] \<Rightarrow> None | e # _ \<Rightarrow> Some e)"

definition om_keys :: "('k, 'v) omap \<Rightarrow> 'k set" where
  "om_keys m = set (map fst m)"

definition om_inv :: "('k::linorder, 'v) omap \<Rightarrow> bool" where
  "om_inv m \<longleftrightarrow> sorted_wrt (<) (map fst m)"

locale ordered_map =
  fixes empty :: "'m"
    and get :: "'m \<Rightarrow> 'k::linorder \<Rightarrow> 'v option"
    and put :: "'k \<Rightarrow> 'v \<Rightarrow> 'm \<Rightarrow> 'm"
    and erase :: "'k \<Rightarrow> 'm \<Rightarrow> 'm"
    and first :: "'m \<Rightarrow> ('k \<times> 'v) option"
    and inv :: "'m \<Rightarrow> bool"
  assumes inv_empty: "inv empty"
    and inv_put: "inv m \<Longrightarrow> inv (put k v m)"
    and inv_erase: "inv m \<Longrightarrow> inv (erase k m)"
    and get_empty: "get empty k = None"
    and get_put: "get (put k v m) k' = (if k' = k then Some v else get m k')"
    and get_erase: "get (erase k m) k' = (if k' = k then None else get m k')"
    and first_None: "first m = None \<longleftrightarrow> (\<forall>k. get m k = None)"
    and first_Some: "inv m \<Longrightarrow> first m = Some (k, v) \<Longrightarrow>
          get m k = Some v \<and> (\<forall>k'. get m k' \<noteq> None \<longrightarrow> k \<le> k')"
begin

lemma get_put_same [simp]: "get (put k v m) k = Some v"
  by (simp add: get_put)

lemma get_erase_same [simp]: "get (erase k m) k = None"
  by (simp add: get_erase)

lemma first_erase_put:
  assumes "inv m" and "first (erase k m) = Some (k', v)"
  shows "k' \<noteq> k" and "get m k' = Some v"
proof -
  have "get (erase k m) k' = Some v"
    using first_Some [OF inv_erase [OF assms(1)] assms(2)] by blast
  then show "k' \<noteq> k" and "get m k' = Some v" by (auto simp: get_erase split: if_splits)
qed

lemma nonempty_iff: "first m \<noteq> None \<longleftrightarrow> (\<exists>k v. get m k = Some v)"
  using first_None [of m] by (metis option.distinct(1) option.exhaust)

end

lemma fst_om_put: "set (map fst (om_put k v m)) = insert k (set (map fst m))"
  by (induction k v m rule: om_put.induct) auto

lemma om_inv_put: "om_inv m \<Longrightarrow> om_inv (om_put k v m)"
proof (induction k v m rule: om_put.induct)
  case (1 k v)
  then show ?case by (simp add: om_inv_def)
next
  case (2 k v a b m)
  from "2.prems" have m: "om_inv m" and a: "\<forall>x \<in> set (map fst m). a < x"
    by (auto simp: om_inv_def)
  show ?case
  proof (cases "a < k")
    case True
    then have "om_inv (om_put k v m)" using "2.IH" m by auto
    moreover have "\<forall>x \<in> set (map fst (om_put k v m)). a < x"
      using True a by (auto simp del: set_map simp: fst_om_put)
    ultimately show ?thesis using True by (auto simp: om_inv_def)
  next
    case False
    then show ?thesis using "2.prems" by (fastforce simp: om_inv_def)
  qed
qed

lemma om_inv_erase: "om_inv m \<Longrightarrow> om_inv (om_erase k m)"
  by (induction m) (auto simp: om_inv_def om_erase_def)

lemma om_get_put: "om_get (om_put k v m) k' = (if k' = k then Some v else om_get m k')"
  by (induction k v m rule: om_put.induct) (auto simp: om_get_def)

lemma om_get_erase: "om_get (om_erase k m) k' = (if k' = k then None else om_get m k')"
  by (induction m) (auto simp: om_get_def om_erase_def)

interpretation om: ordered_map "[]" om_get om_put om_erase om_begin om_inv
proof unfold_locales
  show "om_begin m = None \<longleftrightarrow> (\<forall>k. om_get m k = None)" for m :: "('a, 'b) omap"
    by (cases m) (auto simp: om_begin_def om_get_def)
  show "om_get m k = Some v \<and> (\<forall>k'. om_get m k' \<noteq> None \<longrightarrow> k \<le> k')"
    if "om_inv m" and "om_begin m = Some (k, v)" for m :: "('a, 'b) omap" and k v
    using that by (cases m) (auto simp: om_begin_def om_get_def om_inv_def dest!: map_of_SomeD
        intro: less_imp_le)
qed (simp_all add: om_inv_put om_inv_erase om_get_put om_get_erase, simp_all add: om_inv_def om_get_def)

lemmas om_simps [simp] = om.get_empty om_get_put om_get_erase

lemma om_keys_get: "k \<in> om_keys m \<longleftrightarrow> om_get m k \<noteq> None"
  by (simp add: om_keys_def om_get_def map_of_eq_None_iff image_iff)

lemma om_keys_put [simp]: "om_keys (om_put k v m) = insert k (om_keys m)"
  by (simp add: om_keys_def del: set_map add: fst_om_put)

lemma om_keys_erase [simp]: "om_keys (om_erase k m) = om_keys m - {k}"
  by (auto simp: om_keys_def om_erase_def)

end
