(* ===== verification/Timers.thy ===== *)
theory Timers
  imports Prelude "HOL-Library.Signed_Division"
begin

text \<open>
  The timers of \<open>src/src/shared/Utilities/Timer.h\<close>. Millisecond stamps are unsigned 32-bit
  values that wrap after 49.7 days; \<open>PeriodicTimer\<close> mixes \<open>int32\<close> fields with an \<open>uint32\<close>
  difference, so its fields are 32-bit words read with \<open>sint\<close>. \<open>time_t\<close> and the
  \<open>chrono\<close> millisecond counts are 64-bit; a timer never comes near their range, so they are
  integers. The clocks themselves are not modelled: the stamps are arguments.
\<close>

definition get_ms_time_diff :: "u32 \<Rightarrow> u32 \<Rightarrow> u32" where
  "get_ms_time_diff oldMSTime newMSTime =
     (if oldMSTime > newMSTime then (0xFFFFFFFF - oldMSTime) + newMSTime
      else newMSTime - oldMSTime)"

record interval_timer =
  it_interval :: int
  it_current :: int

definition interval_timer_new :: interval_timer where
  "interval_timer_new = \<lparr>it_interval = 0, it_current = 0\<rparr>"

definition interval_timer_update :: "int \<Rightarrow> interval_timer \<Rightarrow> interval_timer" where
  "interval_timer_update diff t =
     (let current = it_current t + diff
      in t\<lparr>it_current := (if current < 0 then 0 else current)\<rparr>)"

definition interval_timer_passed :: "interval_timer \<Rightarrow> bool" where
  "interval_timer_passed t \<longleftrightarrow> it_current t \<ge> it_interval t"

text \<open>\<open>None\<close> is the division by zero of \<open>_current %= _interval\<close> on a timer with no interval.\<close>

definition interval_timer_reset :: "interval_timer \<Rightarrow> interval_timer option" where
  "interval_timer_reset t =
     (if it_current t \<ge> it_interval t
      then if it_interval t = 0 then None
           else Some (t\<lparr>it_current := it_current t smod it_interval t\<rparr>)
      else Some t)"

definition interval_timer_set_interval :: "int \<Rightarrow> interval_timer \<Rightarrow> interval_timer" where
  "interval_timer_set_interval interval t = t\<lparr>it_interval := interval\<rparr>"

definition interval_timer_set_current :: "int \<Rightarrow> interval_timer \<Rightarrow> interval_timer" where
  "interval_timer_set_current current t = t\<lparr>it_current := current\<rparr>"

record time_tracker =
  tt_expiry :: int

definition time_tracker_update :: "int \<Rightarrow> time_tracker \<Rightarrow> time_tracker" where
  "time_tracker_update diff t = t\<lparr>tt_expiry := tt_expiry t - diff\<rparr>"

definition time_tracker_passed :: "time_tracker \<Rightarrow> bool" where
  "time_tracker_passed t \<longleftrightarrow> tt_expiry t \<le> 0"

definition time_tracker_reset :: "int \<Rightarrow> time_tracker \<Rightarrow> time_tracker" where
  "time_tracker_reset expiry t = t\<lparr>tt_expiry := expiry\<rparr>"

record periodic_timer =
  pt_period :: u32
  pt_expire :: u32

definition periodic_timer_update :: "u32 \<Rightarrow> periodic_timer \<Rightarrow> bool \<times> periodic_timer" where
  "periodic_timer_update diff t =
     (let t = t\<lparr>pt_expire := pt_expire t - diff\<rparr> in
      if sint (pt_expire t) > 0 then (False, t)
      else (True, t\<lparr>pt_expire := pt_expire t +
                      (if sint (pt_period t) > sint diff then pt_period t else diff)\<rparr>))"

definition periodic_timer_set :: "u32 \<Rightarrow> u32 \<Rightarrow> periodic_timer \<Rightarrow> periodic_timer" where
  "periodic_timer_set period start_time t = t\<lparr>pt_expire := start_time, pt_period := period\<rparr>"

definition periodic_timer_tupdate :: "u32 \<Rightarrow> periodic_timer \<Rightarrow> periodic_timer" where
  "periodic_timer_tupdate diff t = t\<lparr>pt_expire := pt_expire t - diff\<rparr>"

definition periodic_timer_tpassed :: "periodic_timer \<Rightarrow> bool" where
  "periodic_timer_tpassed t \<longleftrightarrow> sint (pt_expire t) \<le> 0"

definition periodic_timer_treset :: "u32 \<Rightarrow> u32 \<Rightarrow> periodic_timer \<Rightarrow> periodic_timer" where
  "periodic_timer_treset diff period t =
     t\<lparr>pt_expire := pt_expire t + (if sint period > sint diff then period else diff)\<rparr>"

section \<open>Signed 32-bit arithmetic without overflow\<close>

lemma sint_minus_ok:
  fixes a b :: u32
  assumes "- (2 ^ 31) \<le> sint a - sint b" and "sint a - sint b < 2 ^ 31"
  shows "sint (a - b) = sint a - sint b"
  using assms by (simp add: sint_word_ariths signed_take_bit_int_eq_self)

lemma sint_plus_ok:
  fixes a b :: u32
  assumes "- (2 ^ 31) \<le> sint a + sint b" and "sint a + sint b < 2 ^ 31"
  shows "sint (a + b) = sint a + sint b"
  using assms by (simp add: sint_word_ariths signed_take_bit_int_eq_self)

lemma sint32_range: "- (2 ^ 31) \<le> sint (a :: u32)" "sint (a :: u32) < 2 ^ 31"
  using sint_range_size [of a] by (simp_all add: word_size)

section \<open>Properties\<close>

text \<open>
  \<open>getMSTimeDiff\<close> is the elapsed time modulo \<open>2^32\<close> as long as the clock has not wrapped
  between the two stamps, and exactly one millisecond less than it when the clock has.
\<close>

theorem ms_time_diff_elapsed:
  "get_ms_time_diff old (old + elapsed) =
     (if old > old + elapsed then elapsed - 1 else elapsed)"
proof -
  have "(0xFFFFFFFF :: u32) = - 1" by (rule bit_word_eqI) (simp add: bit_unsigned_iff)
  then show ?thesis by (simp add: get_ms_time_diff_def)
qed

text \<open>
  An interval timer with a positive interval that is advanced past its interval and then
  reset keeps the overshoot: the new value is below the interval and congruent to the old
  value plus the advance, so that the periods never drift.
\<close>

theorem interval_timer_no_drift:
  assumes "0 < it_interval t" and "0 \<le> it_current t" and "0 \<le> diff"
    and "interval_timer_passed (interval_timer_update diff t)"
  shows "\<exists>t'. interval_timer_reset (interval_timer_update diff t) = Some t' \<and>
    it_interval t' = it_interval t \<and> 0 \<le> it_current t' \<and> it_current t' < it_interval t \<and>
    it_current t' mod it_interval t = (it_current t + diff) mod it_interval t"
proof -
  have "(it_current t + diff) smod it_interval t = (it_current t + diff) mod it_interval t"
    using assms by (simp add: signed_modulo_int_def signed_divide_int_def minus_div_mult_eq_mod sgn_if)
  with assms show ?thesis
    by (simp add: interval_timer_update_def interval_timer_passed_def interval_timer_reset_def Let_def)
qed

theorem interval_timer_no_drift_witness:
  "\<exists>t'. interval_timer_reset (interval_timer_update 250 \<lparr>it_interval = 100, it_current = 30\<rparr>) = Some t' \<and>
    it_interval t' = it_interval \<lparr>it_interval = 100, it_current = 30\<rparr> \<and> 0 \<le> it_current t' \<and>
    it_current t' < it_interval \<lparr>it_interval = 100, it_current = 30\<rparr> \<and>
    it_current t' mod it_interval \<lparr>it_interval = 100, it_current = 30\<rparr> =
      (it_current \<lparr>it_interval = 100, it_current = 30\<rparr> + 250) mod
        it_interval \<lparr>it_interval = 100, it_current = 30\<rparr>"
  by (rule interval_timer_no_drift)
     (simp_all add: interval_timer_passed_def interval_timer_update_def)

text \<open>
  A periodic timer that is running (positive remaining time, positive period) and is
  updated with a difference below \<open>2^31\<close> fires exactly when the remaining time is used up,
  and is running again afterwards: the remaining time is positive and at most the larger of
  the old remaining time, the period and the difference.
\<close>

theorem periodic_timer_update_running:
  assumes "0 < sint (pt_expire t)" and "0 < sint (pt_period t)" and "0 \<le> sint diff"
  shows "(fst (periodic_timer_update diff t) \<longleftrightarrow> sint (pt_expire t) \<le> sint diff) \<and>
    0 < sint (pt_expire (snd (periodic_timer_update diff t))) \<and>
    sint (pt_expire (snd (periodic_timer_update diff t))) \<le>
      max (sint (pt_expire t)) (max (sint (pt_period t)) (sint diff))"
proof -
  have e: "sint (pt_expire t - diff) = sint (pt_expire t) - sint diff"
    using assms sint32_range [of "pt_expire t"] sint32_range [of diff] by (intro sint_minus_ok) auto
  let ?step = "if sint (pt_period t) > sint diff then pt_period t else diff"
  have step: "sint diff \<le> sint ?step" "sint ?step \<le> max (sint (pt_period t)) (sint diff)" by auto
  have s: "sint (pt_expire t - diff + ?step) = sint (pt_expire t) - sint diff + sint ?step"
    if "sint (pt_expire t) \<le> sint diff"
    using that e step(1) assms sint32_range [of ?step] sint32_range [of diff]
    by (subst sint_plus_ok) (auto simp: e)
  show ?thesis
    using s step assms by (auto simp: periodic_timer_update_def Let_def e)
qed

theorem periodic_timer_update_running_witness:
  "(fst (periodic_timer_update 700 \<lparr>pt_period = 1000, pt_expire = 400\<rparr>) \<longleftrightarrow>
      sint (pt_expire \<lparr>pt_period = 1000, pt_expire = 400\<rparr>) \<le> sint (700 :: u32)) \<and>
   0 < sint (pt_expire (snd (periodic_timer_update 700 \<lparr>pt_period = 1000, pt_expire = 400\<rparr>))) \<and>
   sint (pt_expire (snd (periodic_timer_update 700 \<lparr>pt_period = 1000, pt_expire = 400\<rparr>))) \<le>
     max (sint (pt_expire \<lparr>pt_period = 1000, pt_expire = 400\<rparr>))
       (max (sint (pt_period \<lparr>pt_period = 1000, pt_expire = 400\<rparr>)) (sint (700 :: u32)))"
  by (rule periodic_timer_update_running) simp_all

end
