(* ===== verification/ByteBuffer.thy ===== *)
theory ByteBuffer
  imports Prelude
begin

text \<open>
  The packet buffer, \<open>src/src/shared/Utilities/ByteBuffer.h\<close>: a growing byte vector with a
  read position, a write position and a bit cursor that the bit writer and the bit reader
  share. \<open>_storage\<close> is a byte list, \<open>_rpos\<close>, \<open>_wpos\<close> and \<open>_bitpos\<close> are \<open>size_t\<close> values
  (natural numbers), \<open>_curbitval\<close> is a byte. An operation that may throw returns
  \<open>bb_error + _\<close>: \<open>GetFailed\<close> and \<open>PutFailed\<close> are \<open>ByteBufferException\<close> with its position,
  element size and buffer size, \<open>AssertFailed\<close> is \<open>MANGOS_ASSERT\<close>, \<open>BadShift\<close> the shift by
  \<open>SIZE_MAX\<close> that C++ leaves undefined. \<open>std::string\<close> is its byte list.
\<close>

section \<open>State\<close>

datatype bb_error =
    GetFailed nat nat nat
  | PutFailed nat nat nat
  | AssertFailed
  | BadShift

record byte_buffer =
  bb_rpos :: nat
  bb_wpos :: nat
  bb_bitpos :: nat
  bb_curbitval :: u8
  bb_storage :: "u8 list"

definition bb_size :: "'a byte_buffer_scheme \<Rightarrow> nat" where
  "bb_size b = length (bb_storage b)"

definition bb_empty :: byte_buffer where
  "bb_empty = \<lparr>bb_rpos = 0, bb_wpos = 0, bb_bitpos = 8, bb_curbitval = 0, bb_storage = []\<rparr>"

definition bb_clear :: "'a byte_buffer_scheme \<Rightarrow> 'a byte_buffer_scheme" where
  "bb_clear b = b\<lparr>bb_storage := [], bb_rpos := 0, bb_wpos := 0, bb_curbitval := 0, bb_bitpos := 8\<rparr>"

section \<open>Appending\<close>

definition overwrite :: "nat \<Rightarrow> u8 list \<Rightarrow> u8 list \<Rightarrow> u8 list" where
  "overwrite pos src st = take pos st @ src @ drop (pos + length src) st"

definition append_bytes :: "u8 list \<Rightarrow> 'a byte_buffer_scheme \<Rightarrow> bb_error + 'a byte_buffer_scheme" where
  "append_bytes src b =
     (let cnt = length src in
      if cnt = 0 then Inr b
      else if \<not> bb_size b < 10000000 then Inl AssertFailed
      else
        let st = (if bb_size b < bb_wpos b + cnt
                  then bb_storage b @ replicate (bb_wpos b + cnt - bb_size b) 0
                  else bb_storage b)
        in Inr (b\<lparr>bb_storage := overwrite (bb_wpos b) src st, bb_wpos := bb_wpos b + cnt\<rparr>))"

definition flush_bits :: "'a byte_buffer_scheme \<Rightarrow> bb_error + 'a byte_buffer_scheme" where
  "flush_bits b =
     (if bb_bitpos b = 8 then Inr b
      else sum_bind (append_bytes [bb_curbitval b] b)
             (\<lambda>b. Inr (b\<lparr>bb_curbitval := 0, bb_bitpos := 8\<rparr>)))"

definition append_value :: "'w::len word \<Rightarrow> 'a byte_buffer_scheme \<Rightarrow> bb_error + 'a byte_buffer_scheme" where
  "append_value v b = sum_bind (flush_bits b) (append_bytes (le_bytes (LENGTH('w) div 8) v))"

definition put_u8 :: "u8 \<Rightarrow> 'a byte_buffer_scheme \<Rightarrow> bb_error + 'a byte_buffer_scheme" where
  "put_u8 v = append_value v"

definition put_u16 :: "u16 \<Rightarrow> 'a byte_buffer_scheme \<Rightarrow> bb_error + 'a byte_buffer_scheme" where
  "put_u16 v = append_value v"

definition put_u32 :: "u32 \<Rightarrow> 'a byte_buffer_scheme \<Rightarrow> bb_error + 'a byte_buffer_scheme" where
  "put_u32 v = append_value v"

definition put_u64 :: "u64 \<Rightarrow> 'a byte_buffer_scheme \<Rightarrow> bb_error + 'a byte_buffer_scheme" where
  "put_u64 v = append_value v"

definition put_string :: "u8 list \<Rightarrow> 'a byte_buffer_scheme \<Rightarrow> bb_error + 'a byte_buffer_scheme" where
  "put_string s b = sum_bind (append_bytes s b) (append_value (0 :: u8))"

definition write_string_data :: "u8 list \<Rightarrow> 'a byte_buffer_scheme \<Rightarrow> bb_error + 'a byte_buffer_scheme" where
  "write_string_data s b = sum_bind (flush_bits b) (append_bytes s)"

definition append_buffer :: "'b byte_buffer_scheme \<Rightarrow> 'a byte_buffer_scheme \<Rightarrow> bb_error + 'a byte_buffer_scheme" where
  "append_buffer src b =
     (if bb_wpos src \<noteq> 0 then append_bytes (take (bb_wpos src) (bb_storage src)) b else Inr b)"

definition put_at :: "nat \<Rightarrow> u8 list \<Rightarrow> 'a byte_buffer_scheme \<Rightarrow> bb_error + 'a byte_buffer_scheme" where
  "put_at pos src b =
     (if pos + length src > bb_size b then Inl (PutFailed pos (length src) (bb_size b))
      else Inr (b\<lparr>bb_storage := overwrite pos src (bb_storage b)\<rparr>))"

definition put_value_at :: "nat \<Rightarrow> 'w::len word \<Rightarrow> 'a byte_buffer_scheme \<Rightarrow> bb_error + 'a byte_buffer_scheme" where
  "put_value_at pos v = put_at pos (le_bytes (LENGTH('w) div 8) v)"

definition bb_resize :: "nat \<Rightarrow> 'a byte_buffer_scheme \<Rightarrow> 'a byte_buffer_scheme" where
  "bb_resize n b =
     b\<lparr>bb_storage := take n (bb_storage b) @ replicate (n - bb_size b) 0,
       bb_rpos := 0, bb_wpos := n\<rparr>"

section \<open>Reading\<close>

definition reset_bit_reader :: "'a byte_buffer_scheme \<Rightarrow> 'a byte_buffer_scheme" where
  "reset_bit_reader b = b\<lparr>bb_bitpos := 8\<rparr>"

definition byte_at :: "nat \<Rightarrow> 'a byte_buffer_scheme \<Rightarrow> bb_error + u8" where
  "byte_at pos b =
     (if pos \<ge> bb_size b then Inl (GetFailed pos 1 (bb_size b)) else Inr (bb_storage b ! pos))"

definition read_at :: "nat \<Rightarrow> 'a byte_buffer_scheme \<Rightarrow> bb_error + 'w::len word" where
  "read_at pos b =
     (let n = LENGTH('w) div 8 in
      if pos + n > bb_size b then Inl (GetFailed pos n (bb_size b))
      else Inr (le_word (take n (drop pos (bb_storage b)))))"

definition read_value :: "'a byte_buffer_scheme \<Rightarrow> bb_error + ('w::len word \<times> 'a byte_buffer_scheme)" where
  "read_value b =
     (let b = reset_bit_reader b in
      sum_bind (read_at (bb_rpos b) b)
        (\<lambda>r. Inr (r, b\<lparr>bb_rpos := bb_rpos b + LENGTH('w) div 8\<rparr>)))"

definition read_bytes :: "nat \<Rightarrow> 'a byte_buffer_scheme \<Rightarrow> bb_error + (u8 list \<times> 'a byte_buffer_scheme)" where
  "read_bytes len b =
     (let b = reset_bit_reader b in
      if bb_rpos b + len > bb_size b then Inl (GetFailed (bb_rpos b) len (bb_size b))
      else Inr (take len (drop (bb_rpos b) (bb_storage b)), b\<lparr>bb_rpos := bb_rpos b + len\<rparr>))"

definition read_skip :: "nat \<Rightarrow> 'a byte_buffer_scheme \<Rightarrow> bb_error + 'a byte_buffer_scheme" where
  "read_skip skip b =
     (let b = reset_bit_reader b in
      if bb_rpos b + skip > bb_size b then Inl (GetFailed (bb_rpos b) skip (bb_size b))
      else Inr (b\<lparr>bb_rpos := bb_rpos b + skip\<rparr>))"

definition get_u8 :: "'a byte_buffer_scheme \<Rightarrow> bb_error + (u8 \<times> 'a byte_buffer_scheme)" where
  "get_u8 = read_value"

definition get_u16 :: "'a byte_buffer_scheme \<Rightarrow> bb_error + (u16 \<times> 'a byte_buffer_scheme)" where
  "get_u16 = read_value"

definition get_u32 :: "'a byte_buffer_scheme \<Rightarrow> bb_error + (u32 \<times> 'a byte_buffer_scheme)" where
  "get_u32 = read_value"

definition get_u64 :: "'a byte_buffer_scheme \<Rightarrow> bb_error + (u64 \<times> 'a byte_buffer_scheme)" where
  "get_u64 = read_value"

text \<open>\<open>read<char>() > 0\<close>, with \<open>char\<close> signed as on x86.\<close>

definition get_bool :: "'a byte_buffer_scheme \<Rightarrow> bb_error + (bool \<times> 'a byte_buffer_scheme)" where
  "get_bool b = sum_bind (get_u8 b) (\<lambda>(c, b). Inr (sint c > 0, b))"

definition read_boolean :: "'a byte_buffer_scheme \<Rightarrow> bb_error + (bool \<times> 'a byte_buffer_scheme)" where
  "read_boolean b = sum_bind (get_u8 b) (\<lambda>(c, b). Inr (c > 0, b))"

definition bb_rfinish :: "'a byte_buffer_scheme \<Rightarrow> 'a byte_buffer_scheme" where
  "bb_rfinish b = b\<lparr>bb_rpos := bb_wpos b\<rparr>"

lemma sum_bind_cong [fundef_cong]:
  "m = m' \<Longrightarrow> (\<And>x. m' = Inr x \<Longrightarrow> f x = g x) \<Longrightarrow> sum_bind m f = sum_bind m' g"
  by (cases m') simp_all

lemma read_value_eq:
  "(read_value b :: bb_error + ('w::len word \<times> 'a byte_buffer_scheme)) =
     (if bb_rpos b + LENGTH('w) div 8 > bb_size b
      then Inl (GetFailed (bb_rpos b) (LENGTH('w) div 8) (bb_size b))
      else Inr (le_word (take (LENGTH('w) div 8) (drop (bb_rpos b) (bb_storage b))),
                b\<lparr>bb_bitpos := 8, bb_rpos := bb_rpos b + LENGTH('w) div 8\<rparr>))"
  by (simp add: read_value_def read_at_def reset_bit_reader_def bb_size_def Let_def)

lemma get_u8_eq:
  "get_u8 b =
     (if bb_rpos b < bb_size b
      then Inr (bb_storage b ! bb_rpos b, b\<lparr>bb_bitpos := 8, bb_rpos := Suc (bb_rpos b)\<rparr>)
      else Inl (GetFailed (bb_rpos b) 1 (bb_size b)))"
proof (cases "bb_rpos b < bb_size b")
  case True
  then have "take 1 (drop (bb_rpos b) (bb_storage b)) = [bb_storage b ! bb_rpos b]"
    by (simp add: bb_size_def take_Suc_conv_app_nth)
  with True show ?thesis by (simp add: get_u8_def read_value_eq)
qed (simp add: get_u8_def read_value_eq)

text \<open>
  \<open>operator>>(std::string&)\<close> stops at the terminator or at the end of the buffer;
  \<open>ReadString(count)\<close> computes its end position in 32 bits.
\<close>

function get_string_loop :: "u8 list \<Rightarrow> 'a byte_buffer_scheme \<Rightarrow> bb_error + (u8 list \<times> 'a byte_buffer_scheme)" where
  "get_string_loop value b =
     (if bb_rpos b < bb_size b
      then sum_bind (get_u8 b)
             (\<lambda>(c, b'). if c = 0 then Inr (value, b') else get_string_loop (value @ [c]) b')
      else Inr (value, b))"
  by pat_completeness auto
termination
  by (relation "measure (\<lambda>(v, b). bb_size b - bb_rpos b)")
    (auto simp: get_u8_eq bb_size_def split: if_splits)

declare get_string_loop.simps [simp del]

definition get_string :: "'a byte_buffer_scheme \<Rightarrow> bb_error + (u8 list \<times> 'a byte_buffer_scheme)" where
  "get_string b = get_string_loop [] b"

function read_string_loop :: "nat \<Rightarrow> u8 list \<Rightarrow> 'a byte_buffer_scheme \<Rightarrow> bb_error + (u8 list \<times> 'a byte_buffer_scheme)" where
  "read_string_loop limit out b =
     (if bb_rpos b < bb_size b \<and> bb_rpos b < limit
      then sum_bind (get_u8 b) (\<lambda>(c, b'). read_string_loop limit (out @ [c]) b')
      else Inr (out, b))"
  by pat_completeness auto
termination
  by (relation "measure (\<lambda>(l, v, b). bb_size b - bb_rpos b)")
    (auto simp: get_u8_eq bb_size_def split: if_splits)

declare read_string_loop.simps [simp del]

definition read_string :: "u32 \<Rightarrow> 'a byte_buffer_scheme \<Rightarrow> bb_error + (u8 list \<times> 'a byte_buffer_scheme)" where
  "read_string count b =
     (let start = (of_nat (bb_rpos b) :: u32) in read_string_loop (unat (start + count)) [] b)"

section \<open>Bits\<close>

definition has_nonzero_bit_padding :: "'a byte_buffer_scheme \<Rightarrow> bool" where
  "has_nonzero_bit_padding b =
     (if bb_bitpos b \<ge> 7 then False
      else let paddingMask = (ucast ((push_bit (7 - bb_bitpos b) 1 :: u32) - 1) :: u8)
           in (bb_curbitval b AND paddingMask) \<noteq> 0)"

definition write_bit :: "bool \<Rightarrow> 'a byte_buffer_scheme \<Rightarrow> bb_error + 'a byte_buffer_scheme" where
  "write_bit x b =
     (if bb_bitpos b = 0 then Inl BadShift
      else
        let bitpos = bb_bitpos b - 1;
            cur = (if x then bb_curbitval b OR push_bit bitpos 1 else bb_curbitval b)
        in if bitpos = 0
           then sum_bind (append_bytes [cur] (b\<lparr>bb_bitpos := 8, bb_curbitval := cur\<rparr>))
                  (\<lambda>b. Inr (b\<lparr>bb_curbitval := 0\<rparr>))
           else Inr (b\<lparr>bb_bitpos := bitpos, bb_curbitval := cur\<rparr>))"

definition read_bit :: "'a byte_buffer_scheme \<Rightarrow> bb_error + (bool \<times> 'a byte_buffer_scheme)" where
  "read_bit b =
     (let b = b\<lparr>bb_bitpos := bb_bitpos b + 1\<rparr> in
      sum_bind
        (if bb_bitpos b > 7
         then sum_bind (get_u8 b) (\<lambda>(c, b). Inr (b\<lparr>bb_curbitval := c, bb_bitpos := 0\<rparr>))
         else Inr b)
        (\<lambda>b. Inr (bit (bb_curbitval b) (7 - bb_bitpos b), b)))"

fun write_bits :: "'w::len word \<Rightarrow> nat \<Rightarrow> 'a byte_buffer_scheme \<Rightarrow> bb_error + 'a byte_buffer_scheme" where
  "write_bits v 0 b = Inr b"
| "write_bits v (Suc i) b = sum_bind (write_bit (bit v i) b) (write_bits v i)"

fun read_bits_loop :: "u32 \<Rightarrow> nat \<Rightarrow> 'a byte_buffer_scheme \<Rightarrow> bb_error + (u32 \<times> 'a byte_buffer_scheme)" where
  "read_bits_loop v 0 b = Inr (v, b)"
| "read_bits_loop v (Suc i) b =
     sum_bind (read_bit b)
       (\<lambda>(x, b). read_bits_loop (if x then v OR push_bit i 1 else v) i b)"

definition read_bits :: "nat \<Rightarrow> 'a byte_buffer_scheme \<Rightarrow> bb_error + (u32 \<times> 'a byte_buffer_scheme)" where
  "read_bits n b = read_bits_loop 0 n b"

definition read_byte_seq :: "u8 \<Rightarrow> 'a byte_buffer_scheme \<Rightarrow> bb_error + (u8 \<times> 'a byte_buffer_scheme)" where
  "read_byte_seq x b =
     (if x \<noteq> 0 then sum_bind (get_u8 b) (\<lambda>(c, b). Inr (x XOR c, b)) else Inr (x, b))"

definition write_byte_seq :: "u8 \<Rightarrow> 'a byte_buffer_scheme \<Rightarrow> bb_error + 'a byte_buffer_scheme" where
  "write_byte_seq x b = (if x \<noteq> 0 then append_value (x XOR 1) b else Inr b)"

section \<open>Appending at the end\<close>

text \<open>
  A buffer that is only written keeps its write position at its end. On such a buffer every
  append extends the storage; \<open>bb_extend\<close> is that extension, so that the layout of a packet
  is computed by rewriting.
\<close>

definition at_end :: "'a byte_buffer_scheme \<Rightarrow> bool" where
  "at_end b \<longleftrightarrow> bb_wpos b = bb_size b"

definition aligned :: "'a byte_buffer_scheme \<Rightarrow> bool" where
  "aligned b \<longleftrightarrow> at_end b \<and> bb_bitpos b = 8"

definition bb_extend :: "u8 list \<Rightarrow> 'a byte_buffer_scheme \<Rightarrow> 'a byte_buffer_scheme" where
  "bb_extend xs b = b\<lparr>bb_storage := bb_storage b @ xs, bb_wpos := bb_size b + length xs\<rparr>"

lemma bb_extend_simps [simp]:
  "bb_storage (bb_extend xs b) = bb_storage b @ xs"
  "bb_rpos (bb_extend xs b) = bb_rpos b"
  "bb_bitpos (bb_extend xs b) = bb_bitpos b"
  "bb_curbitval (bb_extend xs b) = bb_curbitval b"
  "bb_wpos (bb_extend xs b) = bb_size b + length xs"
  "bb_size (bb_extend xs b) = bb_size b + length xs"
  "bb_extend ys (bb_extend xs b) = bb_extend (xs @ ys) b"
  by (simp_all add: bb_extend_def bb_size_def)

lemma bb_extend_Nil: "at_end b \<Longrightarrow> bb_extend [] b = b"
  by (cases b) (simp add: bb_extend_def at_end_def bb_size_def)

lemma at_end_extend [simp]: "at_end (bb_extend xs b)"
  by (simp add: at_end_def)

lemma aligned_extend [simp]: "aligned (bb_extend xs b) \<longleftrightarrow> bb_bitpos b = 8"
  by (simp add: aligned_def)

lemma aligned_at_end [simp]: "aligned b \<Longrightarrow> at_end b"
  by (simp add: aligned_def)

lemma aligned_empty [simp]: "aligned bb_empty" "bb_size bb_empty = 0" "bb_storage bb_empty = []"
  "bb_bitpos bb_empty = 8" "bb_rpos bb_empty = 0" "bb_curbitval bb_empty = 0"
  by (simp_all add: aligned_def at_end_def bb_size_def bb_empty_def)

lemma append_bytes_at_end:
  assumes "at_end b" and "xs \<noteq> [] \<Longrightarrow> bb_size b < 10000000"
  shows "append_bytes xs b = Inr (bb_extend xs b)"
proof (cases xs)
  case Nil
  with assms show ?thesis by (simp add: append_bytes_def bb_extend_Nil)
next
  case (Cons x xs')
  with assms show ?thesis
    by (simp add: append_bytes_def at_end_def overwrite_def bb_extend_def bb_size_def Let_def)
qed

lemma append_value_aligned:
  "aligned b \<Longrightarrow> bb_size b < 10000000 \<Longrightarrow>
     append_value (v :: 'w::len word) b = Inr (bb_extend (le_bytes (LENGTH('w) div 8) v) b)"
  by (simp add: append_value_def flush_bits_def aligned_def append_bytes_at_end)

lemma flush_bits_aligned: "aligned b \<Longrightarrow> flush_bits b = Inr b"
  by (simp add: flush_bits_def aligned_def)

lemma put_string_aligned:
  "aligned b \<Longrightarrow> bb_size b + length s < 10000000 \<Longrightarrow>
     put_string s b = Inr (bb_extend (s @ [0]) b)"
  by (simp add: put_string_def append_bytes_at_end append_value_aligned aligned_def)

lemma write_string_data_aligned:
  "aligned b \<Longrightarrow> bb_size b < 10000000 \<Longrightarrow> write_string_data s b = Inr (bb_extend s b)"
  by (simp add: write_string_data_def flush_bits_aligned append_bytes_at_end)

lemmas put_aligned =
  put_u8_def put_u16_def put_u32_def put_u64_def append_value_aligned put_string_aligned
  write_string_data_aligned flush_bits_aligned

section \<open>The bit writer\<close>

text \<open>Bits are packed most significant first.\<close>

definition byte_bits :: "u8 \<Rightarrow> bool list" where
  "byte_bits w = map (\<lambda>i. bit w (7 - i)) [0..<8]"

definition bytes_bits :: "u8 list \<Rightarrow> bool list" where
  "bytes_bits bs = concat (map byte_bits bs)"

definition bits_written :: "'a byte_buffer_scheme \<Rightarrow> bool list" where
  "bits_written b = bytes_bits (bb_storage b) @ take (8 - bb_bitpos b) (byte_bits (bb_curbitval b))"

definition writer_inv :: "'a byte_buffer_scheme \<Rightarrow> bool" where
  "writer_inv b \<longleftrightarrow> at_end b \<and> 1 \<le> bb_bitpos b \<and> bb_bitpos b \<le> 8 \<and>
     (\<forall>i < bb_bitpos b. \<not> bit (bb_curbitval b) i)"

lemma length_byte_bits [simp]: "length (byte_bits w) = 8"
  by (simp add: byte_bits_def)

lemma nth_byte_bits: "i < 8 \<Longrightarrow> byte_bits w ! i = bit w (7 - i)"
  by (simp add: byte_bits_def)

lemma bytes_bits_simps [simp]:
  "bytes_bits [] = []"
  "bytes_bits (xs @ ys) = bytes_bits xs @ bytes_bits ys"
  "bytes_bits (x # xs) = byte_bits x @ bytes_bits xs"
  by (simp_all add: bytes_bits_def)

lemma length_bytes_bits [simp]: "length (bytes_bits bs) = 8 * length bs"
  by (induction bs) simp_all

lemma take_byte_bits_set:
  assumes "p < 8" and "\<forall>i \<le> p. \<not> bit w i"
  shows "take (8 - p) (byte_bits (if x then w OR push_bit p 1 else w)) =
         take (7 - p) (byte_bits w) @ [x]"
proof (rule nth_equalityI)
  show "length (take (8 - p) (byte_bits (if x then w OR push_bit p 1 else w))) =
        length (take (7 - p) (byte_bits w) @ [x])"
    using assms by simp
next
  fix i assume "i < length (take (8 - p) (byte_bits (if x then w OR push_bit p 1 else w)))"
  then have "i < 8 - p" by simp
  with assms show "take (8 - p) (byte_bits (if x then w OR push_bit p 1 else w)) ! i =
        (take (7 - p) (byte_bits w) @ [x]) ! i"
    by (cases "i < 7 - p")
       (auto simp: nth_byte_bits nth_append bit_or_iff bit_exp_iff not_less less_diff_conv)
qed

theorem write_bit_refines:
  assumes inv: "writer_inv b" and small: "bb_size b < 10000000"
  obtains b' where "write_bit x b = Inr b'" and "writer_inv b'"
    and "bits_written b' = bits_written b @ [x]" and "bb_size b' \<le> bb_size b + 1"
    and "bb_size b \<le> bb_size b'"
proof -
  let ?p = "bb_bitpos b - 1"
  let ?cur = "if x then bb_curbitval b OR push_bit ?p 1 else bb_curbitval b"
  have p: "?p < 8" "bb_bitpos b = Suc ?p" and low: "\<forall>i \<le> ?p. \<not> bit (bb_curbitval b) i"
    using inv by (auto simp: writer_inv_def)
  from take_byte_bits_set [OF p(1) low, of x] p
  have bits: "take (8 - ?p) (byte_bits ?cur) = take (8 - bb_bitpos b) (byte_bits (bb_curbitval b)) @ [x]"
    by simp
  show ?thesis
  proof (cases "?p = 0")
    case True
    let ?b = "bb_extend [?cur] (b\<lparr>bb_bitpos := 8, bb_curbitval := ?cur\<rparr>)\<lparr>bb_curbitval := 0\<rparr>"
    have app: "append_bytes [?cur] (b\<lparr>bb_bitpos := 8, bb_curbitval := ?cur\<rparr>) =
        Inr (bb_extend [?cur] (b\<lparr>bb_bitpos := 8, bb_curbitval := ?cur\<rparr>))"
      using inv small by (intro append_bytes_at_end) (auto simp: writer_inv_def at_end_def bb_size_def)
    have "write_bit x b = sum_bind (append_bytes [?cur] (b\<lparr>bb_bitpos := 8, bb_curbitval := ?cur\<rparr>))
        (\<lambda>b. Inr (b\<lparr>bb_curbitval := 0\<rparr>))"
      using True p by (simp add: write_bit_def Let_def)
    also have "\<dots> = Inr ?b" by (simp only: app sum_bind_simps)
    finally have "write_bit x b = Inr ?b" .
    moreover have "writer_inv ?b" by (simp add: writer_inv_def at_end_def bb_size_def)
    moreover have "bits_written ?b = bits_written b @ [x]"
      using bits True by (simp add: bits_written_def)
    ultimately show ?thesis using that by (simp add: bb_size_def)
  next
    case False
    let ?b = "b\<lparr>bb_bitpos := ?p, bb_curbitval := ?cur\<rparr>"
    have "write_bit x b = Inr ?b" using False p by (simp add: write_bit_def Let_def)
    moreover have "writer_inv ?b"
      using inv False low p(1) by (auto simp: writer_inv_def at_end_def bb_size_def bit_or_iff bit_exp_iff)
    moreover have "bits_written ?b = bits_written b @ [x]"
      using bits by (simp add: bits_written_def)
    ultimately show ?thesis using that by (simp add: bb_size_def)
  qed
qed

definition word_bits :: "'w::len word \<Rightarrow> nat \<Rightarrow> bool list" where
  "word_bits v n = map (\<lambda>i. bit v (n - Suc i)) [0..<n]"

lemma word_bits_Suc [simp]: "word_bits v (Suc n) = bit v n # word_bits v n"
  by (simp add: word_bits_def upt_conv_Cons map_Suc_upt [symmetric] del: upt_Suc)

lemma word_bits_0 [simp]: "word_bits v 0 = []"
  by (simp add: word_bits_def)

lemma length_word_bits [simp]: "length (word_bits v n) = n"
  by (simp add: word_bits_def)

lemma write_bits_refines:
  assumes "writer_inv b" and "bb_size b + n < 10000000"
  obtains b' where "write_bits v n b = Inr b'" and "writer_inv b'"
    and "bits_written b' = bits_written b @ word_bits v n" and "bb_size b' \<le> bb_size b + n"
    and "bb_size b \<le> bb_size b'"
using assms
proof (induction n arbitrary: b thesis)
  case 0
  then show ?case by simp
next
  case (Suc n)
  obtain c where c: "write_bit (bit v n) b = Inr c" "writer_inv c"
    "bits_written c = bits_written b @ [bit v n]" "bb_size c \<le> bb_size b + 1" "bb_size b \<le> bb_size c"
    using write_bit_refines [of b "bit v n"] Suc.prems by auto
  obtain d where "write_bits v n c = Inr d" "writer_inv d"
    "bits_written d = bits_written c @ word_bits v n" "bb_size d \<le> bb_size c + n" "bb_size c \<le> bb_size d"
    using Suc.IH [of c] c Suc.prems by auto
  with c Suc.prems(1) [of d] show ?case by simp
qed

text \<open>Flushing pads the pending byte with zero bits.\<close>

lemma byte_bits_pad:
  assumes "\<forall>i < p. \<not> bit w i" and "p \<le> 8"
  shows "byte_bits w = take (8 - p) (byte_bits w) @ replicate p False"
proof (rule nth_equalityI)
  fix i assume "i < length (byte_bits w)"
  with assms show "byte_bits w ! i = (take (8 - p) (byte_bits w) @ replicate p False) ! i"
    by (auto simp: nth_byte_bits nth_append)
qed (use assms in simp)

lemma flush_bits_refines:
  assumes inv: "writer_inv b" and small: "bb_size b < 10000000"
  obtains b' n where "flush_bits b = Inr b'" and "aligned b'" and "n < 8"
    and "bytes_bits (bb_storage b') = bits_written b @ replicate n False"
    and "bb_rpos b' = bb_rpos b" and "writer_inv b'" and "bb_size b' \<le> bb_size b + 1"
proof (cases "bb_bitpos b = 8")
  case True
  then have "flush_bits b = Inr b" "aligned b"
    using inv by (simp_all add: flush_bits_def aligned_def writer_inv_def)
  then show ?thesis using that [of b 0] True inv by (simp add: bits_written_def)
next
  case False
  let ?b = "bb_extend [bb_curbitval b] b\<lparr>bb_curbitval := 0, bb_bitpos := 8\<rparr>"
  have "flush_bits b = Inr ?b"
    using False inv small by (simp add: flush_bits_def append_bytes_at_end writer_inv_def)
  moreover have "aligned ?b" by (simp add: aligned_def at_end_def bb_size_def)
  moreover have "bytes_bits (bb_storage ?b) = bits_written b @ replicate (bb_bitpos b) False"
    using inv byte_bits_pad [of "bb_bitpos b" "bb_curbitval b"]
    by (simp add: bits_written_def writer_inv_def)
  ultimately show ?thesis
    using that [of ?b "bb_bitpos b"] False inv by (auto simp: writer_inv_def at_end_def bb_size_def)
qed

section \<open>The bit reader\<close>

definition bits_left :: "'a byte_buffer_scheme \<Rightarrow> bool list" where
  "bits_left b = drop (bb_bitpos b + 1) (byte_bits (bb_curbitval b)) @
     bytes_bits (drop (bb_rpos b) (bb_storage b))"

lemma bits_left_aligned:
  "bb_bitpos b = 8 \<Longrightarrow> bits_left b = bytes_bits (drop (bb_rpos b) (bb_storage b))"
  by (simp add: bits_left_def)

lemma read_bit_refines:
  assumes left: "bits_left b = x # xs" and pos: "bb_bitpos b \<le> 8"
  obtains b' where "read_bit b = Inr (x, b')" and "bits_left b' = xs"
    and "bb_bitpos b' \<le> 8" and "bb_storage b' = bb_storage b"
proof (cases "bb_bitpos b < 7")
  case True
  let ?b = "b\<lparr>bb_bitpos := Suc (bb_bitpos b)\<rparr>"
  have d: "drop (Suc (bb_bitpos b)) (byte_bits (bb_curbitval b)) =
      bit (bb_curbitval b) (6 - bb_bitpos b) # drop (Suc (Suc (bb_bitpos b))) (byte_bits (bb_curbitval b))"
    using True by (subst Cons_nth_drop_Suc [symmetric]) (simp_all add: nth_byte_bits)
  with left have "x = bit (bb_curbitval b) (6 - bb_bitpos b)" and "bits_left ?b = xs"
    by (simp_all add: bits_left_def)
  moreover have "read_bit b = Inr (bit (bb_curbitval b) (6 - bb_bitpos b), ?b)"
    using True by (simp add: read_bit_def)
  ultimately show ?thesis using that True by simp
next
  case False
  with left have "bytes_bits (drop (bb_rpos b) (bb_storage b)) = x # xs"
    by (simp add: bits_left_def)
  then have "drop (bb_rpos b) (bb_storage b) \<noteq> []" by (intro notI) simp
  then have r: "bb_rpos b < bb_size b" by (simp add: bb_size_def)
  let ?c = "bb_storage b ! bb_rpos b"
  let ?b = "b\<lparr>bb_bitpos := 0, bb_rpos := Suc (bb_rpos b), bb_curbitval := ?c\<rparr>"
  have split: "drop (bb_rpos b) (bb_storage b) = ?c # drop (Suc (bb_rpos b)) (bb_storage b)"
    using r by (simp add: Cons_nth_drop_Suc bb_size_def)
  have e: "byte_bits ?c = bit ?c 7 # drop 1 (byte_bits ?c)"
    unfolding byte_bits_def by (subst (1 2) upt_conv_Cons) simp_all
  have "byte_bits ?c @ bytes_bits (drop (Suc (bb_rpos b)) (bb_storage b)) = x # xs"
    using split left False by (simp add: bits_left_def)
  then have "bit ?c 7 # drop 1 (byte_bits ?c) @ bytes_bits (drop (Suc (bb_rpos b)) (bb_storage b)) = x # xs"
    by (metis e append_Cons)
  then have "x = bit ?c 7" and "bits_left ?b = xs" by (simp_all add: bits_left_def)
  moreover have "read_bit b = Inr (bit ?c 7, ?b)"
    using False r by (simp add: read_bit_def get_u8_eq bb_size_def)
  ultimately show ?thesis using that by simp
qed

lemma read_bit_end:
  assumes "bits_left b = []" and "bb_bitpos b \<le> 8"
  shows "read_bit b = Inl (GetFailed (bb_rpos b) 1 (bb_size b))"
proof -
  from assms(1) have "length (drop (bb_bitpos b + 1) (byte_bits (bb_curbitval b))) = 0"
    and "length (bytes_bits (drop (bb_rpos b) (bb_storage b))) = 0"
    unfolding bits_left_def by (metis append_is_Nil_conv list.size(3))+
  then have "7 \<le> bb_bitpos b" and "bb_size b \<le> bb_rpos b" by (simp_all add: bb_size_def)
  then show ?thesis by (simp add: read_bit_def get_u8_eq bb_size_def)
qed

text \<open>The bit position of the reader in the buffer: each bit moves it by one.\<close>

definition bit_cursor :: "'a byte_buffer_scheme \<Rightarrow> nat" where
  "bit_cursor b = 8 * bb_rpos b + min (bb_bitpos b) 7"

lemma read_bit_cursor:
  assumes "read_bit b = Inr (x, b')" and "bb_bitpos b \<le> 8"
  shows "bit_cursor b' = Suc (bit_cursor b)" and "bb_bitpos b' \<le> 7"
  using assms
  by (auto simp: read_bit_def get_u8_eq bb_size_def bit_cursor_def Let_def sum_bind_Inr_iff split: if_splits)

lemma read_bits_loop_cursor:
  "read_bits_loop v n b = Inr (w, b') \<Longrightarrow> bb_bitpos b \<le> 7 \<Longrightarrow>
     bit_cursor b' = bit_cursor b + n \<and> bb_bitpos b' \<le> 7"
proof (induction n arbitrary: v b)
  case (Suc n)
  from Suc.prems(1) obtain x c where c: "read_bit b = Inr (x, c)"
    "read_bits_loop (if x then v OR push_bit n 1 else v) n c = Inr (w, b')"
    by (auto simp: sum_bind_Inr_iff)
  from read_bit_cursor [OF c(1)] Suc.prems(2) have "bit_cursor c = Suc (bit_cursor b)" "bb_bitpos c \<le> 7"
    by simp_all
  with Suc.IH [OF c(2)] show ?case by simp
qed simp

lemma read_bits_loop_refines:
  assumes "bits_left b = word_bits (w :: u32) n @ ys" and "bb_bitpos b \<le> 8"
  obtains b' where "read_bits_loop v n b = Inr (v OR take_bit n w, b')" and "bits_left b' = ys"
    and "bb_bitpos b' \<le> 8" and "bb_storage b' = bb_storage b"
using assms
proof (induction n arbitrary: v b thesis)
  case 0
  then show ?case by simp
next
  case (Suc n)
  obtain c where c: "read_bit b = Inr (bit w n, c)" "bits_left c = word_bits w n @ ys"
    "bb_bitpos c \<le> 8" "bb_storage c = bb_storage b"
    using read_bit_refines [of b "bit w n" "word_bits w n @ ys"] Suc.prems by auto
  let ?v = "if bit w n then v OR push_bit n 1 else v"
  have v: "?v OR take_bit n w = v OR take_bit (Suc n) w"
    by (rule bit_word_eqI) (auto simp: bit_or_iff bit_take_bit_iff bit_exp_iff less_Suc_eq)
  obtain d where "read_bits_loop ?v n c = Inr (?v OR take_bit n w, d)" "bits_left d = ys"
    "bb_bitpos d \<le> 8" "bb_storage d = bb_storage c"
    using Suc.IH [of ?v c] c by auto
  with c Suc.prems(1) [of d] v show ?case by simp
qed

lemma read_bits_refines:
  assumes "bits_left b = word_bits (w :: u32) n @ ys" and "bb_bitpos b \<le> 8"
  obtains b' where "read_bits n b = Inr (take_bit n w, b')" and "bits_left b' = ys"
    and "bb_bitpos b' \<le> 8" and "bb_storage b' = bb_storage b"
  using read_bits_loop_refines [OF assms, of 0] by (auto simp: read_bits_def)

lemma writer_inv_empty: "writer_inv bb_empty"
  by (simp add: writer_inv_def at_end_def bb_size_def bb_empty_def)

section \<open>Strings\<close>

lemma get_string_loop_terminated:
  assumes "drop (bb_rpos b) (bb_storage b) = s @ 0 # rest" and "0 \<notin> set s"
  shows "get_string_loop v b =
    Inr (v @ s, b\<lparr>bb_bitpos := 8, bb_rpos := bb_rpos b + length s + 1\<rparr>)"
using assms
proof (induction s arbitrary: v b)
  case Nil
  then have r: "bb_rpos b < bb_size b"
    by (metis append_Nil bb_size_def drop_all list.distinct(1) not_less)
  then have "bb_storage b ! bb_rpos b = 0"
    using Nil by (metis append_Nil bb_size_def hd_drop_conv_nth list.sel(1))
  with r show ?case by (subst get_string_loop.simps) (simp add: get_u8_eq)
next
  case (Cons c s)
  have r: "bb_rpos b < bb_size b"
    using Cons.prems(1) by (metis append_Cons bb_size_def drop_all list.distinct(1) not_less)
  then have c: "bb_storage b ! bb_rpos b = c"
    using Cons.prems(1) by (metis append_Cons bb_size_def hd_drop_conv_nth list.sel(1))
  have "drop (Suc (bb_rpos b)) (bb_storage b) = s @ 0 # rest"
    using Cons.prems(1) by (metis append_Cons drop_Suc list.sel(3) tl_drop)
  with Cons.IH [of "b\<lparr>bb_bitpos := 8, bb_rpos := Suc (bb_rpos b)\<rparr>" "v @ [c]"] Cons.prems r c
  show ?case by (subst get_string_loop.simps) (simp add: get_u8_eq)
qed

lemma get_string_terminated:
  assumes "drop (bb_rpos b) (bb_storage b) = s @ 0 # rest" and "0 \<notin> set s"
  shows "get_string b = Inr (s, b\<lparr>bb_bitpos := 8, bb_rpos := bb_rpos b + length s + 1\<rparr>)"
  using get_string_loop_terminated [OF assms, of "[]"] by (simp add: get_string_def)

lemma get_string_loop_total: "\<exists>s b'. get_string_loop v b = Inr (s, b') \<and> bb_storage b' = bb_storage b"
proof (induction v b rule: get_string_loop.induct)
  case (1 v b)
  show ?case
  proof (cases "bb_rpos b < bb_size b")
    case True
    show ?thesis
    proof (cases "bb_storage b ! bb_rpos b = 0")
      case True
      with \<open>bb_rpos b < bb_size b\<close> show ?thesis
        by (subst get_string_loop.simps) (simp add: get_u8_eq)
    next
      case False
      with "1.IH" [OF True, of _ "bb_storage b ! bb_rpos b"
          "b\<lparr>bb_bitpos := 8, bb_rpos := Suc (bb_rpos b)\<rparr>"] True
      show ?thesis by (subst get_string_loop.simps) (simp add: get_u8_eq)
    qed
  next
    case False
    then show ?thesis by (subst get_string_loop.simps) simp
  qed
qed

lemma read_string_loop_exact:
  assumes "bb_rpos b + n \<le> bb_size b"
  shows "read_string_loop (bb_rpos b + n) out b =
    Inr (out @ take n (drop (bb_rpos b) (bb_storage b)),
         if n = 0 then b else b\<lparr>bb_bitpos := 8, bb_rpos := bb_rpos b + n\<rparr>)"
using assms
proof (induction n arbitrary: out b)
  case 0
  then show ?case by (subst read_string_loop.simps) simp
next
  case (Suc n)
  let ?b = "b\<lparr>bb_bitpos := 8, bb_rpos := Suc (bb_rpos b)\<rparr>"
  have "drop (bb_rpos b) (bb_storage b) = bb_storage b ! bb_rpos b # drop (Suc (bb_rpos b)) (bb_storage b)"
    using Suc.prems by (simp add: Cons_nth_drop_Suc bb_size_def)
  with Suc.IH [of ?b "out @ [bb_storage b ! bb_rpos b]"] Suc.prems show ?case
    by (subst read_string_loop.simps) (auto simp: get_u8_eq bb_size_def)
qed

lemma read_string_exact:
  assumes "bb_rpos b + n \<le> bb_size b" and "bb_size b < 2 ^ 32"
  shows "read_string (of_nat n) b =
    Inr (take n (drop (bb_rpos b) (bb_storage b)),
         if n = 0 then b else b\<lparr>bb_bitpos := 8, bb_rpos := bb_rpos b + n\<rparr>)"
proof -
  have "unat (of_nat (bb_rpos b) + of_nat n :: u32) = bb_rpos b + n"
    unfolding of_nat_add [symmetric] unsigned_of_nat
    using assms by (simp add: take_bit_nat_eq_self)
  then show ?thesis
    using read_string_loop_exact [OF assms(1), of "[]"] by (simp add: read_string_def Let_def)
qed

section \<open>Bit fields\<close>

text \<open>A sequence of \<open>WriteBits\<close> calls, and the \<open>ReadBits\<close> calls of the same widths.\<close>

fun write_fields :: "(u32 \<times> nat) list \<Rightarrow> 'a byte_buffer_scheme \<Rightarrow> bb_error + 'a byte_buffer_scheme" where
  "write_fields [] b = Inr b"
| "write_fields ((v, n) # fs) b = sum_bind (write_bits v n b) (write_fields fs)"

fun read_fields :: "nat list \<Rightarrow> 'a byte_buffer_scheme \<Rightarrow> bb_error + (u32 list \<times> 'a byte_buffer_scheme)" where
  "read_fields [] b = Inr ([], b)"
| "read_fields (n # ns) b =
     sum_bind (read_bits n b) (\<lambda>(v, b). sum_bind (read_fields ns b) (\<lambda>(vs, b). Inr (v # vs, b)))"

definition fields_bits :: "(u32 \<times> nat) list \<Rightarrow> bool list" where
  "fields_bits fs = concat (map (\<lambda>(v, n). word_bits v n) fs)"

definition fields_width :: "(u32 \<times> nat) list \<Rightarrow> nat" where
  "fields_width fs = sum_list (map snd fs)"

lemma fields_simps [simp]:
  "fields_bits [] = []" "fields_bits ((v, n) # fs) = word_bits v n @ fields_bits fs"
  "fields_width [] = 0" "fields_width ((v, n) # fs) = n + fields_width fs"
  "length (fields_bits fs) = fields_width fs"
  by (simp_all add: fields_bits_def fields_width_def length_concat comp_def case_prod_beta)

lemma write_bits_rpos: "write_bits v n b = Inr b' \<Longrightarrow> bb_rpos b' = bb_rpos b"
proof (induction n arbitrary: b)
  case (Suc n)
  then obtain c where c: "write_bit (bit v n) b = Inr c" "write_bits v n c = Inr b'"
    by (auto simp: sum_bind_Inr_iff)
  have "append_bytes xs u = Inr w \<Longrightarrow> bb_rpos w = bb_rpos u" for xs and u w :: "'a byte_buffer_scheme"
    by (auto simp: append_bytes_def Let_def split: if_splits)
  then have "bb_rpos c = bb_rpos b"
    using c(1) by (auto simp: write_bit_def Let_def append_value_def flush_bits_def sum_bind_Inr_iff split: if_splits)
  with Suc.IH [OF c(2)] show ?case by simp
qed simp

lemma write_fields_refines:
  "writer_inv b \<Longrightarrow> bb_size b + fields_width fs < 10000000 \<Longrightarrow>
     \<exists>b'. write_fields fs b = Inr b' \<and> writer_inv b' \<and> bits_written b' = bits_written b @ fields_bits fs \<and>
       bb_size b' \<le> bb_size b + fields_width fs \<and> bb_rpos b' = bb_rpos b"
proof (induction fs arbitrary: b)
  case (Cons f fs)
  obtain v n where f: "f = (v, n)" by fastforce
  have "bb_size b + n < 10000000" using Cons.prems(2) f by simp
  from write_bits_refines [OF Cons.prems(1) this, of v] obtain c where
    c: "write_bits v n b = Inr c" "writer_inv c" "bits_written c = bits_written b @ word_bits v n"
      "bb_size c \<le> bb_size b + n" by blast
  have "bb_size c + fields_width fs < 10000000" using c(4) Cons.prems(2) f by simp
  from Cons.IH [OF c(2) this] c write_bits_rpos [OF c(1)] f show ?case by auto
qed simp

lemma read_bits_cursor:
  assumes "read_bits n b = Inr (v, b')" and "bb_bitpos b \<le> 8"
  shows "bit_cursor b' = bit_cursor b + n" and "bb_bitpos b' \<le> 8"
proof -
  have "bit_cursor b' = bit_cursor b + n \<and> bb_bitpos b' \<le> 8"
  proof (cases n)
    case 0
    then show ?thesis using assms by (simp add: read_bits_def)
  next
    case (Suc m)
    then obtain x c where c: "read_bit b = Inr (x, c)" "read_bits_loop (if x then 0 OR push_bit m 1 else 0) m c = Inr (v, b')"
      using assms(1) by (auto simp: read_bits_def sum_bind_Inr_iff)
    from read_bit_cursor [OF c(1) assms(2)] read_bits_loop_cursor [OF c(2)] Suc show ?thesis by simp
  qed
  then show "bit_cursor b' = bit_cursor b + n" "bb_bitpos b' \<le> 8" by simp_all
qed

lemma read_fields_refines:
  "bits_left b = fields_bits fs @ ys \<Longrightarrow> bb_bitpos b \<le> 8 \<Longrightarrow>
     \<exists>b'. read_fields (map snd fs) b = Inr (map (\<lambda>(v, n). take_bit n v) fs, b') \<and> bits_left b' = ys \<and>
       bb_bitpos b' \<le> 8 \<and> bb_storage b' = bb_storage b \<and> bit_cursor b' = bit_cursor b + fields_width fs"
proof (induction fs arbitrary: b)
  case (Cons f fs)
  obtain v n where f: "f = (v, n)" by fastforce
  then have "bits_left b = word_bits v n @ (fields_bits fs @ ys)" using Cons.prems(1) by simp
  from read_bits_refines [OF this Cons.prems(2)] obtain c where
    c: "read_bits n b = Inr (take_bit n v, c)" "bits_left c = fields_bits fs @ ys" "bb_bitpos c \<le> 8"
      "bb_storage c = bb_storage b" by blast
  from Cons.IH [OF c(2,3)] c(1,4) read_bits_cursor(1) [OF c(1) Cons.prems(2)] f show ?case by auto
qed simp

lemma bit_fields_read_back:
  assumes "fields_width fs < 9999999"
  shows "\<exists>b b' c. write_fields fs bb_empty = Inr b \<and> flush_bits b = Inr b' \<and>
    read_fields (map snd fs) (bb_extend payload b') = Inr (map (\<lambda>(v, n). take_bit n v) fs, c) \<and>
    drop (bb_rpos c) (bb_storage c) = payload"
proof -
  obtain b where b: "write_fields fs bb_empty = Inr b" "writer_inv b" "bits_written b = fields_bits fs"
    "bb_size b \<le> fields_width fs" "bb_rpos b = 0"
    using write_fields_refines [OF writer_inv_empty, of fs] assms by (auto simp: bits_written_def)
  have "bb_size b < 10000000" using b(4) assms by simp
  from flush_bits_refines [OF b(2) this] obtain b' n where
    b': "flush_bits b = Inr b'" "aligned b'" "n < 8" "bytes_bits (bb_storage b') = bits_written b @ replicate n False"
      "bb_rpos b' = bb_rpos b" by blast
  let ?r = "bb_extend payload b'"
  have pos: "bb_bitpos ?r = 8" "bb_rpos ?r = 0" using b'(2,5) b(5) by (simp_all add: aligned_def)
  then have "bits_left ?r = fields_bits fs @ (replicate n False @ bytes_bits payload)"
    using b'(4) b(3) by (simp add: bits_left_aligned)
  from read_fields_refines [OF this] pos obtain c where
    c: "read_fields (map snd fs) ?r = Inr (map (\<lambda>(v, n). take_bit n v) fs, c)" "bb_bitpos c \<le> 8"
      "bb_storage c = bb_storage b' @ payload" "bit_cursor c = bit_cursor ?r + fields_width fs" by auto
  have "8 * length (bb_storage b') = fields_width fs + n"
    using arg_cong [OF b'(4), of length] b(3) by simp
  moreover have "8 * bb_rpos c + min (bb_bitpos c) 7 = 7 + fields_width fs"
    using c(4) pos by (simp add: bit_cursor_def)
  ultimately have "bb_rpos c = length (bb_storage b')" using b'(3) c(2) by linarith
  then show ?thesis using b(1) b'(1) c(1,3) by auto
qed

section \<open>Properties\<close>

text \<open>
  Bit fields read back. Writing any values with any widths through \<open>WriteBits\<close>, flushing and
  appending bytes, then reading the same widths through \<open>ReadBits\<close>, gives each value modulo two to
  its width; and the read position is left exactly at the appended bytes, so that the byte fields
  of a packet never overlap its bit header.
\<close>

theorem bit_fields_roundtrip:
  assumes "fields_width fs < 9999999"
  shows "\<exists>b b' c. write_fields fs bb_empty = Inr b \<and> flush_bits b = Inr b' \<and>
    read_fields (map snd fs) (bb_extend payload b') = Inr (map (\<lambda>(v, n). take_bit n v) fs, c) \<and>
    drop (bb_rpos c) (bb_storage c) = payload"
  by (rule bit_fields_read_back [OF assms])

theorem bit_fields_roundtrip_witness:
  "\<exists>b b' c. write_fields [(5, 3), (1, 1), (300, 11)] bb_empty = Inr b \<and> flush_bits b = Inr b' \<and>
    read_fields [3, 1, 11] (bb_extend [7, 8] b') = Inr ([5, 1, 300], c) \<and> drop (bb_rpos c) (bb_storage c) = [7, 8]"
  using bit_fields_roundtrip [of "[(5, 3), (1, 1), (300, 11)]" "[7, 8]"] by (simp add: take_bit_eq_mod)

end
