(* ===== verification/ObjectGuid.thy ===== *)
theory ObjectGuid
  imports ByteBuffer
begin

text \<open>
  Object identifiers, \<open>src/src/game/Object/ObjectGuid.h\<close> and \<open>ObjectGuid.cpp\<close>, and their
  three wire forms: the plain 64-bit value, the packed form (a mask byte and the non-zero
  bytes, \<open>ByteBuffer::appendPackGUID\<close> and \<open>readPackGUID\<close>) and the masked form of the 5.4.8
  packets (a bit per byte and, later, each non-zero byte XOR 1, in two orders of the packet's
  choosing). An \<open>ObjectGuid\<close> is its raw 64-bit value; \<open>HighGuid\<close> is an unscoped enum that is
  also cast from arbitrary values, so it is a 32-bit word with named constants.
\<close>

section \<open>The identifier\<close>

type_synonym guid = u64
type_synonym high_guid = u32

abbreviation (input) HIGHGUID_ITEM :: high_guid where "HIGHGUID_ITEM \<equiv> 0x470"
abbreviation (input) HIGHGUID_PLAYER :: high_guid where "HIGHGUID_PLAYER \<equiv> 0x000"
abbreviation (input) HIGHGUID_GAMEOBJECT :: high_guid where "HIGHGUID_GAMEOBJECT \<equiv> 0xF11"
abbreviation (input) HIGHGUID_TRANSPORT :: high_guid where "HIGHGUID_TRANSPORT \<equiv> 0xF12"
abbreviation (input) HIGHGUID_UNIT :: high_guid where "HIGHGUID_UNIT \<equiv> 0xF13"
abbreviation (input) HIGHGUID_PET :: high_guid where "HIGHGUID_PET \<equiv> 0xF14"
abbreviation (input) HIGHGUID_VEHICLE :: high_guid where "HIGHGUID_VEHICLE \<equiv> 0xF15"
abbreviation (input) HIGHGUID_DYNAMICOBJECT :: high_guid where "HIGHGUID_DYNAMICOBJECT \<equiv> 0xF10"
abbreviation (input) HIGHGUID_CORPSE :: high_guid where "HIGHGUID_CORPSE \<equiv> 0xF50"
abbreviation (input) HIGHGUID_BATTLEGROUND :: high_guid where "HIGHGUID_BATTLEGROUND \<equiv> 0x1F1"
abbreviation (input) HIGHGUID_MO_TRANSPORT :: high_guid where "HIGHGUID_MO_TRANSPORT \<equiv> 0x1FC"
abbreviation (input) HIGHGUID_INSTANCE :: high_guid where "HIGHGUID_INSTANCE \<equiv> 0x1F4"
abbreviation (input) HIGHGUID_GROUP :: high_guid where "HIGHGUID_GROUP \<equiv> 0x1F5"
abbreviation (input) HIGHGUID_GUILD :: high_guid where "HIGHGUID_GUILD \<equiv> 0x1FF7"

datatype type_id =
    TYPEID_OBJECT | TYPEID_ITEM | TYPEID_CONTAINER | TYPEID_UNIT
  | TYPEID_PLAYER | TYPEID_GAMEOBJECT | TYPEID_DYNAMICOBJECT | TYPEID_CORPSE

definition is_large_high :: "high_guid \<Rightarrow> bool" where
  "is_large_high high \<longleftrightarrow> high = HIGHGUID_GUILD"

definition has_entry_high :: "high_guid \<Rightarrow> bool" where
  "has_entry_high high \<longleftrightarrow>
     high \<notin> {HIGHGUID_ITEM, HIGHGUID_PLAYER, HIGHGUID_DYNAMICOBJECT, HIGHGUID_CORPSE,
       HIGHGUID_MO_TRANSPORT, HIGHGUID_INSTANCE, HIGHGUID_GROUP}"

definition guid_with_entry :: "high_guid \<Rightarrow> u32 \<Rightarrow> u32 \<Rightarrow> guid" where
  "guid_with_entry hi entry counter =
     (if counter \<noteq> 0
      then ucast counter OR push_bit 32 (ucast entry)
             OR push_bit (if is_large_high hi then 48 else 52) (ucast hi)
      else 0)"

definition guid_of_counter :: "high_guid \<Rightarrow> u32 \<Rightarrow> guid" where
  "guid_of_counter hi counter =
     (if counter \<noteq> 0
      then ucast counter OR push_bit (if is_large_high hi then 48 else 52) (ucast hi)
      else 0)"

definition get_high :: "guid \<Rightarrow> high_guid" where
  "get_high g =
     (let high = ucast (drop_bit 48 g AND 0xFFFF)
      in if is_large_high high then high else ucast (drop_bit 52 g AND 0xFFF))"

definition get_entry :: "guid \<Rightarrow> u32" where
  "get_entry g =
     (if has_entry_high (get_high g)
      then ucast (drop_bit 32 g AND (if is_large_high (get_high g) then 0xFFFF else 0xFFFFF))
      else 0)"

definition get_counter :: "guid \<Rightarrow> u32" where
  "get_counter g = ucast (g AND 0x00000000FFFFFFFF)"

definition guid_type_id :: "high_guid \<Rightarrow> type_id" where
  "guid_type_id high =
     (if high = HIGHGUID_ITEM then TYPEID_ITEM
      else if high = HIGHGUID_UNIT then TYPEID_UNIT
      else if high = HIGHGUID_PET then TYPEID_UNIT
      else if high = HIGHGUID_PLAYER then TYPEID_PLAYER
      else if high = HIGHGUID_GAMEOBJECT then TYPEID_GAMEOBJECT
      else if high = HIGHGUID_DYNAMICOBJECT then TYPEID_DYNAMICOBJECT
      else if high = HIGHGUID_CORPSE then TYPEID_CORPSE
      else if high = HIGHGUID_MO_TRANSPORT then TYPEID_GAMEOBJECT
      else if high = HIGHGUID_VEHICLE then TYPEID_UNIT
      else TYPEID_OBJECT)"

definition guid_is_player :: "guid \<Rightarrow> bool" where
  "guid_is_player g \<longleftrightarrow> g \<noteq> 0 \<and> get_high g = HIGHGUID_PLAYER"

definition guid_is_any_type_creature :: "guid \<Rightarrow> bool" where
  "guid_is_any_type_creature g \<longleftrightarrow>
     get_high g = HIGHGUID_UNIT \<or> get_high g = HIGHGUID_PET \<or> get_high g = HIGHGUID_VEHICLE"

definition guid_is_unit :: "guid \<Rightarrow> bool" where
  "guid_is_unit g \<longleftrightarrow> guid_is_any_type_creature g \<or> guid_is_player g"

text \<open>
  \<open>ObjectGuidGenerator::Generate\<close>: whether the server stop is requested because the counters
  run out, the generated counter and the next one. The stop only sets a flag: the counter is
  returned and advanced all the same.
\<close>

definition guid_generate :: "u32 \<Rightarrow> bool \<times> u32 \<times> u32" where
  "guid_generate nextGuid = (nextGuid \<ge> 0xFFFFFFFF - 1, nextGuid, nextGuid + 1)"

definition guid_byte :: "guid \<Rightarrow> nat \<Rightarrow> u8" where
  "guid_byte g i = ucast (drop_bit (8 * i) g)"

definition guid_set_byte :: "nat \<Rightarrow> u8 \<Rightarrow> guid \<Rightarrow> guid" where
  "guid_set_byte i v g = (g AND NOT (push_bit (8 * i) 0xFF)) OR push_bit (8 * i) (ucast v)"

section \<open>The packed form\<close>

function append_pack_loop :: "nat \<Rightarrow> guid \<Rightarrow> u8 \<Rightarrow> u8 list \<Rightarrow> u8 \<times> u8 list" where
  "append_pack_loop i g mark bytes =
     (if g = 0 then (mark, bytes)
      else if g AND 0xFF \<noteq> 0
      then append_pack_loop (i + 1) (drop_bit 8 g) (mark OR push_bit i 1) (bytes @ [ucast (g AND 0xFF)])
      else append_pack_loop (i + 1) (drop_bit 8 g) mark bytes)"
  by pat_completeness auto

termination append_pack_loop
  by (relation "measure (\<lambda>(i, g, m, bs). unat g)") (simp_all add: unat_drop_bit_8_less)

declare append_pack_loop.simps [simp del]

definition append_pack_guid :: "guid \<Rightarrow> 'a byte_buffer_scheme \<Rightarrow> bb_error + 'a byte_buffer_scheme" where
  "append_pack_guid g b =
     (case append_pack_loop 0 g 0 [] of (mark, bytes) \<Rightarrow> append_bytes (mark # bytes) b)"

fun read_pack_loop :: "u8 \<Rightarrow> nat list \<Rightarrow> guid \<Rightarrow> 'a byte_buffer_scheme \<Rightarrow> bb_error + (guid \<times> 'a byte_buffer_scheme)" where
  "read_pack_loop mark [] g b = Inr (g, b)"
| "read_pack_loop mark (i # is) g b =
     (if bit mark i
      then sum_bind (get_u8 b) (\<lambda>(x, b). read_pack_loop mark is (g OR push_bit (i * 8) (ucast x)) b)
      else read_pack_loop mark is g b)"

definition read_pack_guid :: "'a byte_buffer_scheme \<Rightarrow> bb_error + (guid \<times> 'a byte_buffer_scheme)" where
  "read_pack_guid b = sum_bind (get_u8 b) (\<lambda>(mark, b). read_pack_loop mark [0..<8] 0 b)"

text \<open>\<open>PackedGuid\<close>: a small buffer; \<open>Set\<close> rewinds the write position and appends again.\<close>

definition packed_guid_new :: "guid \<Rightarrow> bb_error + byte_buffer" where
  "packed_guid_new g = append_pack_guid g bb_empty"

definition packed_guid_set :: "guid \<Rightarrow> byte_buffer \<Rightarrow> bb_error + byte_buffer" where
  "packed_guid_set g p = append_pack_guid g (p\<lparr>bb_wpos := 0\<rparr>)"

section \<open>The masked form\<close>

fun write_guid_mask :: "guid \<Rightarrow> nat list \<Rightarrow> 'a byte_buffer_scheme \<Rightarrow> bb_error + 'a byte_buffer_scheme" where
  "write_guid_mask g [] b = Inr b"
| "write_guid_mask g (i # is) b =
     (if \<not> i < 8 then Inl AssertFailed
      else sum_bind (write_bit (guid_byte g i \<noteq> 0) b) (write_guid_mask g is))"

fun write_guid_bytes :: "guid \<Rightarrow> nat list \<Rightarrow> 'a byte_buffer_scheme \<Rightarrow> bb_error + 'a byte_buffer_scheme" where
  "write_guid_bytes g [] b = Inr b"
| "write_guid_bytes g (i # is) b =
     (if \<not> i < 8 then Inl AssertFailed
      else if guid_byte g i \<noteq> 0
      then sum_bind (put_u8 (guid_byte g i XOR 1) b) (write_guid_bytes g is)
      else write_guid_bytes g is b)"

fun read_guid_mask :: "nat list \<Rightarrow> guid \<Rightarrow> 'a byte_buffer_scheme \<Rightarrow> bb_error + (guid \<times> 'a byte_buffer_scheme)" where
  "read_guid_mask [] g b = Inr (g, b)"
| "read_guid_mask (i # is) g b =
     sum_bind (read_bit b)
       (\<lambda>(x, b). if \<not> i < 8 then Inl AssertFailed
                 else read_guid_mask is (guid_set_byte i (if x then 1 else 0) g) b)"

fun read_guid_bytes :: "nat list \<Rightarrow> guid \<Rightarrow> 'a byte_buffer_scheme \<Rightarrow> bb_error + (guid \<times> 'a byte_buffer_scheme)" where
  "read_guid_bytes [] g b = Inr (g, b)"
| "read_guid_bytes (i # is) g b =
     (if \<not> i < 8 then Inl AssertFailed
      else if guid_byte g i \<noteq> 0
      then sum_bind (get_u8 b)
             (\<lambda>(c, b). read_guid_bytes is (guid_set_byte i (guid_byte g i XOR c) g) b)
      else read_guid_bytes is g b)"

section \<open>Accessors undo the constructor\<close>

lemma bit_guid_byte: "k < 8 \<Longrightarrow> bit (guid_byte g i) k \<longleftrightarrow> bit g (8 * i + k)"
  by (auto simp: guid_byte_def bit_unsigned_iff bit_drop_bit_eq)

lemma guid_eqI:
  assumes "\<And>i. i < 8 \<Longrightarrow> guid_byte g i = guid_byte h i"
  shows "g = h"
proof (rule bit_word_eqI)
  fix n assume "n < LENGTH(64)"
  then have "n div 8 < 8" by auto
  then show "bit g n = bit h n"
    using assms [of "n div 8"] bit_guid_byte [of "n mod 8" g "n div 8"]
      bit_guid_byte [of "n mod 8" h "n div 8"] by simp
qed

lemma guid_byte_set_byte:
  assumes "i < 8" and "j < 8"
  shows "guid_byte (guid_set_byte i v g) j = (if j = i then v else guid_byte g j)"
proof (rule bit_word_eqI)
  fix k assume k: "k < LENGTH(8)"
  have "8 * i \<le> 8 * j + k \<and> 8 * j + k - 8 * i < 8 \<longleftrightarrow> j = i" using k by auto
  with k assms show "bit (guid_byte (guid_set_byte i v g) j) k =
      bit (if j = i then v else guid_byte g j) k"
    by (auto simp: bit_guid_byte guid_set_byte_def bit_or_iff bit_and_iff bit_not_iff
        bit_push_bit_iff bit_unsigned_iff dest: bit_imp_le_length)
qed

lemma is_large_high_simps [simp]:
  "is_large_high HIGHGUID_GUILD"
  "hi \<noteq> HIGHGUID_GUILD \<Longrightarrow> \<not> is_large_high hi"
  by (simp_all add: is_large_high_def)

text \<open>
  The 12-bit high parts other than \<open>0x1FF\<close> (which with an entry in \<open>0x70000..0x7FFFF\<close> would
  look like a guild identifier; the enum has no such value) are recovered.
\<close>

lemma less_exp_bit: "(w :: 'a::len word) < 2 ^ m \<Longrightarrow> m < LENGTH('a) \<Longrightarrow> bit w n \<Longrightarrow> n < m"
  by (metis bit_take_bit_iff less_mask_eq take_bit_eq_mask)

lemma bit_guid_with_entry:
  assumes "\<not> is_large_high hi" and "counter \<noteq> 0"
  shows "bit (guid_with_entry hi entry counter) n \<longleftrightarrow>
     n < 64 \<and> (bit counter n \<or> 32 \<le> n \<and> bit entry (n - 32) \<or> 52 \<le> n \<and> bit hi (n - 52))"
  using assms
  by (auto simp: guid_with_entry_def bit_or_iff bit_push_bit_iff bit_unsigned_iff dest: bit_imp_le_length)

lemma get_high_with_entry:
  assumes hi: "hi < 2 ^ 12" "hi \<noteq> 0x1FF" and entry: "entry < 2 ^ 20" and "counter \<noteq> 0"
  shows "get_high (guid_with_entry hi entry counter) = hi"
proof -
  have nl: "\<not> is_large_high hi" using hi(1) by (auto simp: is_large_high_def)
  note g = bit_guid_with_entry [OF nl assms(4)]
  have hbit: "bit hi n \<Longrightarrow> n < 12" for n using less_exp_bit [OF hi(1)] by simp
  have ebit: "bit entry n \<Longrightarrow> n < 20" for n using less_exp_bit [OF entry] by simp
  let ?g = "guid_with_entry hi entry counter"
  have low: "ucast (drop_bit 52 ?g AND 0xFFF) = hi"
    by (rule bit_word_eqI)
       (auto simp: g bit_unsigned_iff bit_and_iff bit_drop_bit_eq dest: bit_imp_le_length hbit ebit)
  have "(ucast (drop_bit 48 ?g AND 0xFFFF) :: u32) \<noteq> HIGHGUID_GUILD"
  proof
    assume e: "(ucast (drop_bit 48 ?g AND 0xFFFF) :: u32) = HIGHGUID_GUILD"
    have "hi = drop_bit 4 (ucast (drop_bit 48 ?g AND 0xFFFF))"
      by (rule bit_word_eqI)
         (auto simp: g bit_unsigned_iff bit_and_iff bit_drop_bit_eq dest: bit_imp_le_length hbit ebit)
    with e hi(2) show False by simp
  qed
  with low show ?thesis by (simp add: get_high_def is_large_high_def Let_def)
qed

lemma get_counter_with_entry:
  assumes "\<not> is_large_high hi" and "counter \<noteq> 0"
  shows "get_counter (guid_with_entry hi entry counter) = counter"
  by (rule bit_word_eqI)
     (auto simp: get_counter_def bit_guid_with_entry [OF assms] bit_unsigned_iff bit_and_iff
       dest: bit_imp_le_length)

lemma get_entry_with_entry:
  assumes "hi < 2 ^ 12" "hi \<noteq> 0x1FF" and "entry < 2 ^ 20" and "counter \<noteq> 0"
    and "has_entry_high hi"
  shows "get_entry (guid_with_entry hi entry counter) = entry"
proof -
  have nl: "\<not> is_large_high hi" using assms(1) by (auto simp: is_large_high_def)
  have ebit: "bit entry n \<Longrightarrow> n < 20" for n using less_exp_bit [OF assms(3)] by simp
  have "(ucast (drop_bit 32 (guid_with_entry hi entry counter) AND 0xFFFFF) :: u32) = entry"
    by (rule bit_word_eqI)
       (auto simp: bit_guid_with_entry [OF nl assms(4)] bit_unsigned_iff bit_and_iff bit_drop_bit_eq
         dest: bit_imp_le_length ebit)
  with assms nl show ?thesis by (simp add: get_entry_def get_high_with_entry)
qed

section \<open>The packed form round trips\<close>

text \<open>The bytes of \<open>g\<close> from \<open>i\<close> on that the packed form carries, in order.\<close>

definition packed_bytes :: "guid \<Rightarrow> nat list \<Rightarrow> u8 list" where
  "packed_bytes g is = map (guid_byte g) (filter (\<lambda>i. guid_byte g i \<noteq> 0) is)"

lemma guid_byte_0_eq: "guid_byte g 0 = ucast (g AND 0xFF)"
  by (rule bit_word_eqI) (auto simp: guid_byte_def bit_unsigned_iff bit_and_iff)

lemma and_ff_eq_0_iff: "(g :: guid) AND 0xFF = 0 \<longleftrightarrow> guid_byte g 0 = 0"
proof
  assume "guid_byte g 0 = 0"
  then have "\<not> bit g n" if "n < 8" for n using bit_guid_byte [OF that, of g 0] by simp
  then show "g AND 0xFF = 0" by (intro bit_word_eqI) (auto simp: bit_and_iff)
qed (simp add: guid_byte_0_eq)

lemma guid_byte_drop_bit: "guid_byte (drop_bit 8 g) i = guid_byte g (Suc i)"
  by (simp add: guid_byte_def drop_bit_drop_bit algebra_simps)

lemma append_pack_loop_spec:
  assumes "take_bit (8 * n) g = g" and "i + n \<le> 8"
  shows "\<exists>m'. append_pack_loop i g m bs = (m', bs @ packed_bytes g [0..<n]) \<and>
     (\<forall>j. bit m' j \<longleftrightarrow> bit m j \<or> i \<le> j \<and> j < i + n \<and> guid_byte g (j - i) \<noteq> 0)"
using assms
proof (induction n arbitrary: i g m bs)
  case 0
  then have "g = 0" by simp
  then show ?case by (auto simp: append_pack_loop.simps [of i 0] packed_bytes_def)
next
  case (Suc n)
  let ?m = "if guid_byte g 0 \<noteq> 0 then m OR push_bit i 1 else m"
  let ?bs = "if guid_byte g 0 \<noteq> 0 then bs @ [guid_byte g 0] else bs"
  have step: "append_pack_loop i g m bs = append_pack_loop (Suc i) (drop_bit 8 g) ?m ?bs"
  proof (cases "g = 0")
    case True
    then show ?thesis by (simp add: append_pack_loop.simps [of _ 0] guid_byte_def)
  next
    case False
    then show ?thesis
      by (subst append_pack_loop.simps) (simp add: and_ff_eq_0_iff guid_byte_0_eq)
  qed
  have "take_bit (8 * n) (drop_bit 8 g) = drop_bit 8 g"
    using Suc.prems(1) by (metis add.commute drop_bit_take_bit diff_add_inverse mult_Suc_right)
  from Suc.IH [OF this, of "Suc i" ?m ?bs] Suc.prems(2) obtain m' where
    m': "append_pack_loop (Suc i) (drop_bit 8 g) ?m ?bs = (m', ?bs @ packed_bytes (drop_bit 8 g) [0..<n])"
    and bits: "\<And>j. bit m' j \<longleftrightarrow> bit ?m j \<or> Suc i \<le> j \<and> j < Suc i + n \<and> guid_byte g (Suc (j - Suc i)) \<noteq> 0"
    by (auto simp: guid_byte_drop_bit)
  have "[0..<Suc n] = 0 # map Suc [0..<n]" by (simp add: upt_conv_Cons map_Suc_upt del: upt_Suc)
  then have "?bs @ packed_bytes (drop_bit 8 g) [0..<n] = bs @ packed_bytes g [0..<Suc n]"
    by (simp add: packed_bytes_def guid_byte_drop_bit filter_map comp_def del: upt_Suc)
  moreover have "bit m' j \<longleftrightarrow> bit m j \<or> i \<le> j \<and> j < i + Suc n \<and> guid_byte g (j - i) \<noteq> 0" for j
    using Suc.prems(2) by (cases "j = i") (auto simp: bits bit_or_iff bit_exp_iff Suc_diff_Suc)
  ultimately show ?case using step m' by simp
qed

lemma append_pack_loop_all:
  obtains m where "append_pack_loop 0 g 0 [] = (m, packed_bytes g [0..<8])"
    and "\<And>j. j < 8 \<Longrightarrow> bit m j \<longleftrightarrow> guid_byte g j \<noteq> 0"
  using append_pack_loop_spec [of 8 g 0 0 "[]"] by (auto simp: take_bit_word_eq_self)

lemma bit_push_guid_byte:
  "bit (push_bit (i * 8) (ucast x) :: guid) n \<longleftrightarrow> n < 64 \<and> n div 8 = i \<and> bit (x :: u8) (n mod 8)"
proof -
  have "i * 8 \<le> n \<and> bit x (n - i * 8) \<longleftrightarrow> n div 8 = i \<and> bit x (n mod 8)"
  proof (cases "n div 8 = i")
    case True
    then have "n - i * 8 = n mod 8" and "i * 8 \<le> n" by (auto simp: minus_div_mult_eq_mod)
    with True show ?thesis by simp
  next
    case False
    then have "i * 8 \<le> n \<Longrightarrow> 8 \<le> n - i * 8" by (metis diff_is_0_eq' div_nat_eqI
          less_diff_conv2 linorder_not_less mult.commute mult_Suc_right add.commute)
    then show ?thesis using False by (auto dest: bit_imp_le_length)
  qed
  then show ?thesis by (auto simp: bit_push_bit_iff bit_unsigned_iff)
qed

lemma drop_Cons_nth:
  "drop n xs = y # ys \<Longrightarrow> n < length xs \<and> xs ! n = y \<and> drop (Suc n) xs = ys"
  by (metis Cons_nth_drop_Suc drop_all list.distinct(1) list.inject not_less)

lemma read_pack_loop_spec:
  assumes "drop (bb_rpos b) (bb_storage b) = packed_bytes g is @ rest"
    and "\<And>i. i \<in> set is \<Longrightarrow> i < 8 \<and> (bit mark i \<longleftrightarrow> guid_byte g i \<noteq> 0)"
  shows "\<exists>r b'. read_pack_loop mark is acc b = Inr (r, b') \<and> bb_storage b' = bb_storage b \<and>
     bb_rpos b' = bb_rpos b + length (packed_bytes g is) \<and>
     (\<forall>n. bit r n \<longleftrightarrow> bit acc n \<or> n div 8 \<in> set is \<and> bit g n)"
using assms
proof (induction "is" arbitrary: acc b)
  case Nil
  then show ?case by (simp add: packed_bytes_def)
next
  case (Cons i "is")
  show ?case
  proof (cases "guid_byte g i = 0")
    case True
    then have "\<not> bit g n" if "n div 8 = i" for n
      using bit_guid_byte [of "n mod 8" g i] that by auto
    moreover have "\<not> bit mark i" using True Cons.prems(2) [of i] by simp
    ultimately show ?thesis
      using Cons.IH [of b acc] Cons.prems True by (auto simp: packed_bytes_def)
  next
    case False
    let ?b = "b\<lparr>bb_bitpos := 8, bb_rpos := Suc (bb_rpos b)\<rparr>"
    let ?acc = "acc OR push_bit (i * 8) (ucast (guid_byte g i))"
    from False Cons.prems(1) have "drop (bb_rpos b) (bb_storage b) = guid_byte g i # packed_bytes g is @ rest"
      by (simp add: packed_bytes_def)
    then have r: "bb_rpos b < bb_size b" "bb_storage b ! bb_rpos b = guid_byte g i"
      and d: "drop (bb_rpos ?b) (bb_storage ?b) = packed_bytes g is @ rest"
      by (auto simp: bb_size_def dest: drop_Cons_nth)
    have acc: "bit ?acc n \<longleftrightarrow> bit acc n \<or> n div 8 = i \<and> bit g n" for n
      using bit_guid_byte [of "n mod 8" g i]
      by (auto simp: bit_or_iff bit_push_guid_byte dest: bit_imp_le_length)
    have "bit mark i" using False Cons.prems(2) [of i] by simp
    with r have "read_pack_loop mark (i # is) acc b = read_pack_loop mark is ?acc ?b"
      by (simp add: get_u8_eq)
    with Cons.IH [of ?b ?acc] d Cons.prems(2) False acc show ?thesis
      by (auto simp: packed_bytes_def)
  qed
qed

lemma read_pack_guid_spec:
  assumes "drop (bb_rpos b) (bb_storage b) = mark # packed_bytes g [0..<8] @ rest"
    and "\<And>j. j < 8 \<Longrightarrow> bit mark j \<longleftrightarrow> guid_byte g j \<noteq> 0"
  shows "\<exists>b'. read_pack_guid b = Inr (g, b') \<and> bb_storage b' = bb_storage b \<and>
     bb_rpos b' = bb_rpos b + Suc (length (packed_bytes g [0..<8]))"
proof -
  let ?b = "b\<lparr>bb_bitpos := 8, bb_rpos := Suc (bb_rpos b)\<rparr>"
  have r: "bb_rpos b < bb_size b" "bb_storage b ! bb_rpos b = mark"
    and d: "drop (bb_rpos ?b) (bb_storage ?b) = packed_bytes g [0..<8] @ rest"
    using drop_Cons_nth [OF assms(1)] by (auto simp: bb_size_def)
  define js where "js = [0..<(8::nat)]"
  have set_js: "set js = {..<8}" by (simp add: js_def lessThan_atLeast0)
  have "i < 8 \<and> (bit mark i \<longleftrightarrow> guid_byte g i \<noteq> 0)" if "i \<in> set js" for i
    using that assms(2) by (simp add: set_js)
  from read_pack_loop_spec [OF d [folded js_def] this, of 0]
  obtain r b' where l: "read_pack_loop mark js 0 ?b = Inr (r, b')"
    and b': "bb_storage b' = bb_storage b" "bb_rpos b' = bb_rpos b + Suc (length (packed_bytes g js))"
    and bits: "\<forall>n. bit r n \<longleftrightarrow> n div 8 \<in> set js \<and> bit g n"
    by auto
  have "r = g"
  proof (rule bit_word_eqI)
    fix n assume "n < LENGTH(64)"
    then have "n div 8 < 8" by (simp add: less_mult_imp_div_less)
    with bits set_js show "bit r n = bit g n" by simp
  qed
  with l b' r show ?thesis unfolding js_def read_pack_guid_def by (simp only: get_u8_eq) simp
qed

lemma append_pack_guid_spec:
  assumes "at_end b" and "bb_size b < 10000000"
  obtains mark where "append_pack_guid g b = Inr (bb_extend (mark # packed_bytes g [0..<8]) b)"
    and "\<And>j. j < 8 \<Longrightarrow> bit mark j \<longleftrightarrow> guid_byte g j \<noteq> 0"
  using append_pack_loop_all [of g] assms
  by (metis append_bytes_at_end append_pack_guid_def case_prod_conv)

section \<open>The masked form round trips\<close>

lemma write_guid_mask_refines:
  assumes "writer_inv b" and "bb_size b + length p < 10000000" and "set p \<subseteq> {..<8}"
  shows "\<exists>b'. write_guid_mask g p b = Inr b' \<and> writer_inv b' \<and>
     bits_written b' = bits_written b @ map (\<lambda>i. guid_byte g i \<noteq> 0) p \<and>
     bb_size b' \<le> bb_size b + length p \<and> bb_rpos b' = bb_rpos b"
using assms
proof (induction p arbitrary: b)
  case Nil
  then show ?case by simp
next
  case (Cons i p)
  obtain c where c: "write_bit (guid_byte g i \<noteq> 0) b = Inr c" "writer_inv c"
    "bits_written c = bits_written b @ [guid_byte g i \<noteq> 0]" "bb_size c \<le> bb_size b + 1"
    using write_bit_refines [of b "guid_byte g i \<noteq> 0"] Cons.prems by auto
  have "bb_rpos c = bb_rpos b"
    using c(1) by (auto simp: write_bit_def append_bytes_def Let_def sum_bind_Inr_iff split: if_splits)
  with Cons.IH [of c] c Cons.prems show ?case by auto
qed

lemma write_guid_bytes_aligned:
  assumes "aligned b" and "bb_size b + length q < 10000000" and "set q \<subseteq> {..<8}"
  shows "write_guid_bytes g q b =
    Inr (bb_extend (map (\<lambda>i. guid_byte g i XOR 1) (filter (\<lambda>i. guid_byte g i \<noteq> 0) q)) b)"
using assms
proof (induction q arbitrary: b)
  case Nil
  then show ?case by (simp add: bb_extend_Nil)
next
  case (Cons i q)
  then show ?case
    by (simp add: put_u8_def append_value_aligned aligned_def)
qed

lemma read_bit_rpos:
  "read_bit b = Inr (x, b') \<Longrightarrow> bb_rpos b \<le> bb_size b \<Longrightarrow> bb_rpos b' \<le> bb_size b'"
  by (auto simp: read_bit_def get_u8_eq bb_size_def sum_bind_Inr_iff Let_def split: if_splits)

lemma read_guid_mask_refines:
  assumes "bits_left b = map (\<lambda>i. guid_byte g i \<noteq> 0) p @ ys" and "bb_bitpos b \<le> 8"
    and "bb_rpos b \<le> bb_size b" and "set p \<subseteq> {..<8}" and "distinct p"
  shows "\<exists>m b'. read_guid_mask p m0 b = Inr (m, b') \<and> bits_left b' = ys \<and> bb_bitpos b' \<le> 8 \<and>
     bb_storage b' = bb_storage b \<and> bb_rpos b' \<le> bb_size b' \<and>
     (\<forall>i < 8. guid_byte m i =
        (if i \<in> set p then (if guid_byte g i \<noteq> 0 then 1 else 0) else guid_byte m0 i))"
using assms
proof (induction p arbitrary: b m0)
  case Nil
  then show ?case by simp
next
  case (Cons i p)
  let ?x = "guid_byte g i \<noteq> 0"
  obtain c where c: "read_bit b = Inr (?x, c)" "bits_left c = map (\<lambda>i. guid_byte g i \<noteq> 0) p @ ys"
    "bb_bitpos c \<le> 8" "bb_storage c = bb_storage b"
    using read_bit_refines [of b ?x "map (\<lambda>i. guid_byte g i \<noteq> 0) p @ ys"] Cons.prems by auto
  with read_bit_rpos Cons.prems(3) have "bb_rpos c \<le> bb_size c" by blast
  from Cons.IH [OF c(2,3) this, of "guid_set_byte i (if ?x then 1 else 0) m0"] Cons.prems obtain m d where
    d: "read_guid_mask p (guid_set_byte i (if ?x then 1 else 0) m0) c = Inr (m, d)"
      "bits_left d = ys" "bb_bitpos d \<le> 8" "bb_storage d = bb_storage c" "bb_rpos d \<le> bb_size d"
    and m: "\<forall>j < 8. guid_byte m j = (if j \<in> set p then (if guid_byte g j \<noteq> 0 then 1 else 0)
              else guid_byte (guid_set_byte i (if ?x then 1 else 0) m0) j)"
    by auto
  have "read_guid_mask (i # p) m0 b = Inr (m, d)" using c(1) d(1) Cons.prems(4) by simp
  moreover have "\<forall>j < 8. guid_byte m j = (if j \<in> set (i # p) then (if guid_byte g j \<noteq> 0 then 1 else 0)
      else guid_byte m0 j)"
    using m Cons.prems(4) by (auto simp: guid_byte_set_byte)
  ultimately show ?case using d c(4) by auto
qed

lemma read_guid_bytes_refines:
  assumes "drop (bb_rpos b) (bb_storage b) =
      map (\<lambda>i. guid_byte g i XOR 1) (filter (\<lambda>i. guid_byte g i \<noteq> 0) q) @ rest"
    and "set q \<subseteq> {..<8}" and "distinct q"
    and "\<And>i. i \<in> set q \<Longrightarrow> guid_byte m i = (if guid_byte g i \<noteq> 0 then 1 else 0)"
  shows "\<exists>r b'. read_guid_bytes q m b = Inr (r, b') \<and> bb_storage b' = bb_storage b \<and>
     drop (bb_rpos b') (bb_storage b') = rest \<and>
     (\<forall>i < 8. guid_byte r i = (if i \<in> set q then guid_byte g i else guid_byte m i))"
using assms
proof (induction q arbitrary: b m)
  case Nil
  then show ?case by simp
next
  case (Cons i q)
  from Cons.prems have i: "i < 8" "i \<notin> set q" by auto
  show ?case
  proof (cases "guid_byte g i = 0")
    case True
    moreover from this have "guid_byte m i = 0" using Cons.prems(4) [of i] by simp
    ultimately show ?thesis using Cons.IH [of b m] Cons.prems i by auto
  next
    case False
    let ?b = "b\<lparr>bb_bitpos := 8, bb_rpos := Suc (bb_rpos b)\<rparr>"
    let ?m = "guid_set_byte i (guid_byte g i) m"
    have mi: "guid_byte m i = 1" using False Cons.prems(4) [of i] by simp
    from False Cons.prems(1) have d: "bb_rpos b < bb_size b"
      "bb_storage b ! bb_rpos b = guid_byte g i XOR 1"
      "drop (bb_rpos ?b) (bb_storage ?b) =
         map (\<lambda>i. guid_byte g i XOR 1) (filter (\<lambda>i. guid_byte g i \<noteq> 0) q) @ rest"
      by (auto simp: bb_size_def dest: drop_Cons_nth)
    have x: "1 XOR (guid_byte g i XOR 1) = guid_byte g i"
      by (rule bit_word_eqI) (auto simp: bit_xor_iff)
    have "guid_byte ?m j = (if guid_byte g j \<noteq> 0 then 1 else 0)" if "j \<in> set q" for j
      using that Cons.prems i by (auto simp: guid_byte_set_byte)
    from Cons.IH [OF d(3) _ _ this] Cons.prems obtain r b' where
      r: "read_guid_bytes q ?m ?b = Inr (r, b')" "bb_storage b' = bb_storage b"
        "drop (bb_rpos b') (bb_storage b') = rest"
      and rb: "\<forall>j < 8. guid_byte r j = (if j \<in> set q then guid_byte g j else guid_byte ?m j)"
      by auto
    have "read_guid_bytes (i # q) m b = Inr (r, b')" using r d i mi x by (simp add: get_u8_eq)
    with r rb i show ?thesis by (auto simp: guid_byte_set_byte)
  qed
qed

lemma guid_mask_written:
  assumes "set p = {..<8}" and "distinct p"
  shows "\<exists>c. write_guid_mask g p bb_empty = Inr (bb_extend [c] bb_empty) \<and>
     byte_bits c = map (\<lambda>i. guid_byte g i \<noteq> 0) p"
proof -
  have len: "length p = 8" using assms by (metis card_lessThan distinct_card)
  from write_guid_mask_refines [OF writer_inv_empty, of p g] assms(1) len obtain b' where
    b': "write_guid_mask g p bb_empty = Inr b'" "writer_inv b'" "bb_rpos b' = 0"
      "bits_written b' = map (\<lambda>i. guid_byte g i \<noteq> 0) p"
    by (auto simp: bits_written_def bb_empty_def bb_size_def)
  have "length (bits_written b') = 8" using b'(4) len by simp
  then have "8 * length (bb_storage b') + (8 - bb_bitpos b') = 8" by (simp add: bits_written_def)
  moreover have "1 \<le> bb_bitpos b'" "bb_bitpos b' \<le> 8" using b'(2) by (auto simp: writer_inv_def)
  ultimately have n: "length (bb_storage b') = 1" "bb_bitpos b' = 8" by presburger+
  then obtain c where c: "bb_storage b' = [c]" by (metis One_nat_def length_0_conv length_Suc_conv)
  have "bb_curbitval b' = 0"
    using b'(2) n by (intro bit_word_eqI) (auto simp: writer_inv_def)
  with b' n c have "b' = bb_extend [c] bb_empty"
    by (cases b') (simp add: bb_extend_def bb_empty_def bb_size_def writer_inv_def at_end_def)
  moreover have "byte_bits c = map (\<lambda>i. guid_byte g i \<noteq> 0) p"
    using b'(4) n c by (simp add: bits_written_def)
  ultimately show ?thesis using b'(1) by blast
qed

section \<open>Properties\<close>

text \<open>
  An identifier built from a high part, an entry and a counter gives these three back:
  \<open>GetHigh\<close>, \<open>GetEntry\<close> (all 20 bits of it) and \<open>GetCounter\<close> invert the constructor.
\<close>

theorem object_guid_fields:
  assumes "hi < 2 ^ 12" and "hi \<noteq> 0x1FF" and "has_entry_high hi"
    and "entry < 2 ^ 20" and "counter \<noteq> 0"
  shows "get_high (guid_with_entry hi entry counter) = hi \<and>
    get_entry (guid_with_entry hi entry counter) = entry \<and>
    get_counter (guid_with_entry hi entry counter) = counter"
proof -
  have "\<not> is_large_high hi" using assms(1) by (auto simp: is_large_high_def)
  with assms show ?thesis
    by (simp add: get_high_with_entry get_entry_with_entry get_counter_with_entry)
qed

theorem object_guid_fields_witness:
  "get_high (guid_with_entry 0xF13 66685 7) = 0xF13 \<and>
   get_entry (guid_with_entry 0xF13 66685 7) = 66685 \<and>
   get_counter (guid_with_entry 0xF13 66685 7) = 7"
  by (rule object_guid_fields) (simp_all add: has_entry_high_def)

text \<open>
  \<open>readPackGUID\<close> reads back what \<open>appendPackGUID\<close> appended at the end of any buffer, and
  leaves the read position right behind it.
\<close>

theorem packed_guid_roundtrip:
  assumes "at_end b" and "bb_size b < 10000000"
  shows "\<exists>b' b''. append_pack_guid g b = Inr b' \<and> bb_size b' \<le> bb_size b + 9 \<and>
    read_pack_guid (b'\<lparr>bb_rpos := bb_size b\<rparr>) = Inr (g, b'') \<and> bb_rpos b'' = bb_size b'"
proof -
  obtain mark where app: "append_pack_guid g b = Inr (bb_extend (mark # packed_bytes g [0..<8]) b)"
    and mark: "\<And>j. j < 8 \<Longrightarrow> bit mark j \<longleftrightarrow> guid_byte g j \<noteq> 0"
    using append_pack_guid_spec [OF assms, of g] by metis
  let ?b = "bb_extend (mark # packed_bytes g [0..<8]) b"
  have "length (packed_bytes g [0..<8]) \<le> length [0..<8]"
    unfolding packed_bytes_def length_map by (rule length_filter_le)
  moreover have "drop (bb_size b) (bb_storage ?b) = mark # packed_bytes g [0..<8] @ []"
    by (simp add: bb_size_def)
  ultimately show ?thesis
    using app read_pack_guid_spec [of "?b\<lparr>bb_rpos := bb_size b\<rparr>" mark g "[]"] mark
    by (auto simp: bb_size_def)
qed

theorem packed_guid_roundtrip_witness:
  "\<exists>b' b''. append_pack_guid 0xF130000000000007 bb_empty = Inr b' \<and> bb_size b' \<le> bb_size bb_empty + 9 \<and>
    read_pack_guid (b'\<lparr>bb_rpos := bb_size bb_empty\<rparr>) = Inr (0xF130000000000007, b'') \<and> bb_rpos b'' = bb_size b'"
  by (rule packed_guid_roundtrip) simp_all

text \<open>
  The masked form: writing the mask bits of an identifier in one byte order and its
  non-zero bytes in another, then reading mask and bytes in the same orders, gives the
  identifier back and consumes the whole packet.
\<close>

theorem masked_guid_roundtrip:
  assumes "set p = {..<8}" and "distinct p" and "set q = {..<8}" and "distinct q"
  shows "\<exists>b b' m c c'. write_guid_mask g p bb_empty = Inr b \<and> write_guid_bytes g q b = Inr b' \<and>
    read_guid_mask p 0 b' = Inr (m, c) \<and> read_guid_bytes q m c = Inr (g, c') \<and>
    drop (bb_rpos c') (bb_storage c') = []"
proof -
  obtain w where w: "write_guid_mask g p bb_empty = Inr (bb_extend [w] bb_empty)"
    and bits: "byte_bits w = map (\<lambda>i. guid_byte g i \<noteq> 0) p"
    using guid_mask_written [OF assms(1,2)] by blast
  let ?bs = "map (\<lambda>i. guid_byte g i XOR 1) (filter (\<lambda>i. guid_byte g i \<noteq> 0) q)"
  let ?b' = "bb_extend (w # ?bs) bb_empty"
  have "length q = 8" using assms(3,4) by (metis card_lessThan distinct_card)
  then have b': "write_guid_bytes g q (bb_extend [w] bb_empty) = Inr ?b'"
    using assms(3) by (subst write_guid_bytes_aligned) simp_all
  have "bits_left ?b' = map (\<lambda>i. guid_byte g i \<noteq> 0) p @ bytes_bits ?bs"
    using bits by (simp add: bits_left_def bb_empty_def)
  from read_guid_mask_refines [OF this, of 0] assms(1,2) obtain m c where
    c: "read_guid_mask p 0 ?b' = Inr (m, c)" "bits_left c = bytes_bits ?bs" "bb_bitpos c \<le> 8"
      "bb_storage c = w # ?bs" "bb_rpos c \<le> bb_size c"
    and m: "\<forall>i < 8. guid_byte m i = (if guid_byte g i \<noteq> 0 then 1 else 0)"
    by (auto simp: bb_empty_def bb_size_def)
  have "length (bits_left c) = 8 * length ?bs" by (simp only: c(2) length_bytes_bits)
  then have "7 - bb_bitpos c + 8 * (bb_size c - bb_rpos c) = 8 * (bb_size c - 1)"
    using c(4) by (simp add: bits_left_def bb_size_def)
  moreover have "1 \<le> bb_size c" using c(4) by (simp add: bb_size_def)
  ultimately have "bb_rpos c = 1 \<or> bb_rpos c = 0 \<and> False"
    using c(3,5) by presburger
  then have "drop (bb_rpos c) (bb_storage c) = ?bs @ []" using c(4) by simp
  from read_guid_bytes_refines [OF this, of m] assms(3,4) m obtain r c' where
    r: "read_guid_bytes q m c = Inr (r, c')" "drop (bb_rpos c') (bb_storage c') = []"
      "\<forall>i < 8. guid_byte r i = guid_byte g i"
    by auto
  then have "r = g" by (intro guid_eqI) simp
  with w b' c(1) r show ?thesis by blast
qed

theorem masked_guid_roundtrip_witness:
  "\<exists>b b' m c c'. write_guid_mask 0x0700A10000000B00 [2, 1, 3, 0, 5, 7, 6, 4] bb_empty = Inr b \<and>
    write_guid_bytes 0x0700A10000000B00 [7, 6, 5, 4, 3, 2, 1, 0] b = Inr b' \<and>
    read_guid_mask [2, 1, 3, 0, 5, 7, 6, 4] 0 b' = Inr (m, c) \<and>
    read_guid_bytes [7, 6, 5, 4, 3, 2, 1, 0] m c = Inr (0x0700A10000000B00, c') \<and>
    drop (bb_rpos c') (bb_storage c') = []"
  by (rule masked_guid_roundtrip) (auto simp: lessThan_nat_numeral lessThan_Suc)

end
