(* ===== verification/WireCodec.thy ===== *)
theory WireCodec
  imports Prelude
begin

text \<open>
  The packet headers of the world protocol, \<open>src/src/proto/MopWireCodec.h\<close>, and the handshake
  rules, \<open>src/src/proto/MopHandshake.h\<close>. A header is a byte list; an encoder or decoder that
  may refuse returns an option. A payload size that arrives as \<open>size_t\<close> is a natural number.
  The random generator of the challenge is OpenSSL code and a parameter: from its state it
  returns the requested bytes, or \<open>None\<close>, and its next state.
\<close>

section \<open>Server headers\<close>

definition write_server_precrypt_header :: "u16 \<Rightarrow> u16 \<Rightarrow> u8 list" where
  "write_server_precrypt_header sz cmd =
     [ucast sz, ucast (drop_bit 8 sz), ucast cmd, ucast (drop_bit 8 cmd)]"

definition write_server_postcrypt_header :: "u32 \<Rightarrow> u16 \<Rightarrow> u8 list" where
  "write_server_postcrypt_header sz cmd =
     (let v = push_bit 13 sz OR (ucast cmd AND 0x1FFF)
      in [ucast v, ucast (drop_bit 8 v), ucast (drop_bit 16 v), ucast (drop_bit 24 v)])"

definition build_server_header :: "bool \<Rightarrow> nat \<Rightarrow> u32 \<Rightarrow> u8 list option" where
  "build_server_header postCrypt payloadSize cmd =
     (if postCrypt
      then if payloadSize > 0x7FFFF \<or> cmd > 0x1FFF then None
           else Some (write_server_postcrypt_header (of_nat payloadSize) (ucast cmd))
      else if payloadSize > 65533 \<or> cmd > 0xFFFF then None
           else Some (write_server_precrypt_header (of_nat (payloadSize + 2)) (ucast cmd)))"

section \<open>Client headers\<close>

definition read_client_greeting_header :: "u8 list \<Rightarrow> (u16 \<times> u32) option" where
  "read_client_greeting_header inp =
     (let sz = ucast (inp ! 0) OR push_bit 8 (ucast (inp ! 1)) :: u32;
          cmd = ucast (inp ! 2) OR push_bit 8 (ucast (inp ! 3)) :: u32
      in if sz < 2 \<or> sz > 10240 then None else Some (ucast (sz - 2), cmd))"

definition read_client_precrypt_header :: "u8 list \<Rightarrow> (u16 \<times> u32) option" where
  "read_client_precrypt_header inp =
     (let sz = ucast (inp ! 0) OR push_bit 8 (ucast (inp ! 1)) :: u32;
          cmd = ucast (inp ! 2) OR push_bit 8 (ucast (inp ! 3)) OR push_bit 16 (ucast (inp ! 4))
                  OR push_bit 24 (ucast (inp ! 5)) :: u32
      in if sz < 4 \<or> sz > 10240 then None else Some (ucast (sz - 4), cmd))"

definition read_client_postcrypt_header :: "u8 list \<Rightarrow> (u16 \<times> u16) option" where
  "read_client_postcrypt_header inp =
     (let v = ucast (inp ! 0) OR push_bit 8 (ucast (inp ! 1)) OR push_bit 16 (ucast (inp ! 2))
                OR push_bit 24 (ucast (inp ! 3)) :: u32;
          s = drop_bit 13 v
      in if s > 10236 then None else Some (ucast s, ucast (v AND 0x1FFF)))"

section \<open>Handshake rules\<close>

datatype connection_state = CONN_GREETING | CONN_CHALLENGED | CONN_AUTHENTICATING | CONN_AUTHED

datatype opcode_class = OPC_GREETING | OPC_AUTH_SESSION | OPC_NORMAL

fun is_handshake_opcode_legal :: "connection_state \<Rightarrow> opcode_class \<Rightarrow> bool" where
  "is_handshake_opcode_legal st OPC_GREETING = (st = CONN_GREETING)"
| "is_handshake_opcode_legal st OPC_AUTH_SESSION = (st = CONN_CHALLENGED)"
| "is_handshake_opcode_legal st OPC_NORMAL = (st = CONN_AUTHED)"

definition rate_limit_elapsed :: "int \<Rightarrow> int \<Rightarrow> bool" where
  "rate_limit_elapsed lastSec nowSec \<longleftrightarrow> nowSec - lastSec \<ge> 1"

type_synonym 'r random_bytes = "nat \<Rightarrow> 'r \<Rightarrow> u8 list option \<times> 'r"

definition build_auth_challenge_payload :: "'r random_bytes \<Rightarrow> 'r \<Rightarrow> (u8 list \<times> u32) option \<times> 'r" where
  "build_auth_challenge_payload rng r =
     (case rng 32 r of
        (None, r) \<Rightarrow> (None, r)
      | (Some field, r) \<Rightarrow>
          (case rng 4 r of
             (None, r) \<Rightarrow> (None, r)
           | (Some s, r) \<Rightarrow>
               let seed = ucast (s ! 0) OR push_bit 8 (ucast (s ! 1)) OR push_bit 16 (ucast (s ! 2))
                            OR push_bit 24 (ucast (s ! 3)) :: u32
               in (Some ([0, 0] @ field @ [1] @ s, seed), r)))"

section \<open>Headers as little-endian words\<close>

lemma le_word_2: "le_word [a, b] = (ucast a OR push_bit 8 (ucast b) :: u32)"
  by simp

lemma le_word_4:
  "le_word [a, b, c, d] =
     (ucast a OR push_bit 8 (ucast b) OR push_bit 16 (ucast c) OR push_bit 24 (ucast d) :: u32)"
  by (simp add: push_bit_or push_bit_push_bit or.assoc)

lemma postcrypt_header_le_bytes:
  "write_server_postcrypt_header sz cmd =
     le_bytes 4 (push_bit 13 sz OR (ucast cmd AND 0x1FFF) :: u32)"
  by (simp add: write_server_postcrypt_header_def Let_def le_bytes_4)

lemma precrypt_header_le_bytes:
  "write_server_precrypt_header sz cmd = le_bytes 2 sz @ le_bytes 2 cmd"
  by (simp add: write_server_precrypt_header_def le_bytes_2)

lemma read_postcrypt_le_bytes:
  "read_client_postcrypt_header (le_bytes 4 (v :: u32)) =
     (if drop_bit 13 v > 10236 then None else Some (ucast (drop_bit 13 v), ucast (v AND 0x1FFF)))"
proof -
  obtain a b c d where l: "le_bytes 4 v = [a, b, c, d]" by (simp add: le_bytes_4)
  have "le_word (le_bytes 4 v) = (v :: u32)" by simp
  with l have "ucast a OR push_bit 8 (ucast b) OR push_bit 16 (ucast c) OR push_bit 24 (ucast d) = v"
    by (simp only: le_word_4)
  then show ?thesis by (simp add: l read_client_postcrypt_header_def Let_def)
qed

lemma pack_size_cmd:
  assumes "sz < (2 ^ 19 :: u32)" and "cmd < (2 ^ 13 :: u16)"
  shows "drop_bit 13 (push_bit 13 sz OR (ucast cmd AND 0x1FFF)) = sz"
    and "(push_bit 13 sz OR (ucast cmd AND 0x1FFF)) AND 0x1FFF = (ucast cmd :: u32)"
proof -
  have s: "bit sz n \<Longrightarrow> n < 19" for n
    using assms(1) by (metis bit_take_bit_iff less_mask_eq take_bit_eq_mask)
  have c: "bit cmd n \<Longrightarrow> n < 13" for n
    using assms(2) by (metis bit_take_bit_iff less_mask_eq take_bit_eq_mask)
  show "drop_bit 13 (push_bit 13 sz OR (ucast cmd AND 0x1FFF)) = sz"
    by (rule bit_word_eqI)
       (auto simp: bit_or_iff bit_and_iff bit_push_bit_iff bit_drop_bit_eq bit_unsigned_iff dest: s c)
  show "(push_bit 13 sz OR (ucast cmd AND 0x1FFF)) AND 0x1FFF = (ucast cmd :: u32)"
    by (rule bit_word_eqI)
       (auto simp: bit_or_iff bit_and_iff bit_push_bit_iff bit_unsigned_iff dest: c)
qed

lemma length_build_server_header: "build_server_header pc n cmd = Some h \<Longrightarrow> length h = 4"
  by (auto simp: build_server_header_def postcrypt_header_le_bytes precrypt_header_le_bytes split: if_splits)

lemma unat_pack:
  assumes "n \<le> 0x7FFFF" and "cmd \<le> (0x1FFF :: u32)"
  shows "unat (push_bit 13 (of_nat n) OR (ucast (ucast cmd :: u16) AND 0x1FFF) :: u32) = n * 8192 + unat cmd"
proof -
  let ?sz = "of_nat n :: u32" and ?c = "ucast cmd :: u16"
  have n: "unat ?sz = n" using assms(1) by (simp add: unsigned_of_nat take_bit_nat_eq_self)
  have c: "unat cmd \<le> 8191" using assms(2) by (simp add: word_le_nat_alt)
  have cc: "unat ?c = unat cmd"
    using c by (simp only: unsigned_ucast_eq) (simp add: take_bit_nat_eq_self)
  have up: "unat (ucast x :: u32) = unat x" for x :: u16
    using unsigned_less [of x, where ?'a = nat]
    by (simp only: unsigned_ucast_eq) (simp add: take_bit_nat_eq_self)
  have sz: "?sz < 2 ^ 19" using assms(1) by (simp add: word_less_nat_alt n)
  have cm: "?c < 2 ^ 13" using c by (simp add: word_less_nat_alt cc)
  let ?v = "push_bit 13 ?sz OR (ucast ?c AND 0x1FFF) :: u32"
  have "unat (drop_bit 13 ?v) = n" by (simp only: pack_size_cmd(1) [OF sz cm] n)
  moreover have "unat (?v AND 0x1FFF) = unat cmd"
    by (simp only: pack_size_cmd(2) [OF sz cm] up cc)
  moreover have "unat (drop_bit 13 ?v) = unat ?v div 8192"
    using unsigned_less [of ?v, where ?'a = nat]
    by (simp only: unsigned_drop_bit_eq) (simp add: drop_bit_eq_div take_bit_nat_eq_self)
  moreover have "?v AND 0x1FFF = take_bit 13 ?v"
    by (simp add: take_bit_eq_mask mask_eq_exp_minus_1)
  then have "unat (?v AND 0x1FFF) = unat ?v mod 8192"
    by (simp only: unsigned_take_bit_eq) (simp add: take_bit_eq_mod)
  ultimately show ?thesis using div_mult_mod_eq [of "unat ?v" 8192] by linarith
qed

section \<open>Properties\<close>

text \<open>
  A server header that is built is four bytes long and names the packet exactly: after
  encryption starts the little-endian word is \<open>size * 2^13 + opcode\<close>, before it the two
  halves are \<open>size + 2\<close> and the opcode. So no accepted size or opcode is ever truncated, and
  a refusal means that one of them does not fit its field.
\<close>

theorem server_header_exact:
  "case build_server_header postCrypt n cmd of
     None \<Rightarrow> (if postCrypt then n \<ge> 2 ^ 19 \<or> unat cmd \<ge> 2 ^ 13 else n + 2 \<ge> 2 ^ 16 \<or> unat cmd \<ge> 2 ^ 16)
   | Some h \<Rightarrow> length h = 4 \<and>
       (if postCrypt then unat (le_word h :: u32) = n * 2 ^ 13 + unat cmd
        else unat (le_word (take 2 h) :: u16) = n + 2 \<and> unat (le_word (drop 2 h) :: u16) = unat cmd)"
proof (cases "build_server_header postCrypt n cmd")
  case None
  then show ?thesis
    by (auto simp: build_server_header_def word_less_nat_alt split: if_splits)
next
  case (Some h)
  show ?thesis
  proof (cases postCrypt)
    case True
    with Some have h: "h = le_bytes 4 (push_bit 13 (of_nat n) OR (ucast (ucast cmd :: u16) AND 0x1FFF) :: u32)"
      and b: "n \<le> 0x7FFFF" "cmd \<le> 0x1FFF"
      by (auto simp: build_server_header_def postcrypt_header_le_bytes not_less split: if_splits)
    show ?thesis using Some True by (simp add: h unat_pack [OF b] del: le_bytes.simps)
  next
    case False
    with Some have h: "h = le_bytes 2 (of_nat (n + 2) :: u16) @ le_bytes 2 (ucast cmd :: u16)"
      and b: "n \<le> 65533" "cmd \<le> 0xFFFF"
      by (auto simp: build_server_header_def precrypt_header_le_bytes not_less split: if_splits)
    have "unat (of_nat (n + 2) :: u16) = n + 2"
      using b(1) by (simp only: unsigned_of_nat) (simp add: take_bit_nat_eq_self)
    moreover have "unat (ucast cmd :: u16) = unat cmd"
      using b(2) by (simp only: unsigned_ucast_eq) (simp add: take_bit_nat_eq_self word_le_nat_alt)
    ultimately show ?thesis using Some False by (simp add: h)
  qed
qed

text \<open>
  C31: The two sides of the encrypted format agree: the client-header reader applied to a
  post-encryption header returns exactly the size and the opcode it was built from, and it
  rejects it exactly when the payload is over the client's limit of 10236 bytes.
\<close>

theorem postcrypt_header_roundtrip:
  assumes "build_server_header True n cmd = Some h"
  shows "read_client_postcrypt_header h =
           (if n \<le> 10236 then Some (of_nat n, ucast cmd) else None)"
proof -
  let ?sz = "of_nat n :: u32" and ?c = "ucast cmd :: u16"
  from assms have h: "h = le_bytes 4 (push_bit 13 ?sz OR (ucast ?c AND 0x1FFF))"
    and b: "n \<le> 0x7FFFF" "cmd \<le> 0x1FFF"
    by (auto simp: build_server_header_def postcrypt_header_le_bytes not_less split: if_splits)
  have n: "unat ?sz = n" using b(1) by (simp add: unsigned_of_nat take_bit_nat_eq_self)
  have c: "unat cmd \<le> 8191" using b(2) by (simp add: word_le_nat_alt)
  have cc: "unat ?c = unat cmd"
    using c by (simp only: unsigned_ucast_eq) (simp add: take_bit_nat_eq_self)
  have sz: "?sz < 2 ^ 19" using b(1) by (simp add: word_less_nat_alt n)
  have cm: "?c < 2 ^ 13" using c by (simp add: word_less_nat_alt cc)
  have "?sz > 10236 \<longleftrightarrow> \<not> n \<le> 10236" by (auto simp: word_less_nat_alt n)
  moreover have "(ucast ?sz :: u16) = of_nat n" by (simp add: unsigned_of_nat word_of_nat_eq_iff)
  moreover have "(ucast (ucast ?c :: u32) :: u16) = ?c"
    by (rule bit_word_eqI) (auto simp: bit_unsigned_iff)
  ultimately show ?thesis
    unfolding h read_postcrypt_le_bytes pack_size_cmd [OF sz cm] by simp
qed

theorem postcrypt_header_roundtrip_witness:
  "read_client_postcrypt_header [0x69, 0x99, 0, 0] = Some (4, 0x1969)"
proof -
  have "build_server_header True 4 0x1969 = Some [0x69, 0x99, 0, 0]"
    by (simp add: build_server_header_def write_server_postcrypt_header_def Let_def)
  from postcrypt_header_roundtrip [OF this] show ?thesis by simp
qed

end
