(* ===== verification/FrameReader.thy ===== *)
theory FrameReader
  imports WireCodec
begin

text \<open>
  The incremental frame reader of a client connection, \<open>src/src/proto/MopFrameReader.h\<close>:
  received bytes are pushed into a buffer, \<open>try_frame\<close> cuts one frame out of it when enough
  bytes are there. The header hooks are parameters, as they are in the code: \<open>decrypt\<close> works on
  its context and returns the header bytes it leaves in place, \<open>cmdValid\<close> is a predicate.
  \<open>m_buf.size() - m_rpos\<close> is a \<open>size_t\<close> subtraction; \<open>fr_inv\<close> contains the fact that it never
  wraps around.
\<close>

section \<open>State\<close>

datatype frame_status = NEED_MORE | FRAME_READY | MALFORMED

datatype malformed_reason = MF_NONE | MF_DECRYPT | MF_BAD_SIZE | MF_BAD_COMMAND

datatype header_kind = HDR_GREETING | HDR_PRECRYPT | HDR_POSTCRYPT

record frame =
  frame_cmd :: u32
  frame_payload :: "u8 list"

record frame_reader =
  fr_buf :: "u8 list"
  fr_rpos :: nat
  fr_have_header :: bool
  fr_cmd :: u32
  fr_need :: nat
  fr_reason :: malformed_reason
  fr_last_header :: "u8 list"
  fr_hdr_len :: nat
  fr_hdr_precrypt :: bool

type_synonym 'c decrypt_fn = "'c \<Rightarrow> u8 list \<Rightarrow> bool \<times> u8 list \<times> 'c"
type_synonym 'c cmd_valid_fn = "'c \<Rightarrow> u32 \<Rightarrow> bool \<Rightarrow> bool"

text \<open>The constructor; \<open>m_lastHeader\<close> is the one member it leaves uninitialised.\<close>

definition frame_reader_new :: "u8 list \<Rightarrow> frame_reader" where
  "frame_reader_new junk =
     \<lparr>fr_buf = [], fr_rpos = 0, fr_have_header = False, fr_cmd = 0, fr_need = 0,
      fr_reason = MF_NONE, fr_last_header = junk, fr_hdr_len = 0, fr_hdr_precrypt = False\<rparr>"

section \<open>Operations\<close>

definition fr_avail :: "frame_reader \<Rightarrow> nat" where
  "fr_avail fr = size_minus (length (fr_buf fr)) (fr_rpos fr)"

definition fr_compact :: "frame_reader \<Rightarrow> frame_reader" where
  "fr_compact fr =
     (if fr_rpos fr \<noteq> 0 \<and> fr_rpos fr = length (fr_buf fr) then fr\<lparr>fr_buf := [], fr_rpos := 0\<rparr>
      else if fr_rpos fr > 4096 then fr\<lparr>fr_buf := drop (fr_rpos fr) (fr_buf fr), fr_rpos := 0\<rparr>
      else fr)"

definition fr_push :: "u8 list \<Rightarrow> frame_reader \<Rightarrow> frame_reader" where
  "fr_push data fr = fr_compact (fr\<lparr>fr_buf := fr_buf fr @ data\<rparr>)"

definition fr_fail :: "malformed_reason \<Rightarrow> u8 list \<Rightarrow> nat \<Rightarrow> bool \<Rightarrow> frame_reader \<Rightarrow> frame_reader" where
  "fr_fail r hdr len preCrypt fr =
     (let n = (if len < 6 then len else 6)
      in fr\<lparr>fr_reason := r, fr_hdr_len := n, fr_hdr_precrypt := preCrypt,
            fr_last_header := take n hdr @ drop n (fr_last_header fr)\<rparr>)"

definition header_length :: "header_kind \<Rightarrow> nat" where
  "header_length kind = (if kind = HDR_PRECRYPT then 6 else 4)"

fun read_header :: "header_kind \<Rightarrow> u8 list \<Rightarrow> (u16 \<times> u32) option" where
  "read_header HDR_POSTCRYPT hdr =
     (case read_client_postcrypt_header hdr of None \<Rightarrow> None | Some (sz, c16) \<Rightarrow> Some (sz, ucast c16))"
| "read_header HDR_GREETING hdr = read_client_greeting_header hdr"
| "read_header HDR_PRECRYPT hdr = read_client_precrypt_header hdr"

definition run_decrypt :: "'c decrypt_fn option \<Rightarrow> 'c \<Rightarrow> u8 list \<Rightarrow> bool \<times> u8 list \<times> 'c" where
  "run_decrypt decrypt c hdr = (case decrypt of None \<Rightarrow> (True, hdr, c) | Some d \<Rightarrow> d c hdr)"

definition cmd_rejected :: "'c cmd_valid_fn option \<Rightarrow> 'c \<Rightarrow> u32 \<Rightarrow> bool \<Rightarrow> bool" where
  "cmd_rejected cmdValid c cmd preCrypt = (case cmdValid of None \<Rightarrow> False | Some v \<Rightarrow> \<not> v c cmd preCrypt)"

text \<open>The second half of \<open>TryFrame\<close>: the payload of a frame whose header has been read.\<close>

definition finish_frame :: "frame \<Rightarrow> frame_reader \<Rightarrow> 'c \<Rightarrow> frame_status \<times> frame \<times> frame_reader \<times> 'c" where
  "finish_frame out fr c =
     (if fr_avail fr < fr_need fr then (NEED_MORE, out, fr, c)
      else (FRAME_READY,
            \<lparr>frame_cmd = fr_cmd fr, frame_payload = take (fr_need fr) (drop (fr_rpos fr) (fr_buf fr))\<rparr>,
            fr_compact (fr\<lparr>fr_rpos := fr_rpos fr + fr_need fr, fr_have_header := False\<rparr>), c))"

definition try_frame ::
  "header_kind \<Rightarrow> 'c decrypt_fn option \<Rightarrow> 'c cmd_valid_fn option \<Rightarrow> frame \<Rightarrow> frame_reader \<Rightarrow> 'c
    \<Rightarrow> frame_status \<times> frame \<times> frame_reader \<times> 'c" where
  "try_frame kind decrypt cmdValid out fr c =
     (let preCrypt = (kind \<noteq> HDR_POSTCRYPT); hlen = header_length kind
      in if fr_have_header fr then finish_frame out fr c
         else if fr_avail fr < hlen then (NEED_MORE, out, fr, c)
         else (case run_decrypt decrypt c (take hlen (drop (fr_rpos fr) (fr_buf fr))) of
                 (ok, hdr, c) \<Rightarrow>
                   if \<not> ok then (MALFORMED, out, fr_fail MF_DECRYPT hdr hlen preCrypt fr, c)
                   else case read_header kind hdr of
                          None \<Rightarrow> (MALFORMED, out, fr_fail MF_BAD_SIZE hdr hlen preCrypt fr, c)
                        | Some (payloadSize, cmd) \<Rightarrow>
                            let fr = fr\<lparr>fr_cmd := cmd\<rparr>
                            in if cmd_rejected cmdValid c cmd preCrypt
                               then (MALFORMED, out, fr_fail MF_BAD_COMMAND hdr hlen preCrypt fr, c)
                               else finish_frame out
                                      (fr\<lparr>fr_rpos := fr_rpos fr + hlen, fr_need := unat payloadSize,
                                          fr_have_header := True\<rparr>) c))"

definition last_reason :: "frame_reader \<Rightarrow> malformed_reason" where
  "last_reason fr = fr_reason fr"

definition last_header :: "frame_reader \<Rightarrow> u8 list \<times> nat \<times> bool" where
  "last_header fr = (fr_last_header fr, fr_hdr_len fr, fr_hdr_precrypt fr)"

fun malformed_reason_name :: "malformed_reason \<Rightarrow> string" where
  "malformed_reason_name MF_DECRYPT = ''DECRYPT_FAILURE''"
| "malformed_reason_name MF_BAD_SIZE = ''BAD_SIZE''"
| "malformed_reason_name MF_BAD_COMMAND = ''BAD_COMMAND''"
| "malformed_reason_name MF_NONE = ''NONE''"

section \<open>Specification: a reader of a byte stream\<close>

text \<open>
  The contract: a reader state is the header already accepted, if any, and the bytes not yet
  consumed. There is no buffer position and no compaction.
\<close>

type_synonym stream_reader = "(u32 \<times> nat) option \<times> u8 list"

datatype frame_event = Wait | Got frame | Bad malformed_reason

fun take_payload :: "u32 \<Rightarrow> nat \<Rightarrow> u8 list \<Rightarrow> 'c \<Rightarrow> frame_event \<times> stream_reader \<times> 'c" where
  "take_payload cmd need bs c =
     (if length bs < need then (Wait, (Some (cmd, need), bs), c)
      else (Got \<lparr>frame_cmd = cmd, frame_payload = take need bs\<rparr>, (None, drop need bs), c))"

declare take_payload.simps [simp del]

fun stream_step ::
  "header_kind \<Rightarrow> 'c decrypt_fn option \<Rightarrow> 'c cmd_valid_fn option \<Rightarrow> stream_reader \<Rightarrow> 'c
    \<Rightarrow> frame_event \<times> stream_reader \<times> 'c" where
  "stream_step kind decrypt cmdValid (Some (cmd, need), bs) c = take_payload cmd need bs c"
| "stream_step kind decrypt cmdValid (None, bs) c =
     (if length bs < header_length kind then (Wait, (None, bs), c)
      else case run_decrypt decrypt c (take (header_length kind) bs) of
             (ok, hdr, c) \<Rightarrow>
               if \<not> ok then (Bad MF_DECRYPT, (None, bs), c)
               else case read_header kind hdr of
                      None \<Rightarrow> (Bad MF_BAD_SIZE, (None, bs), c)
                    | Some (sz, cmd) \<Rightarrow>
                        if cmd_rejected cmdValid c cmd (kind \<noteq> HDR_POSTCRYPT)
                        then (Bad MF_BAD_COMMAND, (None, bs), c)
                        else take_payload cmd (unat sz) (drop (header_length kind) bs) c)"

definition fr_abs :: "frame_reader \<Rightarrow> stream_reader" where
  "fr_abs fr = (if fr_have_header fr then Some (fr_cmd fr, fr_need fr) else None,
                drop (fr_rpos fr) (fr_buf fr))"

fun frame_event_of :: "frame_status \<Rightarrow> frame \<Rightarrow> frame_reader \<Rightarrow> frame_event" where
  "frame_event_of NEED_MORE out fr = Wait"
| "frame_event_of FRAME_READY out fr = Got out"
| "frame_event_of MALFORMED out fr = Bad (last_reason fr)"

definition fr_inv :: "frame_reader \<Rightarrow> bool" where
  "fr_inv fr \<longleftrightarrow> fr_rpos fr \<le> length (fr_buf fr) \<and>
     fr_rpos fr \<le> 4096 + (if fr_have_header fr then 6 else 0) \<and>
     (fr_have_header fr \<longrightarrow> fr_need fr \<le> 10238)"

section \<open>Lemmas\<close>

lemma read_header_bound:
  assumes "read_header kind hdr = Some (sz, cmd)"
  shows "unat sz \<le> 10238"
proof -
  have w: "unat (ucast x :: u16) \<le> 10238" if "x \<le> (10238 :: u32)" for x
  proof -
    have "unat (ucast x :: u16) \<le> unat x" by (simp add: unsigned_ucast_eq take_bit_nat_less_eq_self)
    also have "unat x \<le> unat (10238 :: u32)" using that by (simp only: word_le_nat_alt)
    finally show ?thesis by simp
  qed
  have m: "s - k \<le> 10238" if "\<not> s < k" "\<not> 10240 < s" "2 \<le> k" for s k :: u32
    using that by unat_arith
  show ?thesis
    using assms
    by (cases kind)
       (auto simp: read_client_greeting_header_def read_client_precrypt_header_def
          read_client_postcrypt_header_def Let_def not_less
          split: if_splits option.splits intro!: w m elim: order_trans)
qed

lemma fr_avail_inv [simp]: "fr_inv fr \<Longrightarrow> fr_avail fr = length (snd (fr_abs fr))"
  by (simp add: fr_avail_def fr_inv_def fr_abs_def)

lemma fr_abs_compact [simp]: "fr_abs (fr_compact fr) = fr_abs fr"
  by (auto simp: fr_abs_def fr_compact_def)

lemma fr_abs_push [simp]:
  "fr_inv fr \<Longrightarrow> fr_abs (fr_push data fr) = (fst (fr_abs fr), snd (fr_abs fr) @ data)"
  unfolding fr_push_def fr_abs_compact by (simp add: fr_inv_def fr_abs_def)

lemma fr_abs_fail [simp]: "fr_abs (fr_fail r hdr n p fr) = fr_abs fr"
  by (simp add: fr_abs_def fr_fail_def Let_def)

lemma fr_inv_compact:
  "fr_rpos fr \<le> length (fr_buf fr) \<Longrightarrow> (fr_have_header fr \<longrightarrow> fr_need fr \<le> 10238)
    \<Longrightarrow> fr_inv (fr_compact fr)"
  by (auto simp: fr_inv_def fr_compact_def)

lemma fr_inv_push [simp]: "fr_inv fr \<Longrightarrow> fr_inv (fr_push data fr)"
  unfolding fr_push_def by (rule fr_inv_compact) (auto simp: fr_inv_def)

lemma fr_inv_new [simp]: "fr_inv (frame_reader_new junk)"
  by (simp add: fr_inv_def frame_reader_new_def)

lemma fr_abs_new [simp]: "fr_abs (frame_reader_new junk) = (None, [])"
  by (simp add: fr_abs_def frame_reader_new_def)

text \<open>\<open>refines r e\<close>: the outcome \<open>r\<close> of \<open>try_frame\<close> is the outcome \<open>e\<close> of the specification.\<close>

definition frame_refines :: "frame_status \<times> frame \<times> frame_reader \<times> 'c \<Rightarrow> frame_event \<times> stream_reader \<times> 'c \<Rightarrow> bool" where
  "frame_refines r e =
     (case r of (s, out, fr, c) \<Rightarrow> fr_inv fr \<and> e = (frame_event_of s out fr, fr_abs fr, c))"

lemma finish_frame_refines:
  assumes "fr_rpos fr \<le> length (fr_buf fr)" "fr_have_header fr" "fr_need fr \<le> 10238"
    and "fr_rpos fr \<le> 4102"
  shows "frame_refines (finish_frame out fr c)
           (take_payload (fr_cmd fr) (fr_need fr) (snd (fr_abs fr)) c)"
proof -
  let ?fr = "fr\<lparr>fr_rpos := fr_rpos fr + fr_need fr, fr_have_header := False\<rparr>"
  have inv: "fr_inv fr" using assms by (simp add: fr_inv_def)
  have bytes: "snd (fr_abs fr) = drop (fr_rpos fr) (fr_buf fr)" by (simp add: fr_abs_def)
  have abs: "fr_abs fr = (Some (fr_cmd fr, fr_need fr), snd (fr_abs fr))"
    "fr_abs ?fr = (None, drop (fr_need fr) (snd (fr_abs fr)))"
    using assms(2) by (simp_all add: fr_abs_def add.commute)
  have "fr_inv (fr_compact ?fr)" if "\<not> length (snd (fr_abs fr)) < fr_need fr"
    using that assms by (intro fr_inv_compact) (simp_all add: fr_abs_def)
  then show ?thesis
    using inv abs
    by (simp add: frame_refines_def finish_frame_def take_payload.simps flip: bytes)
qed

lemma fr_inv_fail [simp]: "fr_inv fr \<Longrightarrow> fr_inv (fr_fail r hdr n p fr)"
  by (simp add: fr_inv_def fr_fail_def Let_def)

lemma last_reason_fail [simp]: "last_reason (fr_fail r hdr n p fr) = r"
  by (simp add: last_reason_def fr_fail_def Let_def)

lemma try_frame_refines_step:
  assumes inv: "fr_inv fr"
  shows "frame_refines (try_frame kind decrypt cmdValid out fr c)
           (stream_step kind decrypt cmdValid (fr_abs fr) c)"
proof (cases "fr_have_header fr")
  case True
  then have "frame_refines (finish_frame out fr c)
      (take_payload (fr_cmd fr) (fr_need fr) (snd (fr_abs fr)) c)"
    using inv by (intro finish_frame_refines) (simp_all add: fr_inv_def)
  with True show ?thesis by (simp add: try_frame_def Let_def fr_abs_def)
next
  case False
  let ?n = "header_length kind" and ?bs = "drop (fr_rpos fr) (fr_buf fr)"
  have abs: "fr_abs fr = (None, ?bs)" using False by (simp add: fr_abs_def)
  have upd: "fr_inv (fr\<lparr>fr_cmd := cmd\<rparr>)" "fr_abs (fr\<lparr>fr_cmd := cmd\<rparr>) = (None, ?bs)" for cmd
    using inv False by (simp_all add: fr_inv_def fr_abs_def)
  show ?thesis
  proof (cases "length ?bs < ?n")
    case True
    then show ?thesis using inv False abs by (simp add: try_frame_def Let_def frame_refines_def)
  next
    case long: False
    obtain ok hdr c' where d: "run_decrypt decrypt c (take ?n ?bs) = (ok, hdr, c')"
      by (metis prod_cases3)
    have fin: "frame_refines
        (finish_frame out (fr\<lparr>fr_cmd := cmd, fr_rpos := fr_rpos fr + ?n, fr_need := unat sz,
                              fr_have_header := True\<rparr>) c')
        (take_payload cmd (unat sz) (drop ?n ?bs) c')"
      if "read_header kind hdr = Some (sz, cmd)" for sz cmd
    proof -
      let ?g = "fr\<lparr>fr_cmd := cmd, fr_rpos := fr_rpos fr + ?n, fr_need := unat sz,
                 fr_have_header := True\<rparr>"
      have "frame_refines (finish_frame out ?g c')
              (take_payload (fr_cmd ?g) (fr_need ?g) (snd (fr_abs ?g)) c')"
        using long inv False read_header_bound [OF that]
        by (intro finish_frame_refines) (auto simp: fr_inv_def header_length_def split: if_splits)
      then show ?thesis by (simp add: fr_abs_def add.commute)
    qed
    show ?thesis
      using long inv False abs d fin upd
      by (auto simp: try_frame_def Let_def frame_refines_def split: option.splits)
  qed
qed

text \<open>More bytes at the end never change what the bytes before them mean.\<close>

lemma take_payload_append:
  assumes "take_payload cmd need bs c = (e, (p, bs'), c')"
  shows "e = Wait \<Longrightarrow> stream_step k d v (p, bs' @ ys) c' = take_payload cmd need (bs @ ys) c"
    and "e \<noteq> Wait \<Longrightarrow> take_payload cmd need (bs @ ys) c = (e, (p, bs' @ ys), c')"
  using assms by (auto simp: take_payload.simps split: if_splits)

lemma stream_step_append:
  assumes "stream_step k d v (p, bs) c = (e, (p', bs'), c')"
  shows "e = Wait \<Longrightarrow> stream_step k d v (p', bs' @ ys) c' = stream_step k d v (p, bs @ ys) c"
    and "e \<noteq> Wait \<Longrightarrow> stream_step k d v (p, bs @ ys) c = (e, (p', bs' @ ys), c')"
proof -
  have "(e = Wait \<longrightarrow> stream_step k d v (p', bs' @ ys) c' = stream_step k d v (p, bs @ ys) c)
      \<and> (e \<noteq> Wait \<longrightarrow> stream_step k d v (p, bs @ ys) c = (e, (p', bs' @ ys), c'))"
  proof (cases p)
    case (Some q)
    then obtain cmd need where q: "p = Some (cmd, need)" by (cases q) simp
    with assms have t: "take_payload cmd need bs c = (e, (p', bs'), c')"
      by (simp only: stream_step.simps)
    show ?thesis
      using take_payload_append(1) [OF t, where ys = ys and k = k and d = d and v = v]
        take_payload_append(2) [OF t, where ys = ys] q
      by (simp only: stream_step.simps) blast
  next
    case None
    show ?thesis
    proof (cases "length bs < header_length k")
      case True
      then show ?thesis using assms None by auto
    next
      case False
      then have long: "header_length k \<le> length bs" by simp
      obtain ok hdr c1 where d: "run_decrypt d c (take (header_length k) bs) = (ok, hdr, c1)"
        by (metis prod_cases3)
      show ?thesis
      proof (cases "\<exists>sz cmd. ok \<and> read_header k hdr = Some (sz, cmd)
                         \<and> \<not> cmd_rejected v c1 cmd (k \<noteq> HDR_POSTCRYPT)")
        case True
        then obtain sz cmd where h: "ok" "read_header k hdr = Some (sz, cmd)"
          "\<not> cmd_rejected v c1 cmd (k \<noteq> HDR_POSTCRYPT)" by blast
        then have t: "take_payload cmd (unat sz) (drop (header_length k) bs) c1 = (e, (p', bs'), c')"
          using assms None False d by simp
        have "stream_step k d v (None, bs @ ys) c =
                take_payload cmd (unat sz) (drop (header_length k) bs @ ys) c1"
          using h d long by simp
        then show ?thesis
          using take_payload_append(1) [OF t, where ys = ys and k = k and d = d and v = v]
            take_payload_append(2) [OF t, where ys = ys] None by simp
      next
        case rej: False
        have "\<exists>r. stream_step k d v (None, bs) c = (Bad r, (None, bs), c1)
                \<and> stream_step k d v (None, bs @ ys) c = (Bad r, (None, bs @ ys), c1)"
        proof (cases "\<not> ok \<or> read_header k hdr = None")
          case True
          then show ?thesis using long d by auto
        next
          case accepted: False
          then obtain sz cmd where "read_header k hdr = Some (sz, cmd)" by auto
          with accepted rej show ?thesis using long d by auto
        qed
        then show ?thesis using assms None by auto
      qed
    qed
  qed
  then show "e = Wait \<Longrightarrow> stream_step k d v (p', bs' @ ys) c' = stream_step k d v (p, bs @ ys) c"
    and "e \<noteq> Wait \<Longrightarrow> stream_step k d v (p, bs @ ys) c = (e, (p', bs' @ ys), c')"
    by auto
qed

section \<open>Properties\<close>

text \<open>
  C30: The frame reader implements the stream contract: from a well-formed reader, one call of
  \<open>TryFrame\<close> gives the event, the accepted header, the unread bytes and the hook context that
  the specification gives for the reader's unread bytes. The result is well-formed again: the
  read position stays inside the buffer, a consumed prefix is never longer than 4102 bytes,
  and the payload it waits for never exceeds 10238 bytes.
\<close>

theorem try_frame_refines_stream:
  assumes "fr_inv fr"
  shows "case try_frame kind decrypt cmdValid out fr c of
           (status, out', fr', c') \<Rightarrow>
             stream_step kind decrypt cmdValid (fr_abs fr) c =
               (frame_event_of status out' fr', fr_abs fr', c')
             \<and> fr_rpos fr' \<le> length (fr_buf fr') \<and> fr_rpos fr' \<le> 4102
             \<and> (fr_have_header fr' \<longrightarrow> fr_need fr' \<le> 10238)"
  using try_frame_refines_step [OF assms, of kind decrypt cmdValid out c]
  by (auto simp: frame_refines_def fr_inv_def split: if_splits)

theorem try_frame_refines_stream_witness:
  "stream_step HDR_GREETING None None (None, [3, 0, 0x57, 0x4F, 7]) () =
     (Got \<lparr>frame_cmd = 0x4F57, frame_payload = [7]\<rparr>, (None, []), ())"
proof -
  let ?fr = "fr_push [3, 0, 0x57, 0x4F, 7] (frame_reader_new [])"
  have "try_frame HDR_GREETING None None \<lparr>frame_cmd = 0, frame_payload = []\<rparr> ?fr () =
    (FRAME_READY, \<lparr>frame_cmd = 0x4F57, frame_payload = [7]\<rparr>,
     (frame_reader_new [])\<lparr>fr_cmd := 0x4F57, fr_need := 1\<rparr>, ())"
    by (simp add: try_frame_def Let_def fr_push_def fr_compact_def frame_reader_new_def header_length_def
        fr_avail_def run_decrypt_def cmd_rejected_def read_client_greeting_header_def finish_frame_def)
  moreover have "fr_abs ?fr = (None, [3, 0, 0x57, 0x4F, 7])" by simp
  moreover have "fr_abs ((frame_reader_new [])\<lparr>fr_cmd := 0x4F57, fr_need := 1\<rparr>) = (None, [])"
    by (simp add: fr_abs_def frame_reader_new_def)
  ultimately show ?thesis
    using try_frame_refines_stream [of ?fr HDR_GREETING None None "()" "\<lparr>frame_cmd = 0, frame_payload = []\<rparr>"]
    by simp
qed

text \<open>
  Segmentation does not matter. If a call needs more bytes, then receiving them and trying
  again gives the same event, the same unread bytes and the same hook context as if they had
  been there at the first call: the header is decrypted exactly once, and no byte is lost or
  read twice at a boundary.
\<close>

theorem try_frame_segmentation:
  assumes "fr_inv fr"
    and "try_frame kind decrypt cmdValid out fr c = (NEED_MORE, out', fr', c')"
  shows "(case try_frame kind decrypt cmdValid out' (fr_push data fr') c' of
            (s, o1, fr1, c1) \<Rightarrow> (frame_event_of s o1 fr1, fr_abs fr1, c1)) =
         (case try_frame kind decrypt cmdValid out (fr_push data fr) c of
            (s, o1, fr1, c1) \<Rightarrow> (frame_event_of s o1 fr1, fr_abs fr1, c1))"
proof -
  have step: "(case try_frame kind decrypt cmdValid out fr c of
        (s, o1, fr1, c1) \<Rightarrow> (frame_event_of s o1 fr1, fr_abs fr1, c1)) =
      stream_step kind decrypt cmdValid (fr_abs fr) c" if "fr_inv fr" for out fr c
    using try_frame_refines_step [OF that, of kind decrypt cmdValid out c]
    by (auto simp: frame_refines_def)
  have wait: "stream_step kind decrypt cmdValid (fr_abs fr) c = (Wait, fr_abs fr', c')"
    and inv': "fr_inv fr'"
    using try_frame_refines_step [OF assms(1), of kind decrypt cmdValid out c] assms(2)
    by (simp_all add: frame_refines_def)
  then show ?thesis
    using stream_step_append(1) [of kind decrypt cmdValid "fst (fr_abs fr)" "snd (fr_abs fr)" c Wait
        "fst (fr_abs fr')" "snd (fr_abs fr')" c' data] assms(1)
    by (simp only: step fr_inv_push fr_abs_push prod.collapse)
qed

theorem try_frame_segmentation_witness:
  "\<exists>fr' :: frame_reader.
     try_frame HDR_GREETING None None \<lparr>frame_cmd = 0, frame_payload = []\<rparr>
         (fr_push [2, 0, 0x57] (frame_reader_new [])) () =
       (NEED_MORE, \<lparr>frame_cmd = 0, frame_payload = []\<rparr>, fr', ())
     \<and> (case try_frame HDR_GREETING None None \<lparr>frame_cmd = 0, frame_payload = []\<rparr> (fr_push [0x4F] fr') () of
          (s, o1, fr1, c1) \<Rightarrow> (frame_event_of s o1 fr1, fr_abs fr1, c1)) =
       (Got \<lparr>frame_cmd = 0x4F57, frame_payload = []\<rparr>, (None, []), ())"
proof -
  let ?out = "\<lparr>frame_cmd = 0, frame_payload = []\<rparr>"
  let ?fr = "fr_push [2, 0, 0x57] (frame_reader_new [])"
  have first: "try_frame HDR_GREETING None None ?out ?fr () = (NEED_MORE, ?out, ?fr, ())"
    by (simp add: try_frame_def Let_def fr_push_def fr_compact_def frame_reader_new_def header_length_def
        fr_avail_def)
  have "(case try_frame HDR_GREETING None None ?out (fr_push [0x4F] ?fr) () of
          (s, o1, fr1, c1) \<Rightarrow> (frame_event_of s o1 fr1, fr_abs fr1, c1)) =
        (Got \<lparr>frame_cmd = 0x4F57, frame_payload = []\<rparr>, (None, []), ())"
    by (simp add: try_frame_def Let_def fr_push_def fr_compact_def frame_reader_new_def header_length_def
        fr_avail_def run_decrypt_def cmd_rejected_def read_client_greeting_header_def finish_frame_def fr_abs_def)
  then show ?thesis
    using first try_frame_segmentation [OF _ first, of "[0x4F]"] by simp
qed

end
