(* ===== verification/AuthCrypt.thy ===== *)
theory AuthCrypt
  imports Prelude
begin

text \<open>
  The header cipher of a connection: \<open>src/src/shared/Auth/ARC4.cpp\<close>, \<open>HMACSHA1.cpp\<close> and
  \<open>AuthCrypt.cpp\<close>. OpenSSL's EVP interface is a parameter: a record of functions on a cipher
  context of any type \<open>'x\<close> and a MAC context of any type \<open>'m\<close>, each returning whether it
  succeeded and the context it leaves. The code in these files is what is modelled: the order
  of the fallible calls, and the flags and the state that decide which calls are reached.
\<close>

section \<open>OpenSSL\<close>

record ('x, 'm) evp =
  evp_providers :: bool
  evp_ctx_new :: "'x option"
  evp_rc4 :: bool
  evp_select :: "'x \<Rightarrow> bool \<times> 'x"
  evp_set_key_length :: "'x \<Rightarrow> u8 \<Rightarrow> bool \<times> 'x"
  evp_set_key :: "'x \<Rightarrow> u8 list \<Rightarrow> bool \<times> 'x"
  evp_update :: "'x \<Rightarrow> u8 list \<Rightarrow> bool \<times> u8 list \<times> nat \<times> 'x"
  mac_new :: "u8 list \<Rightarrow> 'm option"
  mac_update :: "'m \<Rightarrow> u8 list \<Rightarrow> bool \<times> 'm"
  mac_final :: "'m \<Rightarrow> bool \<times> u8 list \<times> nat"

section \<open>ARC4\<close>

record 'x arc4 =
  arc4_ctx :: "'x option"
  arc4_ready :: bool
  arc4_keyed :: bool

definition arc4_new :: "('x, 'm) evp \<Rightarrow> u8 \<Rightarrow> 'x arc4" where
  "arc4_new E len =
     (let a = \<lparr>arc4_ctx = evp_ctx_new E, arc4_ready = False, arc4_keyed = False\<rparr>
      in if \<not> evp_providers E then a
         else case evp_ctx_new E of
                None \<Rightarrow> a
              | Some x \<Rightarrow>
                  if \<not> evp_rc4 E then a
                  else (case evp_select E x of
                          (ok, x) \<Rightarrow>
                            if \<not> ok then a\<lparr>arc4_ctx := Some x\<rparr>
                            else (case evp_set_key_length E x len of
                                    (ok, x) \<Rightarrow> a\<lparr>arc4_ctx := Some x, arc4_ready := ok\<rparr>)))"

definition arc4_is_ready :: "'x arc4 \<Rightarrow> bool" where
  "arc4_is_ready a \<longleftrightarrow> arc4_ready a \<and> arc4_keyed a"

definition arc4_is_selected :: "'x arc4 \<Rightarrow> bool" where
  "arc4_is_selected a = arc4_ready a"

definition arc4_init :: "('x, 'm) evp \<Rightarrow> u8 list \<Rightarrow> 'x arc4 \<Rightarrow> bool \<times> 'x arc4" where
  "arc4_init E seed a =
     (if \<not> arc4_ready a then (False, a)
      else case evp_set_key E (the (arc4_ctx a)) seed of
             (ok, x) \<Rightarrow> (ok, a\<lparr>arc4_ctx := Some x, arc4_keyed := ok\<rparr>))"

text \<open>On a failure \<open>data\<close> is what OpenSSL left in the buffer.\<close>

definition arc4_update_data :: "('x, 'm) evp \<Rightarrow> u8 list \<Rightarrow> 'x arc4 \<Rightarrow> bool \<times> u8 list \<times> 'x arc4" where
  "arc4_update_data E data a =
     (if \<not> arc4_is_ready a then (False, data, a)
      else case evp_update E (the (arc4_ctx a)) data of
             (ok, out, outlen, x) \<Rightarrow>
               if \<not> ok \<or> outlen \<noteq> length data
               then (False, out, a\<lparr>arc4_ctx := Some x, arc4_keyed := False\<rparr>)
               else (True, out, a\<lparr>arc4_ctx := Some x\<rparr>))"

section \<open>HMAC-SHA1\<close>

record 'm hmac_sha1 =
  hmac_ctx :: "'m option"
  hmac_digest :: "u8 list"
  hmac_valid :: bool

definition hmac_new :: "('x, 'm) evp \<Rightarrow> u8 list \<Rightarrow> 'm hmac_sha1" where
  "hmac_new E seed =
     (case mac_new E seed of
        None \<Rightarrow> \<lparr>hmac_ctx = None, hmac_digest = replicate 20 0, hmac_valid = False\<rparr>
      | Some m \<Rightarrow> \<lparr>hmac_ctx = Some m, hmac_digest = replicate 20 0, hmac_valid = True\<rparr>)"

definition hmac_update_data :: "('x, 'm) evp \<Rightarrow> u8 list \<Rightarrow> 'm hmac_sha1 \<Rightarrow> 'm hmac_sha1" where
  "hmac_update_data E data h =
     (if \<not> hmac_valid h then h
      else case mac_update E (the (hmac_ctx h)) data of
             (ok, m) \<Rightarrow> if ok then h\<lparr>hmac_ctx := Some m\<rparr>
                       else h\<lparr>hmac_ctx := Some m, hmac_valid := False, hmac_digest := replicate 20 0\<rparr>)"

definition hmac_finalize :: "('x, 'm) evp \<Rightarrow> 'm hmac_sha1 \<Rightarrow> 'm hmac_sha1" where
  "hmac_finalize E h =
     (if \<not> hmac_valid h then h
      else case mac_final E (the (hmac_ctx h)) of
             (ok, digest, len) \<Rightarrow>
               if \<not> ok \<or> len \<noteq> 20 then h\<lparr>hmac_valid := False, hmac_digest := replicate 20 0\<rparr>
               else h\<lparr>hmac_digest := digest\<rparr>)"

section \<open>The connection's crypt\<close>

datatype crypt_state = CRYPT_FRESH | CRYPT_FAILED | CRYPT_PREPARED | CRYPT_ACTIVE

record 'x auth_crypt =
  client_decrypt :: "'x arc4"
  server_encrypt :: "'x arc4"
  crypt_state :: crypt_state

definition seed_server_encrypt :: "u8 list" where
  "seed_server_encrypt =
     [0x08, 0xF1, 0x95, 0x9F, 0x47, 0xE5, 0xD2, 0xDB, 0xA1, 0x3D, 0x77, 0x8F, 0x3F, 0x3E, 0xE7, 0x00]"

definition seed_server_decrypt :: "u8 list" where
  "seed_server_decrypt =
     [0x40, 0xAA, 0xD3, 0x92, 0x26, 0x71, 0x43, 0x47, 0x3A, 0x31, 0x08, 0xA6, 0xE7, 0xDC, 0x98, 0x2A]"

definition auth_crypt_new :: "('x, 'm) evp \<Rightarrow> 'x auth_crypt" where
  "auth_crypt_new E =
     \<lparr>client_decrypt = arc4_new E 20, server_encrypt = arc4_new E 20, crypt_state = CRYPT_FRESH\<rparr>"

definition is_usable :: "'x auth_crypt \<Rightarrow> bool" where
  "is_usable c \<longleftrightarrow> arc4_is_selected (client_decrypt c) \<and> arc4_is_selected (server_encrypt c)"

definition is_initialized :: "'x auth_crypt \<Rightarrow> bool" where
  "is_initialized c \<longleftrightarrow> crypt_state c = CRYPT_ACTIVE"

text \<open>The keying chain of \<open>Prepare\<close>, after the state check: the first failure ends it.\<close>

definition seed_hmac :: "('x, 'm) evp \<Rightarrow> u8 list \<Rightarrow> u8 list \<Rightarrow> 'm hmac_sha1" where
  "seed_hmac E seed K = hmac_finalize E (hmac_update_data E K (hmac_new E seed))"

definition key_ciphers :: "('x, 'm) evp \<Rightarrow> u8 list \<Rightarrow> 'x auth_crypt \<Rightarrow> bool \<times> 'x auth_crypt" where
  "key_ciphers E K c =
     (let he = seed_hmac E seed_server_encrypt K; hd = seed_hmac E seed_server_decrypt K
      in if \<not> hmac_valid he \<or> \<not> hmac_valid hd then (False, c)
         else case arc4_init E (hmac_digest hd) (client_decrypt c) of
           (ok, dec) \<Rightarrow>
             if \<not> ok then (False, c\<lparr>client_decrypt := dec\<rparr>)
             else case arc4_init E (hmac_digest he) (server_encrypt c) of
               (ok, enc) \<Rightarrow>
                 let c = c\<lparr>client_decrypt := dec, server_encrypt := enc\<rparr>
                 in if \<not> ok then (False, c)
                    else case arc4_update_data E (replicate 1024 0) enc of
                      (ok, _, enc) \<Rightarrow>
                        let c = c\<lparr>server_encrypt := enc\<rparr>
                        in if \<not> ok then (False, c)
                           else case arc4_update_data E (replicate 1024 0) dec of
                             (ok, _, dec) \<Rightarrow>
                               let c = c\<lparr>client_decrypt := dec\<rparr>
                               in if \<not> ok then (False, c) else (True, c\<lparr>crypt_state := CRYPT_PREPARED\<rparr>))"

definition prepare :: "('x, 'm) evp \<Rightarrow> u8 list \<Rightarrow> 'x auth_crypt \<Rightarrow> bool \<times> 'x auth_crypt" where
  "prepare E K c =
     (if crypt_state c \<noteq> CRYPT_FRESH
      then (False, if crypt_state c = CRYPT_PREPARED then c\<lparr>crypt_state := CRYPT_FAILED\<rparr> else c)
      else let c = c\<lparr>crypt_state := CRYPT_FAILED\<rparr>
           in if \<not> is_usable c then (False, c) else key_ciphers E K c)"

definition activate :: "'x auth_crypt \<Rightarrow> 'x auth_crypt" where
  "activate c = (if crypt_state c = CRYPT_PREPARED then c\<lparr>crypt_state := CRYPT_ACTIVE\<rparr> else c)"

definition decrypt_recv :: "('x, 'm) evp \<Rightarrow> u8 list \<Rightarrow> 'x auth_crypt \<Rightarrow> bool \<times> u8 list \<times> 'x auth_crypt" where
  "decrypt_recv E data c =
     (if crypt_state c \<noteq> CRYPT_ACTIVE then (False, data, c)
      else case arc4_update_data E data (client_decrypt c) of
             (ok, out, a) \<Rightarrow> (ok, out, c\<lparr>client_decrypt := a\<rparr>))"

definition encrypt_send :: "('x, 'm) evp \<Rightarrow> u8 list \<Rightarrow> 'x auth_crypt \<Rightarrow> bool \<times> u8 list \<times> 'x auth_crypt" where
  "encrypt_send E data c =
     (if crypt_state c \<noteq> CRYPT_ACTIVE then (False, data, c)
      else case arc4_update_data E data (server_encrypt c) of
             (ok, out, a) \<Rightarrow> (ok, out, c\<lparr>server_encrypt := a\<rparr>))"

section \<open>Lemmas\<close>

lemma key_ciphers_state:
  assumes "key_ciphers E K c = (ok, c')"
  shows "crypt_state c' = (if ok then CRYPT_PREPARED else crypt_state c)"
  using assms by (auto simp: key_ciphers_def Let_def split: if_splits prod.splits)

lemma prepare_state:
  assumes "prepare E K c = (ok, c')"
  shows "crypt_state c' =
           (case crypt_state c of
              CRYPT_FRESH \<Rightarrow> if ok then CRYPT_PREPARED else CRYPT_FAILED
            | CRYPT_PREPARED \<Rightarrow> CRYPT_FAILED
            | s \<Rightarrow> s)"
    and "ok \<Longrightarrow> crypt_state c = CRYPT_FRESH"
proof -
  obtain ok' d where k: "key_ciphers E K (c\<lparr>crypt_state := CRYPT_FAILED\<rparr>) = (ok', d)"
    by (cases "key_ciphers E K (c\<lparr>crypt_state := CRYPT_FAILED\<rparr>)")
  have "crypt_state d = (if ok' then CRYPT_PREPARED else CRYPT_FAILED)"
    using key_ciphers_state [OF k] by simp
  with assms k show "crypt_state c' =
           (case crypt_state c of
              CRYPT_FRESH \<Rightarrow> if ok then CRYPT_PREPARED else CRYPT_FAILED
            | CRYPT_PREPARED \<Rightarrow> CRYPT_FAILED
            | s \<Rightarrow> s)"
    and "ok \<Longrightarrow> crypt_state c = CRYPT_FRESH"
    by (cases "crypt_state c"; simp add: prepare_def Let_def split: if_splits; fastforce)+
qed

lemma prepare_not_fresh: "crypt_state c \<noteq> CRYPT_FRESH \<Longrightarrow> fst (prepare E K c) = False"
  by (simp add: prepare_def)

lemma activate_state:
  "crypt_state (activate c) = (if crypt_state c = CRYPT_PREPARED then CRYPT_ACTIVE else crypt_state c)"
  by (simp add: activate_def)

lemma encrypt_send_state:
  "encrypt_send E d c = (ok, d', c') \<Longrightarrow> crypt_state c' = crypt_state c"
  by (auto simp: encrypt_send_def split: if_splits prod.splits)

lemma decrypt_recv_state:
  "decrypt_recv E d c = (ok, d', c') \<Longrightarrow> crypt_state c' = crypt_state c"
  by (auto simp: decrypt_recv_def split: if_splits prod.splits)

lemma inert_when_not_active:
  assumes "crypt_state c \<noteq> CRYPT_ACTIVE"
  shows "encrypt_send E d c = (False, d, c)" and "decrypt_recv E d c = (False, d, c)"
  using assms by (simp_all add: encrypt_send_def decrypt_recv_def)

section \<open>Traces of calls\<close>

datatype crypt_op = Op_Prepare "u8 list" | Op_Activate | Op_Encrypt "u8 list" | Op_Decrypt "u8 list"

fun crypt_do :: "('x, 'm) evp \<Rightarrow> crypt_op \<Rightarrow> 'x auth_crypt \<Rightarrow> 'x auth_crypt" where
  "crypt_do E (Op_Prepare K) c = snd (prepare E K c)"
| "crypt_do E Op_Activate c = activate c"
| "crypt_do E (Op_Encrypt d) c = snd (snd (encrypt_send E d c))"
| "crypt_do E (Op_Decrypt d) c = snd (snd (decrypt_recv E d c))"

fun is_prepare :: "crypt_op \<Rightarrow> bool" where
  "is_prepare (Op_Prepare _) = True"
| "is_prepare _ = False"

definition crypt_run :: "('x, 'm) evp \<Rightarrow> crypt_op list \<Rightarrow> 'x auth_crypt \<Rightarrow> 'x auth_crypt" where
  "crypt_run E ops c = fold (crypt_do E) ops c"

lemma crypt_run_simps [simp]:
  "crypt_run E [] c = c"
  "crypt_run E (op # ops) c = crypt_run E ops (crypt_do E op c)"
  "crypt_run E (ops @ ops') c = crypt_run E ops' (crypt_run E ops c)"
  by (simp_all add: crypt_run_def)

lemma crypt_do_state:
  "crypt_state (crypt_do E op c) =
     (case op of
        Op_Prepare K \<Rightarrow>
          (case crypt_state c of
             CRYPT_FRESH \<Rightarrow> if fst (prepare E K c) then CRYPT_PREPARED else CRYPT_FAILED
           | CRYPT_PREPARED \<Rightarrow> CRYPT_FAILED
           | s \<Rightarrow> s)
      | Op_Activate \<Rightarrow> if crypt_state c = CRYPT_PREPARED then CRYPT_ACTIVE else crypt_state c
      | _ \<Rightarrow> crypt_state c)"
proof (cases op)
  case (Op_Prepare K)
  have "prepare E K c = (fst (prepare E K c), snd (prepare E K c))" by simp
  from prepare_state(1) [OF this] show ?thesis by (simp add: Op_Prepare)
next
  case (Op_Encrypt d)
  then show ?thesis by (cases "encrypt_send E d c") (auto dest: encrypt_send_state)
next
  case (Op_Decrypt d)
  then show ?thesis by (cases "decrypt_recv E d c") (auto dest: decrypt_recv_state)
qed (simp add: activate_state)

lemma crypt_run_absorbing:
  "crypt_state c = CRYPT_FAILED \<Longrightarrow> crypt_state (crypt_run E ops c) = CRYPT_FAILED"
  "crypt_state c = CRYPT_ACTIVE \<Longrightarrow> crypt_state (crypt_run E ops c) = CRYPT_ACTIVE"
  by (induction ops arbitrary: c) (auto simp: crypt_do_state split: crypt_op.splits)

lemma crypt_do_fresh:
  "crypt_state c = CRYPT_FRESH \<Longrightarrow> \<not> is_prepare op \<Longrightarrow> crypt_do E op c = c"
  by (cases op) (simp_all add: activate_def inert_when_not_active)

definition activates :: "crypt_op list \<Rightarrow> bool" where
  "activates ops \<longleftrightarrow> (\<exists>mid post. ops = mid @ Op_Activate # post \<and> \<not> list_ex is_prepare mid)"

lemma activates_Nil: "\<not> activates []"
  by (simp add: activates_def)

lemma activates_Cons: "activates (op # ops) \<longleftrightarrow> op = Op_Activate \<or> \<not> is_prepare op \<and> activates ops"
proof
  assume "activates (op # ops)"
  then obtain mid post where m: "op # ops = mid @ Op_Activate # post" "\<not> list_ex is_prepare mid"
    by (auto simp: activates_def)
  then show "op = Op_Activate \<or> \<not> is_prepare op \<and> activates ops"
    by (cases mid) (auto simp: activates_def)
next
  assume "op = Op_Activate \<or> \<not> is_prepare op \<and> activates ops"
  then show "activates (op # ops)"
  proof
    assume "op = Op_Activate"
    then have "op # ops = [] @ Op_Activate # ops \<and> \<not> list_ex is_prepare []" by simp
    then show ?thesis unfolding activates_def by blast
  next
    assume a: "\<not> is_prepare op \<and> activates ops"
    then obtain mid post where "ops = mid @ Op_Activate # post" "\<not> list_ex is_prepare mid"
      by (auto simp: activates_def)
    then have "op # ops = (op # mid) @ Op_Activate # post \<and> \<not> list_ex is_prepare (op # mid)"
      using a by simp
    then show ?thesis unfolding activates_def by blast
  qed
qed

lemma crypt_run_prepared:
  "crypt_state c = CRYPT_PREPARED \<Longrightarrow>
     crypt_state (crypt_run E ops c) = CRYPT_ACTIVE \<longleftrightarrow> activates ops"
proof (induction ops arbitrary: c)
  case Nil
  then show ?case by (simp add: activates_Nil)
next
  case (Cons op ops)
  have st: "crypt_state (crypt_do E op c) =
      (if is_prepare op then CRYPT_FAILED else if op = Op_Activate then CRYPT_ACTIVE else CRYPT_PREPARED)"
    using Cons.prems by (cases op) (simp_all add: crypt_do_state del: crypt_do.simps)
  show ?case
  proof (cases "op = Op_Activate \<or> is_prepare op")
    case True
    then show ?thesis
      using st crypt_run_absorbing [of "crypt_do E op c" E ops]
      by (auto simp: activates_Cons simp del: crypt_do.simps)
  next
    case False
    with st have "crypt_state (crypt_do E op c) = CRYPT_PREPARED" by simp
    from Cons.IH [OF this] False show ?thesis by (simp add: activates_Cons del: crypt_do.simps)
  qed
qed

lemma first_prepare_Cons:
  "(\<exists>pre K rest. op # ops = pre @ Op_Prepare K # rest \<and> \<not> list_ex is_prepare pre \<and> P K rest) \<longleftrightarrow>
     (if is_prepare op then \<exists>K. op = Op_Prepare K \<and> P K ops
      else \<exists>pre K rest. ops = pre @ Op_Prepare K # rest \<and> \<not> list_ex is_prepare pre \<and> P K rest)"
    (is "?l = ?r")
proof
  assume ?l
  then obtain pre K rest where p: "op # ops = pre @ Op_Prepare K # rest"
    "\<not> list_ex is_prepare pre" "P K rest" by blast
  then show ?r by (cases pre) auto
next
  assume r: ?r
  show ?l
  proof (cases "is_prepare op")
    case True
    with r obtain K where "op # ops = [] @ Op_Prepare K # ops \<and> \<not> list_ex is_prepare [] \<and> P K ops"
      by auto
    then show ?thesis by blast
  next
    case False
    with r obtain pre K rest where "ops = pre @ Op_Prepare K # rest" "\<not> list_ex is_prepare pre" "P K rest"
      by auto
    with False have "op # ops = (op # pre) @ Op_Prepare K # rest \<and> \<not> list_ex is_prepare (op # pre) \<and> P K rest"
      by simp
    then show ?thesis by blast
  qed
qed

lemma crypt_run_fresh:
  assumes "crypt_state c = CRYPT_FRESH"
  shows "crypt_state (crypt_run E ops c) = CRYPT_ACTIVE \<longleftrightarrow>
           (\<exists>pre K rest. ops = pre @ Op_Prepare K # rest \<and> \<not> list_ex is_prepare pre \<and>
              (fst (prepare E K c) \<and> activates rest))"
proof (induction ops)
  case Nil
  then show ?case using assms by simp
next
  case (Cons op ops)
  show ?case
  proof (cases "is_prepare op")
    case True
    then obtain K where op: "op = Op_Prepare K" by (cases op) auto
    have "crypt_state (crypt_do E op c) = (if fst (prepare E K c) then CRYPT_PREPARED else CRYPT_FAILED)"
      using assms by (simp add: crypt_do_state op del: crypt_do.simps)
    then show ?thesis
      using crypt_run_prepared [of "crypt_do E op c" E ops] crypt_run_absorbing(1) [of "crypt_do E op c" E ops]
      by (cases "fst (prepare E K c)") (simp_all add: first_prepare_Cons op del: crypt_do.simps)
  next
    case False
    then show ?thesis
      using Cons.IH assms by (simp add: first_prepare_Cons crypt_do_fresh del: crypt_do.simps)
  qed
qed

section \<open>Properties\<close>

text \<open>
  C32: The one-shot protocol of the crypt. Whatever calls are made on a new crypt, it ends up
  active exactly when the first \<open>Prepare\<close> succeeded and \<open>Activate\<close> was called before any
  second \<open>Prepare\<close>. So no call sequence activates a crypt whose keying failed, or one whose
  preparation was superseded.
\<close>

theorem crypt_active_iff:
  "is_initialized (crypt_run E ops (auth_crypt_new E)) \<longleftrightarrow>
     (\<exists>pre K mid post. ops = pre @ Op_Prepare K # mid @ Op_Activate # post \<and>
        \<not> list_ex is_prepare pre \<and> \<not> list_ex is_prepare mid \<and>
        fst (prepare E K (auth_crypt_new E)))"
proof -
  have "crypt_state (auth_crypt_new E) = CRYPT_FRESH" by (simp add: auth_crypt_new_def)
  from crypt_run_fresh [OF this, of E ops] show ?thesis
    unfolding is_initialized_def activates_def by blast
qed

section \<open>Key streams\<close>

text \<open>
  What the code relies on of OpenSSL: \<open>EVP_EncryptUpdate\<close> on RC4 xors the data with the key
  stream and moves on, keying starts the key stream of that key, and the HMAC is a function of
  key and message. \<open>ks x i\<close> is byte \<open>i\<close> of the key stream still to come in context \<open>x\<close>.
\<close>

definition xor_stream :: "(nat \<Rightarrow> u8) \<Rightarrow> u8 list \<Rightarrow> u8 list" where
  "xor_stream s d = map2 (XOR) d (map s [0..<length d])"

fun crypt_outputs :: "('x, 'm) evp \<Rightarrow> crypt_op list \<Rightarrow> 'x auth_crypt \<Rightarrow> u8 list \<times> u8 list" where
  "crypt_outputs E [] c = ([], [])"
| "crypt_outputs E (op # ops) c =
     (case crypt_outputs E ops (crypt_do E op c) of
        (enc, dec) \<Rightarrow>
          (case op of
             Op_Encrypt d \<Rightarrow> (fst (snd (encrypt_send E d c)) @ enc, dec)
           | Op_Decrypt d \<Rightarrow> (enc, fst (snd (decrypt_recv E d c)) @ dec)
           | _ \<Rightarrow> (enc, dec)))"

fun encrypt_inputs :: "crypt_op list \<Rightarrow> u8 list" where
  "encrypt_inputs [] = []"
| "encrypt_inputs (op # ops) = (case op of Op_Encrypt d \<Rightarrow> d | _ \<Rightarrow> []) @ encrypt_inputs ops"

fun decrypt_inputs :: "crypt_op list \<Rightarrow> u8 list" where
  "decrypt_inputs [] = []"
| "decrypt_inputs (op # ops) = (case op of Op_Decrypt d \<Rightarrow> d | _ \<Rightarrow> []) @ decrypt_inputs ops"

lemma length_xor_stream [simp]: "length (xor_stream s d) = length d"
  by (simp add: xor_stream_def)

lemma nth_xor_stream: "i < length d \<Longrightarrow> xor_stream s d ! i = d ! i XOR s i"
  by (simp add: xor_stream_def)

lemma xor_stream_append:
  "xor_stream s (d @ e) = xor_stream s d @ xor_stream (\<lambda>i. s (length d + i)) e"
  by (rule nth_equalityI) (auto simp: nth_xor_stream nth_append)

lemma xor_stream_Nil [simp]: "xor_stream s [] = []"
  by (simp add: xor_stream_def)

text \<open>A cipher whose remaining key stream is \<open>s\<close>.\<close>

definition streams :: "('x \<Rightarrow> nat \<Rightarrow> u8) \<Rightarrow> (nat \<Rightarrow> u8) \<Rightarrow> 'x arc4 \<Rightarrow> bool" where
  "streams ks s a \<longleftrightarrow> arc4_is_ready a \<and> (\<exists>x. arc4_ctx a = Some x \<and> ks x = s)"

definition rc4_laws :: "('x, 'm) evp \<Rightarrow> ('x \<Rightarrow> nat \<Rightarrow> u8) \<Rightarrow> (u8 list \<Rightarrow> nat \<Rightarrow> u8) \<Rightarrow> (u8 list \<Rightarrow> u8 list \<Rightarrow> u8 list) \<Rightarrow> bool" where
  "rc4_laws E ks rc4 hm \<longleftrightarrow>
     (\<forall>x d. \<exists>x'. evp_update E x d = (True, xor_stream (ks x) d, length d, x')
               \<and> ks x' = (\<lambda>i. ks x (length d + i))) \<and>
     (\<forall>x k. \<exists>x'. evp_set_key E x k = (True, x') \<and> ks x' = rc4 k) \<and>
     (\<forall>seed K. hmac_valid (seed_hmac E seed K) \<and> hmac_digest (seed_hmac E seed K) = hm seed K)"

lemma arc4_update_streams:
  assumes "rc4_laws E ks rc4 hm" and "streams ks s a"
  shows "\<exists>a'. arc4_update_data E d a = (True, xor_stream s d, a')
           \<and> streams ks (\<lambda>i. s (length d + i)) a'"
proof -
  from assms(2) obtain x where a: "arc4_is_ready a" "arc4_ctx a = Some x" "ks x = s"
    by (auto simp: streams_def)
  from assms(1) obtain x' where x': "evp_update E x d = (True, xor_stream (ks x) d, length d, x')"
    "ks x' = (\<lambda>i. ks x (length d + i))"
    unfolding rc4_laws_def by blast
  show ?thesis
    using a x' by (auto simp: arc4_update_data_def streams_def arc4_is_ready_def)
qed

lemma arc4_init_streams:
  assumes "rc4_laws E ks rc4 hm" and "arc4_ready a"
  shows "\<exists>a'. arc4_init E k a = (True, a') \<and> streams ks (rc4 k) a'"
proof -
  from assms(1) obtain x' where "evp_set_key E (the (arc4_ctx a)) k = (True, x')" "ks x' = rc4 k"
    unfolding rc4_laws_def by blast
  with assms(2) show ?thesis by (auto simp: arc4_init_def streams_def arc4_is_ready_def)
qed

lemma prepare_streams:
  assumes laws: "rc4_laws E ks rc4 hm" and "is_usable c" and "crypt_state c = CRYPT_FRESH"
  shows "\<exists>c'. prepare E K c = (True, c') \<and> crypt_state c' = CRYPT_PREPARED \<and>
           streams ks (\<lambda>i. rc4 (hm seed_server_encrypt K) (1024 + i)) (server_encrypt c') \<and>
           streams ks (\<lambda>i. rc4 (hm seed_server_decrypt K) (1024 + i)) (client_decrypt c')"
proof -
  let ?ke = "hm seed_server_encrypt K" and ?kd = "hm seed_server_decrypt K"
  have h: "hmac_valid (seed_hmac E seed K)" "hmac_digest (seed_hmac E seed K) = hm seed K" for seed
    using laws unfolding rc4_laws_def by blast+
  have r: "arc4_ready (client_decrypt c)" "arc4_ready (server_encrypt c)"
    using assms(2) by (simp_all add: is_usable_def arc4_is_selected_def)
  obtain dec where dec: "arc4_init E ?kd (client_decrypt c) = (True, dec)" "streams ks (rc4 ?kd) dec"
    using arc4_init_streams [OF laws r(1)] by blast
  obtain enc where enc: "arc4_init E ?ke (server_encrypt c) = (True, enc)" "streams ks (rc4 ?ke) enc"
    using arc4_init_streams [OF laws r(2)] by blast
  obtain enc' where enc': "arc4_update_data E (replicate 1024 0) enc =
      (True, xor_stream (rc4 ?ke) (replicate 1024 0), enc')" "streams ks (\<lambda>i. rc4 ?ke (1024 + i)) enc'"
    using arc4_update_streams [OF laws enc(2), of "replicate 1024 0"] by auto
  obtain dec' where dec': "arc4_update_data E (replicate 1024 0) dec =
      (True, xor_stream (rc4 ?kd) (replicate 1024 0), dec')" "streams ks (\<lambda>i. rc4 ?kd (1024 + i)) dec'"
    using arc4_update_streams [OF laws dec(2), of "replicate 1024 0"] by auto
  show ?thesis
    using assms(2,3) h dec(1) enc(1) enc' dec'
    by (simp add: prepare_def key_ciphers_def Let_def is_usable_def)
qed

lemma crypt_outputs_streams:
  assumes laws: "rc4_laws E ks rc4 hm"
  shows "crypt_state c = CRYPT_ACTIVE \<Longrightarrow> streams ks se (server_encrypt c) \<Longrightarrow>
         streams ks sd (client_decrypt c) \<Longrightarrow>
         crypt_outputs E ops c = (xor_stream se (encrypt_inputs ops), xor_stream sd (decrypt_inputs ops))"
proof (induction ops arbitrary: c se sd)
  case Nil
  then show ?case by simp
next
  case (Cons op ops)
  show ?case
  proof (cases op)
    case (Op_Prepare K)
    then show ?thesis using Cons by (simp add: prepare_def)
  next
    case Op_Activate
    then show ?thesis using Cons by (simp add: activate_def)
  next
    case (Op_Encrypt d)
    obtain a where "arc4_update_data E d (server_encrypt c) = (True, xor_stream se d, a)"
      "streams ks (\<lambda>i. se (length d + i)) a"
      using arc4_update_streams [OF laws Cons.prems(2)] by blast
    then show ?thesis
      using Cons.IH [of "c\<lparr>server_encrypt := a\<rparr>" "\<lambda>i. se (length d + i)" sd] Cons.prems Op_Encrypt
      by (simp add: encrypt_send_def xor_stream_append)
  next
    case (Op_Decrypt d)
    obtain a where "arc4_update_data E d (client_decrypt c) = (True, xor_stream sd d, a)"
      "streams ks (\<lambda>i. sd (length d + i)) a"
      using arc4_update_streams [OF laws Cons.prems(3)] by blast
    then show ?thesis
      using Cons.IH [of "c\<lparr>client_decrypt := a\<rparr>" se "\<lambda>i. sd (length d + i)"] Cons.prems Op_Decrypt
      by (simp add: decrypt_recv_def xor_stream_append)
  qed
qed

text \<open>
  C33: One continuous key stream per direction. On a usable crypt \<open>Prepare\<close> succeeds, and after
  \<open>Activate\<close> everything that is encrypted, over all calls in order, is the concatenation of the
  headers xored with one RC4 stream of the HMAC of the session key under the server seed, from
  byte 1024 on; the same holds of decryption with the other seed. Calls in the other direction
  and further calls of \<open>Prepare\<close> or \<open>Activate\<close> in between never disturb either stream.
\<close>

theorem crypt_key_streams:
  assumes "rc4_laws E ks rc4 hm" and "is_usable (auth_crypt_new E)"
  shows "fst (prepare E K (auth_crypt_new E))
    \<and> crypt_outputs E (Op_Prepare K # Op_Activate # ops) (auth_crypt_new E) =
        (xor_stream (\<lambda>i. rc4 (hm seed_server_encrypt K) (1024 + i)) (encrypt_inputs ops),
         xor_stream (\<lambda>i. rc4 (hm seed_server_decrypt K) (1024 + i)) (decrypt_inputs ops))"
proof -
  have "crypt_state (auth_crypt_new E) = CRYPT_FRESH" by (simp add: auth_crypt_new_def)
  from prepare_streams [OF assms this, of K] obtain c where
    "prepare E K (auth_crypt_new E) = (True, c)" "crypt_state c = CRYPT_PREPARED"
    "streams ks (\<lambda>i. rc4 (hm seed_server_encrypt K) (1024 + i)) (server_encrypt c)"
    "streams ks (\<lambda>i. rc4 (hm seed_server_decrypt K) (1024 + i)) (client_decrypt c)" by blast
  then show ?thesis
    using crypt_outputs_streams [OF assms(1), of "activate c"]
    by (simp add: activate_def)
qed

text \<open>A concrete library for the witness: the key repeated as the stream, the key as the MAC.\<close>

definition repeating_evp :: "(u8 list \<times> nat, u8 list) evp" where
  "repeating_evp =
     \<lparr>evp_providers = True, evp_ctx_new = Some ([], 0), evp_rc4 = True,
      evp_select = (\<lambda>x. (True, x)), evp_set_key_length = (\<lambda>x n. (True, x)),
      evp_set_key = (\<lambda>x k. (True, (k, 0))),
      evp_update = (\<lambda>(k, n) d. (True, xor_stream (\<lambda>i. k ! ((n + i) mod length k)) d, length d, (k, n + length d))),
      mac_new = Some, mac_update = (\<lambda>m d. (True, m @ d)), mac_final = (\<lambda>m. (True, m, 20))\<rparr>"

theorem crypt_key_streams_witness:
  "fst (crypt_outputs repeating_evp [Op_Prepare [], Op_Activate, Op_Encrypt [0, 0], Op_Decrypt [9], Op_Encrypt [1]]
          (auth_crypt_new repeating_evp)) = [0x08, 0xF1, 0x94]"
proof -
  have "hmac_valid (seed_hmac repeating_evp seed K) \<and> hmac_digest (seed_hmac repeating_evp seed K) = seed @ K"
    for seed K
    by (simp add: seed_hmac_def hmac_new_def hmac_update_data_def hmac_finalize_def repeating_evp_def)
  then have laws: "rc4_laws repeating_evp (\<lambda>(k, n) i. k ! ((n + i) mod length k)) (\<lambda>k i. k ! (i mod length k)) (@)"
    unfolding rc4_laws_def by (auto simp: repeating_evp_def add.assoc)
  have use: "is_usable (auth_crypt_new repeating_evp)"
    by (simp add: is_usable_def auth_crypt_new_def arc4_new_def arc4_is_selected_def repeating_evp_def Let_def)
  show ?thesis
    using crypt_key_streams [OF laws use, of "[]" "[Op_Encrypt [0, 0], Op_Decrypt [9], Op_Encrypt [1]]"]
    by (simp add: xor_stream_def seed_server_encrypt_def)
qed

end
