(* ===== verification/SessionKey.thy ===== *)
theory SessionKey
  imports Prelude
begin

text \<open>
  The session key: \<open>src/src/shared/Auth/MopAuthKey.h\<close> and \<open>MopAuthKey.cpp\<close>, the part of
  \<open>BigNumber.cpp\<close> they use, and the login proof of \<open>src/src/proto/MopAuthProof.cpp\<close>. A C string
  is an optional byte list, \<open>None\<close> the null pointer. OpenSSL's big numbers are a parameter: a
  type \<open>'b\<close> with \<open>BN_hex2bn\<close>, \<open>BN_num_bytes\<close> and \<open>BN_bn2binpad\<close>; its SHA-1 is a function of
  the whole message.
\<close>

section \<open>Big numbers\<close>

record 'b bn_lib =
  bn_new :: "'b"
  bn_hex2bn :: "u8 list \<Rightarrow> 'b"
  bn_num_bytes :: "'b \<Rightarrow> nat"
  bn_bn2binpad :: "'b \<Rightarrow> nat \<Rightarrow> u8 list"

definition bn_set_hex_str :: "'b bn_lib \<Rightarrow> u8 list \<Rightarrow> 'b" where
  "bn_set_hex_str L str = bn_hex2bn L str"

definition bn_get_num_bytes :: "'b bn_lib \<Rightarrow> 'b \<Rightarrow> nat" where
  "bn_get_num_bytes L b = bn_num_bytes L b"

definition bn_as_byte_array :: "'b bn_lib \<Rightarrow> nat \<Rightarrow> bool \<Rightarrow> 'b \<Rightarrow> u8 list" where
  "bn_as_byte_array L minSize reverse b =
     (let len = (if minSize \<ge> bn_get_num_bytes L b then minSize else bn_get_num_bytes L b);
          arr = bn_bn2binpad L b len
      in if reverse then rev arr else arr)"

section \<open>Keys\<close>

definition raw40_from_little_endian :: "u8 list option \<Rightarrow> nat \<Rightarrow> u8 list \<Rightarrow> bool \<times> u8 list" where
  "raw40_from_little_endian le leLen out =
     (case le of
        None \<Rightarrow> (False, out)
      | Some bytes \<Rightarrow>
          if leLen = 0 \<or> leLen > 40 then (False, out)
          else (True, take leLen bytes @ replicate (40 - leLen) 0))"

definition is_hex_digit :: "u8 \<Rightarrow> bool" where
  "is_hex_digit p \<longleftrightarrow> (p \<ge> 48 \<and> p \<le> 57) \<or> (p \<ge> 97 \<and> p \<le> 102) \<or> (p \<ge> 65 \<and> p \<le> 70)"

definition is_plausible_session_key_hex :: "u8 list option \<Rightarrow> bool" where
  "is_plausible_session_key_hex hex =
     (case hex of
        None \<Rightarrow> False
      | Some s \<Rightarrow> list_all is_hex_digit s \<and> length s \<noteq> 0 \<and> length s mod 2 = 0 \<and> length s \<le> 80)"

definition session_key_from_hex :: "'b bn_lib \<Rightarrow> u8 list option \<Rightarrow> u8 list \<Rightarrow> bool \<times> u8 list" where
  "session_key_from_hex L hex out =
     (if \<not> is_plausible_session_key_hex hex then (False, out)
      else let k = bn_set_hex_str L (the hex)
           in raw40_from_little_endian (Some (bn_as_byte_array L 0 True k)) (bn_get_num_bytes L k) out)"

section \<open>The login proof\<close>

text \<open>\<open>Sha1Hash\<close> accumulates the message; \<open>sha1\<close> is the digest of it.\<close>

definition compute_auth_proof ::
  "(u8 list \<Rightarrow> u8 list) \<Rightarrow> u8 list \<Rightarrow> u32 \<Rightarrow> u32 \<Rightarrow> u8 list \<Rightarrow> u8 list" where
  "compute_auth_proof sha1 account clientSeed serverSeed K =
     sha1 (account @ le_bytes 4 (0 :: u32) @ le_bytes 4 clientSeed @ le_bytes 4 serverSeed @ K)"

definition proof_equals :: "u8 list \<Rightarrow> u8 list \<Rightarrow> bool" where
  "proof_equals a b \<longleftrightarrow> take 20 a = take 20 b"

section \<open>Values of byte lists and of hexadecimal strings\<close>

fun le_value :: "u8 list \<Rightarrow> nat" where
  "le_value [] = 0"
| "le_value (b # bs) = unat b + 256 * le_value bs"

definition nat_bytes :: "nat \<Rightarrow> nat \<Rightarrow> u8 list" where
  "nat_bytes n v = map (\<lambda>i. of_nat (v div 256 ^ i)) [0..<n]"

definition hex_digit_value :: "u8 \<Rightarrow> nat" where
  "hex_digit_value p = (if p \<ge> 97 then unat p - 87 else if p \<ge> 65 then unat p - 55 else unat p - 48)"

definition hex_value :: "u8 list \<Rightarrow> nat" where
  "hex_value s = foldl (\<lambda>v p. 16 * v + hex_digit_value p) 0 s"

text \<open>The documented behaviour of the OpenSSL functions; \<open>val\<close> is the number.\<close>

definition bn_laws :: "'b bn_lib \<Rightarrow> ('b \<Rightarrow> nat) \<Rightarrow> bool" where
  "bn_laws L val \<longleftrightarrow>
     (\<forall>b. val b < 256 ^ bn_num_bytes L b \<and> (bn_num_bytes L b = 0 \<or> 256 ^ (bn_num_bytes L b - 1) \<le> val b)) \<and>
     (\<forall>b n. bn_num_bytes L b \<le> n \<longrightarrow> bn_bn2binpad L b n = rev (nat_bytes n (val b))) \<and>
     (\<forall>s. s \<noteq> [] \<and> list_all is_hex_digit s \<longrightarrow> val (bn_hex2bn L s) = hex_value s)"

lemma length_nat_bytes [simp]: "length (nat_bytes n v) = n"
  by (simp add: nat_bytes_def)

lemma nat_bytes_Suc: "nat_bytes (Suc n) v = of_nat v # nat_bytes n (v div 256)"
proof -
  have "nat_bytes (Suc n) v = of_nat v # map (\<lambda>i. of_nat (v div 256 ^ Suc i)) [0..<n]"
    by (simp add: nat_bytes_def upt_conv_Cons map_Suc_upt [symmetric] del: upt_Suc power_Suc)
  then show ?thesis by (simp add: nat_bytes_def div_mult2_eq)
qed

lemma nat_bytes_le_value: "nat_bytes (length bs) (le_value bs) = bs"
proof (induction bs)
  case (Cons b bs)
  have "unat b < 256" using unsigned_less [of b, where ?'a = nat] by simp
  then have "(unat b + 256 * le_value bs) div 256 = le_value bs" by simp
  moreover have "(of_nat (unat b + 256 * le_value bs) :: u8) = b"
  proof -
    have "(256 :: u8) = 0" by simp
    then show ?thesis by (simp only: of_nat_add of_nat_mult of_nat_numeral of_nat_unat) simp
  qed
  ultimately show ?case by (simp only: length_Cons nat_bytes_Suc le_value.simps Cons.IH)
qed (simp add: nat_bytes_def)

lemma nat_bytes_pad:
  assumes "v < 256 ^ m" and "m \<le> n"
  shows "nat_bytes n v = nat_bytes m v @ replicate (n - m) 0"
proof (rule nth_equalityI)
  fix i assume "i < length (nat_bytes n v)"
  then have i: "i < n" by simp
  show "nat_bytes n v ! i = (nat_bytes m v @ replicate (n - m) 0) ! i"
  proof (cases "i < m")
    case False
    then have "v < 256 ^ i" using assms(1) by (meson less_le_trans not_less power_increasing one_le_numeral)
    with False i show ?thesis by (simp add: nat_bytes_def nth_append)
  qed (use i in \<open>simp add: nat_bytes_def nth_append\<close>)
qed (use assms in simp)

lemma hex_value_bound: "list_all is_hex_digit s \<Longrightarrow> hex_value s < 16 ^ length s"
proof (induction s rule: rev_induct)
  case (snoc p s)
  have "hex_digit_value p \<le> 15"
    using snoc.prems by (auto simp: is_hex_digit_def hex_digit_value_def word_le_nat_alt)
  moreover have "hex_value s + 1 \<le> 16 ^ length s" using snoc by simp
  ultimately have "16 * hex_value s + hex_digit_value p < 16 * 16 ^ length s" by linarith
  then show ?case by (simp add: hex_value_def)
qed (simp add: hex_value_def)

lemma num_bytes_le:
  assumes "bn_laws L val" and "val b < 256 ^ n"
  shows "bn_num_bytes L b \<le> n"
proof (rule ccontr)
  assume "\<not> bn_num_bytes L b \<le> n"
  then have n: "n \<le> bn_num_bytes L b - 1" "bn_num_bytes L b \<noteq> 0" by linarith+
  have "bn_num_bytes L b = 0 \<or> 256 ^ (bn_num_bytes L b - 1) \<le> val b"
    using assms(1) unfolding bn_laws_def by blast
  with n(2) have "256 ^ (bn_num_bytes L b - 1) \<le> val b" by (simp only: simp_thms)
  moreover have "(256 :: nat) ^ n \<le> 256 ^ (bn_num_bytes L b - 1)"
    by (rule power_increasing [OF n(1)]) simp
  ultimately show False using assms(2) by linarith
qed

lemma num_bytes_0_iff: "bn_laws L val \<Longrightarrow> bn_num_bytes L b = 0 \<longleftrightarrow> val b = 0"
proof -
  assume l: "bn_laws L val"
  have "val b < 256 ^ bn_num_bytes L b"
    and "bn_num_bytes L b = 0 \<or> 256 ^ (bn_num_bytes L b - 1) \<le> val b"
    using l unfolding bn_laws_def by blast+
  moreover have "0 < (256 :: nat) ^ (bn_num_bytes L b - 1)" by simp
  ultimately have "bn_num_bytes L b = 0 \<Longrightarrow> val b = 0" and "bn_num_bytes L b \<noteq> 0 \<Longrightarrow> val b \<noteq> 0"
    by (simp, linarith)
  then show ?thesis by blast
qed

lemma as_byte_array:
  assumes "bn_laws L val"
  shows "bn_as_byte_array L n True b = nat_bytes (max n (bn_num_bytes L b)) (val b)"
proof -
  have "bn_bn2binpad L b m = rev (nat_bytes m (val b))" if "bn_num_bytes L b \<le> m" for m
    using assms that unfolding bn_laws_def by blast
  then show ?thesis by (simp add: bn_as_byte_array_def bn_get_num_bytes_def Let_def max_def)
qed

section \<open>Properties\<close>

text \<open>
  From any hexadecimal key text of the account table the code obtains the 40-byte
  little-endian form of the number, whatever number of leading zero bytes the text has dropped:
  a 40-byte key that is stored as its number is recovered byte for byte. Text that is absent,
  empty, malformed, too long or zero is refused and leaves the output alone.
\<close>

theorem session_key_recovered:
  assumes laws: "bn_laws L val"
  shows "session_key_from_hex L (Some s) out =
           (if is_plausible_session_key_hex (Some s) \<and> hex_value s \<noteq> 0
            then (True, nat_bytes 40 (hex_value s)) else (False, out))
    \<and> session_key_from_hex L None out = (False, out)
    \<and> (\<forall>K. length K = 40 \<longrightarrow> le_value K \<noteq> 0 \<longrightarrow> hex_value s = le_value K \<longrightarrow>
          is_plausible_session_key_hex (Some s) \<longrightarrow> session_key_from_hex L (Some s) out = (True, K))"
proof -
  have main: "session_key_from_hex L (Some s) out =
      (if is_plausible_session_key_hex (Some s) \<and> hex_value s \<noteq> 0
       then (True, nat_bytes 40 (hex_value s)) else (False, out))"
  proof (cases "is_plausible_session_key_hex (Some s)")
    case True
    let ?k = "bn_hex2bn L s"
    have s: "s \<noteq> []" "list_all is_hex_digit s" "length s \<le> 80"
      using True by (auto simp: is_plausible_session_key_hex_def)
    have val: "val ?k = hex_value s" using laws s unfolding bn_laws_def by blast
    have "hex_value s < 16 ^ length s" by (rule hex_value_bound [OF s(2)])
    also have "(16 :: nat) ^ length s \<le> 16 ^ 80" by (rule power_increasing [OF s(3)]) simp
    also have "(16 :: nat) ^ 80 = 256 ^ 40" by simp
    finally have lt: "val ?k < 256 ^ 40" by (simp only: val)
    have n: "bn_num_bytes L ?k \<le> 40" by (rule num_bytes_le [OF laws lt])
    have "val ?k < 256 ^ bn_num_bytes L ?k" using laws unfolding bn_laws_def by blast
    from nat_bytes_pad [OF this n] val
    have "nat_bytes 40 (hex_value s) =
        nat_bytes (bn_num_bytes L ?k) (hex_value s) @ replicate (40 - bn_num_bytes L ?k) 0" by simp
    then show ?thesis
      using True n num_bytes_0_iff [OF laws, of ?k] val
      by (simp add: session_key_from_hex_def raw40_from_little_endian_def bn_set_hex_str_def
          bn_get_num_bytes_def as_byte_array [OF laws] Let_def)
  next
    case False
    then show ?thesis by (simp add: session_key_from_hex_def)
  qed
  moreover have "nat_bytes 40 (le_value K) = K" if "length K = 40" for K
    using nat_bytes_le_value [of K] that by simp
  moreover have "session_key_from_hex L None out = (False, out)"
    by (simp add: session_key_from_hex_def is_plausible_session_key_hex_def)
  ultimately show ?thesis by auto
qed

text \<open>
  \<open>AsByteArray(minSize)\<close> pads at the most significant end: it is the little-endian form of
  the number with \<open>minSize\<close> bytes, or with as many as the number needs, and the bytes of the
  number are never shifted.
\<close>

theorem as_byte_array_pads:
  assumes "bn_laws L val"
  shows "bn_as_byte_array L minSize True b =
           nat_bytes (bn_num_bytes L b) (val b) @ replicate (minSize - bn_num_bytes L b) 0"
proof -
  have "val b < 256 ^ bn_num_bytes L b" using assms unfolding bn_laws_def by blast
  from nat_bytes_pad [OF this, of "max minSize (bn_num_bytes L b)"] show ?thesis
    by (simp add: as_byte_array [OF assms] max_def)
qed

text \<open>A concrete library for the witnesses: numbers are \<open>nat\<close>.\<close>

fun byte_count :: "nat \<Rightarrow> nat" where
  "byte_count n = (if n = 0 then 0 else Suc (byte_count (n div 256)))"

declare byte_count.simps [simp del]

definition nat_bn :: "nat bn_lib" where
  "nat_bn = \<lparr>bn_new = 0, bn_hex2bn = hex_value, bn_num_bytes = byte_count,
             bn_bn2binpad = (\<lambda>b n. rev (nat_bytes n b))\<rparr>"

lemma byte_count_bounds: "n < 256 ^ byte_count n \<and> (byte_count n = 0 \<or> 256 ^ (byte_count n - 1) \<le> n)"
proof (induction n rule: byte_count.induct)
  case (1 n)
  show ?case
  proof (cases "n = 0")
    case True
    then show ?thesis by (simp add: byte_count.simps)
  next
    case False
    let ?c = "byte_count (n div 256)"
    have b: "byte_count n = Suc ?c" using False by (subst byte_count.simps) simp
    from 1 False have ih: "n div 256 < 256 ^ ?c" "?c = 0 \<or> 256 ^ (?c - 1) \<le> n div 256" by auto
    from ih(1) have "n < 256 * 256 ^ ?c" by (simp add: div_less_iff_less_mult mult.commute)
    moreover have "256 ^ ?c \<le> n"
    proof (cases ?c)
      case 0
      then show ?thesis using False by simp
    next
      case (Suc m)
      with ih(2) have "256 ^ m \<le> n div 256" by simp
      then have "256 ^ m * 256 \<le> n" by (simp add: less_eq_div_iff_mult_less_eq)
      then show ?thesis by (simp add: Suc mult.commute)
    qed
    ultimately show ?thesis by (simp add: b)
  qed
qed

lemma bn_laws_nat: "bn_laws nat_bn (\<lambda>n. n)"
  unfolding bn_laws_def nat_bn_def using byte_count_bounds by simp

theorem session_key_recovered_witness:
  "session_key_from_hex nat_bn (Some [48, 49, 102, 69]) [] = (True, [0xFE, 0x01] @ replicate 38 0)"
proof -
  have "nat_bytes 40 510 = nat_bytes 2 510 @ replicate 38 0"
    using nat_bytes_pad [of 510 2 40] by simp
  moreover have "nat_bytes 2 510 = [0xFE, 0x01]"
    by (simp add: nat_bytes_def upt_conv_Cons)
  ultimately show ?thesis
    using session_key_recovered [OF bn_laws_nat, of "[48, 49, 102, 69]" "[]"]
    by (simp add: is_plausible_session_key_hex_def is_hex_digit_def hex_value_def hex_digit_value_def)
qed

theorem as_byte_array_pads_witness:
  "bn_as_byte_array nat_bn 3 True 510 = [0xFE, 0x01, 0]"
proof -
  have "byte_count 510 = 2" by (simp add: byte_count.simps)
  then have "bn_num_bytes nat_bn 510 = 2" by (simp add: nat_bn_def)
  moreover have "nat_bytes 2 510 = [0xFE, 0x01]"
    by (simp add: nat_bytes_def upt_conv_Cons)
  ultimately show ?thesis
    using as_byte_array_pads [OF bn_laws_nat, of 3 510] by simp
qed

end
