(* ===== verification/AuthSession.thy ===== *)
theory AuthSession
  imports ByteBuffer
begin

text \<open>
  The decoder of CMSG_AUTH_SESSION, \<open>src/src/proto/MopAuthSession.cpp\<close>. It reads the body
  through the packet buffer, whose exceptions it catches; the local \<open>parsed\<close> and the buffer are
  threaded through the reads, the output is written on success only. The caller never uses the
  buffer again, so the result is the decode result and the output.
\<close>

section \<open>State\<close>

datatype decode_result = DecodeOk | ShortBody | BadAddonSize | TruncatedName

record auth_session_fields =
  as_digest :: "u8 list"
  as_client_seed :: u32
  as_built_number_client :: u16
  as_addon_size :: u32
  as_addon_data :: "u8 list"
  as_account :: "u8 list"
  as_use_ipv6 :: bool

definition auth_session_fields_zero :: auth_session_fields where
  "auth_session_fields_zero =
     \<lparr>as_digest = replicate 20 0, as_client_seed = 0, as_built_number_client = 0, as_addon_size = 0,
      as_addon_data = [], as_account = [], as_use_ipv6 = False\<rparr>"

definition legacy_fixed_prefix_bytes :: nat where
  "legacy_fixed_prefix_bytes = 56"

section \<open>The fixed prefix\<close>

type_synonym decode_state = "auth_session_fields \<times> byte_buffer"

definition skip_bytes :: "nat \<Rightarrow> decode_state \<Rightarrow> bb_error + decode_state" where
  "skip_bytes n s = (case s of (p, b) \<Rightarrow> sum_bind (read_skip n b) (\<lambda>b. Inr (p, b)))"

definition get_digest :: "nat \<Rightarrow> decode_state \<Rightarrow> bb_error + decode_state" where
  "get_digest i s =
     (case s of (p, b) \<Rightarrow> sum_bind (get_u8 b) (\<lambda>(v, b). Inr (p\<lparr>as_digest := (as_digest p)[i := v]\<rparr>, b)))"

definition get_client_seed :: "decode_state \<Rightarrow> bb_error + decode_state" where
  "get_client_seed s =
     (case s of (p, b) \<Rightarrow> sum_bind (get_u32 b) (\<lambda>(v, b). Inr (p\<lparr>as_client_seed := v\<rparr>, b)))"

definition get_built_number :: "decode_state \<Rightarrow> bb_error + decode_state" where
  "get_built_number s =
     (case s of (p, b) \<Rightarrow> sum_bind (get_u16 b) (\<lambda>(v, b). Inr (p\<lparr>as_built_number_client := v\<rparr>, b)))"

definition get_addon_size :: "decode_state \<Rightarrow> bb_error + decode_state" where
  "get_addon_size s =
     (case s of (p, b) \<Rightarrow> sum_bind (get_u32 b) (\<lambda>(v, b). Inr (p\<lparr>as_addon_size := v\<rparr>, b)))"

definition decode_prefix :: "decode_state \<Rightarrow> bb_error + decode_state" where
  "decode_prefix =
     chain [skip_bytes 4, skip_bytes 4, get_digest 18, get_digest 14, get_digest 3, get_digest 4,
            get_digest 0, skip_bytes 4, get_digest 11, get_client_seed, get_digest 19,
            skip_bytes 1, skip_bytes 1, get_digest 2, get_digest 9, get_digest 12,
            skip_bytes 8, skip_bytes 4, get_digest 16, get_digest 5, get_digest 6, get_digest 8,
            get_built_number, get_digest 17, get_digest 7, get_digest 13, get_digest 15,
            get_digest 1, get_digest 10, get_addon_size]"

section \<open>The variable part\<close>

definition read_addon_data :: "decode_state \<Rightarrow> bb_error + decode_state" where
  "read_addon_data s =
     (case s of
        (p, b) \<Rightarrow>
          let n = unat (as_addon_size p); p = p\<lparr>as_addon_data := replicate n 0\<rparr>
          in if n > 0 then sum_bind (read_bytes n b) (\<lambda>(data, b). Inr (p\<lparr>as_addon_data := data\<rparr>, b))
             else Inr (p, b))"

definition decode_name :: "decode_state \<Rightarrow> bb_error + decode_result \<times> auth_session_fields" where
  "decode_name s =
     (case s of
        (p, b) \<Rightarrow>
          sum_bind (read_bit b) (\<lambda>(flag, b).
          sum_bind (read_bits 11 b) (\<lambda>(nameLength, b).
            let p = p\<lparr>as_use_ipv6 := flag\<rparr>
            in if unat nameLength > size_minus (bb_size b) (bb_rpos b) then Inr (TruncatedName, p)
               else sum_bind (read_string nameLength b)
                      (\<lambda>(account, b). Inr (DecodeOk, p\<lparr>as_account := account\<rparr>)))))"

definition decode_variable :: "decode_state \<Rightarrow> bb_error + decode_result \<times> auth_session_fields" where
  "decode_variable s =
     (case s of
        (p, b) \<Rightarrow>
          if unat (as_addon_size p) > size_minus (bb_size b) (bb_rpos b) then Inr (BadAddonSize, p)
          else sum_bind (read_addon_data (p, b)) (\<lambda>(p, b).
            if size_minus (bb_size b) (bb_rpos b) < 2 then Inr (ShortBody, p)
            else decode_name (p, b)))"

definition decode_auth_session ::
  "byte_buffer \<Rightarrow> auth_session_fields \<Rightarrow> decode_result \<times> auth_session_fields" where
  "decode_auth_session inb out =
     (if size_minus (bb_size inb) (bb_rpos inb) < legacy_fixed_prefix_bytes then (ShortBody, out)
      else case sum_bind (decode_prefix (auth_session_fields_zero, inb)) decode_variable of
             Inl _ \<Rightarrow> (ShortBody, out)
           | Inr (DecodeOk, parsed) \<Rightarrow> (DecodeOk, parsed)
           | Inr (r, _) \<Rightarrow> (r, out))"

section \<open>Specification: the layout of the body\<close>

text \<open>Byte \<open>digest_offsets ! i\<close> of the body is digest byte \<open>i\<close>.\<close>

definition digest_offsets :: "nat list" where
  "digest_offsets = [12, 50, 25, 10, 11, 41, 42, 47, 43, 26, 51, 17, 27, 48, 9, 49, 40, 46, 8, 22]"

definition word_at :: "nat \<Rightarrow> nat \<Rightarrow> u8 list \<Rightarrow> 'w::len word" where
  "word_at pos n body = le_word (take n (drop pos body))"

definition name_length_at :: "nat \<Rightarrow> u8 list \<Rightarrow> nat" where
  "name_length_at q body =
     unat (push_bit 4 (ucast (body ! q) AND 0x7F) OR drop_bit 4 (ucast (body ! Suc q)) :: u32)"

definition parse_auth_session :: "u8 list \<Rightarrow> decode_result + auth_session_fields" where
  "parse_auth_session body =
     (if length body < 56 then Inl ShortBody
      else let addon = unat (word_at 52 4 body :: u32); q = 56 + addon
           in if length body < q then Inl BadAddonSize
              else if length body < q + 2 then Inl ShortBody
              else let n = name_length_at q body
                   in if length body < q + 2 + n then Inl TruncatedName
                      else Inr \<lparr>as_digest = map ((!) body) digest_offsets,
                                as_client_seed = word_at 18 4 body,
                                as_built_number_client = word_at 44 2 body,
                                as_addon_size = word_at 52 4 body,
                                as_addon_data = take addon (drop 56 body),
                                as_account = take n (drop (q + 2) body),
                                as_use_ipv6 = bit (body ! q) 7\<rparr>)"

section \<open>Lemmas\<close>

text \<open>The buffer after \<open>n\<close> bytes of the body have been read.\<close>

definition body_at :: "nat \<Rightarrow> byte_buffer \<Rightarrow> byte_buffer" where
  "body_at n b = b\<lparr>bb_bitpos := 8, bb_rpos := n\<rparr>"

lemma body_at_simps [simp]:
  "bb_rpos (body_at n b) = n" "bb_size (body_at n b) = bb_size b"
  "bb_storage (body_at n b) = bb_storage b" "bb_bitpos (body_at n b) = 8"
  "body_at m (body_at n b) = body_at m b"
  by (simp_all add: body_at_def bb_size_def)

lemma skip_bytes_body:
  "m = n + k \<Longrightarrow> m \<le> bb_size b \<Longrightarrow> skip_bytes k (p, body_at n b) = Inr (p, body_at m b)"
  by (simp add: skip_bytes_def read_skip_def reset_bit_reader_def body_at_def bb_size_def Let_def)

lemma get_digest_body:
  "m = n + 1 \<Longrightarrow> m \<le> bb_size b \<Longrightarrow>
     get_digest i (p, body_at n b) =
       Inr (p\<lparr>as_digest := (as_digest p)[i := bb_storage b ! n]\<rparr>, body_at m b)"
  by (simp add: get_digest_def get_u8_eq body_at_def bb_size_def)

lemma get_words_body:
  "m = n + 4 \<Longrightarrow> m \<le> bb_size b \<Longrightarrow>
     get_client_seed (p, body_at n b) =
       Inr (p\<lparr>as_client_seed := word_at n 4 (bb_storage b)\<rparr>, body_at m b)"
  "m = n + 2 \<Longrightarrow> m \<le> bb_size b \<Longrightarrow>
     get_built_number (p, body_at n b) =
       Inr (p\<lparr>as_built_number_client := word_at n 2 (bb_storage b)\<rparr>, body_at m b)"
  "m = n + 4 \<Longrightarrow> m \<le> bb_size b \<Longrightarrow>
     get_addon_size (p, body_at n b) =
       Inr (p\<lparr>as_addon_size := word_at n 4 (bb_storage b)\<rparr>, body_at m b)"
  by (simp_all add: get_client_seed_def get_built_number_def get_addon_size_def get_u32_def get_u16_def
      read_value_eq body_at_def bb_size_def word_at_def)

definition prefix_fields :: "u8 list \<Rightarrow> auth_session_fields" where
  "prefix_fields body =
     \<lparr>as_digest = map ((!) body) digest_offsets, as_client_seed = word_at 18 4 body,
      as_built_number_client = word_at 44 2 body, as_addon_size = word_at 52 4 body,
      as_addon_data = [], as_account = [], as_use_ipv6 = False\<rparr>"

lemma replicate_20: "replicate 20 (x :: 'a) = [x,x,x,x,x,x,x,x,x,x,x,x,x,x,x,x,x,x,x,x]"
  by (simp add: numeral_eq_Suc)

lemma decode_prefix_body:
  assumes "56 \<le> bb_size b"
  shows "decode_prefix (auth_session_fields_zero, body_at 0 b) =
           Inr (prefix_fields (bb_storage b), body_at 56 b)"
proof -
  have s: "m \<le> 56 \<Longrightarrow> skip_bytes k (p, body_at n b) = Inr (p, body_at m b)" if "m = n + k" for m n k p
    using skip_bytes_body [OF that] assms by simp
  have d: "m \<le> 56 \<Longrightarrow> get_digest i (p, body_at n b) =
       Inr (p\<lparr>as_digest := (as_digest p)[i := bb_storage b ! n]\<rparr>, body_at m b)" if "m = n + 1" for m n i p
    using get_digest_body [OF that] assms by simp
  show ?thesis
    using assms unfolding decode_prefix_def chain.simps
    by (simp add: s [OF refl] d [OF refl] get_words_body [OF refl]
        auth_session_fields_zero_def prefix_fields_def digest_offsets_def replicate_20)
qed

lemma bit_name_word:
  fixes b0 b1 :: u8
  shows "bit (push_bit 4 (ucast b0 AND 0x7F) OR drop_bit 4 (ucast b1) :: u32) i \<longleftrightarrow>
           (if i < 4 then bit b1 (i + 4) else i < 11 \<and> bit b0 (i - 4))"
proof -
  have m7: "bit (127 :: int) n \<longleftrightarrow> n < 7" for n
    using bit_mask_iff [of 7 n, where 'a = int] by (simp add: mask_eq_exp_minus_1)
  have m: "bit (2032 :: int) n \<longleftrightarrow> 4 \<le> n \<and> n < 11" for n
  proof -
    have "(2032 :: int) = push_bit 4 127" by simp
    then have "bit (2032 :: int) n \<longleftrightarrow> 4 \<le> n \<and> bit (127 :: int) (n - 4)"
      by (simp only: bit_push_bit_iff_int)
    then show ?thesis unfolding m7 by linarith
  qed
  have b: "bit b0 n \<Longrightarrow> n < 8" "bit b1 n \<Longrightarrow> n < 8" for n
    using bit_imp_le_length [of b0 n] bit_imp_le_length [of b1 n] by auto
  show ?thesis
    using b(1) [of "i - 4"] b(2) [of "4 + i"]
    by (auto simp: bit_or_iff bit_push_bit_iff bit_and_iff bit_drop_bit_eq bit_unsigned_iff m add.commute)
qed

lemma name_bits:
  fixes b0 b1 :: u8
  defines "w \<equiv> push_bit 4 (ucast b0 AND 0x7F) OR drop_bit 4 (ucast b1) :: u32"
  shows "byte_bits b0 @ byte_bits b1 = bit b0 7 # word_bits w 11 @ drop 4 (byte_bits b1)"
    and "take_bit 11 w = w"
proof -
  have w: "bit w i \<longleftrightarrow> (if i < 4 then bit b1 (i + 4) else i < 11 \<and> bit b0 (i - 4))" for i
    unfolding w_def by (rule bit_name_word)
  show "take_bit 11 w = w"
    by (rule bit_word_eqI) (auto simp: bit_take_bit_iff w)
  show "byte_bits b0 @ byte_bits b1 = bit b0 7 # word_bits w 11 @ drop 4 (byte_bits b1)"
  proof (rule nth_equalityI)
    fix i assume "i < length (byte_bits b0 @ byte_bits b1)"
    then have i: "i < 16" by simp
    consider "i = 0" | "1 \<le> i" "i < 8" | "8 \<le> i" "i < 12" | "12 \<le> i" by linarith
    then show "(byte_bits b0 @ byte_bits b1) ! i = (bit b0 7 # word_bits w 11 @ drop 4 (byte_bits b1)) ! i"
      using i by cases
        (auto simp: nth_append nth_Cons' nth_byte_bits word_bits_def w)
  qed simp
qed

lemma read_name_header:
  assumes "q + 2 \<le> bb_size b"
  defines "body \<equiv> bb_storage b"
  obtains b1 b2 where "read_bit (body_at q b) = Inr (bit (body ! q) 7, b1)"
    and "read_bits 11 b1 = Inr (of_nat (name_length_at q body), b2)"
    and "bb_storage b2 = body" and "bb_rpos b2 = q + 2"
proof -
  let ?w = "push_bit 4 (ucast (body ! q) AND 0x7F) OR drop_bit 4 (ucast (body ! Suc q)) :: u32"
  have "drop q body = body ! q # body ! Suc q # drop (q + 2) body"
    using assms(1) by (simp add: body_def bb_size_def Cons_nth_drop_Suc)
  then have bits: "bits_left (body_at q b) =
      bit (body ! q) 7 # word_bits ?w 11 @ drop 4 (byte_bits (body ! Suc q)) @ bytes_bits (drop (q + 2) body)"
    using name_bits(1) [of "body ! q" "body ! Suc q"]
    by (simp only: bits_left_aligned body_at_simps body_def bytes_bits_simps) simp
  have pos: "bb_bitpos (body_at q b) \<le> 8" by simp
  obtain b1 where b1: "read_bit (body_at q b) = Inr (bit (body ! q) 7, b1)"
    "bits_left b1 = word_bits ?w 11 @ drop 4 (byte_bits (body ! Suc q)) @ bytes_bits (drop (q + 2) body)"
    "bb_bitpos b1 \<le> 8" "bb_storage b1 = bb_storage (body_at q b)"
    by (rule read_bit_refines [OF bits pos])
  obtain b2 where b2: "read_bits 11 b1 = Inr (take_bit 11 ?w, b2)" "bb_storage b2 = bb_storage b1"
    by (rule read_bits_refines [OF b1(2,3)])
  have "bit_cursor b1 = 8 * q + 8" "bb_bitpos b1 \<le> 7"
    using read_bit_cursor [OF b1(1)] by (simp_all add: bit_cursor_def)
  with read_bits_loop_cursor [of 0 11 b1] b2(1)
  have "bit_cursor b2 = 8 * q + 19" "bb_bitpos b2 \<le> 7" by (auto simp: read_bits_def)
  then have "bb_rpos b2 = q + 2" by (simp add: bit_cursor_def)
  then show ?thesis
    using that [OF b1(1)] b1(4) b2 body_def name_bits(2) [of "body ! q" "body ! Suc q"]
    by (simp add: name_length_at_def)
qed

lemma unat_name_length: "unat (of_nat (name_length_at q body) :: u32) = name_length_at q body"
  by (simp add: name_length_at_def)

lemma decode_name_body:
  assumes "q + 2 \<le> bb_size b" and "bb_size b < 2 ^ 32"
  defines "body \<equiv> bb_storage b" and "n \<equiv> name_length_at q (bb_storage b)"
  shows "decode_name (p, body_at q b) =
    (if bb_size b < q + 2 + n then Inr (TruncatedName, p\<lparr>as_use_ipv6 := bit (body ! q) 7\<rparr>)
     else Inr (DecodeOk, p\<lparr>as_use_ipv6 := bit (body ! q) 7, as_account := take n (drop (q + 2) body)\<rparr>))"
proof -
  obtain b1 b2 where b: "read_bit (body_at q b) = Inr (bit (body ! q) 7, b1)"
    "read_bits 11 b1 = Inr (of_nat n, b2)" "bb_storage b2 = body" "bb_rpos b2 = q + 2"
    using read_name_header [OF assms(1)] unfolding body_def n_def by metis
  have sz: "bb_size b2 = bb_size b" using b(3) by (simp add: bb_size_def body_def)
  show ?thesis
  proof (cases "bb_size b < q + 2 + n")
    case True
    then have "bb_size b - (q + 2) < n" using assms(1) by linarith
    then show ?thesis
      using True b sz assms(1) by (simp add: decode_name_def n_def unat_name_length)
  next
    case False
    then have fit: "bb_rpos b2 + n \<le> bb_size b2" using b(4) sz by simp
    have "read_string (of_nat n) b2 = Inr (take n (drop (q + 2) body),
        if n = 0 then b2 else b2\<lparr>bb_bitpos := 8, bb_rpos := bb_rpos b2 + n\<rparr>)"
      using read_string_exact [OF fit] assms(2) sz b(3,4) by simp
    moreover have "\<not> bb_size b - (q + 2) < n" using False by linarith
    ultimately show ?thesis
      using False b sz assms(1) by (simp add: decode_name_def n_def unat_name_length)
  qed
qed

lemma decode_variable_body:
  fixes p :: auth_session_fields and b :: byte_buffer
  assumes "56 \<le> bb_size b" and "bb_size b < 2 ^ 32"
  defines "body \<equiv> bb_storage b"
  defines "q \<equiv> 56 + unat (as_addon_size p)"
  shows "\<exists>p'. decode_variable (p, body_at 56 b) =
    (if bb_size b < q then Inr (BadAddonSize, p')
     else if bb_size b < q + 2 then Inr (ShortBody, p')
     else if bb_size b < q + 2 + name_length_at q body then Inr (TruncatedName, p')
     else Inr (DecodeOk, p\<lparr>as_addon_data := take (unat (as_addon_size p)) (drop 56 body),
                           as_use_ipv6 := bit (body ! q) 7,
                           as_account := take (name_length_at q body) (drop (q + 2) body)\<rparr>))"
proof (cases "bb_size b < q")
  case True
  then have "bb_size b - 56 < unat (as_addon_size p)" using assms(1) by (simp add: q_def)
  with True show ?thesis using assms(1) by (simp add: decode_variable_def)
next
  case False
  let ?p = "p\<lparr>as_addon_data := take (unat (as_addon_size p)) (drop 56 body)\<rparr>"
  have addon: "read_addon_data (p, body_at 56 b) = Inr (?p, body_at q b)"
    using False
    by (auto simp: read_addon_data_def Let_def read_bytes_def reset_bit_reader_def q_def body_def
        body_at_def bb_size_def)
  have "\<not> bb_size b - 56 < unat (as_addon_size p)" using False by (simp add: q_def)
  then have v: "decode_variable (p, body_at 56 b) =
      (if bb_size b - q < 2 then Inr (ShortBody, ?p) else decode_name (?p, body_at q b))"
    using False assms(1) addon by (simp add: decode_variable_def)
  show ?thesis
  proof (cases "bb_size b < q + 2")
    case True
    then have "bb_size b - q < 2" using False by linarith
    with True False v show ?thesis by auto
  next
    case long: False
    then have "\<not> bb_size b - q < 2" "q + 2 \<le> bb_size b" by linarith+
    with v decode_name_body [OF _ assms(2), of q ?p] False long show ?thesis
      by (auto simp: body_def)
  qed
qed

lemma layout:
  assumes "length body < 2 ^ 32"
  shows "decode_auth_session (bb_extend body bb_empty) out =
           (case parse_auth_session body of Inl r \<Rightarrow> (r, out) | Inr parsed \<Rightarrow> (DecodeOk, parsed))
    \<and> (length body \<ge> 56 \<longrightarrow>
        (\<exists>r. sum_bind (decode_prefix (auth_session_fields_zero,
              bb_extend body bb_empty)) decode_variable = Inr r))"
proof -
  let ?b = "bb_extend body bb_empty"
  have b: "body_at 0 ?b = ?b" by (simp add: body_at_def bb_empty_def bb_extend_def)
  have sz: "bb_size ?b = length body" by simp
  show ?thesis
  proof (cases "length body < 56")
    case True
    then show ?thesis
      by (simp add: decode_auth_session_def parse_auth_session_def legacy_fixed_prefix_bytes_def)
  next
    case False
    then have pre: "decode_prefix (auth_session_fields_zero, ?b) = Inr (prefix_fields body, body_at 56 ?b)"
      using decode_prefix_body [of ?b] b by (simp add: sz)
    have "56 \<le> bb_size ?b" "bb_size ?b < 2 ^ 32" using False assms by (simp_all add: sz)
    from decode_variable_body [OF this, of "prefix_fields body"]
    show ?thesis
      using False pre
      by (auto simp: decode_auth_session_def parse_auth_session_def legacy_fixed_prefix_bytes_def
          prefix_fields_def Let_def)
  qed
qed

section \<open>Properties\<close>

text \<open>
  C38: The decoder computes the body's layout: on a body of any content it returns what the
  offset-based specification returns, with the output untouched on a rejection. So the buffer
  exception it catches is unreachable: every rejection comes from one of its explicit bounds.
\<close>

theorem decode_auth_session_layout:
  assumes "length body < 2 ^ 32"
  shows "decode_auth_session (bb_extend body bb_empty) out =
           (case parse_auth_session body of Inl r \<Rightarrow> (r, out) | Inr parsed \<Rightarrow> (DecodeOk, parsed))
    \<and> (length body \<ge> 56 \<longrightarrow>
        (\<exists>r. sum_bind (decode_prefix (auth_session_fields_zero,
              bb_extend body bb_empty)) decode_variable = Inr r))"
  using assms by (rule layout)

theorem decode_auth_session_layout_witness:
  "decode_auth_session (bb_extend (replicate 58 0) bb_empty) auth_session_fields_zero =
     (DecodeOk, auth_session_fields_zero)"
proof -
  have z: "le_word (replicate n 0) = (0 :: 'w::len word)" for n
    by (induction n) simp_all
  have n: "replicate 58 (0 :: u8) ! i = 0" if "i < 58" for i
    using that by simp
  have "parse_auth_session (replicate 58 0) = Inr auth_session_fields_zero"
    by (simp add: parse_auth_session_def word_at_def z name_length_at_def Let_def n digest_offsets_def
        auth_session_fields_zero_def replicate_20)
  then show ?thesis
    using decode_auth_session_layout [of "replicate 58 0" auth_session_fields_zero] by simp
qed

text \<open>
  The client's serializer, as the specification reads it: \<open>j\<close> gives the bytes the server skips.
\<close>

definition encode_auth_session :: "(nat \<Rightarrow> u8) \<Rightarrow> auth_session_fields \<Rightarrow> u8 list" where
  "encode_auth_session j f =
     (let d = as_digest f; n = length (as_account f)
      in [j 0, j 1, j 2, j 3, j 4, j 5, j 6, j 7, d ! 18, d ! 14, d ! 3, d ! 4, d ! 0,
          j 8, j 9, j 10, j 11, d ! 11] @ le_bytes 4 (as_client_seed f) @
         [d ! 19, j 12, j 13, d ! 2, d ! 9, d ! 12,
          j 14, j 15, j 16, j 17, j 18, j 19, j 20, j 21, j 22, j 23, j 24, j 25,
          d ! 16, d ! 5, d ! 6, d ! 8] @ le_bytes 2 (as_built_number_client f) @
         [d ! 17, d ! 7, d ! 13, d ! 15, d ! 1, d ! 10] @ le_bytes 4 (as_addon_size f) @
         as_addon_data f @
         [(if as_use_ipv6 f then 0x80 else 0) OR of_nat (n div 16), of_nat (n mod 16 * 16)] @
         as_account f)"

lemma name_length_encoded:
  fixes x :: bool and n :: nat
  assumes "n < 2048"
  defines "b0 \<equiv> (if x then 0x80 else 0) OR of_nat (n div 16) :: u8"
    and "b1 \<equiv> of_nat (n mod 16 * 16) :: u8"
  shows "unat (push_bit 4 (ucast b0 AND 0x7F) OR drop_bit 4 (ucast b1) :: u32) = n"
    and "bit b0 7 = x"
proof -
  have n: "i < 11" if "bit n i" for i
  proof (rule ccontr)
    assume "\<not> i < 11"
    then have "(2 :: nat) ^ 11 \<le> 2 ^ i" by (intro power_increasing) simp_all
    then have "n div 2 ^ i = 0" using assms(1) by simp
    with that show False by (simp add: bit_iff_odd)
  qed
  have c: "bit (if x then 0x80 else 0 :: u8) i \<longleftrightarrow> x \<and> i = 7" for i
  proof -
    have "(0x80 :: u8) = push_bit 7 1" by simp
    then have "bit (0x80 :: u8) i \<longleftrightarrow> i = 7"
      by (simp only: bit_push_bit_iff) (auto simp: bit_1_iff)
    then show ?thesis by (simp del: bit_numeral_word_iff)
  qed
  have d: "n div 16 = drop_bit 4 n" by (simp add: drop_bit_eq_div)
  have e: "bit (of_nat (n div 16) :: u8) i \<longleftrightarrow> i < 8 \<and> bit n (i + 4)" for i
    unfolding d by (simp add: bit_of_nat_iff bit_drop_bit_eq add.commute) (simp add: eval_nat_numeral)
  have b0: "bit b0 i \<longleftrightarrow> x \<and> i = 7 \<or> i < 8 \<and> bit n (i + 4)" for i
    unfolding b0_def bit_or_iff c e ..
  have b1: "bit b1 i \<longleftrightarrow> 4 \<le> i \<and> i < 8 \<and> bit n (i - 4)" for i
  proof -
    have "n mod 16 * 16 = push_bit 4 (take_bit 4 n)" by (simp add: push_bit_eq_mult take_bit_eq_mod)
    then show ?thesis
      unfolding b1_def by (auto simp: bit_of_nat_iff bit_push_bit_iff bit_take_bit_iff)
  qed
  show "bit b0 7 = x" using n [of 11] b0 [of 7] by auto
  have "push_bit 4 (ucast b0 AND 0x7F) OR drop_bit 4 (ucast b1) = (of_nat n :: u32)"
  proof (rule bit_word_eqI)
    fix i assume "i < LENGTH(32)"
    then show "bit (push_bit 4 (ucast b0 AND 0x7F) OR drop_bit 4 (ucast b1) :: u32) i = bit (of_nat n :: u32) i"
      unfolding bit_name_word b0 b1 by (use n [of i] in \<open>auto simp: bit_of_nat_iff\<close>)
  qed
  moreover have "unat (of_nat n :: u32) = n"
    using assms(1) by (simp add: unsigned_of_nat take_bit_nat_eq_self)
  ultimately show "unat (push_bit 4 (ucast b0 AND 0x7F) OR drop_bit 4 (ucast b1) :: u32) = n"
    by simp
qed

lemma list_20:
  assumes "length d = 20"
  shows "[d ! 0, d ! 1, d ! 2, d ! 3, d ! 4, d ! 5, d ! 6, d ! 7, d ! 8, d ! 9, d ! 10, d ! 11, d ! 12,
          d ! 13, d ! 14, d ! 15, d ! 16, d ! 17, d ! 18, d ! 19] = d"
proof -
  have "[0..<20] = [0, 1, 2, 3, 4, 5, 6, 7, 8, 9, 10, 11, 12, 13, 14, 15, 16, 17, 18, 19 :: nat]"
    by code_simp
  with map_nth [of d] assms show ?thesis by simp
qed

lemma parse_encoded:
  assumes "length (as_digest f) = 20" and "unat (as_addon_size f) = length (as_addon_data f)"
    and "length (as_account f) < 2048"
  shows "parse_auth_session (encode_auth_session j f @ rest) = Inr f"
proof -
  define B where "B = encode_auth_session j f @ rest"
  let ?d = "as_digest f" and ?n = "length (as_account f)"
  let ?P = "[j 0, j 1, j 2, j 3, j 4, j 5, j 6, j 7, ?d ! 18, ?d ! 14, ?d ! 3, ?d ! 4, ?d ! 0,
      j 8, j 9, j 10, j 11, ?d ! 11] @ le_bytes 4 (as_client_seed f) @
     [?d ! 19, j 12, j 13, ?d ! 2, ?d ! 9, ?d ! 12,
      j 14, j 15, j 16, j 17, j 18, j 19, j 20, j 21, j 22, j 23, j 24, j 25,
      ?d ! 16, ?d ! 5, ?d ! 6, ?d ! 8] @ le_bytes 2 (as_built_number_client f) @
     [?d ! 17, ?d ! 7, ?d ! 13, ?d ! 15, ?d ! 1, ?d ! 10] @ le_bytes 4 (as_addon_size f)"
  let ?b0 = "(if as_use_ipv6 f then 0x80 else 0) OR of_nat (?n div 16) :: u8"
    and ?b1 = "of_nat (?n mod 16 * 16) :: u8"
  let ?Q = "as_addon_data f @ [?b0, ?b1] @ as_account f @ rest"
  let ?q = "56 + length (as_addon_data f)"
  have body: "B = ?P @ ?Q" by (simp only: B_def encode_auth_session_def Let_def append_assoc)
  have P: "length ?P = 56" by simp
  have w: "word_at 18 4 B = as_client_seed f" "word_at 44 2 B = as_built_number_client f"
    "word_at 52 4 B = as_addon_size f"
    unfolding body word_at_def by simp_all
  have "map ((!) (?P @ ?Q)) digest_offsets = as_digest f"
    using list_20 [OF assms(1)]
    by (simp add: digest_offsets_def le_bytes_4 le_bytes_2)
  then have d: "map ((!) B) digest_offsets = as_digest f" by (simp only: body)
  have drops: "drop 56 B = ?Q" "drop (?q + 2) B = as_account f @ rest"
    "length B = ?q + 2 + ?n + length rest"
    unfolding body using P by (simp_all only: drop_append length_append) simp_all
  have nth: "B ! ?q = ?b0" "B ! Suc ?q = ?b1"
    unfolding body using P by (simp_all only: nth_append) simp_all
  have "name_length_at ?q B = ?n" "bit (B ! ?q) 7 = as_use_ipv6 f"
    unfolding name_length_at_def nth by (fact name_length_encoded [OF assms(3)])+
  then have "parse_auth_session B = Inr f"
    using assms(2) by (simp add: parse_auth_session_def Let_def w d drops drops(2) [simplified])
  then show ?thesis by (simp only: B_def)
qed

text \<open>
  What a client serializes is what the server decodes: for any twenty digest bytes, seed,
  build, addon data, flag and account name of up to 2047 bytes, decoding the serialized body,
  with anything in the bytes the server skips and anything after the name, gives back exactly
  those fields.
\<close>

theorem decode_auth_session_roundtrip:
  assumes "length (as_digest f) = 20" and "unat (as_addon_size f) = length (as_addon_data f)"
    and "length (as_account f) < 2048" and "length (encode_auth_session j f @ rest) < 2 ^ 32"
  shows "decode_auth_session (bb_extend (encode_auth_session j f @ rest) bb_empty) out = (DecodeOk, f)"
  using layout [OF assms(4), of out] parse_encoded [OF assms(1-3), of j rest] by simp

theorem decode_auth_session_roundtrip_witness:
  "let f = auth_session_fields_zero\<lparr>as_client_seed := 7, as_built_number_client := 18414,
             as_account := [65, 66], as_use_ipv6 := True\<rparr>
   in decode_auth_session (bb_extend (encode_auth_session (\<lambda>i. of_nat i) f) bb_empty) auth_session_fields_zero
        = (DecodeOk, f)"
  using decode_auth_session_roundtrip [of "auth_session_fields_zero\<lparr>as_client_seed := 7,
      as_built_number_client := 18414, as_account := [65, 66], as_use_ipv6 := True\<rparr>" "\<lambda>i. of_nat i" "[]"]
  by (simp add: auth_session_fields_zero_def encode_auth_session_def Let_def)

end
