(* ===== verification/AuthResponse.thy ===== *)
theory AuthResponse
  imports ByteBuffer
begin

text \<open>
  \<open>WorldPacket\<close> (\<open>src/src/shared/Utilities/WorldPacket.h\<close>), a packet buffer with an opcode, and
  the one serializer of SMSG_AUTH_RESPONSE, \<open>src/src/game/Server/MopAuthResponse.cpp\<close>.
\<close>

section \<open>World packets\<close>

record world_packet = byte_buffer +
  wp_opcode :: u16

definition world_packet_new :: "u16 \<Rightarrow> world_packet" where
  "world_packet_new opcode =
     \<lparr>bb_rpos = 0, bb_wpos = 0, bb_bitpos = 8, bb_curbitval = 0, bb_storage = [], wp_opcode = opcode\<rparr>"

definition wp_initialize :: "u16 \<Rightarrow> world_packet \<Rightarrow> world_packet" where
  "wp_initialize opcode p = (bb_clear p)\<lparr>wp_opcode := opcode\<rparr>"

lemma wp_initialize_new: "wp_initialize opcode p = world_packet_new opcode"
  by (simp add: wp_initialize_def bb_clear_def world_packet_new_def)

lemma world_packet_new_simps [simp]:
  "aligned (world_packet_new opc)" "bb_size (world_packet_new opc) = 0"
  "bb_storage (world_packet_new opc) = []" "bb_bitpos (world_packet_new opc) = 8"
  "wp_opcode (world_packet_new opc) = opc" "bb_rpos (world_packet_new opc) = 0"
  "writer_inv (world_packet_new opc)" "bits_written (world_packet_new opc) = []"
  by (simp_all add: world_packet_new_def aligned_def at_end_def bb_size_def writer_inv_def bits_written_def)

section \<open>The serializer\<close>

definition AUTH_OK :: u8 where "AUTH_OK = 0x0C"
definition AUTH_FAILED :: u8 where "AUTH_FAILED = 0x0D"
definition AUTH_WAIT_QUEUE :: u8 where "AUTH_WAIT_QUEUE = 0x1B"
definition SMSG_AUTH_RESPONSE :: u16 where "SMSG_AUTH_RESPONSE = 0x0ABA"

definition class_expansion :: "(u8 \<times> u8) list" where
  "class_expansion =
     [(1, 0), (2, 0), (3, 0), (4, 0), (5, 0), (6, 2), (7, 0), (8, 0), (9, 0), (10, 4), (11, 0)]"

definition race_expansion :: "(u8 \<times> u8) list" where
  "race_expansion =
     [(1, 0), (2, 0), (3, 0), (4, 0), (5, 0), (6, 0), (7, 0), (8, 0),
      (9, 3), (10, 1), (11, 1), (22, 3), (24, 4), (25, 4), (26, 4)]"

type_synonym writer = "world_packet \<Rightarrow> bb_error + world_packet"

definition put_expansions :: "(u8 \<times> u8) list \<Rightarrow> writer list" where
  "put_expansions es = concat (map (\<lambda>(i, e). [put_u8 e, put_u8 i]) es)"

definition auth_response_bits :: "bool \<Rightarrow> bool \<Rightarrow> writer" where
  "auth_response_bits hasAccountData queued =
     chain ([write_bit hasAccountData] @
            (if hasAccountData
             then [write_bits (0 :: u32) 21, write_bits (11 :: u32) 23, write_bits (0 :: u32) 21,
                   write_bit False, write_bit False, write_bit False, write_bit False,
                   write_bits (15 :: u32) 23, write_bit False]
             else []) @
            [write_bit queued] @ (if queued then [write_bit False] else []))"

definition auth_response_bytes :: "bool \<Rightarrow> bool \<Rightarrow> u8 \<Rightarrow> u32 \<Rightarrow> u8 \<Rightarrow> u8 \<Rightarrow> writer" where
  "auth_response_bytes hasAccountData queued code queuePos accountExpansion serverExpansion =
     chain ((if queued then [put_u32 queuePos] else []) @
            (if hasAccountData
             then put_expansions race_expansion @ put_expansions class_expansion @
                  [put_u32 0, put_u8 accountExpansion, put_u32 0, put_u32 0, put_u8 serverExpansion,
                   put_u32 0, put_u32 0, put_u32 0]
             else []) @
            [put_u8 code])"

definition build_auth_response :: "u8 \<Rightarrow> bool \<Rightarrow> u32 \<Rightarrow> u8 \<Rightarrow> u8 \<Rightarrow> writer" where
  "build_auth_response code queued queuePos accountExpansion serverExpansion out =
     chain [auth_response_bits (code = AUTH_OK) queued, flush_bits,
            auth_response_bytes (code = AUTH_OK) queued code queuePos accountExpansion serverExpansion]
       (wp_initialize SMSG_AUTH_RESPONSE out)"

definition build_auth_response_accepted :: "u8 \<Rightarrow> u8 \<Rightarrow> writer" where
  "build_auth_response_accepted accountExpansion serverExpansion =
     build_auth_response AUTH_OK False 0 accountExpansion serverExpansion"

definition build_auth_response_queued :: "u32 \<Rightarrow> u8 \<Rightarrow> u8 \<Rightarrow> writer" where
  "build_auth_response_queued queuePos accountExpansion serverExpansion =
     (if queuePos = 0 then build_auth_response_accepted accountExpansion serverExpansion
      else build_auth_response AUTH_OK True queuePos accountExpansion serverExpansion)"

definition build_auth_response_error :: "u8 \<Rightarrow> writer" where
  "build_auth_response_error code =
     build_auth_response (if code = AUTH_OK \<or> code = AUTH_WAIT_QUEUE then AUTH_FAILED else code) False 0 0 0"

section \<open>Layout\<close>

lemma write_bits_numeral:
  "write_bits v (numeral k) b =
     sum_bind (write_bit (bit v (pred_numeral k)) b) (write_bits v (pred_numeral k))"
  by (simp add: numeral_eq_Suc)

lemma write_bits_1: "write_bits v (Suc 0) b = write_bit (bit v 0) b"
  by (cases "write_bit (bit v 0) b") simp_all

lemmas write_bit_steps =
  write_bits_numeral write_bits_1 write_bit_def append_bytes_def overwrite_def flush_bits_def bb_size_def Let_def

text \<open>The bit section of an acceptance, with and without the queue bit, and of a refusal.\<close>

lemma auth_response_bits_flushed:
  "sum_bind (auth_response_bits True False (world_packet_new opc)) flush_bits =
     Inr (bb_extend [128, 0, 0, 0, 0, 88, 0, 0, 0, 0, 0, 120] (world_packet_new opc))"
  "sum_bind (auth_response_bits True True (world_packet_new opc)) flush_bits =
     Inr (bb_extend [128, 0, 0, 0, 0, 88, 0, 0, 0, 0, 0, 122] (world_packet_new opc))"
  "sum_bind (auth_response_bits False False (world_packet_new opc)) flush_bits =
     Inr (bb_extend [0] (world_packet_new opc))"
  by (simp_all add: auth_response_bits_def world_packet_new_def bb_extend_def write_bit_steps)

definition expansion_bytes :: "(u8 \<times> u8) list \<Rightarrow> u8 list" where
  "expansion_bytes es = concat (map (\<lambda>(i, e). [e, i]) es)"

lemma chain_put_expansions:
  "aligned (b :: world_packet) \<Longrightarrow> bb_size b + 2 * length es < 10000000 \<Longrightarrow>
     chain (put_expansions es @ fs) b = chain fs (bb_extend (expansion_bytes es) b)"
proof (induction es arbitrary: b)
  case Nil
  then show ?case by (simp add: put_expansions_def expansion_bytes_def bb_extend_Nil)
next
  case (Cons e es)
  obtain i x where e: "e = (i, x)" by (cases e)
  have "chain (put_expansions (e # es) @ fs) b = chain (put_expansions es @ fs) (bb_extend [x, i] b)"
    using Cons.prems by (simp add: put_expansions_def e put_aligned aligned_def)
  also have "\<dots> = chain fs (bb_extend (expansion_bytes es) (bb_extend [x, i] b))"
    using Cons.prems by (intro Cons.IH) (simp_all add: aligned_def)
  finally show ?case by (simp add: expansion_bytes_def e)
qed

lemma build_auth_response_step:
  "build_auth_response code q pos ae se out =
     sum_bind (sum_bind (auth_response_bits (code = AUTH_OK) q (world_packet_new SMSG_AUTH_RESPONSE)) flush_bits)
       (auth_response_bytes (code = AUTH_OK) q code pos ae se)"
  by (cases "auth_response_bits (code = AUTH_OK) q (world_packet_new SMSG_AUTH_RESPONSE)")
     (simp_all add: build_auth_response_def wp_initialize_new sum_bind_assoc,
      simp add: sum_bind_def split: sum.splits)

definition account_block :: "u8 \<Rightarrow> u8 \<Rightarrow> u8 list" where
  "account_block ae se =
     expansion_bytes race_expansion @ expansion_bytes class_expansion @
     le_bytes 4 (0 :: u32) @ [ae] @ le_bytes 4 (0 :: u32) @ le_bytes 4 (0 :: u32) @ [se] @
     le_bytes 4 (0 :: u32) @ le_bytes 4 (0 :: u32) @ le_bytes 4 (0 :: u32)"

lemma aligned_bitpos: "aligned (bb_extend xs b) \<longleftrightarrow> bb_bitpos b = 8"
  by (rule aligned_extend)

lemma auth_response_bytes_ok:
  fixes b :: world_packet
  assumes "aligned b" and "bb_size b < 1000"
  shows "auth_response_bytes True q code pos ae se b =
    Inr (bb_extend ((if q then le_bytes 4 pos else []) @ account_block ae se @ [code]) b)"
proof -
  let ?rest = "[put_u32 0, put_u8 ae, put_u32 0, put_u32 0, put_u8 se, put_u32 0, put_u32 0, put_u32 0, put_u8 code]"
  have len: "length race_expansion = 15" "length class_expansion = 11"
    by (simp_all add: race_expansion_def class_expansion_def)
  have e: "length (expansion_bytes es) = 2 * length es" for es
    by (induction es) (auto simp: expansion_bytes_def)
  have block: "chain (put_expansions race_expansion @ put_expansions class_expansion @ ?rest) c =
      Inr (bb_extend (account_block ae se @ [code]) c)" if "aligned c" "bb_size c < 1004" for c :: world_packet
    using that
    by (simp add: chain_put_expansions len e aligned_def) (simp add: put_aligned aligned_def e len account_block_def)
  have c: "aligned (bb_extend (le_bytes 4 pos) b)" "bb_size (bb_extend (le_bytes 4 pos) b) < 1004"
    using assms by (simp_all add: aligned_def)
  show ?thesis
  proof (cases q)
    case True
    have "auth_response_bytes True q code pos ae se b =
        chain (put_expansions race_expansion @ put_expansions class_expansion @ ?rest) (bb_extend (le_bytes 4 pos) b)"
      using assms True by (simp add: auth_response_bytes_def put_aligned)
    with block [OF c] True show ?thesis by simp
  next
    case False
    then show ?thesis using block [of b] assms by (simp add: auth_response_bytes_def)
  qed
qed

lemma build_auth_response_ok:
  "build_auth_response AUTH_OK q pos ae se out =
     Inr (bb_extend ([128, 0, 0, 0, 0, 88, 0, 0, 0, 0, 0, if q then 122 else 120] @
            (if q then le_bytes 4 pos else []) @ account_block ae se @ [AUTH_OK])
          (world_packet_new SMSG_AUTH_RESPONSE))"
  by (cases q) (simp_all add: build_auth_response_step auth_response_bits_flushed auth_response_bytes_ok)

lemma build_auth_response_refused:
  "code \<noteq> AUTH_OK \<Longrightarrow>
     build_auth_response code False 0 0 0 out = Inr (bb_extend [0, code] (world_packet_new SMSG_AUTH_RESPONSE))"
  by (simp add: build_auth_response_step auth_response_bits_flushed auth_response_bytes_def put_aligned aligned_def)

lemma build_auth_response_error_eq:
  "build_auth_response_error code out =
     Inr (bb_extend [0, if code = 0x0C \<or> code = 0x1B then 0x0D else code] (world_packet_new SMSG_AUTH_RESPONSE))"
  using build_auth_response_refused [of AUTH_FAILED] build_auth_response_refused [of code]
  by (simp add: build_auth_response_error_def AUTH_OK_def AUTH_FAILED_def AUTH_WAIT_QUEUE_def)

lemma build_auth_response_queued_total:
  "\<exists>q. build_auth_response_queued pos ae se out = Inr q \<and> aligned q"
  "\<exists>q. build_auth_response_accepted ae se out = Inr q \<and> aligned q"
  by (auto simp: build_auth_response_queued_def build_auth_response_accepted_def build_auth_response_ok aligned_def)

section \<open>Properties\<close>

text \<open>
  Every SMSG_AUTH_RESPONSE is well formed. Acceptance always carries the account block: a
  fixed bit header, the queue position if there is one, the race and class tables in payload
  order, and the code last; releasing a queued client (position 0) is byte-identical to
  accepting it. A refusal is two bytes, and its code is never AUTH_OK or AUTH_WAIT_QUEUE.
\<close>

theorem auth_response_layout:
  "build_auth_response_queued pos ae se out =
     Inr (bb_extend ([128, 0, 0, 0, 0, 88, 0, 0, 0, 0, 0, if pos = 0 then 120 else 122] @
                     (if pos = 0 then [] else le_bytes 4 pos) @ account_block ae se @ [AUTH_OK])
            (world_packet_new SMSG_AUTH_RESPONSE))
   \<and> build_auth_response_accepted ae se out = build_auth_response_queued 0 ae se out
   \<and> build_auth_response_error code out =
       Inr (bb_extend [0, if code = 0x0C \<or> code = 0x1B then 0x0D else code]
              (world_packet_new SMSG_AUTH_RESPONSE))"
  by (simp add: build_auth_response_queued_def build_auth_response_accepted_def build_auth_response_ok
      build_auth_response_error_eq)

end
