(* ===== verification/ClientConnection.thy ===== *)
theory ClientConnection
  imports FrameReader AuthCrypt SessionKey AuthSession AuthResponse
begin

text \<open>
  One client connection, \<open>src/src/proto/ClientConnection.cpp\<close>, and the seam to the world,
  \<open>src/src/proto/IWorldGateway.h\<close>. The members of the class are a record; what it hands to the
  transport is kept in it (\<open>cc_sent\<close>, \<open>cc_closer_calls\<close>). The gateway is a record of functions
  on a world state \<open>'w\<close>; whether \<open>Attach\<close> ran the commit callback, and whether \<open>Detach\<close> closed
  the link, is part of their result. OpenSSL and the clock are the environment \<open>'r\<close>. A handler
  may throw: it returns \<open>bb_error + bool\<close> and the state it leaves, also when it throws.
\<close>

section \<open>The gateway interface\<close>

datatype auth_status =
    AuthOk | AuthFailed | AuthReject | AuthBadServerProof | AuthUnavailable | AuthSystemError
  | AuthVersionMismatch | AuthUnknownAccount | AuthSessionExpired | AuthWaitQueue | AuthBanned
  | AuthSuspended

fun auth_status_value :: "auth_status \<Rightarrow> u8" where
  "auth_status_value AuthOk = 0x0C"
| "auth_status_value AuthFailed = 0x0D"
| "auth_status_value AuthReject = 0x0E"
| "auth_status_value AuthBadServerProof = 0x0F"
| "auth_status_value AuthUnavailable = 0x10"
| "auth_status_value AuthSystemError = 0x11"
| "auth_status_value AuthVersionMismatch = 0x14"
| "auth_status_value AuthUnknownAccount = 0x15"
| "auth_status_value AuthSessionExpired = 0x17"
| "auth_status_value AuthWaitQueue = 0x1B"
| "auth_status_value AuthBanned = 0x1C"
| "auth_status_value AuthSuspended = 0x20"

record auth_request =
  req_fields :: auth_session_fields
  req_peer_address :: "u8 list"

record 'ctx auth_lookup =
  lookup_status :: auth_status
  lookup_session_key :: "u8 list"
  lookup_context :: "'ctx option"

definition auth_lookup_new :: "'ctx auth_lookup" where
  "auth_lookup_new =
     \<lparr>lookup_status = AuthUnknownAccount, lookup_session_key = replicate 40 0, lookup_context = None\<rparr>"

definition INVALID_SESSION_ID :: u32 where "INVALID_SESSION_ID = 0"

record ('ctx, 'w) gateway =
  gw_lookup_account :: "auth_request \<Rightarrow> 'w \<Rightarrow> 'ctx auth_lookup \<times> 'w"
  gw_attach :: "auth_request \<Rightarrow> 'ctx option \<Rightarrow> 'w \<Rightarrow> u32 \<times> bool \<times> 'w"
  gw_deliver :: "u32 \<Rightarrow> world_packet \<Rightarrow> 'w \<Rightarrow> 'w"
  gw_on_ping :: "u32 \<Rightarrow> u32 \<Rightarrow> u32 \<Rightarrow> 'w \<Rightarrow> bool \<times> 'w"
  gw_detach :: "u32 \<Rightarrow> 'w \<Rightarrow> bool \<times> 'w"
  gw_build_auth_error :: "auth_status \<Rightarrow> world_packet \<Rightarrow> bb_error + world_packet"
  gw_on_packet_received :: "world_packet \<Rightarrow> u32 \<Rightarrow> 'w \<Rightarrow> 'w"

section \<open>State\<close>

record ('x, 'm, 'r) environment =
  env_evp :: "('x, 'm) evp"
  env_random :: "'r random_bytes"
  env_sha1 :: "u8 list \<Rightarrow> u8 list"
  env_now :: "'r \<Rightarrow> int \<times> 'r"

record 'x connection =
  cc_address :: "u8 list"
  cc_has_sender :: bool
  cc_has_closer :: bool
  cc_closed :: bool
  cc_reader :: frame_reader
  cc_state :: connection_state
  cc_crypt :: "'x auth_crypt"
  cc_seed :: u32
  cc_session :: u32
  cc_last_ping :: int
  cc_had_ping :: bool
  cc_fast_ping_run :: u32
  cc_last_decode_log_sec :: int
  cc_sent :: "u8 list list"
  cc_closer_calls :: nat

type_synonym ('x, 'w, 'r) cc_world = "'x connection \<times> 'w \<times> 'r"

definition MSG_WOW_CONNECTION :: u16 where "MSG_WOW_CONNECTION = 0x4F57"
definition SMSG_AUTH_CHALLENGE :: u16 where "SMSG_AUTH_CHALLENGE = 0x0949"
definition CMSG_AUTH_SESSION :: u16 where "CMSG_AUTH_SESSION = 0x00B2"
definition CMSG_PING :: u16 where "CMSG_PING = 0x0012"
definition SMSG_PONG :: u16 where "SMSG_PONG = 0x1969"
definition CMSG_KEEP_ALIVE :: u16 where "CMSG_KEEP_ALIVE = 0x1A87"
definition CMSG_LOG_DISCONNECT :: u16 where "CMSG_LOG_DISCONNECT = 0x10B3"
definition OPCODE_TABLE_SIZE :: u32 where "OPCODE_TABLE_SIZE = 0x2000"

lemmas opcode_defs = MSG_WOW_CONNECTION_def SMSG_AUTH_CHALLENGE_def CMSG_AUTH_SESSION_def CMSG_PING_def
  SMSG_PONG_def CMSG_KEEP_ALIVE_def CMSG_LOG_DISCONNECT_def OPCODE_TABLE_SIZE_def

definition connection_new :: "('x, 'm, 'r) environment \<Rightarrow> u8 list \<Rightarrow> u8 list \<Rightarrow> 'x connection" where
  "connection_new V address junk =
     \<lparr>cc_address = address, cc_has_sender = True, cc_has_closer = True, cc_closed = False,
      cc_reader = frame_reader_new junk, cc_state = CONN_GREETING, cc_crypt = auth_crypt_new (env_evp V),
      cc_seed = 0, cc_session = INVALID_SESSION_ID, cc_last_ping = 0, cc_had_ping = False,
      cc_fast_ping_run = 0, cc_last_decode_log_sec = 0, cc_sent = [], cc_closer_calls = 0\<rparr>"

section \<open>Sending and closing\<close>

definition close_connection :: "'x connection \<Rightarrow> 'x connection" where
  "close_connection c =
     c\<lparr>cc_closed := True, cc_closer_calls := cc_closer_calls c + (if cc_has_closer c then 1 else 0)\<rparr>"

text \<open>The result is \<open>fatal\<close>, the wire bytes, and the connection.\<close>

definition encode_for_send ::
  "('x, 'm, 'r) environment \<Rightarrow> world_packet \<Rightarrow> 'x connection \<Rightarrow> bool \<times> u8 list \<times> 'x connection" where
  "encode_for_send V packet c =
     (let postCrypt = is_initialized (cc_crypt c)
      in case build_server_header postCrypt (bb_size packet) (ucast (wp_opcode packet)) of
           None \<Rightarrow> (False, [], c)
         | Some header \<Rightarrow>
             if postCrypt
             then (case encrypt_send (env_evp V) header (cc_crypt c) of
                     (ok, header, crypt) \<Rightarrow>
                       let c = c\<lparr>cc_crypt := crypt\<rparr>
                       in if \<not> ok then (True, [], c) else (False, header @ bb_storage packet, c))
             else (False, header @ bb_storage packet, c))"

definition send_packet :: "('x, 'm, 'r) environment \<Rightarrow> world_packet \<Rightarrow> 'x connection \<Rightarrow> 'x connection" where
  "send_packet V packet c =
     (if cc_closed c \<or> \<not> cc_has_sender c then c
      else case encode_for_send V packet c of
             (fatal, wire, c) \<Rightarrow>
               if fatal then close_connection c
               else if wire = [] then c
               else c\<lparr>cc_sent := cc_sent c @ [wire]\<rparr>)"

text \<open>ASCII of "RLD OF WARCRAFT CONNECTION - SERVER TO CLIENT" and of the client's counterpart.\<close>

definition server_greeting :: "u8 list" where
  "server_greeting = ascii ''RLD OF WARCRAFT CONNECTION - SERVER TO CLIENT''"

definition client_greeting :: "u8 list" where
  "client_greeting = ascii ''RLD OF WARCRAFT CONNECTION - CLIENT TO SERVER''"

definition on_connect :: "('x, 'm, 'r) environment \<Rightarrow> 'x connection \<Rightarrow> (bb_error + u8 list) \<times> 'x connection" where
  "on_connect V c =
     (case put_string server_greeting (world_packet_new MSG_WOW_CONNECTION) of
        Inl e \<Rightarrow> (Inl e, c)
      | Inr greeting \<Rightarrow>
          (case encode_for_send V greeting c of
             (fatal, wire, c) \<Rightarrow>
               if fatal \<or> wire = [] then (Inr [], close_connection c) else (Inr wire, c)))"

definition reject_auth ::
  "('x, 'm, 'r) environment \<Rightarrow> ('ctx, 'w) gateway \<Rightarrow> auth_status \<Rightarrow> ('x, 'w, 'r) cc_world
    \<Rightarrow> (bb_error + bool) \<times> ('x, 'w, 'r) cc_world" where
  "reject_auth V G status s =
     (case s of
        (c, w, r) \<Rightarrow>
          (case gw_build_auth_error G status (world_packet_new 0x1001) of
             Inl e \<Rightarrow> (Inl e, s)
           | Inr packet \<Rightarrow> (Inr False, (send_packet V packet c, w, r))))"

section \<open>The handshake\<close>

definition send_auth_challenge ::
  "('x, 'm, 'r) environment \<Rightarrow> ('x, 'w, 'r) cc_world \<Rightarrow> (bb_error + bool) \<times> ('x, 'w, 'r) cc_world" where
  "send_auth_challenge V s =
     (case s of
        (c, w, r) \<Rightarrow>
          (case build_auth_challenge_payload (env_random V) r of
             (None, r) \<Rightarrow> (Inr False, (c, w, r))
           | (Some (payload, seed), r) \<Rightarrow>
               (case append_bytes payload (world_packet_new SMSG_AUTH_CHALLENGE) of
                  Inl e \<Rightarrow> (Inl e, (c, w, r))
                | Inr packet \<Rightarrow>
                    let c = send_packet V packet c
                    in if cc_closed c then (Inr False, (c, w, r))
                       else (Inr True, (c\<lparr>cc_seed := seed, cc_state := CONN_CHALLENGED\<rparr>, w, r)))))"

definition handle_wow_connection ::
  "('x, 'm, 'r) environment \<Rightarrow> world_packet \<Rightarrow> ('x, 'w, 'r) cc_world
    \<Rightarrow> (bb_error + bool) \<times> ('x, 'w, 'r) cc_world" where
  "handle_wow_connection V packet s =
     (case get_string packet of
        Inl e \<Rightarrow> (Inl e, s)
      | Inr (msg, packet) \<Rightarrow>
          if takeWhile (\<lambda>b. b \<noteq> 0) msg \<noteq> client_greeting then (Inr False, s)
          else send_auth_challenge V s)"

definition commit_crypt :: "'x connection \<Rightarrow> 'x connection" where
  "commit_crypt c = c\<lparr>cc_crypt := activate (cc_crypt c), cc_state := CONN_AUTHED\<rparr>"

definition publish_session ::
  "('x, 'm, 'r) environment \<Rightarrow> ('ctx, 'w) gateway \<Rightarrow> auth_request \<Rightarrow> 'ctx option \<Rightarrow> ('x, 'w, 'r) cc_world
    \<Rightarrow> (bb_error + bool) \<times> ('x, 'w, 'r) cc_world" where
  "publish_session V G request context s =
     (case s of
        (c, w, r) \<Rightarrow>
          (case gw_attach G request context w of
             (session, committed, w) \<Rightarrow>
               let c = (if committed then commit_crypt c else c)
               in if session = INVALID_SESSION_ID then reject_auth V G AuthSystemError (c, w, r)
                  else (Inr True, (c\<lparr>cc_session := session\<rparr>, w, r))))"

definition handle_auth_session ::
  "('x, 'm, 'r) environment \<Rightarrow> ('ctx, 'w) gateway \<Rightarrow> world_packet \<Rightarrow> ('x, 'w, 'r) cc_world
    \<Rightarrow> (bb_error + bool) \<times> ('x, 'w, 'r) cc_world" where
  "handle_auth_session V G packet s =
     (case s of
        (c, w, r) \<Rightarrow>
          (case decode_auth_session (byte_buffer.truncate packet) auth_session_fields_zero of
             (result, parsed) \<Rightarrow>
               if result \<noteq> DecodeOk then reject_auth V G AuthFailed s
               else
                 let request = \<lparr>req_fields = parsed, req_peer_address = cc_address c\<rparr>
                 in case gw_lookup_account G request w of
                      (lookup, w) \<Rightarrow>
                        if lookup_status lookup \<noteq> AuthOk then reject_auth V G (lookup_status lookup) (c, w, r)
                        else
                          let K = lookup_session_key lookup;
                              serverProof = compute_auth_proof (env_sha1 V) (as_account parsed)
                                              (as_client_seed parsed) (cc_seed c) K
                          in if \<not> proof_equals serverProof (as_digest parsed)
                             then reject_auth V G AuthFailed (c, w, r)
                             else case prepare (env_evp V) K (cc_crypt c) of
                               (ok, crypt) \<Rightarrow>
                                 let c = c\<lparr>cc_crypt := crypt\<rparr>
                                 in if \<not> ok then reject_auth V G AuthSystemError (c, w, r)
                                    else publish_session V G request (lookup_context lookup) (c, w, r)))"

section \<open>Dispatch\<close>

text \<open>27 seconds, on a clock of nanoseconds.\<close>

definition MIN_PING_INTERVAL :: int where "MIN_PING_INTERVAL = 27 * 1000000000"

definition handle_ping ::
  "('x, 'm, 'r) environment \<Rightarrow> ('ctx, 'w) gateway \<Rightarrow> world_packet \<Rightarrow> ('x, 'w, 'r) cc_world
    \<Rightarrow> (bb_error + bool) \<times> ('x, 'w, 'r) cc_world" where
  "handle_ping V G packet s =
     (case s of
        (c, w, r) \<Rightarrow>
          (case sum_bind (get_u32 packet) (\<lambda>(latency, p). sum_bind (get_u32 p) (\<lambda>(ping, p). Inr (latency, ping))) of
             Inl e \<Rightarrow> (Inl e, s)
           | Inr (latency, ping) \<Rightarrow>
               (case env_now V r of
                  (now, r) \<Rightarrow>
                    let run = (if cc_had_ping c
                               then if now - cc_last_ping c < MIN_PING_INTERVAL then cc_fast_ping_run c + 1 else 0
                               else cc_fast_ping_run c);
                        c = c\<lparr>cc_fast_ping_run := run, cc_last_ping := now, cc_had_ping := True\<rparr>
                    in case gw_on_ping G (cc_session c) latency run w of
                         (ok, w) \<Rightarrow>
                           if \<not> ok then (Inr False, (c, w, r))
                           else case put_u32 ping (world_packet_new SMSG_PONG) of
                                  Inl e \<Rightarrow> (Inl e, (c, w, r))
                                | Inr pong \<Rightarrow> (Inr True, (send_packet V pong c, w, r)))))"

fun is_byte_buffer_exception :: "bb_error \<Rightarrow> bool" where
  "is_byte_buffer_exception (GetFailed _ _ _) = True"
| "is_byte_buffer_exception (PutFailed _ _ _) = True"
| "is_byte_buffer_exception _ = False"

definition catch_decode :: "(bb_error + bool) \<times> 's \<Rightarrow> (bb_error + bool) \<times> 's" where
  "catch_decode m =
     (case m of
        (Inl e, s) \<Rightarrow> if is_byte_buffer_exception e then (Inr False, s) else (Inl e, s)
      | (Inr b, s) \<Rightarrow> (Inr b, s))"

definition opcode_class_of :: "u32 \<Rightarrow> opcode_class" where
  "opcode_class_of cmd =
     (if cmd = ucast MSG_WOW_CONNECTION then OPC_GREETING
      else if cmd = ucast CMSG_AUTH_SESSION then OPC_AUTH_SESSION else OPC_NORMAL)"

definition dispatch_switch ::
  "('x, 'm, 'r) environment \<Rightarrow> ('ctx, 'w) gateway \<Rightarrow> u32 \<Rightarrow> world_packet \<Rightarrow> ('x, 'w, 'r) cc_world
    \<Rightarrow> (bb_error + bool) \<times> ('x, 'w, 'r) cc_world" where
  "dispatch_switch V G cmd packet s =
     (case s of
        (c, w, r) \<Rightarrow>
          if cmd = ucast CMSG_PING then handle_ping V G packet s
          else if cmd = ucast CMSG_AUTH_SESSION
          then handle_auth_session V G packet (c\<lparr>cc_state := CONN_AUTHENTICATING\<rparr>, w, r)
          else if cmd = ucast CMSG_KEEP_ALIVE
          then (Inr True, (c, gw_on_packet_received G packet (cc_session c) w, r))
          else if cmd = ucast CMSG_LOG_DISCONNECT
          then (Inr True, (c, gw_on_packet_received G (bb_rfinish packet) (cc_session c) w, r))
          else if cc_session c = INVALID_SESSION_ID then (Inr False, s)
          else (Inr True, (c, gw_deliver G (cc_session c) packet w, r)))"

definition dispatch_frame ::
  "('x, 'm, 'r) environment \<Rightarrow> ('ctx, 'w) gateway \<Rightarrow> u32 \<Rightarrow> u8 list \<Rightarrow> ('x, 'w, 'r) cc_world
    \<Rightarrow> (bb_error + bool) \<times> ('x, 'w, 'r) cc_world" where
  "dispatch_frame V G cmd payload s =
     (case append_bytes payload (world_packet_new (ucast cmd)) of
        Inl e \<Rightarrow> (Inl e, s)
      | Inr packet \<Rightarrow>
          if \<not> is_handshake_opcode_legal (cc_state (fst s)) (opcode_class_of cmd) then (Inr False, s)
          else if cmd = ucast MSG_WOW_CONNECTION then handle_wow_connection V packet s
          else catch_decode (dispatch_switch V G cmd packet s))"

section \<open>Receiving\<close>

definition decrypt_header_hook :: "('x, 'm, 'r) environment \<Rightarrow> 'x auth_crypt decrypt_fn" where
  "decrypt_header_hook V crypt header =
     (if \<not> is_initialized crypt then (True, header, crypt) else decrypt_recv (env_evp V) header crypt)"

definition cmd_valid_hook :: "'x auth_crypt cmd_valid_fn" where
  "cmd_valid_hook crypt cmd preCrypt =
     (if \<not> preCrypt then True else cmd = ucast MSG_WOW_CONNECTION \<or> cmd < OPCODE_TABLE_SIZE)"

definition connection_header_kind :: "'x connection \<Rightarrow> header_kind" where
  "connection_header_kind c =
     (if is_initialized (cc_crypt c) then HDR_POSTCRYPT
      else if cc_state c = CONN_GREETING then HDR_GREETING else HDR_PRECRYPT)"

definition try_connection_frame ::
  "('x, 'm, 'r) environment \<Rightarrow> frame \<Rightarrow> 'x connection \<Rightarrow> frame_status \<times> frame \<times> 'x connection" where
  "try_connection_frame V frame c =
     (case try_frame (connection_header_kind c) (Some (decrypt_header_hook V)) (Some cmd_valid_hook)
             frame (cc_reader c) (cc_crypt c) of
        (status, frame, fr, crypt) \<Rightarrow> (status, frame, c\<lparr>cc_reader := fr, cc_crypt := crypt\<rparr>))"

definition malformed_frame ::
  "('x, 'm, 'r) environment \<Rightarrow> ('x, 'w, 'r) cc_world \<Rightarrow> ('x, 'w, 'r) cc_world" where
  "malformed_frame V s =
     (case s of
        (c, w, r) \<Rightarrow>
          (case env_now V r of
             (now, r) \<Rightarrow>
               let nowSec = now div 1000000000;
                   c = (if rate_limit_elapsed (cc_last_decode_log_sec c) nowSec
                        then c\<lparr>cc_last_decode_log_sec := nowSec\<rparr> else c)
               in (close_connection c, w, r)))"

text \<open>
  No handler touches the frame reader, and every frame taken from it makes it smaller: this is
  the measure by which the receive loop ends, for any reader state.
\<close>

definition reader_measure :: "frame_reader \<Rightarrow> nat" where
  "reader_measure fr =
     (if fr_rpos fr \<le> length (fr_buf fr) then 2 * (length (fr_buf fr) - fr_rpos fr)
      else 2 * (5000 - fr_rpos fr) + 1) + (if fr_have_header fr then 1 else 0)"

lemma reader_measure_compact:
  assumes "\<not> fr_have_header fr"
  shows "reader_measure (fr_compact fr) \<le> reader_measure fr"
    and "fr_rpos fr > 4096 \<Longrightarrow> length (fr_buf fr) < fr_rpos fr \<Longrightarrow> reader_measure (fr_compact fr) = 0"
  using assms by (auto simp: reader_measure_def fr_compact_def)

lemma finish_frame_measure:
  assumes "finish_frame out fr c = (FRAME_READY, out', fr', c')" and "fr_have_header fr"
  shows "reader_measure fr' < reader_measure fr"
proof -
  let ?g = "fr\<lparr>fr_rpos := fr_rpos fr + fr_need fr, fr_have_header := False\<rparr>"
  have fr': "fr' = fr_compact ?g" and need: "fr_need fr \<le> fr_avail fr"
    using assms(1) by (auto simp: finish_frame_def split: if_splits)
  have "reader_measure (fr_compact ?g) \<le> reader_measure ?g"
    by (rule reader_measure_compact) simp
  also have "reader_measure ?g < reader_measure fr"
    using assms(2) need by (auto simp: reader_measure_def fr_avail_def)
  finally show ?thesis by (simp add: fr')
qed

lemma try_frame_measure:
  assumes "try_frame k d v out fr c = (FRAME_READY, out', fr', c')"
  shows "reader_measure fr' < reader_measure fr"
proof (cases "fr_have_header fr")
  case True
  with assms show ?thesis by (intro finish_frame_measure [of out fr c]) (simp_all add: try_frame_def Let_def)
next
  case False
  obtain ok hdr c1 where d: "run_decrypt d c (take (header_length k) (drop (fr_rpos fr) (fr_buf fr))) = (ok, hdr, c1)"
    by (metis prod_cases3)
  from assms False d obtain sz cmd where f: "finish_frame out
      (fr\<lparr>fr_cmd := cmd, fr_rpos := fr_rpos fr + header_length k, fr_need := unat (sz :: u16), fr_have_header := True\<rparr>) c1
        = (FRAME_READY, out', fr', c')" and av: "\<not> fr_avail fr < header_length k"
    by (auto simp: try_frame_def Let_def split: if_splits option.splits)
  let ?g = "fr\<lparr>fr_cmd := cmd, fr_rpos := fr_rpos fr + header_length k, fr_need := unat (sz :: u16), fr_have_header := True\<rparr>"
  show ?thesis
  proof (cases "length (fr_buf fr) < fr_rpos fr \<and> 4096 < fr_rpos fr")
    case True
    have "fr' = fr_compact (?g\<lparr>fr_rpos := fr_rpos ?g + fr_need ?g, fr_have_header := False\<rparr>)"
      using f by (auto simp: finish_frame_def split: if_splits)
    then have "reader_measure fr' = 0"
      using True by (simp only:) (rule reader_measure_compact(2), simp_all)
    with True show ?thesis by (simp add: reader_measure_def)
  next
    case inside: False
    have "reader_measure fr' < reader_measure ?g" using finish_frame_measure [OF f] by simp
    also have "reader_measure ?g \<le> reader_measure fr"
      using False av inside by (auto simp: reader_measure_def fr_avail_def header_length_def split: if_splits)
    finally show ?thesis .
  qed
qed

text \<open>What a send leaves alone.\<close>

lemma encode_for_send_frame:
  assumes "encode_for_send V p c = (fatal, wire, c')"
  shows "c' = c\<lparr>cc_crypt := cc_crypt c'\<rparr>" and "crypt_state (cc_crypt c') = crypt_state (cc_crypt c)"
  using assms
  by (auto simp: encode_for_send_def Let_def dest: encrypt_send_state split: option.splits if_splits prod.splits)

lemma send_packet_frame:
  fixes V :: "('x, 'm, 'r) environment" and c :: "'x connection"
  fixes p :: world_packet
  defines "c' \<equiv> send_packet V p c"
  shows "c' = c\<lparr>cc_crypt := cc_crypt c', cc_sent := cc_sent c', cc_closed := cc_closed c',
                cc_closer_calls := cc_closer_calls c'\<rparr>"
    and "crypt_state (cc_crypt c') = crypt_state (cc_crypt c)"
    and "cc_closed c \<Longrightarrow> c' = c"
proof -
  obtain fatal wire d where e: "encode_for_send V p c = (fatal, wire, d)"
    by (metis prod_cases3)
  from encode_for_send_frame [OF e]
  obtain crypt where d: "d = c\<lparr>cc_crypt := crypt\<rparr>" and st: "crypt_state crypt = crypt_state (cc_crypt c)"
    by metis
  show "c' = c\<lparr>cc_crypt := cc_crypt c', cc_sent := cc_sent c', cc_closed := cc_closed c',
                cc_closer_calls := cc_closer_calls c'\<rparr>"
    by (simp add: c'_def send_packet_def e d close_connection_def)
  show "crypt_state (cc_crypt c') = crypt_state (cc_crypt c)"
    by (simp add: c'_def send_packet_def e d st close_connection_def)
  show "cc_closed c \<Longrightarrow> c' = c" by (simp add: c'_def send_packet_def)
qed

lemma send_packet_simps [simp]:
  "cc_reader (send_packet V p c) = cc_reader c"
  "cc_state (send_packet V p c) = cc_state c"
  "cc_session (send_packet V p c) = cc_session c"
  "crypt_state (cc_crypt (send_packet V p c)) = crypt_state (cc_crypt c)"
  using arg_cong [OF send_packet_frame(1) [of V p c], of cc_reader]
    arg_cong [OF send_packet_frame(1) [of V p c], of cc_state]
    arg_cong [OF send_packet_frame(1) [of V p c], of cc_session] send_packet_frame(2) [of V p c]
  by simp_all

lemma send_packet_closed: "cc_closed c \<Longrightarrow> send_packet V p c = c"
  by (rule send_packet_frame(3))

lemma close_connection_simps [simp]:
  "cc_reader (close_connection c) = cc_reader c" "cc_state (close_connection c) = cc_state c"
  "cc_session (close_connection c) = cc_session c" "cc_crypt (close_connection c) = cc_crypt c"
  "cc_closed (close_connection c)" "cc_sent (close_connection c) = cc_sent c"
  by (simp_all add: close_connection_def)

text \<open>
  A property of the connection that every handler keeps: the handler lemmas below are each an
  instance of one case analysis over the handler's branches.
\<close>

lemma reject_auth_cases:
  obtains e where "reject_auth V G st (c, w, r) = (Inl e, (c, w, r))"
  | p where "reject_auth V G st (c, w, r) = (Inr False, (send_packet V p c, w, r))"
  by (cases "gw_build_auth_error G st (world_packet_new 0x1001)") (auto simp: reject_auth_def)

lemma commit_crypt_simps [simp]:
  "cc_reader (commit_crypt c) = cc_reader c" "cc_state (commit_crypt c) = CONN_AUTHED"
  "cc_session (commit_crypt c) = cc_session c" "cc_crypt (commit_crypt c) = activate (cc_crypt c)"
  "cc_closed (commit_crypt c) = cc_closed c"
  by (simp_all add: commit_crypt_def)

lemma reject_auth_reader [simp]: "cc_reader (fst (snd (reject_auth V G st s))) = cc_reader (fst s)"
  by (cases s) (auto simp: reject_auth_def split: sum.splits)

lemma publish_session_reader [simp]:
  "cc_reader (fst (snd (publish_session V G req ctx s))) = cc_reader (fst s)"
  by (cases s) (auto simp: publish_session_def Let_def split: prod.splits)

lemma handle_auth_session_reader [simp]:
  "cc_reader (fst (snd (handle_auth_session V G p s))) = cc_reader (fst s)"
  by (cases s) (auto simp: handle_auth_session_def Let_def split: prod.splits)

lemma handle_wow_connection_reader [simp]:
  "cc_reader (fst (snd (handle_wow_connection V p s))) = cc_reader (fst s)"
  by (cases s) (auto simp: handle_wow_connection_def send_auth_challenge_def Let_def
      split: prod.splits sum.splits option.splits)

lemma handle_ping_reader [simp]: "cc_reader (fst (snd (handle_ping V G p s))) = cc_reader (fst s)"
  by (cases s) (auto simp: handle_ping_def Let_def split: prod.splits sum.splits)

lemma catch_decode_snd [simp]: "snd (catch_decode m) = snd m"
  by (auto simp: catch_decode_def split: prod.splits sum.splits)

lemma dispatch_frame_reader [simp]:
  "cc_reader (fst (snd (dispatch_frame V G cmd payload s))) = cc_reader (fst s)"
  by (cases s) (auto simp: dispatch_frame_def dispatch_switch_def split: sum.splits)

section \<open>The receive loop\<close>

lemma loop_decreases:
  assumes "(FRAME_READY, y) = try_connection_frame V frame c" and "(frame', c') = y"
    and "(Inr True, s) = dispatch_frame V G (frame_cmd frame') (frame_payload frame') (c', w, r)"
  shows "reader_measure (cc_reader (fst s)) < reader_measure (cc_reader c)"
proof -
  have "cc_reader (fst s) = cc_reader c'"
    using dispatch_frame_reader [of V G "frame_cmd frame'" "frame_payload frame'" "(c', w, r)"]
    by (simp flip: assms(3))
  moreover have "reader_measure (cc_reader c') < reader_measure (cc_reader c)"
    using assms(1,2) by (auto simp: try_connection_frame_def dest!: try_frame_measure split: prod.splits)
  ultimately show ?thesis by simp
qed

function on_data_loop ::
  "('x, 'm, 'r) environment \<Rightarrow> ('ctx, 'w) gateway \<Rightarrow> frame \<Rightarrow> ('x, 'w, 'r) cc_world
    \<Rightarrow> (bb_error + unit) \<times> ('x, 'w, 'r) cc_world" where
  "on_data_loop V G frame (c, w, r) =
     (case try_connection_frame V frame c of
        (NEED_MORE, frame, c) \<Rightarrow> (Inr (), (c, w, r))
      | (MALFORMED, frame, c) \<Rightarrow> (Inr (), malformed_frame V (c, w, r))
      | (FRAME_READY, frame, c) \<Rightarrow>
          (case dispatch_frame V G (frame_cmd frame) (frame_payload frame) (c, w, r) of
             (Inl e, s) \<Rightarrow> (Inl e, s)
           | (Inr ok, s) \<Rightarrow>
               if ok then on_data_loop V G frame s
               else (Inr (), (close_connection (fst s), snd s))))"
  by pat_completeness auto
termination
proof (relation "measure (\<lambda>(V, G, frame, s). reader_measure (cc_reader (fst s)))", goal_cases)
  case 2
  then show ?case by (simp add: loop_decreases)
qed simp

declare on_data_loop.simps [simp del]

definition on_data ::
  "('x, 'm, 'r) environment \<Rightarrow> ('ctx, 'w) gateway \<Rightarrow> u8 list \<Rightarrow> ('x, 'w, 'r) cc_world
    \<Rightarrow> (bb_error + unit) \<times> ('x, 'w, 'r) cc_world" where
  "on_data V G data s =
     (case s of
        (c, w, r) \<Rightarrow>
          if cc_closed c then (Inr (), s)
          else on_data_loop V G \<lparr>frame_cmd = 0, frame_payload = []\<rparr>
                 (c\<lparr>cc_reader := fr_push data (cc_reader c)\<rparr>, w, r))"

definition on_close :: "('ctx, 'w) gateway \<Rightarrow> ('x, 'w, 'r) cc_world \<Rightarrow> ('x, 'w, 'r) cc_world" where
  "on_close G s =
     (case s of
        (c, w, r) \<Rightarrow>
          let c = c\<lparr>cc_closed := True\<rparr>
          in if cc_session c \<noteq> INVALID_SESSION_ID
             then (case gw_detach G (cc_session c) w of
                     (closes, w) \<Rightarrow>
                       ((if closes then close_connection c else c)\<lparr>cc_session := INVALID_SESSION_ID\<rparr>, w, r))
             else (c, w, r))"

end
