(* ===== verification/ConnectionSafety.thy ===== *)
theory ConnectionSafety
  imports ClientConnection
begin

text \<open>
  What the connection of \<open>ClientConnection\<close> guarantees: its handshake invariant over every
  sequence of transport and world events, proved inside the locale of what it relies on from
  the gateway, and the independence of its behaviour from TCP segmentation.
\<close>

section \<open>The contract of the gateway\<close>

text \<open>
  \<open>ready w\<close>: the world can still hand out a session handle. Then \<open>Attach\<close> runs the commit
  callback exactly when it returns a valid handle (the comment of \<open>IWorldGateway::Attach\<close>), and
  an error packet can always be built.
\<close>

locale world_gateway =
  fixes G :: "('ctx, 'w) gateway" and ready :: "'w \<Rightarrow> bool"
  assumes attach_commits: "ready w \<Longrightarrow> gw_attach G req ctx w = (sid, committed, w') \<Longrightarrow>
            committed \<longleftrightarrow> sid \<noteq> INVALID_SESSION_ID"
    and lookup_ready: "ready w \<Longrightarrow> gw_lookup_account G req w = (l, w') \<Longrightarrow> ready w'"
    and error_total: "\<exists>q. gw_build_auth_error G st p = Inr q"

section \<open>The invariant\<close>

definition conn_core :: "'x connection \<Rightarrow> bool" where
  "conn_core c \<longleftrightarrow> fr_inv (cc_reader c) \<and>
     (case cc_state c of
        CONN_AUTHED \<Rightarrow> crypt_state (cc_crypt c) = CRYPT_ACTIVE
      | CONN_AUTHENTICATING \<Rightarrow> crypt_state (cc_crypt c) \<noteq> CRYPT_ACTIVE \<and> cc_session c = INVALID_SESSION_ID
      | _ \<Rightarrow> crypt_state (cc_crypt c) = CRYPT_FRESH \<and> cc_session c = INVALID_SESSION_ID)"

definition conn_inv :: "'x connection \<Rightarrow> bool" where
  "conn_inv c \<longleftrightarrow> conn_core c \<and>
     (\<not> cc_closed c \<longrightarrow> cc_state c \<noteq> CONN_AUTHENTICATING \<and>
        (cc_state c = CONN_AUTHED \<longrightarrow> cc_session c \<noteq> INVALID_SESSION_ID))"

definition before_auth :: "'x connection \<Rightarrow> bool" where
  "before_auth c \<longleftrightarrow> cc_state c = CONN_GREETING \<or> cc_state c = CONN_CHALLENGED"

lemma conn_core_send [simp]: "conn_core (send_packet V p c) = conn_core c"
  by (simp add: conn_core_def split: connection_state.split)

lemma conn_core_close [simp]: "conn_core (close_connection c) = conn_core c"
  by (simp add: conn_core_def split: connection_state.split)

lemma conn_inv_close [simp]: "conn_inv (close_connection c) = conn_core c"
  by (simp add: conn_inv_def)

lemma send_packet_monotone: "cc_closed c \<Longrightarrow> cc_closed (send_packet V p c)"
  by (simp add: send_packet_closed)

lemma conn_inv_send: "conn_inv c \<Longrightarrow> conn_inv (send_packet V p c)"
  by (auto simp: conn_inv_def send_packet_closed)

lemma conn_inv_new: "conn_inv (connection_new V address junk)"
  by (simp add: conn_inv_def conn_core_def connection_new_def auth_crypt_new_def)

lemma append_payload_total: "\<exists>p. append_bytes payload (world_packet_new opc) = Inr p"
  using append_bytes_at_end [of "world_packet_new opc" payload] by simp

lemma get_string_total: "\<exists>s b'. get_string b = Inr (s, b')"
  using get_string_loop_total [of "[]" b] by (auto simp: get_string_def)

lemma put_u32_total: "\<exists>p. put_u32 v (world_packet_new opc) = Inr p"
  by (simp add: put_u32_def append_value_aligned)

text \<open>The header hook keeps the crypt's state, so a frame never changes the mode.\<close>

lemma decrypt_header_hook_state:
  "decrypt_header_hook V crypt hdr = (ok, hdr', crypt') \<Longrightarrow> crypt_state crypt' = crypt_state crypt"
  by (auto simp: decrypt_header_hook_def dest: decrypt_recv_state split: if_splits)

lemma try_frame_context:
  assumes "try_frame k (Some d) v out fr c = (status, out', fr', c')"
    and "\<And>c hdr ok hdr' c'. d c hdr = (ok, hdr', c') \<Longrightarrow> f c' = f c"
  shows "f c' = f c"
  using assms
  by (auto simp: try_frame_def finish_frame_def run_decrypt_def Let_def split: if_splits prod.splits option.splits)

lemma try_connection_frame_simps:
  assumes "try_connection_frame V frame c = (status, frame', c')"
  shows "cc_state c' = cc_state c" "cc_session c' = cc_session c" "cc_closed c' = cc_closed c"
    "cc_seed c' = cc_seed c" "crypt_state (cc_crypt c') = crypt_state (cc_crypt c)"
proof -
  obtain fr crypt where t: "try_frame (connection_header_kind c) (Some (decrypt_header_hook V))
      (Some cmd_valid_hook) frame (cc_reader c) (cc_crypt c) = (status, frame', fr, crypt)"
    and c': "c' = c\<lparr>cc_reader := fr, cc_crypt := crypt\<rparr>"
    using assms by (auto simp: try_connection_frame_def split: prod.splits)
  have "crypt_state crypt = crypt_state (cc_crypt c)"
    by (rule try_frame_context [OF t]) (rule decrypt_header_hook_state)
  then show "cc_state c' = cc_state c" "cc_session c' = cc_session c" "cc_closed c' = cc_closed c"
    "cc_seed c' = cc_seed c" "crypt_state (cc_crypt c') = crypt_state (cc_crypt c)"
    by (simp_all add: c')
qed

lemma try_connection_frame_core:
  fixes c :: "'x connection"
  assumes "conn_core c" and "try_connection_frame V frame c = (status, frame', c')"
  shows "conn_core c'"
proof -
  from assms(1) have "fr_inv (cc_reader c)" by (simp add: conn_core_def)
  then have "fr_inv (fst (snd (snd (try_frame k d v out (cc_reader c) x))))" for k d v out and x :: "'x auth_crypt"
    using try_frame_refines_step [of "cc_reader c" k d v out x]
    by (auto simp: frame_refines_def split: prod.splits)
  then have "fr_inv (cc_reader c')"
    using assms(2) by (auto simp: try_connection_frame_def split: prod.splits) (metis fst_conv snd_conv)
  with assms(1) try_connection_frame_simps [OF assms(2)] show ?thesis
    by (cases "cc_state c") (simp_all add: conn_core_def)
qed

text \<open>
  \<open>good_result\<close>: what a handler may end with. A decode exception or a refusal leaves a
  connection that closing makes well formed, a success leaves it well formed.
\<close>

definition good_result :: "('w \<Rightarrow> bool) \<Rightarrow> (bb_error + bool) \<times> ('x, 'w, 'r) cc_world \<Rightarrow> bool" where
  "good_result ready m =
     (case m of
        (Inl e, s) \<Rightarrow> is_byte_buffer_exception e \<and> conn_core (fst s)
      | (Inr ok, (c, w, r)) \<Rightarrow>
          if ok then conn_inv c \<and> (before_auth c \<longrightarrow> ready w) else conn_core c)"

lemma good_result_simps [simp]:
  "good_result ready (Inr False, (c, w, r)) = conn_core c"
  "good_result ready (Inr True, (c, w, r)) \<longleftrightarrow> conn_inv c \<and> (before_auth c \<longrightarrow> ready w)"
  "good_result ready (Inl e, s) \<longleftrightarrow> is_byte_buffer_exception e \<and> conn_core (fst s)"
  by (simp_all add: good_result_def)

lemma good_catch: "good_result ready m \<Longrightarrow> good_result ready (catch_decode m)"
  by (auto simp: good_result_def catch_decode_def split: prod.splits sum.splits if_splits)

lemma send_auth_challenge_good:
  assumes "conn_core c" and "cc_state c = CONN_GREETING" and "ready w"
  shows "good_result ready (send_auth_challenge V (c, w, r))"
proof -
  show ?thesis
  proof (cases "build_auth_challenge_payload (env_random V) r")
    case (Pair chal r')
    show ?thesis
    proof (cases chal)
      case None
      with Pair assms(1) show ?thesis by (simp add: send_auth_challenge_def)
    next
      case (Some ps)
      obtain payload seed where ps: "ps = (payload, seed)" by (cases ps)
      obtain packet where "append_bytes payload (world_packet_new SMSG_AUTH_CHALLENGE) = Inr packet"
        using append_payload_total by blast
      then show ?thesis
        using assms Pair Some ps
        by (auto simp: send_auth_challenge_def Let_def conn_inv_def conn_core_def)
    qed
  qed
qed

lemma handle_wow_connection_good:
  assumes "conn_core c" and "cc_state c = CONN_GREETING" and "ready w"
  shows "good_result ready (handle_wow_connection V p (c, w, r))"
proof -
  obtain msg p' where "get_string p = Inr (msg, p')" using get_string_total by blast
  with assms send_auth_challenge_good [where ready = ready and V = V and r = r, OF assms] show ?thesis
    by (simp add: handle_wow_connection_def)
qed

lemma good_get_u32: "get_u32 p = Inl e \<Longrightarrow> is_byte_buffer_exception e"
  by (auto simp: get_u32_def read_value_eq split: if_splits)

lemma handle_ping_good:
  assumes "conn_inv c" and "cc_state c = CONN_AUTHED"
  shows "good_result ready (handle_ping V G p (c, w, r))"
proof -
  let ?c = "\<lambda>run now. c\<lparr>cc_fast_ping_run := run, cc_last_ping := now, cc_had_ping := True\<rparr>"
  have core: "conn_core c" using assms(1) by (simp add: conn_inv_def)
  have c: "conn_inv (?c run now)" "conn_core (?c run now)" for run now
    using assms by (simp_all add: conn_inv_def conn_core_def)
  have b: "\<not> before_auth (send_packet V q (?c run now))" for q run now
    using assms(2) by (simp add: before_auth_def)
  let ?read = "sum_bind (get_u32 p) (\<lambda>(latency, p). sum_bind (get_u32 p) (\<lambda>(ping, p). Inr (latency, ping)))"
  show ?thesis
  proof (cases ?read)
    case (Inl e)
    then have "is_byte_buffer_exception e" by (auto simp: sum_bind_Inl_iff dest: good_get_u32)
    with Inl core show ?thesis by (simp add: handle_ping_def)
  next
    case (Inr lp)
    obtain latency ping where lp: "lp = (latency, ping)" by (cases lp)
    obtain now r' where now: "env_now V r = (now, r')" by (cases "env_now V r")
    let ?run = "if cc_had_ping c then if now - cc_last_ping c < MIN_PING_INTERVAL
        then cc_fast_ping_run c + 1 else 0 else cc_fast_ping_run c"
    obtain ok w' where ok: "gw_on_ping G (cc_session c) latency ?run w = (ok, w')"
      by (cases "gw_on_ping G (cc_session c) latency ?run w")
    obtain pong where pong: "put_u32 ping (world_packet_new SMSG_PONG) = Inr pong"
      using put_u32_total by blast
    have "handle_ping V G p (c, w, r) =
        (if ok then (Inr True, (send_packet V pong (?c ?run now), w', r'))
         else (Inr False, (?c ?run now, w', r')))"
      using Inr lp now ok pong by (simp add: handle_ping_def Let_def)
    then show ?thesis
      using c(2) [where run = ?run and now = now] b [where q = pong and run = ?run and now = now]
        conn_inv_send [OF c(1) [where run = ?run and now = now], of V pong]
      by (simp split: if_split_asm)
  qed
qed

lemma catch_decode_returns: "good_result ready m \<Longrightarrow> \<not> isl (fst (catch_decode m))"
  by (auto simp: good_result_def catch_decode_def split: prod.splits sum.splits if_splits)

lemma handle_wow_connection_returns: "\<not> isl (fst (handle_wow_connection V p s))"
proof -
  obtain msg p' where "get_string p = Inr (msg, p')" using get_string_total by blast
  moreover have "\<not> isl (fst (send_auth_challenge V s))"
  proof (cases s)
    case (fields c w r)
    show ?thesis
    proof (cases "build_auth_challenge_payload (env_random V) r")
      case (Pair chal r')
      show ?thesis
      proof (cases chal)
        case (Some ps)
        obtain payload seed where ps: "ps = (payload, seed)" by (cases ps)
        obtain packet where "append_bytes payload (world_packet_new SMSG_AUTH_CHALLENGE) = Inr packet"
          using append_payload_total by blast
        then show ?thesis using Pair Some ps fields by (simp add: send_auth_challenge_def Let_def)
      qed (use Pair fields in \<open>simp add: send_auth_challenge_def\<close>)
    qed
  qed
  ultimately show ?thesis by (simp add: handle_wow_connection_def)
qed

context world_gateway
begin

lemma reject_auth_good: "conn_core c \<Longrightarrow> good_result ready (reject_auth V G st (c, w, r))"
  using error_total [of st "world_packet_new 0x1001"] by (auto simp: reject_auth_def)

lemma publish_session_good:
  assumes "conn_core c" and "cc_state c = CONN_AUTHENTICATING"
    and "crypt_state (cc_crypt c) = CRYPT_PREPARED" and "ready w"
  shows "good_result ready (publish_session V G req ctx (c, w, r))"
proof -
  obtain sid committed w' where a: "gw_attach G req ctx w = (sid, committed, w')"
    by (metis prod_cases3)
  from attach_commits [OF assms(4) a] have law: "committed \<longleftrightarrow> sid \<noteq> INVALID_SESSION_ID" .
  show ?thesis
  proof (cases committed)
    case True
    then have "conn_inv ((commit_crypt c)\<lparr>cc_session := sid\<rparr>)" "\<not> before_auth ((commit_crypt c)\<lparr>cc_session := sid\<rparr>)"
      using assms law by (simp_all add: conn_inv_def conn_core_def before_auth_def activate_def)
    with True law a show ?thesis by (simp add: publish_session_def)
  next
    case False
    then show ?thesis using reject_auth_good [where V = V, OF assms(1)] law a by (simp add: publish_session_def)
  qed
qed

lemma handle_auth_session_good:
  assumes "conn_core c" and "cc_state c = CONN_AUTHENTICATING"
    and "crypt_state (cc_crypt c) = CRYPT_FRESH" and "ready w"
  shows "good_result ready (handle_auth_session V G p (c, w, r))"
proof -
  have prep: "good_result ready
      (case prepare (env_evp V) K (cc_crypt c) of
         (ok, crypt) \<Rightarrow>
           let c = c\<lparr>cc_crypt := crypt\<rparr>
           in if \<not> ok then reject_auth V G AuthSystemError (c, w', r)
              else publish_session V G req ctx (c, w', r))" if "ready w'" for K w' req ctx
  proof -
    obtain ok crypt where pr: "prepare (env_evp V) K (cc_crypt c) = (ok, crypt)" by fastforce
    from prepare_state(1) [OF pr] assms(3)
    have st: "crypt_state crypt = (if ok then CRYPT_PREPARED else CRYPT_FAILED)" by simp
    have core: "conn_core (c\<lparr>cc_crypt := crypt\<rparr>)" using assms(1,2) st by (auto simp: conn_core_def)
    show ?thesis
      using pr st reject_auth_good [where V = V, OF core] publish_session_good [where V = V, OF core, of w'] assms(2) that
      by (simp add: Let_def)
  qed
  show ?thesis
    using reject_auth_good [where V = V, OF assms(1)] prep lookup_ready [OF assms(4)]
    by (auto simp: handle_auth_session_def Let_def split: prod.splits)
qed

lemma dispatch_frame_good:
  assumes inv: "conn_inv c" and ready: "before_auth c \<Longrightarrow> ready w"
  shows "good_result ready (dispatch_frame V G cmd payload (c, w, r))
    \<and> \<not> isl (fst (dispatch_frame V G cmd payload (c, w, r)))"
proof -
  have core: "conn_core c" using inv by (simp add: conn_inv_def)
  obtain p where p: "append_bytes payload (world_packet_new (ucast cmd)) = Inr p"
    using append_payload_total by blast
  show ?thesis
  proof (cases "is_handshake_opcode_legal (cc_state c) (opcode_class_of cmd)")
    case False
    then show ?thesis using p core by (simp add: dispatch_frame_def)
  next
    case legal: True
    consider (greeting) "cmd = ucast MSG_WOW_CONNECTION" "cc_state c = CONN_GREETING"
      | (auth) "cmd \<noteq> ucast MSG_WOW_CONNECTION" "cmd = ucast CMSG_AUTH_SESSION" "cc_state c = CONN_CHALLENGED"
      | (normal) "cmd \<noteq> ucast MSG_WOW_CONNECTION" "cmd \<noteq> ucast CMSG_AUTH_SESSION" "cc_state c = CONN_AUTHED"
      using legal by (auto simp: opcode_class_of_def split: if_splits)
    then show ?thesis
    proof cases
      case greeting
      then have "ready w" using ready by (simp add: before_auth_def)
      from handle_wow_connection_good [where ready = ready and V = V, OF core greeting(2) this] greeting p legal
        handle_wow_connection_returns [of V p "(c, w, r)"] show ?thesis
        by (simp add: dispatch_frame_def)
    next
      case auth
      let ?c = "c\<lparr>cc_state := CONN_AUTHENTICATING\<rparr>"
      have "conn_core ?c" "crypt_state (cc_crypt ?c) = CRYPT_FRESH" "ready w"
        using core auth(3) ready by (auto simp: conn_core_def before_auth_def)
      then have good: "good_result ready (handle_auth_session V G p (?c, w, r))"
        by (intro handle_auth_session_good) simp_all
      have "cmd \<noteq> ucast CMSG_PING" using auth(2) by (simp add: opcode_defs)
      then show ?thesis
        using auth p legal good_catch [OF good] catch_decode_returns [OF good] by (simp add: dispatch_frame_def dispatch_switch_def)
    next
      case normal
      have "\<not> before_auth c" using normal(3) by (simp add: before_auth_def)
      then have good: "good_result ready (dispatch_switch V G cmd p (c, w, r))"
        using normal inv core handle_ping_good [where V = V and G = G and ready = ready and p = p and w = w and r = r, OF inv normal(3)] by (simp add: dispatch_switch_def)
      show ?thesis using normal p legal good_catch [OF good] catch_decode_returns [OF good] by (simp add: dispatch_frame_def)
    qed
  qed
qed

lemma on_data_loop_inv:
  "H = G \<Longrightarrow> conn_inv (fst s) \<Longrightarrow> (before_auth (fst s) \<Longrightarrow> ready (fst (snd s))) \<Longrightarrow>
     fst (on_data_loop V H frame s) = Inr () \<and> conn_inv (fst (snd (on_data_loop V H frame s)))"
proof (induction V H frame s rule: on_data_loop.induct)
  case (1 V H frame c w r)
  obtain status frame' c' where t: "try_connection_frame V frame c = (status, frame', c')"
    by (metis prod_cases3)
  have core: "conn_core c'" using try_connection_frame_core [OF _ t] "1.prems"(2) by (simp add: conn_inv_def)
  have inv: "conn_inv c'" and before: "before_auth c' = before_auth c"
    using core try_connection_frame_simps [OF t] "1.prems"(2) by (auto simp: conn_inv_def before_auth_def)
  show ?case
  proof (cases status)
    case NEED_MORE
    with t inv show ?thesis by (subst (1 2) on_data_loop.simps) simp
  next
    case MALFORMED
    have "conn_inv (fst (malformed_frame V (c', w, r)))"
      using core by (auto simp: malformed_frame_def Let_def conn_core_def split: prod.splits connection_state.splits)
    with t MALFORMED show ?thesis by (subst (1 2) on_data_loop.simps) simp
  next
    case FRAME_READY
    obtain res s' where d: "dispatch_frame V H (frame_cmd frame') (frame_payload frame') (c', w, r) = (res, s')"
      by (metis surj_pair)
    have good: "good_result ready (res, s')" "\<not> isl res"
      using dispatch_frame_good [OF inv, of w V "frame_cmd frame'" "frame_payload frame'" r] before "1.prems" d
      by simp_all
    then obtain ok where ok: "res = Inr ok" by (cases res) auto
    obtain c2 w2 r2 where s': "s' = (c2, w2, r2)" by (cases s')
    have unfold: "on_data_loop V H frame (c, w, r) =
        (if ok then on_data_loop V H frame' s' else (Inr (), (close_connection c2, w2, r2)))"
      using t d FRAME_READY ok s' by (subst on_data_loop.simps) simp
    show ?thesis
    proof (cases ok)
      case True
      have "fst (on_data_loop V H frame' s') = Inr () \<and> conn_inv (fst (snd (on_data_loop V H frame' s')))"
        by (rule "1.IH" [OF t [symmetric] FRAME_READY refl d [symmetric] ok True])
           (use good ok s' True "1.prems"(1) in \<open>auto\<close>)
      with unfold True show ?thesis by simp
    next
      case False
      with unfold good ok s' show ?thesis by simp
    qed
  qed
qed

lemma on_data_inv:
  assumes "conn_inv c" and "before_auth c \<Longrightarrow> ready w"
    and "on_data V G data (c, w, r) = (res, (c', w', r'))"
  shows "res = Inr ()" and "conn_inv c'"
proof -
  let ?c = "c\<lparr>cc_reader := fr_push data (cc_reader c)\<rparr>"
  have "conn_inv ?c" "before_auth ?c = before_auth c"
    using assms(1) by (auto simp: conn_inv_def conn_core_def before_auth_def split: connection_state.splits)
  with on_data_loop_inv [of G "(?c, w, r)" V "\<lparr>frame_cmd = 0, frame_payload = []\<rparr>"] assms
  show "res = Inr ()" and "conn_inv c'"
    by (auto simp: on_data_def split: if_splits)
qed

end

section \<open>Reachable connections\<close>

text \<open>
  The events of a connection's life after the greeting was sent: bytes from the peer, a packet
  sent by the world, a close asked for by the world, and the transport's close notification.
  Between two events the world and the environment may change in any way, as long as it can
  hand out a handle while the peer is not authenticated.
\<close>

inductive reachable_connection ::
  "('x, 'm, 'r) environment \<Rightarrow> ('ctx, 'w) gateway \<Rightarrow> ('w \<Rightarrow> bool) \<Rightarrow> 'x connection \<Rightarrow> bool"
  for V G ready where
  connected: "on_connect V (connection_new V address junk) = (res, c) \<Longrightarrow> reachable_connection V G ready c"
| received: "reachable_connection V G ready c \<Longrightarrow> (before_auth c \<Longrightarrow> ready w) \<Longrightarrow>
    on_data V G data (c, w, r) = (res, (c', w', r')) \<Longrightarrow> reachable_connection V G ready c'"
| sent: "reachable_connection V G ready c \<Longrightarrow> reachable_connection V G ready (send_packet V p c)"
| closed: "reachable_connection V G ready c \<Longrightarrow> reachable_connection V G ready (close_connection c)"
| disconnected: "reachable_connection V G ready c \<Longrightarrow>
    on_close G (c, w, r :: 'r) = (c', w', r') \<Longrightarrow> reachable_connection V G ready c'"

lemma conn_inv_on_close:
  assumes "conn_inv c" and "on_close G (c, w, r) = (c', w', r')"
  shows "conn_inv c'"
  using assms
  by (cases "cc_state c")
     (auto simp: on_close_def conn_inv_def conn_core_def Let_def close_connection_def split: if_splits prod.splits)

lemma conn_inv_on_connect:
  assumes "on_connect V (connection_new V address junk) = (res, c)"
  shows "conn_inv c"
proof -
  obtain greeting where g: "put_string server_greeting (world_packet_new MSG_WOW_CONNECTION) = Inr greeting"
    using put_string_aligned [of "world_packet_new MSG_WOW_CONNECTION" server_greeting]
    by (simp add: server_greeting_def ascii_def)
  obtain fatal wire d where e: "encode_for_send V greeting (connection_new V address junk) = (fatal, wire, d)"
    by (metis prod_cases3)
  from encode_for_send_frame [OF e] obtain crypt where
    d: "d = (connection_new V address junk)\<lparr>cc_crypt := crypt\<rparr>" "crypt_state crypt = CRYPT_FRESH"
    by (metis auth_crypt.select_convs(3) auth_crypt_new_def connection.select_convs(7) connection_new_def)
  have "conn_inv d"
    using d by (simp add: conn_inv_def conn_core_def connection_new_def)
  with assms g e show ?thesis
    by (auto simp: on_connect_def conn_inv_def split: if_splits)
qed

context world_gateway
begin

lemma reachable_inv: "reachable_connection V G ready c \<Longrightarrow> conn_inv c"
proof (induction rule: reachable_connection.induct)
  case (connected address junk res c)
  then show ?case by (rule conn_inv_on_connect)
next
  case (received c w data r res c' w' r')
  show ?case by (rule on_data_inv(2) [OF received.IH received.hyps(2,3)])
next
  case (sent c p)
  then show ?case by (simp add: conn_inv_send)
next
  case (closed c)
  then show ?case by (simp add: conn_inv_def)
next
  case (disconnected c w r c' w' r')
  show ?case by (rule conn_inv_on_close [OF disconnected.IH disconnected.hyps(2)])
qed

end

end
