(* ===== verification/WorldSessions.thy ===== *)
theory WorldSessions
  imports AuthResponse
begin

text \<open>
  The world's sessions and its login queue, \<open>src/src/game/WorldHandlers/WorldSessionMgr.cpp\<close>,
  with the parts of \<open>World.h\<close>, \<open>World.cpp\<close> and \<open>WorldSession.cpp\<close> they use. A \<open>WorldSession*\<close> is an
  address in a heap; \<open>delete\<close> removes it, and using a removed address is the error
  \<open>UseAfterFree\<close>. A link (the shared pointer to a client connection) is a number; what the
  world does to it is appended to an effect log. The packets whose content other parts of the
  game define (addon list, tutorial flags, account data times) are effects of their own. A
  session's player is represented by the loading flag only.
\<close>

section \<open>State\<close>

datatype world_error = UseAfterFree nat | PacketError bb_error

datatype link_effect =
    SendLink nat world_packet
  | CloseLink nat
  | SendAddonsInfo nat
  | SendAccountDataTimes nat
  | SendTutorialsData nat

record world_session =
  ws_account_id :: u32
  ws_link :: "nat option"
  ws_security :: u32
  ws_expansion :: u8
  ws_mute_time :: u64
  ws_locale :: u8
  ws_session_key :: "u8 list"
  ws_in_queue :: bool
  ws_player_loading :: bool
  ws_suppress_world_sends :: bool
  ws_latency :: u32
  ws_client_time_delay :: u32
  ws_recv_queue :: "world_packet list"

record world =
  wd_heap :: "(nat, world_session) omap"
  wd_next_address :: nat
  wd_sessions :: "(u32, nat) omap"
  wd_queued :: "nat list"
  wd_add_queue :: "nat list"
  wd_player_limit :: "32 word"
  wd_max_active :: u32
  wd_max_queued :: u32
  wd_expansion :: u32
  wd_cache_version :: u32
  wd_max_overspeed_pings :: u32
  wd_closed_links :: "nat list"
  wd_effects :: "link_effect list"

type_synonym 'a world_result = "world_error + 'a"

definition world_session_new ::
  "u32 \<Rightarrow> nat option \<Rightarrow> u32 \<Rightarrow> u8 \<Rightarrow> u64 \<Rightarrow> u8 \<Rightarrow> u8 list \<Rightarrow> world_session" where
  "world_session_new account link security expansion muteTime locale sessionKey =
     \<lparr>ws_account_id = account, ws_link = link, ws_security = security, ws_expansion = expansion,
      ws_mute_time = muteTime, ws_locale = locale, ws_session_key = sessionKey, ws_in_queue = False,
      ws_player_loading = False, ws_suppress_world_sends = False, ws_latency = 0, ws_client_time_delay = 0, ws_recv_queue = []\<rparr>"

section \<open>Sessions on the heap\<close>

definition deref :: "nat \<Rightarrow> world \<Rightarrow> world_session world_result" where
  "deref p w = (case om_get (wd_heap w) p of None \<Rightarrow> Inl (UseAfterFree p) | Some s \<Rightarrow> Inr s)"

definition store :: "nat \<Rightarrow> world_session \<Rightarrow> world \<Rightarrow> world" where
  "store p s w = w\<lparr>wd_heap := om_put p s (wd_heap w)\<rparr>"

definition link_effect :: "link_effect \<Rightarrow> world \<Rightarrow> world" where
  "link_effect e w = w\<lparr>wd_effects := wd_effects w @ [e]\<rparr>"

definition close_link :: "nat \<Rightarrow> world \<Rightarrow> world" where
  "close_link l w = (link_effect (CloseLink l) w)\<lparr>wd_closed_links := l # wd_closed_links w\<rparr>"

definition set_in_queue :: "nat \<Rightarrow> bool \<Rightarrow> world \<Rightarrow> world world_result" where
  "set_in_queue p b w = sum_bind (deref p w) (\<lambda>s. Inr (store p (s\<lparr>ws_in_queue := b\<rparr>) w))"

definition session_effect :: "(nat \<Rightarrow> link_effect) \<Rightarrow> nat \<Rightarrow> world \<Rightarrow> world world_result" where
  "session_effect f p w =
     sum_bind (deref p w)
       (\<lambda>s. Inr (case ws_link s of None \<Rightarrow> w | Some l \<Rightarrow> link_effect (f l) w))"

text \<open>The opcodes whose senders are known to emit the client's format, in the order of the switch.\<close>

definition enter_world_converted_1 :: "u16 list" where
  "enter_world_converted_1 =
     [0x045A, 0x01DB, 0x10F1, 0x081A, 0x0AAA, 0x162B, 0x0AAE, 0x16BB, 0x1B90, 0x0E3B, 0x1440,
      0x06AB, 0x180A, 0x0E9B, 0x161B, 0x008F, 0x0AAF, 0x142F, 0x0B39, 0x1C3B, 0x18BA, 0x061B,
      0x0C8F, 0x082B, 0x1A8F, 0x0B01, 0x0082, 0x183B, 0x022A, 0x1062, 0x1EAA, 0x068F, 0x10AA,
      0x1E8E, 0x068E, 0x12BF, 0x100A, 0x1E9E, 0x169E, 0x1E1A, 0x141B, 0x02A7, 0x1560, 0x121B,
      0x18C1, 0x10A2, 0x1842, 0x0027, 0x0E3F, 0x0A3F, 0x103B, 0x1043, 0x0C6D, 0x1A32, 0x1A07,
      0x0562, 0x0251, 0x0817, 0x184C, 0x0469, 0x02F1, 0x0A83, 0x006E, 0x08B2, 0x1F9F, 0x1D8E,
      0x1DAB, 0x0046, 0x0832, 0x0B28, 0x0AB3, 0x0962, 0x0069, 0x0319, 0x17AB, 0x0ABE, 0x178D,
      0x0162, 0x1046, 0x0DE2, 0x1A9B, 0x1C0B, 0x159F, 0x0A27, 0x0845, 0x0865, 0x15AE, 0x1FAE,
      0x0728, 0x01E1, 0x1802]"

definition enter_world_converted_2 :: "u16 list" where
  "enter_world_converted_2 =
     [0x02D3, 0x0258, 0x0CE1, 0x1F9A, 0x086A, 0x0C60, 0x08E0, 0x0B08, 0x0B18, 0x1865, 0x1823,
      0x1893, 0x18B6, 0x11E1, 0x141A, 0x0332, 0x0591, 0x1283, 0x042E, 0x02A6, 0x129B, 0x163B,
      0x148E, 0x129E, 0x1A8B, 0x023E, 0x0E2A, 0x00D8, 0x0CF2, 0x0DF9, 0x1851, 0x09F8, 0x0D79,
      0x0DF1, 0x1450, 0x09FB, 0x05F3, 0x1570, 0x143A, 0x149B, 0x107A, 0x09D8, 0x0452, 0x1458,
      0x1163, 0x1904, 0x1061, 0x129A, 0x14C3, 0x1943, 0x0282, 0x1CAE, 0x1A9A, 0x1082, 0x061A,
      0x1A3B, 0x0F06, 0x0B22, 0x002E, 0x0987, 0x0C2A, 0x1963, 0x181E, 0x1C12, 0x1A9E, 0x12AF,
      0x06AA, 0x048A, 0x001A, 0x163A, 0x1C0A, 0x129F, 0x0022, 0x10E1, 0x0E12, 0x1026, 0x10F9,
      0x11D9, 0x15E3, 0x1860, 0x1A1B, 0x0632, 0x14AE, 0x180B, 0x1960, 0x0E3A, 0x19C0, 0x082F,
      0x080B, 0x0007, 0x1F13, 0x0302, 0x182B, 0x000B, 0x11E0, 0x0E8B, 0x1E0F, 0x06AF, 0x109F,
      0x102A, 0x1443, 0x0023, 0x15E2, 0x080E, 0x163F, 0x095A, 0x1275, 0x0244, 0x034E, 0x0785,
      0x1AAE, 0x048E, 0x101A, 0x1563, 0x0C1E, 0x0E0A, 0x128A, 0x123F, 0x0C3E, 0x14C0, 0x1632,
      0x0EAA, 0x1840]"

definition enter_world_converted_3 :: "u16 list" where
  "enter_world_converted_3 =
     [0x0A3A, 0x0EBB, 0x001F, 0x108B, 0x14AF, 0x1222, 0x0C3F, 0x0227, 0x10BE, 0x089E, 0x189A,
      0x1E9A, 0x1961, 0x06CE, 0x02D4, 0x134C, 0x027D, 0x12DE, 0x07FD, 0x06FF, 0x1645, 0x0277,
      0x074F, 0x0346, 0x0776, 0x0276, 0x067F, 0x036D, 0x140A, 0x1432, 0x169B, 0x048B, 0x06BF,
      0x081E, 0x1134, 0x0E0B, 0x1A3A, 0x1063, 0x1E3E, 0x042A, 0x1542, 0x13C7, 0x074D, 0x0A8B,
      0x0354, 0x03EC, 0x0364, 0x100F, 0x11E2, 0x063E, 0x1792, 0x14C2, 0x0072, 0x0B68, 0x0B69,
      0x0B70, 0x0BF8, 0x0A60, 0x0E69, 0x1E68, 0x0EF1, 0x0B78, 0x0FF9, 0x0A79, 0x0BE0, 0x1B79,
      0x0A3E, 0x089F, 0x1287, 0x088E, 0x1E3B, 0x12BB, 0x183A, 0x0C2E, 0x1006, 0x1EAB, 0x18E3,
      0x1861, 0x168E, 0x121A, 0x1A1F, 0x063B, 0x1161, 0x16BF, 0x02AB, 0x0A9A, 0x0CBB, 0x0A8F,
      0x1B27, 0x0F86, 0x1313, 0x18BF, 0x1007, 0x1613, 0x14BE, 0x1C8E, 0x02AF, 0x15C2, 0x089B,
      0x0EBA, 0x0433, 0x122E, 0x1EAF, 0x1AAF, 0x1140, 0x0EAB, 0x16AE, 0x1C9B, 0x048F, 0x1A0A,
      0x12AE, 0x168F, 0x0283, 0x160B, 0x10A7, 0x1002, 0x1A8E, 0x11C1, 0x1A9F, 0x18AE]"

definition is_enter_world_converted :: "u16 \<Rightarrow> bool" where
  "is_enter_world_converted opcode \<longleftrightarrow>
     opcode \<in> set (enter_world_converted_1 @ enter_world_converted_2 @ enter_world_converted_3)"

definition SMSG_AURA_UPDATE :: u16 where "SMSG_AURA_UPDATE = 0x0072"

text \<open>\<open>SendPacket\<close> with its default \<open>bypassSuppress = false\<close>; statistics and packet dumps are left out.\<close>

definition session_send_packet :: "nat \<Rightarrow> world_packet \<Rightarrow> world \<Rightarrow> world world_result" where
  "session_send_packet p packet w =
     sum_bind (deref p w) (\<lambda>s.
       case ws_link s of
         None \<Rightarrow> Inr w
       | Some l \<Rightarrow>
           if ws_player_loading s \<and> wp_opcode packet = SMSG_AURA_UPDATE then Inr w
           else if ws_suppress_world_sends s \<and> \<not> is_enter_world_converted (wp_opcode packet) then Inr w
           else (case flush_bits packet of
                   Inl e \<Rightarrow> Inl (PacketError e)
                 | Inr packet \<Rightarrow> Inr (link_effect (SendLink l packet) w)))"

definition kick_player :: "nat \<Rightarrow> world \<Rightarrow> world world_result" where
  "kick_player p w =
     sum_bind (deref p w)
       (\<lambda>s. Inr (case ws_link s of None \<Rightarrow> w | Some l \<Rightarrow> close_link l w))"

definition abandon_unpublished_link :: "nat \<Rightarrow> world \<Rightarrow> world world_result" where
  "abandon_unpublished_link p w = sum_bind (deref p w) (\<lambda>s. Inr (store p (s\<lparr>ws_link := None\<rparr>) w))"

definition delete_session :: "nat \<Rightarrow> world \<Rightarrow> world world_result" where
  "delete_session p w =
     sum_bind (kick_player p w) (\<lambda>w. Inr (w\<lparr>wd_heap := om_erase p (wd_heap w)\<rparr>))"

definition new_session :: "world_session \<Rightarrow> world \<Rightarrow> nat \<times> world" where
  "new_session s w =
     (wd_next_address w, store (wd_next_address w) s (w\<lparr>wd_next_address := wd_next_address w + 1\<rparr>))"

section \<open>Counts and limits\<close>

definition get_active_and_queued_session_count :: "world \<Rightarrow> u32" where
  "get_active_and_queued_session_count w = of_nat (length (wd_sessions w))"

definition get_active_session_count :: "world \<Rightarrow> u32" where
  "get_active_session_count w = of_nat (size_minus (length (wd_sessions w)) (length (wd_queued w)))"

definition get_queued_session_count :: "world \<Rightarrow> u32" where
  "get_queued_session_count w = of_nat (length (wd_queued w))"

definition get_player_amount_limit :: "world \<Rightarrow> u32" where
  "get_player_amount_limit w = (if sint (wd_player_limit w) \<ge> 0 then wd_player_limit w else 0)"

definition get_player_security_limit :: "world \<Rightarrow> u32" where
  "get_player_security_limit w = (if sint (wd_player_limit w) \<le> 0 then - wd_player_limit w else 0)"

definition SEC_ADMINISTRATOR :: u32 where "SEC_ADMINISTRATOR = 3"
definition SEC_PLAYER :: u32 where "SEC_PLAYER = 0"

definition set_player_limit :: "32 word \<Rightarrow> world \<Rightarrow> world" where
  "set_player_limit limit w =
     w\<lparr>wd_player_limit := (if sint limit < - sint SEC_ADMINISTRATOR then - SEC_ADMINISTRATOR else limit)\<rparr>"

definition update_max_session_counters :: "world \<Rightarrow> world" where
  "update_max_session_counters w =
     w\<lparr>wd_max_active := max (wd_max_active w) (get_active_session_count w),
       wd_max_queued := max (wd_max_queued w) (get_queued_session_count w)\<rparr>"

section \<open>Finding and removing\<close>

definition find_session :: "u32 \<Rightarrow> world \<Rightarrow> nat option" where
  "find_session account w = om_get (wd_sessions w) account"

definition remove_session :: "u32 \<Rightarrow> world \<Rightarrow> (bool \<times> world) world_result" where
  "remove_session account w =
     (case om_get (wd_sessions w) account of
        None \<Rightarrow> Inr (True, w)
      | Some p \<Rightarrow>
          sum_bind (deref p w) (\<lambda>s.
            if ws_player_loading s then Inr (False, w)
            else sum_bind (kick_player p w) (\<lambda>w. Inr (True, w))))"

section \<open>The login queue\<close>

definition lift_packet :: "bb_error + 'a \<Rightarrow> 'a world_result" where
  "lift_packet m = (case m of Inl e \<Rightarrow> Inl (PacketError e) | Inr x \<Rightarrow> Inr x)"

fun position_from :: "nat \<Rightarrow> nat list \<Rightarrow> u32 \<Rightarrow> u32" where
  "position_from p [] pos = 0"
| "position_from p (q # qs) pos = (if q = p then pos else position_from p qs (pos + 1))"

definition get_queued_session_pos :: "nat \<Rightarrow> world \<Rightarrow> u32" where
  "get_queued_session_pos p w = position_from p (wd_queued w) 1"

definition send_auth_wait_que :: "u32 \<Rightarrow> nat \<Rightarrow> world \<Rightarrow> world world_result" where
  "send_auth_wait_que position p w =
     sum_bind (deref p w) (\<lambda>s.
     sum_bind (lift_packet (build_auth_response_queued position (ws_expansion s) (ucast (wd_expansion w))
                              (world_packet_new 0x1001)))
       (\<lambda>packet. session_send_packet p packet w))"

definition send_cache_version :: "nat \<Rightarrow> world \<Rightarrow> world world_result" where
  "send_cache_version p w =
     sum_bind (lift_packet (put_u32 (wd_cache_version w) (world_packet_new 0x002A)))
       (\<lambda>packet. session_send_packet p packet w)"

definition add_queued_session :: "nat \<Rightarrow> world \<Rightarrow> world world_result" where
  "add_queued_session p w =
     sum_bind (set_in_queue p True w) (\<lambda>w.
       let w = w\<lparr>wd_queued := wd_queued w @ [p]\<rparr>
       in send_auth_wait_que (get_queued_session_pos p w) p w)"

fun send_positions :: "u32 \<Rightarrow> nat list \<Rightarrow> world \<Rightarrow> world world_result" where
  "send_positions pos [] w = Inr w"
| "send_positions pos (p # ps) w =
     sum_bind (send_auth_wait_que pos p w) (\<lambda>w. send_positions (pos + 1) ps w)"

text \<open>The acceptance of the first queued session.\<close>

definition accept_first_queued :: "nat \<Rightarrow> world \<Rightarrow> world world_result" where
  "accept_first_queued pop w =
     chain [set_in_queue pop False, send_auth_wait_que 0 pop, session_effect SendAddonsInfo pop,
            send_cache_version pop, session_effect SendAccountDataTimes pop,
            session_effect SendTutorialsData pop, \<lambda>w. Inr (w\<lparr>wd_queued := tl (wd_queued w)\<rparr>)] w"

definition remove_queued_session :: "nat \<Rightarrow> world \<Rightarrow> (bool \<times> world) world_result" where
  "remove_queued_session p w =
     (let sessions = get_active_session_count w;
          before = takeWhile (\<lambda>q. q \<noteq> p) (wd_queued w);
          found = p \<in> set (wd_queued w)
      in sum_bind (if found then sum_bind (set_in_queue p False w) (\<lambda>w. Inr (w\<lparr>wd_queued := remove1 p (wd_queued w)\<rparr>))
                   else Inr w) (\<lambda>w.
         let iter = length before; position = of_nat iter + 1;
             sessions = (if \<not> found \<and> sessions \<noteq> 0 then sessions - 1 else sessions)
         in if (wd_player_limit w = 0 \<or> sint sessions < sint (wd_player_limit w)) \<and> wd_queued w \<noteq> []
            then sum_bind (accept_first_queued (hd (wd_queued w)) w) (\<lambda>w.
                 sum_bind (send_positions 1 (wd_queued w) w) (\<lambda>w. Inr (found, w)))
            else sum_bind (send_positions position (drop iter (wd_queued w)) w) (\<lambda>w. Inr (found, w))))"

section \<open>Adding\<close>

text \<open>
  \<open>AddSession\<close> takes the queue lock, enqueues and runs the commit callback; \<open>enqueued\<close> tells
  whether \<open>push_back\<close> succeeded. The result tells whether the session was published, which is
  also whether the callback was run.
\<close>

definition add_session :: "bool \<Rightarrow> nat \<Rightarrow> world \<Rightarrow> bool \<times> world" where
  "add_session enqueued p w =
     (if \<not> enqueued then (False, w) else (True, w\<lparr>wd_add_queue := wd_add_queue w @ [p]\<rparr>))"

definition add_session_accept :: "nat \<Rightarrow> world \<Rightarrow> world world_result" where
  "add_session_accept p w =
     sum_bind (deref p w) (\<lambda>s.
     sum_bind (lift_packet (build_auth_response_accepted (ws_expansion s) (ucast (wd_expansion w))
                              (world_packet_new 0x1001))) (\<lambda>packet.
     chain [session_send_packet p packet, session_effect SendAddonsInfo p, send_cache_version p,
            session_effect SendTutorialsData p, \<lambda>w. Inr (update_max_session_counters w)] w))"

definition replace_old_session :: "u32 \<Rightarrow> world \<Rightarrow> (bool \<times> world) world_result" where
  "replace_old_session account w =
     (case om_get (wd_sessions w) account of
        None \<Rightarrow> Inr (True, w)
      | Some old \<Rightarrow>
          sum_bind (remove_queued_session old w) (\<lambda>(found, w).
          sum_bind (delete_session old w) (\<lambda>w. Inr (\<not> found, w))))"

definition add_session_world :: "nat \<Rightarrow> world \<Rightarrow> world world_result" where
  "add_session_world p w =
     sum_bind (deref p w) (\<lambda>s.
     sum_bind (remove_session (ws_account_id s) w) (\<lambda>(removed, w).
       if \<not> removed then sum_bind (kick_player p w) (delete_session p)
       else
         sum_bind (replace_old_session (ws_account_id s) w) (\<lambda>(decrease_session, w).
           let w = w\<lparr>wd_sessions := om_put (ws_account_id s) p (wd_sessions w)\<rparr>;
               sessions = get_active_and_queued_session_count w;
               pLimit = get_player_amount_limit w;
               sessions = (if decrease_session then sessions - 1 else sessions)
           in if pLimit > 0 \<and> sessions \<ge> pLimit \<and> ws_security s = SEC_PLAYER
              then sum_bind (add_queued_session p w) (\<lambda>w. Inr (update_max_session_counters w))
              else add_session_accept p w)))"

section \<open>Updating\<close>

text \<open>
  The end of \<open>WorldSession::Update\<close> when the world runs it: a closed link is dropped, and a
  session without one is to be removed. The packet handlers that run before it are the game.
\<close>

definition session_update_end :: "nat \<Rightarrow> world \<Rightarrow> (bool \<times> world) world_result" where
  "session_update_end p w =
     sum_bind (deref p w) (\<lambda>s.
       let s = (case ws_link s of
                  None \<Rightarrow> s
                | Some l \<Rightarrow> if l \<in> set (wd_closed_links w) then s\<lparr>ws_link := None\<rparr> else s)
       in Inr (ws_link s \<noteq> None, store p s w))"

fun add_sessions :: "nat list \<Rightarrow> world \<Rightarrow> world world_result" where
  "add_sessions [] w = Inr w"
| "add_sessions (p # ps) w = sum_bind (add_session_world p w) (add_sessions ps)"

text \<open>
  The session map is unordered in the code; the model goes through it in the order of the accounts,
  and the lemmas on \<open>update_each\<close> hold for any order of the list.
\<close>

fun update_each :: "(u32 \<times> nat) list \<Rightarrow> world \<Rightarrow> world world_result" where
  "update_each [] w = Inr w"
| "update_each ((account, p) # es) w =
     sum_bind (session_update_end p w) (\<lambda>(alive, w).
       if alive then update_each es w
       else sum_bind (remove_queued_session p w) (\<lambda>(found, w).
            sum_bind (delete_session p (w\<lparr>wd_sessions := om_erase account (wd_sessions w)\<rparr>)) (update_each es)))"

definition update_sessions :: "world \<Rightarrow> world world_result" where
  "update_sessions w =
     sum_bind (add_sessions (wd_add_queue w) w) (\<lambda>w.
       let w = w\<lparr>wd_add_queue := []\<rparr> in update_each (wd_sessions w) w)"

section \<open>The invariant\<close>

text \<open>
  Every session the world refers to is alive and filed under its account; the queue holds
  sessions of the map, each once, and exactly those have the queue flag. The allocator hands
  out fresh addresses.
\<close>

definition world_inv :: "world \<Rightarrow> bool" where
  "world_inv w \<longleftrightarrow>
     om_inv (wd_sessions w) \<and> distinct (wd_queued w) \<and>
     (\<forall>a p. om_get (wd_sessions w) a = Some p \<longrightarrow>
        (\<exists>s. om_get (wd_heap w) p = Some s \<and> ws_account_id s = a)) \<and>
     (\<forall>p \<in> set (wd_queued w). \<exists>a. om_get (wd_sessions w) a = Some p) \<and>
     (\<forall>p s. om_get (wd_heap w) p = Some s \<longrightarrow> (ws_in_queue s \<longleftrightarrow> p \<in> set (wd_queued w))) \<and>
     (\<forall>p s. om_get (wd_heap w) p = Some s \<longrightarrow> p < wd_next_address w)"

text \<open>A session that has been created and not been added yet.\<close>

definition pending :: "nat \<Rightarrow> world \<Rightarrow> bool" where
  "pending p w \<longleftrightarrow> om_get (wd_heap w) p \<noteq> None \<and> (\<forall>a. om_get (wd_sessions w) a \<noteq> Some p)"

section \<open>Effects change nothing else\<close>

lemma deref_Some [simp]: "om_get (wd_heap w) p = Some s \<Longrightarrow> deref p w = Inr s"
  by (simp add: deref_def)

lemma deref_None [simp]: "om_get (wd_heap w) p = None \<Longrightarrow> deref p w = Inl (UseAfterFree p)"
  by (simp add: deref_def)

lemma link_effect_eq: "link_effect e w = w\<lparr>wd_effects := wd_effects w @ [e]\<rparr>"
  by (simp add: link_effect_def)

lemma session_effect_total:
  assumes "om_get (wd_heap w) p = Some s"
  shows "\<exists>es. session_effect f p w = Inr (w\<lparr>wd_effects := es\<rparr>)"
proof (cases "ws_link s")
  case None
  then show ?thesis using assms by (auto simp: session_effect_def intro: exI [of _ "wd_effects w"])
next
  case (Some l)
  then show ?thesis using assms by (auto simp: session_effect_def link_effect_eq)
qed

lemma session_send_packet_total:
  assumes "om_get (wd_heap w) p = Some s" and "aligned packet"
  shows "\<exists>es. session_send_packet p packet w = Inr (w\<lparr>wd_effects := es\<rparr>)"
proof (cases "ws_link s")
  case None
  then show ?thesis using assms by (auto simp: session_send_packet_def intro: exI [of _ "wd_effects w"])
next
  case (Some l)
  have "w = w\<lparr>wd_effects := wd_effects w\<rparr>" by simp
  then have "\<exists>es. w = w\<lparr>wd_effects := es\<rparr>" by (rule exI)
  moreover have "\<exists>es. w\<lparr>wd_effects := fs\<rparr> = w\<lparr>wd_effects := es\<rparr>" for fs by (rule exI) (rule refl)
  ultimately show ?thesis using Some assms
    by (simp add: session_send_packet_def link_effect_eq flush_bits_aligned)
qed

lemma send_auth_wait_que_total:
  assumes "om_get (wd_heap w) p = Some s"
  shows "\<exists>es. send_auth_wait_que pos p w = Inr (w\<lparr>wd_effects := es\<rparr>)"
proof -
  obtain q where "build_auth_response_queued pos (ws_expansion s) (ucast (wd_expansion w)) (world_packet_new 0x1001) = Inr q"
    "aligned q" using build_auth_response_queued_total(1) by blast
  then show ?thesis
    using session_send_packet_total [OF assms] assms by (simp add: send_auth_wait_que_def lift_packet_def)
qed

lemma send_cache_version_total:
  assumes "om_get (wd_heap w) p = Some s"
  shows "\<exists>es. send_cache_version p w = Inr (w\<lparr>wd_effects := es\<rparr>)"
  using session_send_packet_total [OF assms]
  by (simp add: send_cache_version_def lift_packet_def put_aligned)

lemma send_positions_total:
  "(\<forall>p \<in> set ps. om_get (wd_heap w) p \<noteq> None) \<Longrightarrow> \<exists>es. send_positions pos ps w = Inr (w\<lparr>wd_effects := es\<rparr>)"
proof (induction ps arbitrary: pos w)
  case Nil
  then show ?case by (auto intro: exI [of _ "wd_effects w"])
next
  case (Cons p ps)
  then obtain s where "om_get (wd_heap w) p = Some s" by auto
  from send_auth_wait_que_total [OF this, of pos] obtain es where
    e: "send_auth_wait_que pos p w = Inr (w\<lparr>wd_effects := es\<rparr>)" by blast
  have "\<exists>fs. send_positions (pos + 1) ps (w\<lparr>wd_effects := es\<rparr>) = Inr (w\<lparr>wd_effects := es, wd_effects := fs\<rparr>)"
    using Cons.IH [of "w\<lparr>wd_effects := es\<rparr>"] Cons.prems by simp
  with e show ?case by auto
qed

lemma kick_player_total:
  assumes "om_get (wd_heap w) p = Some s"
  shows "\<exists>es cl. kick_player p w = Inr (w\<lparr>wd_effects := es, wd_closed_links := cl\<rparr>)"
proof (cases "ws_link s")
  case None
  then have "kick_player p w = Inr (w\<lparr>wd_effects := wd_effects w, wd_closed_links := wd_closed_links w\<rparr>)"
    using assms by (simp add: kick_player_def)
  then show ?thesis by blast
next
  case (Some l)
  then show ?thesis using assms by (simp add: kick_player_def close_link_def link_effect_eq) blast
qed

lemma accept_first_queued_total:
  assumes "om_get (wd_heap w) p = Some s"
  shows "\<exists>es. accept_first_queued p w =
           Inr (store p (s\<lparr>ws_in_queue := False\<rparr>) w\<lparr>wd_effects := es, wd_queued := tl (wd_queued w)\<rparr>)"
proof -
  let ?s = "s\<lparr>ws_in_queue := False\<rparr>"
  let ?w = "store p ?s w"
  have h: "om_get (wd_heap (?w\<lparr>wd_effects := es\<rparr>)) p = Some ?s" for es
    by (simp add: store_def)
  have "om_get (wd_heap ?w) p = Some ?s" by (simp add: store_def)
  from send_auth_wait_que_total [OF this, of 0]
  obtain e1 where 1: "send_auth_wait_que 0 p ?w = Inr (?w\<lparr>wd_effects := e1\<rparr>)" by blast
  obtain e2 where 2: "session_effect SendAddonsInfo p (?w\<lparr>wd_effects := e1\<rparr>) = Inr (?w\<lparr>wd_effects := e2\<rparr>)"
    using session_effect_total [OF h [of e1], of SendAddonsInfo] by auto
  obtain e3 where 3: "send_cache_version p (?w\<lparr>wd_effects := e2\<rparr>) = Inr (?w\<lparr>wd_effects := e3\<rparr>)"
    using send_cache_version_total [OF h [of e2]] by auto
  obtain e4 where 4: "session_effect SendAccountDataTimes p (?w\<lparr>wd_effects := e3\<rparr>) = Inr (?w\<lparr>wd_effects := e4\<rparr>)"
    using session_effect_total [OF h [of e3], of SendAccountDataTimes] by auto
  obtain e5 where 5: "session_effect SendTutorialsData p (?w\<lparr>wd_effects := e4\<rparr>) = Inr (?w\<lparr>wd_effects := e5\<rparr>)"
    using session_effect_total [OF h [of e4], of SendTutorialsData] by auto
  show ?thesis
    using assms by (simp add: accept_first_queued_def set_in_queue_def 1 2 3 4 5) (auto simp: store_def)
qed

section \<open>What the operations leave alone\<close>

text \<open>
  \<open>same_sessions w w'\<close>: the two worlds have the same session map and the same sessions on the
  heap, up to their queue flags; the add queue and the limit are the same.
\<close>

definition clear_flag :: "world_session \<Rightarrow> world_session" where
  "clear_flag s = s\<lparr>ws_in_queue := False\<rparr>"

definition same_sessions :: "world \<Rightarrow> world \<Rightarrow> bool" where
  "same_sessions w w' \<longleftrightarrow>
     wd_sessions w' = wd_sessions w \<and> wd_add_queue w' = wd_add_queue w \<and>
     wd_player_limit w' = wd_player_limit w \<and> wd_next_address w' = wd_next_address w \<and>
     (\<forall>q. map_option clear_flag (om_get (wd_heap w') q) = map_option clear_flag (om_get (wd_heap w) q))"

definition flags_match :: "world \<Rightarrow> bool" where
  "flags_match w \<longleftrightarrow> (\<forall>p s. om_get (wd_heap w) p = Some s \<longrightarrow> (ws_in_queue s \<longleftrightarrow> p \<in> set (wd_queued w)))"

lemma clear_flag_eq [simp]: "clear_flag (s\<lparr>ws_in_queue := b\<rparr>) = clear_flag s"
  by (simp add: clear_flag_def)

lemma clear_flag_account [simp]: "ws_account_id (clear_flag s) = ws_account_id s"
  by (simp add: clear_flag_def)

lemma clear_flag_cong: "clear_flag s = clear_flag t \<Longrightarrow> ws_account_id s = ws_account_id t"
  by (metis clear_flag_account)

lemma same_sessions_refl: "same_sessions w w"
  by (simp add: same_sessions_def)

lemma same_sessions_trans: "same_sessions u v \<Longrightarrow> same_sessions v w \<Longrightarrow> same_sessions u w"
  by (simp add: same_sessions_def)

lemma same_sessions_heap:
  assumes "same_sessions w w'" and "om_get (wd_heap w) q = Some s"
  shows "\<exists>t. om_get (wd_heap w') q = Some t \<and> clear_flag t = clear_flag s"
proof -
  have "map_option clear_flag (om_get (wd_heap w') q) = Some (clear_flag s)"
    using assms by (auto simp: same_sessions_def)
  then show ?thesis by auto
qed

lemma same_sessions_iff:
  "same_sessions w w' \<Longrightarrow> om_get (wd_heap w') q = None \<longleftrightarrow> om_get (wd_heap w) q = None"
  by (metis (no_types, lifting) map_option_is_None same_sessions_def)

lemma same_sessions_store:
  "om_get (wd_heap w) p = Some s \<Longrightarrow> clear_flag t = clear_flag s \<Longrightarrow> same_sessions w (store p t w)"
  by (simp add: same_sessions_def store_def)

lemma same_sessions_simps [simp]:
  "same_sessions w (w'\<lparr>wd_effects := es\<rparr>) = same_sessions w w'"
  "same_sessions w (w'\<lparr>wd_queued := qs\<rparr>) = same_sessions w w'"
  "same_sessions w (w'\<lparr>wd_closed_links := cl\<rparr>) = same_sessions w w'"
  by (simp_all add: same_sessions_def)

lemma world_inv_split:
  "world_inv w \<longleftrightarrow> om_inv (wd_sessions w) \<and> distinct (wd_queued w) \<and>
     (\<forall>a p. om_get (wd_sessions w) a = Some p \<longrightarrow>
        (\<exists>s. om_get (wd_heap w) p = Some s \<and> ws_account_id s = a)) \<and>
     (\<forall>p \<in> set (wd_queued w). \<exists>a. om_get (wd_sessions w) a = Some p) \<and> flags_match w \<and>
     (\<forall>p s. om_get (wd_heap w) p = Some s \<longrightarrow> p < wd_next_address w)"
  by (simp add: world_inv_def flags_match_def)

lemma world_inv_effects [simp]:
  "world_inv (w\<lparr>wd_effects := es\<rparr>) = world_inv w"
  "world_inv (w\<lparr>wd_closed_links := cl\<rparr>) = world_inv w"
  "world_inv (w\<lparr>wd_add_queue := aq\<rparr>) = world_inv w"
  "world_inv (w\<lparr>wd_max_active := n1\<rparr>) = world_inv w"
  "world_inv (w\<lparr>wd_max_queued := n2\<rparr>) = world_inv w"
  by (simp_all add: world_inv_def)

lemma world_inv_same:
  assumes "world_inv w" and same: "same_sessions w w'" and "flags_match w'"
    and "distinct (wd_queued w')" and "set (wd_queued w') \<subseteq> set (wd_queued w)"
  shows "world_inv w'"
proof -
  have "\<exists>t. om_get (wd_heap w') p = Some t \<and> ws_account_id t = a" if "om_get (wd_sessions w') a = Some p" for a p
  proof -
    from that have "om_get (wd_sessions w) a = Some p" using same by (simp add: same_sessions_def)
    then obtain s where "om_get (wd_heap w) p = Some s" "ws_account_id s = a"
      using assms(1) by (auto simp: world_inv_def)
    with same_sessions_heap [OF same] show ?thesis by (metis clear_flag_cong)
  qed
  moreover have "p < wd_next_address w'" if "om_get (wd_heap w') p = Some s" for p s
  proof -
    from that same_sessions_iff [OF same, of p] obtain t where "om_get (wd_heap w) p = Some t" by auto
    then show ?thesis using assms(1) same by (auto simp: world_inv_def same_sessions_def)
  qed
  moreover have "wd_sessions w' = wd_sessions w" using same by (simp add: same_sessions_def)
  ultimately show ?thesis
    using assms(1,3,4,5) unfolding world_inv_split by auto
qed

lemma flags_match_store:
  assumes "flags_match w" and "om_get (wd_heap w) p = Some s"
    and "\<And>q. q \<in> set qs \<longleftrightarrow> (if q = p then b else q \<in> set (wd_queued w))"
  shows "flags_match (store p (s\<lparr>ws_in_queue := b\<rparr>) w\<lparr>wd_queued := qs\<rparr>)"
  using assms by (auto simp: flags_match_def store_def)

lemma filed_heap: "world_inv w \<Longrightarrow> om_get (wd_sessions w) a = Some p \<Longrightarrow> \<exists>s. om_get (wd_heap w) p = Some s \<and> ws_account_id s = a"
  by (auto simp: world_inv_def)

lemma queued_heap: "world_inv w \<Longrightarrow> p \<in> set (wd_queued w) \<Longrightarrow> \<exists>s. om_get (wd_heap w) p = Some s"
  by (metis filed_heap world_inv_def)

end
