(* ===== verification/WorldQueue.thy ===== *)
theory WorldQueue
  imports WorldSessions
begin

text \<open>
  What the session operations of \<open>WorldSessions\<close> guarantee: no use of a deleted session, the
  invariant of the session map and the login queue, and the order in which the queue is served.
\<close>

section \<open>Removing from the queue\<close>

lemma set_in_queue_false:
  assumes "world_inv w" and "om_get (wd_heap w) p = Some s"
  defines "v \<equiv> store p (s\<lparr>ws_in_queue := False\<rparr>) w\<lparr>wd_queued := remove1 p (wd_queued w)\<rparr>"
  shows "set_in_queue p False w = Inr (store p (s\<lparr>ws_in_queue := False\<rparr>) w)"
    and "world_inv v" and "same_sessions w v" and "p \<notin> set (wd_queued v)"
proof -
  have d: "distinct (wd_queued w)" and f: "flags_match w" using assms(1) by (auto simp: world_inv_split)
  show "set_in_queue p False w = Inr (store p (s\<lparr>ws_in_queue := False\<rparr>) w)"
    using assms(2) by (simp add: set_in_queue_def)
  show same: "same_sessions w v"
    unfolding v_def using assms(2) by (simp add: same_sessions_store)
  have "flags_match v"
    unfolding v_def by (rule flags_match_store [OF f assms(2)]) (use d in auto)
  then show "world_inv v"
    by (intro world_inv_same [OF assms(1) same]) (use d in \<open>auto simp: v_def set_remove1_eq\<close>)
  show "p \<notin> set (wd_queued v)" using d by (simp add: v_def)
qed

text \<open>The search part of \<open>RemoveQueuedSession\<close> and its acceptance and notification part.\<close>

definition unqueue :: "nat \<Rightarrow> world \<Rightarrow> world world_result" where
  "unqueue p w =
     (if p \<in> set (wd_queued w)
      then sum_bind (set_in_queue p False w) (\<lambda>w. Inr (w\<lparr>wd_queued := remove1 p (wd_queued w)\<rparr>))
      else Inr w)"

lemma unqueue_spec:
  assumes "world_inv w"
  shows "\<exists>v. unqueue p w = Inr v \<and> world_inv v \<and> same_sessions w v \<and> wd_queued v = remove1 p (wd_queued w)
    \<and> wd_effects v = wd_effects w"
proof (cases "p \<in> set (wd_queued w)")
  case True
  then obtain s where s: "om_get (wd_heap w) p = Some s" using queued_heap [OF assms] by blast
  have q: "wd_queued (store p t w) = wd_queued w" "wd_effects (store p t w) = wd_effects w" for t
    by (simp_all add: store_def)
  show ?thesis
    using set_in_queue_false [OF assms s] True by (simp add: unqueue_def q)
next
  case False
  then show ?thesis using assms by (simp add: unqueue_def remove1_idem same_sessions_refl)
qed

definition free_slot :: "nat \<Rightarrow> world \<Rightarrow> bool" where
  "free_slot p w \<longleftrightarrow>
     (let sessions = get_active_session_count w;
          sessions = (if p \<notin> set (wd_queued w) \<and> sessions \<noteq> 0 then sessions - 1 else sessions)
      in wd_player_limit w = 0 \<or> sint sessions < sint (wd_player_limit w))"

lemma remove_queued_session_eq:
  assumes "unqueue p w = Inr v" and "wd_queued v = remove1 p (wd_queued w)" and "wd_player_limit v = wd_player_limit w"
  shows "remove_queued_session p w =
    (if free_slot p w \<and> wd_queued v \<noteq> []
     then sum_bind (accept_first_queued (hd (wd_queued v)) v) (\<lambda>v.
          sum_bind (send_positions 1 (wd_queued v) v) (\<lambda>v. Inr (p \<in> set (wd_queued w), v)))
     else sum_bind (send_positions (of_nat (length (takeWhile (\<lambda>q. q \<noteq> p) (wd_queued w))) + 1)
            (drop (length (takeWhile (\<lambda>q. q \<noteq> p) (wd_queued w))) (wd_queued v)) v)
            (\<lambda>v. Inr (p \<in> set (wd_queued w), v)))"
  using assms by (simp add: remove_queued_session_def free_slot_def unqueue_def Let_def)

lemma accept_first_spec:
  assumes "world_inv w" and "wd_queued w = p # qs"
  shows "\<exists>v. accept_first_queued p w = Inr v \<and> world_inv v \<and> same_sessions w v \<and> wd_queued v = qs"
proof -
  obtain s where s: "om_get (wd_heap w) p = Some s" using queued_heap [OF assms(1)] assms(2) by force
  obtain es where "accept_first_queued p w =
      Inr (store p (s\<lparr>ws_in_queue := False\<rparr>) w\<lparr>wd_effects := es, wd_queued := tl (wd_queued w)\<rparr>)"
    using accept_first_queued_total [OF s] by blast
  moreover define u where "u = store p (s\<lparr>ws_in_queue := False\<rparr>) w\<lparr>wd_queued := remove1 p (wd_queued w)\<rparr>"
  moreover have "store p t w\<lparr>wd_effects := es, wd_queued := tl (wd_queued w)\<rparr>
      = store p t w\<lparr>wd_queued := remove1 p (wd_queued w)\<rparr>\<lparr>wd_effects := es\<rparr>" for t
    using assms(2) by simp
  ultimately have "accept_first_queued p w = Inr (u\<lparr>wd_effects := es\<rparr>)" by (simp only:)
  moreover have "world_inv u" "same_sessions w u" "wd_queued u = qs"
    using set_in_queue_false(2,3) [OF assms(1) s] assms(2) by (simp_all add: u_def)
  ultimately show ?thesis by (auto intro!: exI [of _ "u\<lparr>wd_effects := es\<rparr>"])
qed

lemma send_positions_spec:
  assumes "world_inv w" and "set ps \<subseteq> set (wd_queued w)"
  shows "\<exists>es. send_positions pos ps w = Inr (w\<lparr>wd_effects := es\<rparr>)"
proof (rule send_positions_total)
  show "\<forall>p \<in> set ps. om_get (wd_heap w) p \<noteq> None"
    using assms queued_heap by fastforce
qed

lemma remove_queued_session_spec:
  assumes "world_inv w"
  shows "\<exists>v. remove_queued_session p w = Inr (p \<in> set (wd_queued w), v) \<and> world_inv v \<and> same_sessions w v \<and>
    wd_queued v = (if free_slot p w then tl (remove1 p (wd_queued w)) else remove1 p (wd_queued w))"
proof -
  obtain u where u: "unqueue p w = Inr u" "world_inv u" "same_sessions w u" "wd_queued u = remove1 p (wd_queued w)"
    using unqueue_spec [OF assms] by blast
  have l: "wd_player_limit u = wd_player_limit w" using u(3) by (simp add: same_sessions_def)
  note eq = remove_queued_session_eq [OF u(1,4) l]
  show ?thesis
  proof (cases "free_slot p w \<and> wd_queued u \<noteq> []")
    case True
    then obtain q qs where q: "wd_queued u = q # qs" by (cases "wd_queued u") auto
    obtain v where v: "accept_first_queued q u = Inr v" "world_inv v" "same_sessions u v" "wd_queued v = qs"
      using accept_first_spec [OF u(2) q] by blast
    obtain es where "send_positions 1 (wd_queued v) v = Inr (v\<lparr>wd_effects := es\<rparr>)"
      using send_positions_spec [OF v(2) order_refl] by blast
    then show ?thesis
      using True q v u(4) same_sessions_trans [OF u(3) v(3)] by (simp add: eq)
  next
    case False
    let ?i = "length (takeWhile (\<lambda>q. q \<noteq> p) (wd_queued w))"
    obtain es where es: "send_positions (of_nat ?i + 1) (drop ?i (wd_queued u)) u = Inr (u\<lparr>wd_effects := es\<rparr>)"
      using send_positions_spec [OF u(2) set_drop_subset] by blast
    have "remove_queued_session p w = Inr (p \<in> set (wd_queued w), u\<lparr>wd_effects := es\<rparr>)"
      using eq False by (simp only: if_False es sum_bind_simps)
    then show ?thesis
      using False u by auto
  qed
qed

section \<open>Deleting\<close>

lemma pending_same: "same_sessions w v \<Longrightarrow> pending q v = pending q w"
  by (simp add: pending_def same_sessions_iff) (simp add: same_sessions_def)

lemma pending_effects [simp]:
  "pending q (w\<lparr>wd_effects := es\<rparr>) = pending q w"
  "pending q (w\<lparr>wd_closed_links := cl\<rparr>) = pending q w"
  "pending q (w\<lparr>wd_queued := qs\<rparr>) = pending q w"
  "pending q (w\<lparr>wd_max_active := n1\<rparr>) = pending q w"
  "pending q (w\<lparr>wd_max_queued := n2\<rparr>) = pending q w"
  by (simp_all add: pending_def)

lemma delete_session_total:
  assumes "om_get (wd_heap w) p = Some s"
  shows "\<exists>es cl. delete_session p w = Inr (w\<lparr>wd_heap := om_erase p (wd_heap w)\<rparr>\<lparr>wd_effects := es, wd_closed_links := cl\<rparr>)"
proof -
  obtain es cl where "kick_player p w = Inr (w\<lparr>wd_effects := es, wd_closed_links := cl\<rparr>)"
    using kick_player_total [OF assms] by blast
  moreover have "w\<lparr>wd_effects := es, wd_closed_links := cl\<rparr>\<lparr>wd_heap := om_erase p (wd_heap w)\<rparr>
      = w\<lparr>wd_heap := om_erase p (wd_heap w)\<rparr>\<lparr>wd_effects := es, wd_closed_links := cl\<rparr>" by simp
  ultimately have "delete_session p w = Inr (w\<lparr>wd_heap := om_erase p (wd_heap w)\<rparr>\<lparr>wd_effects := es, wd_closed_links := cl\<rparr>)"
    by (simp add: delete_session_def)
  then show ?thesis by blast
qed

lemma pending_not_queued: "world_inv w \<Longrightarrow> pending p w \<Longrightarrow> p \<notin> set (wd_queued w)"
  by (auto simp: world_inv_def pending_def)

lemma world_inv_delete:
  assumes "world_inv w" and "\<And>a. om_get (wd_sessions w) a \<noteq> Some p"
  shows "world_inv (w\<lparr>wd_heap := om_erase p (wd_heap w)\<rparr>)"
  using assms by (fastforce simp: world_inv_def)

lemma world_inv_file:
  assumes inv: "world_inv w" and p: "pending p w" and s: "om_get (wd_heap w) p = Some s"
    and old: "\<And>old. om_get (wd_sessions w) (ws_account_id s) = Some old \<Longrightarrow> old \<notin> set (wd_queued w)"
  shows "world_inv (w\<lparr>wd_sessions := om_put (ws_account_id s) p (wd_sessions w)\<rparr>)"
proof -
  have "\<exists>b. om_get (om_put (ws_account_id s) p (wd_sessions w)) b = Some q" if q: "q \<in> set (wd_queued w)" for q
  proof -
    from q inv obtain b where b: "om_get (wd_sessions w) b = Some q" by (auto simp: world_inv_def)
    then have "b \<noteq> ws_account_id s" using old q by auto
    with b show ?thesis by auto
  qed
  then show ?thesis using inv s by (auto simp: world_inv_def om_inv_put)
qed

lemma world_inv_replace:
  assumes inv: "world_inv w" and p: "pending p w" and s: "om_get (wd_heap w) p = Some s"
    and old: "om_get (wd_sessions w) (ws_account_id s) = Some old" and nq: "old \<notin> set (wd_queued w)"
  shows "world_inv (w\<lparr>wd_sessions := om_put (ws_account_id s) p (wd_sessions w),
                      wd_heap := om_erase old (wd_heap w)\<rparr>)"
proof -
  let ?v = "w\<lparr>wd_sessions := om_put (ws_account_id s) p (wd_sessions w)\<rparr>"
  have "world_inv ?v" using world_inv_file [OF inv p s] old nq by simp
  moreover have "om_get (wd_sessions ?v) b \<noteq> Some old" for b
  proof (cases "b = ws_account_id s")
    case True
    then show ?thesis using p old by (auto simp: pending_def)
  next
    case False
    then show ?thesis using filed_heap [OF inv, of b old] filed_heap [OF inv old] by auto
  qed
  ultimately show ?thesis using world_inv_delete [of ?v old] by simp
qed

section \<open>Joining the queue\<close>

lemma add_queued_session_spec:
  assumes inv: "world_inv w" and f: "om_get (wd_sessions w) a = Some p" and nq: "p \<notin> set (wd_queued w)"
  shows "\<exists>v. add_queued_session p w = Inr v \<and> world_inv v \<and> same_sessions w v \<and> wd_queued v = wd_queued w @ [p]"
proof -
  obtain s where s: "om_get (wd_heap w) p = Some s" using filed_heap [OF inv f] by blast
  define u where "u = store p (s\<lparr>ws_in_queue := True\<rparr>) w\<lparr>wd_queued := wd_queued w @ [p]\<rparr>"
  have same: "same_sessions w u" unfolding u_def using s by (simp add: same_sessions_store)
  have q: "wd_queued u = wd_queued w @ [p]" and h: "om_get (wd_heap u) p = Some (s\<lparr>ws_in_queue := True\<rparr>)"
    by (simp_all add: u_def store_def)
  have fm: "flags_match u"
    unfolding u_def by (rule flags_match_store [OF _ s]) (use inv in \<open>auto simp: world_inv_split\<close>)
  have sh: "wd_sessions u = wd_sessions w" using same by (simp add: same_sessions_def)
  have "\<exists>t. om_get (wd_heap u) r = Some t \<and> ws_account_id t = b" if "om_get (wd_sessions w) b = Some r" for b r
    using filed_heap [OF inv that] same_sessions_heap [OF same] by (metis clear_flag_cong)
  moreover have "r < wd_next_address u" if "om_get (wd_heap u) r = Some t" for r t
    using inv s that by (auto simp: u_def store_def world_inv_def split: if_splits)
  ultimately have inv': "world_inv u"
    using inv f nq fm by (auto simp: world_inv_split q sh)
  obtain es where "send_auth_wait_que (get_queued_session_pos p u) p u = Inr (u\<lparr>wd_effects := es\<rparr>)"
    using send_auth_wait_que_total [OF h] by blast
  then have "add_queued_session p w = Inr (u\<lparr>wd_effects := es\<rparr>)"
    using s by (simp add: add_queued_session_def set_in_queue_def u_def store_def)
  then show ?thesis using inv' same q by auto
qed

lemma add_session_accept_total:
  assumes "om_get (wd_heap w) p = Some s"
  shows "\<exists>es m n. add_session_accept p w = Inr (w\<lparr>wd_effects := es, wd_max_active := m, wd_max_queued := n\<rparr>)"
proof -
  have h: "om_get (wd_heap (w\<lparr>wd_effects := es\<rparr>)) p = Some s" for es using assms by simp
  obtain q where q: "build_auth_response_accepted (ws_expansion s) (ucast (wd_expansion w)) (world_packet_new 0x1001) = Inr q"
    "aligned q" using build_auth_response_queued_total(2) by blast
  obtain e1 where 1: "session_send_packet p q w = Inr (w\<lparr>wd_effects := e1\<rparr>)"
    using session_send_packet_total [OF assms q(2)] by blast
  obtain e2 where 2: "session_effect SendAddonsInfo p (w\<lparr>wd_effects := e1\<rparr>) = Inr (w\<lparr>wd_effects := e2\<rparr>)"
    using session_effect_total [OF h [of e1], of SendAddonsInfo] by auto
  obtain e3 where 3: "send_cache_version p (w\<lparr>wd_effects := e2\<rparr>) = Inr (w\<lparr>wd_effects := e3\<rparr>)"
    using send_cache_version_total [OF h [of e2]] by auto
  obtain e4 where 4: "session_effect SendTutorialsData p (w\<lparr>wd_effects := e3\<rparr>) = Inr (w\<lparr>wd_effects := e4\<rparr>)"
    using session_effect_total [OF h [of e3], of SendTutorialsData] by auto
  show ?thesis
    using assms q by (simp add: add_session_accept_def lift_packet_def 1 2 3 4 update_max_session_counters_def) blast
qed

section \<open>Adding a session\<close>

definition old_loading :: "u32 \<Rightarrow> world \<Rightarrow> bool" where
  "old_loading a w =
     (case om_get (wd_sessions w) a of
        None \<Rightarrow> False
      | Some old \<Rightarrow> (case om_get (wd_heap w) old of None \<Rightarrow> False | Some t \<Rightarrow> ws_player_loading t))"

text \<open>
  \<open>added p w v\<close>: what adding the session \<open>p\<close> does to the map and the heap. While the old session
  of the account is loading its player, the new one is deleted; otherwise the new one takes the
  account's place and the old one is deleted. No other session is touched.
\<close>

definition added :: "nat \<Rightarrow> u32 \<Rightarrow> world \<Rightarrow> world \<Rightarrow> bool" where
  "added p a w v \<longleftrightarrow>
     wd_add_queue v = wd_add_queue w \<and> wd_player_limit v = wd_player_limit w \<and>
     wd_next_address v = wd_next_address w \<and>
     (if old_loading a w
      then wd_sessions v = wd_sessions w \<and> om_get (wd_heap v) p = None
      else wd_sessions v = om_put a p (wd_sessions w) \<and>
           (\<forall>old. om_get (wd_sessions w) a = Some old \<longrightarrow> om_get (wd_heap v) old = None)) \<and>
     (\<forall>q. q \<noteq> p \<longrightarrow> om_get (wd_sessions w) a \<noteq> Some q \<longrightarrow>
        map_option clear_flag (om_get (wd_heap v) q) = map_option clear_flag (om_get (wd_heap w) q))"

lemma remove_session_spec:
  assumes inv: "world_inv w"
  shows "\<exists>es cl. remove_session a w = Inr (\<not> old_loading a w, w\<lparr>wd_effects := es, wd_closed_links := cl\<rparr>)"
proof (cases "om_get (wd_sessions w) a")
  case None
  then have "remove_session a w = Inr (\<not> old_loading a w, w\<lparr>wd_effects := wd_effects w, wd_closed_links := wd_closed_links w\<rparr>)"
    by (simp add: remove_session_def old_loading_def)
  then show ?thesis by blast
next
  case (Some old)
  then obtain s where s: "om_get (wd_heap w) old = Some s" using filed_heap [OF inv] by blast
  show ?thesis
  proof (cases "ws_player_loading s")
    case True
    then have "remove_session a w = Inr (\<not> old_loading a w, w\<lparr>wd_effects := wd_effects w, wd_closed_links := wd_closed_links w\<rparr>)"
      using Some s by (simp add: remove_session_def old_loading_def)
    then show ?thesis by blast
  next
    case False
    then show ?thesis
      using kick_player_total [OF s] Some s
      by (clarsimp simp: remove_session_def old_loading_def) blast
  qed
qed

lemma discard_session:
  assumes inv: "world_inv w" and p: "pending p w"
  shows "\<exists>v. sum_bind (kick_player p w) (delete_session p) = Inr v \<and> world_inv v \<and>
    wd_sessions v = wd_sessions w \<and> wd_add_queue v = wd_add_queue w \<and> wd_player_limit v = wd_player_limit w \<and>
    wd_next_address v = wd_next_address w \<and> wd_queued v = wd_queued w \<and> wd_heap v = om_erase p (wd_heap w)"
proof -
  obtain s where s: "om_get (wd_heap w) p = Some s" using p by (auto simp: pending_def)
  obtain es cl where k: "kick_player p w = Inr (w\<lparr>wd_effects := es, wd_closed_links := cl\<rparr>)"
    using kick_player_total [OF s] by blast
  have "om_get (wd_heap (w\<lparr>wd_effects := es, wd_closed_links := cl\<rparr>)) p = Some s" using s by simp
  from delete_session_total [OF this] obtain es' cl' where
    d: "delete_session p (w\<lparr>wd_effects := es, wd_closed_links := cl\<rparr>) =
      Inr (w\<lparr>wd_effects := es, wd_closed_links := cl\<rparr>\<lparr>wd_heap := om_erase p (wd_heap w)\<rparr>
             \<lparr>wd_effects := es', wd_closed_links := cl'\<rparr>)" by auto
  have "world_inv (w\<lparr>wd_effects := es, wd_closed_links := cl\<rparr>\<lparr>wd_heap := om_erase p (wd_heap w)\<rparr>)"
    using world_inv_delete [of "w\<lparr>wd_effects := es, wd_closed_links := cl\<rparr>" p] inv p
    by (simp add: pending_def)
  moreover have "world_inv (w\<lparr>wd_heap := om_erase p (wd_heap w)\<rparr>)"
    by (rule world_inv_delete [OF inv]) (use p in \<open>auto simp: pending_def\<close>)
  ultimately show ?thesis using k d by auto
qed

text \<open>Freeing the place of the account: the old session leaves the queue and is deleted.\<close>

lemma replace_old_session_spec:
  assumes inv: "world_inv w" and p: "pending p w" and s: "om_get (wd_heap w) p = Some s"
  defines "a \<equiv> ws_account_id s"
  shows "\<exists>d v. replace_old_session a w = Inr (d, v) \<and>
    world_inv (v\<lparr>wd_sessions := om_put a p (wd_sessions v)\<rparr>) \<and> p \<notin> set (wd_queued v) \<and>
    wd_sessions v = wd_sessions w \<and> wd_add_queue v = wd_add_queue w \<and> wd_player_limit v = wd_player_limit w \<and>
    wd_next_address v = wd_next_address w \<and>
    (\<forall>old. om_get (wd_sessions w) a = Some old \<longrightarrow> om_get (wd_heap v) old = None) \<and>
    (\<forall>q. om_get (wd_sessions w) a \<noteq> Some q \<longrightarrow>
        map_option clear_flag (om_get (wd_heap v) q) = map_option clear_flag (om_get (wd_heap w) q))"
proof (cases "om_get (wd_sessions w) a")
  case None
  then show ?thesis
    using world_inv_file [OF inv p s] pending_not_queued [OF inv p]
    by (auto simp: replace_old_session_def a_def)
next
  case (Some old)
  obtain u where u: "remove_queued_session old w = Inr (old \<in> set (wd_queued w), u)" "world_inv u"
      "same_sessions w u"
      and q: "wd_queued u = (if free_slot old w then tl (remove1 old (wd_queued w)) else remove1 old (wd_queued w))"
    using remove_queued_session_spec [OF inv, of old] by blast
  have sh: "wd_sessions u = wd_sessions w" "wd_add_queue u = wd_add_queue w" "wd_player_limit u = wd_player_limit w"
    using u(3) by (simp_all add: same_sessions_def)
  have d: "distinct (wd_queued w)" using inv by (simp add: world_inv_def)
  have nq: "old \<notin> set (wd_queued u)"
  proof -
    have "old \<notin> set (remove1 old (wd_queued w))" using d by simp
    then show ?thesis by (cases "remove1 old (wd_queued w)") (auto simp: q)
  qed
  obtain t where t: "om_get (wd_heap u) old = Some t" using filed_heap [OF u(2)] Some sh(1) by metis
  obtain es cl where del: "delete_session old u = Inr (u\<lparr>wd_heap := om_erase old (wd_heap u)\<rparr>\<lparr>wd_effects := es, wd_closed_links := cl\<rparr>)"
    using delete_session_total [OF t] by blast
  obtain s' where s': "om_get (wd_heap u) p = Some s'" "ws_account_id s' = a"
    using same_sessions_heap [OF u(3) s] unfolding a_def by (metis clear_flag_cong)
  have pu: "pending p u" using p by (simp add: pending_same [OF u(3)])
  have "world_inv (u\<lparr>wd_sessions := om_put a p (wd_sessions u), wd_heap := om_erase old (wd_heap u)\<rparr>)"
    using world_inv_replace [OF u(2) pu s'(1)] Some nq s'(2) sh(1) by simp
  moreover define x where "x = u\<lparr>wd_heap := om_erase old (wd_heap u)\<rparr>\<lparr>wd_effects := es, wd_closed_links := cl\<rparr>"
  moreover have "x\<lparr>wd_sessions := om_put a p (wd_sessions x)\<rparr> =
      u\<lparr>wd_sessions := om_put a p (wd_sessions u), wd_heap := om_erase old (wd_heap u)\<rparr>\<lparr>wd_effects := es, wd_closed_links := cl\<rparr>"
    by (simp add: x_def)
  ultimately have "world_inv (x\<lparr>wd_sessions := om_put a p (wd_sessions x)\<rparr>)"
    by (simp only: world_inv_effects)
  moreover have "replace_old_session a w = Inr (old \<notin> set (wd_queued w), x)"
    using u(1) del Some by (simp add: replace_old_session_def x_def)
  ultimately show ?thesis
    using Some sh pending_not_queued [OF u(2) pu] u(3)
    by (auto simp: x_def same_sessions_def)
qed

lemma pending_keep:
  assumes "pending q w" and "map_option clear_flag (om_get (wd_heap v) q) = map_option clear_flag (om_get (wd_heap w) q)"
    and "\<And>b. om_get (wd_sessions v) b = Some q \<Longrightarrow> om_get (wd_sessions w) b = Some q"
  shows "pending q v"
  using assms unfolding pending_def by (metis option.map_disc_iff)

lemma add_session_world_spec:
  assumes inv: "world_inv w" and p: "pending p w" and s: "om_get (wd_heap w) p = Some s"
  shows "\<exists>v. add_session_world p w = Inr v \<and> world_inv v \<and> added p (ws_account_id s) w v"
proof -
  let ?a = "ws_account_id s"
  obtain es cl where r: "remove_session ?a w = Inr (\<not> old_loading ?a w, w\<lparr>wd_effects := es, wd_closed_links := cl\<rparr>)"
    using remove_session_spec [OF inv] by blast
  define u where "u = w\<lparr>wd_effects := es, wd_closed_links := cl\<rparr>"
  have u: "world_inv u" "pending p u" "om_get (wd_heap u) p = Some s" "wd_sessions u = wd_sessions w"
    "wd_heap u = wd_heap w" "wd_add_queue u = wd_add_queue w" "wd_player_limit u = wd_player_limit w" "wd_next_address u = wd_next_address w"
    using inv p s by (simp_all add: u_def)
  show ?thesis
  proof (cases "old_loading ?a w")
    case True
    obtain v where v: "sum_bind (kick_player p u) (delete_session p) = Inr v" "world_inv v"
      "wd_sessions v = wd_sessions u" "wd_add_queue v = wd_add_queue u" "wd_player_limit v = wd_player_limit u"
      "wd_next_address v = wd_next_address u" "wd_heap v = om_erase p (wd_heap u)"
      using discard_session [OF u(1,2)] by blast
    then have "add_session_world p w = Inr v" using s r True by (simp add: add_session_world_def u_def)
    then show ?thesis using v u True by (auto simp: added_def)
  next
    case False
    obtain d x where x: "replace_old_session ?a u = Inr (d, x)"
      "world_inv (x\<lparr>wd_sessions := om_put ?a p (wd_sessions x)\<rparr>)" "p \<notin> set (wd_queued x)"
      "wd_sessions x = wd_sessions u" "wd_add_queue x = wd_add_queue u" "wd_player_limit x = wd_player_limit u"
      "wd_next_address x = wd_next_address u" "\<forall>old. om_get (wd_sessions u) ?a = Some old \<longrightarrow> om_get (wd_heap x) old = None"
      "\<forall>q. om_get (wd_sessions u) ?a \<noteq> Some q \<longrightarrow>
        map_option clear_flag (om_get (wd_heap x) q) = map_option clear_flag (om_get (wd_heap u) q)"
      using replace_old_session_spec [OF u(1-3)] by blast
    define y where "y = x\<lparr>wd_sessions := om_put ?a p (wd_sessions x)\<rparr>"
    have y: "world_inv y" "om_get (wd_sessions y) ?a = Some p" "p \<notin> set (wd_queued y)"
      using x(2,3) by (simp_all add: y_def)
    have ay: "added p ?a w y"
      using x u False by (auto simp: added_def y_def)
    have ext: "added p ?a w v" if "same_sessions y v" for v
      using ay that False by (auto simp: added_def same_sessions_def) (metis option.map_disc_iff)+
    have go: "add_session_world p w =
       (let sessions = get_active_and_queued_session_count y; sessions = (if d then sessions - 1 else sessions);
            pLimit = get_player_amount_limit y
        in if pLimit > 0 \<and> sessions \<ge> pLimit \<and> ws_security s = SEC_PLAYER
           then sum_bind (add_queued_session p y) (\<lambda>w. Inr (update_max_session_counters w))
           else add_session_accept p y)"
      using s r False x(1) by (simp add: add_session_world_def u_def [symmetric] y_def Let_def)
    show ?thesis
    proof (cases "get_player_amount_limit y > 0 \<and>
        (if d then get_active_and_queued_session_count y - 1 else get_active_and_queued_session_count y)
          \<ge> get_player_amount_limit y \<and> ws_security s = SEC_PLAYER")
      case True
      obtain v where v: "add_queued_session p y = Inr v" "world_inv v" "same_sessions y v"
        using add_queued_session_spec [OF y] by blast
      have "add_session_world p w = Inr (update_max_session_counters v)"
        using go True v(1) by (simp add: Let_def)
      moreover have "same_sessions y (update_max_session_counters v)" "world_inv (update_max_session_counters v)"
        using v(2,3) by (simp_all add: update_max_session_counters_def same_sessions_def)
      ultimately show ?thesis using ext by blast
    next
      case accept: False
      obtain t where "om_get (wd_heap y) p = Some t" using filed_heap [OF y(1,2)] by blast
      then obtain es' m n where acc: "add_session_accept p y = Inr (y\<lparr>wd_effects := es', wd_max_active := m, wd_max_queued := n\<rparr>)"
        using add_session_accept_total by blast
      have "add_session_world p w = Inr (y\<lparr>wd_effects := es', wd_max_active := m, wd_max_queued := n\<rparr>)"
        using go accept acc by (auto simp: Let_def)
      moreover have "same_sessions y (y\<lparr>wd_effects := es', wd_max_active := m, wd_max_queued := n\<rparr>)"
        by (simp add: same_sessions_def)
      ultimately show ?thesis using ext y(1) by auto
    qed
  qed
qed

section \<open>The tick of the world\<close>

text \<open>
  Deleted addresses stay deleted. The sessions waiting to be added are live, each once, and not
  in the map yet.
\<close>

definition deleted_stay :: "world \<Rightarrow> world \<Rightarrow> bool" where
  "deleted_stay w v \<longleftrightarrow> (\<forall>q. om_get (wd_heap w) q = None \<longrightarrow> om_get (wd_heap v) q = None)"

definition world_ok :: "world \<Rightarrow> bool" where
  "world_ok w \<longleftrightarrow> world_inv w \<and> distinct (wd_add_queue w) \<and> (\<forall>p \<in> set (wd_add_queue w). pending p w)"

lemma added_pending:
  assumes inv: "world_inv w" and a: "added p a w v" and q: "pending q w" and "q \<noteq> p"
  shows "pending q v"
proof -
  have nq: "om_get (wd_sessions w) b \<noteq> Some q" for b using q by (simp add: pending_def)
  have sess: "om_get (wd_sessions v) b \<noteq> Some q" for b
    using a nq [of b] \<open>q \<noteq> p\<close> by (auto simp: added_def split: if_splits)
  have "map_option clear_flag (om_get (wd_heap v) q) = map_option clear_flag (om_get (wd_heap w) q)"
    using a nq [of a] \<open>q \<noteq> p\<close> by (simp add: added_def)
  then show ?thesis using pending_keep [OF q] sess by blast
qed

lemma add_sessions_spec:
  "world_inv w \<Longrightarrow> distinct ps \<Longrightarrow> (\<forall>p \<in> set ps. pending p w) \<Longrightarrow>
     \<exists>v. add_sessions ps w = Inr v \<and> world_inv v \<and> wd_add_queue v = wd_add_queue w \<and> wd_player_limit v = wd_player_limit w"
proof (induction ps arbitrary: w)
  case Nil
  then show ?case by simp
next
  case (Cons p ps)
  then obtain s where s: "om_get (wd_heap w) p = Some s" by (auto simp: pending_def)
  have p: "pending p w" using Cons.prems by simp
  obtain v where v: "add_session_world p w = Inr v" "world_inv v" "added p (ws_account_id s) w v"
    using add_session_world_spec [OF Cons.prems(1) p s] by blast
  have "\<forall>q \<in> set ps. pending q v"
    using added_pending [OF Cons.prems(1) v(3)] Cons.prems(2,3) by (metis distinct.simps(2) list.set_intros(2))
  from Cons.IH [OF v(2) _ this] Cons.prems(2) v show ?case by (auto simp: added_def)
qed

lemma session_update_end_spec:
  assumes inv: "world_inv w" and s: "om_get (wd_heap w) p = Some s"
  shows "\<exists>b v. session_update_end p w = Inr (b, v) \<and> world_inv v \<and> wd_sessions v = wd_sessions w
    \<and> wd_add_queue v = wd_add_queue w \<and> deleted_stay w v"
proof -
  have keep: "world_inv (store p t w)" if "ws_account_id t = ws_account_id s" "ws_in_queue t = ws_in_queue s" for t
  proof -
    have "ws_account_id s = a" if "om_get (wd_sessions w) a = Some p" for a
      using filed_heap [OF inv that] s by simp
    then show ?thesis using inv s that by (auto simp: world_inv_def store_def)
  qed
  show ?thesis
  proof (cases "ws_link s")
    case None
    then show ?thesis using s keep [of s] by (auto simp: session_update_end_def store_def deleted_stay_def)
  next
    case (Some l)
    then show ?thesis
      using s keep [of s] keep [of "s\<lparr>ws_link := None\<rparr>"] by (auto simp: session_update_end_def store_def deleted_stay_def)
  qed
qed

lemma update_each_spec:
  "world_inv w \<Longrightarrow> distinct (map fst es) \<Longrightarrow> (\<forall>(a, p) \<in> set es. om_get (wd_sessions w) a = Some p) \<Longrightarrow>
     \<exists>v. update_each es w = Inr v \<and> world_inv v \<and> wd_add_queue v = wd_add_queue w \<and> deleted_stay w v"
proof (induction es arbitrary: w)
  case Nil
  then show ?case by (simp add: deleted_stay_def)
next
  case (Cons e es)
  obtain a p where e: "e = (a, p)" by fastforce
  then have f: "om_get (wd_sessions w) a = Some p" using Cons.prems(3) by simp
  then obtain s where s: "om_get (wd_heap w) p = Some s" using filed_heap [OF Cons.prems(1)] by blast
  obtain b u where u: "session_update_end p w = Inr (b, u)" "world_inv u" "wd_sessions u = wd_sessions w"
    "wd_add_queue u = wd_add_queue w" "deleted_stay w u" using session_update_end_spec [OF Cons.prems(1) s] by blast
  show ?case
  proof (cases b)
    case True
    have "\<exists>v. update_each es u = Inr v \<and> world_inv v \<and> wd_add_queue v = wd_add_queue u \<and> deleted_stay u v"
      by (rule Cons.IH) (use u Cons.prems in auto)
    then show ?thesis using True u e by (auto simp: deleted_stay_def)
  next
    case False
    obtain x where x: "remove_queued_session p u = Inr (p \<in> set (wd_queued u), x)" "world_inv x" "same_sessions u x"
      and q: "wd_queued x = (if free_slot p u then tl (remove1 p (wd_queued u)) else remove1 p (wd_queued u))"
      using remove_queued_session_spec [OF u(2), of p] by blast
    have sx: "wd_sessions x = wd_sessions w" "wd_add_queue x = wd_add_queue w"
      using x(3) u by (simp_all add: same_sessions_def)
    have nq: "p \<notin> set (wd_queued x)"
    proof -
      have "p \<notin> set (remove1 p (wd_queued u))" using u(2) by (simp add: world_inv_def)
      then show ?thesis by (cases "remove1 p (wd_queued u)") (auto simp: q)
    qed
    obtain t where t: "om_get (wd_heap x) p = Some t" "ws_account_id t = a"
      using filed_heap [OF x(2)] f sx(1) by metis
    define y where "y = x\<lparr>wd_sessions := om_erase a (wd_sessions x)\<rparr>"
    have iy: "world_inv (y\<lparr>wd_heap := om_erase p (wd_heap y)\<rparr>)"
    proof (rule world_inv_delete)
      have "\<exists>b. om_get (wd_sessions y) b = Some r" if r: "r \<in> set (wd_queued x)" for r
      proof -
        from r x(2) obtain b where b: "om_get (wd_sessions x) b = Some r" by (auto simp: world_inv_def)
        have "b \<noteq> a" using b f sx(1) nq r by auto
        then show ?thesis using b by (auto simp: y_def)
      qed
      then show "world_inv y" using x(2) by (auto simp: world_inv_def y_def om_inv_erase)
      show "om_get (wd_sessions y) b \<noteq> Some p" for b
        using filed_heap [OF x(2), of b p] t by (auto simp: y_def)
    qed
    have "om_get (wd_heap y) p = Some t" using t by (simp add: y_def)
    then obtain es' cl where d: "delete_session p y = Inr (y\<lparr>wd_heap := om_erase p (wd_heap y)\<rparr>\<lparr>wd_effects := es', wd_closed_links := cl\<rparr>)"
      using delete_session_total by blast
    let ?z = "y\<lparr>wd_heap := om_erase p (wd_heap y)\<rparr>\<lparr>wd_effects := es', wd_closed_links := cl\<rparr>"
    have "\<exists>v. update_each es ?z = Inr v \<and> world_inv v \<and> wd_add_queue v = wd_add_queue ?z \<and> deleted_stay ?z v"
    proof (rule Cons.IH)
      show "\<forall>(b, r) \<in> set es. om_get (wd_sessions ?z) b = Some r"
        using Cons.prems(2,3) sx(1) e by (force simp: y_def)
    qed (use iy Cons.prems(2) in auto)
    moreover have "deleted_stay w ?z"
      using u(5) same_sessions_iff [OF x(3)] by (simp add: deleted_stay_def y_def)
    ultimately show ?thesis using False u x d e sx by (auto simp: y_def deleted_stay_def)
  qed
qed

lemma update_sessions_spec:
  assumes "world_ok w"
  shows "\<exists>u v. add_sessions (wd_add_queue w) w = Inr u \<and> update_sessions w = Inr v \<and> world_ok v \<and>
    wd_add_queue v = [] \<and> deleted_stay u v"
proof -
  obtain u where u: "add_sessions (wd_add_queue w) w = Inr u" "world_inv u"
    using add_sessions_spec assms unfolding world_ok_def by blast
  let ?u = "u\<lparr>wd_add_queue := []\<rparr>"
  have m: "om_inv (wd_sessions u)" using u(2) by (simp add: world_inv_def)
  then have "distinct (map fst (wd_sessions ?u))"
    by (simp add: om_inv_def strict_sorted_iff)
  moreover have "\<forall>(a, p) \<in> set (wd_sessions ?u). om_get (wd_sessions ?u) a = Some p"
    using calculation by (auto simp: om_get_def)
  ultimately obtain v where "update_each (wd_sessions ?u) ?u = Inr v" "world_inv v" "wd_add_queue v = []"
      "deleted_stay ?u v"
    using update_each_spec [of ?u] u(2) by auto
  then show ?thesis using u(1) by (auto simp: update_sessions_def Let_def world_ok_def deleted_stay_def)
qed

section \<open>Concrete worlds\<close>

definition demo_session :: "u32 \<Rightarrow> nat \<Rightarrow> world_session" where
  "demo_session account link = world_session_new account (Some link) SEC_PLAYER 4 0 0 []"

text \<open>Accounts 5 and 6 are queued behind account 4; account 5 logs in again, from link 13.\<close>

definition demo_world :: world where
  "demo_world =
     \<lparr>wd_heap = [(0, demo_session 4 10), (1, demo_session 5 11\<lparr>ws_in_queue := True\<rparr>),
                 (2, demo_session 6 12\<lparr>ws_in_queue := True\<rparr>), (3, demo_session 5 13)],
      wd_next_address = 4, wd_sessions = [(4, 0), (5, 1), (6, 2)], wd_queued = [1, 2], wd_add_queue = [3],
      wd_player_limit = 1, wd_max_active = 0, wd_max_queued = 0, wd_expansion = 4, wd_cache_version = 0,
      wd_max_overspeed_pings = 2, wd_closed_links = [], wd_effects = []\<rparr>"

lemma demo_session_simps [simp]:
  "ws_account_id (demo_session a l) = a" "ws_in_queue (demo_session a l) = False"
  "ws_player_loading (demo_session a l) = False"
  by (simp_all add: demo_session_def world_session_new_def)

lemma demo_world_ok: "world_ok demo_world"
  by (auto simp: world_ok_def world_inv_def pending_def demo_world_def om_get_def om_inv_def split: if_splits)
     (rule exI [of _ 5], simp)

section \<open>Properties\<close>

text \<open>
  C25: The tick of the world is memory safe. From a well formed world, adding every waiting session
  and updating every session never uses a deleted session: it returns, with the invariant intact
  (every filed session is alive and filed under its account, the queue holds filed sessions once
  each, the queue flags agree with the queue) and no session left waiting.
\<close>

theorem update_sessions_safe:
  assumes "world_ok w"
  shows "\<exists>v. update_sessions w = Inr v \<and> world_ok v \<and> wd_add_queue v = []"
  using update_sessions_spec [OF assms] by blast

theorem update_sessions_safe_witness:
  "\<exists>v. update_sessions demo_world = Inr v \<and> world_ok v \<and> wd_add_queue v = []"
  by (rule update_sessions_safe [OF demo_world_ok])

text \<open>
  One session per account. Adding a session whose account has an old session that is still
  loading its player deletes the new one and changes no entry of the map; otherwise the new one
  takes the account's entry and the old one is deleted, whether it was queued or not. No other
  session changes, up to queue flags.
\<close>

theorem add_session_replaces:
  assumes "world_inv w" and "pending p w" and "om_get (wd_heap w) p = Some s"
  shows "\<exists>v. add_session_world p w = Inr v \<and> world_inv v \<and> added p (ws_account_id s) w v"
  by (rule add_session_world_spec [OF assms])

theorem add_session_replaces_witness:
  "\<exists>v. add_session_world 3 demo_world = Inr v \<and> om_get (wd_sessions v) 5 = Some 3 \<and> om_get (wd_heap v) 1 = None"
proof -
  have w: "world_inv demo_world" "pending 3 demo_world"
    using demo_world_ok by (simp_all add: world_ok_def demo_world_def)
  have h: "om_get (wd_heap demo_world) 3 = Some (demo_session 5 13)"
    by (simp add: demo_world_def om_get_def)
  have "\<not> old_loading 5 demo_world" "om_get (wd_sessions demo_world) 5 = Some 1"
    by (simp_all add: old_loading_def demo_world_def om_get_def)
  then show ?thesis
    using add_session_replaces [OF w h] by (auto simp: added_def)
qed

text \<open>
  C28: The login queue is first in, first out. Leaving keeps the order of the others, and when the
  departure leaves a free slot exactly the head of what remains is let in; everybody else stays.
\<close>

theorem login_queue_fifo:
  assumes "world_inv w"
  shows "\<exists>v. remove_queued_session p w = Inr (p \<in> set (wd_queued w), v) \<and> world_inv v \<and>
    wd_queued v = (if free_slot p w then tl (remove1 p (wd_queued w)) else remove1 p (wd_queued w))"
  using remove_queued_session_spec [OF assms] by blast

theorem login_queue_fifo_witness:
  "\<exists>v. remove_queued_session 0 demo_world = Inr (False, v) \<and> wd_queued v = [2]"
proof -
  have w: "world_inv demo_world" using demo_world_ok by (simp add: world_ok_def)
  have "free_slot 0 demo_world"
    by (simp add: free_slot_def demo_world_def get_active_session_count_def)
  moreover have "wd_queued demo_world = [1, 2]" by (simp add: demo_world_def)
  ultimately show ?thesis using login_queue_fifo [OF w, of 0] by auto
qed

end
