(* ===== verification/WorldGateway.thy ===== *)
theory WorldGateway
  imports ConnectionSafety WorldQueue
begin

text \<open>
  The world's side of the protocol seam, \<open>src/src/game/Server/WorldGateway.cpp\<close>. The account
  table, the ban tables and the loads of a session are parameters (\<open>gateway_env\<close>): what the
  database answers and whether the loads and the queue insertion throw. The registry
  \<open>m_sessions\<close> maps handles to session addresses of \<open>WorldSessions\<close>; an operation that uses a
  deleted session records the fault in \<open>gs_fault\<close>. \<open>link\<close> is the connection that calls.
\<close>

section \<open>State\<close>

record account_row =
  ar_id :: u32
  ar_security :: u32
  ar_expansion :: u8
  ar_mute_time :: u64
  ar_locale :: u8
  ar_session_key :: "u8 list"

record db_account =
  db_id :: u32
  db_gmlevel :: u16
  db_sessionkey :: "u8 list option"
  db_last_ip :: "u8 list"
  db_locked :: u8
  db_expansion :: u8
  db_mutetime :: u64
  db_locale :: u8

record gw_state =
  gs_world :: world
  gs_next_id :: u32
  gs_sessions :: "(u32, nat) omap"
  gs_fault :: "world_error option"

record 'b gateway_env =
  ge_bn :: "'b bn_lib"
  ge_account :: "u8 list \<Rightarrow> db_account option"
  ge_banned :: "u32 \<Rightarrow> u8 list \<Rightarrow> bool"
  ge_session_loads :: "account_row \<Rightarrow> u8 list \<Rightarrow> bool"
  ge_enqueued :: "gw_state \<Rightarrow> bool"

definition account_row_new :: account_row where
  "account_row_new =
     \<lparr>ar_id = 0, ar_security = SEC_PLAYER, ar_expansion = 0, ar_mute_time = 0, ar_locale = 0,
      ar_session_key = replicate 40 0\<rparr>"

definition gw_state_new :: "world \<Rightarrow> gw_state" where
  "gw_state_new w = \<lparr>gs_world = w, gs_next_id = 1, gs_sessions = [], gs_fault = None\<rparr>"

text \<open>
  A use of a deleted session is undefined in the code. The model records the first one in \<open>gs_fault\<close>
  and goes on with the world unchanged, so what it says of a run ends at the fault.
\<close>

definition run_world :: "world world_result \<Rightarrow> gw_state \<Rightarrow> gw_state" where
  "run_world m g =
     (case m of
        Inl e \<Rightarrow> g\<lparr>gs_fault := (case gs_fault g of None \<Rightarrow> Some e | Some f \<Rightarrow> Some f)\<rparr>
      | Inr w \<Rightarrow> g\<lparr>gs_world := w\<rparr>)"

definition gateway_find :: "u32 \<Rightarrow> gw_state \<Rightarrow> nat option" where
  "gateway_find sid g = om_get (gs_sessions g) sid"

section \<open>LookupAccount\<close>

definition EXPECTED_MANGOSD_WIRE_BUILD :: "32 word list" where
  "EXPECTED_MANGOSD_WIRE_BUILD = [18414, 0]"

fun build_in_list :: "u32 \<Rightarrow> u32 list \<Rightarrow> bool" where
  "build_in_list build [] = False"
| "build_in_list build (v # vs) = (if v = 0 then False else if build = v then True else build_in_list build vs)"

definition is_acceptable_client_wire_build :: "u32 \<Rightarrow> bool" where
  "is_acceptable_client_wire_build build = build_in_list build EXPECTED_MANGOSD_WIRE_BUILD"

definition MAX_LOCALE :: u8 where "MAX_LOCALE = 12"

definition refuse :: "auth_status \<Rightarrow> account_row auth_lookup" where
  "refuse status = auth_lookup_new\<lparr>lookup_status := status\<rparr>"

definition row_of :: "u32 \<Rightarrow> db_account \<Rightarrow> u8 list \<Rightarrow> account_row" where
  "row_of expansion db key =
     \<lparr>ar_id = db_id db,
      ar_security = (if ucast (db_gmlevel db) > SEC_ADMINISTRATOR then SEC_ADMINISTRATOR else ucast (db_gmlevel db)),
      ar_expansion = ucast (min expansion (ucast (db_expansion db))),
      ar_mute_time = db_mutetime db,
      ar_locale = (if db_locale db \<ge> MAX_LOCALE then 0 else db_locale db),
      ar_session_key = key\<rparr>"

definition lookup_account :: "'b gateway_env \<Rightarrow> auth_request \<Rightarrow> gw_state \<Rightarrow> account_row auth_lookup" where
  "lookup_account E req g =
     (if \<not> is_acceptable_client_wire_build (ucast (as_built_number_client (req_fields req)))
      then refuse AuthVersionMismatch
      else case ge_account E (as_account (req_fields req)) of
        None \<Rightarrow> refuse AuthUnknownAccount
      | Some db \<Rightarrow>
          (case session_key_from_hex (ge_bn E) (db_sessionkey db) (ar_session_key account_row_new) of
             (ok, key) \<Rightarrow>
               if \<not> ok then refuse AuthSessionExpired
               else
                 let row = row_of (wd_expansion (gs_world g)) db key;
                     allowed = get_player_security_limit (gs_world g)
                 in if db_locked db = 1 \<and> db_last_ip db \<noteq> req_peer_address req then refuse AuthFailed
                    else if ge_banned E (ar_id row) (req_peer_address req) then refuse AuthBanned
                    else if allowed > SEC_PLAYER \<and> ar_security row < allowed then refuse AuthUnavailable
                    else auth_lookup_new\<lparr>lookup_status := AuthOk, lookup_session_key := ar_session_key row,
                                        lookup_context := Some row\<rparr>))"

section \<open>Attach and Detach\<close>

definition discard_unpublished :: "nat \<Rightarrow> world \<Rightarrow> world world_result" where
  "discard_unpublished p w = sum_bind (abandon_unpublished_link p w) (delete_session p)"

definition gateway_attach ::
  "'b gateway_env \<Rightarrow> nat \<Rightarrow> auth_request \<Rightarrow> account_row option \<Rightarrow> gw_state \<Rightarrow> u32 \<times> bool \<times> gw_state" where
  "gateway_attach E link req ctx g =
     (case ctx of
        None \<Rightarrow> (INVALID_SESSION_ID, False, g)
      | Some row \<Rightarrow>
          (case new_session (world_session_new (ar_id row) (Some link) (ar_security row) (ar_expansion row)
                               (ar_mute_time row) (ar_locale row) (ar_session_key row)) (gs_world g) of
             (p, w) \<Rightarrow>
               if \<not> ge_session_loads E row (as_addon_data (req_fields req))
               then (INVALID_SESSION_ID, False, run_world (discard_unpublished p w) g)
               else case add_session (ge_enqueued E g) p w of
                      (False, w) \<Rightarrow> (INVALID_SESSION_ID, False, run_world (discard_unpublished p w) g)
                    | (True, w) \<Rightarrow>
                        (gs_next_id g, True,
                         g\<lparr>gs_world := w, gs_sessions := om_put (gs_next_id g) p (gs_sessions g),
                           gs_next_id := gs_next_id g + 1\<rparr>)))"

definition closes_link :: "nat \<Rightarrow> nat \<Rightarrow> world \<Rightarrow> bool" where
  "closes_link link p w =
     (case om_get (wd_heap w) p of None \<Rightarrow> False | Some s \<Rightarrow> ws_link s = Some link)"

definition gateway_detach :: "nat \<Rightarrow> u32 \<Rightarrow> gw_state \<Rightarrow> bool \<times> gw_state" where
  "gateway_detach link sid g =
     (case om_get (gs_sessions g) sid of
        None \<Rightarrow> (False, g)
      | Some p \<Rightarrow>
          let g = g\<lparr>gs_sessions := om_erase sid (gs_sessions g)\<rparr>
          in (closes_link link p (gs_world g), run_world (kick_player p (gs_world g)) g))"

section \<open>Deliver and OnPing\<close>

definition queue_packet :: "nat \<Rightarrow> world_packet \<Rightarrow> world \<Rightarrow> world world_result" where
  "queue_packet p packet w =
     sum_bind (deref p w) (\<lambda>s. Inr (store p (s\<lparr>ws_recv_queue := ws_recv_queue s @ [packet]\<rparr>) w))"

definition gateway_deliver :: "u32 \<Rightarrow> world_packet \<Rightarrow> gw_state \<Rightarrow> gw_state" where
  "gateway_deliver sid packet g =
     (case gateway_find sid g of
        None \<Rightarrow> g
      | Some p \<Rightarrow> run_world (queue_packet p packet (gs_world g)) g)"

definition set_latency :: "nat \<Rightarrow> u32 \<Rightarrow> world \<Rightarrow> world world_result" where
  "set_latency p latency w =
     sum_bind (deref p w)
       (\<lambda>s. Inr (store p (s\<lparr>ws_latency := latency, ws_client_time_delay := 0\<rparr>) w))"

definition session_security :: "nat \<Rightarrow> world \<Rightarrow> u32" where
  "session_security p w = (case om_get (wd_heap w) p of None \<Rightarrow> 0 | Some s \<Rightarrow> ws_security s)"

definition gateway_on_ping :: "u32 \<Rightarrow> u32 \<Rightarrow> u32 \<Rightarrow> gw_state \<Rightarrow> bool \<times> gw_state" where
  "gateway_on_ping sid latency fastPingRun g =
     (case gateway_find sid g of
        None \<Rightarrow> (False, g)
      | Some p \<Rightarrow>
          let maxCount = wd_max_overspeed_pings (gs_world g);
              g' = run_world (set_latency p latency (gs_world g)) g
          in (maxCount = 0 \<or> fastPingRun \<le> maxCount \<or> session_security p (gs_world g) \<noteq> SEC_PLAYER, g'))"

section \<open>The gateway\<close>

definition gateway_error_response :: "auth_status \<Rightarrow> world_packet \<Rightarrow> bb_error + world_packet" where
  "gateway_error_response status out = build_auth_response_error (auth_status_value status) out"

definition gateway_of :: "'b gateway_env \<Rightarrow> nat \<Rightarrow> (account_row, gw_state) gateway" where
  "gateway_of E link =
     \<lparr>gw_lookup_account = (\<lambda>req g. (lookup_account E req g, g)),
      gw_attach = gateway_attach E link,
      gw_deliver = gateway_deliver,
      gw_on_ping = gateway_on_ping,
      gw_detach = gateway_detach link,
      gw_build_auth_error = gateway_error_response,
      gw_on_packet_received = (\<lambda>packet sid g. g)\<rparr>"

definition gateway_ready :: "gw_state \<Rightarrow> bool" where
  "gateway_ready g \<longleftrightarrow> gs_next_id g \<noteq> INVALID_SESSION_ID"

text \<open>The world tick runs between the calls of the connections.\<close>

definition gateway_tick :: "gw_state \<Rightarrow> gw_state" where
  "gateway_tick g = run_world (update_sessions (gs_world g)) g"

section \<open>The contract\<close>

lemma gateway_attach_commits:
  "gateway_ready g \<Longrightarrow> gateway_attach E link req ctx g = (sid, committed, g') \<Longrightarrow>
     committed \<longleftrightarrow> sid \<noteq> INVALID_SESSION_ID"
  by (auto simp: gateway_attach_def gateway_ready_def split: option.splits prod.splits if_splits bool.splits)

lemma gateway_error_total: "\<exists>q. gateway_error_response st p = Inr q"
  by (simp add: gateway_error_response_def build_auth_response_error_eq)

interpretation wg: world_gateway "gateway_of E link" gateway_ready
proof
  show "committed \<longleftrightarrow> sid \<noteq> INVALID_SESSION_ID"
    if "gateway_ready g" and "gw_attach (gateway_of E link) req ctx g = (sid, committed, g')"
    for g req ctx sid committed g'
    using gateway_attach_commits that by (simp add: gateway_of_def)
  show "gateway_ready g'"
    if "gateway_ready g" and "gw_lookup_account (gateway_of E link) req g = (l, g')" for g req l g'
    using that by (simp add: gateway_of_def)
  show "\<exists>q. gw_build_auth_error (gateway_of E link) st p = Inr q" for st p
    by (simp add: gateway_of_def gateway_error_total)
qed

end
