(* ===== verification/Authentication.thy ===== *)
theory Authentication
  imports WorldGateway
begin

text \<open>
  The connection and the gateway together: what a peer must have shown before its connection
  is authenticated, that nothing else it sends before reaches the world, and the admission
  policy of \<open>LookupAccount\<close>.
\<close>

section \<open>Admission\<close>

lemma build_in_wire_list: "is_acceptable_client_wire_build b \<longleftrightarrow> b = 18414"
  by (simp add: is_acceptable_client_wire_build_def EXPECTED_MANGOSD_WIRE_BUILD_def)

definition lookup_ok :: "account_row \<Rightarrow> account_row auth_lookup" where
  "lookup_ok row = auth_lookup_new\<lparr>lookup_status := AuthOk, lookup_session_key := ar_session_key row,
                                   lookup_context := Some row\<rparr>"

definition admitted :: "'b gateway_env \<Rightarrow> auth_request \<Rightarrow> gw_state \<Rightarrow> db_account \<Rightarrow> u8 list \<Rightarrow> bool" where
  "admitted E req g db key \<longleftrightarrow>
     as_built_number_client (req_fields req) = 18414 \<and>
     ge_account E (as_account (req_fields req)) = Some db \<and>
     session_key_from_hex (ge_bn E) (db_sessionkey db) (replicate 40 0) = (True, key) \<and>
     (db_locked db = 1 \<longrightarrow> db_last_ip db = req_peer_address req) \<and>
     \<not> ge_banned E (db_id db) (req_peer_address req) \<and>
     get_player_security_limit (gs_world g) \<le> min SEC_ADMINISTRATOR (ucast (db_gmlevel db))"

lemma wire_build_ucast: "(ucast (b :: u16) :: u32) = 18414 \<longleftrightarrow> b = 18414"
  using unsigned_less [of b, where ?'a = nat]
  by (simp add: word_unat_eq_iff unsigned_ucast_eq take_bit_nat_eq_self)

lemma security_limit_check:
  "\<not> (allowed > SEC_PLAYER \<and> level < allowed) \<longleftrightarrow> (allowed :: u32) \<le> level"
  by (auto simp: SEC_PLAYER_def not_less word_gt_0)

lemma clamp_min: "(if x > m then m else x) = min m (x :: u32)"
  by (auto simp: min_def)

lemma lookup_account_ok:
  assumes "admitted E req g db key"
  shows "lookup_account E req g = lookup_ok (row_of (wd_expansion (gs_world g)) db key)"
proof -
  let ?row = "row_of (wd_expansion (gs_world g)) db key"
  have "ar_security ?row = min SEC_ADMINISTRATOR (ucast (db_gmlevel db))" "ar_id ?row = db_id db"
    by (simp_all add: row_of_def clamp_min)
  with assms security_limit_check [of "get_player_security_limit (gs_world g)" "ar_security ?row"]
  show ?thesis
    by (auto simp: lookup_account_def admitted_def lookup_ok_def build_in_wire_list wire_build_ucast
        account_row_new_def Let_def)
qed

lemma refuse_simps [simp]:
  "lookup_status (refuse st) = st" "lookup_context (refuse st) = None"
  by (simp_all add: refuse_def auth_lookup_new_def)

lemma lookup_account_refused:
  assumes "\<nexists>db key. admitted E req g db key"
  shows "lookup_status (lookup_account E req g) \<noteq> AuthOk" and "lookup_context (lookup_account E req g) = None"
proof -
  have sec: "ar_security (row_of x db key) = min SEC_ADMINISTRATOR (ucast (db_gmlevel db))"
    "ar_id (row_of x db key) = db_id db" for x db key
    by (simp_all add: row_of_def clamp_min)
  note defs = lookup_account_def admitted_def build_in_wire_list wire_build_ucast account_row_new_def
    Let_def sec security_limit_check
  show "lookup_status (lookup_account E req g) \<noteq> AuthOk" "lookup_context (lookup_account E req g) = None"
    using assms security_limit_check [of "get_player_security_limit (gs_world g)"]
    by (auto simp: defs split: option.splits prod.splits)
qed

lemma row_of_bounds:
  "ar_security (row_of x db key) \<le> SEC_ADMINISTRATOR" "ar_locale (row_of x db key) < MAX_LOCALE"
  "unat (ar_expansion (row_of x db key)) \<le> unat x"
proof -
  show "ar_security (row_of x db key) \<le> SEC_ADMINISTRATOR" "ar_locale (row_of x db key) < MAX_LOCALE"
    by (auto simp: row_of_def MAX_LOCALE_def not_le)
  have "unat (ucast (min x (ucast (db_expansion db))) :: u8) \<le> unat (min x (ucast (db_expansion db)))"
    by (simp add: unsigned_ucast_eq take_bit_nat_less_eq_self)
  also have "\<dots> \<le> unat x" by (simp add: word_le_nat_alt [symmetric])
  finally show "unat (ar_expansion (row_of x db key)) \<le> unat x" by (simp add: row_of_def)
qed

section \<open>What authentication takes\<close>

text \<open>
  \<open>proof_shown\<close>: the frame is a well formed CMSG_AUTH_SESSION of an admitted account whose digest
  is the SHA-1 proof over that account's session key, the client's seed and the seed of the
  challenge this connection was sent.
\<close>

definition proof_shown ::
  "('x, 'm, 'r) environment \<Rightarrow> 'b gateway_env \<Rightarrow> 'x connection \<Rightarrow> gw_state \<Rightarrow> world_packet
    \<Rightarrow> auth_request \<Rightarrow> account_row \<Rightarrow> bool" where
  "proof_shown V E c g packet req row \<longleftrightarrow>
     decode_auth_session (byte_buffer.truncate packet) auth_session_fields_zero = (DecodeOk, req_fields req) \<and>
     req_peer_address req = cc_address c \<and>
     (\<exists>db key. admitted E req g db key \<and> row = row_of (wd_expansion (gs_world g)) db key) \<and>
     proof_equals (compute_auth_proof (env_sha1 V) (as_account (req_fields req)) (as_client_seed (req_fields req))
                     (cc_seed c) (ar_session_key row)) (as_digest (req_fields req))"

lemma reject_auth_frame:
  "reject_auth V G st (c, g, r) = (res, (c', g', r')) \<Longrightarrow>
     g' = g \<and> r' = r \<and> cc_state c' = cc_state c \<and> cc_session c' = cc_session c \<and> res \<noteq> Inr True"
  by (auto simp: reject_auth_def split: sum.splits)

text \<open>
  Without the proof \<open>HandleAuthSession\<close> refuses; with it, the world changes by \<open>Attach\<close> of the
  proven account at most.
\<close>

lemma publish_session_frame:
  "publish_session V (gateway_of E link) req ctx (c, g, r) = (res, (c', g', r')) \<Longrightarrow>
     g' = snd (snd (gateway_attach E link req ctx g)) \<and>
     (cc_state c' = CONN_AUTHED \<longrightarrow> cc_state c = CONN_AUTHED \<or> fst (snd (gateway_attach E link req ctx g)))"
  by (auto simp: publish_session_def gateway_of_def Let_def commit_crypt_def split: prod.splits if_splits
      dest!: reject_auth_frame)

lemma handle_auth_session_sound:
  assumes "handle_auth_session V (gateway_of E link) p (c, g, r) = (res, (c', g', r'))"
    and "cc_state c = CONN_AUTHENTICATING"
  shows "(res \<noteq> Inr True \<and> g' = g \<and> cc_state c' = CONN_AUTHENTICATING) \<or>
    (\<exists>req row. proof_shown V E c g p req row \<and> g' = snd (snd (gateway_attach E link req (Some row) g)))"
proof -
  obtain result parsed where d: "decode_auth_session (byte_buffer.truncate p) auth_session_fields_zero = (result, parsed)"
    by fastforce
  define req where "req = \<lparr>req_fields = parsed, req_peer_address = cc_address c\<rparr>"
  define l where "l = lookup_account E req g"
  have rej: "res \<noteq> Inr True \<and> g' = g \<and> cc_state c' = CONN_AUTHENTICATING"
    if "reject_auth V (gateway_of E link) st (c1, g, r1) = (res, (c', g', r'))" "cc_state c1 = CONN_AUTHENTICATING" for st c1 r1
    using reject_auth_frame [OF that(1)] that(2) by simp
  have look: "gw_lookup_account (gateway_of E link) req g = (l, g)"
    by (simp add: gateway_of_def l_def)
  show ?thesis
  proof (cases "result = DecodeOk \<and> (\<exists>db key. admitted E req g db key)")
    case False
    then have "\<exists>st. handle_auth_session V (gateway_of E link) p (c, g, r) = reject_auth V (gateway_of E link) st (c, g, r)"
      using d look lookup_account_refused(1) [of E req g]
      by (auto simp: handle_auth_session_def Let_def req_def [symmetric] l_def)
    then show ?thesis using rej assms by metis
  next
    case True
    then obtain db key where adm: "admitted E req g db key" by blast
    define row where "row = row_of (wd_expansion (gs_world g)) db key"
    have l: "l = lookup_ok row" using lookup_account_ok [OF adm] by (simp add: l_def row_def)
    have lk: "lookup_status l = AuthOk" "lookup_session_key l = ar_session_key row" "lookup_context l = Some row"
      by (simp_all add: l lookup_ok_def)
    let ?proof = "compute_auth_proof (env_sha1 V) (as_account parsed) (as_client_seed parsed) (cc_seed c) (ar_session_key row)"
    obtain ok crypt where pr: "prepare (env_evp V) (ar_session_key row) (cc_crypt c) = (ok, crypt)" by fastforce
    have eq: "handle_auth_session V (gateway_of E link) p (c, g, r) =
       (if \<not> proof_equals ?proof (as_digest parsed) then reject_auth V (gateway_of E link) AuthFailed (c, g, r)
        else if \<not> ok then reject_auth V (gateway_of E link) AuthSystemError (c\<lparr>cc_crypt := crypt\<rparr>, g, r)
        else publish_session V (gateway_of E link) req (Some row) (c\<lparr>cc_crypt := crypt\<rparr>, g, r))"
      using d True look lk pr by (simp add: handle_auth_session_def Let_def req_def [symmetric])
    show ?thesis
    proof (cases "proof_equals ?proof (as_digest parsed) \<and> ok")
      case False
      then show ?thesis
        using eq assms rej [of AuthFailed c r] rej [of AuthSystemError "c\<lparr>cc_crypt := crypt\<rparr>" r]
        by (auto split: if_splits)
    next
      case p: True
      then have "publish_session V (gateway_of E link) req (Some row) (c\<lparr>cc_crypt := crypt\<rparr>, g, r) = (res, (c', g', r'))"
        using eq assms by simp
      from publish_session_frame [OF this] have "g' = snd (snd (gateway_attach E link req (Some row) g))" by simp
      moreover have "proof_shown V E c g p req row"
        using d True p adm row_def by (auto simp: proof_shown_def req_def)
      ultimately show ?thesis by blast
    qed
  qed
qed

lemma send_auth_challenge_frame:
  "send_auth_challenge V (c, g, r) = (res, (c', g', r')) \<Longrightarrow>
     g' = g \<and> (cc_state c' = cc_state c \<or> cc_state c' = CONN_CHALLENGED)"
  by (auto simp: send_auth_challenge_def Let_def split: prod.splits option.splits sum.splits if_splits)

lemma handle_wow_connection_frame:
  "handle_wow_connection V p (c, g, r) = (res, (c', g', r')) \<Longrightarrow>
     g' = g \<and> (cc_state c' = cc_state c \<or> cc_state c' = CONN_CHALLENGED)"
  by (auto simp: handle_wow_connection_def split: sum.splits prod.splits if_splits dest: send_auth_challenge_frame)

lemma proof_shown_state [simp]:
  "proof_shown V E (c\<lparr>cc_state := st\<rparr>) g p req row = proof_shown V E c g p req row"
  by (simp add: proof_shown_def)

lemma catch_decode_eq: "catch_decode m = (res, s) \<Longrightarrow> \<exists>m'. m = (m', s) \<and> (res = Inr True \<longleftrightarrow> m' = Inr True)"
  by (auto simp: catch_decode_def split: prod.splits sum.splits if_splits)

lemma dispatch_frame_sound:
  assumes d: "dispatch_frame V (gateway_of E link) cmd payload (c, g, r) = (res, (c', g', r'))"
    and before: "before_auth c"
  shows "(g' = g \<and> cc_state c' \<noteq> CONN_AUTHED) \<or>
    (cmd = ucast CMSG_AUTH_SESSION \<and> cc_state c = CONN_CHALLENGED \<and>
     (\<exists>p req row. append_bytes payload (world_packet_new (ucast cmd)) = Inr p \<and>
        proof_shown V E c g p req row \<and> g' = snd (snd (gateway_attach E link req (Some row) g))))"
proof -
  obtain p where p: "append_bytes payload (world_packet_new (ucast cmd)) = Inr p"
    using append_payload_total by blast
  have st: "cc_state c \<noteq> CONN_AUTHED" using before by (auto simp: before_auth_def)
  show ?thesis
  proof (cases "is_handshake_opcode_legal (cc_state c) (opcode_class_of cmd)")
    case False
    then show ?thesis using d p st by (simp add: dispatch_frame_def)
  next
    case True
    show ?thesis
    proof (cases "cmd = ucast MSG_WOW_CONNECTION")
      case wow: True
      then have "handle_wow_connection V p (c, g, r) = (res, (c', g', r'))"
        using d p True by (simp add: dispatch_frame_def)
      from handle_wow_connection_frame [OF this] st show ?thesis by auto
    next
      case False
      then have auth: "cmd = ucast CMSG_AUTH_SESSION" "cc_state c = CONN_CHALLENGED"
        using True before by (auto simp: opcode_class_of_def before_auth_def split: if_splits)
      have np: "cmd \<noteq> ucast CMSG_PING" using auth(1) by (simp add: opcode_defs)
      have "dispatch_frame V (gateway_of E link) cmd payload (c, g, r) =
          catch_decode (handle_auth_session V (gateway_of E link) p (c\<lparr>cc_state := CONN_AUTHENTICATING\<rparr>, g, r))"
        using p True False auth np by (simp add: dispatch_frame_def dispatch_switch_def)
      with d obtain m where "handle_auth_session V (gateway_of E link) p (c\<lparr>cc_state := CONN_AUTHENTICATING\<rparr>, g, r)
          = (m, (c', g', r'))"
        by (metis catch_decode_eq)
      from handle_auth_session_sound [OF this] auth p show ?thesis by auto
    qed
  qed
qed

section \<open>Concrete instances\<close>

text \<open>
  The instances the witnesses evaluate: a library whose ciphers repeat the key, a random source
  of zero bytes, a clock that stands still, and a database with one account.
\<close>

definition demo_environment :: "(u8 list \<times> nat, u8 list, unit) environment" where
  "demo_environment =
     \<lparr>env_evp = repeating_evp, env_random = (\<lambda>n r. (Some (replicate n 0), r)), env_sha1 = (\<lambda>m. take 20 m),
      env_now = (\<lambda>r. (0, r))\<rparr>"

definition empty_world :: world where
  "empty_world =
     \<lparr>wd_heap = [], wd_next_address = 0, wd_sessions = [], wd_queued = [], wd_add_queue = [],
      wd_player_limit = 0, wd_max_active = 0, wd_max_queued = 0, wd_expansion = 4, wd_cache_version = 0,
      wd_max_overspeed_pings = 2, wd_closed_links = [], wd_effects = []\<rparr>"

definition demo_account :: db_account where
  "demo_account =
     \<lparr>db_id = 7, db_gmlevel = 9, db_sessionkey = Some [48, 49], db_last_ip = [], db_locked = 0,
      db_expansion = 9, db_mutetime = 0, db_locale = 40\<rparr>"

definition demo_gateway_env :: "nat gateway_env" where
  "demo_gateway_env =
     \<lparr>ge_bn = nat_bn, ge_account = (\<lambda>name. if name = [65] then Some demo_account else None),
      ge_banned = (\<lambda>account ip. False), ge_session_loads = (\<lambda>row addons. True), ge_enqueued = (\<lambda>g. True)\<rparr>"

definition demo_request :: auth_request where
  "demo_request =
     \<lparr>req_fields = auth_session_fields_zero\<lparr>as_built_number_client := 18414, as_account := [65]\<rparr>,
      req_peer_address = []\<rparr>"

definition demo_connection :: "(u8 list \<times> nat) connection" where
  "demo_connection = connection_new demo_environment [] []"

lemma demo_connection_simps [simp]:
  "cc_state demo_connection = CONN_GREETING" "cc_closed demo_connection = False"
  by (simp_all add: demo_connection_def connection_new_def)

section \<open>Properties\<close>

text \<open>
  C1: Authentication needs the proof. While a connection has not authenticated, no frame of the
  peer makes it authenticated and none changes the world, its sessions or its queue, except a
  well formed CMSG_AUTH_SESSION in the challenged state whose digest is the SHA-1 proof of an
  admitted account's session key against this connection's challenge; and then the world
  changes by \<open>Attach\<close> of that account alone.
\<close>

theorem authentication_needs_proof:
  assumes "dispatch_frame V (gateway_of E link) cmd payload (c, g, r) = (res, (c', g', r'))"
    and "before_auth c"
  shows "(g' = g \<and> cc_state c' \<noteq> CONN_AUTHED) \<or>
    (cmd = ucast CMSG_AUTH_SESSION \<and> cc_state c = CONN_CHALLENGED \<and>
     (\<exists>p req row. append_bytes payload (world_packet_new (ucast cmd)) = Inr p \<and>
        proof_shown V E c g p req row \<and> g' = snd (snd (gateway_attach E link req (Some row) g))))"
  using dispatch_frame_sound [OF assms] .

theorem authentication_needs_proof_witness:
  "cc_state (fst (snd (dispatch_frame demo_environment (gateway_of demo_gateway_env 0) 0x12 []
     (demo_connection, gw_state_new empty_world, ())))) \<noteq> CONN_AUTHED"
proof -
  obtain res c' g' r' where d: "dispatch_frame demo_environment (gateway_of demo_gateway_env 0) 0x12 []
      (demo_connection, gw_state_new empty_world, ()) = (res, (c', g', r'))"
    by (metis prod_cases4)
  have "before_auth demo_connection" by (simp add: before_auth_def)
  from authentication_needs_proof [OF d this] d show ?thesis by (auto simp: opcode_defs)
qed

text \<open>
  C2: The handshake invariant on the world's gateway. Whatever bytes the peer sends, however the
  world answers, sends or closes in between, the connection is authenticated exactly as long as
  its ciphers are active, holds no session handle before that, and is closed whenever an
  authentication attempt did not end in a published session; the frame reader stays well formed.
\<close>

theorem reachable_connection_safe:
  assumes "reachable_connection V (gateway_of E link) gateway_ready c"
  shows "conn_inv c"
  by (rule wg.reachable_inv [OF assms])

theorem reachable_connection_safe_witness:
  "conn_inv (close_connection (snd (on_connect demo_environment (connection_new demo_environment [] []))))"
proof -
  obtain res c where "on_connect demo_environment (connection_new demo_environment [] []) = (res, c)"
    by (metis surj_pair)
  then have "reachable_connection demo_environment (gateway_of demo_gateway_env 0) gateway_ready c"
    by (rule reachable_connection.connected)
  from reachable_connection_safe [OF reachable_connection.closed [OF this]]
  show ?thesis by (simp add: \<open>on_connect _ _ = (res, c)\<close>)
qed

text \<open>
  C29: The admission policy. \<open>LookupAccount\<close> lets exactly the admitted requests proceed: the wire
  build, an existing account with a usable session key, the IP lock, no ban, and a level that the
  server is open to. What it hands on is bounded whatever the database holds: the security level,
  the expansion and the locale.
\<close>

theorem lookup_account_policy:
  "(lookup_status (lookup_account E req g) = AuthOk \<longleftrightarrow> (\<exists>db key. admitted E req g db key)) \<and>
   (case lookup_context (lookup_account E req g) of
      None \<Rightarrow> lookup_status (lookup_account E req g) \<noteq> AuthOk
    | Some row \<Rightarrow> lookup_session_key (lookup_account E req g) = ar_session_key row \<and>
        ar_security row \<le> SEC_ADMINISTRATOR \<and> ar_locale row < MAX_LOCALE \<and>
        unat (ar_expansion row) \<le> unat (wd_expansion (gs_world g)))"
proof (cases "\<exists>db key. admitted E req g db key")
  case True
  then obtain db key where "admitted E req g db key" by blast
  then show ?thesis
    using True by (simp add: lookup_account_ok lookup_ok_def row_of_bounds)
next
  case False
  then show ?thesis using lookup_account_refused [of E req g] by simp
qed

end
