(* ===== verification/Segmentation.thy ===== *)
theory Segmentation
  imports Authentication
begin

text \<open>
  The behaviour of a connection does not depend on how TCP cut the byte stream. Two connection
  states are compared by their \<open>view\<close>: everything but the physical layout of the frame reader's
  buffer, which is replaced by the stream it stands for.
\<close>

definition with_reader :: "frame_reader \<Rightarrow> 'a \<times> ('x, 'w, 'r) cc_world \<Rightarrow> 'a \<times> ('x, 'w, 'r) cc_world" where
  "with_reader x m = (case m of (res, (c, w, r)) \<Rightarrow> (res, (c\<lparr>cc_reader := x\<rparr>, w, r)))"

definition view ::
  "(bb_error + unit) \<times> ('x, 'w, 'r) cc_world
    \<Rightarrow> (bb_error + unit) \<times> 'x connection \<times> stream_reader \<times> 'w \<times> 'r" where
  "view m = (case m of (res, (c, w, r)) \<Rightarrow> (res, c\<lparr>cc_reader := frame_reader_new []\<rparr>, fr_abs (cc_reader c), w, r))"

section \<open>The handlers do not look at the reader\<close>

lemma with_reader_simp [simp]: "with_reader x (res, (c, w, r)) = (res, (c\<lparr>cc_reader := x\<rparr>, w, r))"
  by (simp add: with_reader_def)

lemma close_connection_reader: "close_connection (c\<lparr>cc_reader := x\<rparr>) = (close_connection c)\<lparr>cc_reader := x\<rparr>"
  by (simp add: close_connection_def)

lemma encode_for_send_reader:
  "encode_for_send V p (c\<lparr>cc_reader := x\<rparr>) =
     (case encode_for_send V p c of (fatal, wire, d) \<Rightarrow> (fatal, wire, d\<lparr>cc_reader := x\<rparr>))"
  by (auto simp: encode_for_send_def Let_def split: option.splits prod.splits)

lemma send_packet_reader: "send_packet V p (c\<lparr>cc_reader := x\<rparr>) = (send_packet V p c)\<lparr>cc_reader := x\<rparr>"
  by (auto simp: send_packet_def encode_for_send_reader close_connection_reader split: prod.splits)

lemma reject_auth_with_reader:
  "reject_auth V G st (c\<lparr>cc_reader := x\<rparr>, w, r) = with_reader x (reject_auth V G st (c, w, r))"
  by (auto simp: reject_auth_def send_packet_reader split: sum.splits)

lemma send_auth_challenge_with_reader:
  "send_auth_challenge V (c\<lparr>cc_reader := x\<rparr>, w, r) = with_reader x (send_auth_challenge V (c, w, r))"
  by (auto simp: send_auth_challenge_def send_packet_reader Let_def split: prod.splits option.splits sum.splits)

lemma handle_wow_connection_with_reader:
  "handle_wow_connection V p (c\<lparr>cc_reader := x\<rparr>, w, r) = with_reader x (handle_wow_connection V p (c, w, r))"
  by (auto simp: handle_wow_connection_def send_auth_challenge_with_reader split: sum.splits)

lemma commit_crypt_reader: "commit_crypt (c\<lparr>cc_reader := x\<rparr>) = (commit_crypt c)\<lparr>cc_reader := x\<rparr>"
  by (simp add: commit_crypt_def)

lemma publish_session_with_reader:
  "publish_session V G req ctx (c\<lparr>cc_reader := x\<rparr>, w, r) = with_reader x (publish_session V G req ctx (c, w, r))"
proof -
  obtain sid committed w' where "gw_attach G req ctx w = (sid, committed, w')" by (metis prod_cases3)
  then show ?thesis
    by (simp add: publish_session_def commit_crypt_reader reject_auth_with_reader)
qed

lemma handle_auth_session_with_reader:
  "handle_auth_session V G p (c\<lparr>cc_reader := x\<rparr>, w, r) = with_reader x (handle_auth_session V G p (c, w, r))"
proof -
  obtain result parsed where d:
    "decode_auth_session (byte_buffer.truncate p) auth_session_fields_zero = (result, parsed)" by (metis surj_pair)
  let ?req = "\<lparr>req_fields = parsed, req_peer_address = cc_address c\<rparr>"
  obtain l w' where l: "gw_lookup_account G ?req w = (l, w')" by (metis surj_pair)
  obtain ok crypt where k: "prepare (env_evp V) (lookup_session_key l) (cc_crypt c) = (ok, crypt)"
    by (metis surj_pair)
  have swap: "c\<lparr>cc_reader := x, cc_crypt := crypt\<rparr> = c\<lparr>cc_crypt := crypt, cc_reader := x\<rparr>" by simp
  show ?thesis
    using publish_session_with_reader [of V G ?req "lookup_context l" x "c\<lparr>cc_crypt := crypt\<rparr>" w' r]
      reject_auth_with_reader [of V G AuthSystemError x "c\<lparr>cc_crypt := crypt\<rparr>" w' r]
    by (simp add: handle_auth_session_def d l k Let_def reject_auth_with_reader swap)
qed

lemma handle_ping_with_reader:
  "handle_ping V G p (c\<lparr>cc_reader := x\<rparr>, w, r) = with_reader x (handle_ping V G p (c, w, r))"
proof (cases "sum_bind (get_u32 p) (\<lambda>(latency, p). sum_bind (get_u32 p) (\<lambda>(ping, p). Inr (latency, ping)))")
  case (Inl e)
  then show ?thesis by (simp add: handle_ping_def)
next
  case (Inr lp)
  let ?c = "\<lambda>run now. c\<lparr>cc_fast_ping_run := run, cc_last_ping := now, cc_had_ping := True\<rparr>"
  have s: "send_packet V q (c\<lparr>cc_reader := x, cc_fast_ping_run := run, cc_last_ping := now, cc_had_ping := True\<rparr>) =
      (send_packet V q (?c run now))\<lparr>cc_reader := x\<rparr>" for q run now
  proof -
    have "c\<lparr>cc_reader := x, cc_fast_ping_run := run, cc_last_ping := now, cc_had_ping := True\<rparr> =
        (?c run now)\<lparr>cc_reader := x\<rparr>" by simp
    then show ?thesis by (simp only: send_packet_reader)
  qed
  have s2: "send_packet V q (c\<lparr>cc_reader := x, cc_last_ping := now, cc_had_ping := True\<rparr>) =
      (send_packet V q (c\<lparr>cc_last_ping := now, cc_had_ping := True\<rparr>))\<lparr>cc_reader := x\<rparr>" for q now
    using s [where q = q and run = "cc_fast_ping_run c" and now = now] by simp
  show ?thesis
    using Inr by (auto simp: handle_ping_def Let_def s s2 split: prod.splits sum.splits)
qed

lemma catch_decode_with_reader: "catch_decode (with_reader x m) = with_reader x (catch_decode m)"
  by (auto simp: catch_decode_def with_reader_def split: prod.splits sum.splits)

lemma dispatch_frame_with_reader:
  "dispatch_frame V G cmd payload (c\<lparr>cc_reader := x\<rparr>, w, r) =
     with_reader x (dispatch_frame V G cmd payload (c, w, r))"
proof -
  have auth: "handle_auth_session V G p (c\<lparr>cc_reader := x, cc_state := st\<rparr>, w, r) =
      with_reader x (handle_auth_session V G p (c\<lparr>cc_state := st\<rparr>, w, r))" for p st
  proof -
    have "c\<lparr>cc_reader := x, cc_state := st\<rparr> = c\<lparr>cc_state := st, cc_reader := x\<rparr>" by simp
    then show ?thesis by (simp only: handle_auth_session_with_reader)
  qed
  have "dispatch_switch V G cmd p (c\<lparr>cc_reader := x\<rparr>, w, r) = with_reader x (dispatch_switch V G cmd p (c, w, r))" for p
    by (simp add: dispatch_switch_def handle_ping_with_reader auth)
  then show ?thesis
    by (simp add: dispatch_frame_def handle_wow_connection_with_reader catch_decode_with_reader split: sum.split)
qed

lemma malformed_frame_reader:
  "malformed_frame V (c\<lparr>cc_reader := x\<rparr>, w, r) =
     (case malformed_frame V (c, w, r) of (c', s) \<Rightarrow> (c'\<lparr>cc_reader := x\<rparr>, s))"
  by (auto simp: malformed_frame_def close_connection_def Let_def split: prod.splits)

section \<open>The loop on a stream\<close>

abbreviation hook_step ::
  "('x, 'm, 'r) environment \<Rightarrow> header_kind \<Rightarrow> stream_reader \<Rightarrow> 'x auth_crypt
    \<Rightarrow> frame_event \<times> stream_reader \<times> 'x auth_crypt" where
  "hook_step V kind \<equiv> stream_step kind (Some (decrypt_header_hook V)) (Some cmd_valid_hook)"

lemma try_connection_frame_step:
  assumes "fr_inv (cc_reader c)" and "try_connection_frame V frame c = (status, frame', c')"
  shows "hook_step V (connection_header_kind c) (fr_abs (cc_reader c)) (cc_crypt c) =
           (frame_event_of status frame' (cc_reader c'), fr_abs (cc_reader c'), cc_crypt c')"
    and "fr_inv (cc_reader c')" and "c' = c\<lparr>cc_reader := cc_reader c', cc_crypt := cc_crypt c'\<rparr>"
    and "connection_header_kind c' = connection_header_kind c"
proof -
  obtain fr crypt where t: "try_frame (connection_header_kind c) (Some (decrypt_header_hook V))
      (Some cmd_valid_hook) frame (cc_reader c) (cc_crypt c) = (status, frame', fr, crypt)"
    and c': "c' = c\<lparr>cc_reader := fr, cc_crypt := crypt\<rparr>"
    using assms(2) by (auto simp: try_connection_frame_def split: prod.splits)
  show "hook_step V (connection_header_kind c) (fr_abs (cc_reader c)) (cc_crypt c) =
           (frame_event_of status frame' (cc_reader c'), fr_abs (cc_reader c'), cc_crypt c')"
    and "fr_inv (cc_reader c')"
    using try_frame_refines_step [OF assms(1), of "connection_header_kind c" "Some (decrypt_header_hook V)"
        "Some cmd_valid_hook" frame "cc_crypt c"] t
    by (simp_all add: frame_refines_def c')
  show "c' = c\<lparr>cc_reader := cc_reader c', cc_crypt := cc_crypt c'\<rparr>" by (simp add: c')
  show "connection_header_kind c' = connection_header_kind c"
    using try_connection_frame_simps [OF assms(2)] by (simp add: connection_header_kind_def is_initialized_def)
qed

lemma frame_event_of_cases:
  "frame_event_of status f fr = Wait \<longleftrightarrow> status = NEED_MORE"
  "frame_event_of status f fr = Got g \<longleftrightarrow> status = FRAME_READY \<and> f = g"
  by (cases status; simp)+

lemma view_simp [simp]:
  "view (res, (c, w, r)) = (res, c\<lparr>cc_reader := frame_reader_new []\<rparr>, fr_abs (cc_reader c), w, r)"
  by (simp add: view_def)

text \<open>Two connections that differ in the reader and agree on the next event behave alike.\<close>

lemma loop_same_event:
  assumes "fr_inv (cc_reader c)" and "fr_inv x"
    and "d = c\<lparr>cc_reader := x, cc_crypt := k\<rparr>" and "is_initialized k = is_initialized (cc_crypt c)"
    and "hook_step V (connection_header_kind c) (fr_abs (cc_reader c)) (cc_crypt c) =
         hook_step V (connection_header_kind c) (fr_abs x) k"
  shows "view (on_data_loop V G f (c, w, r)) = view (on_data_loop V G g (d, w, r))"
  using assms
proof (induction V G f "(c, w, r)" arbitrary: c w r d x k g rule: on_data_loop.induct)
  case (1 V G f c w r)
  obtain st f' c' where t: "try_connection_frame V f c = (st, f', c')" by (metis prod_cases3)
  obtain su g' d' where u: "try_connection_frame V g d = (su, g', d')" by (metis prod_cases3)
  have kd: "connection_header_kind d = connection_header_kind c"
    using "1.prems"(3,4) by (simp add: connection_header_kind_def)
  note ct = try_connection_frame_step [OF "1.prems"(1) t]
  have "fr_inv (cc_reader d)" using "1.prems"(2,3) by simp
  note du = try_connection_frame_step [OF this u]
  have ev: "frame_event_of st f' (cc_reader c') = frame_event_of su g' (cc_reader d')"
    and ab: "fr_abs (cc_reader c') = fr_abs (cc_reader d')" and cr: "cc_crypt d' = cc_crypt c'"
    using ct(1) du(1) "1.prems"(3,5) kd by simp_all
  have d': "d' = c'\<lparr>cc_reader := cc_reader d'\<rparr>"
  proof -
    have "d' = d\<lparr>cc_reader := cc_reader d', cc_crypt := cc_crypt d'\<rparr>" by (rule du(3))
    also have "\<dots> = c\<lparr>cc_reader := cc_reader d', cc_crypt := cc_crypt c'\<rparr>"
      unfolding cr by (simp add: "1.prems"(3))
    also have "\<dots> = c'\<lparr>cc_reader := cc_reader d'\<rparr>" by (subst (2) ct(3)) simp
    finally show ?thesis .
  qed
  show ?case
  proof (cases st)
    case NEED_MORE
    then have "su = NEED_MORE" using ev frame_event_of_cases(1) [of su g' "cc_reader d'"] by simp
    moreover have "c'\<lparr>cc_reader := frame_reader_new []\<rparr> = d'\<lparr>cc_reader := frame_reader_new []\<rparr>"
      by (subst d') simp
    ultimately show ?thesis
      using t u NEED_MORE ab by (subst (1 2) on_data_loop.simps) simp
  next
    case MALFORMED
    then have "su = MALFORMED" using ev by (cases su) simp_all
    then have "on_data_loop V G g (d, w, r) = (Inr (), malformed_frame V (d', w, r))"
      using u by (subst on_data_loop.simps) simp
    moreover have "on_data_loop V G f (c, w, r) = (Inr (), malformed_frame V (c', w, r))"
      using t MALFORMED by (subst on_data_loop.simps) simp
    moreover have "view (Inr (), malformed_frame V (d', w, r)) = view (Inr (), malformed_frame V (c', w, r))"
      using malformed_frame_reader [of V "cc_reader d'" c' w r] ab d'
      by (cases "malformed_frame V (c', w, r)") (auto simp: malformed_frame_def view_def Let_def split: prod.splits)
    ultimately show ?thesis by simp
  next
    case FRAME_READY
    then have su: "su = FRAME_READY" "g' = f'"
      using ev frame_event_of_cases(2) [of su g' "cc_reader d'" f'] by auto
    obtain res c2 w2 r2 where disp: "dispatch_frame V G (frame_cmd f') (frame_payload f') (c', w, r) = (res, (c2, w2, r2))"
      by (metis prod_cases4)
    have disp': "dispatch_frame V G (frame_cmd f') (frame_payload f') (d', w, r) =
        (res, (c2\<lparr>cc_reader := cc_reader d'\<rparr>, w2, r2))"
      using dispatch_frame_with_reader [of V G "frame_cmd f'" "frame_payload f'" "cc_reader d'" c' w r] disp d'
      by simp
    have rd: "cc_reader c2 = cc_reader c'"
      using dispatch_frame_reader [of V G "frame_cmd f'" "frame_payload f'" "(c', w, r)"] disp by simp
    have lc: "on_data_loop V G f (c, w, r) = (case res of Inl e \<Rightarrow> (Inl e, (c2, w2, r2))
        | Inr ok \<Rightarrow> if ok then on_data_loop V G f' (c2, w2, r2) else (Inr (), (close_connection c2, w2, r2)))"
      using t FRAME_READY disp by (subst on_data_loop.simps) (simp split: sum.split)
    have ld: "on_data_loop V G g (d, w, r) = (case res of Inl e \<Rightarrow> (Inl e, (c2\<lparr>cc_reader := cc_reader d'\<rparr>, w2, r2))
        | Inr ok \<Rightarrow> if ok then on_data_loop V G f' (c2\<lparr>cc_reader := cc_reader d'\<rparr>, w2, r2)
                   else (Inr (), (close_connection (c2\<lparr>cc_reader := cc_reader d'\<rparr>), w2, r2)))"
      using u su disp' by (subst on_data_loop.simps) (simp split: sum.split)
    have "view (on_data_loop V G f' (c2, w2, r2)) =
        view (on_data_loop V G f' (c2\<lparr>cc_reader := cc_reader d'\<rparr>, w2, r2))" if "res = Inr True"
    proof (rule "1.hyps" [OF t [symmetric] FRAME_READY refl disp [symmetric] that TrueI])
      show "fr_inv (cc_reader c2)" "fr_inv (cc_reader d')" using ct(2) du(2) rd by simp_all
      show "c2\<lparr>cc_reader := cc_reader d'\<rparr> = c2\<lparr>cc_reader := cc_reader d', cc_crypt := cc_crypt c2\<rparr>" by simp
    qed (use rd ab in simp_all)
    then show ?thesis
      using lc ld ab rd by (cases res) (auto simp: close_connection_reader)
  qed
qed

lemma append_events:
  assumes "hook_step V k s crypt = (e, s', crypt')"
    and "t = (fst s, snd s @ ys)" and "t' = (fst s', snd s' @ ys)"
  shows "e = Wait \<Longrightarrow> hook_step V k t' crypt' = hook_step V k t crypt"
    and "e \<noteq> Wait \<Longrightarrow> hook_step V k t crypt = (e, t', crypt')"
  using stream_step_append [of k "Some (decrypt_header_hook V)" "Some cmd_valid_hook" "fst s" "snd s" crypt e
      "fst s'" "snd s'" crypt' ys] assms
  by simp_all

lemma loop_split:
  assumes "fr_inv (cc_reader c)" and "on_data_loop V G f (c, w, r) = (Inr (), (c1, w1, r1))"
    and "\<not> cc_closed c1" and "fr_inv x"
    and "fr_abs x = (fst (fr_abs (cc_reader c)), snd (fr_abs (cc_reader c)) @ ys)"
  shows "fr_inv (cc_reader c1) \<and>
    view (on_data_loop V G g (c\<lparr>cc_reader := x\<rparr>, w, r)) =
    view (on_data_loop V G h (c1\<lparr>cc_reader := fr_push ys (cc_reader c1)\<rparr>, w1, r1))"
  using assms
proof (induction V G f "(c, w, r)" arbitrary: c w r x g rule: on_data_loop.induct)
  case (1 V G f c w r)
  obtain st f' c' where t: "try_connection_frame V f c = (st, f', c')" by (metis prod_cases3)
  note ct = try_connection_frame_step [OF "1.prems"(1) t]
  show ?case
  proof (cases st)
    case NEED_MORE
    then have eq: "c1 = c'" "w1 = w" "r1 = r"
      using "1.prems"(2) t by (simp_all add: on_data_loop.simps [of V G f c w r])
    let ?c = "c\<lparr>cc_reader := x\<rparr>" and ?y = "fr_push ys (cc_reader c')"
    have kind: "connection_header_kind ?c = connection_header_kind c"
      by (simp add: connection_header_kind_def)
    have init: "is_initialized (cc_crypt c') = is_initialized (cc_crypt c)"
      using try_connection_frame_simps [OF t] by (simp add: is_initialized_def)
    have "hook_step V (connection_header_kind c) (fr_abs ?y) (cc_crypt c') =
        hook_step V (connection_header_kind c) (fr_abs x) (cc_crypt c)"
      using append_events(1) [OF ct(1) "1.prems"(5), of "fr_abs ?y"] ct(2) NEED_MORE by simp
    moreover have "c'\<lparr>cc_reader := ?y\<rparr> = ?c\<lparr>cc_reader := ?y, cc_crypt := cc_crypt c'\<rparr>"
      by (subst ct(3)) simp
    ultimately show ?thesis
      using loop_same_event [of ?c ?y "c'\<lparr>cc_reader := ?y\<rparr>" "cc_crypt c'" V G g w r h]
        "1.prems"(4) ct(2) init kind eq by simp
  next
    case MALFORMED
    then have "cc_closed c1"
      using "1.prems"(2) t
      by (auto simp: on_data_loop.simps [of V G f c w r] malformed_frame_def Let_def close_connection_def
          split: prod.splits)
    with "1.prems"(3) show ?thesis by simp
  next
    case FRAME_READY
    obtain res c2 w2 r2 where disp: "dispatch_frame V G (frame_cmd f') (frame_payload f') (c', w, r) = (res, (c2, w2, r2))"
      by (metis prod_cases4)
    have lc: "on_data_loop V G f (c, w, r) = (case res of Inl e \<Rightarrow> (Inl e, (c2, w2, r2))
        | Inr ok \<Rightarrow> if ok then on_data_loop V G f' (c2, w2, r2) else (Inr (), (close_connection c2, w2, r2)))"
      using t FRAME_READY disp by (subst on_data_loop.simps) (simp split: sum.split)
    with "1.prems"(2,3) have res: "res = Inr True" and
      rest: "on_data_loop V G f' (c2, w2, r2) = (Inr (), (c1, w1, r1))"
      by (auto split: sum.splits if_splits)
    have rd: "cc_reader c2 = cc_reader c'"
      using dispatch_frame_reader [of V G "frame_cmd f'" "frame_payload f'" "(c', w, r)"] disp by simp
    let ?c = "c\<lparr>cc_reader := x\<rparr>"
    obtain su g' d' where u: "try_connection_frame V g ?c = (su, g', d')" by (metis prod_cases3)
    have inv: "fr_inv (cc_reader ?c)" using "1.prems"(4) by simp
    note du = try_connection_frame_step [OF inv u]
    have kind: "connection_header_kind ?c = connection_header_kind c"
      by (simp add: connection_header_kind_def)
    have "hook_step V (connection_header_kind c) (fr_abs x) (cc_crypt c) =
        (Got f', (fst (fr_abs (cc_reader c')), snd (fr_abs (cc_reader c')) @ ys), cc_crypt c')"
      using append_events(2) [OF ct(1) "1.prems"(5) refl] FRAME_READY by simp
    with du(1) kind have su: "su = FRAME_READY" "g' = f'" and crypt: "cc_crypt d' = cc_crypt c'"
      and ab: "fr_abs (cc_reader d') = (fst (fr_abs (cc_reader c')), snd (fr_abs (cc_reader c')) @ ys)"
      using frame_event_of_cases(2) [of su g' "cc_reader d'" f'] by auto
    have d': "d' = c'\<lparr>cc_reader := cc_reader d'\<rparr>"
    proof -
      have "d' = ?c\<lparr>cc_reader := cc_reader d', cc_crypt := cc_crypt d'\<rparr>" by (rule du(3))
      also have "\<dots> = c'\<lparr>cc_reader := cc_reader d'\<rparr>" unfolding crypt by (subst (2) ct(3)) simp
      finally show ?thesis .
    qed
    have "dispatch_frame V G (frame_cmd f') (frame_payload f') (d', w, r) =
        (res, (c2\<lparr>cc_reader := cc_reader d'\<rparr>, w2, r2))"
      using dispatch_frame_with_reader [of V G "frame_cmd f'" "frame_payload f'" "cc_reader d'" c' w r] disp d'
      by simp
    then have "on_data_loop V G g (?c, w, r) = on_data_loop V G f' (c2\<lparr>cc_reader := cc_reader d'\<rparr>, w2, r2)"
      using u su res by (subst on_data_loop.simps) simp
    moreover have "fr_inv (cc_reader c1) \<and>
        view (on_data_loop V G f' (c2\<lparr>cc_reader := cc_reader d'\<rparr>, w2, r2)) =
        view (on_data_loop V G h (c1\<lparr>cc_reader := fr_push ys (cc_reader c1)\<rparr>, w1, r1))"
      by (rule "1.hyps" [OF t [symmetric] FRAME_READY refl disp [symmetric] res TrueI])
         (use rest "1.prems"(3) ct(2) du(2) ab rd in simp_all)
    ultimately show ?thesis by simp
  qed
qed

section \<open>Property\<close>

text \<open>
  C22: TCP segmentation does not matter. If a connection is still open after the bytes \<open>d1\<close>,
  then receiving \<open>d1 @ d2\<close> at once and receiving \<open>d1\<close> and then \<open>d2\<close> end in the same state:
  the same packets sent, the same calls made to the world in the same order, the same handshake
  and cipher state, and the same unread bytes.
\<close>

theorem on_data_segmentation:
  assumes "fr_inv (cc_reader c)" and "\<not> cc_closed c"
    and "on_data V G d1 (c, w, r) = (Inr (), (c1, w1, r1))" and "\<not> cc_closed c1"
  shows "view (on_data V G (d1 @ d2) (c, w, r)) = view (on_data V G d2 (c1, w1, r1))"
proof -
  let ?f = "\<lparr>frame_cmd = 0, frame_payload = []\<rparr>"
  let ?c = "c\<lparr>cc_reader := fr_push d1 (cc_reader c)\<rparr>" and ?x = "fr_push (d1 @ d2) (cc_reader c)"
  have "on_data_loop V G ?f (?c, w, r) = (Inr (), (c1, w1, r1))"
    using assms(2,3) by (simp add: on_data_def)
  from loop_split [OF _ this assms(4), of ?x d2 ?f ?f]
  have "view (on_data_loop V G ?f (?c\<lparr>cc_reader := ?x\<rparr>, w, r)) =
      view (on_data_loop V G ?f (c1\<lparr>cc_reader := fr_push d2 (cc_reader c1)\<rparr>, w1, r1))"
    using assms(1) by simp
  then show ?thesis using assms(2,4) by (simp add: on_data_def)
qed

theorem on_data_segmentation_witness:
  "view (on_data demo_environment (gateway_of demo_gateway_env 0) [0x30, 0x00] (demo_connection, gw_state_new empty_world, ())) =
   view (on_data demo_environment (gateway_of demo_gateway_env 0) [0x00]
           (demo_connection\<lparr>cc_reader := fr_push [0x30] (cc_reader demo_connection)\<rparr>, gw_state_new empty_world, ()))"
proof -
  have inv: "fr_inv (cc_reader demo_connection)"
    using conn_inv_new [of demo_environment "[]" "[]"] by (simp add: conn_inv_def conn_core_def demo_connection_def)
  have crypt: "is_initialized (cc_crypt demo_connection) = False"
    by (simp add: demo_connection_def connection_new_def is_initialized_def auth_crypt_new_def)
  have "on_data demo_environment (gateway_of demo_gateway_env 0) [0x30] (demo_connection, gw_state_new empty_world, ()) =
      (Inr (), (demo_connection\<lparr>cc_reader := fr_push [0x30] (cc_reader demo_connection)\<rparr>, gw_state_new empty_world, ()))"
    by (simp add: on_data_def on_data_loop.simps try_connection_frame_def connection_header_kind_def crypt try_frame_def
        header_length_def fr_avail_def demo_connection_def connection_new_def frame_reader_new_def fr_push_def fr_compact_def)
  from on_data_segmentation [OF inv _ this, of "[0x00]"] show ?thesis by simp
qed

end
