(* ===== verification/GatewaySafety.thy ===== *)
theory GatewaySafety
  imports Authentication
begin

text \<open>
  The gateway and the world over every sequence of their operations: the calls of the
  connections' threads, the ticks of the world and the changes of its settings, in any order.
\<close>

section \<open>Operations\<close>

datatype gw_op =
    Op_Attach nat auth_request "account_row option" bool bool
  | Op_Detach nat u32
  | Op_Deliver u32 world_packet
  | Op_Ping u32 u32 u32
  | Op_Limit "32 word"
  | Op_Loading nat bool
  | Op_Tick

text \<open>The flag of a session whose character is being loaded, set and cleared by the game.\<close>

definition set_player_loading :: "nat \<Rightarrow> bool \<Rightarrow> world \<Rightarrow> world world_result" where
  "set_player_loading p b w = sum_bind (deref p w) (\<lambda>s. Inr (store p (s\<lparr>ws_player_loading := b\<rparr>) w))"

fun gw_step :: "'b gateway_env \<Rightarrow> gw_op \<Rightarrow> gw_state \<Rightarrow> gw_state" where
  "gw_step E (Op_Attach link req ctx loads enqueued) g = snd (snd (gateway_attach
     (E\<lparr>ge_session_loads := (\<lambda>row addons. loads), ge_enqueued := (\<lambda>g. enqueued)\<rparr>) link req ctx g))"
| "gw_step E (Op_Detach link sid) g = snd (gateway_detach link sid g)"
| "gw_step E (Op_Deliver sid packet) g = gateway_deliver sid packet g"
| "gw_step E (Op_Ping sid latency run) g = snd (gateway_on_ping sid latency run g)"
| "gw_step E (Op_Limit limit) g = g\<lparr>gs_world := set_player_limit limit (gs_world g)\<rparr>"
| "gw_step E (Op_Loading p b) g = (if om_get (wd_heap (gs_world g)) p = None then g else run_world (set_player_loading p b (gs_world g)) g)"
| "gw_step E Op_Tick g = gateway_tick g"

fun gw_run :: "'b gateway_env \<Rightarrow> gw_op list \<Rightarrow> gw_state \<Rightarrow> gw_state" where
  "gw_run E [] g = g"
| "gw_run E (x # xs) g = gw_run E xs (gw_step E x g)"

section \<open>The world stays well formed\<close>

lemma world_ok_run:
  "world_ok (gs_world g) \<Longrightarrow> (\<And>w. m = Inr w \<Longrightarrow> world_ok w) \<Longrightarrow> world_ok (gs_world (run_world m g))"
  by (auto simp: run_world_def split: sum.split)

lemma world_ok_store:
  assumes ok: "world_ok w" and s: "om_get (wd_heap w) p = Some s"
    and t: "ws_account_id t = ws_account_id s" "ws_in_queue t = ws_in_queue s"
  shows "world_ok (store p t w)"
proof -
  have "ws_account_id s = a" if "om_get (wd_sessions w) a = Some p" for a
    using filed_heap [OF _ that] ok s by (auto simp: world_ok_def)
  then have "world_inv (store p t w)"
    using ok s t by (auto simp: world_ok_def world_inv_def store_def)
  then show ?thesis using ok by (auto simp: world_ok_def store_def pending_def)
qed

lemma world_ok_kick: "world_ok w \<Longrightarrow> kick_player p w = Inr v \<Longrightarrow> world_ok v"
  by (auto simp: kick_player_def sum_bind_Inr_iff close_link_def link_effect_def world_ok_def pending_def world_inv_def
      split: option.splits)

text \<open>A new session: its address is fresh, so it is neither filed, queued nor waiting.\<close>

lemma new_session_ok:
  assumes ok: "world_ok w" and n: "new_session s w = (p, v)" and q: "\<not> ws_in_queue s"
  shows "world_ok v" and "pending p v" and "p \<notin> set (wd_add_queue v)" and "om_get (wd_heap v) p = Some s"
proof -
  have v: "v = store p s (w\<lparr>wd_next_address := Suc p\<rparr>)" and p: "p = wd_next_address w"
    using n by (auto simp: new_session_def)
  have inv: "world_inv w" using ok by (simp add: world_ok_def)
  have fresh: "om_get (wd_heap w) p = None"
    using inv p by (fastforce simp: world_inv_def)
  have nf: "om_get (wd_sessions w) a \<noteq> Some p" for a
    using filed_heap [OF inv, of a p] fresh by auto
  have nq: "p \<notin> set (wd_queued w)" using queued_heap [OF inv, of p] fresh by auto
  show "om_get (wd_heap v) p = Some s" by (simp add: v store_def)
  show pe: "pending p v" using nf by (simp add: pending_def v store_def)
  show "p \<notin> set (wd_add_queue v)" using ok fresh by (auto simp: world_ok_def pending_def v store_def)
  have "world_inv v"
    using inv nf nq q fresh by (auto simp: world_inv_def v store_def p less_Suc_eq split: if_splits)
  then show "world_ok v" using ok fresh by (auto simp: world_ok_def v store_def pending_def)
qed

lemma discard_unpublished_ok:
  assumes ok: "world_ok w" and p: "pending p w" "p \<notin> set (wd_add_queue w)"
  shows "\<exists>v. discard_unpublished p w = Inr v \<and> world_ok v"
proof -
  obtain s where s: "om_get (wd_heap w) p = Some s" using p by (auto simp: pending_def)
  let ?u = "store p (s\<lparr>ws_link := None\<rparr>) w"
  have u: "world_ok ?u" by (rule world_ok_store [OF ok s]) simp_all
  have h: "om_get (wd_heap ?u) p = Some (s\<lparr>ws_link := None\<rparr>)" by (simp add: store_def)
  obtain es cl where d: "delete_session p ?u = Inr (?u\<lparr>wd_heap := om_erase p (wd_heap ?u)\<rparr>\<lparr>wd_effects := es, wd_closed_links := cl\<rparr>)"
    using delete_session_total [OF h] by blast
  have np: "om_get (wd_sessions ?u) a \<noteq> Some p" for a using p by (auto simp: pending_def store_def)
  have "world_inv (?u\<lparr>wd_heap := om_erase p (wd_heap ?u)\<rparr>)"
    by (rule world_inv_delete) (use u np in \<open>auto simp: world_ok_def\<close>)
  then have "world_ok (?u\<lparr>wd_heap := om_erase p (wd_heap ?u)\<rparr>\<lparr>wd_effects := es, wd_closed_links := cl\<rparr>)"
    using ok p by (auto simp: world_ok_def pending_def store_def)
  then show ?thesis using s d by (auto simp: discard_unpublished_def abandon_unpublished_link_def)
qed

lemma gateway_attach_ok:
  assumes "world_ok (gs_world g)"
  shows "world_ok (gs_world (snd (snd (gateway_attach E link req ctx g))))"
proof (cases ctx)
  case None
  then show ?thesis using assms by (simp add: gateway_attach_def)
next
  case (Some row)
  let ?s = "world_session_new (ar_id row) (Some link) (ar_security row) (ar_expansion row)
      (ar_mute_time row) (ar_locale row) (ar_session_key row)"
  obtain p v where n: "new_session ?s (gs_world g) = (p, v)" by fastforce
  note new = new_session_ok [OF assms n]
  have q: "\<not> ws_in_queue ?s" by (simp add: world_session_new_def)
  obtain u where u: "discard_unpublished p v = Inr u" "world_ok u"
    using discard_unpublished_ok [OF new(1-3)] q by blast
  have "world_ok (v\<lparr>wd_add_queue := wd_add_queue v @ [p]\<rparr>)"
    using new(1-3) [OF q] by (auto simp: world_ok_def pending_def)
  then show ?thesis
    using Some n u by (simp add: gateway_attach_def add_session_def run_world_def)
qed

lemma gw_step_ok: "world_ok (gs_world g) \<Longrightarrow> world_ok (gs_world (gw_step E x g))"
proof (cases x)
  case (Op_Attach link req ctx loads enqueued)
  then show "world_ok (gs_world g) \<Longrightarrow> ?thesis" by (simp add: gateway_attach_ok)
next
  case (Op_Detach link sid)
  then show "world_ok (gs_world g) \<Longrightarrow> ?thesis"
    by (auto simp: gateway_detach_def Let_def split: option.split intro!: world_ok_run intro: world_ok_kick)
next
  case (Op_Deliver sid packet)
  then show "world_ok (gs_world g) \<Longrightarrow> ?thesis"
    by (auto simp: gateway_deliver_def queue_packet_def sum_bind_Inr_iff deref_def split: option.splits
        intro!: world_ok_run intro: world_ok_store)
next
  case (Op_Ping sid latency run)
  then show "world_ok (gs_world g) \<Longrightarrow> ?thesis"
    by (auto simp: gateway_on_ping_def Let_def set_latency_def sum_bind_Inr_iff deref_def split: option.splits
        intro!: world_ok_run intro: world_ok_store)
next
  case (Op_Limit limit)
  then show "world_ok (gs_world g) \<Longrightarrow> ?thesis"
    by (simp add: set_player_limit_def world_ok_def world_inv_def pending_def)
next
  case (Op_Loading p b)
  then show "world_ok (gs_world g) \<Longrightarrow> ?thesis"
    by (auto simp: set_player_loading_def sum_bind_Inr_iff deref_def split: option.splits
        intro!: world_ok_run intro: world_ok_store)
next
  case Op_Tick
  then show "world_ok (gs_world g) \<Longrightarrow> ?thesis"
    using update_sessions_spec [of "gs_world g"] by (auto simp: gateway_tick_def run_world_def)
qed

lemma gw_run_ok: "world_ok (gs_world g) \<Longrightarrow> world_ok (gs_world (gw_run E xs g))"
  by (induction xs arbitrary: g) (simp_all add: gw_step_ok)

section \<open>Handles\<close>

definition is_detach :: "u32 \<Rightarrow> gw_op \<Rightarrow> bool" where
  "is_detach sid x \<longleftrightarrow> (case x of Op_Detach link s \<Rightarrow> s = sid | _ \<Rightarrow> False)"

lemma is_detach_simps [simp]:
  "is_detach sid (Op_Detach link s) = (s = sid)" "\<not> is_detach sid (Op_Attach link req ctx loads enqueued)"
  "\<not> is_detach sid (Op_Deliver s packet)" "\<not> is_detach sid (Op_Ping s latency run)"
  "\<not> is_detach sid (Op_Limit limit)" "\<not> is_detach sid (Op_Loading p b)" "\<not> is_detach sid Op_Tick"
  by (simp_all add: is_detach_def)

lemma run_world_registry [simp]:
  "gs_sessions (run_world m g) = gs_sessions g" "gs_next_id (run_world m g) = gs_next_id g"
  by (simp_all add: run_world_def split: sum.split)

lemma gateway_attach_registry:
  "(gs_sessions (snd (snd (gateway_attach E link req ctx g))), gs_next_id (snd (snd (gateway_attach E link req ctx g)))) =
   (if fst (snd (gateway_attach E link req ctx g))
    then (om_put (gs_next_id g) (wd_next_address (gs_world g)) (gs_sessions g), gs_next_id g + 1)
    else (gs_sessions g, gs_next_id g))"
  by (auto simp: gateway_attach_def add_session_def new_session_def split: option.split)

lemma gw_step_registry:
  "\<exists>p. (gs_sessions (gw_step E x g), gs_next_id (gw_step E x g)) \<in>
     {(gs_sessions g, gs_next_id g), (om_put (gs_next_id g) p (gs_sessions g), gs_next_id g + 1)} \<or>
   (\<exists>sid. is_detach sid x \<and> gs_next_id (gw_step E x g) = gs_next_id g \<and>
      gs_sessions (gw_step E x g) = om_erase sid (gs_sessions g))"
proof (cases x)
  case (Op_Attach link req ctx loads enqueued)
  then show ?thesis
    using gateway_attach_registry [of "E\<lparr>ge_session_loads := (\<lambda>row addons. loads), ge_enqueued := (\<lambda>g. enqueued)\<rparr>" link req ctx g]
    by (simp split: if_splits) blast+
next
  case (Op_Detach link sid)
  then show ?thesis
    by (cases "om_get (gs_sessions g) sid") (auto simp: gateway_detach_def Let_def)
qed (auto simp: gateway_deliver_def gateway_on_ping_def gateway_tick_def Let_def split: option.split)

lemma unat_next: "unat (n :: u32) + 1 < 2 ^ 32 \<Longrightarrow> unat (n + 1) = unat n + 1"
  by (simp add: unat_word_ariths)

text \<open>A handle below the counter only ever loses its entry, and only by its own \<open>Detach\<close>.\<close>

lemma gw_step_handle:
  assumes "unat sid < unat (gs_next_id g)" and "unat (gs_next_id g) + 1 < 2 ^ 32"
  shows "gateway_find sid (gw_step E x g) = (if is_detach sid x then None else gateway_find sid g)"
    and "unat sid < unat (gs_next_id (gw_step E x g))"
    and "unat (gs_next_id (gw_step E x g)) \<le> unat (gs_next_id g) + 1"
proof -
  have ne: "sid \<noteq> gs_next_id g" using assms(1) by auto
  have det: "is_detach sid x \<Longrightarrow> gateway_find sid (gw_step E x g) = None"
    by (cases x) (auto simp: gateway_detach_def gateway_find_def Let_def split: option.split)
  from gw_step_registry [of E x g] ne det
  show "gateway_find sid (gw_step E x g) = (if is_detach sid x then None else gateway_find sid g)"
    by (cases x) (auto simp: gateway_find_def)
  from gw_step_registry [of E x g] assms unat_next [of "gs_next_id g"]
  show "unat sid < unat (gs_next_id (gw_step E x g))" "unat (gs_next_id (gw_step E x g)) \<le> unat (gs_next_id g) + 1"
    by auto
qed

lemma gw_run_handle:
  "unat sid < unat (gs_next_id g) \<Longrightarrow> unat (gs_next_id g) + length xs < 2 ^ 32 \<Longrightarrow>
     gateway_find sid (gw_run E xs g) = (if \<exists>x \<in> set xs. is_detach sid x then None else gateway_find sid g)"
proof (induction xs arbitrary: g)
  case Nil
  then show ?case by simp
next
  case (Cons x xs)
  from Cons.prems have "unat (gs_next_id g) + 1 < 2 ^ 32" by simp
  note step = gw_step_handle [OF Cons.prems(1) this, of E x]
  from Cons.IH [OF step(2)] step(1,3) Cons.prems(2) show ?case by auto
qed

section \<open>The stale session pointer\<close>

text \<open>
  When an account logs in again, the tick deletes its old session (\<open>AddSession_\<close>), but nothing
  removes the old session from the gateway's registry: the old connection's next \<open>Deliver\<close>,
  \<open>OnPing\<close> or \<open>Detach\<close> uses the deleted object.
\<close>

lemma stale_session_fault:
  assumes ok: "world_ok (gs_world g)" and nf: "gs_fault g = None"
    and h: "gateway_find sid g = Some old" "om_get (wd_sessions (gs_world g)) account = Some old"
    and nl: "\<not> old_loading account (gs_world g)"
    and q: "wd_add_queue (gs_world g) = [p]" "om_get (wd_heap (gs_world g)) p = Some s" "ws_account_id s = account"
  shows "gs_fault (gateway_deliver sid packet (gateway_tick g)) = Some (UseAfterFree old)"
    and "gs_fault (snd (gateway_detach link sid (gateway_tick g))) = Some (UseAfterFree old)"
proof -
  let ?w = "gs_world g"
  have inv: "world_inv ?w" and pe: "pending p ?w" using ok q by (auto simp: world_ok_def)
  obtain u v where uv: "add_sessions [p] ?w = Inr u" "update_sessions ?w = Inr v" "deleted_stay u v"
    using update_sessions_spec [OF ok] q(1) by auto
  obtain u' where "add_session_world p ?w = Inr u'" "added p account ?w u'"
    using add_session_world_spec [OF inv pe q(2)] q(3) by auto
  then have "om_get (wd_heap u) old = None" using uv(1) h(2) nl by (auto simp: added_def)
  then have "om_get (wd_heap v) old = None" using uv(3) by (simp add: deleted_stay_def)
  moreover have "gateway_tick g = g\<lparr>gs_world := v\<rparr>" using uv(2) by (simp add: gateway_tick_def run_world_def)
  ultimately show "gs_fault (gateway_deliver sid packet (gateway_tick g)) = Some (UseAfterFree old)"
    "gs_fault (snd (gateway_detach link sid (gateway_tick g))) = Some (UseAfterFree old)"
    using h(1) nf
    by (simp_all add: gateway_deliver_def gateway_detach_def gateway_find_def queue_packet_def kick_player_def
        run_world_def Let_def)
qed

section \<open>Properties\<close>

text \<open>
  C3: The world never uses a deleted session, in any interleaving. Whatever the connections'
  threads call on the gateway between the ticks (attaching, failing to attach, delivering, pinging,
  detaching, with live or stale handles) and however the player limit and the loading flags
  change, the next tick of the world succeeds and leaves a well formed world.
\<close>

theorem world_safe_under_gateway:
  assumes "world_ok (gs_world g)"
  shows "\<exists>v. update_sessions (gs_world (gw_run E xs g)) = Inr v \<and> world_ok v"
  using update_sessions_spec [OF gw_run_ok [OF assms]] by blast

theorem world_safe_under_gateway_witness:
  "\<exists>v. update_sessions (gs_world (gw_run demo_gateway_env
     [Op_Tick, Op_Attach 14 demo_request None True True, Op_Limit 0, Op_Detach 14 3] (gw_state_new demo_world))) = Inr v \<and> world_ok v"
proof -
  have "world_ok (gs_world (gw_state_new demo_world))" by (simp add: gw_state_new_def demo_world_ok)
  then show ?thesis by (rule world_safe_under_gateway)
qed

text \<open>
  C23: A handle means one session. The handle a successful \<open>Attach\<close> returns resolves to the
  session that call created, through any later operations, until its own \<open>Detach\<close>, and to nothing
  from then on: while the 32-bit counter has not wrapped, no later login can be reached through it.
\<close>

theorem handle_means_one_session:
  assumes "gateway_attach E link req ctx g = (sid, True, g')" and "unat (gs_next_id g) + length xs + 1 < 2 ^ 32"
  shows "gateway_find sid (gw_run F xs g') =
    (if \<exists>x \<in> set xs. is_detach sid x then None else Some (wd_next_address (gs_world g)))"
proof -
  have sid: "sid = gs_next_id g"
    using assms(1) by (auto simp: gateway_attach_def split: option.splits prod.splits if_splits bool.splits)
  have reg: "gs_sessions g' = om_put (gs_next_id g) (wd_next_address (gs_world g)) (gs_sessions g)"
    "gs_next_id g' = gs_next_id g + 1"
    using gateway_attach_registry [of E link req ctx g] assms(1) by simp_all
  have "unat (gs_next_id g') = unat (gs_next_id g) + 1" using assms(2) reg(2) by (simp add: unat_next)
  then show ?thesis
    using gw_run_handle [of sid g' xs F] assms(2) sid reg(1) by (simp add: gateway_find_def)
qed

definition demo_row :: account_row where
  "demo_row = account_row_new\<lparr>ar_id := 7\<rparr>"

theorem handle_means_one_session_witness:
  "\<exists>sid g'. gateway_attach demo_gateway_env 9 demo_request (Some demo_row) (gw_state_new empty_world) = (sid, True, g') \<and>
     gateway_find sid (gw_run demo_gateway_env [Op_Tick, Op_Ping sid 0 0] g') = Some 0"
proof -
  obtain g' where a: "gateway_attach demo_gateway_env 9 demo_request (Some demo_row) (gw_state_new empty_world) = (1, True, g')"
    by (simp add: gateway_attach_def demo_gateway_env_def new_session_def add_session_def gw_state_new_def)
  from handle_means_one_session [OF a, of "[Op_Tick, Op_Ping 1 0 0]" demo_gateway_env] a show ?thesis
    by (auto simp: gw_state_new_def empty_world_def)
qed

text \<open>
  C24: The hazard the gateway leaves. When an account logs in again while its old session is in
  the world, the tick that admits the new session deletes the old one, and the handle of the old
  connection still resolves to it: its next \<open>Deliver\<close>, or the \<open>Detach\<close> of its close notification,
  uses freed memory.
\<close>

theorem stale_session_use_after_free:
  assumes "world_ok (gs_world g)" and "gs_fault g = None"
    and "gateway_find sid g = Some old" and "om_get (wd_sessions (gs_world g)) account = Some old"
    and "\<not> old_loading account (gs_world g)"
    and "wd_add_queue (gs_world g) = [p]" and "om_get (wd_heap (gs_world g)) p = Some s" and "ws_account_id s = account"
  shows "gs_fault (gateway_deliver sid packet (gateway_tick g)) = Some (UseAfterFree old) \<and>
    gs_fault (snd (gateway_detach link sid (gateway_tick g))) = Some (UseAfterFree old)"
  using stale_session_fault [OF assms] by blast

theorem stale_session_use_after_free_witness:
  "gs_fault (snd (gateway_detach 11 1 (gateway_tick (gw_state_new demo_world\<lparr>gs_next_id := 2, gs_sessions := [(1, 1)]\<rparr>))))
     = Some (UseAfterFree 1)"
proof -
  let ?g = "gw_state_new demo_world\<lparr>gs_next_id := 2, gs_sessions := [(1, 1)]\<rparr>"
  have "world_ok (gs_world ?g)" "gs_fault ?g = None" "gateway_find 1 ?g = Some 1"
    "om_get (wd_sessions (gs_world ?g)) 5 = Some 1" "\<not> old_loading 5 (gs_world ?g)"
    "wd_add_queue (gs_world ?g) = [3]" "om_get (wd_heap (gs_world ?g)) 3 = Some (demo_session 5 13)"
    by (simp_all add: gw_state_new_def demo_world_ok gateway_find_def om_get_def old_loading_def)
       (simp_all add: demo_world_def om_get_def)
  from stale_session_use_after_free [OF this demo_session_simps(1)] show ?thesis by blast
qed

end
