(* ===== verification/PacketWriter.thy ===== *)
theory PacketWriter
  imports AuthResponse ObjectGuid
begin

text \<open>
  A calculus for packets that are written field after field: \<open>appends f xs\<close> says that the writer
  \<open>f\<close> appends the bytes \<open>xs\<close> to any byte-aligned buffer below the size limit, \<open>emits f bs\<close> that it
  writes the bits \<open>bs\<close>. Both compose along \<open>chain\<close>, so that the layout of a packet is read off
  the list of its writers.
\<close>

definition appends :: "writer \<Rightarrow> u8 list \<Rightarrow> bool" where
  "appends f xs \<longleftrightarrow>
     (\<forall>b. aligned b \<longrightarrow> bb_size b + length xs < 10000000 \<longrightarrow> f b = Inr (bb_extend xs b))"

definition emits :: "writer \<Rightarrow> bool list \<Rightarrow> bool" where
  "emits f bs \<longleftrightarrow>
     (\<forall>b. writer_inv b \<longrightarrow> bb_size b + length bs < 10000000 \<longrightarrow>
       (\<exists>b'. f b = Inr b' \<and> writer_inv b' \<and> bits_written b' = bits_written b @ bs \<and>
          bb_size b' \<le> bb_size b + length bs \<and> byte_buffer.more b' = byte_buffer.more b))"

named_theorems writes \<open>what the primitive writers append or emit\<close>

lemma appendsD: "appends f xs \<Longrightarrow> aligned b \<Longrightarrow> bb_size b + length xs < 10000000 \<Longrightarrow> f b = Inr (bb_extend xs b)"
  by (simp add: appends_def)

lemma appends_value [writes]:
  "appends (put_u8 v8) [v8]"
  "appends (put_u32 v32) (le_bytes 4 v32)"
  "appends (put_u64 v64) (le_bytes 8 v64)"
  "appends (append_value v8) [v8]"
  by (simp_all add: appends_def put_aligned le_bytes_step)

lemma appends_string [writes]: "appends (put_string s) (s @ [0])"
  by (simp add: appends_def put_string_aligned)

lemma appends_bytes [writes]: "appends (append_bytes s) s"
  by (auto simp: appends_def append_bytes_at_end)

lemma appends_Inr [writes]: "appends Inr []"
  by (simp add: appends_def bb_extend_Nil)

lemma appends_chain_Cons:
  assumes "appends f xs" and "appends (chain fs) ys"
  shows "appends (chain (f # fs)) (xs @ ys)"
  unfolding appends_def
proof (intro allI impI)
  fix b :: world_packet
  assume b: "aligned b" "bb_size b + length (xs @ ys) < 10000000"
  then have "f b = Inr (bb_extend xs b)" using assms by (auto simp: appends_def)
  moreover have "aligned (bb_extend xs b)" using b(1) by (simp add: aligned_def)
  ultimately show "chain (f # fs) b = Inr (bb_extend (xs @ ys) b)"
    using b(2) assms by (simp add: appends_def)
qed

lemma appends_chain_Nil [writes]: "appends (chain []) []"
  by (simp add: appends_def bb_extend_Nil)

lemma appends_chain_byte: "appends (put_u8 v) [v] \<Longrightarrow> appends (chain fs) ys \<Longrightarrow> appends (chain (put_u8 v # fs)) (v # ys)"
  using appends_chain_Cons [of "put_u8 v" "[v]"] by simp

lemma appends_if [writes]:
  "appends f xs \<Longrightarrow> appends g ys \<Longrightarrow> appends (if c then f else g) (if c then xs else ys)"
  by simp

lemma appends_guid_bytes [writes]:
  "set q \<subseteq> {..<8} \<Longrightarrow> appends (write_guid_bytes g q) (map (\<lambda>i. guid_byte g i XOR 1) (filter (\<lambda>i. guid_byte g i \<noteq> 0) q))"
  unfolding appends_def
proof (intro allI impI)
  fix b :: world_packet
  assume "set q \<subseteq> {..<8}" "aligned b"
    "bb_size b + length (map (\<lambda>i. guid_byte g i XOR 1) (filter (\<lambda>i. guid_byte g i \<noteq> 0) q)) < 10000000"
  then show "write_guid_bytes g q b =
      Inr (bb_extend (map (\<lambda>i. guid_byte g i XOR 1) (filter (\<lambda>i. guid_byte g i \<noteq> 0) q)) b)"
  proof (induction q arbitrary: b)
    case (Cons i q)
    then show ?case by (cases "guid_byte g i = 0") (simp_all add: put_aligned aligned_def le_bytes_step)
  qed (simp add: bb_extend_Nil)
qed

section \<open>Bits\<close>

lemma append_bytes_more: "append_bytes xs b = Inr b' \<Longrightarrow> byte_buffer.more b' = byte_buffer.more b"
  by (auto simp: append_bytes_def Let_def split: if_splits)

lemma write_bit_more: "write_bit x b = Inr b' \<Longrightarrow> byte_buffer.more b' = byte_buffer.more b"
  by (auto simp: write_bit_def Let_def sum_bind_Inr_iff split: if_splits dest!: append_bytes_more)

lemma emits_bit [writes]: "emits (write_bit x) [x]"
  unfolding emits_def
  by (metis write_bit_more add_lessD1 length_Cons list.size(3) One_nat_def write_bit_refines)

lemma write_bits_more: "write_bits v n b = Inr b' \<Longrightarrow> byte_buffer.more b' = byte_buffer.more b"
  by (induction v n b rule: write_bits.induct) (auto simp: sum_bind_Inr_iff dest: write_bit_more)

lemma emits_bits [writes]: "emits (write_bits v n) (word_bits v n)"
  unfolding emits_def
  by (metis write_bits_more length_word_bits write_bits_refines)

lemma emits_chain_Nil [writes]: "emits (chain []) []"
  by (auto simp: emits_def)

lemma emits_chain_Cons:
  assumes "emits f xs" and "emits (chain fs) ys"
  shows "emits (chain (f # fs)) (xs @ ys)"
  unfolding emits_def
proof (intro allI impI)
  fix b :: world_packet
  assume b: "writer_inv b" "bb_size b + length (xs @ ys) < 10000000"
  then obtain c where c: "f b = Inr c" "writer_inv c" "bits_written c = bits_written b @ xs"
    "bb_size c \<le> bb_size b + length xs" "byte_buffer.more c = byte_buffer.more b"
    using assms(1) unfolding emits_def by fastforce
  then obtain d where "chain fs c = Inr d" "writer_inv d" "bits_written d = bits_written c @ ys"
    "bb_size d \<le> bb_size c + length ys" "byte_buffer.more d = byte_buffer.more c"
    using assms(2) b unfolding emits_def by fastforce
  with c show "\<exists>b'. chain (f # fs) b = Inr b' \<and> writer_inv b' \<and> bits_written b' = bits_written b @ xs @ ys \<and>
      bb_size b' \<le> bb_size b + length (xs @ ys) \<and> byte_buffer.more b' = byte_buffer.more b"
    by auto
qed

lemma chain_last: "chain [f] = f"
proof
  fix s
  show "chain [f] s = f s" by (cases "f s") simp_all
qed

lemma emits_chain_bit: "emits (write_bit x) [x] \<Longrightarrow> emits (chain fs) ys \<Longrightarrow> emits (chain (write_bit x # fs)) (x # ys)"
  using emits_chain_Cons [of "write_bit x" "[x]"] by simp

lemma emits_guid_mask [writes]:
  "set p \<subseteq> {..<8} \<Longrightarrow> emits (write_guid_mask g p) (map (\<lambda>i. guid_byte g i \<noteq> 0) p)"
proof (induction p)
  case (Cons i p)
  then have "emits (chain [write_bit (guid_byte g i \<noteq> 0), write_guid_mask g p])
      ([guid_byte g i \<noteq> 0] @ map (\<lambda>i. guid_byte g i \<noteq> 0) p @ [])"
    by (intro emits_chain_Cons writes) simp_all
  moreover have "chain [write_bit (guid_byte g i \<noteq> 0), write_guid_mask g p] = (write_guid_mask g (i # p) :: writer)"
  proof
    fix b :: world_packet
    have id: "sum_bind m (chain []) = m" for m :: "bb_error + world_packet" by (cases m) simp_all
    show "chain [write_bit (guid_byte g i \<noteq> 0), write_guid_mask g p] b = write_guid_mask g (i # p) b"
      using Cons.prems by (cases "write_bit (guid_byte g i \<noteq> 0) b") (simp_all add: id)
  qed
  ultimately show ?case by (simp del: write_guid_mask.simps)
qed (simp add: emits_def)

lemma flush_bits_more: "flush_bits b = Inr b' \<Longrightarrow> byte_buffer.more b' = byte_buffer.more b"
  by (auto simp: flush_bits_def sum_bind_Inr_iff split: if_splits dest!: append_bytes_more)

text \<open>A packet of a bit section, padded to bytes, and a byte section.\<close>

lemma bits_then_bytes:
  assumes "emits f bs" and "appends g xs" and "length bs + length xs < 9999999"
  shows "\<exists>p hdr n. chain [f, flush_bits, g] (world_packet_new opc) = Inr p \<and> wp_opcode p = opc \<and>
    bb_storage p = hdr @ xs \<and> n < 8 \<and> bytes_bits hdr = bs @ replicate n False"
proof -
  obtain b where b: "f (world_packet_new opc) = Inr b" "writer_inv b" "bits_written b = bs"
    "bb_size b \<le> length bs" "byte_buffer.more b = byte_buffer.more (world_packet_new opc)"
    using assms(1,3) unfolding emits_def by (fastforce dest: spec [of _ "world_packet_new opc"])
  have "bb_size b < 10000000" using b(4) assms(3) by simp
  from flush_bits_refines [OF b(2) this] obtain c n where c: "flush_bits b = Inr c" "aligned c" "n < 8"
    "bytes_bits (bb_storage c) = bits_written b @ replicate n False" "bb_size c \<le> bb_size b + 1"
    by metis
  have "g c = Inr (bb_extend xs c)"
    using c b(4) assms(2,3) by (simp add: appends_def)
  moreover have "wp_opcode (bb_extend xs c) = opc"
    using flush_bits_more [OF c(1)] b(5) by (cases c; cases b) (simp add: bb_extend_def world_packet_new_def)
  ultimately show ?thesis using b c by auto
qed

section \<open>Evaluating reads\<close>

text \<open>Rules by which \<open>simp\<close> reads a concrete packet; \<open>sum_bind_weak\<close> keeps the continuations folded.\<close>

lemma sum_bind_weak: "m = m' \<Longrightarrow> sum_bind m k = sum_bind m' k"
  by simp

lemma read_bits_numeral:
  "read_bits_loop v (numeral k) b = sum_bind (read_bit b)
     (\<lambda>(x, b). read_bits_loop (if x then v OR push_bit (pred_numeral k) 1 else v) (pred_numeral k) b)"
  by (simp add: numeral_eq_Suc)

lemma read_bits_one:
  "read_bits_loop v (Suc 0) b = sum_bind (read_bit b) (\<lambda>(x, b). Inr (if x then v OR push_bit 0 1 else v, b))"
  by (cases "read_bit b") (auto split: prod.split)

lemmas read_eval =
  read_bit_def read_bits_def read_bits_numeral read_bits_one read_value_def read_at_def get_u8_def get_u16_def
  get_u32_def Let_def bb_size_def reset_bit_reader_def world_packet_new_def read_string_def
  read_string_loop.simps size_minus_def

end
