(* ===== verification/ChatPackets.thy ===== *)
theory ChatPackets
  imports PacketWriter
begin

text \<open>
  The chat packets: namespace \<open>MopChatPackets\<close> of \<open>src/src/game/WorldHandlers/Chat.h\<close> and
  \<open>ChatHandler::BuildChatPacket\<close> of \<open>ChatMessage.cpp\<close>. Texts are byte lists; a \<open>char const*\<close>
  that may be null is an option. \<open>ChatMsg\<close> and \<open>Language\<close> are unscoped enums with values up to
  \<open>0xFFFFFFFF\<close>, so they are 32-bit words.
\<close>

section \<open>Codes\<close>

abbreviation (input) SMSG_MESSAGECHAT :: u16 where "SMSG_MESSAGECHAT \<equiv> 0x1A9A"
abbreviation (input) SMSG_TEXT_EMOTE :: u16 where "SMSG_TEXT_EMOTE \<equiv> 0x002E"
abbreviation (input) SMSG_CHAT_PLAYER_NOT_FOUND :: u16 where "SMSG_CHAT_PLAYER_NOT_FOUND \<equiv> 0x1082"
abbreviation (input) SMSG_CHAT_PLAYER_AMBIGUOUS :: u16 where "SMSG_CHAT_PLAYER_AMBIGUOUS \<equiv> 0x061A"
abbreviation (input) SMSG_CHAT_RESTRICTED :: u16 where "SMSG_CHAT_RESTRICTED \<equiv> 0x1A3B"

abbreviation (input) LANG_UNIVERSAL :: u32 where "LANG_UNIVERSAL \<equiv> 0"
abbreviation (input) LANG_ADDON :: u32 where "LANG_ADDON \<equiv> 0xFFFFFFFF"
abbreviation (input) CHAT_TAG_GM :: u32 where "CHAT_TAG_GM \<equiv> 0x04"
abbreviation (input) CHAT_MSG_CHANNEL :: u32 where "CHAT_MSG_CHANNEL \<equiv> 0x11"
abbreviation (input) CHAT_MSG_ACHIEVEMENT :: u32 where "CHAT_MSG_ACHIEVEMENT \<equiv> 0x30"
abbreviation (input) CHAT_MSG_GUILD_ACHIEVEMENT :: u32 where "CHAT_MSG_GUILD_ACHIEVEMENT \<equiv> 0x31"

section \<open>Notices and requests\<close>

definition build_player_name_notice :: "u16 \<Rightarrow> u8 list \<Rightarrow> world_packet \<Rightarrow> bb_error + (bool \<times> world_packet)" where
  "build_player_name_notice opcode name out =
     (if length name \<ge> 2 ^ 9 then Inr (False, out)
      else sum_bind (chain [write_bits (of_nat (length name) :: u64) 9, flush_bits, append_bytes name]
                       (wp_initialize opcode out))
             (\<lambda>out. Inr (True, out)))"

definition build_player_not_found :: "u8 list \<Rightarrow> world_packet \<Rightarrow> bb_error + (bool \<times> world_packet)" where
  "build_player_not_found name = build_player_name_notice SMSG_CHAT_PLAYER_NOT_FOUND name"

definition build_player_ambiguous :: "u8 list \<Rightarrow> world_packet \<Rightarrow> bb_error + (bool \<times> world_packet)" where
  "build_player_ambiguous name = build_player_name_notice SMSG_CHAT_PLAYER_AMBIGUOUS name"

definition build_chat_restricted_notice :: "u8 \<Rightarrow> writer" where
  "build_chat_restricted_notice restriction out = put_u8 restriction (wp_initialize SMSG_CHAT_RESTRICTED out)"

text \<open>The readers return the text, or \<open>None\<close> where the C++ returns false.\<close>

definition read_say_message_request :: "world_packet \<Rightarrow> bb_error + (u8 list option \<times> world_packet)" where
  "read_say_message_request p =
     (if bb_rpos p \<ge> bb_size p then Inr (None, bb_rfinish p)
      else sum_bind (read_bits 8 p) (\<lambda>(n, p).
        let n = (ucast n :: u8) in
        if unat n \<noteq> size_minus (bb_size p) (bb_rpos p) then Inr (None, bb_rfinish p)
        else sum_bind (read_string (ucast n) p) (\<lambda>(message, p). Inr (Some message, p))))"

definition read_afk_message_request :: "world_packet \<Rightarrow> bb_error + (u8 list option \<times> world_packet)" where
  "read_afk_message_request p =
     (if bb_rpos p \<ge> bb_size p then Inr (None, bb_rfinish p)
      else sum_bind (get_u8 p) (\<lambda>(n, p).
        if unat n \<noteq> size_minus (bb_size p) (bb_rpos p) then Inr (None, bb_rfinish p)
        else sum_bind (read_string (ucast n) p) (\<lambda>(message, p). Inr (Some message, p))))"

fun read_prefix_lengths :: "nat \<Rightarrow> world_packet \<Rightarrow> bb_error + (u8 list \<times> world_packet)" where
  "read_prefix_lengths 0 p = Inr ([], p)"
| "read_prefix_lengths (Suc n) p =
     sum_bind (read_bits 5 p) (\<lambda>(l, p).
       sum_bind (read_prefix_lengths n p) (\<lambda>(ls, p). Inr (ucast l # ls, p)))"

fun read_prefixes :: "u8 list \<Rightarrow> u8 list list \<Rightarrow> world_packet \<Rightarrow> bb_error + (u8 list list \<times> world_packet)" where
  "read_prefixes [] prefixes p = Inr (prefixes, p)"
| "read_prefixes (l # ls) prefixes p =
     sum_bind (read_string (ucast l) p) (\<lambda>(s, p). read_prefixes ls (prefixes @ [s]) p)"

text \<open>\<open>prefixes\<close> is the session's list, which the batch extends or, when it is too long, empties.\<close>

definition read_addon_prefix_batch ::
  "u8 list list \<Rightarrow> world_packet \<Rightarrow> bb_error + (bool \<times> u8 list list \<times> world_packet)" where
  "read_addon_prefix_batch prefixes p =
     sum_bind (read_bits 24 p) (\<lambda>(n, p).
       if n > 64 \<or> length prefixes + unat n > 64 then Inr (False, [], bb_rfinish p)
       else sum_bind (read_prefix_lengths (unat n) p) (\<lambda>(ls, p).
              sum_bind (read_prefixes ls prefixes p) (\<lambda>(prefixes, p). Inr (True, prefixes, p))))"

section \<open>The chat message\<close>

text \<open>\<open>cm_fake_time\<close> is the memory image of the \<open>float\<close>.\<close>

record chat_message =
  cm_chat_type :: u32
  cm_language :: u32
  cm_chat_tag :: u32
  cm_sender_guid :: u64
  cm_receiver_guid :: u64
  cm_group_guid :: u64
  cm_guild_guid :: u64
  cm_realm_id1 :: u32
  cm_realm_id2 :: u32
  cm_achievement_id :: u32
  cm_text :: "u8 list"
  cm_sender_name :: "u8 list"
  cm_receiver_name :: "u8 list"
  cm_channel_name :: "u8 list"
  cm_addon_prefix :: "u8 list"
  cm_hide_in_chat_log :: bool
  cm_has_fake_time :: bool
  cm_fake_time :: u32

definition message_bits :: "chat_message \<Rightarrow> writer" where
  "message_bits m =
     chain
       [write_bit (cm_sender_name m = []),
        write_bit (cm_hide_in_chat_log m),
        if cm_sender_name m \<noteq> [] then write_bits (of_nat (length (cm_sender_name m)) :: u64) 11 else Inr,
        write_bit False,
        write_bit (cm_channel_name m = []),
        write_bit False,
        write_bit (\<not> cm_has_fake_time m),
        write_bit (cm_chat_tag m = 0),
        write_bit (cm_realm_id1 m = 0),
        write_guid_mask (cm_group_guid m) [0, 1, 5, 4, 3, 2, 6, 7],
        if cm_chat_tag m \<noteq> 0 then write_bits (cm_chat_tag m) 9 else Inr,
        write_bit False,
        write_guid_mask (cm_receiver_guid m) [7, 6, 1, 4, 0, 2, 3, 5],
        write_bit False,
        write_bit (cm_language m = LANG_UNIVERSAL),
        write_bit (cm_addon_prefix m = []),
        write_guid_mask (cm_sender_guid m) [0, 3, 7, 2, 1, 5, 4, 6],
        write_bit (\<not> ((cm_chat_type m = CHAT_MSG_ACHIEVEMENT \<or> cm_chat_type m = CHAT_MSG_GUILD_ACHIEVEMENT) \<and>
                     cm_achievement_id m \<noteq> 0)),
        write_bit (cm_text m = []),
        if cm_channel_name m \<noteq> [] then write_bits (of_nat (length (cm_channel_name m)) :: u64) 7 else Inr,
        if cm_text m \<noteq> [] then write_bits (of_nat (length (cm_text m)) :: u64) 12 else Inr,
        write_bit (cm_receiver_name m = []),
        if cm_addon_prefix m \<noteq> [] then write_bits (of_nat (length (cm_addon_prefix m)) :: u64) 5 else Inr,
        write_bit (cm_realm_id2 m = 0),
        if cm_receiver_name m \<noteq> [] then write_bits (of_nat (length (cm_receiver_name m)) :: u64) 11 else Inr,
        write_bit False,
        write_guid_mask (cm_guild_guid m) [2, 5, 7, 4, 0, 1, 3, 6]]"

definition message_bytes :: "chat_message \<Rightarrow> writer" where
  "message_bytes m =
     chain
       [write_guid_bytes (cm_guild_guid m) [4, 5, 7, 3, 2, 6, 0, 1],
        if cm_channel_name m \<noteq> [] then append_bytes (cm_channel_name m) else Inr,
        if cm_addon_prefix m \<noteq> [] then append_bytes (cm_addon_prefix m) else Inr,
        if cm_has_fake_time m then put_u32 (cm_fake_time m) else Inr,
        write_guid_bytes (cm_sender_guid m) [4, 7, 1, 5, 0, 6, 2, 3],
        put_u8 (ucast (cm_chat_type m)),
        if (cm_chat_type m = CHAT_MSG_ACHIEVEMENT \<or> cm_chat_type m = CHAT_MSG_GUILD_ACHIEVEMENT) \<and>
           cm_achievement_id m \<noteq> 0 then put_u32 (cm_achievement_id m) else Inr,
        write_guid_bytes (cm_group_guid m) [1, 3, 4, 6, 0, 2, 5, 7],
        write_guid_bytes (cm_receiver_guid m) [2, 5, 3, 6, 7, 4, 1, 0],
        if cm_language m \<noteq> LANG_UNIVERSAL then put_u8 (ucast (cm_language m)) else Inr,
        if cm_realm_id2 m \<noteq> 0 then put_u32 (cm_realm_id2 m) else Inr,
        if cm_text m \<noteq> [] then append_bytes (cm_text m) else Inr,
        if cm_receiver_name m \<noteq> [] then append_bytes (cm_receiver_name m) else Inr,
        if cm_sender_name m \<noteq> [] then append_bytes (cm_sender_name m) else Inr,
        if cm_realm_id1 m \<noteq> 0 then put_u32 (cm_realm_id1 m) else Inr]"

definition message_fits :: "chat_message \<Rightarrow> bool" where
  "message_fits m \<longleftrightarrow>
     \<not> (length (cm_sender_name m) \<ge> 2 ^ 11 \<or> length (cm_receiver_name m) \<ge> 2 ^ 11 \<or>
        length (cm_channel_name m) \<ge> 2 ^ 7 \<or> length (cm_addon_prefix m) \<ge> 2 ^ 5 \<or>
        length (cm_text m) \<ge> 2 ^ 12 \<or> cm_chat_tag m \<ge> 2 ^ 9)"

definition build_message :: "chat_message \<Rightarrow> world_packet \<Rightarrow> bb_error + (bool \<times> world_packet)" where
  "build_message m out =
     (if \<not> message_fits m then Inr (False, out)
      else sum_bind (chain [message_bits m, flush_bits, message_bytes m] (wp_initialize SMSG_MESSAGECHAT out))
             (\<lambda>out. Inr (True, out)))"

section \<open>BuildChatPacket\<close>

definition guid_is_pet :: "guid \<Rightarrow> bool" where
  "guid_is_pet g \<longleftrightarrow> get_high g = HIGHGUID_PET"

text \<open>What it asks of the world: the realm and the group and guild of an online player.\<close>

record chat_lookup =
  cl_realm_id :: u32
  cl_group_and_guild :: "guid \<Rightarrow> (guid option \<times> guid) option"

definition need :: "'a option \<Rightarrow> bb_error + 'a" where
  "need x = (case x of None \<Rightarrow> Inl AssertFailed | Some v \<Rightarrow> Inr v)"

definition chat_names :: "u32 \<Rightarrow> bool \<Rightarrow> u8 list option \<Rightarrow> guid \<Rightarrow> u8 list option \<Rightarrow> u8 list option \<Rightarrow>
    chat_message \<Rightarrow> bb_error + chat_message" where
  "chat_names msgtype isGM senderName targetGuid targetName channelName m =
     (if msgtype \<in> {0x02, 0x33, 0x03, 0x27, 0x28, 0x04, 0x05, 0x31} then Inr m
      else if msgtype \<in> {0x0F, 0x2A, 0x0C, 0x0D, 0x0E, 0x10, 0x29, 0x2F, 0x08}
      then sum_bind
             (if msgtype \<in> {0x0F, 0x2A} \<and> targetGuid \<noteq> 0 \<and> \<not> guid_is_player targetGuid \<and> \<not> guid_is_pet targetGuid
              then sum_bind (need targetName) (\<lambda>n. Inr (m\<lparr>cm_receiver_name := n\<rparr>))
              else Inr m)
             (\<lambda>m. sum_bind (need senderName) (\<lambda>n. Inr (m\<lparr>cm_sender_name := n\<rparr>)))
      else if msgtype \<in> {0x24, 0x25, 0x26}
      then (if targetGuid \<noteq> 0 \<and> \<not> guid_is_player targetGuid
            then sum_bind (need targetName) (\<lambda>n. Inr (m\<lparr>cm_receiver_name := n\<rparr>))
            else Inr m)
      else if msgtype = CHAT_MSG_CHANNEL
      then sum_bind (need channelName) (\<lambda>c.
             sum_bind (need senderName) (\<lambda>n. Inr (m\<lparr>cm_channel_name := c, cm_sender_name := n\<rparr>)))
      else if isGM then sum_bind (need senderName) (\<lambda>n. Inr (m\<lparr>cm_sender_name := n\<rparr>))
      else Inr m)"

definition chat_groups :: "chat_lookup \<Rightarrow> u32 \<Rightarrow> guid \<Rightarrow> chat_message \<Rightarrow> chat_message" where
  "chat_groups env msgtype senderGuid m =
     (let hasGroupGuid = msgtype \<in> {0x02, 0x33, 0x03, 0x27, 0x28};
          hasGuildGuid = msgtype \<in> {0x04, 0x05, 0x31}
      in if (hasGroupGuid \<or> hasGuildGuid) \<and> senderGuid \<noteq> 0
         then case cl_group_and_guild env senderGuid of
                None \<Rightarrow> m
              | Some (grp, guild) \<Rightarrow>
                  (let m = (case grp of Some g \<Rightarrow> if hasGroupGuid then m\<lparr>cm_group_guid := g\<rparr> else m | None \<Rightarrow> m)
                   in if hasGuildGuid then m\<lparr>cm_guild_guid := guild\<rparr> else m)
         else m)"

definition build_chat_packet ::
  "chat_lookup \<Rightarrow> u32 \<Rightarrow> u8 list option \<Rightarrow> u32 \<Rightarrow> u32 \<Rightarrow> guid \<Rightarrow> u8 list option \<Rightarrow> guid \<Rightarrow> u8 list option \<Rightarrow>
    u8 list option \<Rightarrow> u32 \<Rightarrow> u8 list option \<Rightarrow> writer" where
  "build_chat_packet env msgtype message language chatTag senderGuid senderName targetGuid targetName
     channelName achievementId addonPrefix out =
     sum_bind (need message) (\<lambda>text.
       let m = \<lparr>cm_chat_type = msgtype, cm_language = language, cm_chat_tag = chatTag,
                cm_sender_guid = senderGuid, cm_receiver_guid = targetGuid, cm_group_guid = 0, cm_guild_guid = 0,
                cm_realm_id1 = cl_realm_id env, cm_realm_id2 = cl_realm_id env,
                cm_achievement_id = achievementId, cm_text = text, cm_sender_name = [], cm_receiver_name = [],
                cm_channel_name = [], cm_addon_prefix = [], cm_hide_in_chat_log = False,
                cm_has_fake_time = False, cm_fake_time = 0\<rparr>
       in sum_bind (chat_names msgtype (chatTag AND CHAT_TAG_GM \<noteq> 0) senderName targetGuid targetName channelName m)
            (\<lambda>m. let m = (case addonPrefix of
                            Some pre \<Rightarrow> if language = LANG_ADDON then m\<lparr>cm_addon_prefix := pre\<rparr> else m
                          | None \<Rightarrow> m);
                     m = chat_groups env msgtype senderGuid m
                 in sum_bind (build_message m out) (\<lambda>(ok, out). if ok then Inr out else Inl AssertFailed)))"

section \<open>Emotes\<close>

definition read_text_emote_request :: "world_packet \<Rightarrow> bb_error + ((u32 \<times> u32 \<times> guid) \<times> world_packet)" where
  "read_text_emote_request p =
     sum_bind (get_u32 p) (\<lambda>(textEmote, p). sum_bind (get_u32 p) (\<lambda>(emoteNumber, p).
       sum_bind (read_guid_mask [6, 7, 3, 2, 0, 5, 1, 4] 0 p) (\<lambda>(g, p).
         sum_bind (read_guid_bytes [0, 5, 1, 4, 2, 3, 7, 6] g p) (\<lambda>(g, p).
           Inr ((textEmote, emoteNumber, g), p)))))"

definition build_text_emote :: "guid \<Rightarrow> guid \<Rightarrow> u32 \<Rightarrow> u32 \<Rightarrow> writer" where
  "build_text_emote source target textEmote emoteNumber out =
     chain
       [chain [write_guid_mask source [1], write_guid_mask target [7], write_guid_mask source [6],
               write_guid_mask target [5], write_guid_mask source [3], write_guid_mask target [6, 2],
               write_guid_mask source [7], write_guid_mask target [0, 1], write_guid_mask source [4, 2],
               write_guid_mask target [3, 4], write_guid_mask source [0, 5]],
        flush_bits,
        chain [write_guid_bytes target [2, 1], write_guid_bytes source [7, 4], write_guid_bytes target [7],
               write_guid_bytes source [5, 2], put_u32 textEmote, write_guid_bytes source [6],
               write_guid_bytes target [0], write_guid_bytes source [3, 1], write_guid_bytes target [6],
               write_guid_bytes source [0], write_guid_bytes target [3, 5, 4], put_u32 emoteNumber]]
       (wp_initialize SMSG_TEXT_EMOTE out)"

section \<open>Layout of the message\<close>

definition guid_mask :: "guid \<Rightarrow> nat list \<Rightarrow> bool list" where
  "guid_mask g p = map (\<lambda>i. guid_byte g i \<noteq> 0) p"

definition guid_bytes :: "guid \<Rightarrow> nat list \<Rightarrow> u8 list" where
  "guid_bytes g q = map (\<lambda>i. guid_byte g i XOR 1) (filter (\<lambda>i. guid_byte g i \<noteq> 0) q)"

text \<open>A length field, present for a text that is not empty; an optional 32-bit field.\<close>

definition length_field :: "u8 list \<Rightarrow> nat \<Rightarrow> bool list" where
  "length_field s n = (if s \<noteq> [] then word_bits (of_nat (length s) :: u64) n else [])"

definition field32 :: "bool \<Rightarrow> u32 \<Rightarrow> u8 list" where
  "field32 c v = (if c then le_bytes 4 v else [])"

definition header_of :: "chat_message \<Rightarrow> bool list" where
  "header_of m =
     [cm_sender_name m = [], cm_hide_in_chat_log m] @ length_field (cm_sender_name m) 11 @
     [False, cm_channel_name m = [], False, \<not> cm_has_fake_time m, cm_chat_tag m = 0, cm_realm_id1 m = 0] @
     guid_mask (cm_group_guid m) [0, 1, 5, 4, 3, 2, 6, 7] @
     (if cm_chat_tag m \<noteq> 0 then word_bits (cm_chat_tag m) 9 else []) @ [False] @
     guid_mask (cm_receiver_guid m) [7, 6, 1, 4, 0, 2, 3, 5] @
     [False, cm_language m = LANG_UNIVERSAL, cm_addon_prefix m = []] @
     guid_mask (cm_sender_guid m) [0, 3, 7, 2, 1, 5, 4, 6] @
     [\<not> ((cm_chat_type m = CHAT_MSG_ACHIEVEMENT \<or> cm_chat_type m = CHAT_MSG_GUILD_ACHIEVEMENT) \<and>
        cm_achievement_id m \<noteq> 0), cm_text m = []] @
     length_field (cm_channel_name m) 7 @ length_field (cm_text m) 12 @ [cm_receiver_name m = []] @
     length_field (cm_addon_prefix m) 5 @ [cm_realm_id2 m = 0] @ length_field (cm_receiver_name m) 11 @
     [False] @ guid_mask (cm_guild_guid m) [2, 5, 7, 4, 0, 1, 3, 6]"

definition body_of :: "chat_message \<Rightarrow> u8 list" where
  "body_of m =
     guid_bytes (cm_guild_guid m) [4, 5, 7, 3, 2, 6, 0, 1] @ cm_channel_name m @ cm_addon_prefix m @
     field32 (cm_has_fake_time m) (cm_fake_time m) @ guid_bytes (cm_sender_guid m) [4, 7, 1, 5, 0, 6, 2, 3] @
     [ucast (cm_chat_type m)] @
     field32 ((cm_chat_type m = CHAT_MSG_ACHIEVEMENT \<or> cm_chat_type m = CHAT_MSG_GUILD_ACHIEVEMENT) \<and>
       cm_achievement_id m \<noteq> 0) (cm_achievement_id m) @
     guid_bytes (cm_group_guid m) [1, 3, 4, 6, 0, 2, 5, 7] @
     guid_bytes (cm_receiver_guid m) [2, 5, 3, 6, 7, 4, 1, 0] @
     (if cm_language m \<noteq> LANG_UNIVERSAL then [ucast (cm_language m)] else []) @
     field32 (cm_realm_id2 m \<noteq> 0) (cm_realm_id2 m) @ cm_text m @ cm_receiver_name m @ cm_sender_name m @
     field32 (cm_realm_id1 m \<noteq> 0) (cm_realm_id1 m)"

lemma emits_Inr [writes]: "emits Inr []"
  by (auto simp: emits_def)

lemma emits_if [writes]:
  "emits f xs \<Longrightarrow> emits (if c then f else Inr) (if c then xs else [])"
  using emits_Inr by simp

lemma emits_length [writes]:
  "emits (if s \<noteq> [] then write_bits (of_nat (length s) :: u64) n else Inr) (length_field s n)"
  unfolding length_field_def by (rule writes)+

lemma emits_guid_mask' [writes]:
  "set p \<subseteq> {..<8} \<Longrightarrow> emits (write_guid_mask g p) (guid_mask g p)"
  unfolding guid_mask_def by (rule writes)

lemma appends_guid_bytes' [writes]:
  "set q \<subseteq> {..<8} \<Longrightarrow> appends (write_guid_bytes g q) (guid_bytes g q)"
  unfolding guid_bytes_def by (rule writes)

lemma appends_text [writes]: "appends (if s \<noteq> [] then append_bytes s else Inr) s"
  by (cases "s = []") (simp_all add: writes)

lemma appends_field32 [writes]: "appends (if c then put_u32 v else Inr) (field32 c v)"
  unfolding field32_def by (rule writes)+

lemma emits_message_bits: "emits (message_bits m) (header_of m)"
  unfolding message_bits_def header_of_def append_Cons append_Nil append_assoc
  by (rule emits_chain_bit emits_chain_Cons emits_length emits_guid_mask' writes | simp only: chain_last | simp)+

lemma appends_message_bytes: "appends (message_bytes m) (body_of m)"
  unfolding message_bytes_def body_of_def append_Cons append_Nil append_assoc
  by (rule appends_chain_byte appends_chain_Cons appends_text appends_guid_bytes' appends_field32 writes
      | simp only: chain_last | simp)+

lemma length_pieces:
  "length (length_field s n) \<le> n" "length (guid_mask g p) = length p" "length (guid_bytes g p) \<le> length p"
  "length (field32 c v) \<le> 4"
  by (simp_all add: length_field_def guid_mask_def guid_bytes_def field32_def)

lemma length_header_of: "length (header_of m) \<le> 200"
  using length_pieces(1) [of "cm_sender_name m" 11] length_pieces(1) [of "cm_channel_name m" 7]
    length_pieces(1) [of "cm_text m" 12] length_pieces(1) [of "cm_addon_prefix m" 5]
    length_pieces(1) [of "cm_receiver_name m" 11]
  by (simp add: header_of_def length_pieces(2))

lemma length_guid_bytes_le: "length p = 8 \<Longrightarrow> length (guid_bytes g p) \<le> 8"
  using length_pieces(3) [of g p] by simp

lemma length_body_of:
  "length (body_of m) \<le> 100 + length (cm_channel_name m) + length (cm_addon_prefix m) + length (cm_text m) +
     length (cm_receiver_name m) + length (cm_sender_name m)"
proof -
  note g = length_guid_bytes_le [of "[4, 5, 7, 3, 2, 6, 0, 1]" "cm_guild_guid m"]
    length_guid_bytes_le [of "[4, 7, 1, 5, 0, 6, 2, 3]" "cm_sender_guid m"]
    length_guid_bytes_le [of "[1, 3, 4, 6, 0, 2, 5, 7]" "cm_group_guid m"]
    length_guid_bytes_le [of "[2, 5, 3, 6, 7, 4, 1, 0]" "cm_receiver_guid m"]
  show ?thesis using g by (simp add: body_of_def field32_def)
qed

lemma build_message_eq:
  assumes "message_fits m"
  shows "\<exists>p hdr n. build_message m out = Inr (True, p) \<and> wp_opcode p = SMSG_MESSAGECHAT \<and>
    bb_storage p = hdr @ body_of m \<and> n < 8 \<and> bytes_bits hdr = header_of m @ replicate n False"
proof -
  have "length (header_of m) + length (body_of m) < 9999999"
    using length_header_of [of m] length_body_of [of m] assms by (simp add: message_fits_def not_le)
  from bits_then_bytes [OF emits_message_bits appends_message_bytes this, of SMSG_MESSAGECHAT] assms
  show ?thesis unfolding build_message_def wp_initialize_new by auto
qed

section \<open>Properties\<close>

text \<open>
  C40: \<open>BuildMessage\<close> is total: it refuses exactly the messages one of whose fields does not fit its
  length field (leaving the packet alone), and for every other message writes, without ever hitting
  the size limit of the buffer, the flag bits padded to whole bytes followed by the fields the flags
  announce, in the client's order.
\<close>

theorem chat_message_layout:
  "if message_fits m
   then \<exists>p hdr n. build_message m out = Inr (True, p) \<and> wp_opcode p = SMSG_MESSAGECHAT \<and>
     bb_storage p = hdr @ body_of m \<and> n < 8 \<and> bytes_bits hdr = header_of m @ replicate n False
   else build_message m out = Inr (False, out)"
  using build_message_eq [of m out] by (simp add: build_message_def)

end
