(* ===== verification/Channel.thy ===== *)
theory Channel
  imports ChatPackets
begin

text \<open>
  Chat channels: \<open>src/src/game/WorldHandlers/Channel.h\<close> and \<open>Channel.cpp\<close>. An operation takes the
  channel with the list of what it has asked of the rest of the game so far (packets sent to online
  players, channels entered in or removed from a player's own list) and returns both, or the
  assertion that failed. The players online, the configuration and the client's data files are the
  environment \<open>chan_env\<close>.
\<close>

section \<open>Packets\<close>

abbreviation (input) SMSG_CHANNEL_NOTIFY :: u16 where "SMSG_CHANNEL_NOTIFY \<equiv> 0x0F06"
abbreviation (input) SMSG_CHANNEL_LIST :: u16 where "SMSG_CHANNEL_LIST \<equiv> 0x0B22"
abbreviation (input) SMSG_USERLIST_ADD :: u16 where "SMSG_USERLIST_ADD \<equiv> 0x1462"
abbreviation (input) SMSG_USERLIST_REMOVE :: u16 where "SMSG_USERLIST_REMOVE \<equiv> 0x0AAB"
abbreviation (input) SMSG_USERLIST_UPDATE :: u16 where "SMSG_USERLIST_UPDATE \<equiv> 0x063A"
abbreviation (input) CHANNEL_NAME_MAX :: nat where "CHANNEL_NAME_MAX \<equiv> 127"
abbreviation (input) PLAYER_NAME_MAX :: nat where "PLAYER_NAME_MAX \<equiv> 512"

record channel_member =
  mb_guid :: u64
  mb_realm_id :: u32
  mb_flags :: u8

definition build_list :: "u8 list \<Rightarrow> u8 \<Rightarrow> channel_member list \<Rightarrow> world_packet \<Rightarrow> bb_error + (bool \<times> world_packet)" where
  "build_list channelName channelFlags members out =
     (if length channelName > CHANNEL_NAME_MAX \<or> length members > 0x7FFFFFFF then Inr (False, out)
      else sum_bind
             (chain ([put_u8 1, put_string channelName, put_u8 channelFlags, put_u32 (of_nat (length members))] @
                     concat (map (\<lambda>m. [put_u64 (mb_guid m), put_u32 (mb_realm_id m), put_u8 (mb_flags m)]) members))
                (wp_initialize SMSG_CHANNEL_LIST out))
             (\<lambda>out. Inr (True, out)))"

definition begin_notify :: "u8 \<Rightarrow> u8 list \<Rightarrow> world_packet \<Rightarrow> bb_error + (bool \<times> world_packet)" where
  "begin_notify subtype channelName out =
     (if length channelName > CHANNEL_NAME_MAX then Inr (False, out)
      else sum_bind (chain [put_u8 subtype, put_string channelName] (wp_initialize SMSG_CHANNEL_NOTIFY out))
             (\<lambda>out. Inr (True, out)))"

definition write_guid_identity :: "u64 \<Rightarrow> u32 \<Rightarrow> writer" where
  "write_guid_identity g realm = chain [put_u64 g, put_u32 realm]"

definition write_name_identity :: "u8 list \<Rightarrow> u32 \<Rightarrow> world_packet \<Rightarrow> bb_error + (bool \<times> world_packet)" where
  "write_name_identity name realm out =
     (if length name > PLAYER_NAME_MAX then Inr (False, out)
      else sum_bind (chain [put_string name, put_u32 realm] out) (\<lambda>out. Inr (True, out)))"

record join_request =
  jr_channel_id :: u32
  jr_has_voice :: bool
  jr_zone_update :: bool
  jr_channel_name :: "u8 list"
  jr_password :: "u8 list"

definition read_join_channel_request :: "world_packet \<Rightarrow> bb_error + (join_request option \<times> world_packet)" where
  "read_join_channel_request p =
     sum_bind (get_u32 p) (\<lambda>(channelId, p). sum_bind (read_bit p) (\<lambda>(hasVoice, p).
     sum_bind (read_bits 7 p) (\<lambda>(channelLength, p). sum_bind (read_bits 7 p) (\<lambda>(passwordLength, p).
     sum_bind (read_bit p) (\<lambda>(zoneUpdate, p).
       if unat (channelLength + passwordLength) > size_minus (bb_size p) (bb_rpos p) then Inr (None, p)
       else sum_bind (read_string passwordLength p) (\<lambda>(password, p).
            sum_bind (read_string channelLength p) (\<lambda>(channelName, p).
              Inr (Some \<lparr>jr_channel_id = channelId, jr_has_voice = hasVoice, jr_zone_update = zoneUpdate,
                         jr_channel_name = channelName, jr_password = password\<rparr>, p))))))))"

text \<open>\<open>MANGOS_ASSERT\<close> on the result of a builder.\<close>

definition asserted :: "(world_packet \<Rightarrow> bb_error + (bool \<times> world_packet)) \<Rightarrow> writer" where
  "asserted build out = sum_bind (build out) (\<lambda>(ok, out). if ok then Inr out else Inl AssertFailed)"

section \<open>State\<close>

abbreviation (input) CHANNEL_FLAG_CUSTOM :: u8 where "CHANNEL_FLAG_CUSTOM \<equiv> 0x01"
abbreviation (input) CHANNEL_FLAG_TRADE :: u8 where "CHANNEL_FLAG_TRADE \<equiv> 0x04"
abbreviation (input) CHANNEL_FLAG_NOT_LFG :: u8 where "CHANNEL_FLAG_NOT_LFG \<equiv> 0x08"
abbreviation (input) CHANNEL_FLAG_GENERAL :: u8 where "CHANNEL_FLAG_GENERAL \<equiv> 0x10"
abbreviation (input) CHANNEL_FLAG_CITY :: u8 where "CHANNEL_FLAG_CITY \<equiv> 0x20"
abbreviation (input) CHANNEL_FLAG_LFG :: u8 where "CHANNEL_FLAG_LFG \<equiv> 0x40"
abbreviation (input) CHANNEL_DBC_FLAG_TRADE :: u32 where "CHANNEL_DBC_FLAG_TRADE \<equiv> 0x00008"
abbreviation (input) CHANNEL_DBC_FLAG_CITY_ONLY2 :: u32 where "CHANNEL_DBC_FLAG_CITY_ONLY2 \<equiv> 0x00020"
abbreviation (input) CHANNEL_DBC_FLAG_LFG :: u32 where "CHANNEL_DBC_FLAG_LFG \<equiv> 0x40000"
abbreviation (input) MEMBER_FLAG_NONE :: u8 where "MEMBER_FLAG_NONE \<equiv> 0x00"
abbreviation (input) MEMBER_FLAG_OWNER :: u8 where "MEMBER_FLAG_OWNER \<equiv> 0x01"
abbreviation (input) MEMBER_FLAG_MODERATOR :: u8 where "MEMBER_FLAG_MODERATOR \<equiv> 0x02"
abbreviation (input) MEMBER_FLAG_MUTED :: u8 where "MEMBER_FLAG_MUTED \<equiv> 0x08"
abbreviation (input) SEC_PLAYER :: u32 where "SEC_PLAYER \<equiv> 0"
abbreviation (input) SEC_GAMEMASTER :: u32 where "SEC_GAMEMASTER \<equiv> 2"

record player_info =
  pi_player :: guid
  pi_flags :: u8

definition is_owner :: "player_info \<Rightarrow> bool" where "is_owner i \<longleftrightarrow> pi_flags i AND MEMBER_FLAG_OWNER \<noteq> 0"
definition is_moderator :: "player_info \<Rightarrow> bool" where "is_moderator i \<longleftrightarrow> pi_flags i AND MEMBER_FLAG_MODERATOR \<noteq> 0"
definition is_muted :: "player_info \<Rightarrow> bool" where "is_muted i \<longleftrightarrow> pi_flags i AND MEMBER_FLAG_MUTED \<noteq> 0"

definition pi_set_owner :: "bool \<Rightarrow> player_info \<Rightarrow> player_info" where
  "pi_set_owner state i =
     (if state then i\<lparr>pi_flags := pi_flags i OR MEMBER_FLAG_OWNER\<rparr>
      else i\<lparr>pi_flags := pi_flags i AND NOT MEMBER_FLAG_OWNER\<rparr>)"

definition pi_set_moderator :: "bool \<Rightarrow> player_info \<Rightarrow> player_info" where
  "pi_set_moderator state i =
     (if state then i\<lparr>pi_flags := pi_flags i OR MEMBER_FLAG_MODERATOR\<rparr>
      else i\<lparr>pi_flags := pi_flags i AND NOT MEMBER_FLAG_MODERATOR\<rparr>)"

definition pi_set_muted :: "bool \<Rightarrow> player_info \<Rightarrow> player_info" where
  "pi_set_muted state i =
     (if state then i\<lparr>pi_flags := pi_flags i OR MEMBER_FLAG_MUTED\<rparr>
      else i\<lparr>pi_flags := pi_flags i AND NOT MEMBER_FLAG_MUTED\<rparr>)"

record channel =
  ch_announce :: bool
  ch_moderate :: bool
  ch_name :: "u8 list"
  ch_password :: "u8 list"
  ch_flags :: u8
  ch_channel_id :: u32
  ch_owner_guid :: guid
  ch_players :: "(guid, player_info) omap"
  ch_banned :: "(guid, unit) omap"

text \<open>What the channel reads of a player, of the configuration and of ChatChannels.dbc.\<close>

record chan_player =
  cp_guid :: guid
  cp_name :: "u8 list"
  cp_security :: u32
  cp_guild_id :: u32
  cp_team :: u32
  cp_chat_tag :: u32
  cp_has_ignore :: "guid \<Rightarrow> bool"

record channels_entry =
  ce_id :: u32
  ce_flags :: u32

record chan_env =
  en_player :: "guid \<Rightarrow> chan_player option"
  en_player_named :: "u8 list \<Rightarrow> chan_player option"
  en_name_of :: "guid \<Rightarrow> u8 list option"
  en_visible_for :: "guid \<Rightarrow> guid \<Rightarrow> bool"
  en_channel_entry :: "u32 \<Rightarrow> channels_entry option"
  en_two_side_channel :: bool
  en_restricted_lfg :: bool
  en_silently_gm_join :: bool
  en_gm_level_in_who :: u32
  en_chat :: chat_lookup

abbreviation en_realm :: "chan_env \<Rightarrow> u32" where "en_realm env \<equiv> cl_realm_id (en_chat env)"

text \<open>\<open>SendTo g p\<close>: packet \<open>p\<close> to the session of the online player \<open>g\<close>.\<close>

datatype chan_effect =
    SendTo guid world_packet
  | JoinedChannel guid
  | LeftChannel guid

record chan_state = channel + cs_out :: "chan_effect list"

type_synonym chan_op = "chan_state \<Rightarrow> bb_error + chan_state"

definition emit :: "chan_effect \<Rightarrow> chan_state \<Rightarrow> chan_state" where
  "emit e c = c\<lparr>cs_out := cs_out c @ [e]\<rparr>"

definition channel_new :: "chan_env \<Rightarrow> u8 list \<Rightarrow> u32 \<Rightarrow> channel" where
  "channel_new env name channel_id =
     (case en_channel_entry env channel_id of
        Some ch \<Rightarrow>
          (let flags = CHANNEL_FLAG_GENERAL;
               flags = (if ce_flags ch AND CHANNEL_DBC_FLAG_TRADE \<noteq> 0 then flags OR CHANNEL_FLAG_TRADE else flags);
               flags = (if ce_flags ch AND CHANNEL_DBC_FLAG_CITY_ONLY2 \<noteq> 0 then flags OR CHANNEL_FLAG_CITY else flags);
               flags = (if ce_flags ch AND CHANNEL_DBC_FLAG_LFG \<noteq> 0 then flags OR CHANNEL_FLAG_LFG
                        else flags OR CHANNEL_FLAG_NOT_LFG)
           in \<lparr>ch_announce = False, ch_moderate = False, ch_name = name, ch_password = [], ch_flags = flags,
               ch_channel_id = channel_id, ch_owner_guid = 0, ch_players = [], ch_banned = []\<rparr>)
      | None \<Rightarrow>
          \<lparr>ch_announce = True, ch_moderate = False, ch_name = name, ch_password = [],
           ch_flags = CHANNEL_FLAG_CUSTOM, ch_channel_id = channel_id, ch_owner_guid = 0,
           ch_players = [], ch_banned = []\<rparr>)"

definition is_constant :: "'a channel_scheme \<Rightarrow> bool" where
  "is_constant c \<longleftrightarrow> ch_channel_id c \<noteq> 0"

definition is_lfg :: "'a channel_scheme \<Rightarrow> bool" where
  "is_lfg c \<longleftrightarrow> ch_flags c AND CHANNEL_FLAG_LFG \<noteq> 0"

definition ch_has_flag :: "'a channel_scheme \<Rightarrow> u8 \<Rightarrow> bool" where
  "ch_has_flag c flag \<longleftrightarrow> ch_flags c AND flag \<noteq> 0"

definition get_num_players :: "'a channel_scheme \<Rightarrow> u32" where
  "get_num_players c = of_nat (length (ch_players c))"

definition is_on :: "'a channel_scheme \<Rightarrow> guid \<Rightarrow> bool" where
  "is_on c who \<longleftrightarrow> om_get (ch_players c) who \<noteq> None"

definition is_banned :: "'a channel_scheme \<Rightarrow> guid \<Rightarrow> bool" where
  "is_banned c g \<longleftrightarrow> om_get (ch_banned c) g \<noteq> None"

definition get_player_flags :: "'a channel_scheme \<Rightarrow> guid \<Rightarrow> u8" where
  "get_player_flags c g = (case om_get (ch_players c) g of None \<Rightarrow> 0 | Some i \<Rightarrow> pi_flags i)"

text \<open>\<open>m_players[g]\<close> inserts a value-initialised entry for a guid that is not there.\<close>

definition slot :: "'a channel_scheme \<Rightarrow> guid \<Rightarrow> player_info" where
  "slot c g = (case om_get (ch_players c) g of None \<Rightarrow> \<lparr>pi_player = 0, pi_flags = 0\<rparr> | Some i \<Rightarrow> i)"

definition with_slot :: "guid \<Rightarrow> (player_info \<Rightarrow> player_info) \<Rightarrow> 'a channel_scheme \<Rightarrow> 'a channel_scheme" where
  "with_slot g f c = c\<lparr>ch_players := om_put g (f (slot c g)) (ch_players c)\<rparr>"

section \<open>Notification packets\<close>

definition fresh_packet :: world_packet where
  "fresh_packet = world_packet_new 0x1001"

definition make_notify_packet :: "'a channel_scheme \<Rightarrow> u8 \<Rightarrow> writer" where
  "make_notify_packet c notify_type = asserted (begin_notify notify_type (ch_name c))"

definition make_joined :: "chan_env \<Rightarrow> 'a channel_scheme \<Rightarrow> guid \<Rightarrow> writer" where
  "make_joined env c g =
     chain [make_notify_packet c 0x00, write_guid_identity g (en_realm env)]"

definition make_left :: "chan_env \<Rightarrow> 'a channel_scheme \<Rightarrow> guid \<Rightarrow> writer" where
  "make_left env c g =
     chain [make_notify_packet c 0x01, write_guid_identity g (en_realm env)]"

definition make_you_joined :: "'a channel_scheme \<Rightarrow> writer" where
  "make_you_joined c =
     chain [make_notify_packet c 0x02, put_u8 (ch_flags c), put_u32 (ch_channel_id c), put_u32 0]"

definition make_you_left :: "'a channel_scheme \<Rightarrow> writer" where
  "make_you_left c = chain [make_notify_packet c 0x03, put_u32 (ch_channel_id c), put_u8 0]"

definition make_wrong_password :: "'a channel_scheme \<Rightarrow> writer" where
  "make_wrong_password c =
     make_notify_packet c 0x04"

definition make_not_member :: "'a channel_scheme \<Rightarrow> writer" where
  "make_not_member c =
     make_notify_packet c 0x05"

definition make_not_moderator :: "'a channel_scheme \<Rightarrow> writer" where
  "make_not_moderator c =
     make_notify_packet c 0x06"

definition make_password_changed :: "chan_env \<Rightarrow> 'a channel_scheme \<Rightarrow> guid \<Rightarrow> writer" where
  "make_password_changed env c g =
     chain [make_notify_packet c 0x07, write_guid_identity g (en_realm env)]"

definition make_owner_changed :: "chan_env \<Rightarrow> 'a channel_scheme \<Rightarrow> guid \<Rightarrow> writer" where
  "make_owner_changed env c g =
     chain [make_notify_packet c 0x08, write_guid_identity g (en_realm env)]"

definition make_player_not_found :: "chan_env \<Rightarrow> 'a channel_scheme \<Rightarrow> u8 list \<Rightarrow> writer" where
  "make_player_not_found env c name =
     chain [make_notify_packet c 0x09, asserted (write_name_identity name (en_realm env))]"

definition make_not_owner :: "'a channel_scheme \<Rightarrow> writer" where
  "make_not_owner c =
     make_notify_packet c 0x0A"

text \<open>The literals \<open>PLAYER_NOT_FOUND\<close> and \<open>Nobody\<close>.\<close>

definition make_channel_owner :: "chan_env \<Rightarrow> 'a channel_scheme \<Rightarrow> writer" where
  "make_channel_owner env c =
     (let name = (case en_name_of env (ch_owner_guid c) of None \<Rightarrow> [] | Some n \<Rightarrow> n);
          name = (if name = [] then ascii ''PLAYER_NOT_FOUND'' else name)
      in chain [make_notify_packet c 0x0B,
                asserted (write_name_identity
                  (if is_constant c \<or> ch_owner_guid c = 0 then ascii ''Nobody'' else name) (en_realm env))])"

definition make_mode_change :: "chan_env \<Rightarrow> 'a channel_scheme \<Rightarrow> guid \<Rightarrow> u8 \<Rightarrow> writer" where
  "make_mode_change env c g oldflags =
     chain [make_notify_packet c 0x0C, write_guid_identity g (en_realm env), put_u8 oldflags,
            put_u8 (get_player_flags c g)]"

definition make_announcements_on :: "chan_env \<Rightarrow> 'a channel_scheme \<Rightarrow> guid \<Rightarrow> writer" where
  "make_announcements_on env c g =
     chain [make_notify_packet c 0x0D, write_guid_identity g (en_realm env)]"

definition make_announcements_off :: "chan_env \<Rightarrow> 'a channel_scheme \<Rightarrow> guid \<Rightarrow> writer" where
  "make_announcements_off env c g =
     chain [make_notify_packet c 0x0E, write_guid_identity g (en_realm env)]"

definition make_moderation_on :: "chan_env \<Rightarrow> 'a channel_scheme \<Rightarrow> guid \<Rightarrow> writer" where
  "make_moderation_on env c g =
     chain [make_notify_packet c 0x0F, write_guid_identity g (en_realm env)]"

definition make_moderation_off :: "chan_env \<Rightarrow> 'a channel_scheme \<Rightarrow> guid \<Rightarrow> writer" where
  "make_moderation_off env c g =
     chain [make_notify_packet c 0x10, write_guid_identity g (en_realm env)]"

definition make_muted :: "'a channel_scheme \<Rightarrow> writer" where
  "make_muted c =
     make_notify_packet c 0x11"

definition make_player_kicked :: "chan_env \<Rightarrow> 'a channel_scheme \<Rightarrow> guid \<Rightarrow> guid \<Rightarrow> writer" where
  "make_player_kicked env c target source =
     chain [make_notify_packet c 0x12, write_guid_identity target (en_realm env),
       write_guid_identity source (en_realm env)]"

definition make_banned :: "'a channel_scheme \<Rightarrow> writer" where
  "make_banned c =
     make_notify_packet c 0x13"

definition make_player_banned :: "chan_env \<Rightarrow> 'a channel_scheme \<Rightarrow> guid \<Rightarrow> guid \<Rightarrow> writer" where
  "make_player_banned env c target source =
     chain [make_notify_packet c 0x14, write_guid_identity target (en_realm env),
       write_guid_identity source (en_realm env)]"

definition make_player_unbanned :: "chan_env \<Rightarrow> 'a channel_scheme \<Rightarrow> guid \<Rightarrow> guid \<Rightarrow> writer" where
  "make_player_unbanned env c target source =
     chain [make_notify_packet c 0x15, write_guid_identity target (en_realm env),
       write_guid_identity source (en_realm env)]"

definition make_player_not_banned :: "chan_env \<Rightarrow> 'a channel_scheme \<Rightarrow> u8 list \<Rightarrow> writer" where
  "make_player_not_banned env c name =
     chain [make_notify_packet c 0x16, asserted (write_name_identity name (en_realm env))]"

definition make_player_already_member :: "chan_env \<Rightarrow> 'a channel_scheme \<Rightarrow> guid \<Rightarrow> writer" where
  "make_player_already_member env c g =
     chain [make_notify_packet c 0x17, write_guid_identity g (en_realm env)]"

definition make_invite :: "chan_env \<Rightarrow> 'a channel_scheme \<Rightarrow> guid \<Rightarrow> writer" where
  "make_invite env c g =
     chain [make_notify_packet c 0x18, write_guid_identity g (en_realm env)]"

definition make_invite_wrong_faction :: "chan_env \<Rightarrow> 'a channel_scheme \<Rightarrow> u8 list \<Rightarrow> writer" where
  "make_invite_wrong_faction env c name =
     chain [make_notify_packet c 0x19, asserted (write_name_identity name (en_realm env))]"

definition make_wrong_faction :: "'a channel_scheme \<Rightarrow> writer" where
  "make_wrong_faction c =
     make_notify_packet c 0x1A"

definition make_invalid_name :: "'a channel_scheme \<Rightarrow> writer" where
  "make_invalid_name c =
     make_notify_packet c 0x1B"

definition make_not_moderated :: "'a channel_scheme \<Rightarrow> writer" where
  "make_not_moderated c =
     make_notify_packet c 0x1C"

definition make_player_invited :: "chan_env \<Rightarrow> 'a channel_scheme \<Rightarrow> u8 list \<Rightarrow> writer" where
  "make_player_invited env c name =
     chain [make_notify_packet c 0x1D, asserted (write_name_identity name (en_realm env))]"

definition make_player_invite_banned :: "chan_env \<Rightarrow> 'a channel_scheme \<Rightarrow> u8 list \<Rightarrow> writer" where
  "make_player_invite_banned env c name =
     chain [make_notify_packet c 0x1E, asserted (write_name_identity name (en_realm env))]"

definition make_throttled :: "'a channel_scheme \<Rightarrow> writer" where
  "make_throttled c =
     make_notify_packet c 0x1F"

definition make_not_in_area :: "'a channel_scheme \<Rightarrow> writer" where
  "make_not_in_area c =
     make_notify_packet c 0x20"

definition make_not_in_lfg :: "'a channel_scheme \<Rightarrow> writer" where
  "make_not_in_lfg c =
     make_notify_packet c 0x21"

definition make_voice_on :: "chan_env \<Rightarrow> 'a channel_scheme \<Rightarrow> guid \<Rightarrow> writer" where
  "make_voice_on env c g =
     chain [make_notify_packet c 0x22, write_guid_identity g (en_realm env)]"

definition make_voice_off :: "chan_env \<Rightarrow> 'a channel_scheme \<Rightarrow> guid \<Rightarrow> writer" where
  "make_voice_off env c g =
     chain [make_notify_packet c 0x23, write_guid_identity g (en_realm env)]"

section \<open>Sending\<close>

definition recipients :: "chan_env \<Rightarrow> 'a channel_scheme \<Rightarrow> guid \<Rightarrow> guid list" where
  "recipients env c g =
     filter (\<lambda>k. case en_player env k of None \<Rightarrow> False | Some plr \<Rightarrow> g = 0 \<or> \<not> cp_has_ignore plr g)
       (map fst (ch_players c))"

definition send_to_all :: "chan_env \<Rightarrow> world_packet \<Rightarrow> guid \<Rightarrow> chan_state \<Rightarrow> chan_state" where
  "send_to_all env data g c = c\<lparr>cs_out := cs_out c @ map (\<lambda>k. SendTo k data) (recipients env c g)\<rparr>"

definition send_to_one :: "chan_env \<Rightarrow> world_packet \<Rightarrow> guid \<Rightarrow> chan_state \<Rightarrow> chan_state" where
  "send_to_one env data who c =
     (case en_player env who of None \<Rightarrow> c | Some plr \<Rightarrow> emit (SendTo who data) c)"

text \<open>\<open>WorldPacket data; MakeX(&data); SendToOne(&data, guid)\<close>, and the same with \<open>SendToAll(&data)\<close>.\<close>

definition reply :: "chan_env \<Rightarrow> writer \<Rightarrow> guid \<Rightarrow> chan_op" where
  "reply env build who c = sum_bind (build fresh_packet) (\<lambda>data. Inr (send_to_one env data who c))"

definition broadcast :: "chan_env \<Rightarrow> writer \<Rightarrow> chan_op" where
  "broadcast env build c = sum_bind (build fresh_packet) (\<lambda>data. Inr (send_to_all env data 0 c))"

definition join_notify :: "chan_env \<Rightarrow> guid \<Rightarrow> chan_op" where
  "join_notify env g c =
     broadcast env (\<lambda>data. chain [put_u64 g, put_u8 (get_player_flags c g), put_u8 (ch_flags c),
                                  put_u32 (get_num_players c), put_string (ch_name c)]
                     (wp_initialize (if is_constant c then SMSG_USERLIST_ADD else SMSG_USERLIST_UPDATE) data)) c"

definition leave_notify :: "chan_env \<Rightarrow> guid \<Rightarrow> chan_op" where
  "leave_notify env g c =
     broadcast env (\<lambda>data. chain [put_u64 g, put_u8 (ch_flags c), put_u32 (get_num_players c), put_string (ch_name c)]
                     (wp_initialize SMSG_USERLIST_REMOVE data)) c"

section \<open>Operations\<close>

definition channel_set_owner_guid :: "chan_env \<Rightarrow> guid \<Rightarrow> bool \<Rightarrow> chan_op" where
  "channel_set_owner_guid env g exclaim c =
     (let c = (if ch_owner_guid c \<noteq> 0
               then case om_get (ch_players c) (ch_owner_guid c) of
                      None \<Rightarrow> c
                    | Some i \<Rightarrow> c\<lparr>ch_players := om_put (ch_owner_guid c) (pi_set_owner False i) (ch_players c)\<rparr>
               else c);
          c = c\<lparr>ch_owner_guid := g\<rparr>
      in if g = 0 then Inr c
         else let oldFlag = get_player_flags c g;
                  c = with_slot g (pi_set_owner True) c
              in sum_bind (broadcast env (make_mode_change env c g oldFlag) c)
                   (\<lambda>c. if exclaim then broadcast env (make_owner_changed env c g) c else Inr c))"

definition announces_for :: "chan_env \<Rightarrow> chan_player \<Rightarrow> 'a channel_scheme \<Rightarrow> bool" where
  "announces_for env player c \<longleftrightarrow>
     ch_announce c \<and> (cp_security player < SEC_GAMEMASTER \<or> \<not> en_silently_gm_join env)"

definition channel_join :: "chan_env \<Rightarrow> chan_player \<Rightarrow> u8 list \<Rightarrow> chan_op" where
  "channel_join env player password c =
     (let guid = cp_guid player in
      if is_on c guid
      then (if \<not> is_constant c then reply env (make_player_already_member env c guid) guid c else Inr c)
      else if is_banned c guid then reply env (make_banned c) guid c
      else if ch_password c \<noteq> [] \<and> c_string password \<noteq> c_string (ch_password c)
      then reply env (make_wrong_password c) guid c
      else if ch_has_flag c CHANNEL_FLAG_LFG \<and> en_restricted_lfg env \<and> cp_security player = SEC_PLAYER
      then reply env (make_not_in_lfg c) guid c
      else if cp_guild_id player \<noteq> 0 \<and> ch_flags c = 0x38 then Inr c
      else
        let c = emit (JoinedChannel guid) c in
        sum_bind (if announces_for env player c then broadcast env (make_joined env c guid) c else Inr c) (\<lambda>c.
        let c = with_slot guid (\<lambda>i. i\<lparr>pi_player := guid, pi_flags := MEMBER_FLAG_NONE\<rparr>) c in
        sum_bind (reply env (make_you_joined c) guid c) (\<lambda>c.
        sum_bind (join_notify env guid c) (\<lambda>c.
          if \<not> is_constant c \<and> ch_owner_guid c = 0
          then sum_bind (channel_set_owner_guid env guid (length (ch_players c) > 1) c)
                 (\<lambda>c. Inr (with_slot guid (pi_set_moderator True) c))
          else Inr c))))"

definition channel_leave :: "chan_env \<Rightarrow> chan_player \<Rightarrow> bool \<Rightarrow> chan_op" where
  "channel_leave env player send c =
     (let guid = cp_guid player in
      if \<not> is_on c guid then (if send then reply env (make_not_member c) guid c else Inr c)
      else
        sum_bind (if send
                  then sum_bind (reply env (make_you_left c) guid c) (\<lambda>c. Inr (emit (LeftChannel guid) c))
                  else Inr c) (\<lambda>c.
        let changeowner = is_owner (slot c guid);
            c = c\<lparr>ch_players := om_erase guid (ch_players c)\<rparr>
        in sum_bind (if announces_for env player c then broadcast env (make_left env c guid) c else Inr c) (\<lambda>c.
           sum_bind (leave_notify env guid c) (\<lambda>c.
             if changeowner
             then let newowner = (case om_begin (ch_players c) of Some (k, i) \<Rightarrow> pi_player i | None \<Rightarrow> 0)
                  in channel_set_owner_guid env newowner True c
             else Inr c))))"

text \<open>The guard every moderator command starts with.\<close>

definition is_not_privileged :: "chan_player \<Rightarrow> 'a channel_scheme \<Rightarrow> bool" where
  "is_not_privileged player c \<longleftrightarrow>
     \<not> is_moderator (slot c (cp_guid player)) \<and> cp_security player < SEC_GAMEMASTER"

definition channel_kick_or_ban :: "chan_env \<Rightarrow> chan_player \<Rightarrow> u8 list \<Rightarrow> bool \<Rightarrow> chan_op" where
  "channel_kick_or_ban env player targetName ban c =
     (let guid = cp_guid player in
      if \<not> is_on c guid then reply env (make_not_member c) guid c
      else if is_not_privileged player c then reply env (make_not_moderator c) guid c
      else case en_player_named env targetName of
        None \<Rightarrow> reply env (make_player_not_found env c targetName) guid c
      | Some target \<Rightarrow>
          let targetGuid = cp_guid target in
          if \<not> is_on c targetGuid then reply env (make_player_not_found env c targetName) guid c
          else
            let changeowner = (ch_owner_guid c = targetGuid) in
            if cp_security player < SEC_GAMEMASTER \<and> changeowner \<and> guid \<noteq> ch_owner_guid c
            then reply env (make_not_owner c) guid c
            else
              sum_bind
                (if ban \<and> \<not> is_banned c targetGuid
                 then let c = c\<lparr>ch_banned := om_put targetGuid () (ch_banned c)\<rparr>
                      in broadcast env (make_player_banned env c targetGuid guid) c
                 else broadcast env (make_player_kicked env c targetGuid guid) c) (\<lambda>c.
              let c = c\<lparr>ch_players := om_erase targetGuid (ch_players c)\<rparr>;
                  c = emit (LeftChannel targetGuid) c
              in if changeowner
                 then channel_set_owner_guid env (if ch_players c \<noteq> [] then guid else 0) True c
                 else Inr c))"

definition channel_unban :: "chan_env \<Rightarrow> chan_player \<Rightarrow> u8 list \<Rightarrow> chan_op" where
  "channel_unban env player targetName c =
     (let guid = cp_guid player in
      if \<not> is_on c guid then reply env (make_not_member c) guid c
      else if is_not_privileged player c then reply env (make_not_moderator c) guid c
      else case en_player_named env targetName of
        None \<Rightarrow> reply env (make_player_not_found env c targetName) guid c
      | Some target \<Rightarrow>
          let targetGuid = cp_guid target in
          if \<not> is_banned c targetGuid then reply env (make_player_not_banned env c targetName) guid c
          else
            let c = c\<lparr>ch_banned := om_erase targetGuid (ch_banned c)\<rparr>
            in broadcast env (make_player_unbanned env c targetGuid guid) c)"

definition channel_password :: "chan_env \<Rightarrow> chan_player \<Rightarrow> u8 list \<Rightarrow> chan_op" where
  "channel_password env player password c =
     (let guid = cp_guid player in
      if \<not> is_on c guid then reply env (make_not_member c) guid c
      else if is_not_privileged player c then reply env (make_not_moderator c) guid c
      else let c = c\<lparr>ch_password := c_string password\<rparr>
           in broadcast env (make_password_changed env c guid) c)"

definition set_moderator_guid :: "chan_env \<Rightarrow> guid \<Rightarrow> bool \<Rightarrow> chan_op" where
  "set_moderator_guid env g st c =
     (if is_moderator (slot c g) \<noteq> st
      then let oldFlag = get_player_flags c g;
               c = with_slot g (pi_set_moderator st) c
           in broadcast env (make_mode_change env c g oldFlag) c
      else Inr (with_slot g (\<lambda>i. i) c))"

definition set_mute_guid :: "chan_env \<Rightarrow> guid \<Rightarrow> bool \<Rightarrow> chan_op" where
  "set_mute_guid env g st c =
     (if is_muted (slot c g) \<noteq> st
      then let oldFlag = get_player_flags c g;
               c = with_slot g (pi_set_muted st) c
           in broadcast env (make_mode_change env c g oldFlag) c
      else Inr (with_slot g (\<lambda>i. i) c))"

definition channel_set_mode :: "chan_env \<Rightarrow> chan_player \<Rightarrow> u8 list \<Rightarrow> bool \<Rightarrow> bool \<Rightarrow> chan_op" where
  "channel_set_mode env player targetName moderator st c =
     (let guid = cp_guid player in
      if \<not> is_on c guid then reply env (make_not_member c) guid c
      else if is_not_privileged player c then reply env (make_not_moderator c) guid c
      else case en_player_named env targetName of
        None \<Rightarrow> reply env (make_player_not_found env c targetName) guid c
      | Some target \<Rightarrow>
          let targetGuid = cp_guid target in
          if moderator \<and> guid = ch_owner_guid c \<and> targetGuid = ch_owner_guid c then Inr c
          else if \<not> is_on c targetGuid then reply env (make_player_not_found env c targetName) guid c
          else if (cp_security player < SEC_GAMEMASTER \<or> cp_security target < SEC_GAMEMASTER) \<and>
                  cp_team player \<noteq> cp_team target \<and> \<not> en_two_side_channel env
          then reply env (make_player_not_found env c targetName) guid c
          else if ch_owner_guid c = targetGuid \<and> ch_owner_guid c \<noteq> guid
          then reply env (make_not_owner c) guid c
          else if moderator then set_moderator_guid env targetGuid st c
          else set_mute_guid env targetGuid st c)"

definition channel_set_owner :: "chan_env \<Rightarrow> chan_player \<Rightarrow> u8 list \<Rightarrow> chan_op" where
  "channel_set_owner env player targetName c =
     (let guid = cp_guid player in
      if \<not> is_on c guid then reply env (make_not_member c) guid c
      else if cp_security player < SEC_GAMEMASTER \<and> guid \<noteq> ch_owner_guid c
      then reply env (make_not_owner c) guid c
      else case en_player_named env targetName of
        None \<Rightarrow> reply env (make_player_not_found env c targetName) guid c
      | Some target \<Rightarrow>
          let targetGuid = cp_guid target in
          if \<not> is_on c targetGuid then reply env (make_player_not_found env c targetName) guid c
          else if cp_team target \<noteq> cp_team player \<and> \<not> en_two_side_channel env
          then reply env (make_player_not_found env c targetName) guid c
          else channel_set_owner_guid env targetGuid True (with_slot targetGuid (pi_set_moderator True) c))"

definition channel_send_who_owner :: "chan_env \<Rightarrow> chan_player \<Rightarrow> chan_op" where
  "channel_send_who_owner env player c =
     (let guid = cp_guid player in
      if \<not> is_on c guid then reply env (make_not_member c) guid c
      else reply env (make_channel_owner env c) guid c)"

definition visible_members :: "chan_env \<Rightarrow> chan_player \<Rightarrow> 'a channel_scheme \<Rightarrow> channel_member list" where
  "visible_members env player c =
     concat (map (\<lambda>(k, i).
       case en_player env k of
         None \<Rightarrow> []
       | Some plr \<Rightarrow>
           if (cp_security player > SEC_PLAYER \<or> cp_security plr \<le> en_gm_level_in_who env) \<and>
              en_visible_for env k (cp_guid player)
           then [\<lparr>mb_guid = k, mb_realm_id = en_realm env, mb_flags = pi_flags i\<rparr>] else [])
       (ch_players c))"

definition channel_list :: "chan_env \<Rightarrow> chan_player \<Rightarrow> chan_op" where
  "channel_list env player c =
     (let guid = cp_guid player in
      if \<not> is_on c guid then reply env (make_not_member c) guid c
      else sum_bind (build_list (ch_name c) (ch_flags c) (visible_members env player c) fresh_packet)
             (\<lambda>(ok, data). Inr (if ok then send_to_one env data guid c else c)))"

definition channel_announce :: "chan_env \<Rightarrow> chan_player \<Rightarrow> chan_op" where
  "channel_announce env player c =
     (let guid = cp_guid player in
      if \<not> is_on c guid then reply env (make_not_member c) guid c
      else if is_not_privileged player c then reply env (make_not_moderator c) guid c
      else let c = c\<lparr>ch_announce := \<not> ch_announce c\<rparr>
           in broadcast env (if ch_announce c then make_announcements_on env c guid
                             else make_announcements_off env c guid) c)"

definition channel_moderate :: "chan_env \<Rightarrow> chan_player \<Rightarrow> chan_op" where
  "channel_moderate env player c =
     (let guid = cp_guid player in
      if \<not> is_on c guid then reply env (make_not_member c) guid c
      else if is_not_privileged player c then reply env (make_not_moderator c) guid c
      else let c = c\<lparr>ch_moderate := \<not> ch_moderate c\<rparr>
           in broadcast env (if ch_moderate c then make_moderation_on env c guid
                             else make_moderation_off env c guid) c)"

definition channel_say :: "chan_env \<Rightarrow> chan_player \<Rightarrow> u8 list option \<Rightarrow> u32 \<Rightarrow> chan_op" where
  "channel_say env player text lang c =
     (case text of
        None \<Rightarrow> Inr c
      | Some txt \<Rightarrow>
          let guid = cp_guid player in
          if \<not> is_on c guid then reply env (make_not_member c) guid c
          else if is_muted (slot c guid) then reply env (make_muted c) guid c
          else if ch_moderate c \<and> is_not_privileged player c then reply env (make_not_moderator c) guid c
          else
            let lang = (if en_two_side_channel env then LANG_UNIVERSAL else lang)
            in sum_bind (build_chat_packet (en_chat env) CHAT_MSG_CHANNEL (Some txt) lang (cp_chat_tag player) guid
                           (Some (cp_name player)) guid (Some (cp_name player)) (Some (c_string (ch_name c))) 0 None
                           fresh_packet)
                 (\<lambda>data. Inr (send_to_all env data (if \<not> is_moderator (slot c guid) then guid else 0) c)))"

definition channel_invite :: "chan_env \<Rightarrow> chan_player \<Rightarrow> u8 list \<Rightarrow> chan_op" where
  "channel_invite env player targetName c =
     (let guid = cp_guid player in
      if \<not> is_on c guid then reply env (make_not_member c) guid c
      else case en_player_named env targetName of
        None \<Rightarrow> reply env (make_player_not_found env c targetName) guid c
      | Some target \<Rightarrow>
          let targetGuid = cp_guid target in
          if is_on c targetGuid then reply env (make_player_already_member env c targetGuid) guid c
          else if is_banned c targetGuid then reply env (make_player_invite_banned env c targetName) guid c
          else if cp_team target \<noteq> cp_team player \<and> \<not> en_two_side_channel env
          then reply env (make_invite_wrong_faction env c targetName) guid c
          else sum_bind (if \<not> cp_has_ignore target guid then reply env (make_invite env c guid) targetGuid c else Inr c)
                 (\<lambda>c. reply env (make_player_invited env c targetName) guid c))"

end
