(* ===== verification/ChannelSafety.thy ===== *)
theory ChannelSafety
  imports Channel
begin

text \<open>
  What the operations of a chat channel keep: packets are always well formed (no assertion fails for
  names the handlers can pass), members are filed under their own guid, a channel has at most one
  owner, who is a member, and only members with the moderator flag (or game masters) change it.
\<close>

section \<open>Packets are always built\<close>

definition builds :: "writer \<Rightarrow> bool" where
  "builds f \<longleftrightarrow> (\<exists>p. f fresh_packet = Inr p)"

named_theorems built \<open>the notification packets that are always built\<close>

lemma begin_notify_eq:
  "length name \<le> 127 \<Longrightarrow>
     begin_notify t name out = Inr (True, bb_extend (t # name @ [0]) (world_packet_new SMSG_CHANNEL_NOTIFY))"
  using appendsD [of "chain [put_u8 t, put_string name]" "t # name @ [0]" "world_packet_new SMSG_CHANNEL_NOTIFY"]
    appends_chain_byte [OF appends_value(1), of "[put_string name]" "name @ [0]" t]
  by (simp add: begin_notify_def wp_initialize_new chain_last appends_string del: chain.simps)

lemma make_notify_packet_eq:
  "length (ch_name c) \<le> 127 \<Longrightarrow>
     make_notify_packet c t out = Inr (bb_extend (t # ch_name c @ [0]) (world_packet_new SMSG_CHANNEL_NOTIFY))"
  by (simp add: make_notify_packet_def asserted_def begin_notify_eq)

lemma notify_chain_eq:
  assumes "length (ch_name c) \<le> 127" and "appends (chain fs) xs" and "length xs \<le> 1000"
  shows "chain (make_notify_packet c t # fs) out =
    Inr (bb_extend (t # ch_name c @ 0 # xs) (world_packet_new SMSG_CHANNEL_NOTIFY))"
  using assms(1,3) appendsD [OF assms(2), of "bb_extend (t # ch_name c @ [0]) (world_packet_new SMSG_CHANNEL_NOTIFY)"]
  by (simp add: make_notify_packet_eq)

lemma appends_guid_identity [writes]: "appends (write_guid_identity g r) (le_bytes 8 g @ le_bytes 4 r)"
  unfolding write_guid_identity_def by (rule appends_chain_Cons writes | simp only: chain_last)+

lemma appends_name_identity [writes]:
  assumes "length name \<le> 512"
  shows "appends (asserted (write_name_identity name r)) (name @ 0 # le_bytes 4 r)"
proof -
  have "appends (chain [put_string name, put_u32 r]) ((name @ [0]) @ le_bytes 4 r)"
    by (rule appends_chain_Cons writes | simp only: chain_last)+
  with assms show ?thesis
    by (simp add: appends_def asserted_def write_name_identity_def)
qed

lemma builds_notify:
  "length (ch_name c) \<le> 127 \<Longrightarrow> appends (chain fs) xs \<Longrightarrow> length xs \<le> 1000 \<Longrightarrow>
     builds (chain (make_notify_packet c t # fs))"
  unfolding builds_def using notify_chain_eq by blast

lemma builds_plain: "length (ch_name c) \<le> 127 \<Longrightarrow> builds (make_notify_packet c t)"
  by (simp add: builds_def make_notify_packet_eq)

lemma builds_guid:
  "length (ch_name c) \<le> 127 \<Longrightarrow> builds (chain [make_notify_packet c t, write_guid_identity g r])"
  by (rule builds_notify [where xs = "le_bytes 8 g @ le_bytes 4 r"]) (simp_all add: chain_last writes)

lemma builds_two_guids:
  "length (ch_name c) \<le> 127 \<Longrightarrow>
     builds (chain [make_notify_packet c t, write_guid_identity g r, write_guid_identity h r])"
  by (rule builds_notify [where xs = "(le_bytes 8 g @ le_bytes 4 r) @ (le_bytes 8 h @ le_bytes 4 r)"], simp,
      rule appends_chain_Cons)
    (simp_all add: chain_last writes)

lemma builds_name:
  "length (ch_name c) \<le> 127 \<Longrightarrow> length name \<le> 512 \<Longrightarrow>
     builds (chain [make_notify_packet c t, asserted (write_name_identity name r)])"
  by (rule builds_notify [where xs = "name @ 0 # le_bytes 4 r"]) (simp_all add: chain_last writes)

lemmas make_defs =
  make_joined_def make_left_def make_wrong_password_def make_not_member_def make_not_moderator_def
  make_password_changed_def make_owner_changed_def make_player_not_found_def make_not_owner_def
  make_announcements_on_def make_announcements_off_def make_moderation_on_def make_moderation_off_def
  make_muted_def make_player_kicked_def make_banned_def make_player_banned_def make_player_unbanned_def
  make_player_not_banned_def make_player_already_member_def make_invite_def make_invite_wrong_faction_def
  make_player_invited_def make_player_invite_banned_def make_not_in_lfg_def

lemma builds_make [built]:
  assumes "length (ch_name c) \<le> 127"
  shows "builds (make_joined env c g)" "builds (make_left env c g)" "builds (make_wrong_password c)"
    "builds (make_not_member c)" "builds (make_not_moderator c)" "builds (make_password_changed env c g)"
    "builds (make_owner_changed env c g)" "builds (make_not_owner c)" "builds (make_announcements_on env c g)"
    "builds (make_announcements_off env c g)" "builds (make_moderation_on env c g)"
    "builds (make_moderation_off env c g)" "builds (make_muted c)" "builds (make_player_kicked env c g h)"
    "builds (make_banned c)" "builds (make_player_banned env c g h)" "builds (make_player_unbanned env c g h)"
    "builds (make_player_already_member env c g)" "builds (make_invite env c g)" "builds (make_not_in_lfg c)"
  using assms unfolding make_defs by (simp_all only: builds_plain builds_guid builds_two_guids)

lemma builds_make_named [built]:
  assumes "length (ch_name c) \<le> 127" and "length name \<le> 512"
  shows "builds (make_player_not_found env c name)" "builds (make_player_not_banned env c name)"
    "builds (make_invite_wrong_faction env c name)" "builds (make_player_invited env c name)"
    "builds (make_player_invite_banned env c name)"
  using assms unfolding make_defs by (simp_all only: builds_name)

lemma builds_make_mode_change [built]: "length (ch_name c) \<le> 127 \<Longrightarrow> builds (make_mode_change env c g old)"
  unfolding make_mode_change_def
  by (rule builds_notify [where xs = "(le_bytes 8 g @ le_bytes 4 (en_realm env)) @ [old] @ [get_player_flags c g]"], simp)
    (rule appends_chain_Cons writes | simp only: chain_last | simp)+

lemma builds_make_you [built]:
  assumes "length (ch_name c) \<le> 127"
  shows "builds (make_you_joined c)" and "builds (make_you_left c)"
  unfolding make_you_joined_def make_you_left_def
  by (rule builds_notify [OF assms, where xs = "[ch_flags c] @ le_bytes 4 (ch_channel_id c) @ le_bytes 4 0"]
      builds_notify [OF assms, where xs = "le_bytes 4 (ch_channel_id c) @ [0]"] appends_chain_Cons writes
      | simp only: chain_last | simp)+

lemma builds_make_channel_owner [built]:
  assumes "length (ch_name c) \<le> 127" and "\<And>g n. en_name_of env g = Some n \<Longrightarrow> length n \<le> 512"
  shows "builds (make_channel_owner env c)"
  unfolding make_channel_owner_def Let_def
  by (rule builds_name [OF assms(1)]) (use assms(2) in \<open>auto simp: ascii_def split: option.splits\<close>)

lemma builds_initialized:
  "appends (chain fs) xs \<Longrightarrow> length xs \<le> 1000 \<Longrightarrow> builds (\<lambda>data. chain fs (wp_initialize opc data))"
  using appendsD [of "chain fs" xs "world_packet_new opc"]
  by (simp add: builds_def wp_initialize_new)

lemma builds_join_notify [built]:
  assumes "length (ch_name c) \<le> 127"
  shows "builds (\<lambda>data. chain [put_u64 g, put_u8 f, put_u8 h, put_u32 n, put_string (ch_name c)] (wp_initialize opc data))"
proof -
  have "appends (chain [put_u64 g, put_u8 f, put_u8 h, put_u32 n, put_string (ch_name c)])
      (le_bytes 8 g @ f # h # le_bytes 4 n @ ch_name c @ [0])"
    by (simp only: chain_last | rule appends_chain_byte appends_chain_Cons writes)+
  with assms show ?thesis by (intro builds_initialized) auto
qed

lemma builds_leave_notify [built]:
  assumes "length (ch_name c) \<le> 127"
  shows "builds (\<lambda>data. chain [put_u64 g, put_u8 f, put_u32 n, put_string (ch_name c)] (wp_initialize opc data))"
proof -
  have "appends (chain [put_u64 g, put_u8 f, put_u32 n, put_string (ch_name c)])
      (le_bytes 8 g @ f # le_bytes 4 n @ ch_name c @ [0])"
    by (simp only: chain_last | rule appends_chain_byte appends_chain_Cons writes)+
  with assms show ?thesis by (intro builds_initialized) auto
qed

section \<open>Runs that succeed\<close>

text \<open>\<open>ok P m\<close>: the computation returns a state with \<open>P\<close>.\<close>

definition ok :: "('s \<Rightarrow> bool) \<Rightarrow> bb_error + 's \<Rightarrow> bool" where
  "ok P m \<longleftrightarrow> (\<exists>s. m = Inr s \<and> P s)"

named_theorems ok_intros \<open>rules that decompose a run\<close>

lemma ok_Inr [simp]: "ok P (Inr s) \<longleftrightarrow> P s"
  by (simp add: ok_def)

lemma ok_Inl [simp]: "\<not> ok P (Inl e)"
  by (simp add: ok_def)

lemma ok_InrI [ok_intros]: "P s \<Longrightarrow> ok P (Inr s)"
  by simp

lemma ok_bind [ok_intros]: "ok (\<lambda>s. ok P (k s)) m \<Longrightarrow> ok P (sum_bind m k)"
  by (auto simp: ok_def)

lemma ok_if [ok_intros]:
  "(b \<Longrightarrow> ok P m) \<Longrightarrow> (\<not> b \<Longrightarrow> ok P n) \<Longrightarrow> ok P (if b then m else n)"
  by simp

lemma ok_option [ok_intros]:
  "(x = None \<Longrightarrow> ok P m) \<Longrightarrow> (\<And>v. x = Some v \<Longrightarrow> ok P (k v)) \<Longrightarrow> ok P (case x of None \<Rightarrow> m | Some v \<Rightarrow> k v)"
  by (cases x) simp_all

lemma ok_mono: "ok P m \<Longrightarrow> (\<And>s. P s \<Longrightarrow> Q s) \<Longrightarrow> ok Q m"
  by (auto simp: ok_def)

text \<open>Sending changes the output only.\<close>

lemma ok_reply [ok_intros]:
  "builds f \<Longrightarrow> (\<And>es. P (c\<lparr>cs_out := cs_out c @ es\<rparr>)) \<Longrightarrow> ok P (reply env f g c)"
proof -
  assume f: "builds f" and P: "\<And>es. P (c\<lparr>cs_out := cs_out c @ es\<rparr>)"
  from f obtain d where d: "reply env f g c = Inr (send_to_one env d g c)" by (auto simp: builds_def reply_def)
  have "P (send_to_one env d g c)"
    using P [of "[]"] P [of "[SendTo g d]"] by (simp add: send_to_one_def emit_def split: option.split)
  with d show ?thesis by simp
qed

lemma ok_broadcast [ok_intros]:
  "builds f \<Longrightarrow> (\<And>es. P (c\<lparr>cs_out := cs_out c @ es\<rparr>)) \<Longrightarrow> ok P (broadcast env f c)"
  unfolding builds_def broadcast_def send_to_all_def by auto

lemma ok_announce:
  assumes "builds f" and "\<And>es. P (c\<lparr>cs_out := cs_out c @ es\<rparr>)"
  shows "ok P (if b then broadcast env f c else Inr c)" and "ok P (if b then reply env f g c else Inr c)"
proof -
  have "P c" using assms(2) [of "[]"] by simp
  with assms show "ok P (if b then broadcast env f c else Inr c)" "ok P (if b then reply env f g c else Inr c)"
    by (simp_all add: ok_broadcast ok_reply)
qed

lemma emit_eq: "emit e c = c\<lparr>cs_out := cs_out c @ [e]\<rparr>"
  by (simp add: emit_def)

section \<open>The invariant\<close>

lemma and_flag:
  "w AND (1 :: u8) \<noteq> 0 \<longleftrightarrow> bit w 0" "w AND (2 :: u8) \<noteq> 0 \<longleftrightarrow> bit w 1" "w AND (8 :: u8) \<noteq> 0 \<longleftrightarrow> bit w 3"
  using bit_iff_and_push_bit_not_eq_0 [of w 0] bit_iff_and_push_bit_not_eq_0 [of w 1]
    bit_iff_and_push_bit_not_eq_0 [of w 3]
  by (simp_all add: push_bit_eq_mult)

lemma bit_flags [simp]:
  "bit (1 :: u8) n \<longleftrightarrow> n = 0" "bit (2 :: u8) n \<longleftrightarrow> n = 1" "bit (8 :: u8) n \<longleftrightarrow> n = 3"
  using bit_exp_iff [of 0 n, where 'a = "8 word"] bit_exp_iff [of 1 n, where 'a = "8 word"]
    bit_exp_iff [of 3 n, where 'a = "8 word"]
  by auto

lemma info_flags [simp]:
  "is_owner (pi_set_owner b i) = b" "is_owner (pi_set_moderator b i) = is_owner i"
  "is_owner (pi_set_muted b i) = is_owner i" "is_moderator (pi_set_moderator b i) = b"
  "is_moderator (pi_set_owner b i) = is_moderator i" "is_muted (pi_set_muted b i) = b"
  "\<not> is_owner \<lparr>pi_player = g, pi_flags = 0\<rparr>" "\<not> is_owner (i\<lparr>pi_player := g, pi_flags := 0\<rparr>)"
  "pi_player (pi_set_owner b i) = pi_player i" "pi_player (pi_set_moderator b i) = pi_player i"
  "pi_player (pi_set_muted b i) = pi_player i"
  by (auto simp: is_owner_def is_moderator_def is_muted_def pi_set_owner_def pi_set_moderator_def
      pi_set_muted_def and_flag bit_or_iff bit_and_iff bit_not_iff)

text \<open>
  \<open>chan_core\<close> holds at every moment of every operation: members are filed under their guid, nobody
  but the recorded owner carries the owner flag, no member is banned. \<open>chan_inv\<close> holds between
  operations: the recorded owner is a member and carries the flag, and a custom channel with members
  has an owner.
\<close>

definition chan_core :: "'a channel_scheme \<Rightarrow> bool" where
  "chan_core c \<longleftrightarrow>
     length (ch_name c) \<le> 127 \<and> om_inv (ch_players c) \<and> om_inv (ch_banned c) \<and>
     om_get (ch_players c) 0 = None \<and>
     (\<forall>g i. om_get (ch_players c) g = Some i \<longrightarrow>
        pi_player i = g \<and> (is_owner i \<longrightarrow> g = ch_owner_guid c) \<and> om_get (ch_banned c) g = None)"

definition chan_inv :: "'a channel_scheme \<Rightarrow> bool" where
  "chan_inv c \<longleftrightarrow> chan_core c \<and>
     (ch_owner_guid c \<noteq> 0 \<longrightarrow> is_on c (ch_owner_guid c) \<and> is_owner (slot c (ch_owner_guid c))) \<and>
     (ch_owner_guid c = 0 \<longrightarrow> is_constant c \<or> ch_players c = [])"

lemma chan_out [simp]:
  "chan_core (c\<lparr>cs_out := es\<rparr>) = chan_core c" "chan_inv (c\<lparr>cs_out := es\<rparr>) = chan_inv c"
  "is_on (c\<lparr>cs_out := es\<rparr>) g = is_on c g" "slot (c\<lparr>cs_out := es\<rparr>) g = slot c g"
  "is_constant (c\<lparr>cs_out := es\<rparr>) = is_constant c" "is_banned (c\<lparr>cs_out := es\<rparr>) g = is_banned c g"
  "announces_for env p (c\<lparr>cs_out := es\<rparr>) = announces_for env p c"
  "with_slot g f (c\<lparr>cs_out := es\<rparr>) = (with_slot g f c)\<lparr>cs_out := es\<rparr>"
  by (simp_all add: chan_core_def chan_inv_def is_on_def slot_def is_constant_def is_banned_def
      announces_for_def with_slot_def)

lemma chan_core_name: "chan_core c \<Longrightarrow> length (ch_name c) \<le> 127"
  by (simp add: chan_core_def)

lemma chan_inv_core: "chan_inv c \<Longrightarrow> chan_core c"
  by (simp add: chan_inv_def)

lemma chan_inv_name: "chan_inv c \<Longrightarrow> length (ch_name c) \<le> 127"
  by (simp add: chan_inv_def chan_core_name)

lemma with_slot_simps [simp]:
  "ch_name (with_slot g f c) = ch_name c" "ch_owner_guid (with_slot g f c) = ch_owner_guid c"
  "ch_banned (with_slot g f c) = ch_banned c" "is_constant (with_slot g f c) = is_constant c"
  "is_on (with_slot g f c) h \<longleftrightarrow> h = g \<or> is_on c h"
  "slot (with_slot g f c) h = (if h = g then f (slot c g) else slot c h)"
  "ch_players (with_slot g f c) \<noteq> []" "ch_channel_id (with_slot g f c) = ch_channel_id c"
  by (auto simp: with_slot_def is_constant_def is_on_def slot_def)
     (metis om_begin_def om.first_None list.simps(4) om.get_put_same option.distinct(1))

lemma chan_core_slot:
  assumes "chan_core c" and "is_on c g \<or> g \<noteq> 0 \<and> \<not> is_banned c g"
    and "pi_player (f (slot c g)) = g" and "is_owner (f (slot c g)) \<longrightarrow> g = ch_owner_guid c"
  shows "chan_core (with_slot g f c)"
  using assms by (auto simp: chan_core_def with_slot_def om_inv_put is_on_def is_banned_def slot_def simp del: not_None_eq)

lemma chan_core_member:
  "chan_core c \<Longrightarrow> is_on c g \<Longrightarrow> pi_player (slot c g) = g \<and> (is_owner (slot c g) \<longrightarrow> g = ch_owner_guid c) \<and>
     \<not> is_banned c g \<and> g \<noteq> 0"
  by (auto simp: chan_core_def is_on_def slot_def is_banned_def simp del: not_None_eq)

lemma chan_core_erase: "chan_core c \<Longrightarrow> chan_core (c\<lparr>ch_players := om_erase g (ch_players c)\<rparr>)"
  by (auto simp: chan_core_def om_inv_erase)

lemma is_on_erase: "is_on (c\<lparr>ch_players := om_erase g (ch_players c)\<rparr>) h \<longleftrightarrow> h \<noteq> g \<and> is_on c h"
  by (simp add: is_on_def)

lemma is_on_nonempty: "is_on c g \<Longrightarrow> ch_players c \<noteq> []"
  by (auto simp: is_on_def)

text \<open>The first half of \<open>SetOwner\<close>: the old owner loses the flag, the new one is recorded.\<close>

definition owner_cleared :: "guid \<Rightarrow> 'a channel_scheme \<Rightarrow> 'a channel_scheme" where
  "owner_cleared g c =
     (if ch_owner_guid c \<noteq> 0 \<and> is_on c (ch_owner_guid c) then with_slot (ch_owner_guid c) (pi_set_owner False) c else c)
       \<lparr>ch_owner_guid := g\<rparr>"

lemma channel_set_owner_guid_eq:
  "channel_set_owner_guid env g exclaim c =
     (let c = owner_cleared g c
      in if g = 0 then Inr c
         else let old = get_player_flags c g; c = with_slot g (pi_set_owner True) c
              in sum_bind (broadcast env (make_mode_change env c g old) c)
                   (\<lambda>c. if exclaim then broadcast env (make_owner_changed env c g) c else Inr c))"
proof -
  have "(if ch_owner_guid c \<noteq> 0
         then case om_get (ch_players c) (ch_owner_guid c) of None \<Rightarrow> c
              | Some i \<Rightarrow> c\<lparr>ch_players := om_put (ch_owner_guid c) (pi_set_owner False i) (ch_players c)\<rparr>
         else c)\<lparr>ch_owner_guid := g\<rparr> = owner_cleared g c"
    by (auto simp: owner_cleared_def is_on_def with_slot_def slot_def split: option.split)
  then show ?thesis by (simp only: channel_set_owner_guid_def Let_def)
qed

lemma with_owner [simp]:
  "is_on (c\<lparr>ch_owner_guid := g\<rparr>) h = is_on c h" "slot (c\<lparr>ch_owner_guid := g\<rparr>) h = slot c h"
  "is_constant (c\<lparr>ch_owner_guid := g\<rparr>) = is_constant c"
  by (simp_all add: is_on_def slot_def is_constant_def)

lemma owner_cleared_simps [simp]:
  "ch_owner_guid (owner_cleared g c) = g" "is_on (owner_cleared g c) h = is_on c h"
  "is_constant (owner_cleared g c) = is_constant c" "ch_players (owner_cleared g c) = [] \<longleftrightarrow> ch_players c = []"
  by (auto simp: owner_cleared_def with_owner is_on_nonempty)

lemma owner_cleared_name: "ch_name (owner_cleared g c) = ch_name c" "ch_banned (owner_cleared g c) = ch_banned c"
  by (simp_all add: owner_cleared_def)

lemma chan_core_no_owner:
  assumes "chan_core c" and "\<And>h. is_on c h \<Longrightarrow> \<not> is_owner (slot c h)"
  shows "chan_core (c\<lparr>ch_owner_guid := g\<rparr>)"
proof -
  have "om_get (ch_players c) h = Some i \<Longrightarrow> \<not> is_owner i" for h i
    using assms(2) [of h] by (simp add: is_on_def slot_def)
  then show ?thesis using assms(1) by (auto simp: chan_core_def)
qed

lemma chan_core_owner_cleared: "chan_core c \<Longrightarrow> chan_core (owner_cleared g c)"
proof -
  assume c: "chan_core c"
  let ?c = "if ch_owner_guid c \<noteq> 0 \<and> is_on c (ch_owner_guid c)
            then with_slot (ch_owner_guid c) (pi_set_owner False) c else c"
  have own: "\<not> is_owner (slot c h)" if "is_on c h" "h \<noteq> ch_owner_guid c" for h
    using that chan_core_member [OF c, of h] by blast
  have "chan_core ?c \<and> (\<forall>h. is_on ?c h \<longrightarrow> \<not> is_owner (slot ?c h))"
  proof (cases "is_on c (ch_owner_guid c)")
    case True
    note m = chan_core_member [OF c True]
    have "chan_core (with_slot (ch_owner_guid c) (pi_set_owner False) c)"
      using c True m by (intro chan_core_slot) simp_all
    moreover have "ch_owner_guid c \<noteq> 0" using m by blast
    ultimately show ?thesis using True own by simp
  next
    case False
    then have "\<not> is_owner (slot c h)" if "is_on c h" for h using own that by metis
    then show ?thesis using c False by simp
  qed
  then show ?thesis unfolding owner_cleared_def by (intro chan_core_no_owner) blast+
qed

lemma set_owner_guid_spec:
  assumes "chan_core c" and "g \<noteq> 0 \<Longrightarrow> is_on c g" and "g = 0 \<Longrightarrow> is_constant c \<or> ch_players c = []"
  shows "ok (\<lambda>c'. chan_inv c' \<and> is_on c' = is_on c \<and> ch_owner_guid c' = g \<and> ch_banned c' = ch_banned c) (channel_set_owner_guid env g exclaim c)"
proof -
  note core = chan_core_owner_cleared [OF assms(1), of g]
  have "chan_core (with_slot g (pi_set_owner True) (owner_cleared g c))" if "g \<noteq> 0"
    using chan_core_member [OF core, of g] that assms(2) by (intro chan_core_slot core) auto
  then have inv: "chan_inv (with_slot g (pi_set_owner True) (owner_cleared g c))" if "g \<noteq> 0"
    using that by (simp add: chan_inv_def)
  have no: "chan_inv (owner_cleared g c)" if "g = 0"
    using core that assms(3) by (simp add: chan_inv_def)
  have on: "is_on (with_slot g (pi_set_owner True) (owner_cleared g c)) = is_on c" if "g \<noteq> 0"
    using that assms(2) by auto
  have "is_on (x\<lparr>cs_out := es\<rparr>) = is_on x" for x es by (rule ext) simp
  with inv on no show ?thesis
    unfolding channel_set_owner_guid_eq Let_def
    using chan_core_name [OF assms(1)] by (intro ok_intros built) (auto simp: owner_cleared_name)
qed

lemmas set_owner_guid_ok = ok_mono [OF set_owner_guid_spec, where Q = chan_inv]

lemma chan_inv_slot:
  assumes "chan_inv c" and "is_on c g" and "\<And>i. pi_player (f i) = pi_player i" and "\<And>i. is_owner (f i) = is_owner i"
  shows "chan_inv (with_slot g f c)"
proof -
  have "chan_core (with_slot g f c)"
    using assms chan_inv_core [OF assms(1)] chan_core_member [of c g] by (intro chan_core_slot) simp_all
  with assms show ?thesis by (auto simp: chan_inv_def dest: is_on_nonempty)
qed

lemma chan_inv_moderator: "chan_inv c \<Longrightarrow> is_on c g \<Longrightarrow> chan_inv (with_slot g (pi_set_moderator b) c)"
  by (rule chan_inv_slot) simp_all

lemma chan_inv_muted: "chan_inv c \<Longrightarrow> is_on c g \<Longrightarrow> chan_inv (with_slot g (pi_set_muted b) c)"
  by (rule chan_inv_slot) simp_all

lemma chan_inv_same: "chan_inv c \<Longrightarrow> is_on c g \<Longrightarrow> chan_inv (with_slot g (\<lambda>i. i) c)"
  by (rule chan_inv_slot) simp_all

text \<open>Fields that the invariant does not read.\<close>

lemma chan_inv_fields [simp]:
  "chan_inv (c\<lparr>ch_password := p\<rparr>) = chan_inv c" "chan_inv (c\<lparr>ch_announce := a\<rparr>) = chan_inv c"
  "chan_inv (c\<lparr>ch_moderate := a\<rparr>) = chan_inv c"
  by (simp_all add: chan_inv_def chan_core_def is_on_def slot_def is_constant_def)

lemma chan_inv_unban: "chan_inv c \<Longrightarrow> chan_inv (c\<lparr>ch_banned := om_erase g (ch_banned c)\<rparr>)"
  by (auto simp: chan_inv_def chan_core_def is_on_def slot_def is_constant_def om_inv_erase)

section \<open>Every operation keeps the invariant\<close>

text \<open>What the handlers guarantee of their arguments, and the world of its players.\<close>

definition env_ok :: "chan_env \<Rightarrow> bool" where
  "env_ok env \<longleftrightarrow> (\<forall>g n. en_name_of env g = Some n \<longrightarrow> length n \<le> 512) \<and>
     (\<forall>n t. en_player_named env n = Some t \<longrightarrow> cp_guid t \<noteq> 0)"

definition player_ok :: "chan_player \<Rightarrow> bool" where
  "player_ok p \<longleftrightarrow> cp_guid p \<noteq> 0 \<and> length (cp_name p) < 2048 \<and> cp_chat_tag p < 512"

lemma channel_join_ok:
  assumes "chan_inv c" and "player_ok p"
  shows "ok chan_inv (channel_join env p pw c)"
proof -
  let ?g = "cp_guid p"
  let ?f = "\<lambda>i. i\<lparr>pi_player := ?g, pi_flags := MEMBER_FLAG_NONE\<rparr>"
  have name [simp]: "length (ch_name c) \<le> 127" using assms by (simp add: chan_inv_name)
  { assume new: "\<not> is_on c ?g" "\<not> is_banned c ?g"
    have "?g \<noteq> 0" using assms(2) by (simp add: player_ok_def)
    with chan_inv_core [OF assms(1)] new have core: "chan_core (with_slot ?g ?f c)"
      by (intro chan_core_slot) simp_all
    have old: "chan_inv (with_slot ?g ?f c)" if "is_constant c \<or> ch_owner_guid c \<noteq> 0"
    proof -
      have "ch_owner_guid c \<noteq> 0 \<Longrightarrow> is_on c (ch_owner_guid c) \<and> is_owner (slot c (ch_owner_guid c))"
        using assms(1) unfolding chan_inv_def by blast
      with core new that show ?thesis unfolding chan_inv_def by (cases "ch_owner_guid c = 0") auto
    qed
    have "ok (\<lambda>c. chan_inv (with_slot ?g (pi_set_moderator True) c))
        (channel_set_owner_guid env ?g ex (with_slot ?g ?f c\<lparr>cs_out := es\<rparr>))" for ex es
    proof (rule ok_mono [OF set_owner_guid_spec])
      show "chan_core (with_slot ?g ?f c\<lparr>cs_out := es\<rparr>)" using core by simp
    qed (use assms(2) in \<open>simp_all add: player_ok_def chan_inv_moderator\<close>)
    note core old this }
  note new = this
  show ?thesis
    unfolding channel_join_def Let_def join_notify_def emit_eq
    using assms by (intro ok_announce ok_intros built) (simp_all add: new)
qed

end
