(* ===== verification/PlayerNames.thy ===== *)
theory PlayerNames
  imports Prelude
begin

text \<open>
  Names as text: the wide-character classes and case mappings of \<open>src/src/shared/Utilities/Util.h\<close>,
  the conversions of \<open>Util.cpp\<close>, \<open>normalizePlayerName\<close> of \<open>ObjectMgr.cpp\<close> and the name checks of
  \<open>ObjectMgrNameCheck.cpp\<close>. A \<open>wchar_t\<close> holds a UTF-16 code unit here, so it is a natural number.
  The conversions call the \<open>utf8\<close> library of the \<open>dep\<close> submodule: its three functions are the
  parameter \<open>utf8_lib\<close>, \<open>None\<close> where they throw.
\<close>

section \<open>Character classes and case\<close>

type_synonym wchar = nat

definition is_basic_latin_character :: "wchar \<Rightarrow> bool" where
  "is_basic_latin_character w \<longleftrightarrow> w \<ge> 97 \<and> w \<le> 122 \<or> w \<ge> 65 \<and> w \<le> 90"

definition is_extended_latin_character :: "wchar \<Rightarrow> bool" where
  "is_extended_latin_character w \<longleftrightarrow>
     is_basic_latin_character w \<or>
     w \<ge> 0x00C0 \<and> w \<le> 0x00D6 \<or>
     w \<ge> 0x00D8 \<and> w \<le> 0x00DF \<or>
     w = 0x00DF \<or>
     w \<ge> 0x00E0 \<and> w \<le> 0x00F6 \<or>
     w \<ge> 0x00F8 \<and> w \<le> 0x00FE \<or>
     w \<ge> 0x0100 \<and> w \<le> 0x012F \<or>
     w = 0x1E9E"

definition is_cyrillic_character :: "wchar \<Rightarrow> bool" where
  "is_cyrillic_character w \<longleftrightarrow> w \<ge> 0x0410 \<and> w \<le> 0x044F \<or> w = 0x0401 \<or> w = 0x0451"

definition is_east_asian_character :: "wchar \<Rightarrow> bool" where
  "is_east_asian_character w \<longleftrightarrow>
     w \<ge> 0x1100 \<and> w \<le> 0x11F9 \<or>
     w \<ge> 0x3041 \<and> w \<le> 0x30FF \<or>
     w \<ge> 0x3131 \<and> w \<le> 0x318E \<or>
     w \<ge> 0x31F0 \<and> w \<le> 0x31FF \<or>
     w \<ge> 0x3400 \<and> w \<le> 0x4DB5 \<or>
     w \<ge> 0x4E00 \<and> w \<le> 0x9FC3 \<or>
     w \<ge> 0xAC00 \<and> w \<le> 0xD7A3 \<or>
     w \<ge> 0xFF01 \<and> w \<le> 0xFFEE"

definition is_numeric :: "wchar \<Rightarrow> bool" where
  "is_numeric w \<longleftrightarrow> w \<ge> 48 \<and> w \<le> 57"

definition is_numeric_or_space :: "wchar \<Rightarrow> bool" where
  "is_numeric_or_space w \<longleftrightarrow> is_numeric w \<or> w = 32"

text \<open>The four string predicates differ in the class they ask for.\<close>

definition is_basic_latin_string :: "wchar list \<Rightarrow> bool \<Rightarrow> bool" where
  "is_basic_latin_string ws numericOrSpace \<longleftrightarrow>
     list_all (\<lambda>w. is_basic_latin_character w \<or> numericOrSpace \<and> is_numeric_or_space w) ws"

definition is_extended_latin_string :: "wchar list \<Rightarrow> bool \<Rightarrow> bool" where
  "is_extended_latin_string ws numericOrSpace \<longleftrightarrow>
     list_all (\<lambda>w. is_extended_latin_character w \<or> numericOrSpace \<and> is_numeric_or_space w) ws"

definition is_cyrillic_string :: "wchar list \<Rightarrow> bool \<Rightarrow> bool" where
  "is_cyrillic_string ws numericOrSpace \<longleftrightarrow>
     list_all (\<lambda>w. is_cyrillic_character w \<or> numericOrSpace \<and> is_numeric_or_space w) ws"

definition is_east_asian_string :: "wchar list \<Rightarrow> bool \<Rightarrow> bool" where
  "is_east_asian_string ws numericOrSpace \<longleftrightarrow>
     list_all (\<lambda>w. is_east_asian_character w \<or> numericOrSpace \<and> is_numeric_or_space w) ws"

text \<open>\<open>uint16(wchar)\<close> is the remainder modulo \<open>2 ^ 16\<close>.\<close>

definition uint16 :: "wchar \<Rightarrow> nat" where
  "uint16 w = w mod 65536"

definition wchar_to_upper :: "wchar \<Rightarrow> wchar" where
  "wchar_to_upper w =
     (if w \<ge> 97 \<and> w \<le> 122 then uint16 w - 0x0020
      else if w = 0x00DF then 0x1E9E
      else if w \<ge> 0x00E0 \<and> w \<le> 0x00F6 then uint16 w - 0x0020
      else if w \<ge> 0x00F8 \<and> w \<le> 0x00FE then uint16 w - 0x0020
      else if w \<ge> 0x0101 \<and> w \<le> 0x012F \<and> w mod 2 = 1 then uint16 w - 0x0001
      else if w \<ge> 0x0430 \<and> w \<le> 0x044F then uint16 w - 0x0020
      else if w = 0x0451 then 0x0401
      else w)"

definition wchar_to_lower :: "wchar \<Rightarrow> wchar" where
  "wchar_to_lower w =
     (if w \<ge> 65 \<and> w \<le> 90 then uint16 w + 0x0020
      else if w \<ge> 0x00C0 \<and> w \<le> 0x00D6 then uint16 w + 0x0020
      else if w \<ge> 0x00D8 \<and> w \<le> 0x00DE then uint16 w + 0x0020
      else if w \<ge> 0x0100 \<and> w \<le> 0x012E \<and> w mod 2 = 0 then uint16 w + 0x0001
      else if w = 0x1E9E then 0x00DF
      else if w = 0x0401 then 0x0451
      else if w \<ge> 0x0410 \<and> w \<le> 0x042F then uint16 w + 0x0020
      else w)"

definition wchar_to_upper_only_latin :: "wchar \<Rightarrow> wchar" where
  "wchar_to_upper_only_latin w = (if is_basic_latin_character w then wchar_to_upper w else w)"

definition wstr_to_lower :: "wchar list \<Rightarrow> wchar list" where
  "wstr_to_lower ws = map wchar_to_lower ws"

definition wstr_to_upper :: "wchar list \<Rightarrow> wchar list" where
  "wstr_to_upper ws = map wchar_to_upper ws"

section \<open>Conversions\<close>

record utf8_lib =
  ul_distance :: "u8 list \<Rightarrow> nat option"
  ul_utf8to16 :: "u8 list \<Rightarrow> wchar list option"
  ul_utf16to8 :: "wchar list \<Rightarrow> u8 list option"

text \<open>Writing behind the end of a buffer is the error \<open>Overrun written capacity\<close>.\<close>

datatype text_error = Overrun nat nat

text \<open>
  \<open>Utf8toWStr(utf8str, wstr, wsize)\<close>: the buffer has \<open>wsize + 1\<close> places. The result is the text the
  caller sees afterwards, \<open>wsize\<close> (as the function leaves it) units, or \<open>None\<close> for false.
\<close>

definition utf8_to_wbuf :: "utf8_lib \<Rightarrow> u8 list \<Rightarrow> nat \<Rightarrow> text_error + wchar list option" where
  "utf8_to_wbuf L utf8str wsize =
     (case ul_distance L utf8str of
        None \<Rightarrow> Inr None
      | Some len \<Rightarrow>
          if len > wsize then Inr None
          else case ul_utf8to16 L utf8str of
                 None \<Rightarrow> Inr None
               | Some units \<Rightarrow>
                   if length units > wsize + 1 then Inl (Overrun (length units) (wsize + 1))
                   else Inr (Some (take len units)))"

text \<open>\<open>Utf8toWStr(utf8str, wstr)\<close> sizes the string to the number of characters first.\<close>

definition utf8_to_wstr :: "utf8_lib \<Rightarrow> u8 list \<Rightarrow> text_error + wchar list option" where
  "utf8_to_wstr L utf8str =
     (case ul_distance L utf8str of
        None \<Rightarrow> Inr None
      | Some len \<Rightarrow>
          if len = 0 then Inr (Some [])
          else case ul_utf8to16 L utf8str of
                 None \<Rightarrow> Inr None
               | Some units \<Rightarrow>
                   if length units > len then Inl (Overrun (length units) len) else Inr (Some units))"

definition wstr_to_utf8 :: "utf8_lib \<Rightarrow> wchar list \<Rightarrow> u8 list option" where
  "wstr_to_utf8 L ws = ul_utf16to8 L ws"

definition MAX_PLAYER_NAME :: nat where "MAX_PLAYER_NAME = 12"
definition MAX_INTERNAL_PLAYER_NAME :: nat where "MAX_INTERNAL_PLAYER_NAME = 15"
definition MAX_PET_NAME :: nat where "MAX_PET_NAME = 12"
definition MAX_CHARTER_NAME :: nat where "MAX_CHARTER_NAME = 24"

definition capitalize :: "wchar list \<Rightarrow> wchar list" where
  "capitalize ws = (case ws of [] \<Rightarrow> [] | w # ws \<Rightarrow> wchar_to_upper w # map wchar_to_lower ws)"

definition normalize_player_name :: "utf8_lib \<Rightarrow> u8 list \<Rightarrow> text_error + u8 list option" where
  "normalize_player_name L name =
     (if name = [] then Inr None
      else sum_bind (utf8_to_wbuf L name MAX_INTERNAL_PLAYER_NAME)
             (\<lambda>r. case r of None \<Rightarrow> Inr None | Some ws \<Rightarrow> Inr (wstr_to_utf8 L (capitalize ws))))"

text \<open>\<open>StripRealmSuffix\<close>: \<open>tolower\<close> of the C locale.\<close>

definition ascii_tolower :: "u8 \<Rightarrow> u8" where
  "ascii_tolower c = (if 65 \<le> c \<and> c \<le> 90 then c + 32 else c)"

definition normalize_realm_name :: "u8 list \<Rightarrow> u8 list" where
  "normalize_realm_name name = filter (\<lambda>c. c \<noteq> 32) name"

definition strip_realm_suffix :: "u8 list \<Rightarrow> u8 list \<Rightarrow> u8 list" where
  "strip_realm_suffix name realmName =
     (if realmName = [] then name
      else let suffix = 45 # realmName in
           if length name \<le> length suffix then name
           else let at = length name - length suffix in
                if map ascii_tolower (drop at name) \<noteq> map ascii_tolower suffix then name
                else take at name)"

definition strip_home_realm_suffix :: "u8 list \<Rightarrow> u8 list \<Rightarrow> u8 list" where
  "strip_home_realm_suffix cachedRealmName name = strip_realm_suffix name (normalize_realm_name cachedRealmName)"

section \<open>Name rules\<close>

record name_config =
  nc_realm_zone :: u32
  nc_min_player_name :: u32
  nc_strict_player_names :: u32
  nc_min_charter_name :: u32
  nc_strict_charter_names :: u32
  nc_min_pet_name :: u32
  nc_strict_pet_names :: u32

abbreviation (input) LT_BASIC_LATIN :: u32 where "LT_BASIC_LATIN \<equiv> 0x0000"
abbreviation (input) LT_EXTENDEN_LATIN :: u32 where "LT_EXTENDEN_LATIN \<equiv> 0x0001"
abbreviation (input) LT_CYRILLIC :: u32 where "LT_CYRILLIC \<equiv> 0x0002"
abbreviation (input) LT_EAST_ASIA :: u32 where "LT_EAST_ASIA \<equiv> 0x0004"
abbreviation (input) LT_ANY :: u32 where "LT_ANY \<equiv> 0xFFFF"

definition get_realm_language_type :: "name_config \<Rightarrow> bool \<Rightarrow> u32" where
  "get_realm_language_type cfg create =
     (let z = nc_realm_zone cfg in
      if z \<in> {0, 1, 26, 28} then LT_ANY
      else if z \<in> {2, 3, 4, 8, 9, 10, 11} then LT_EXTENDEN_LATIN
      else if z \<in> {6, 14, 16} then LT_EAST_ASIA
      else if z = 12 then LT_CYRILLIC
      else if create then LT_BASIC_LATIN else LT_ANY)"

definition is_valid_string :: "name_config \<Rightarrow> wchar list \<Rightarrow> u32 \<Rightarrow> bool \<Rightarrow> bool \<Rightarrow> bool" where
  "is_valid_string cfg ws strictMask numericOrSpace create \<longleftrightarrow>
     (if strictMask = 0
      then is_extended_latin_string ws numericOrSpace \<or> is_cyrillic_string ws numericOrSpace \<or>
           is_east_asian_string ws numericOrSpace
      else
        strictMask AND 0x2 \<noteq> 0 \<and>
          (let lt = get_realm_language_type cfg create in
             lt AND LT_EXTENDEN_LATIN \<noteq> 0 \<and> is_extended_latin_string ws numericOrSpace \<or>
             lt AND LT_CYRILLIC \<noteq> 0 \<and> is_cyrillic_string ws numericOrSpace \<or>
             lt AND LT_EAST_ASIA \<noteq> 0 \<and> is_east_asian_string ws numericOrSpace) \<or>
        strictMask AND 0x1 \<noteq> 0 \<and> is_basic_latin_string ws numericOrSpace)"

definition CHAR_NAME_SUCCESS :: u8 where "CHAR_NAME_SUCCESS = 0x5C"
definition CHAR_NAME_TOO_SHORT :: u8 where "CHAR_NAME_TOO_SHORT = 0x5F"
definition CHAR_NAME_TOO_LONG :: u8 where "CHAR_NAME_TOO_LONG = 0x60"
definition CHAR_NAME_INVALID_CHARACTER :: u8 where "CHAR_NAME_INVALID_CHARACTER = 0x61"
definition CHAR_NAME_MIXED_LANGUAGES :: u8 where "CHAR_NAME_MIXED_LANGUAGES = 0x62"

definition check_player_name :: "utf8_lib \<Rightarrow> name_config \<Rightarrow> u8 list \<Rightarrow> bool \<Rightarrow> text_error + u8" where
  "check_player_name L cfg name create =
     sum_bind (utf8_to_wstr L name) (\<lambda>r. Inr (case r of
        None \<Rightarrow> CHAR_NAME_INVALID_CHARACTER
      | Some wname \<Rightarrow>
          if length wname > MAX_PLAYER_NAME then CHAR_NAME_TOO_LONG
          else if length wname < unat (nc_min_player_name cfg) then CHAR_NAME_TOO_SHORT
          else if \<not> is_valid_string cfg wname (nc_strict_player_names cfg) False create
          then CHAR_NAME_MIXED_LANGUAGES
          else CHAR_NAME_SUCCESS))"

definition is_valid_charter_name :: "utf8_lib \<Rightarrow> name_config \<Rightarrow> u8 list \<Rightarrow> text_error + bool" where
  "is_valid_charter_name L cfg name =
     sum_bind (utf8_to_wstr L name) (\<lambda>r. Inr (case r of
        None \<Rightarrow> False
      | Some wname \<Rightarrow>
          if length wname > MAX_CHARTER_NAME then False
          else if length wname < unat (nc_min_charter_name cfg) then False
          else is_valid_string cfg wname (nc_strict_charter_names cfg) True False))"

datatype pet_name_reason =
    PET_NAME_SUCCESS | PET_NAME_INVALID | PET_NAME_NO_NAME | PET_NAME_TOO_SHORT | PET_NAME_TOO_LONG
  | PET_NAME_MIXED_LANGUAGES | PET_NAME_PROFANE | PET_NAME_RESERVED | PET_NAME_THREE_CONSECUTIVE
  | PET_NAME_INVALID_SPACE | PET_NAME_CONSECUTIVE_SPACES | PET_NAME_RUSSIAN_CONSECUTIVE_SILENT_CHARACTERS
  | PET_NAME_RUSSIAN_SILENT_CHARACTER_AT_BEGINNING_OR_END | PET_NAME_DECLENSION_DOESNT_MATCH_BASE_NAME

definition check_pet_name :: "utf8_lib \<Rightarrow> name_config \<Rightarrow> u8 list \<Rightarrow> text_error + pet_name_reason" where
  "check_pet_name L cfg name =
     sum_bind (utf8_to_wstr L name) (\<lambda>r. Inr (case r of
        None \<Rightarrow> PET_NAME_INVALID
      | Some wname \<Rightarrow>
          if length wname > MAX_PET_NAME then PET_NAME_TOO_LONG
          else if length wname < unat (nc_min_pet_name cfg) then PET_NAME_TOO_SHORT
          else if \<not> is_valid_string cfg wname (nc_strict_pet_names cfg) False False
          then PET_NAME_MIXED_LANGUAGES
          else PET_NAME_SUCCESS))"

text \<open>Reserved names are kept in lower case; rows that are not UTF-8 are skipped.\<close>

fun load_reserved_names :: "utf8_lib \<Rightarrow> u8 list list \<Rightarrow> wchar list list \<Rightarrow> text_error + wchar list list" where
  "load_reserved_names L [] acc = Inr acc"
| "load_reserved_names L (name # rows) acc =
     sum_bind (utf8_to_wstr L name) (\<lambda>r. case r of
        None \<Rightarrow> load_reserved_names L rows acc
      | Some w \<Rightarrow> load_reserved_names L rows (List.insert (wstr_to_lower w) acc))"

definition is_reserved_name :: "utf8_lib \<Rightarrow> wchar list list \<Rightarrow> u8 list \<Rightarrow> text_error + bool" where
  "is_reserved_name L reserved name =
     sum_bind (utf8_to_wstr L name) (\<lambda>r. Inr (case r of
        None \<Rightarrow> False
      | Some w \<Rightarrow> wstr_to_lower w \<in> set reserved))"

section \<open>Case mapping\<close>

text \<open>The ranges that are shifted by 32, and the pairs of neighbours.\<close>

definition is_capital :: "wchar \<Rightarrow> bool" where
  "is_capital w \<longleftrightarrow> w \<ge> 65 \<and> w \<le> 90 \<or> w \<ge> 0x00C0 \<and> w \<le> 0x00D6 \<or> w \<ge> 0x00D8 \<and> w \<le> 0x00DE \<or>
     w \<ge> 0x0410 \<and> w \<le> 0x042F"

definition is_small :: "wchar \<Rightarrow> bool" where
  "is_small w \<longleftrightarrow> w \<ge> 32 \<and> is_capital (w - 32)"

definition is_even_pair :: "wchar \<Rightarrow> bool" where
  "is_even_pair w \<longleftrightarrow> w \<ge> 0x0100 \<and> w \<le> 0x012E \<and> even w"

lemma wchar_to_lower_eq:
  "wchar_to_lower w =
     (if is_capital w then w + 32 else if is_even_pair w then w + 1
      else if w = 0x1E9E then 0xDF else if w = 0x401 then 0x451 else w)"
  by (auto simp: wchar_to_lower_def is_capital_def is_even_pair_def uint16_def even_iff_mod_2_eq_zero)

lemma wchar_to_upper_eq:
  "wchar_to_upper w =
     (if is_small w then w - 32 else if 0 < w \<and> is_even_pair (w - 1) then w - 1
      else if w = 0xDF then 0x1E9E else if w = 0x451 then 0x401 else w)"
proof -
  have small: "is_small w \<longleftrightarrow> 97 \<le> w \<and> w \<le> 122 \<or> 0xE0 \<le> w \<and> w \<le> 0xF6 \<or> 0xF8 \<le> w \<and> w \<le> 0xFE \<or>
      0x0430 \<le> w \<and> w \<le> 0x044F"
    by (auto simp: is_small_def is_capital_def)
  have pair: "0 < w \<and> is_even_pair (w - 1) \<longleftrightarrow> 0x0101 \<le> w \<and> w \<le> 0x012F \<and> w mod 2 = 1"
    unfolding is_even_pair_def by presburger
  have "w < 65536 \<Longrightarrow> uint16 w = w" by (simp add: uint16_def)
  then show ?thesis
    unfolding small pair wchar_to_upper_def by auto
qed

lemma wchar_classes:
  "is_capital w \<Longrightarrow> \<not> is_capital (w + 32) \<and> \<not> is_even_pair (w + 32) \<and> w + 32 \<noteq> 0x1E9E \<and> w + 32 \<noteq> 0x401"
  "is_capital w \<Longrightarrow> \<not> is_small w \<and> \<not> is_even_pair (w - 1) \<and> w \<noteq> 0xDF \<and> w \<noteq> 0x451"
  "is_even_pair w \<Longrightarrow> \<not> is_capital (w + 1) \<and> \<not> is_even_pair (w + 1) \<and> w + 1 \<noteq> 0x1E9E \<and> w + 1 \<noteq> 0x401"
  "is_even_pair w \<Longrightarrow> \<not> is_small w \<and> \<not> is_even_pair (w - 1) \<and> w \<noteq> 0xDF \<and> w \<noteq> 0x451 \<and> \<not> is_capital w"
  by (auto simp: is_capital_def is_small_def is_even_pair_def)

lemma wchar_special:
  "\<not> is_capital 0xDF" "\<not> is_even_pair 0xDF" "\<not> is_capital 0x451" "\<not> is_even_pair 0x451" "\<not> is_small 0x1E9E"
  "\<not> is_even_pair 0x1E9D" "\<not> is_small 0x401" "\<not> is_even_pair 0x400" "\<not> is_capital 0x401" "\<not> is_capital 0x1E9E"
  "\<not> is_even_pair 0x401" "\<not> is_even_pair 0x1E9E" "\<not> is_small 0xDF" "\<not> is_small 0x451"
  by (simp_all add: is_capital_def is_even_pair_def is_small_def)

lemma wchar_to_lower_idem: "wchar_to_lower (wchar_to_lower w) = wchar_to_lower w"
  using wchar_classes(1,3) [of w] wchar_special by (simp add: wchar_to_lower_eq)

lemma wchar_small_eq: "is_small w \<Longrightarrow> is_capital (w - 32) \<and> w - 32 + 32 = w"
  by (simp add: is_small_def)

lemma wchar_to_upper_idem: "wchar_to_upper (wchar_to_upper w) = wchar_to_upper w"
proof (cases "is_small w \<or> is_even_pair (w - 1)")
  case True
  then show ?thesis
    using wchar_classes(2) [of "w - 32"] wchar_classes(4) [of "w - 1"] wchar_small_eq [of w]
    by (auto simp: wchar_to_upper_eq)
next
  case False
  then show ?thesis using wchar_special by (simp add: wchar_to_upper_eq)
qed

lemma wchar_lower_upper: "wchar_to_lower (wchar_to_upper w) = wchar_to_lower w"
proof -
  have s: "\<not> is_capital w \<and> \<not> is_even_pair w \<and> w \<noteq> 0x1E9E \<and> w \<noteq> 0x401" if "is_small w"
    using wchar_classes(1) [of "w - 32"] wchar_small_eq [OF that] by simp
  have e: "\<not> is_capital w \<and> \<not> is_even_pair w \<and> w \<noteq> 0x1E9E \<and> w \<noteq> 0x401" if "0 < w" "is_even_pair (w - 1)"
    using wchar_classes(3) [of "w - 1"] that by simp
  show ?thesis
    using s e wchar_small_eq [of w] wchar_special wchar_classes(4) [of "w - 1"]
    by (auto simp: wchar_to_lower_eq wchar_to_upper_eq)
qed

lemma capitalize_idem: "capitalize (capitalize ws) = capitalize ws"
  by (cases ws) (simp_all add: capitalize_def wchar_to_upper_idem wchar_to_lower_idem)

lemma lower_capitalize: "wstr_to_lower (capitalize ws) = wstr_to_lower ws"
  by (cases ws) (simp_all add: capitalize_def wstr_to_lower_def wchar_lower_upper wchar_to_lower_idem)

section \<open>What the conversions rely on\<close>

text \<open>
  The documented behaviour of the \<open>utf8\<close> library: \<open>distance\<close> counts the code points of a valid text,
  \<open>utf8to16\<close> writes its UTF-16 code units, one per code point below \<open>0x10000\<close> and a surrogate pair
  for the others, and \<open>utf16to8\<close> writes a text with the units it is given. \<open>P\<close> decodes a text to its
  code points, \<open>None\<close> for text that is not UTF-8.
\<close>

definition utf16_units :: "nat \<Rightarrow> wchar list" where
  "utf16_units c =
     (if c < 0x10000 then [c]
      else [0xD800 + (c - 0x10000) div 0x400, 0xDC00 + (c - 0x10000) mod 0x400])"

definition is_surrogate :: "wchar \<Rightarrow> bool" where
  "is_surrogate w \<longleftrightarrow> 0xD800 \<le> w \<and> w \<le> 0xDFFF"

definition utf8_documented :: "utf8_lib \<Rightarrow> (u8 list \<Rightarrow> nat list option) \<Rightarrow> bool" where
  "utf8_documented L P \<longleftrightarrow>
     (\<forall>s. ul_distance L s = map_option length (P s) \<and>
          ul_utf8to16 L s = map_option (\<lambda>cps. concat (map utf16_units cps)) (P s) \<and>
          (P s = Some [] \<longleftrightarrow> s = []))"

definition utf8_inverse :: "utf8_lib \<Rightarrow> (u8 list \<Rightarrow> nat list option) \<Rightarrow> bool" where
  "utf8_inverse L P \<longleftrightarrow>
     (\<forall>s cps. P s = Some cps \<longrightarrow> (\<forall>c \<in> set cps. c < 0x110000 \<and> \<not> is_surrogate c)) \<and>
     (\<forall>ws t. ul_utf16to8 L ws = Some t \<longrightarrow>
        (\<exists>cps. P t = Some cps \<and> concat (map utf16_units cps) = ws))"

definition supplementary :: "nat list \<Rightarrow> nat" where
  "supplementary cps = length (filter (\<lambda>c. 0x10000 \<le> c) cps)"

lemma documented_empty: "utf8_documented L P \<Longrightarrow> P s = Some [] \<longleftrightarrow> s = []"
  unfolding utf8_documented_def by blast

lemma length_utf16: "length (concat (map utf16_units cps)) = length cps + supplementary cps"
  by (induction cps) (simp_all add: utf16_units_def supplementary_def)

lemma utf16_bmp: "\<forall>c \<in> set cps. c < 0x10000 \<Longrightarrow> concat (map utf16_units cps) = cps"
  by (induction cps) (simp_all add: utf16_units_def)

lemma utf16_no_surrogate:
  assumes "concat (map utf16_units cps) = ws" and "\<forall>c \<in> set cps. c < 0x110000" and "\<forall>w \<in> set ws. \<not> is_surrogate w"
  shows "cps = ws"
proof -
  have "c < 0x10000" if c: "c \<in> set cps" for c
  proof (rule ccontr)
    assume "\<not> c < 0x10000"
    moreover from this have "0xD800 + (c - 0x10000) div 0x400 \<in> set ws"
      using c assms(1) by (force simp: utf16_units_def)
    moreover have "(c - 0x10000) div 0x400 \<le> 0x3FF" using assms(2) c by auto
    ultimately show False using assms(3) by (auto simp: is_surrogate_def)
  qed
  then show ?thesis using utf16_bmp [of cps] assms(1) by simp
qed

lemma utf8_to_wbuf_cases:
  assumes "utf8_documented L P"
  shows "utf8_to_wbuf L s n =
    (case P s of
       None \<Rightarrow> Inr None
     | Some cps \<Rightarrow>
         if length cps > n then Inr None
         else if length cps + supplementary cps > n + 1 then Inl (Overrun (length cps + supplementary cps) (n + 1))
         else Inr (Some (take (length cps) (concat (map utf16_units cps)))))"
  using assms by (simp add: utf8_documented_def utf8_to_wbuf_def length_utf16 split: option.split)

lemma case_mapping_bmp:
  assumes "w < 0x10000" and "\<not> is_surrogate w"
  shows "wchar_to_lower w < 0x10000 \<and> \<not> is_surrogate (wchar_to_lower w)"
    and "wchar_to_upper w < 0x10000 \<and> \<not> is_surrogate (wchar_to_upper w)"
  using assms
  by (auto simp: wchar_to_lower_eq wchar_to_upper_eq is_surrogate_def is_capital_def is_even_pair_def is_small_def)

lemma capitalize_bmp:
  "\<forall>w \<in> set ws. w < 0x10000 \<and> \<not> is_surrogate w \<Longrightarrow> \<forall>w \<in> set (capitalize ws). w < 0x10000 \<and> \<not> is_surrogate w"
  by (cases ws) (auto simp: capitalize_def case_mapping_bmp)

lemma normalize_player_name_bmp:
  assumes L: "utf8_documented L P" "utf8_inverse L P" and P: "P s = Some cps" "\<forall>c \<in> set cps. c < 0x10000"
    and r: "normalize_player_name L s = Inr (Some t)"
  shows "P t = Some (capitalize cps) \<and> ul_utf16to8 L (capitalize cps) = Some t \<and> length cps \<le> 15 \<and> s \<noteq> []"
proof -
  have sup: "supplementary cps = 0" using P(2) by (auto simp: supplementary_def filter_empty_conv)
  have n: "utf8_to_wbuf L s 15 = (if length cps > 15 then Inr None else Inr (Some cps))"
    using P utf16_bmp [OF P(2)] sup by (simp add: utf8_to_wbuf_cases [OF L(1)])
  with r have t: "ul_utf16to8 L (capitalize cps) = Some t" and le: "length cps \<le> 15" and s: "s \<noteq> []"
    by (auto simp: normalize_player_name_def MAX_INTERNAL_PLAYER_NAME_def wstr_to_utf8_def split: if_splits)
  then obtain cps' where c: "P t = Some cps'" "concat (map utf16_units cps') = capitalize cps"
    using L(2) unfolding utf8_inverse_def by blast
  moreover have "\<forall>c \<in> set cps. \<not> is_surrogate c" using L(2) P(1) by (auto simp: utf8_inverse_def)
  ultimately have "cps' = capitalize cps"
    using utf16_no_surrogate [OF c(2)] capitalize_bmp [of cps] P(2) L(2) by (auto simp: utf8_inverse_def)
  with c t le s show ?thesis by simp
qed

section \<open>Strict names\<close>

text \<open>
  In the realm zones the configuration calls "basic Latin at create", strict level 2 accepts no name
  at creation: \<open>LT_BASIC_LATIN\<close> is 0 and matches no class.
\<close>

lemma strict_zone_rejects:
  assumes "nc_realm_zone cfg \<notin> {0, 1, 2, 3, 4, 6, 8, 9, 10, 11, 12, 14, 16, 26, 28}" and "nc_strict_player_names cfg = 2"
    and "check_player_name L cfg name True = Inr r"
  shows "r \<noteq> CHAR_NAME_SUCCESS"
  using assms
  by (auto simp: check_player_name_def is_valid_string_def get_realm_language_type_def sum_bind_Inr_iff
      CHAR_NAME_SUCCESS_def CHAR_NAME_INVALID_CHARACTER_def CHAR_NAME_TOO_LONG_def CHAR_NAME_TOO_SHORT_def
      CHAR_NAME_MIXED_LANGUAGES_def split: option.splits if_splits)

section \<open>A concrete library\<close>

text \<open>One-byte characters and the four-byte characters that start with \<open>0xF0\<close>.\<close>

fun demo_points :: "u8 list \<Rightarrow> nat list option" where
  "demo_points (a # b # c # d # s) =
     (if a = 0xF0 \<and> 0x90 \<le> b \<and> b \<le> 0xBF
      then map_option ((#) ((unat b mod 64) * 4096 + (unat c mod 64) * 64 + unat d mod 64)) (demo_points s)
      else if a < 128 then map_option ((#) (unat a)) (demo_points (b # c # d # s)) else None)"
| "demo_points [] = Some []"
| "demo_points (a # s) = (if a < 128 then map_option ((#) (unat a)) (demo_points s) else None)"

definition demo_utf8 :: utf8_lib where
  "demo_utf8 = \<lparr>ul_distance = (\<lambda>s. map_option length (demo_points s)),
     ul_utf8to16 = (\<lambda>s. map_option (\<lambda>cps. concat (map utf16_units cps)) (demo_points s)),
     ul_utf16to8 = (\<lambda>ws. if list_all (\<lambda>w. w < 128) ws then Some (map of_nat ws) else None)\<rparr>"

lemma demo_points_nonempty: "demo_points s = Some [] \<longleftrightarrow> s = []"
  by (cases s rule: demo_points.cases) auto

lemma demo_utf8_documented: "utf8_documented demo_utf8 demo_points"
  by (simp add: utf8_documented_def demo_utf8_def demo_points_nonempty)

lemma ascii_points: "\<forall>b \<in> set s. b < 128 \<Longrightarrow> demo_points s = Some (map unat s)"
proof (induction s rule: demo_points.induct)
  case (1 a b c d s)
  moreover from this have "a \<noteq> 0xF0" by auto
  ultimately show ?case by simp
qed auto

lemma demo_utf8_inverse:
  assumes "ul_utf16to8 demo_utf8 ws = Some t"
  shows "demo_points t = Some ws" and "\<forall>w \<in> set ws. w < 128"
proof -
  from assms have w: "\<forall>w \<in> set ws. w < 128" and t: "t = map of_nat ws"
    by (auto simp: demo_utf8_def list_all_iff split: if_splits)
  have "(of_nat w :: u8) < 128" if "w \<in> set ws" for w
  proof -
    have "w < 128" using w that by blast
    then show ?thesis by (simp add: word_less_nat_alt unat_of_nat)
  qed
  then have "demo_points t = Some (map unat t)" using t by (intro ascii_points) auto
  moreover have "map unat t = ws"
  proof -
    have "w mod 256 = w" if "w \<in> set ws" for w
    proof -
      have "w < 128" using w that by blast
      then show ?thesis by simp
    qed
    then show ?thesis unfolding t by (simp add: unat_of_nat map_idI)
  qed
  ultimately show "demo_points t = Some ws" by simp
  show "\<forall>w \<in> set ws. w < 128" by (rule w)
qed

lemma ascii_scalar: "(a :: u8) < 128 \<Longrightarrow> unat a < 0x110000 \<and> \<not> is_surrogate (unat a)"
  by (simp add: word_less_nat_alt is_surrogate_def)

lemma four_bytes:
  assumes "144 \<le> (b :: nat)" and "b \<le> 191"
  shows "0x10000 \<le> b mod 64 * 4096 + c mod 64 * 64 + d mod 64 \<and> b mod 64 * 4096 + c mod 64 * 64 + d mod 64 < 0x110000"
proof -
  obtain r where r: "b = 128 + r" "16 \<le> r" "r < 64"
    using assms that [of "b - 128"] by auto
  have "(r + 2 * 64) mod 64 = r" using r(3) by (simp only: mod_mult_self1) simp
  with r(1) have "b mod 64 = r" by (simp add: add.commute)
  moreover have "65536 \<le> r * 4096 + y * 64 + z \<and> r * 4096 + y * 64 + z < 1114112" if "y < 64" "z < 64" for y z
    using r that by linarith
  ultimately show ?thesis by simp
qed

lemma demo_points_scalar: "demo_points s = Some cps \<Longrightarrow> \<forall>c \<in> set cps. c < 0x110000 \<and> \<not> is_surrogate c"
proof (induction s arbitrary: cps rule: demo_points.induct)
  case (1 a b c d s)
  show ?case
  proof (cases "a = 0xF0 \<and> 0x90 \<le> b \<and> b \<le> 0xBF")
    case True
    then have b: "144 \<le> unat b" "unat b \<le> 191" by (simp_all add: word_le_nat_alt)
    define n where "n = (unat b mod 64) * 4096 + (unat c mod 64) * 64 + unat d mod 64"
    have n: "0x10000 \<le> n" "n < 0x110000" using four_bytes [OF b] unfolding n_def by blast+
    have "demo_points (a # b # c # d # s) = map_option ((#) n) (demo_points s)"
      unfolding n_def demo_points.simps(1) by (rule if_P [OF True])
    note 1(3) [unfolded this]
    then obtain rest where "demo_points s = Some rest" "cps = n # rest" by auto
    with 1(1) [OF True] n show ?thesis by (simp add: is_surrogate_def)
  next
    case False
    then have e: "demo_points (a # b # c # d # s) =
        (if a < 128 then map_option ((#) (unat a)) (demo_points (b # c # d # s)) else None)"
      unfolding demo_points.simps(1) by (rule if_not_P)
    note 1(3) [unfolded e]
    then obtain rest where r: "a < 128" "demo_points (b # c # d # s) = Some rest" "cps = unat a # rest"
      by (cases "a < 128"; cases "demo_points (b # c # d # s)") simp_all
    with 1(2) [OF False r(1,2)] ascii_scalar [OF r(1)] show ?thesis by simp
  qed
qed (auto dest: ascii_scalar split: if_splits)

lemma demo_utf8_is_inverse: "utf8_inverse demo_utf8 demo_points"
  unfolding utf8_inverse_def
proof (intro conjI allI impI)
  fix ws t assume t: "ul_utf16to8 demo_utf8 ws = Some t"
  have "concat (map utf16_units ws) = ws"
    using demo_utf8_inverse(2) [OF t] by (intro utf16_bmp) auto
  with demo_utf8_inverse(1) [OF t]
  show "\<exists>cps. demo_points t = Some cps \<and> concat (map utf16_units cps) = ws" by blast
qed (rule demo_points_scalar)

section \<open>Properties\<close>

text \<open>
  C17: When \<open>normalizePlayerName\<close> leaves its stack buffer. Under the documented behaviour of the
  \<open>utf8\<close> library, it writes behind the 16 places of \<open>wstr_buf\<close> exactly for the names of at most 15
  characters whose UTF-16 form has more than 16 units: the length check counts characters, the copy
  writes a surrogate pair for each character above U+FFFF. Names without such characters are safe.
\<close>

theorem name_buffer_overrun:
  assumes "utf8_documented L P"
  shows "normalize_player_name L s = Inl (Overrun k n) \<longleftrightarrow>
    (\<exists>cps. P s = Some cps \<and> length cps \<le> 15 \<and> k = length cps + supplementary cps \<and> n = 16 \<and> 16 < k)"
proof -
  have "P [] = Some []" using assms by (simp add: utf8_documented_def)
  then show ?thesis
    by (auto simp: normalize_player_name_def utf8_to_wbuf_cases [OF assms] MAX_INTERNAL_PLAYER_NAME_def sum_bind_Inl_iff
        supplementary_def split: option.splits if_splits)
qed

text \<open>Nine times U+1F600.\<close>

theorem name_buffer_overrun_witness:
  "normalize_player_name demo_utf8 (concat (replicate 9 [0xF0, 0x9F, 0x98, 0x80])) = Inl (Overrun 18 16)"
proof -
  have "demo_points (concat (replicate n [0xF0, 0x9F, 0x98, 0x80])) = Some (replicate n 0x1F600)" for n
    by (induction n) simp_all
  then show ?thesis
    using name_buffer_overrun [OF demo_utf8_documented] by (simp add: supplementary_def)
qed

text \<open>
  Names without characters above U+FFFF are normalised consistently: the result is the text with
  its first letter in upper case and the rest in lower case, normalising again changes nothing, and
  the lower-case form by which channels and reserved names are looked up is that of the original.
\<close>

theorem normalized_name_is_canonical:
  assumes "utf8_documented L P" and "utf8_inverse L P" and "P s = Some cps" and "\<forall>c \<in> set cps. c < 0x10000"
    and "normalize_player_name L s = Inr (Some t)"
  shows "P t = Some (capitalize cps) \<and> normalize_player_name L t = Inr (Some t) \<and>
    wstr_to_lower (capitalize cps) = wstr_to_lower cps"
proof -
  from normalize_player_name_bmp [OF assms]
  have t: "P t = Some (capitalize cps)" "ul_utf16to8 L (capitalize cps) = Some t" "length cps \<le> 15" "s \<noteq> []"
    by auto
  have len: "length (capitalize cps) = length cps" by (cases cps) (simp_all add: capitalize_def)
  have "cps \<noteq> []" using documented_empty [OF assms(1), of s] assms(3) t(4) by auto
  then have "capitalize cps \<noteq> []" using len by (metis length_0_conv)
  then have "t \<noteq> []" using documented_empty [OF assms(1), of t] t(1) by auto
  have "\<forall>c \<in> set cps. c < 0x10000 \<and> \<not> is_surrogate c"
    using assms(2-4) unfolding utf8_inverse_def by blast
  from capitalize_bmp [OF this] have bmp: "\<forall>c \<in> set (capitalize cps). c < 0x10000" by blast
  then have "supplementary (capitalize cps) = 0" by (auto simp: supplementary_def filter_empty_conv)
  with t len utf16_bmp [OF bmp] \<open>t \<noteq> []\<close> have "normalize_player_name L t = Inr (Some t)"
    by (simp add: normalize_player_name_def utf8_to_wbuf_cases [OF assms(1)] MAX_INTERNAL_PLAYER_NAME_def
        wstr_to_utf8_def capitalize_idem)
  with t(1) show ?thesis by (simp add: lower_capitalize)
qed

theorem normalized_name_is_canonical_witness:
  "normalize_player_name demo_utf8 (ascii ''aNNa'') = Inr (Some (ascii ''Anna'')) \<and>
   normalize_player_name demo_utf8 (ascii ''Anna'') = Inr (Some (ascii ''Anna''))"
proof -
  have p: "demo_points (ascii ''aNNa'') = Some [97, 78, 78, 97]" by (simp add: ascii_def)
  then have n: "normalize_player_name demo_utf8 (ascii ''aNNa'') = Inr (Some (ascii ''Anna''))"
    by (simp add: normalize_player_name_def ascii_def utf8_to_wbuf_def demo_utf8_def MAX_INTERNAL_PLAYER_NAME_def
        utf16_units_def capitalize_def wchar_to_upper_def wchar_to_lower_def uint16_def wstr_to_utf8_def)
  from normalized_name_is_canonical [OF demo_utf8_documented demo_utf8_is_inverse p _ this] n
  show ?thesis by simp
qed

end
