(* ===== verification/ChannelWorld.thy ===== *)
theory ChannelWorld
  imports ChannelSafety PlayerNames "HOL-Library.List_Lexorder"
begin

text \<open>
  The channels of a running world: the two channel managers (\<open>ChannelMgr.cpp\<close>), the list of joined
  channels every player keeps (\<open>PlayerChannel.cpp\<close>), and the packet handlers that tie them together
  (\<open>ChannelHandler.cpp\<close>). Channels live at addresses of a heap, so that a pointer to a deleted
  channel is an address that is not in the heap.
\<close>

section \<open>State\<close>

datatype chat_error =
    PacketError bb_error
  | TextError text_error
  | ChannelFreed nat

record chat_world =
  cw_heap :: "(nat, channel) omap"
  cw_next :: nat
  cw_alliance :: "(wchar list, nat) omap"
  cw_horde :: "(wchar list, nat) omap"
  cw_lists :: "guid \<Rightarrow> nat list"
  cw_sent :: "(guid \<times> world_packet) list"

text \<open>The environment of the handlers: the channel's, the conversions and the home realm's name.\<close>

record chat_env = chan_env +
  ch_text :: utf8_lib
  ch_realm_name :: "u8 list"

datatype channel_mgr = AllianceChannelMgr | HordeChannelMgr

abbreviation (input) ALLIANCE :: u32 where "ALLIANCE \<equiv> 469"
abbreviation (input) HORDE :: u32 where "HORDE \<equiv> 67"

definition channel_mgr_of :: "chat_env \<Rightarrow> u32 \<Rightarrow> channel_mgr option" where
  "channel_mgr_of env team =
     (if en_two_side_channel env then Some AllianceChannelMgr
      else if team = ALLIANCE then Some AllianceChannelMgr
      else if team = HORDE then Some HordeChannelMgr
      else None)"

definition mgr_channels :: "channel_mgr \<Rightarrow> chat_world \<Rightarrow> (wchar list, nat) omap" where
  "mgr_channels m w = (case m of AllianceChannelMgr \<Rightarrow> cw_alliance w | HordeChannelMgr \<Rightarrow> cw_horde w)"

definition set_mgr_channels :: "channel_mgr \<Rightarrow> (wchar list, nat) omap \<Rightarrow> chat_world \<Rightarrow> chat_world" where
  "set_mgr_channels m x w =
     (case m of AllianceChannelMgr \<Rightarrow> w\<lparr>cw_alliance := x\<rparr> | HordeChannelMgr \<Rightarrow> w\<lparr>cw_horde := x\<rparr>)"

section \<open>Channel managers\<close>

definition lift_text :: "text_error + 'a \<Rightarrow> chat_error + 'a" where
  "lift_text m = (case m of Inl e \<Rightarrow> Inl (TextError e) | Inr x \<Rightarrow> Inr x)"

definition lift_bb :: "bb_error + 'a \<Rightarrow> chat_error + 'a" where
  "lift_bb m = (case m of Inl e \<Rightarrow> Inl (PacketError e) | Inr x \<Rightarrow> Inr x)"

text \<open>\<open>Utf8toWStr\<close> leaves the empty string for text that is not UTF-8; its result is not looked at.\<close>

definition channel_key :: "chat_env \<Rightarrow> u8 list \<Rightarrow> chat_error + wchar list" where
  "channel_key env name =
     lift_text (sum_bind (utf8_to_wstr (ch_text env) name)
       (\<lambda>r. Inr (wstr_to_lower (case r of None \<Rightarrow> [] | Some ws \<Rightarrow> ws))))"

definition get_join_channel :: "chat_env \<Rightarrow> channel_mgr \<Rightarrow> u8 list \<Rightarrow> u32 \<Rightarrow> chat_world \<Rightarrow> chat_error + (nat \<times> chat_world)" where
  "get_join_channel env m name channel_id w =
     sum_bind (channel_key env name) (\<lambda>wname.
       case om_get (mgr_channels m w) wname of
         None \<Rightarrow>
           let a = cw_next w;
               w = w\<lparr>cw_heap := om_put a (channel_new (chan_env.truncate env) name channel_id) (cw_heap w), cw_next := a + 1\<rparr>
           in Inr (a, set_mgr_channels m (om_put wname a (mgr_channels m w)) w)
       | Some a \<Rightarrow> Inr (a, w))"

definition make_not_on_packet :: "u8 list \<Rightarrow> writer" where
  "make_not_on_packet name data = chain [put_u8 0x05, put_string name] (wp_initialize SMSG_CHANNEL_NOTIFY data)"

definition get_channel :: "chat_env \<Rightarrow> channel_mgr \<Rightarrow> u8 list \<Rightarrow> guid \<Rightarrow> bool \<Rightarrow> chat_world \<Rightarrow> chat_error + (nat option \<times> chat_world)" where
  "get_channel env m name p pkt w =
     sum_bind (channel_key env name) (\<lambda>wname.
       case om_get (mgr_channels m w) wname of
         None \<Rightarrow>
           if pkt
           then sum_bind (lift_bb (make_not_on_packet name fresh_packet))
                  (\<lambda>data. Inr (None, w\<lparr>cw_sent := cw_sent w @ [(p, data)]\<rparr>))
           else Inr (None, w)
       | Some a \<Rightarrow> Inr (Some a, w))"

definition left_channel :: "chat_env \<Rightarrow> channel_mgr \<Rightarrow> u8 list \<Rightarrow> chat_world \<Rightarrow> chat_error + chat_world" where
  "left_channel env m name w =
     sum_bind (channel_key env name) (\<lambda>wname.
       case om_get (mgr_channels m w) wname of
         None \<Rightarrow> Inr w
       | Some a \<Rightarrow>
           (case om_get (cw_heap w) a of
              None \<Rightarrow> Inl (ChannelFreed a)
            | Some c \<Rightarrow>
                if get_num_players c = 0 \<and> \<not> is_constant c
                then Inr ((set_mgr_channels m (om_erase wname (mgr_channels m w)) w)\<lparr>cw_heap := om_erase a (cw_heap w)\<rparr>)
                else Inr w))"

section \<open>Running a channel operation\<close>

text \<open>
  The calls of the channel back into the players, in order: \<open>Player::JoinedChannel\<close> appends the
  channel to the player's list, \<open>Player::LeftChannel\<close> removes every entry of it.
\<close>

definition player_joined_channel :: "nat \<Rightarrow> guid \<Rightarrow> chat_world \<Rightarrow> chat_world" where
  "player_joined_channel a g w = w\<lparr>cw_lists := (cw_lists w)(g := cw_lists w g @ [a])\<rparr>"

definition player_left_channel :: "nat \<Rightarrow> guid \<Rightarrow> chat_world \<Rightarrow> chat_world" where
  "player_left_channel a g w = w\<lparr>cw_lists := (cw_lists w)(g := filter (\<lambda>x. x \<noteq> a) (cw_lists w g))\<rparr>"

fun run_effect :: "nat \<Rightarrow> chan_effect \<Rightarrow> chat_world \<Rightarrow> chat_world" where
  "run_effect a (SendTo g p) w = w\<lparr>cw_sent := cw_sent w @ [(g, p)]\<rparr>"
| "run_effect a (JoinedChannel g) w = player_joined_channel a g w"
| "run_effect a (LeftChannel g) w = player_left_channel a g w"

definition with_channel :: "nat \<Rightarrow> chan_op \<Rightarrow> chat_world \<Rightarrow> chat_error + chat_world" where
  "with_channel a f w =
     (case om_get (cw_heap w) a of
        None \<Rightarrow> Inl (ChannelFreed a)
      | Some c \<Rightarrow>
          sum_bind (lift_bb (f (channel.extend c \<lparr>cs_out = []\<rparr>)))
            (\<lambda>s. Inr (fold (run_effect a) (cs_out s)
                       (w\<lparr>cw_heap := om_put a (channel.truncate s) (cw_heap w)\<rparr>))))"

text \<open>\<open>if (cMgr = channelMgr(team)) if (chn = cMgr->GetChannel(name, _player)) chn->f\<close>.\<close>

definition on_channel :: "chat_env \<Rightarrow> chan_player \<Rightarrow> u8 list \<Rightarrow> chan_op \<Rightarrow> chat_world \<Rightarrow> chat_error + chat_world" where
  "on_channel env p channelname f w =
     (case channel_mgr_of env (cp_team p) of
        None \<Rightarrow> Inr w
      | Some m \<Rightarrow>
          sum_bind (get_channel env m channelname (cp_guid p) True w) (\<lambda>(chn, w).
            case chn of None \<Rightarrow> Inr w | Some a \<Rightarrow> with_channel a f w))"

text \<open>The name in the request, without the home realm and in normal form; \<open>None\<close> ends the handler.\<close>

definition target_name :: "chat_env \<Rightarrow> u8 list \<Rightarrow> chat_error + u8 list option" where
  "target_name env name =
     lift_text (normalize_player_name (ch_text env) (strip_home_realm_suffix (ch_realm_name env) name))"

definition on_channel_with :: "chat_env \<Rightarrow> chan_player \<Rightarrow> u8 list \<Rightarrow> u8 list \<Rightarrow> (u8 list \<Rightarrow> chan_op) \<Rightarrow> chat_world \<Rightarrow> chat_error + chat_world" where
  "on_channel_with env p channelname name f w =
     sum_bind (target_name env name) (\<lambda>t.
       case t of None \<Rightarrow> Inr w | Some n \<Rightarrow> on_channel env p channelname (f (c_string n)) w)"

section \<open>Handlers\<close>

definition read_sized_string :: "nat \<Rightarrow> world_packet \<Rightarrow> bb_error + (u8 list \<times> world_packet)" where
  "read_sized_string n p = sum_bind (read_bits n p) (\<lambda>(l, p). read_string l p)"

text \<open>Three layouts of a request with a channel and a player name.\<close>

definition read_channel_then_player_bits :: "world_packet \<Rightarrow> bb_error + ((u8 list \<times> u8 list) \<times> world_packet)" where
  "read_channel_then_player_bits p =
     sum_bind (read_bits 8 p) (\<lambda>(channelLen, p). sum_bind (read_bits 7 p) (\<lambda>(nameLen, p).
     sum_bind (read_string nameLen p) (\<lambda>(otp, p). sum_bind (read_string channelLen p) (\<lambda>(channelname, p).
       Inr ((channelname, otp), p)))))"

definition read_player_then_channel_bits :: "world_packet \<Rightarrow> bb_error + ((u8 list \<times> u8 list) \<times> world_packet)" where
  "read_player_then_channel_bits p =
     sum_bind (read_bits 7 p) (\<lambda>(nameLen, p). sum_bind (read_bits 8 p) (\<lambda>(channelLen, p).
     sum_bind (read_string nameLen p) (\<lambda>(otp, p). sum_bind (read_string channelLen p) (\<lambda>(channelname, p).
       Inr ((channelname, otp), p)))))"

definition read_kick_request :: "world_packet \<Rightarrow> bb_error + ((u8 list \<times> u8 list) \<times> world_packet)" where
  "read_kick_request p =
     sum_bind (read_bits 8 p) (\<lambda>(channelLen, p). sum_bind (read_bits 7 p) (\<lambda>(nameLen, p).
     sum_bind (read_string channelLen p) (\<lambda>(channelname, p). sum_bind (read_string nameLen p) (\<lambda>(otp, p).
       Inr ((channelname, otp), p)))))"

definition handle_join_channel :: "chat_env \<Rightarrow> chan_player \<Rightarrow> world_packet \<Rightarrow> chat_world \<Rightarrow> chat_error + chat_world" where
  "handle_join_channel env p recv w =
     sum_bind (lift_bb (read_join_channel_request recv)) (\<lambda>(request, recv).
       case request of
         None \<Rightarrow> Inr w
       | Some r \<Rightarrow>
           if jr_channel_name r = [] then Inr w
           else case channel_mgr_of env (cp_team p) of
                  None \<Rightarrow> Inr w
                | Some m \<Rightarrow>
                    sum_bind (get_join_channel env m (jr_channel_name r) (jr_channel_id r) w)
                      (\<lambda>(a, w). with_channel a (channel_join (chan_env.truncate env) p (jr_password r)) w))"

definition handle_leave_channel :: "chat_env \<Rightarrow> chan_player \<Rightarrow> world_packet \<Rightarrow> chat_world \<Rightarrow> chat_error + chat_world" where
  "handle_leave_channel env p recv w =
     sum_bind (lift_bb (get_u32 recv)) (\<lambda>(unk, recv).
     sum_bind (lift_bb (read_sized_string 8 recv)) (\<lambda>(channelname, recv).
       if channelname = [] then Inr w
       else case channel_mgr_of env (cp_team p) of
              None \<Rightarrow> Inr w
            | Some m \<Rightarrow>
                sum_bind (get_channel env m channelname (cp_guid p) True w) (\<lambda>(chn, w).
                sum_bind (case chn of None \<Rightarrow> Inr w
                          | Some a \<Rightarrow> with_channel a (channel_leave (chan_env.truncate env) p True) w)
                  (left_channel env m channelname))))"

definition handle_channel_list :: "chat_env \<Rightarrow> chan_player \<Rightarrow> world_packet \<Rightarrow> chat_world \<Rightarrow> chat_error + chat_world" where
  "handle_channel_list env p recv w =
     sum_bind (lift_bb (read_sized_string 7 recv)) (\<lambda>(channelname, recv).
       on_channel env p channelname (channel_list (chan_env.truncate env) p) w)"

definition handle_channel_password :: "chat_env \<Rightarrow> chan_player \<Rightarrow> world_packet \<Rightarrow> chat_world \<Rightarrow> chat_error + chat_world" where
  "handle_channel_password env p recv w =
     sum_bind (lift_bb (read_bits 8 recv)) (\<lambda>(nameLen, recv). sum_bind (lift_bb (read_bits 7 recv)) (\<lambda>(passLen, recv).
     sum_bind (lift_bb (read_string nameLen recv)) (\<lambda>(channelname, recv).
     sum_bind (lift_bb (read_string passLen recv)) (\<lambda>(pass, recv).
       on_channel env p channelname (channel_password (chan_env.truncate env) p pass) w))))"

text \<open>
  \<open>chn->SetOwner(_player->GetObjectGuid(), newp.c_str())\<close> selects the overload
  \<open>SetOwner(ObjectGuid, bool)\<close>: the first argument is a guid and a pointer converts to \<open>true\<close>.
\<close>

definition handle_channel_set_owner :: "chat_env \<Rightarrow> chan_player \<Rightarrow> world_packet \<Rightarrow> chat_world \<Rightarrow> chat_error + chat_world" where
  "handle_channel_set_owner env p recv w =
     sum_bind (lift_bb (read_channel_then_player_bits recv)) (\<lambda>((channelname, newp), recv).
       on_channel_with env p channelname newp
         (\<lambda>n. channel_set_owner_guid (chan_env.truncate env) (cp_guid p) True) w)"

definition handle_channel_owner :: "chat_env \<Rightarrow> chan_player \<Rightarrow> world_packet \<Rightarrow> chat_world \<Rightarrow> chat_error + chat_world" where
  "handle_channel_owner env p recv w =
     sum_bind (lift_bb (read_sized_string 8 recv)) (\<lambda>(channelname, recv).
       on_channel env p channelname (channel_send_who_owner (chan_env.truncate env) p) w)"

definition handle_channel_moderator :: "chat_env \<Rightarrow> chan_player \<Rightarrow> world_packet \<Rightarrow> chat_world \<Rightarrow> chat_error + chat_world" where
  "handle_channel_moderator env p recv w =
     sum_bind (lift_bb (read_channel_then_player_bits recv)) (\<lambda>((channelname, otp), recv).
       on_channel_with env p channelname otp (\<lambda>n. channel_set_mode (chan_env.truncate env) p n True True) w)"

text \<open>This handler calls \<open>UnsetMute\<close>.\<close>

definition handle_channel_unmoderator :: "chat_env \<Rightarrow> chan_player \<Rightarrow> world_packet \<Rightarrow> chat_world \<Rightarrow> chat_error + chat_world" where
  "handle_channel_unmoderator env p recv w =
     sum_bind (lift_bb (read_channel_then_player_bits recv)) (\<lambda>((channelname, otp), recv).
       on_channel_with env p channelname otp (\<lambda>n. channel_set_mode (chan_env.truncate env) p n False False) w)"

definition handle_channel_mute :: "chat_env \<Rightarrow> chan_player \<Rightarrow> world_packet \<Rightarrow> chat_world \<Rightarrow> chat_error + chat_world" where
  "handle_channel_mute env p recv w =
     sum_bind (lift_bb (read_player_then_channel_bits recv)) (\<lambda>((channelname, otp), recv).
       on_channel_with env p channelname otp (\<lambda>n. channel_set_mode (chan_env.truncate env) p n False True) w)"

definition handle_channel_unmute :: "chat_env \<Rightarrow> chan_player \<Rightarrow> world_packet \<Rightarrow> chat_world \<Rightarrow> chat_error + chat_world" where
  "handle_channel_unmute env p recv w =
     sum_bind (lift_bb (read_channel_then_player_bits recv)) (\<lambda>((channelname, otp), recv).
       on_channel_with env p channelname otp (\<lambda>n. channel_set_mode (chan_env.truncate env) p n False False) w)"

definition handle_channel_invite :: "chat_env \<Rightarrow> chan_player \<Rightarrow> world_packet \<Rightarrow> chat_world \<Rightarrow> chat_error + chat_world" where
  "handle_channel_invite env p recv w =
     sum_bind (lift_bb (read_player_then_channel_bits recv)) (\<lambda>((channelname, otp), recv).
       on_channel_with env p channelname otp (\<lambda>n. channel_invite (chan_env.truncate env) p n) w)"

definition handle_channel_kick :: "chat_env \<Rightarrow> chan_player \<Rightarrow> world_packet \<Rightarrow> chat_world \<Rightarrow> chat_error + chat_world" where
  "handle_channel_kick env p recv w =
     sum_bind (lift_bb (read_kick_request recv)) (\<lambda>((channelname, otp), recv).
       on_channel_with env p channelname otp (\<lambda>n. channel_kick_or_ban (chan_env.truncate env) p n False) w)"

definition handle_channel_ban :: "chat_env \<Rightarrow> chan_player \<Rightarrow> world_packet \<Rightarrow> chat_world \<Rightarrow> chat_error + chat_world" where
  "handle_channel_ban env p recv w =
     sum_bind (lift_bb (read_player_then_channel_bits recv)) (\<lambda>((channelname, otp), recv).
       on_channel_with env p channelname otp (\<lambda>n. channel_kick_or_ban (chan_env.truncate env) p n True) w)"

definition handle_channel_unban :: "chat_env \<Rightarrow> chan_player \<Rightarrow> world_packet \<Rightarrow> chat_world \<Rightarrow> chat_error + chat_world" where
  "handle_channel_unban env p recv w =
     sum_bind (lift_bb (read_player_then_channel_bits recv)) (\<lambda>((channelname, otp), recv).
       on_channel_with env p channelname otp (\<lambda>n. channel_unban (chan_env.truncate env) p n) w)"

definition handle_channel_announcements :: "chat_env \<Rightarrow> chan_player \<Rightarrow> world_packet \<Rightarrow> chat_world \<Rightarrow> chat_error + chat_world" where
  "handle_channel_announcements env p recv w =
     sum_bind (lift_bb (read_sized_string 8 recv)) (\<lambda>(channelname, recv).
       on_channel env p channelname (channel_announce (chan_env.truncate env) p) w)"

definition handle_channel_moderate :: "chat_env \<Rightarrow> chan_player \<Rightarrow> world_packet \<Rightarrow> chat_world \<Rightarrow> chat_error + chat_world" where
  "handle_channel_moderate env p recv w =
     sum_bind (lift_bb (get_string recv)) (\<lambda>(channelname, recv).
       on_channel env p channelname (channel_moderate (chan_env.truncate env) p) w)"

definition handle_channel_display_list_query :: "chat_env \<Rightarrow> chan_player \<Rightarrow> world_packet \<Rightarrow> chat_world \<Rightarrow> chat_error + chat_world" where
  "handle_channel_display_list_query env p recv w =
     sum_bind (lift_bb (read_sized_string 8 recv)) (\<lambda>(channelname, recv).
       on_channel env p channelname (channel_list (chan_env.truncate env) p) w)"

definition handle_set_channel_watch :: "world_packet \<Rightarrow> chat_world \<Rightarrow> chat_error + chat_world" where
  "handle_set_channel_watch recv w = sum_bind (lift_bb (get_string recv)) (\<lambda>(channelname, recv). Inr w)"

section \<open>The player's own list\<close>

text \<open>\<open>CleanupChannels\<close>: every iteration removes the first entry; \<open>fuel\<close> is the length of the list.\<close>

fun cleanup_loop :: "nat \<Rightarrow> chat_env \<Rightarrow> chan_player \<Rightarrow> chat_world \<Rightarrow> chat_error + chat_world" where
  "cleanup_loop 0 env p w = Inr w"
| "cleanup_loop (Suc fuel) env p w =
     (case cw_lists w (cp_guid p) of
        [] \<Rightarrow> Inr w
      | ch # rest \<Rightarrow>
          sum_bind (with_channel ch (channel_leave (chan_env.truncate env) p False)
                     (w\<lparr>cw_lists := (cw_lists w)(cp_guid p := rest)\<rparr>)) (\<lambda>w.
          sum_bind (case channel_mgr_of env (cp_team p) of
                      None \<Rightarrow> Inr w
                    | Some m \<Rightarrow>
                        (case om_get (cw_heap w) ch of
                           None \<Rightarrow> Inl (ChannelFreed ch)
                         | Some c \<Rightarrow> left_channel env m (ch_name c) w))
            (cleanup_loop fuel env p)))"

definition cleanup_channels :: "chat_env \<Rightarrow> chan_player \<Rightarrow> chat_world \<Rightarrow> chat_error + chat_world" where
  "cleanup_channels env p w = cleanup_loop (length (cw_lists w (cp_guid p))) env p w"

fun leave_lfg_loop :: "nat list \<Rightarrow> chat_env \<Rightarrow> chan_player \<Rightarrow> chat_world \<Rightarrow> chat_error + chat_world" where
  "leave_lfg_loop [] env p w = Inr w"
| "leave_lfg_loop (a # as) env p w =
     (case om_get (cw_heap w) a of
        None \<Rightarrow> Inl (ChannelFreed a)
      | Some c \<Rightarrow>
          if is_lfg c then with_channel a (channel_leave (chan_env.truncate env) p True) w
          else leave_lfg_loop as env p w)"

definition leave_lfg_channel :: "chat_env \<Rightarrow> chan_player \<Rightarrow> chat_world \<Rightarrow> chat_error + chat_world" where
  "leave_lfg_channel env p w = leave_lfg_loop (cw_lists w (cp_guid p)) env p w"

end
