(* ===== verification/ChannelLists.thy ===== *)
theory ChannelLists
  imports ChannelWorld
begin

text \<open>
  No channel pointer dangles. A player's list of joined channels only holds channels he is a member
  of, and a manager deletes a channel only when it has no member; so the pointers that the managers
  and the players keep always point to live channels, whatever requests arrive in whatever order.
\<close>

section \<open>Runs whatever their outcome\<close>

text \<open>\<open>okp P m\<close>: if the computation returns, it returns a state with \<open>P\<close>.\<close>

definition okp :: "('s \<Rightarrow> bool) \<Rightarrow> 'e + 's \<Rightarrow> bool" where
  "okp P m \<longleftrightarrow> (\<forall>s. m = Inr s \<longrightarrow> P s)"

lemma okp_simps [simp]: "okp P (Inl e)" "okp P (Inr s) = P s"
  by (simp_all add: okp_def)

lemma okp_bind: "okp Q m \<Longrightarrow> (\<And>s. Q s \<Longrightarrow> okp P (k s)) \<Longrightarrow> okp P (sum_bind m k)"
  by (cases m) simp_all

lemma okp_any: "okp (\<lambda>s. True) m"
  by (simp add: okp_def)

section \<open>Membership and the calls into the players\<close>

text \<open>
  \<open>joined es S\<close>: the players whose list holds the channel after the calls \<open>es\<close>, when \<open>S\<close> held it
  before. \<open>fresh es S\<close>: no call enters the channel a second time.
\<close>

fun joined :: "chan_effect list \<Rightarrow> guid set \<Rightarrow> guid set" where
  "joined [] S = S"
| "joined (SendTo g p # es) S = joined es S"
| "joined (JoinedChannel g # es) S = joined es (insert g S)"
| "joined (LeftChannel g # es) S = joined es (S - {g})"

fun fresh :: "chan_effect list \<Rightarrow> guid set \<Rightarrow> bool" where
  "fresh [] S = True"
| "fresh (SendTo g p # es) S = fresh es S"
| "fresh (JoinedChannel g # es) S = (g \<notin> S \<and> fresh es (insert g S))"
| "fresh (LeftChannel g # es) S = fresh es (S - {g})"

lemma joined_append: "joined (es @ fs) S = joined fs (joined es S)"
  by (induction es S rule: joined.induct) simp_all

lemma fresh_append: "fresh (es @ fs) S \<longleftrightarrow> fresh es S \<and> fresh fs (joined es S)"
  by (induction es S rule: joined.induct) auto

lemma joined_sends: "joined (map (\<lambda>k. SendTo k d) ks) S = S" "fresh (map (\<lambda>k. SendTo k d) ks) S"
  by (induction ks) simp_all

text \<open>
  \<open>keeps X S n s\<close>: a channel named \<open>n\<close> whose calls so far keep list membership within channel
  membership, but perhaps for the players in \<open>X\<close>.
\<close>

definition keeps :: "guid set \<Rightarrow> guid set \<Rightarrow> u8 list \<Rightarrow> chan_state \<Rightarrow> bool" where
  "keeps X S n s \<longleftrightarrow> ch_name s = n \<and> om_inv (ch_players s) \<and> fresh (cs_out s) S \<and>
     joined (cs_out s) S \<subseteq> {g. is_on s g} \<union> X"

lemma keeps_sends: "keeps X S n s \<Longrightarrow> keeps X S n (s\<lparr>cs_out := cs_out s @ map (\<lambda>k. SendTo k d) ks\<rparr>)"
  by (auto simp: keeps_def joined_append fresh_append joined_sends is_on_def)

lemma keeps_reply: "keeps X S n s \<Longrightarrow> okp (keeps X S n) (reply env f g s)"
proof -
  assume s: "keeps X S n s"
  have "keeps X S n (send_to_one env d g s)" for d
    using s keeps_sends [OF s, of d "[g]"] by (simp add: send_to_one_def emit_def split: option.split)
  then show ?thesis unfolding reply_def by (intro okp_bind [OF okp_any]) simp
qed

lemma keeps_broadcast: "keeps X S n s \<Longrightarrow> okp (keeps X S n) (broadcast env f s)"
  unfolding broadcast_def send_to_all_def by (intro okp_bind [OF okp_any]) (simp add: keeps_sends)

lemma keeps_with_slot: "keeps X S n s \<Longrightarrow> keeps (X - {g}) S n (with_slot g f s)"
  by (auto simp: keeps_def with_slot_def om_inv_put is_on_def)

lemma keeps_slot: "keeps {} S n s \<Longrightarrow> keeps {} S n (with_slot g f s)"
  using keeps_with_slot [of "{}"] by simp

lemma keeps_fields [simp]:
  "keeps X S n (s\<lparr>ch_password := p\<rparr>) = keeps X S n s" "keeps X S n (s\<lparr>ch_announce := a\<rparr>) = keeps X S n s"
  "keeps X S n (s\<lparr>ch_moderate := a\<rparr>) = keeps X S n s" "keeps X S n (s\<lparr>ch_owner_guid := g\<rparr>) = keeps X S n s"
  "keeps X S n (s\<lparr>ch_banned := b\<rparr>) = keeps X S n s"
  by (simp_all add: keeps_def is_on_def)

lemma keeps_erase:
  "keeps {} S n s \<Longrightarrow> g \<notin> joined (cs_out s) S \<Longrightarrow> keeps {} S n (s\<lparr>ch_players := om_erase g (ch_players s)\<rparr>)"
  by (auto simp: keeps_def om_inv_erase is_on_def)

lemma keeps_kicked:
  "keeps {} S n s \<Longrightarrow> keeps {} S n (emit (LeftChannel g) (s\<lparr>ch_players := om_erase g (ch_players s)\<rparr>))"
  by (auto simp: keeps_def om_inv_erase is_on_def emit_def joined_append fresh_append)

lemma keeps_owner_cleared: "keeps {} S n s \<Longrightarrow> keeps {} S n (owner_cleared g s)"
  by (simp add: owner_cleared_def keeps_slot)

lemma keeps_set_owner_guid: "keeps {} S n s \<Longrightarrow> okp (keeps {} S n) (channel_set_owner_guid env g ex s)"
  unfolding channel_set_owner_guid_eq Let_def
  by (simp add: keeps_owner_cleared)
     (auto intro!: okp_bind [where Q = "keeps {} S n"] keeps_broadcast keeps_slot keeps_owner_cleared)

text \<open>Decomposing an operation.\<close>

lemma okp_if: "(b \<Longrightarrow> okp P m) \<Longrightarrow> (\<not> b \<Longrightarrow> okp P k) \<Longrightarrow> okp P (if b then m else k)"
  by simp

lemma okp_option:
  "(x = None \<Longrightarrow> okp P m) \<Longrightarrow> (\<And>v. x = Some v \<Longrightarrow> okp P (k v)) \<Longrightarrow> okp P (case x of None \<Rightarrow> m | Some v \<Rightarrow> k v)"
  by (cases x) simp_all

lemma okp_InrI: "P s \<Longrightarrow> okp P (Inr s)"
  by simp

lemma okp_keeps_bind:
  "okp (keeps {} S n) m \<Longrightarrow> (\<And>s. keeps {} S n s \<Longrightarrow> okp P (k s)) \<Longrightarrow> okp P (sum_bind m k)"
  by (rule okp_bind)

lemmas keeps_intros = okp_if okp_option okp_InrI okp_keeps_bind keeps_reply keeps_broadcast keeps_set_owner_guid
  keeps_kicked keeps_slot

section \<open>Every operation keeps it\<close>

lemma keeps_join: "keeps {} S n s \<Longrightarrow> okp (keeps {} S n) (channel_join env p pw s)"
proof -
  let ?g = "cp_guid p"
  let ?f = "\<lambda>i. i\<lparr>pi_player := ?g, pi_flags := MEMBER_FLAG_NONE\<rparr>"
  assume s: "keeps {} S n s"
  { assume off: "\<not> is_on s ?g"
    have "keeps {?g} S n (emit (JoinedChannel ?g) s)"
      using s off by (auto simp: keeps_def emit_def joined_append fresh_append is_on_def)
    then have "okp (keeps {?g} S n) (if b then broadcast env f (emit (JoinedChannel ?g) s)
        else Inr (emit (JoinedChannel ?g) s))" for b f
      by (simp add: keeps_broadcast) }
  note first = this
  have rest: "okp (keeps {} S n) (sum_bind (reply env (f t) ?g t) (\<lambda>c. sum_bind (join_notify env ?g c) (\<lambda>c.
      if \<not> is_constant c \<and> ch_owner_guid c = 0
      then sum_bind (channel_set_owner_guid env ?g (length (ch_players c) > 1) c)
             (\<lambda>c. Inr (with_slot ?g (pi_set_moderator True) c))
      else Inr c)))" if "keeps {} S n t" for t f
    using that unfolding join_notify_def by (intro keeps_intros) simp_all
  have slot: "keeps {} S n (with_slot ?g ?f t)" if "keeps {?g} S n t" for t
    using keeps_with_slot [OF that, of ?g] by simp
  have main: "okp (keeps {} S n)
      (sum_bind (if b then broadcast env f (emit (JoinedChannel ?g) s) else Inr (emit (JoinedChannel ?g) s)) (\<lambda>c.
       sum_bind (reply env (h (with_slot ?g ?f c)) ?g (with_slot ?g ?f c)) (\<lambda>c. sum_bind (join_notify env ?g c) (\<lambda>c.
         if \<not> is_constant c \<and> ch_owner_guid c = 0
         then sum_bind (channel_set_owner_guid env ?g (length (ch_players c) > 1) c)
                (\<lambda>c. Inr (with_slot ?g (pi_set_moderator True) c))
         else Inr c))))" if "\<not> is_on s ?g" for b f h
    by (rule okp_bind [OF first [OF that]]) (rule rest [OF slot])
  show ?thesis
    unfolding channel_join_def Let_def using keeps_reply [OF s] s main by simp
qed

lemma keeps_leave:
  assumes "keeps {} S n s" and "send \<or> cp_guid p \<notin> joined (cs_out s) S"
  shows "okp (keeps {} S n) (channel_leave env p send s)"
proof -
  let ?g = "cp_guid p"
  let ?Q = "\<lambda>t. keeps {} S n t \<and> ?g \<notin> joined (cs_out t) S"
  have gone: "keeps {} S n (emit (LeftChannel ?g) t) \<and> ?g \<notin> joined (cs_out (emit (LeftChannel ?g) t)) S"
    if "keeps {} S n t" for t
    using that by (auto simp: keeps_def emit_def joined_append fresh_append is_on_def)
  have first: "okp ?Q (if send then sum_bind (reply env (make_you_left s) ?g s) (\<lambda>c. Inr (emit (LeftChannel ?g) c)) else Inr s)"
    using assms gone by (auto intro!: okp_bind [where Q = "keeps {} S n"] keeps_reply)
  have rest: "okp (keeps {} S n) (sum_bind (if b then broadcast env f u else Inr u) (\<lambda>c.
      sum_bind (leave_notify env ?g c) (\<lambda>c. if ow then channel_set_owner_guid env (h c) True c else Inr c)))"
    if "keeps {} S n u" for b f u h ow
    using that unfolding leave_notify_def by (intro keeps_intros) simp_all
  have "okp (keeps {} S n) (sum_bind (if send
                  then sum_bind (reply env (make_you_left s) ?g s) (\<lambda>c. Inr (emit (LeftChannel ?g) c))
                  else Inr s) k)" if "\<And>t. ?Q t \<Longrightarrow> okp (keeps {} S n) (k t)" for k
    by (rule okp_bind [OF first]) (rule that)
  then show ?thesis
    unfolding channel_leave_def Let_def
    using keeps_reply [OF assms(1)] assms(1) rest [OF keeps_erase] by simp
qed

lemma keeps_kick_or_ban:
  assumes s: "keeps {} S n s"
  shows "okp (keeps {} S n) (channel_kick_or_ban env p t ban s)"
  unfolding channel_kick_or_ban_def Let_def
  using s by (intro keeps_intros) simp_all

lemma keeps_set_mode: "keeps {} S n s \<Longrightarrow> okp (keeps {} S n) (channel_set_mode env p t m st s)"
  unfolding channel_set_mode_def set_moderator_guid_def set_mute_guid_def Let_def
  by (intro keeps_intros) simp_all

lemma keeps_others:
  assumes s: "keeps {} S n s"
  shows "okp (keeps {} S n) (channel_unban env p t s)" "okp (keeps {} S n) (channel_password env p pw s)"
    "okp (keeps {} S n) (channel_set_owner env p t s)" "okp (keeps {} S n) (channel_send_who_owner env p s)"
    "okp (keeps {} S n) (channel_announce env p s)" "okp (keeps {} S n) (channel_moderate env p s)"
    "okp (keeps {} S n) (channel_invite env p t s)"
  unfolding channel_unban_def channel_password_def channel_set_owner_def channel_send_who_owner_def
    channel_announce_def channel_moderate_def channel_invite_def Let_def
  using s by (intro keeps_intros; simp)+

lemma keeps_list: "keeps {} S n s \<Longrightarrow> okp (keeps {} S n) (channel_list env p s)"
proof -
  assume s: "keeps {} S n s"
  have "keeps {} S n (send_to_one env d g s)" for d g
    using s keeps_sends [OF s, of d "[g]"] by (simp add: send_to_one_def emit_def split: option.split)
  then show ?thesis
    unfolding channel_list_def Let_def using keeps_reply [OF s] s
    by (auto intro!: okp_bind [OF okp_any] split: prod.splits)
qed

section \<open>The world's invariant\<close>

text \<open>
  Channels have names a join request can carry; registered ones are live, filed under the key of
  their name and registered once; a player's
  list holds each of its channels once, they are live, and he is a member of each.
\<close>

definition registered :: "chat_world \<Rightarrow> nat \<Rightarrow> channel_mgr \<Rightarrow> wchar list \<Rightarrow> bool" where
  "registered w a m k \<longleftrightarrow> om_get (mgr_channels m w) k = Some a"

definition chat_inv :: "chat_world \<Rightarrow> bool" where
  "chat_inv w \<longleftrightarrow>
     om_inv (cw_heap w) \<and> om_inv (cw_alliance w) \<and> om_inv (cw_horde w) \<and>
     (\<forall>a c. om_get (cw_heap w) a = Some c \<longrightarrow> a < cw_next w \<and> om_inv (ch_players c) \<and> length (ch_name c) \<le> 127) \<and>
     (\<forall>a m k. registered w a m k \<longrightarrow> om_get (cw_heap w) a \<noteq> None) \<and>
     (\<forall>a m k m' k'. registered w a m k \<longrightarrow> registered w a m' k' \<longrightarrow> m = m' \<and> k = k') \<and>
     (\<forall>g a. a \<in> set (cw_lists w g) \<longrightarrow> (\<exists>c. om_get (cw_heap w) a = Some c \<and> is_on c g)) \<and>
     (\<forall>g. distinct (cw_lists w g))"

text \<open>An error other than the use of a deleted channel is a refusal to go on, not a memory fault.\<close>

definition chat_safe :: "chat_error + chat_world \<Rightarrow> bool" where
  "chat_safe r \<longleftrightarrow> (case r of Inl (ChannelFreed a) \<Rightarrow> False | Inl e \<Rightarrow> True | Inr w \<Rightarrow> chat_inv w)"

lemma chat_safe_simps [simp]:
  "chat_safe (Inr w) = chat_inv w" "\<not> chat_safe (Inl (ChannelFreed a))" "chat_safe (Inl (PacketError e))"
  "chat_safe (Inl (TextError t))"
  by (simp_all add: chat_safe_def)

lemma chat_safe_lift [simp]:
  "chat_safe (sum_bind (lift_bb m) k) \<longleftrightarrow> (\<forall>x. m = Inr x \<longrightarrow> chat_safe (k x))"
  "chat_safe (sum_bind (lift_text t) j) \<longleftrightarrow> (\<forall>x. t = Inr x \<longrightarrow> chat_safe (j x))"
  by (cases m; simp add: lift_bb_def) (cases t; simp add: lift_text_def)

lemma chat_safe_bind: "chat_safe m \<Longrightarrow> (\<And>w. chat_inv w \<Longrightarrow> chat_safe (k w)) \<Longrightarrow> chat_safe (sum_bind m k)"
  by (cases m) (auto simp: chat_safe_def split: chat_error.splits)

lemma mgr_simps [simp]:
  "mgr_channels m (w\<lparr>cw_heap := h\<rparr>) = mgr_channels m w" "mgr_channels m (w\<lparr>cw_next := n\<rparr>) = mgr_channels m w"
  "mgr_channels m (w\<lparr>cw_lists := ls\<rparr>) = mgr_channels m w" "mgr_channels m (w\<lparr>cw_sent := ps\<rparr>) = mgr_channels m w"
  "mgr_channels m (set_mgr_channels m' x w) = (if m = m' then x else mgr_channels m w)"
  "cw_heap (set_mgr_channels m x w) = cw_heap w" "cw_next (set_mgr_channels m x w) = cw_next w"
  "cw_lists (set_mgr_channels m x w) = cw_lists w"
  by (cases m; cases m'; simp add: mgr_channels_def set_mgr_channels_def)+

lemma mgr_om_inv: "(\<forall>m. om_inv (mgr_channels m w)) \<longleftrightarrow> om_inv (cw_alliance w) \<and> om_inv (cw_horde w)"
proof -
  have "(\<forall>m. P m) \<longleftrightarrow> P AllianceChannelMgr \<and> P HordeChannelMgr" for P
    by (metis channel_mgr.exhaust)
  then show ?thesis by (simp add: mgr_channels_def)
qed

text \<open>The effects of a run touch only the entries of its own channel.\<close>

lemma run_effects_lists:
  "b \<in> set (cw_lists (fold (run_effect a) es w) g) \<longleftrightarrow>
     (if b = a then g \<in> joined es {g. a \<in> set (cw_lists w g)} else b \<in> set (cw_lists w g))"
proof (induction es arbitrary: w)
  case (Cons e es)
  have "{h. a \<in> set (cw_lists (run_effect a e w) h)} = joined [e] {h. a \<in> set (cw_lists w h)}"
    by (cases e) (auto simp: player_joined_channel_def player_left_channel_def)
  moreover have "joined es (joined [e] S) = joined (e # es) S" for S by (cases e) simp_all
  moreover have "b \<noteq> a \<Longrightarrow> b \<in> set (cw_lists (run_effect a e w) g) \<longleftrightarrow> b \<in> set (cw_lists w g)"
    by (cases e) (auto simp: player_joined_channel_def player_left_channel_def)
  ultimately show ?case using Cons.IH [of "run_effect a e w"] by simp
qed simp

lemma run_effects_distinct:
  "fresh es {g. a \<in> set (cw_lists w g)} \<Longrightarrow> \<forall>g. distinct (cw_lists w g) \<Longrightarrow>
     distinct (cw_lists (fold (run_effect a) es w) g)"
proof (induction es arbitrary: w)
  case (Cons e es)
  have "{h. a \<in> set (cw_lists (run_effect a e w) h)} = joined [e] {h. a \<in> set (cw_lists w h)}"
    by (cases e) (auto simp: player_joined_channel_def player_left_channel_def)
  moreover have "fresh es (joined [e] S)" if "fresh (e # es) S" for S using that by (cases e) simp_all
  moreover have "\<forall>g. distinct (cw_lists (run_effect a e w) g)"
    using Cons.prems by (cases e) (auto simp: player_joined_channel_def player_left_channel_def)
  ultimately show ?case using Cons.IH [of "run_effect a e w"] Cons.prems(1) by simp
qed simp

lemma run_effects_rest:
  "cw_heap (fold (run_effect a) es w) = cw_heap w \<and> cw_next (fold (run_effect a) es w) = cw_next w \<and>
   mgr_channels m (fold (run_effect a) es w) = mgr_channels m w"
proof (induction es arbitrary: w)
  case (Cons e es)
  then show ?case by (cases e) (simp_all add: player_joined_channel_def player_left_channel_def)
qed simp

text \<open>Running an operation that keeps list membership within channel membership is safe.\<close>

definition list_holders :: "nat \<Rightarrow> chat_world \<Rightarrow> guid set" where
  "list_holders a w = {g. a \<in> set (cw_lists w g)}"

lemma chat_inv_alt:
  "chat_inv w \<longleftrightarrow>
     om_inv (cw_heap w) \<and> (\<forall>m. om_inv (mgr_channels m w)) \<and>
     (\<forall>a c. om_get (cw_heap w) a = Some c \<longrightarrow> a < cw_next w \<and> om_inv (ch_players c) \<and> length (ch_name c) \<le> 127) \<and>
     (\<forall>a m k. om_get (mgr_channels m w) k = Some a \<longrightarrow> om_get (cw_heap w) a \<noteq> None) \<and>
     (\<forall>a m k m' k'. om_get (mgr_channels m w) k = Some a \<longrightarrow> om_get (mgr_channels m' w) k' = Some a \<longrightarrow> m = m' \<and> k = k') \<and>
     (\<forall>g a. a \<in> set (cw_lists w g) \<longrightarrow> (\<exists>c. om_get (cw_heap w) a = Some c \<and> is_on c g)) \<and>
     (\<forall>g. distinct (cw_lists w g))"
  unfolding chat_inv_def registered_def mgr_om_inv by blast

lemma with_channel_spec:
  assumes w: "chat_inv w" and c: "om_get (cw_heap w) a = Some c"
    and f: "\<And>s. keeps {} (list_holders a w) (ch_name c) s \<Longrightarrow> cs_out s = [] \<Longrightarrow> okp (keeps {} (list_holders a w) (ch_name c)) (f s)"
  shows "case with_channel a f w of Inl e \<Rightarrow> \<exists>b. e = PacketError b
    | Inr w' \<Rightarrow> chat_inv w' \<and> (\<forall>m. mgr_channels m w' = mgr_channels m w) \<and>
        (\<exists>s. f (channel.extend c \<lparr>cs_out = []\<rparr>) = Inr s \<and> ch_name s = ch_name c \<and> cw_heap w' = om_put a (channel.truncate s) (cw_heap w) \<and>
             (\<forall>b g. b \<in> set (cw_lists w' g) \<longleftrightarrow> (if b = a then g \<in> joined (cs_out s) (list_holders a w) else b \<in> set (cw_lists w g))))"
proof (cases "f (channel.extend c \<lparr>cs_out = []\<rparr>)")
  case (Inl e)
  then show ?thesis using c by (simp add: with_channel_def lift_bb_def)
next
  case (Inr s)
  let ?S = "list_holders a w" and ?c = "channel.extend c \<lparr>cs_out = []\<rparr>"
  have ext: "ch_name ?c = ch_name c" "ch_players ?c = ch_players c" "cs_out ?c = []" "is_on ?c g = is_on c g" for g
    by (simp_all add: channel.defs is_on_def)
  have "is_on c g" if "g \<in> ?S" for g
    using w c that unfolding chat_inv_alt list_holders_def by (metis mem_Collect_eq option.inject)
  moreover have "om_inv (ch_players c)" using w c unfolding chat_inv_alt by blast
  ultimately have "keeps {} ?S (ch_name c) ?c"
    by (auto simp: keeps_def ext)
  from f [OF this ext(3)] Inr have s: "keeps {} ?S (ch_name c) s" by simp
  let ?c' = "channel.truncate s"
  have tr: "ch_players ?c' = ch_players s" "ch_name ?c' = ch_name s" "is_on ?c' g = is_on s g" for g
    by (simp_all add: channel.defs is_on_def)
  let ?w = "w\<lparr>cw_heap := om_put a ?c' (cw_heap w)\<rparr>"
  let ?w' = "fold (run_effect a) (cs_out s) ?w"
  have eq: "with_channel a f w = Inr ?w'" using c Inr by (simp add: with_channel_def lift_bb_def)
  note rest = run_effects_rest [of a "cs_out s" ?w]
  have lists: "b \<in> set (cw_lists ?w' g) \<longleftrightarrow>
      (if b = a then g \<in> joined (cs_out s) ?S else b \<in> set (cw_lists w g))" for b g
    using run_effects_lists [of b a "cs_out s" ?w g] by (simp add: list_holders_def)
  have "distinct (cw_lists ?w' g)" for g
    using run_effects_distinct [of "cs_out s" a ?w g] s w by (simp add: keeps_def chat_inv_def list_holders_def)
  moreover have "\<exists>c. om_get (cw_heap ?w') b = Some c \<and> is_on c g" if "b \<in> set (cw_lists ?w' g)" for b g
    using that s w unfolding lists by (cases "b = a") (auto simp: rest tr keeps_def chat_inv_def)
  ultimately have "chat_inv ?w'"
    using w c s unfolding chat_inv_alt by (auto simp: rest om_inv_put tr keeps_def)
  then show ?thesis using eq rest Inr lists s by (simp add: keeps_def)
qed

lemma with_channel_safe:
  assumes "chat_inv w" and "om_get (cw_heap w) a \<noteq> None"
    and "\<And>n S s. keeps {} S n s \<Longrightarrow> okp (keeps {} S n) (f s)"
  shows "chat_safe (with_channel a f w)"
proof -
  obtain c where c: "om_get (cw_heap w) a = Some c" using assms(2) by blast
  show ?thesis
    using with_channel_spec [OF assms(1) c, of f] assms(3) by (auto split: sum.splits)
qed

text \<open>Looking a channel up, and creating one.\<close>

lemma get_channel_spec:
  assumes w: "chat_inv w"
  shows "case get_channel env m name p pkt w of Inl e \<Rightarrow> chat_safe (Inl e)
    | Inr (ch, w') \<Rightarrow> chat_inv w' \<and> cw_heap w' = cw_heap w \<and> (\<forall>a. ch = Some a \<longrightarrow> om_get (cw_heap w') a \<noteq> None)"
proof (cases "channel_key env name")
  case (Inl e)
  then show ?thesis
    by (auto simp: get_channel_def channel_key_def lift_text_def split: sum.splits)
next
  case (Inr k)
  have sent: "chat_inv (w\<lparr>cw_sent := ps\<rparr>)" for ps
    using w by (simp add: chat_inv_alt)
  show ?thesis
  proof (cases "om_get (mgr_channels m w) k")
    case None
    then show ?thesis
      using Inr w sent by (cases "make_not_on_packet name fresh_packet") (simp_all add: get_channel_def lift_bb_def)
  next
    case (Some a)
    then have "om_get (cw_heap w) a \<noteq> None" using w unfolding chat_inv_alt by blast
    then show ?thesis using Inr Some w by (simp add: get_channel_def)
  qed
qed

text \<open>The clauses one by one.\<close>

lemma chat_inv_dest:
  assumes "chat_inv w"
  shows "om_inv (cw_heap w)" "om_inv (mgr_channels m w)"
    "om_get (cw_heap w) a = Some c \<Longrightarrow> a < cw_next w" "om_get (cw_heap w) a = Some c \<Longrightarrow> om_inv (ch_players c)"
    "om_get (cw_heap w) a = Some c \<Longrightarrow> length (ch_name c) \<le> 127"
    "om_get (mgr_channels m w) k = Some a \<Longrightarrow> om_get (cw_heap w) a \<noteq> None"
    "om_get (mgr_channels m w) k = Some a \<Longrightarrow> om_get (mgr_channels m' w) k' = Some a \<Longrightarrow> m = m' \<and> k = k'"
    "a \<in> set (cw_lists w g) \<Longrightarrow> \<exists>c. om_get (cw_heap w) a = Some c \<and> is_on c g"
    "distinct (cw_lists w g)"
  using assms unfolding chat_inv_alt by blast+

lemma chat_inv_new:
  assumes w: "chat_inv w" and k: "om_get (mgr_channels m w) k = None" and c: "om_inv (ch_players c)" "length (ch_name c) \<le> 127"
  shows "chat_inv (set_mgr_channels m (om_put k (cw_next w) (mgr_channels m w))
           (w\<lparr>cw_heap := om_put (cw_next w) c (cw_heap w), cw_next := cw_next w + 1\<rparr>))"
proof -
  note d = chat_inv_dest [OF w]
  have unused: "om_get (cw_heap w) (cw_next w) = None"
    using d(3) by (cases "om_get (cw_heap w) (cw_next w)") auto
  then have reg: "om_get (mgr_channels m' w) k' \<noteq> Some (cw_next w)" for m' k'
    using d(6) by metis
  let ?w = "set_mgr_channels m (om_put k (cw_next w) (mgr_channels m w))
           (w\<lparr>cw_heap := om_put (cw_next w) c (cw_heap w), cw_next := cw_next w + 1\<rparr>)"
  have get: "om_get (mgr_channels m' ?w) k' =
      (if m' = m \<and> k' = k then Some (cw_next w) else om_get (mgr_channels m' w) k')" for m' k'
    by (simp add: om_get_put)
  have heap: "om_get (cw_heap ?w) a = (if a = cw_next w then Some c else om_get (cw_heap w) a)" for a
    by (simp add: om_get_put)
  show ?thesis
    unfolding chat_inv_alt
  proof (intro conjI allI impI)
    fix m' a k' m'' k''
    assume "om_get (mgr_channels m' ?w) k' = Some a" "om_get (mgr_channels m'' ?w) k'' = Some a"
    then show "m' = m''" "k' = k''"
      using d(7) [of m' k' a m'' k''] reg unfolding get by (auto split: if_splits)
  next
    fix a m' k' assume "om_get (mgr_channels m' ?w) k' = Some a"
    then show "om_get (cw_heap ?w) a \<noteq> None"
      using d(6) [of m' k' a] unfolding get heap by (auto split: if_splits)
  next
    fix a c' assume "om_get (cw_heap ?w) a = Some c'"
    then show "a < cw_next ?w" "om_inv (ch_players c')" "length (ch_name c') \<le> 127"
      using c d(3,4,5) [of a c'] unfolding heap by (auto split: if_splits)
  next
    fix g a assume "a \<in> set (cw_lists ?w g)"
    then show "\<exists>c. om_get (cw_heap ?w) a = Some c \<and> is_on c g"
      using d(8) [of a g] unused unfolding heap by auto
  qed (use d in \<open>simp_all add: om_inv_put\<close>)
qed

lemma get_join_channel_spec:
  assumes "chat_inv w" and "length name \<le> 127"
  shows "case get_join_channel env m name n w of Inl e \<Rightarrow> chat_safe (Inl e)
    | Inr (a, w') \<Rightarrow> chat_inv w' \<and> om_get (cw_heap w') a \<noteq> None"
proof -
  have c: "om_inv (ch_players (channel_new e name n))" "length (ch_name (channel_new e name n)) \<le> 127" for e
    using assms(2) by (auto simp: channel_new_def om_inv_def split: option.splits)
  note new = chat_inv_new [OF assms(1) _ c]
  have "om_get (cw_heap w) a \<noteq> None" if "om_get (mgr_channels m w) k = Some a" for a k
    using assms(1) that unfolding chat_inv_alt by blast
  note old = this
  show ?thesis
  proof (cases "channel_key env name")
    case (Inl e)
    then show ?thesis
      by (auto simp: get_join_channel_def channel_key_def lift_text_def split: sum.splits)
  next
    case (Inr k)
    then show ?thesis
      using new [of m k] old [of k] assms(1)
      by (cases "om_get (mgr_channels m w) k") (simp_all add: get_join_channel_def Let_def om_get_put)
  qed
qed

text \<open>The length of a name in a join request has seven bits.\<close>

lemma read_string_loop_length:
  "read_string_loop limit out b = Inr (xs, b') \<Longrightarrow> length xs \<le> length out + (limit - bb_rpos b)"
proof (induction limit out b rule: read_string_loop.induct)
  case (1 limit out b)
  show ?case
  proof (cases "bb_rpos b < bb_size b \<and> bb_rpos b < limit")
    case True
    then have u: "get_u8 b = Inr (bb_storage b ! bb_rpos b, b\<lparr>bb_bitpos := 8, bb_rpos := Suc (bb_rpos b)\<rparr>)"
      by (simp add: get_u8_eq)
    have "read_string_loop limit (out @ [bb_storage b ! bb_rpos b]) (b\<lparr>bb_bitpos := 8, bb_rpos := Suc (bb_rpos b)\<rparr>) = Inr (xs, b')"
      using "1.prems" True u by (subst (asm) read_string_loop.simps) simp
    from "1.IH" [OF True _ refl this] u True show ?thesis by simp arith
  next
    case False
    then show ?thesis using "1.prems" by (subst (asm) read_string_loop.simps) (auto split: if_splits)
  qed
qed

lemma read_string_length:
  assumes "read_string n b = Inr (xs, b')"
  shows "length xs \<le> unat n"
proof -
  have "unat (of_nat (bb_rpos b) + n) \<le> unat (of_nat (bb_rpos b) :: u32) + unat n" by (rule unat_word_ariths(1) [THEN ord_eq_le_trans]) simp
  also have "unat (of_nat (bb_rpos b) :: u32) \<le> bb_rpos b" by (simp add: unsigned_of_nat take_bit_nat_eq_self_iff take_bit_nat_less_eq_self)
  finally have "unat (of_nat (bb_rpos b) + n) - bb_rpos b \<le> unat n" by simp
  moreover have "length xs \<le> length ([] :: u8 list) + (unat (of_nat (bb_rpos b) + n) - bb_rpos b)"
    using assms by (intro read_string_loop_length) (simp add: read_string_def Let_def)
  ultimately show ?thesis by simp
qed

lemma read_bits_loop_high: "read_bits_loop v n b = Inr (w, b') \<Longrightarrow> n \<le> k \<Longrightarrow> bit w k = bit v k"
proof (induction n arbitrary: v b)
  case (Suc n)
  then obtain x c where "read_bit b = Inr (x, c)" by (cases "read_bit b") auto
  with Suc.IH [of "if x then v OR push_bit n 1 else v" c] Suc.prems show ?case
    by (auto simp: bit_simps split: if_splits)
qed simp

lemma read_bits_bound:
  assumes "read_bits n b = Inr (w, b')"
  shows "unat w < 2 ^ n"
proof -
  have "\<not> bit w k" if "n \<le> k" for k
    using read_bits_loop_high [OF assms [unfolded read_bits_def] that] by simp
  then have "take_bit n w = w" by (metis bit_eqI bit_take_bit_iff not_le)
  then show ?thesis by (metis take_bit_nat_less_exp unsigned_take_bit_eq)
qed

lemma join_name_length:
  assumes "read_join_channel_request recv = Inr (Some r, recv')"
  shows "length (jr_channel_name r) \<le> 127"
proof -
  obtain cl and b1 b2 b3 b4 :: world_packet where "read_bits 7 b1 = Inr (cl, b2)" "read_string cl b3 = Inr (jr_channel_name r, b4)"
    using assms by (auto simp: read_join_channel_request_def sum_bind_Inr_iff split: prod.splits if_splits)
  then show ?thesis using read_bits_bound [of 7 b1 cl b2] read_string_length [of cl b3] by fastforce
qed

end
