(* ===== verification/ChannelRules.thy ===== *)
theory ChannelRules
  imports ChannelSafety
begin

text \<open>
  The operations of a channel as one step relation, the invariant over all of them, and who may
  change what.
\<close>

section \<open>Requests\<close>

text \<open>
  Every operation that a player's request or logout reaches; the plain setters of \<open>Channel.h\<close> have no
  caller, \<open>Voice\<close> and \<open>DeVoice\<close> are empty. \<open>SetOwner\<close> has two overloads: \<open>SetOwner\<close> here is the one that takes the
  name of a player, \<open>AppointOwner\<close> the one that takes a guid, which is the one the set-owner request
  of a client calls, with the guid of its player.
\<close>

datatype chan_request =
    Join chan_player "u8 list"
  | Leave chan_player bool
  | KickOrBan chan_player "u8 list" bool
  | UnBan chan_player "u8 list"
  | Password chan_player "u8 list"
  | SetMode chan_player "u8 list" bool bool
  | SetOwner chan_player "u8 list"
  | AppointOwner chan_player guid bool
  | SendWhoOwner chan_player
  | List chan_player
  | Announce chan_player
  | Moderate chan_player
  | Say chan_player "u8 list option" u32
  | Invite chan_player "u8 list"

fun channel_step :: "chan_env \<Rightarrow> chan_request \<Rightarrow> chan_op" where
  "channel_step env (Join p pw) = channel_join env p pw"
| "channel_step env (Leave p send) = channel_leave env p send"
| "channel_step env (KickOrBan p n ban) = channel_kick_or_ban env p n ban"
| "channel_step env (UnBan p n) = channel_unban env p n"
| "channel_step env (Password p pw) = channel_password env p pw"
| "channel_step env (SetMode p n m s) = channel_set_mode env p n m s"
| "channel_step env (SetOwner p n) = channel_set_owner env p n"
| "channel_step env (AppointOwner p g exclaim) = channel_set_owner_guid env g exclaim"
| "channel_step env (SendWhoOwner p) = channel_send_who_owner env p"
| "channel_step env (List p) = channel_list env p"
| "channel_step env (Announce p) = channel_announce env p"
| "channel_step env (Moderate p) = channel_moderate env p"
| "channel_step env (Say p text lang) = channel_say env p text lang"
| "channel_step env (Invite p n) = channel_invite env p n"

fun requester :: "chan_request \<Rightarrow> chan_player" where
  "requester (Join p pw) = p"
| "requester (Leave p send) = p"
| "requester (KickOrBan p n ban) = p"
| "requester (UnBan p n) = p"
| "requester (Password p pw) = p"
| "requester (SetMode p n m s) = p"
| "requester (SetOwner p n) = p"
| "requester (AppointOwner p g exclaim) = p"
| "requester (SendWhoOwner p) = p"
| "requester (List p) = p"
| "requester (Announce p) = p"
| "requester (Moderate p) = p"
| "requester (Say p text lang) = p"
| "requester (Invite p n) = p"

fun request_text :: "chan_request \<Rightarrow> u8 list" where
  "request_text (KickOrBan p n ban) = n"
| "request_text (UnBan p n) = n"
| "request_text (SetMode p n m s) = n"
| "request_text (SetOwner p n) = n"
| "request_text (Say p text lang) = (case text of None \<Rightarrow> [] | Some t \<Rightarrow> t)"
| "request_text (Invite p n) = n"
| "request_text _ = []"

text \<open>Names the handlers read are below 128 bytes, chat lines below 256.\<close>

definition request_ok :: "chan_request \<Rightarrow> bool" where
  "request_ok r \<longleftrightarrow> player_ok (requester r) \<and> length (request_text r) \<le> 512"

section \<open>The invariant over every operation\<close>

lemma chan_inv_ban:
  assumes "chan_core c"
  shows "chan_core (c\<lparr>ch_banned := om_put g () (ch_banned c), ch_players := om_erase g (ch_players c)\<rparr>)"
  using assms by (auto simp: chan_core_def om_inv_erase om_inv_put)

lemma chan_fields [simp]:
  "ch_owner_guid (c\<lparr>ch_players := ps\<rparr>) = ch_owner_guid c"
  by simp

text \<open>A member leaves (and is perhaps banned); when it was the owner, \<open>g\<close> is the new owner.\<close>

lemma chan_inv_erase:
  assumes "chan_inv c" and "g \<noteq> ch_owner_guid c" and "b = ch_banned c \<or> b = om_put g () (ch_banned c)"
  shows "chan_inv (c\<lparr>ch_banned := b, ch_players := om_erase g (ch_players c)\<rparr>)"
proof -
  have "chan_core (c\<lparr>ch_banned := b, ch_players := om_erase g (ch_players c)\<rparr>)"
    using assms(3) chan_core_erase [of c g] chan_inv_ban [of c g] chan_inv_core [OF assms(1)] by auto
  moreover have "is_on (c\<lparr>ch_banned := b, ch_players := om_erase g (ch_players c)\<rparr>) h = is_on c h"
    "slot (c\<lparr>ch_banned := b, ch_players := om_erase g (ch_players c)\<rparr>) h = slot c h" if "h \<noteq> g" for h
    using that by (simp_all add: is_on_def slot_def)
  ultimately show ?thesis
    using assms(1,2) unfolding chan_inv_def by (simp add: is_constant_def om_erase_def)
qed

lemma begin_member:
  assumes "chan_core c"
  shows "case om_begin (ch_players c) of Some (k, i) \<Rightarrow> pi_player i \<noteq> 0 \<and> is_on c (pi_player i) | None \<Rightarrow> ch_players c = []"
proof (cases "om_begin (ch_players c)")
  case None
  then show ?thesis by (cases "ch_players c") (auto simp: om_begin_def)
next
  case (Some e)
  then obtain k i where e: "om_begin (ch_players c) = Some (k, i)" by (cases e) auto
  with assms have "om_get (ch_players c) k = Some i"
    using om.first_Some [of "ch_players c" k i] by (simp add: chan_core_def)
  with assms e show ?thesis by (auto simp: chan_core_def is_on_def)
qed

lemma channel_leave_ok:
  assumes "chan_inv c"
  shows "ok chan_inv (channel_leave env p send c)"
proof -
  let ?g = "cp_guid p"
  let ?c = "c\<lparr>ch_players := om_erase ?g (ch_players c)\<rparr>"
  have core: "chan_core ?c" using chan_inv_core [OF assms] by (rule chan_core_erase)
  have stay: "chan_inv ?c" if "is_on c ?g" "\<not> is_owner (slot c ?g)"
  proof -
    have "?g \<noteq> ch_owner_guid c" using that assms chan_core_member [OF chan_inv_core [OF assms], of ?g] by (auto simp: chan_inv_def)
    from chan_inv_erase [OF assms this, of "ch_banned c"] show ?thesis by simp
  qed
  have go: "ok chan_inv (channel_set_owner_guid env
      (case om_begin (om_erase ?g (ch_players c)) of Some (k, i) \<Rightarrow> pi_player i | None \<Rightarrow> 0) True (?c\<lparr>cs_out := es\<rparr>))" for es
  proof (rule set_owner_guid_ok)
    show "chan_core (?c\<lparr>cs_out := es\<rparr>)" using core by simp
  qed (use begin_member [OF core] in \<open>simp_all split: option.splits prod.splits\<close>)
  show ?thesis
    unfolding channel_leave_def Let_def leave_notify_def emit_eq
    using assms core by (intro ok_announce ok_intros built) (simp_all add: stay go chan_inv_name)
qed

text \<open>
  The one way out of the invariant: the owner of a channel with other members kicks or bans
  himself. \<open>SetOwner\<close> then enters him again, as a member without a guid.
\<close>

definition owner_removes_himself :: "chan_env \<Rightarrow> chan_request \<Rightarrow> 'a channel_scheme \<Rightarrow> bool" where
  "owner_removes_himself env r c \<longleftrightarrow>
     (case r of
        KickOrBan p n ban \<Rightarrow>
          (case en_player_named env n of None \<Rightarrow> False | Some t \<Rightarrow> cp_guid t = cp_guid p \<and> cp_guid p = ch_owner_guid c)
      | _ \<Rightarrow> False)"

text \<open>And \<open>SetOwner\<close> by guid asks for nothing: a guid that is no member's is entered as the owner.\<close>

definition appoints_stranger :: "chan_request \<Rightarrow> 'a channel_scheme \<Rightarrow> bool" where
  "appoints_stranger r c \<longleftrightarrow> (case r of AppointOwner p g exclaim \<Rightarrow> \<not> is_on c g | _ \<Rightarrow> False)"

lemma channel_kick_or_ban_ok:
  assumes "chan_inv c" and "length n \<le> 512" and "\<not> owner_removes_himself env (KickOrBan p n ban) c"
  shows "ok chan_inv (channel_kick_or_ban env p n ban c)"
proof -
  note core = chan_inv_core [OF assms(1)]
  have stay: "chan_inv (c\<lparr>ch_players := om_erase g (ch_players c)\<rparr>)"
    "chan_inv (c\<lparr>ch_banned := om_put g () (ch_banned c), ch_players := om_erase g (ch_players c)\<rparr>)"
    if "g \<noteq> ch_owner_guid c" for g
    using chan_inv_erase [OF assms(1) that, of "ch_banned c"]
      chan_inv_erase [OF assms(1) that, of "om_put g () (ch_banned c)"] by simp_all
  have go: "ok chan_inv (channel_set_owner_guid env (cp_guid p) True
      (c\<lparr>ch_players := om_erase g (ch_players c), cs_out := es\<rparr>))"
    "ok chan_inv (channel_set_owner_guid env (cp_guid p) True
      (c\<lparr>ch_banned := om_put g () (ch_banned c), ch_players := om_erase g (ch_players c), cs_out := es\<rparr>))"
    if "is_on c (cp_guid p)" "cp_guid p \<noteq> g" for g es
    using that chan_core_member [OF core that(1)] chan_core_erase [OF core, of g] chan_inv_ban [OF core, of g]
    by (auto intro!: set_owner_guid_ok simp: is_on_def)
  have empty: "ok chan_inv (channel_set_owner_guid env 0 True (c\<lparr>ch_players := [], cs_out := es\<rparr>))"
    "ok chan_inv (channel_set_owner_guid env 0 True
      (c\<lparr>ch_banned := om_put g () (ch_banned c), ch_players := [], cs_out := es\<rparr>))"
    if "om_erase g (ch_players c) = []" for g es
    using that chan_core_erase [OF core, of g] chan_inv_ban [OF core, of g]
    by (auto intro!: set_owner_guid_ok)
  show ?thesis
    unfolding channel_kick_or_ban_def Let_def emit_eq
    using assms
    by (intro ok_announce ok_intros built)
      (auto simp: chan_inv_name owner_removes_himself_def stay go empty)
qed

lemma channel_unban_ok:
  "chan_inv c \<Longrightarrow> length n \<le> 512 \<Longrightarrow> ok chan_inv (channel_unban env p n c)"
  unfolding channel_unban_def Let_def
  by (intro ok_intros built) (simp_all add: chan_inv_name chan_inv_unban)

lemma channel_password_ok: "chan_inv c \<Longrightarrow> ok chan_inv (channel_password env p pw c)"
  unfolding channel_password_def Let_def by (intro ok_intros built) (simp_all add: chan_inv_name)

lemma channel_set_mode_ok:
  assumes "chan_inv c" and "length n \<le> 512"
  shows "ok chan_inv (channel_set_mode env p n m st c)"
  unfolding channel_set_mode_def set_moderator_guid_def set_mute_guid_def Let_def
  using assms
  by (intro ok_intros built)
    (simp_all add: chan_inv_name chan_inv_moderator chan_inv_muted chan_inv_same)

lemma channel_set_owner_ok:
  assumes "chan_inv c" and "length n \<le> 512"
  shows "ok chan_inv (channel_set_owner env p n c)"
proof -
  note core = chan_inv_core [OF assms(1)]
  have "ok chan_inv (channel_set_owner_guid env g True (with_slot g (pi_set_moderator True) c))" if "is_on c g" for g
    using chan_core_member [OF core that] chan_inv_core [OF chan_inv_moderator [OF assms(1) that]]
    by (intro set_owner_guid_ok) simp_all
  then show ?thesis
    unfolding channel_set_owner_def Let_def
    using assms by (intro ok_intros built) (simp_all add: chan_inv_name)
qed

lemma channel_appoint_owner_ok:
  assumes "chan_inv c" and "\<not> appoints_stranger (AppointOwner p g exclaim) c"
  shows "ok chan_inv (channel_set_owner_guid env g exclaim c)"
  using assms chan_core_member [OF chan_inv_core [OF assms(1)], of g]
  by (intro set_owner_guid_ok) (simp_all add: chan_inv_core appoints_stranger_def)

lemma channel_who_owner_ok: "chan_inv c \<Longrightarrow> env_ok env \<Longrightarrow> ok chan_inv (channel_send_who_owner env p c)"
  unfolding channel_send_who_owner_def Let_def
  by (intro ok_intros built) (simp_all add: chan_inv_name env_ok_def)

lemma channel_toggle_ok:
  assumes "chan_inv c"
  shows "ok chan_inv (channel_announce env p c)" and "ok chan_inv (channel_moderate env p c)"
  unfolding channel_announce_def channel_moderate_def Let_def
  using assms
  by (intro ok_intros built; cases "ch_announce c"; simp add: chan_inv_name built)+

lemma appends_members:
  "appends (chain (concat (map (\<lambda>m. [put_u64 (mb_guid m), put_u32 (mb_realm_id m), put_u8 (mb_flags m)]) ms)))
     (concat (map (\<lambda>m. le_bytes 8 (mb_guid m) @ le_bytes 4 (mb_realm_id m) @ [mb_flags m]) ms))"
proof (induction ms)
  case (Cons m ms)
  from appends_chain_Cons [OF appends_value(3) appends_chain_Cons [OF appends_value(2) appends_chain_Cons
      [OF appends_value(1) this]], of "mb_guid m" "mb_realm_id m" "mb_flags m"]
  show ?case by (simp del: chain.simps)
qed (simp add: appends_chain_Nil del: chain.simps)

lemma build_list_ok:
  assumes "length name \<le> 127" and "length ms \<le> 700000"
  shows "\<exists>p. build_list name fl ms out = Inr (True, p)"
proof -
  let ?n = "of_nat (length ms) :: u32"
  let ?bs = "concat (map (\<lambda>m. le_bytes 8 (mb_guid m) @ le_bytes 4 (mb_realm_id m) @ [mb_flags m]) ms)"
  let ?fs = "[put_u8 1, put_string name, put_u8 fl, put_u32 ?n] @
      concat (map (\<lambda>m. [put_u64 (mb_guid m), put_u32 (mb_realm_id m), put_u8 (mb_flags m)]) ms)"
  have "length ?bs = 13 * length ms" by (induction ms) simp_all
  then have len: "length ([1] @ (name @ [0]) @ [fl] @ le_bytes 4 ?n @ ?bs) < 10000000" using assms by simp
  have "appends (chain ?fs) ([1] @ (name @ [0]) @ [fl] @ le_bytes 4 ?n @ ?bs)"
    unfolding append_Cons append_Nil
    by (rule appends_chain_byte appends_chain_Cons appends_string appends_members writes)+
  from appendsD [OF this, of "world_packet_new SMSG_CHANNEL_LIST"] len obtain p where
    "chain ?fs (world_packet_new SMSG_CHANNEL_LIST) = Inr p"
    by (auto simp del: chain.simps)
  with assms show ?thesis unfolding build_list_def wp_initialize_new by (simp del: chain.simps)
qed

lemma length_visible_members: "length (visible_members env p c) \<le> length (ch_players c)"
proof -
  have le: "length (concat (map f xs)) \<le> length xs" if "\<And>x. length (f x) \<le> 1" for f :: "_ \<Rightarrow> channel_member list" and xs
  proof (induction xs)
    case (Cons x xs)
    with that [of x] show ?case by simp
  qed simp
  show ?thesis unfolding visible_members_def by (rule le) (auto split: option.split)
qed

lemma channel_list_ok:
  assumes "chan_inv c" and "length (ch_players c) \<le> 700000"
  shows "ok chan_inv (channel_list env p c)"
proof -
  obtain d where "build_list (ch_name c) (ch_flags c) (visible_members env p c) fresh_packet = Inr (True, d)"
    using build_list_ok [of "ch_name c" "visible_members env p c"] chan_inv_name [OF assms(1)] assms(2)
      length_visible_members [of env p c] by (meson le_trans)
  with assms show ?thesis
    unfolding channel_list_def Let_def
    by (intro ok_intros built) (simp_all add: chan_inv_name send_to_one_def emit_def split: option.split)
qed

lemma build_channel_message:
  assumes "length text < 4096" "length name < 2048" "length chan \<le> 127" "tag < 512"
  shows "\<exists>d. build_chat_packet env CHAT_MSG_CHANNEL (Some text) lang tag g (Some name) g (Some name) (Some chan) 0 None
    fresh_packet = Inr d"
proof -
  let ?m = "\<lparr>cm_chat_type = CHAT_MSG_CHANNEL, cm_language = lang, cm_chat_tag = tag, cm_sender_guid = g,
    cm_receiver_guid = g, cm_group_guid = 0, cm_guild_guid = 0, cm_realm_id1 = cl_realm_id env,
    cm_realm_id2 = cl_realm_id env, cm_achievement_id = 0, cm_text = text, cm_sender_name = name,
    cm_receiver_name = [], cm_channel_name = chan, cm_addon_prefix = [], cm_hide_in_chat_log = False,
    cm_has_fake_time = False, cm_fake_time = 0\<rparr>"
  have "message_fits ?m" using assms by (simp add: message_fits_def not_le)
  from build_message_eq [OF this, of fresh_packet] obtain d where "build_message ?m fresh_packet = Inr (True, d)"
    by blast
  then show ?thesis by (simp add: build_chat_packet_def need_def chat_names_def chat_groups_def)
qed

lemma channel_say_ok:
  assumes "chan_inv c" and "player_ok p" and "\<And>t. text = Some t \<Longrightarrow> length t \<le> 512"
  shows "ok chan_inv (channel_say env p text lang c)"
proof (cases "text")
  case (Some t)
  have "length (c_string (ch_name c)) \<le> 127"
    using chan_inv_name [OF assms(1)] by (simp add: c_string_def) (meson length_takeWhile_le le_trans)
  then have "\<exists>d. build_chat_packet (en_chat env) CHAT_MSG_CHANNEL (Some t) l (cp_chat_tag p) (cp_guid p) (Some (cp_name p))
      (cp_guid p) (Some (cp_name p)) (Some (c_string (ch_name c))) 0 None fresh_packet = Inr d" for l
    using assms(2) assms(3) [OF Some] by (intro build_channel_message) (auto simp: player_ok_def)
  then have "builds (build_chat_packet (en_chat env) CHAT_MSG_CHANNEL (Some t) l (cp_chat_tag p) (cp_guid p) (Some (cp_name p))
      (cp_guid p) (Some (cp_name p)) (Some (c_string (ch_name c))) 0 None)" for l
    by (simp add: builds_def)
  then have "ok (\<lambda>d. chan_inv (send_to_all env d h c)) (build_chat_packet (en_chat env) CHAT_MSG_CHANNEL (Some t) l
      (cp_chat_tag p) (cp_guid p) (Some (cp_name p)) (cp_guid p) (Some (cp_name p)) (Some (c_string (ch_name c))) 0 None
      fresh_packet)" for l h
    using assms(1) by (auto simp: ok_def builds_def send_to_all_def)
  with assms(1) show ?thesis
    unfolding channel_say_def Let_def Some
    by (simp only: option.simps, intro ok_intros built) (simp_all add: chan_inv_name)
qed (simp add: channel_say_def assms(1))

lemma channel_invite_ok:
  assumes "chan_inv c" and "length n \<le> 512"
  shows "ok chan_inv (channel_invite env p n c)"
  unfolding channel_invite_def Let_def
  using assms by (intro ok_announce ok_intros built) (simp_all add: chan_inv_name)

lemma channel_step_ok:
  assumes "chan_inv c" and "request_ok r" and "env_ok env" and "length (ch_players c) \<le> 700000"
    and "\<not> owner_removes_himself env r c" and "\<not> appoints_stranger r c"
  shows "ok chan_inv (channel_step env r c)"
proof (cases r)
  case (Say p msg lang)
  with assms show ?thesis
    by (auto simp: request_ok_def intro!: channel_say_ok)
qed (use assms in \<open>simp_all add: request_ok_def channel_join_ok channel_leave_ok channel_kick_or_ban_ok channel_unban_ok
      channel_password_ok channel_set_mode_ok channel_set_owner_ok channel_who_owner_ok channel_list_ok
      channel_toggle_ok channel_invite_ok channel_appoint_owner_ok\<close>)

lemma channel_new_inv: "length name \<le> 127 \<Longrightarrow> chan_inv (channel_new env name i)"
  by (simp add: channel_new_def chan_inv_def chan_core_def om_inv_def Let_def split: option.split)

section \<open>Who may do what\<close>

text \<open>
  Requests that the channel must turn down, for want of membership, rank or password or for a ban.
  The appointment of an owner by guid is none of them: it asks for no right.
\<close>

fun unauthorized :: "chan_request \<Rightarrow> 'a channel_scheme \<Rightarrow> bool" where
  "unauthorized (Join p pw) c =
     (\<not> is_on c (cp_guid p) \<and> (is_banned c (cp_guid p) \<or> ch_password c \<noteq> [] \<and> c_string pw \<noteq> c_string (ch_password c)))"
| "unauthorized (Leave p send) c = (\<not> is_on c (cp_guid p))"
| "unauthorized (KickOrBan p n ban) c = (\<not> is_on c (cp_guid p) \<or> is_not_privileged p c)"
| "unauthorized (UnBan p n) c = (\<not> is_on c (cp_guid p) \<or> is_not_privileged p c)"
| "unauthorized (Password p pw) c = (\<not> is_on c (cp_guid p) \<or> is_not_privileged p c)"
| "unauthorized (SetMode p n m st) c = (\<not> is_on c (cp_guid p) \<or> is_not_privileged p c)"
| "unauthorized (AppointOwner p g exclaim) c = False"
| "unauthorized (SetOwner p n) c = (\<not> is_on c (cp_guid p) \<or> cp_security p < SEC_GAMEMASTER \<and> cp_guid p \<noteq> ch_owner_guid c)"
| "unauthorized (Announce p) c = (\<not> is_on c (cp_guid p) \<or> is_not_privileged p c)"
| "unauthorized (Moderate p) c = (\<not> is_on c (cp_guid p) \<or> is_not_privileged p c)"
| "unauthorized (Say p msg lang) c =
     (\<not> is_on c (cp_guid p) \<or> is_muted (slot c (cp_guid p)) \<or> ch_moderate c \<and> is_not_privileged p c)"
| "unauthorized (SendWhoOwner p) c = (\<not> is_on c (cp_guid p))"
| "unauthorized (List p) c = (\<not> is_on c (cp_guid p))"
| "unauthorized (Invite p n) c = (\<not> is_on c (cp_guid p))"

text \<open>Nothing happens but that \<open>g\<close> may be told so.\<close>

definition only_told :: "guid \<Rightarrow> chan_state \<Rightarrow> chan_state \<Rightarrow> bool" where
  "only_told g c c' \<longleftrightarrow> (\<exists>es. c' = c\<lparr>cs_out := cs_out c @ es\<rparr> \<and> set es \<subseteq> {SendTo g p |p. True})"

lemma only_told_reply: "builds f \<Longrightarrow> ok (only_told g c) (reply env f g c)"
proof -
  assume "builds f"
  then obtain d where d: "reply env f g c = Inr (send_to_one env d g c)" by (auto simp: builds_def reply_def)
  have "only_told g c (send_to_one env d g c)"
    unfolding only_told_def send_to_one_def emit_def
    by (cases "en_player env g") (rule exI [of _ "[]"], simp, rule exI [of _ "[SendTo g d]"], simp)
  with d show ?thesis by simp
qed

lemma only_told_refl: "only_told g c c"
  unfolding only_told_def by (rule exI [of _ "[]"]) simp

lemma unauthorized_step:
  assumes "chan_inv c" and "unauthorized r c"
  shows "ok (only_told (cp_guid (requester r)) c) (channel_step env r c)"
proof (cases r)
  case (Say p msg lang)
  with assms chan_inv_name [OF assms(1)] show ?thesis
    by (cases msg)
      (auto simp: channel_say_def Let_def only_told_reply built only_told_refl)
next
  case (Leave p send)
  with assms chan_inv_name [OF assms(1)] show ?thesis
    by (simp add: channel_leave_def Let_def only_told_reply built only_told_refl)
next
  case (Join p pw)
  with assms chan_inv_name [OF assms(1)] show ?thesis
    by (auto simp: channel_join_def Let_def only_told_reply built)
qed (use assms chan_inv_name [OF assms(1)] in \<open>auto simp: channel_kick_or_ban_def channel_unban_def channel_password_def
      channel_set_mode_def channel_set_owner_def channel_announce_def channel_moderate_def channel_send_who_owner_def
      channel_list_def channel_invite_def Let_def only_told_reply built\<close>)

section \<open>A ban lasts\<close>

lemma channel_ban_removes:
  assumes "chan_inv c" and "length n \<le> 512" and "is_on c (cp_guid p)" and "\<not> is_not_privileged p c"
    and "en_player_named env n = Some t" and "is_on c (cp_guid t)" and "cp_guid t \<noteq> cp_guid p"
    and "cp_guid t = ch_owner_guid c \<Longrightarrow> SEC_GAMEMASTER \<le> cp_security p"
  shows "ok (\<lambda>c'. chan_inv c' \<and> \<not> is_on c' (cp_guid t) \<and> is_banned c' (cp_guid t)) (channel_kick_or_ban env p n True c)"
proof -
  let ?t = "cp_guid t"
  let ?c = "c\<lparr>ch_banned := om_put ?t () (ch_banned c), ch_players := om_erase ?t (ch_players c)\<rparr>"
  note core = chan_inv_core [OF assms(1)]
  have nb: "\<not> is_banned c ?t" using chan_core_member [OF core assms(6)] by simp
  have new: "chan_core ?c" "\<not> is_on ?c ?t" "is_banned ?c ?t"
    using chan_inv_ban [OF core, of ?t] by (simp_all add: is_on_def is_banned_def)
  have own: "ok (\<lambda>c'. chan_inv c' \<and> \<not> is_on c' ?t \<and> is_banned c' ?t)
      (channel_set_owner_guid env (if ch_players ?c \<noteq> [] then cp_guid p else 0) True (?c\<lparr>cs_out := es\<rparr>))" for es
  proof (rule ok_mono [OF set_owner_guid_spec])
    show "chan_core (?c\<lparr>cs_out := es\<rparr>)" using new by simp
    show "is_on (?c\<lparr>cs_out := es\<rparr>) (if ch_players ?c \<noteq> [] then cp_guid p else 0)"
      if "(if ch_players ?c \<noteq> [] then cp_guid p else 0) \<noteq> 0"
      using that assms(3,7) by (simp add: is_on_def split: if_splits)
    show "is_constant (?c\<lparr>cs_out := es\<rparr>) \<or> ch_players (?c\<lparr>cs_out := es\<rparr>) = []"
      if "(if ch_players ?c \<noteq> [] then cp_guid p else 0) = 0"
      using that chan_core_member [OF core assms(3)] by (simp split: if_splits)
  qed (use new in \<open>simp add: is_on_def is_banned_def\<close>)
  have stay: "chan_inv ?c" if "?t \<noteq> ch_owner_guid c"
    using chan_inv_erase [OF assms(1) that, of "om_put ?t () (ch_banned c)"] by simp
  have b: "builds (make_player_banned env (c\<lparr>ch_banned := x\<rparr>) ?t (cp_guid p))" for x
    using chan_inv_name [OF assms(1)] by (simp add: built)
  show ?thesis
    unfolding channel_kick_or_ban_def Let_def emit_eq
    using assms nb new b own stay
    by (simp add: if_distrib [where f = "ok _"] cong: if_cong)
      (auto intro!: ok_bind ok_broadcast simp: is_on_def is_banned_def)
qed

section \<open>The owner who kicks himself\<close>

lemma owner_kicks_himself:
  assumes "chan_inv c" and "length n \<le> 512" and "en_player_named env n = Some p" and "cp_guid p = ch_owner_guid c"
    and "is_on c (cp_guid p)" and "\<not> is_not_privileged p c" and "is_on c g" and "g \<noteq> cp_guid p"
  shows "ok (\<lambda>c'. LeftChannel (cp_guid p) \<in> set (cs_out c') \<and> ch_owner_guid c' = cp_guid p \<and>
      om_get (ch_players c') (cp_guid p) = Some \<lparr>pi_player = 0, pi_flags = MEMBER_FLAG_OWNER\<rparr>)
    (channel_kick_or_ban env p n ban c)"
proof -
  let ?p = "cp_guid p"
  note core = chan_inv_core [OF assms(1)]
  have name: "length (ch_name c) \<le> 127" using chan_inv_name [OF assms(1)] .
  have p0: "?p \<noteq> 0" using chan_core_member [OF core assms(5)] by simp
  have ne: "om_erase ?p (ch_players c) \<noteq> []"
    using assms(7,8) by (metis is_on_def om.get_empty om_get_erase)
  show ?thesis
    unfolding channel_kick_or_ban_def Let_def emit_eq channel_set_owner_guid_eq
    using assms(2-6) name p0 ne
    by (intro ok_announce ok_intros built)
      (auto simp: is_not_privileged_def owner_cleared_def is_on_def with_slot_def slot_def pi_set_owner_def)
qed

section \<open>A concrete channel\<close>

definition demo_player :: "guid \<Rightarrow> chan_player" where
  "demo_player g = \<lparr>cp_guid = g, cp_name = ascii ''Ann'', cp_security = 0, cp_guild_id = 0, cp_team = 469,
     cp_chat_tag = 0, cp_has_ignore = (\<lambda>g. False)\<rparr>"

definition demo_chan_env :: chan_env where
  "demo_chan_env = \<lparr>en_player = (\<lambda>g. if g = 1 \<or> g = 2 then Some (demo_player g) else None),
     en_player_named = (\<lambda>n. if n = ascii ''Ann'' then Some (demo_player 1)
                            else if n = ascii ''Bob'' then Some (demo_player 2) else None),
     en_name_of = (\<lambda>g. Some (ascii ''Ann'')), en_visible_for = (\<lambda>g h. True), en_channel_entry = (\<lambda>i. None),
     en_two_side_channel = False, en_restricted_lfg = False, en_silently_gm_join = False, en_gm_level_in_who = 0,
     en_chat = \<lparr>cl_realm_id = 1, cl_group_and_guild = (\<lambda>g. None)\<rparr>\<rparr>"

text \<open>Player 1 owns the channel, player 2 is a member.\<close>

definition demo_channel :: chan_state where
  "demo_channel = \<lparr>ch_announce = True, ch_moderate = False, ch_name = ascii ''trade'', ch_password = [],
     ch_flags = CHANNEL_FLAG_CUSTOM, ch_channel_id = 0, ch_owner_guid = 1,
     ch_players = [(1, \<lparr>pi_player = 1, pi_flags = 3\<rparr>), (2, \<lparr>pi_player = 2, pi_flags = 0\<rparr>)],
     ch_banned = [], cs_out = []\<rparr>"

lemma demo_channel_inv: "chan_inv demo_channel"
  by (auto simp: chan_inv_def chan_core_def demo_channel_def ascii_def om_inv_def is_on_def slot_def om_get_def
      is_owner_def split: if_splits)

lemma demo_env_ok: "env_ok demo_chan_env"
  by (simp add: env_ok_def demo_chan_env_def demo_player_def ascii_def)

lemma length_ascii [simp]: "length (ascii s) = length s"
  by (simp add: ascii_def)

lemma demo_named:
  "en_player_named demo_chan_env (ascii ''Ann'') = Some (demo_player 1)"
  "en_player_named demo_chan_env (ascii ''Bob'') = Some (demo_player 2)"
  by (simp_all add: demo_chan_env_def ascii_def)

lemma demo_on: "is_on demo_channel 1" "is_on demo_channel 2" "ch_owner_guid demo_channel = 1"
  "slot demo_channel 1 = \<lparr>pi_player = 1, pi_flags = 3\<rparr>" "slot demo_channel 2 = \<lparr>pi_player = 2, pi_flags = 0\<rparr>"
  by (simp_all add: demo_channel_def is_on_def om_get_def slot_def)

lemma demo_members: "length (ch_players demo_channel) = 2"
  by (simp add: demo_channel_def)

lemma demo_player_simps [simp]:
  "cp_guid (demo_player g) = g" "cp_security (demo_player g) = 0" "length (cp_name (demo_player g)) = 3"
  "cp_chat_tag (demo_player g) = 0"
  by (simp_all add: demo_player_def ascii_def)

section \<open>Properties\<close>

text \<open>
  C15: Every operation of a channel succeeds and keeps the channel well formed. For arguments the
  handlers can pass, no packet builder's assertion fails; afterwards members are still filed under
  their own guid, at most the recorded owner carries the owner flag, the recorded owner is a member,
  a custom channel with members has an owner, and nobody is both member and banned. The operations
  are all that a request can reach, both overloads of \<open>SetOwner\<close> among them. There are two exceptions: an
  owner who kicks or bans himself, and the appointment by guid of an owner who is not a member, which
  is what the set-owner request of a client does when he is not on the channel (C18).
\<close>

theorem channel_step_safe:
  assumes "chan_inv c" and "request_ok r" and "env_ok env" and "length (ch_players c) \<le> 700000"
    and "\<not> owner_removes_himself env r c" and "\<not> appoints_stranger r c"
  shows "\<exists>c'. channel_step env r c = Inr c' \<and> chan_inv c'"
  using channel_step_ok [OF assms] unfolding ok_def .

theorem channel_step_safe_witness:
  "(\<exists>c'. channel_step demo_chan_env (KickOrBan (demo_player 1) (ascii ''Bob'') True) demo_channel = Inr c' \<and> chan_inv c') \<and>
   (\<exists>c'. channel_step demo_chan_env (AppointOwner (demo_player 2) 2 True) demo_channel = Inr c' \<and> chan_inv c')"
  by (intro conjI channel_step_safe [OF demo_channel_inv _ demo_env_ok])
    (simp_all add: request_ok_def player_ok_def owner_removes_himself_def appoints_stranger_def demo_named demo_on demo_members)

text \<open>
  C16: A request that a channel checks and finds without the right changes nothing. A join with the
  wrong password or in spite of a ban, any request but a join of a player who is not a member, a
  moderator's act of a member without moderator rights, the appointment of an owner by name from a
  player who is neither owner nor game master, and the line of a muted member leave the channel as
  it is and send nothing, except perhaps a refusal to the player himself. The one operation that
  should ask for a right and asks for none is the appointment of an owner by guid: it is not covered
  here, and it is the overload of \<open>SetOwner\<close> that the set-owner request of a client reaches, so that
  request is open to everyone (C18).
\<close>

theorem channel_authority:
  assumes "chan_inv c" and "unauthorized r c"
  shows "\<exists>es. channel_step env r c = Inr (c\<lparr>cs_out := cs_out c @ es\<rparr>) \<and>
    set es \<subseteq> {SendTo (cp_guid (requester r)) p |p. True}"
  using unauthorized_step [OF assms, of env] by (auto simp: ok_def only_told_def)

theorem channel_authority_witness:
  "\<exists>es. channel_step demo_chan_env (KickOrBan (demo_player 2) (ascii ''Ann'') False) demo_channel =
     Inr (demo_channel\<lparr>cs_out := cs_out demo_channel @ es\<rparr>) \<and> set es \<subseteq> {SendTo 2 p |p. True}"
proof -
  have "unauthorized (KickOrBan (demo_player 2) (ascii ''Ann'') False) demo_channel"
    by (simp add: is_not_privileged_def demo_on is_moderator_def)
  from channel_authority [OF demo_channel_inv this] show ?thesis by simp
qed

text \<open>
  A ban removes and lasts. When a privileged member bans another member (the owner only by a
  game master), the target is no member afterwards, and whatever world it later asks to join in,
  with whatever password, the channel only answers that it is banned.
\<close>

theorem channel_ban_lasts:
  assumes "chan_inv c" and "length n \<le> 512" and "is_on c (cp_guid p)" and "\<not> is_not_privileged p c"
    and "en_player_named env n = Some t" and "is_on c (cp_guid t)" and "cp_guid t \<noteq> cp_guid p"
    and "cp_guid t = ch_owner_guid c \<Longrightarrow> SEC_GAMEMASTER \<le> cp_security p"
  shows "\<exists>c'. channel_kick_or_ban env p n True c = Inr c' \<and> chan_inv c' \<and> \<not> is_on c' (cp_guid t) \<and>
    (\<forall>env' u pw. cp_guid u = cp_guid t \<longrightarrow> channel_join env' u pw c' = reply env' (make_banned c') (cp_guid t) c')"
proof -
  obtain c' where "channel_kick_or_ban env p n True c = Inr c'" "chan_inv c'" "\<not> is_on c' (cp_guid t)"
    "is_banned c' (cp_guid t)"
    using channel_ban_removes [OF assms] by (auto simp: ok_def)
  then show ?thesis by (auto simp: channel_join_def Let_def)
qed

theorem channel_ban_lasts_witness:
  "\<exists>c'. channel_kick_or_ban demo_chan_env (demo_player 1) (ascii ''Bob'') True demo_channel = Inr c' \<and> \<not> is_on c' 2"
proof -
  have "\<not> is_not_privileged (demo_player 1) demo_channel"
    by (simp add: is_not_privileged_def demo_on is_moderator_def)
  then show ?thesis
    using channel_ban_lasts [OF demo_channel_inv, of "ascii ''Bob''" "demo_player 1" demo_chan_env "demo_player 2"]
    by (auto simp: demo_named demo_on)
qed

text \<open>
  The exception is real. An owner who kicks himself from a channel with other members is told to
  leave it, and is entered again by \<open>SetOwner\<close>: he stays its recorded owner, as a member whose entry
  has no guid, although his own list of channels no longer holds the channel.
\<close>

theorem owner_self_kick_leaves_ghost:
  assumes "chan_inv c" and "length n \<le> 512" and "en_player_named env n = Some p" and "cp_guid p = ch_owner_guid c"
    and "is_on c (cp_guid p)" and "\<not> is_not_privileged p c" and "is_on c g" and "g \<noteq> cp_guid p"
  shows "\<exists>c'. channel_kick_or_ban env p n ban c = Inr c' \<and> LeftChannel (cp_guid p) \<in> set (cs_out c') \<and>
    ch_owner_guid c' = cp_guid p \<and>
    om_get (ch_players c') (cp_guid p) = Some \<lparr>pi_player = 0, pi_flags = MEMBER_FLAG_OWNER\<rparr>"
  using owner_kicks_himself [OF assms] unfolding ok_def .

theorem owner_self_kick_leaves_ghost_witness:
  "\<exists>c'. channel_kick_or_ban demo_chan_env (demo_player 1) (ascii ''Ann'') False demo_channel = Inr c' \<and>
    LeftChannel 1 \<in> set (cs_out c') \<and> ch_owner_guid c' = 1"
proof -
  have "\<not> is_not_privileged (demo_player 1) demo_channel"
    by (simp add: is_not_privileged_def demo_on is_moderator_def)
  then show ?thesis
    using owner_self_kick_leaves_ghost [OF demo_channel_inv, of "ascii ''Ann''" demo_chan_env "demo_player 1" 2 False]
    by (auto simp: demo_named demo_on)
qed

end
