(* ===== verification/ChannelEvents.thy ===== *)
theory ChannelEvents
  imports ChannelLists ChannelRules
begin

text \<open>
  Every request and every cleanup keeps the channel pointers valid: deletion of empty channels,
  the handlers, logout, and the runs they make up.
\<close>

section \<open>Counts that fit\<close>

text \<open>
  \<open>GetNumPlayers\<close> is a 32-bit count. \<open>roomy n w\<close>: every channel can take \<open>n\<close> more members before
  the count of members comes back to zero.
\<close>

definition roomy :: "nat \<Rightarrow> chat_world \<Rightarrow> bool" where
  "roomy n w \<longleftrightarrow> (\<forall>a c. om_get (cw_heap w) a = Some c \<longrightarrow> length (ch_players c) + n < 2 ^ 32)"

lemma length_om_put: "length (om_put k v m) \<le> Suc (length m)" "om_get m k \<noteq> None \<Longrightarrow> om_inv m \<Longrightarrow> length (om_put k v m) = length m"
proof -
  show "length (om_put k v m) \<le> Suc (length m)" by (induction k v m rule: om_put.induct) auto
  show "length (om_put k v m) = length m" if "om_get m k \<noteq> None" "om_inv m"
    using that
  proof (induction k v m rule: om_put.induct)
    case (2 k v a b m)
    have "om_get m k = None" if "k < a"
    proof -
      have "\<forall>x \<in> set (map fst m). a < x" using "2.prems" by (simp add: om_inv_def)
      then have "k \<notin> fst ` set m" using that by force
      then show ?thesis by (simp add: om_get_def map_of_eq_None_iff)
    qed
    then show ?case using 2 by (auto simp: om_get_def om_inv_def split: if_splits)
  qed (simp add: om_get_def)
qed

text \<open>\<open>sized n s\<close>: at most \<open>n\<close> members, and nobody was told that he joined.\<close>

definition sized :: "nat \<Rightarrow> chan_state \<Rightarrow> bool" where
  "sized n s \<longleftrightarrow> om_inv (ch_players s) \<and> length (ch_players s) \<le> n \<and> (\<forall>g. JoinedChannel g \<notin> set (cs_out s))"

lemma sized_left [simp]: "sized n (emit (LeftChannel g) s) = sized n s"
  by (auto simp: sized_def emit_def)

lemma sized_send: "sized n s \<Longrightarrow> okp (sized n) (reply env f g s)" "sized n s \<Longrightarrow> okp (sized n) (broadcast env f s)"
  unfolding reply_def broadcast_def send_to_all_def send_to_one_def
  by (auto intro!: okp_bind [OF okp_any] simp: sized_def emit_def split: option.split)

lemma joined_none: "(\<And>g. JoinedChannel g \<notin> set es) \<Longrightarrow> joined es S \<subseteq> S"
  by (induction es S rule: joined.induct) (simp, simp, fastforce, fastforce)

lemma sized_erase: "sized n s \<Longrightarrow> sized n (s\<lparr>ch_players := om_erase g (ch_players s)\<rparr>)"
  using om_inv_erase [of "ch_players s" g] length_filter_le [of _ "ch_players s"]
  by (auto simp: sized_def om_erase_def intro: order_trans [OF length_filter_le])

lemma sized_owner_guid: "sized n s \<Longrightarrow> okp (sized (Suc n)) (channel_set_owner_guid env g ex s)"
proof -
  assume s: "sized n s"
  have clear: "sized n (owner_cleared g s)"
    using s by (auto simp: owner_cleared_def sized_def with_slot_def om_inv_put is_on_def length_om_put(2))
  then have slot: "sized (Suc n) (with_slot g f (owner_cleared g s))" for f
    using clear by (auto simp: sized_def with_slot_def om_inv_put intro: order_trans [OF length_om_put(1)])
  have "sized n t \<Longrightarrow> sized (Suc n) t" for t by (simp add: sized_def)
  then show ?thesis
    unfolding channel_set_owner_guid_eq Let_def using clear
    by (auto intro!: okp_bind [where Q = "sized (Suc n)"] sized_send slot)
qed

lemma sized_leave: "sized n s \<Longrightarrow> okp (sized (Suc n)) (channel_leave env p send s)"
proof -
  assume s: "sized n s"
  have up: "sized n t \<Longrightarrow> sized (Suc n) t" for t by (simp add: sized_def)
  then have okp_up: "okp (sized n) m \<Longrightarrow> okp (sized (Suc n)) m" for m by (auto simp: okp_def)
  have "okp (sized (Suc n)) (sum_bind m k)"
    if "okp (sized n) m" and "\<And>t. sized n t \<Longrightarrow> okp (sized (Suc n)) (k t)" for m k
    using okp_bind [OF that] .
  note bind = this
  show ?thesis
    unfolding channel_leave_def Let_def leave_notify_def using s
    by (intro okp_if okp_InrI bind okp_up sized_send sized_owner_guid up sized_erase okp_bind [where Q = "sized n"]) auto
qed

section \<open>Deleting an empty channel\<close>

lemma no_holder:
  assumes "chat_inv w" and "om_get (cw_heap w) a = Some c" and "ch_players c = []"
  shows "a \<notin> set (cw_lists w g)"
  using chat_inv_dest(8) [OF assms(1), of a g] assms(2,3) by (auto simp: is_on_def om_get_def)

lemma chat_inv_delete:
  assumes w: "chat_inv w" and k: "om_get (mgr_channels m w) k = Some a"
    and c: "om_get (cw_heap w) a = Some c" "ch_players c = []"
  shows "chat_inv ((set_mgr_channels m (om_erase k (mgr_channels m w)) w)\<lparr>cw_heap := om_erase a (cw_heap w)\<rparr>)"
    (is "chat_inv ?w")
proof -
  note d = chat_inv_dest [OF w]
  have get: "om_get (mgr_channels m' ?w) k' = (if m' = m \<and> k' = k then None else om_get (mgr_channels m' w) k')" for m' k'
    by simp
  have heap: "om_get (cw_heap ?w) b = (if b = a then None else om_get (cw_heap w) b)" for b
    by simp
  show ?thesis
    unfolding chat_inv_alt
  proof (intro conjI allI impI)
    fix m' b k' m'' k''
    assume "om_get (mgr_channels m' ?w) k' = Some b" "om_get (mgr_channels m'' ?w) k'' = Some b"
    then show "m' = m''" "k' = k''"
      using d(7) [of m' k' b m'' k''] unfolding get by (auto split: if_splits)
  next
    fix b m' k' assume "om_get (mgr_channels m' ?w) k' = Some b"
    then have b: "om_get (mgr_channels m' w) k' = Some b" "\<not> (m' = m \<and> k' = k)"
      unfolding get by (simp_all split: if_splits)
    then have "b \<noteq> a" using d(7) [OF k, of m' k'] by blast
    with d(6) [OF b(1)] show "om_get (cw_heap ?w) b \<noteq> None" unfolding heap by simp
  next
    fix b c' assume "om_get (cw_heap ?w) b = Some c'"
    then show "b < cw_next ?w" "om_inv (ch_players c')" "length (ch_name c') \<le> 127"
      using d(3,4,5) [of b c'] unfolding heap by (auto split: if_splits)
  next
    fix g b assume "b \<in> set (cw_lists ?w g)"
    then show "\<exists>c. om_get (cw_heap ?w) b = Some c \<and> is_on c g"
      using d(8) [of b g] no_holder [OF w c, of g] unfolding heap by auto
  qed (use d in \<open>simp_all add: om_inv_erase\<close>)
qed

lemma left_channel_spec:
  assumes w: "chat_inv w" and n: "roomy n w"
  shows "case left_channel env m name w of Inl e \<Rightarrow> chat_safe (Inl e) | Inr w' \<Rightarrow> chat_inv w' \<and> roomy n w' \<and> cw_lists w' = cw_lists w"
proof (cases "channel_key env name")
  case (Inl e)
  then show ?thesis by (auto simp: left_channel_def channel_key_def lift_text_def split: sum.splits)
next
  case (Inr k)
  show ?thesis
  proof (cases "om_get (mgr_channels m w) k")
    case None
    then show ?thesis using Inr w n by (simp add: left_channel_def)
  next
    case (Some a)
    then obtain c where c: "om_get (cw_heap w) a = Some c" using chat_inv_dest(6) [OF w] by blast
    have "ch_players c = []" if "get_num_players c = 0"
    proof -
      have "length (ch_players c) mod 2 ^ 32 = 0"
        using that by (simp add: get_num_players_def of_nat_eq_0_iff dvd_eq_mod_eq_0 word_of_nat_eq_0_iff)
      moreover have "length (ch_players c) < 2 ^ 32" using n c by (fastforce simp: roomy_def)
      ultimately show ?thesis by (metis mod_less length_0_conv)
    qed
    with Some c have "chat_inv ((set_mgr_channels m (om_erase k (mgr_channels m w)) w)\<lparr>cw_heap := om_erase a (cw_heap w)\<rparr>)"
      if "get_num_players c = 0" using chat_inv_delete [OF w Some c] that by blast
    then show ?thesis using Some Inr c w n by (auto simp: left_channel_def roomy_def)
  qed
qed

text \<open>Names stay as they are: \<open>w'\<close> has no channel that \<open>w\<close> has not, under the same name.\<close>

definition same_names :: "chat_world \<Rightarrow> chat_world \<Rightarrow> bool" where
  "same_names w w' \<longleftrightarrow>
     (\<forall>a d. om_get (cw_heap w') a = Some d \<longrightarrow> (\<exists>c. om_get (cw_heap w) a = Some c \<and> ch_name d = ch_name c))"

lemma same_names_trans: "same_names u v \<Longrightarrow> same_names v w \<Longrightarrow> same_names u w"
  unfolding same_names_def by metis

lemma left_channel_succeeds:
  assumes "chat_inv w" and "channel_key env name = Inr k"
  shows "\<exists>w'. left_channel env m name w = Inr w' \<and> same_names w w'"
proof (cases "om_get (mgr_channels m w) k")
  case None
  then show ?thesis using assms(2) by (simp add: left_channel_def same_names_def)
next
  case (Some a)
  then obtain c where "om_get (cw_heap w) a = Some c" using chat_inv_dest(6) [OF assms(1)] by blast
  then show ?thesis using Some assms(2) by (auto simp: left_channel_def same_names_def)
qed

lemma left_channel_safe: "chat_inv w \<Longrightarrow> roomy n w \<Longrightarrow> chat_safe (left_channel env m name w)"
  using left_channel_spec [of w n env m name] by (cases "left_channel env m name w") auto

section \<open>The handlers\<close>

text \<open>Decomposing a handler.\<close>

lemma safe_get_channel:
  assumes "chat_inv w"
    and "\<And>w'. chat_inv w' \<Longrightarrow> cw_heap w' = cw_heap w \<Longrightarrow> chat_safe (k (None, w'))"
    and "\<And>a w'. chat_inv w' \<Longrightarrow> cw_heap w' = cw_heap w \<Longrightarrow> om_get (cw_heap w') a \<noteq> None \<Longrightarrow> chat_safe (k (Some a, w'))"
  shows "chat_safe (sum_bind (get_channel env m name p pkt w) k)"
proof (cases "get_channel env m name p pkt w")
  case (Inl e)
  then show ?thesis using get_channel_spec [OF assms(1), of env m name p pkt] by simp
next
  case (Inr r)
  obtain ch w' where r: "r = (ch, w')" by (cases r)
  with Inr show ?thesis
    using get_channel_spec [OF assms(1), of env m name p pkt] assms(2,3) by (cases ch) auto
qed

lemma safe_mgr:
  "chat_inv w \<Longrightarrow> (\<And>m. chat_safe (k m)) \<Longrightarrow>
     chat_safe (case channel_mgr_of env t of None \<Rightarrow> Inr w | Some m \<Rightarrow> k m)"
  by (cases "channel_mgr_of env t") simp_all

lemma on_channel_safe:
  assumes w: "chat_inv w" and f: "\<And>n S s. keeps {} S n s \<Longrightarrow> okp (keeps {} S n) (f s)"
  shows "chat_safe (on_channel env p name f w)"
  unfolding on_channel_def
  by (intro safe_mgr safe_get_channel w) (simp_all add: with_channel_safe f)

lemma on_channel_with_safe:
  assumes w: "chat_inv w" and f: "\<And>n S s t. keeps {} S n s \<Longrightarrow> okp (keeps {} S n) (f t s)"
  shows "chat_safe (on_channel_with env p name t f w)"
  unfolding on_channel_with_def target_name_def
  using on_channel_safe [OF w, of "f t" for t] f w by (auto split: option.split)

lemmas keeps_ops = keeps_leave [where send = True, simplified] keeps_join keeps_kick_or_ban keeps_set_mode keeps_others keeps_list
  keeps_set_owner_guid

lemmas handler_defs =
  handle_channel_list_def handle_channel_password_def handle_channel_set_owner_def handle_channel_owner_def
  handle_channel_moderator_def handle_channel_unmoderator_def handle_channel_mute_def handle_channel_unmute_def
  handle_channel_invite_def handle_channel_kick_def handle_channel_ban_def handle_channel_unban_def
  handle_channel_announcements_def handle_channel_moderate_def handle_channel_display_list_query_def
  handle_set_channel_watch_def

lemma handlers_safe:
  assumes w: "chat_inv w"
  shows "chat_safe (handle_channel_list env p recv w)" "chat_safe (handle_channel_password env p recv w)"
    "chat_safe (handle_channel_set_owner env p recv w)" "chat_safe (handle_channel_owner env p recv w)"
    "chat_safe (handle_channel_moderator env p recv w)" "chat_safe (handle_channel_unmoderator env p recv w)"
    "chat_safe (handle_channel_mute env p recv w)" "chat_safe (handle_channel_unmute env p recv w)"
    "chat_safe (handle_channel_invite env p recv w)" "chat_safe (handle_channel_kick env p recv w)"
    "chat_safe (handle_channel_ban env p recv w)" "chat_safe (handle_channel_unban env p recv w)"
    "chat_safe (handle_channel_announcements env p recv w)" "chat_safe (handle_channel_moderate env p recv w)"
    "chat_safe (handle_channel_display_list_query env p recv w)" "chat_safe (handle_set_channel_watch recv w)"
  unfolding handler_defs
  by (auto intro!: on_channel_with_safe on_channel_safe w keeps_ops simp: w split: prod.split)

lemma join_safe: "chat_inv w \<Longrightarrow> chat_safe (handle_join_channel env p recv w)"
proof -
  assume w: "chat_inv w"
  have get: "chat_safe (sum_bind (get_join_channel env m name n w) (\<lambda>(a, w). with_channel a (channel_join e p pw) w))"
    if "length name \<le> 127" for m name n e pw
    using get_join_channel_spec [OF w that, of env m n] with_channel_safe [OF _ _ keeps_join]
    by (cases "get_join_channel env m name n w") (auto split: prod.splits)
  show ?thesis
    unfolding handle_join_channel_def
    by (auto intro!: safe_mgr get dest: join_name_length simp: w split: option.split)
qed

text \<open>A member leaves: his list first loses the channel, then the channel is looked up by its name.\<close>

lemma with_channel_leave:
  assumes w: "chat_inv w" and n: "roomy (Suc n) w" and a: "om_get (cw_heap w) a \<noteq> None"
    and out: "send \<or> a \<notin> set (cw_lists w (cp_guid p))"
  shows "case with_channel a (channel_leave env p send) w of Inl e \<Rightarrow> chat_safe (Inl e)
    | Inr w' \<Rightarrow> chat_inv w' \<and> roomy n w' \<and> om_get (cw_heap w') a \<noteq> None \<and>
        (\<forall>b g. b \<in> set (cw_lists w' g) \<longrightarrow> b \<in> set (cw_lists w g)) \<and>
        (\<forall>b g. b \<noteq> a \<longrightarrow> b \<in> set (cw_lists w g) \<longrightarrow> b \<in> set (cw_lists w' g)) \<and> same_names w w'"
proof -
  obtain c where c: "om_get (cw_heap w) a = Some c" using a by blast
  let ?c = "channel.extend c \<lparr>cs_out = []\<rparr>"
  have f: "okp (keeps {} (list_holders a w) (ch_name c)) (channel_leave env p send s)"
    if "keeps {} (list_holders a w) (ch_name c) s" "cs_out s = []" for s
    using that out by (intro keeps_leave) (auto simp: list_holders_def)
  have "om_inv (ch_players c)" using chat_inv_dest(4) [OF w c] .
  then have "sized (length (ch_players c)) ?c" by (simp add: sized_def channel.defs)
  from sized_leave [OF this, of env p send] have sz: "length (ch_players s) \<le> Suc (length (ch_players c))"
    and quiet: "joined (cs_out s) S \<subseteq> S"
    if "channel_leave env p send ?c = Inr s" for s S
    using that joined_none [of "cs_out s"] by (auto simp: okp_def sized_def)
  have room: "roomy n w'" if "channel_leave env p send ?c = Inr s" "cw_heap w' = om_put a (channel.truncate s) (cw_heap w)" for s w'
    unfolding roomy_def
  proof (intro allI impI)
    fix b d assume "om_get (cw_heap w') b = Some d"
    moreover have "length (ch_players e) + Suc n < 2 ^ 32" if "om_get (cw_heap w) b = Some e" for b e
      using n that by (simp add: roomy_def)
    note this [of b] this [OF c]
    ultimately show "length (ch_players d) + n < 2 ^ 32"
      using that(2) sz [OF that(1)] by (fastforce simp: channel.defs split: if_splits)
  qed
  note spec = with_channel_spec [OF w c, of "channel_leave env p send", OF f]
  show ?thesis
  proof (cases "with_channel a (channel_leave env p send) w")
    case (Inl e)
    then show ?thesis using spec by auto
  next
    case (Inr w')
    then obtain s where s: "channel_leave env p send ?c = Inr s" "chat_inv w'"
        "cw_heap w' = om_put a (channel.truncate s) (cw_heap w)" and same: "ch_name s = ch_name c"
        and lists:
        "\<And>b g. b \<in> set (cw_lists w' g) \<longleftrightarrow> (if b = a then g \<in> joined (cs_out s) (list_holders a w) else b \<in> set (cw_lists w g))"
      using spec by auto
    have "b \<in> set (cw_lists w g)" if "b \<in> set (cw_lists w' g)" for b g
      using that quiet [OF s(1), of "list_holders a w"] unfolding lists
      by (auto simp: list_holders_def split: if_splits)
    then have "\<forall>b g. b \<in> set (cw_lists w' g) \<longrightarrow> b \<in> set (cw_lists w g)" by blast
    moreover have "\<forall>b g. b \<noteq> a \<longrightarrow> b \<in> set (cw_lists w g) \<longrightarrow> b \<in> set (cw_lists w' g)" by (simp add: lists)
    moreover have "same_names w w'" using c same by (simp add: same_names_def s(3) channel.defs)
    ultimately show ?thesis using Inr s(2,3) room [OF s(1,3)] by simp
  qed
qed

text \<open>Leaving never fails: the notifications of a channel with a short name are always built.\<close>

lemma set_owner_guid_succeeds: "length (ch_name c) \<le> 127 \<Longrightarrow> ok (\<lambda>s. True) (channel_set_owner_guid env g ex c)"
  unfolding channel_set_owner_guid_eq Let_def by (intro ok_intros built) (simp_all add: owner_cleared_name)

lemma leave_succeeds: "length (ch_name c) \<le> 127 \<Longrightarrow> ok (\<lambda>s. True) (channel_leave env p send c)"
  unfolding channel_leave_def Let_def leave_notify_def emit_eq
  by (intro ok_announce ok_intros built) (simp_all add: set_owner_guid_succeeds)

lemma with_channel_leave_succeeds:
  assumes "chat_inv w" and "om_get (cw_heap w) a \<noteq> None"
  shows "\<exists>w'. with_channel a (channel_leave env p send) w = Inr w'"
proof -
  obtain c where c: "om_get (cw_heap w) a = Some c" using assms(2) by blast
  with chat_inv_dest(5) [OF assms(1) c] leave_succeeds [of "channel.extend c \<lparr>cs_out = []\<rparr>" env p send] show ?thesis
    by (auto simp: with_channel_def ok_def lift_bb_def channel.defs)
qed

lemma leave_safe:
  assumes w: "chat_inv w" and n: "roomy 1 w"
  shows "chat_safe (handle_leave_channel env p recv w)"
proof -
  have left: "chat_safe (sum_bind (with_channel a (channel_leave e p True) w) (left_channel env m name))"
    if "chat_inv w" "roomy 1 w" "om_get (cw_heap w) a \<noteq> None" for a e m name w
    using with_channel_leave [of w 0 a True p e] left_channel_safe [of _ 0 env m name] that
    by (cases "with_channel a (channel_leave e p True) w") auto
  have "roomy 0 w" using n by (fastforce simp: roomy_def)
  then have none: "chat_safe (left_channel env m name w')" if "chat_inv w'" "cw_heap w' = cw_heap w" for m name w'
    using left_channel_safe [of w' 0 env m name] that by (simp add: roomy_def)
  show ?thesis
    unfolding handle_leave_channel_def
    using n by (auto intro!: safe_mgr safe_get_channel left none simp: w roomy_def split: prod.split)
qed

section \<open>Logout and the group finder\<close>

text \<open>One round of \<open>CleanupChannels\<close>: the player's list gets shorter, and the rest stays well formed.\<close>

lemma cleanup_round:
  assumes w: "chat_inv w" and n: "roomy (Suc n) w" and L: "cw_lists w (cp_guid p) = a # rest"
  shows "\<exists>w1 c. with_channel a (channel_leave (chan_env.truncate env) p False) (w\<lparr>cw_lists := (cw_lists w)(cp_guid p := rest)\<rparr>) = Inr w1 \<and>
    om_get (cw_heap w1) a = Some c \<and> chat_inv w1 \<and> roomy n w1 \<and> same_names w w1 \<and>
    set (cw_lists w1 (cp_guid p)) \<subseteq> set rest \<and> length (cw_lists w1 (cp_guid p)) \<le> length rest"
proof -
  let ?g = "cp_guid p"
  let ?w = "w\<lparr>cw_lists := (cw_lists w)(?g := rest)\<rparr>"
  have dist: "distinct (a # rest)" using chat_inv_dest(9) [OF w, of ?g] L by simp
  have live: "om_get (cw_heap ?w) a \<noteq> None" using chat_inv_dest(8) [OF w, of a ?g] L by auto
  have w': "chat_inv ?w"
    using w L dist unfolding chat_inv_alt by (auto simp: mgr_simps)
  have n': "roomy (Suc n) ?w" using n by (simp add: roomy_def)
  obtain w1 where w1: "with_channel a (channel_leave (chan_env.truncate env) p False) ?w = Inr w1"
    using with_channel_leave_succeeds [OF w' live] by blast
  obtain ls where ls: "cw_lists ?w = ls" by blast
  have "a \<notin> set (ls ?g)" using dist ls by auto
  then have spec: "chat_inv w1" "roomy n w1" "om_get (cw_heap w1) a \<noteq> None" "same_names ?w w1"
      "set (cw_lists w1 ?g) \<subseteq> set (ls ?g)"
    using with_channel_leave [OF w' n' live, of False p "chan_env.truncate env"] w1 unfolding ls by auto
  then have sub: "set (cw_lists w1 ?g) \<subseteq> set rest" using ls by auto
  then have "length (cw_lists w1 ?g) \<le> length rest"
    using dist chat_inv_dest(9) [OF spec(1), of ?g] distinct_card card_mono [of "set rest" "set (cw_lists w1 ?g)"]
    by (metis List.finite_set distinct.simps(2))
  moreover have "same_names w w1" using spec(4) by (simp add: same_names_def)
  ultimately show ?thesis using w1 spec sub by blast
qed

lemma cleanup_safe:
  "chat_inv w \<Longrightarrow> roomy n w \<Longrightarrow> length (cw_lists w (cp_guid p)) \<le> n \<Longrightarrow>
     case cleanup_loop n env p w of Inl e \<Rightarrow> chat_safe (Inl e) | Inr w' \<Rightarrow> chat_inv w' \<and> cw_lists w' (cp_guid p) = []"
proof (induction n arbitrary: w)
  case (Suc n)
  show ?case
  proof (cases "cw_lists w (cp_guid p)")
    case Nil
    then show ?thesis using Suc.prems by simp
  next
    case (Cons a rest)
    from cleanup_round [OF Suc.prems(1,2) Cons, of env] obtain w1 c where r:
      "with_channel a (channel_leave (chan_env.truncate env) p False) (w\<lparr>cw_lists := (cw_lists w)(cp_guid p := rest)\<rparr>) = Inr w1"
      "om_get (cw_heap w1) a = Some c" "chat_inv w1" "roomy n w1" "length (cw_lists w1 (cp_guid p)) \<le> length rest" by blast
    have len: "length (cw_lists w1 (cp_guid p)) \<le> n" using r(5) Suc.prems(3) Cons by simp
    show ?thesis
    proof (cases "channel_mgr_of env (cp_team p)")
      case None
      then show ?thesis using Cons r Suc.IH [OF r(3,4) len] by simp
    next
      case (Some m)
      show ?thesis
        using Cons r Some left_channel_spec [OF r(3,4), of env m "ch_name c"] Suc.IH len
        by (cases "left_channel env m (ch_name c) w1") auto
    qed
  qed
qed simp

text \<open>\<open>named env as w\<close>: the names of the channels \<open>as\<close> convert to keys of a manager.\<close>

definition named :: "chat_env \<Rightarrow> nat list \<Rightarrow> chat_world \<Rightarrow> bool" where
  "named env as w \<longleftrightarrow> (\<forall>a \<in> set as. \<forall>c. om_get (cw_heap w) a = Some c \<longrightarrow> (\<exists>k. channel_key env (ch_name c) = Inr k))"

lemma named_mono: "named env as w \<Longrightarrow> same_names w w' \<Longrightarrow> set bs \<subseteq> set as \<Longrightarrow> named env bs w'"
  unfolding named_def same_names_def by (metis subsetD)

lemma cleanup_succeeds:
  "chat_inv w \<Longrightarrow> roomy n w \<Longrightarrow> length (cw_lists w (cp_guid p)) \<le> n \<Longrightarrow> named env (cw_lists w (cp_guid p)) w \<Longrightarrow>
     \<exists>w'. cleanup_loop n env p w = Inr w'"
proof (induction n arbitrary: w)
  case (Suc n)
  show ?case
  proof (cases "cw_lists w (cp_guid p)")
    case (Cons a rest)
    from cleanup_round [OF Suc.prems(1,2) Cons, of env] obtain w1 c where r:
      "with_channel a (channel_leave (chan_env.truncate env) p False) (w\<lparr>cw_lists := (cw_lists w)(cp_guid p := rest)\<rparr>) = Inr w1"
      "om_get (cw_heap w1) a = Some c" "chat_inv w1" "roomy n w1" "same_names w w1"
      "set (cw_lists w1 (cp_guid p)) \<subseteq> set rest" "length (cw_lists w1 (cp_guid p)) \<le> length rest" by blast
    have len: "length (cw_lists w1 (cp_guid p)) \<le> n" using r(7) Suc.prems(3) Cons by simp
    have sub: "set (cw_lists w1 (cp_guid p)) \<subseteq> set (cw_lists w (cp_guid p))" using r(6) Cons by auto
    note names = named_mono [OF Suc.prems(4) r(5) sub]
    show ?thesis
    proof (cases "channel_mgr_of env (cp_team p)")
      case None
      then show ?thesis using Cons r(1) Suc.IH [OF r(3,4) len names] by simp
    next
      case (Some m)
      have "named env (a # rest) w1" using Suc.prems(4) Cons r(5) by (auto intro: named_mono)
      then obtain k where "channel_key env (ch_name c) = Inr k" using r(2) by (auto simp: named_def)
      from left_channel_succeeds [OF r(3) this, of m] obtain w2 where
        w2: "left_channel env m (ch_name c) w1 = Inr w2" "same_names w1 w2" by blast
      have same: "chat_inv w2" "roomy n w2" "cw_lists w2 = cw_lists w1"
        using left_channel_spec [OF r(3,4), of env m "ch_name c"] w2(1) by auto
      have "named env (cw_lists w2 (cp_guid p)) w2" using named_mono [OF names w2(2)] same(3) by simp
      with Suc.IH [OF same(1,2)] same(3) len Cons r(1,2) Some w2(1) show ?thesis by simp
    qed
  qed simp
qed simp

text \<open>More fuel than it takes to empty the list changes nothing: the fuel only bounds the recursion.\<close>

lemma cleanup_more_fuel:
  "cleanup_loop n env p w = Inr w' \<Longrightarrow> cw_lists w' (cp_guid p) = [] \<Longrightarrow> cleanup_loop (n + k) env p w = Inr w'"
proof (induction n arbitrary: w)
  case 0
  then show ?case by (cases k) simp_all
next
  case (Suc n)
  then show ?case by (cases "cw_lists w (cp_guid p)") (auto simp: sum_bind_Inr_iff)
qed

lemma leave_lfg_safe: "chat_inv w \<Longrightarrow> chat_safe (leave_lfg_channel env p w)"
proof -
  assume w: "chat_inv w"
  have live: "om_get (cw_heap w) a \<noteq> None" if "a \<in> set (cw_lists w (cp_guid p))" for a
    using chat_inv_dest(8) [OF w that] by auto
  have "chat_safe (leave_lfg_loop as env p w)" if "set as \<subseteq> set (cw_lists w (cp_guid p))" for as
    using that by (induction as) (auto simp: w live intro!: with_channel_safe keeps_ops split: option.split)
  then show ?thesis by (simp add: leave_lfg_channel_def)
qed

section \<open>Runs\<close>

datatype channel_handler =
    JoinChannel | LeaveChannel | ChannelList | ChannelPassword | ChannelSetOwner | ChannelOwner
  | ChannelModerator | ChannelUnmoderator | ChannelMute | ChannelUnmute | ChannelInvite | ChannelKick
  | ChannelBan | ChannelUnban | ChannelAnnouncements | ChannelModerate | ChannelDisplayListQuery
  | SetChannelWatch

fun handle_channel :: "channel_handler \<Rightarrow> chat_env \<Rightarrow> chan_player \<Rightarrow> world_packet \<Rightarrow> chat_world \<Rightarrow> chat_error + chat_world" where
  "handle_channel JoinChannel = handle_join_channel"
| "handle_channel LeaveChannel = handle_leave_channel"
| "handle_channel ChannelList = handle_channel_list"
| "handle_channel ChannelPassword = handle_channel_password"
| "handle_channel ChannelSetOwner = handle_channel_set_owner"
| "handle_channel ChannelOwner = handle_channel_owner"
| "handle_channel ChannelModerator = handle_channel_moderator"
| "handle_channel ChannelUnmoderator = handle_channel_unmoderator"
| "handle_channel ChannelMute = handle_channel_mute"
| "handle_channel ChannelUnmute = handle_channel_unmute"
| "handle_channel ChannelInvite = handle_channel_invite"
| "handle_channel ChannelKick = handle_channel_kick"
| "handle_channel ChannelBan = handle_channel_ban"
| "handle_channel ChannelUnban = handle_channel_unban"
| "handle_channel ChannelAnnouncements = handle_channel_announcements"
| "handle_channel ChannelModerate = handle_channel_moderate"
| "handle_channel ChannelDisplayListQuery = handle_channel_display_list_query"
| "handle_channel SetChannelWatch = (\<lambda>env p. handle_set_channel_watch)"

text \<open>A request of a player, the end of his session, or his leaving of the group finder.\<close>

datatype chat_event =
    Request channel_handler chan_player world_packet
  | Logout chan_player
  | LeaveLfg chan_player

fun chat_step :: "chat_env \<Rightarrow> chat_event \<Rightarrow> chat_world \<Rightarrow> chat_error + chat_world" where
  "chat_step env (Request h p recv) w = handle_channel h env p recv w"
| "chat_step env (Logout p) w = cleanup_channels env p w"
| "chat_step env (LeaveLfg p) w = leave_lfg_channel env p w"

definition empty_chat_world :: chat_world where
  "empty_chat_world = \<lparr>cw_heap = [], cw_next = 0, cw_alliance = [], cw_horde = [], cw_lists = (\<lambda>g. []), cw_sent = []\<rparr>"

text \<open>\<open>fits w\<close>: no channel has anywhere near the 2^32 members at which their count wraps.\<close>

definition fits :: "chat_world \<Rightarrow> bool" where
  "fits w \<longleftrightarrow> (\<forall>g. roomy (Suc (length (cw_lists w g))) w)"

text \<open>The environment (who is online, his name, his rights) may change between two events.\<close>

inductive chat_reachable :: "chat_world \<Rightarrow> bool" where
  start: "chat_reachable empty_chat_world"
| event: "chat_reachable w \<Longrightarrow> fits w \<Longrightarrow> chat_step env e w = Inr w' \<Longrightarrow> chat_reachable w'"

lemma fits_roomy: "fits w \<Longrightarrow> n \<le> Suc (length (cw_lists w g)) \<Longrightarrow> roomy n w"
  unfolding fits_def roomy_def by (meson add_left_mono order.strict_trans1)

lemma chat_step_safe: "chat_inv w \<Longrightarrow> fits w \<Longrightarrow> chat_safe (chat_step env e w)"
proof (cases e)
  case (Request h p recv)
  assume "chat_inv w" "fits w"
  then show ?thesis
    using Request handlers_safe [of w] join_safe [of w env p recv] leave_safe [of w env p recv]
      fits_roomy [of w 1 0]
    by (cases h) simp_all
next
  case (Logout p)
  assume w: "chat_inv w" "fits w"
  have "roomy (length (cw_lists w (cp_guid p))) w" by (rule fits_roomy [OF w(2), where g = "cp_guid p"]) simp
  from cleanup_safe [OF w(1) this order_refl, of env] show ?thesis
    using Logout by (auto simp: cleanup_channels_def chat_safe_def split: sum.splits)
next
  case (LeaveLfg p)
  assume "chat_inv w"
  then show ?thesis using LeaveLfg leave_lfg_safe by simp
qed

lemma reachable_chat_inv: "chat_reachable w \<Longrightarrow> chat_inv w"
proof (induction rule: chat_reachable.induct)
  case start
  then show ?case by (auto simp: chat_inv_def empty_chat_world_def om_inv_def registered_def mgr_channels_def split: channel_mgr.splits)
next
  case (event w env e w')
  then show ?case using chat_step_safe [of w env e] by simp
qed

section \<open>A world with one member\<close>

text \<open>\<open>calls X n s\<close>: the calls so far turn a list's holders \<open>S\<close> into \<open>X S\<close>, and there are at most \<open>n\<close> members.\<close>

definition calls :: "(guid set \<Rightarrow> guid set) \<Rightarrow> nat \<Rightarrow> chan_state \<Rightarrow> bool" where
  "calls X n s \<longleftrightarrow> (\<forall>S. joined (cs_out s) S = X S) \<and> length (ch_players s) \<le> n"

lemma calls_send: "calls X n s \<Longrightarrow> okp (calls X n) (reply env f g s)" "calls X n s \<Longrightarrow> okp (calls X n) (broadcast env f s)"
  unfolding reply_def broadcast_def send_to_all_def send_to_one_def
  by (auto intro!: okp_bind [OF okp_any] simp: calls_def emit_def joined_append joined_sends split: option.split)

lemma calls_slot: "calls X n s \<Longrightarrow> calls X (Suc n) (with_slot g f s)"
  using length_om_put(1) [of g "f (slot s g)" "ch_players s"] by (simp add: calls_def with_slot_def)

lemma calls_mono: "calls X n s \<Longrightarrow> n \<le> m \<Longrightarrow> calls X m s"
  by (simp add: calls_def)

lemma calls_set_owner: "calls X n s \<Longrightarrow> okp (calls X (n + 2)) (channel_set_owner_guid env g ex s)"
proof -
  assume s: "calls X n s"
  have "calls X n (t\<lparr>ch_owner_guid := h\<rparr>) = calls X n t" for t h n by (simp add: calls_def)
  then have clear: "calls X (Suc n) (owner_cleared g s)"
    using s calls_slot [OF s] calls_mono [OF s, of "Suc n"] by (simp add: owner_cleared_def)
  have "calls X (n + 2) (with_slot g f (owner_cleared g s))" for f
    using calls_slot [OF clear] by simp
  then show ?thesis
    unfolding channel_set_owner_guid_eq Let_def
    using clear calls_mono [OF clear, of "n + 2"] by (auto intro!: okp_bind [where Q = "calls X (n + 2)"] calls_send)
qed

lemma calls_join:
  assumes s: "calls X n s" and new: "\<not> is_on s (cp_guid p)" "\<not> is_banned s (cp_guid p)" "ch_password s = []"
    "\<not> ch_has_flag s CHANNEL_FLAG_LFG" "cp_guild_id p = 0"
  shows "okp (calls (\<lambda>S. insert (cp_guid p) (X S)) (n + 4)) (channel_join env p pw s)"
proof -
  let ?X = "\<lambda>S. insert (cp_guid p) (X S)"
  have j: "calls ?X n (emit (JoinedChannel (cp_guid p)) s)"
    using s by (simp add: calls_def emit_def joined_append)
  have more: "calls ?X (n + 1) t \<Longrightarrow> calls ?X (n + 4) t" "calls ?X (n + 3) t \<Longrightarrow> calls ?X (n + 4) (with_slot g f t)" for t g f
    using calls_mono [of ?X "n + 1" t "n + 4"] calls_slot [of ?X "n + 3" t g f] by (simp_all add: add.commute)
  have own: "calls ?X (n + 1) t \<Longrightarrow> okp (calls ?X (n + 3)) (channel_set_owner_guid env g ex t)" for t g ex
    using calls_set_owner [of ?X "n + 1" t env g ex] by (simp add: numeral_3_eq_3)
  have slot: "calls ?X n t \<Longrightarrow> calls ?X (n + 1) (with_slot g f t)" for t g f
    using calls_slot [of ?X n t g f] by simp
  have one: "okp (calls ?X n) (if b then broadcast env f (emit (JoinedChannel (cp_guid p)) s) else Inr (emit (JoinedChannel (cp_guid p)) s))" for b f
    using j by (simp add: calls_send)
  have rest: "okp (calls ?X (n + 4))
      (sum_bind (reply env (h t) (cp_guid p) t) (\<lambda>c. sum_bind (join_notify env (cp_guid p) c) (\<lambda>c.
         if \<not> is_constant c \<and> ch_owner_guid c = 0
         then sum_bind (channel_set_owner_guid env (cp_guid p) (length (ch_players c) > 1) c)
                (\<lambda>c. Inr (with_slot (cp_guid p) (pi_set_moderator True) c))
         else Inr c)))" if "calls ?X (n + 1) t" for t h
    unfolding join_notify_def
    by (rule okp_bind [OF calls_send(1) [OF that]], rule okp_bind [OF calls_send(2)], assumption)
      (auto intro!: okp_bind [OF own] more)
  have main: "okp (calls ?X (n + 4))
      (sum_bind (if b then broadcast env f (emit (JoinedChannel (cp_guid p)) s) else Inr (emit (JoinedChannel (cp_guid p)) s)) (\<lambda>c.
       sum_bind (reply env (h (with_slot (cp_guid p) u c)) (cp_guid p) (with_slot (cp_guid p) u c))
         (\<lambda>c. sum_bind (join_notify env (cp_guid p) c) (\<lambda>c.
         if \<not> is_constant c \<and> ch_owner_guid c = 0
         then sum_bind (channel_set_owner_guid env (cp_guid p) (length (ch_players c) > 1) c)
                (\<lambda>c. Inr (with_slot (cp_guid p) (pi_set_moderator True) c))
         else Inr c))))" for b f h u
    by (rule okp_bind [OF one]) (rule rest [OF slot])
  show ?thesis
    unfolding channel_join_def Let_def using new main by simp
qed

text \<open>Player 1 joins the channel \<open>trade\<close> of an empty world, and may then log out.\<close>

definition demo_chat_env :: chat_env where
  "demo_chat_env = chan_env.extend demo_chan_env \<lparr>ch_text = demo_utf8, ch_realm_name = ascii ''Home''\<rparr>"

definition demo_join :: world_packet where
  "demo_join = (world_packet_new 0x148E)\<lparr>bb_storage := [0, 0, 0, 0, 0x05, 0x00] @ ascii ''trade''\<rparr>"

lemma demo_join_read:
  "\<exists>r recv. read_join_channel_request demo_join = Inr (Some r, recv) \<and> jr_channel_name r = ascii ''trade''"
  by (simp add: read_join_channel_request_def demo_join_def ascii_def read_eval size_minus_def bb_size_def cong: sum_bind_weak)

lemma demo_key: "channel_key demo_chat_env (ascii ''trade'') = Inr (map unat (ascii ''trade''))"
  by (simp add: channel_key_def demo_chat_env_def chan_env.defs lift_text_def utf8_to_wstr_def ascii_def demo_utf8_def
      utf16_units_def wstr_to_lower_def wchar_to_lower_def)

lemma demo_mgr: "channel_mgr_of demo_chat_env (cp_team (demo_player g)) = Some AllianceChannelMgr"
  by (simp add: channel_mgr_of_def demo_chat_env_def chan_env.defs demo_player_def demo_chan_env_def)

lemma empty_fits: "fits empty_chat_world"
  by (simp add: fits_def roomy_def empty_chat_world_def om_get_def)

lemma demo_joined:
  obtains w where "chat_step demo_chat_env (Request JoinChannel (demo_player 1) demo_join) empty_chat_world = Inr w"
    and "chat_reachable w" and "fits w" and "cw_lists w 1 = [0]" and "named demo_chat_env (cw_lists w 1) w"
proof -
  let ?e = "chan_env.truncate demo_chat_env" and ?p = "demo_player 1"
  obtain r recv where r: "read_join_channel_request demo_join = Inr (Some r, recv)" "jr_channel_name r = ascii ''trade''"
    using demo_join_read by blast
  define c0 where "c0 = channel_new ?e (ascii ''trade'') (jr_channel_id r)"
  let ?c = "channel.extend c0 \<lparr>cs_out = []\<rparr>"
  have new: "ch_players c0 = []" "ch_banned c0 = []" "ch_password c0 = []" "ch_name c0 = ascii ''trade''" "\<not> ch_has_flag c0 CHANNEL_FLAG_LFG"
    by (simp_all add: c0_def channel_new_def Let_def demo_chat_env_def demo_chan_env_def chan_env.defs ch_has_flag_def)
  have "chan_inv c0" unfolding c0_def by (rule channel_new_inv) simp
  then have "chan_inv ?c" by (simp add: chan_inv_def chan_core_def channel.defs is_on_def slot_def is_constant_def)
  moreover have "player_ok ?p" by (simp add: player_ok_def)
  ultimately obtain s where s: "channel_join ?e ?p (jr_password r) ?c = Inr s"
    using channel_join_ok [of ?c ?p ?e "jr_password r"] by (auto simp: ok_def)
  have "calls (\<lambda>S. S) 0 ?c" by (simp add: calls_def channel.defs new)
  then have "okp (calls (\<lambda>S. insert 1 S) 4) (channel_join ?e ?p (jr_password r) ?c)"
    using calls_join [of "\<lambda>S. S" 0 ?c ?p ?e "jr_password r"] new
    by (simp add: is_on_def is_banned_def om_get_def channel.defs ch_has_flag_def demo_player_def)
  then have joins: "joined (cs_out s) S = insert 1 S" "length (ch_players s) \<le> 4" for S
    using s by (simp_all add: calls_def okp_def)
  have "keeps {} {} (ascii ''trade'') ?c" using new by (simp add: keeps_def channel.defs om_inv_def)
  from keeps_join [OF this] s have name: "ch_name s = ascii ''trade''" by (auto simp: okp_def keeps_def)
  let ?w0 = "empty_chat_world\<lparr>cw_heap := [(0, c0)], cw_next := 1, cw_alliance := [(map unat (ascii ''trade''), 0)]\<rparr>"
  define w where "w = fold (run_effect 0) (cs_out s) (?w0\<lparr>cw_heap := om_put 0 (channel.truncate s) [(0, c0)]\<rparr>)"
  have "get_join_channel demo_chat_env AllianceChannelMgr (ascii ''trade'') (jr_channel_id r) empty_chat_world = Inr (0, ?w0)"
    by (simp add: get_join_channel_def demo_key mgr_channels_def set_mgr_channels_def empty_chat_world_def om_get_def c0_def)
  moreover have "with_channel 0 (channel_join ?e ?p (jr_password r)) ?w0 = Inr w"
    using s by (simp add: with_channel_def om_get_def lift_bb_def w_def)
  moreover have "ascii ''trade'' \<noteq> []" by (simp add: ascii_def)
  ultimately have step: "chat_step demo_chat_env (Request JoinChannel ?p demo_join) empty_chat_world = Inr w"
    using r demo_mgr by (simp add: handle_join_channel_def lift_bb_def)
  have reach: "chat_reachable w" by (rule chat_reachable.event [OF chat_reachable.start empty_fits step])
  have heap: "cw_heap w = [(0, channel.truncate s)]" using run_effects_rest [of 0 "cs_out s"] by (simp add: w_def)
  have mem: "b \<in> set (cw_lists w g) \<longleftrightarrow> b = 0 \<and> g = 1" for b g
    unfolding w_def run_effects_lists by (simp add: joins empty_chat_world_def)
  have len: "length (cw_lists w g) \<le> 1" for g
    using chat_inv_dest(9) [OF reachable_chat_inv [OF reach], of g] mem [of _ g] card_mono [of "{0}" "set (cw_lists w g)"]
    by (auto simp: distinct_card subset_iff)
  have list: "cw_lists w 1 = [0]"
    using len [of 1] mem [of _ 1] by (cases "cw_lists w 1") auto
  have "fits w"
    unfolding fits_def roomy_def heap
  proof (intro allI impI)
    fix g a c assume "om_get [(0, channel.truncate s)] a = Some c"
    then show "length (ch_players c) + Suc (length (cw_lists w g)) < 2 ^ 32"
      using joins(2) len [of g] by (auto simp: om_get_def channel.defs split: if_splits)
  qed
  moreover have "named demo_chat_env (cw_lists w 1) w"
    by (simp add: named_def list heap om_get_def channel.defs name demo_key)
  ultimately show ?thesis using that step reach list by blast
qed

section \<open>Properties\<close>

text \<open>
  C14: No event uses a deleted channel. Over every sequence of channel requests, logouts and departures
  from the group finder, in any order and by any players, whatever happens to the players in between,
  neither a manager nor a player's list of channels hands out a pointer to a channel that has been
  deleted, and every channel in a player's list has the player as a member.
\<close>

theorem no_dangling_channels:
  assumes "chat_reachable w" and "fits w"
  shows "chat_step env e w \<noteq> Inl (ChannelFreed a) \<and>
    (\<forall>g b. b \<in> set (cw_lists w g) \<longrightarrow> (\<exists>c. om_get (cw_heap w) b = Some c \<and> is_on c g))"
proof -
  note inv = reachable_chat_inv [OF assms(1)]
  have "chat_step env e w \<noteq> Inl (ChannelFreed a)" using chat_step_safe [OF inv assms(2), of env e] by auto
  with chat_inv_dest(8) [OF inv] show ?thesis by blast
qed

theorem no_dangling_channels_witness:
  "\<exists>w. chat_step demo_chat_env (Request JoinChannel (demo_player 1) demo_join) empty_chat_world = Inr w \<and>
     chat_step demo_chat_env (Logout (demo_player 1)) w \<noteq> Inl (ChannelFreed 0) \<and>
     cw_lists w 1 = [0] \<and> (\<exists>c. om_get (cw_heap w) 0 = Some c \<and> is_on c 1)"
proof -
  obtain w where w: "chat_step demo_chat_env (Request JoinChannel (demo_player 1) demo_join) empty_chat_world = Inr w"
    "chat_reachable w" "fits w" "cw_lists w 1 = [0]" by (rule demo_joined)
  from no_dangling_channels [OF w(2,3), of demo_chat_env "Logout (demo_player 1)" 0] w(4)
  have "chat_step demo_chat_env (Logout (demo_player 1)) w \<noteq> Inl (ChannelFreed 0)"
    "\<exists>c. om_get (cw_heap w) 0 = Some c \<and> is_on c 1" by auto
  with w show ?thesis by blast
qed

text \<open>
  C39: A session leaves no trace. The loop of \<open>CleanupChannels\<close> ends: from every reachable world, when
  the names of the player's channels convert to wide strings (they did when the channels were
  made), the fuel of the model is enough, and any more of it gives the same result. In that result
  the player's list of channels is empty and every pointer of another player's list is valid: no
  channel was deleted that a list still holds.
\<close>

theorem logout_empties_the_list:
  assumes "chat_reachable w" and "fits w" and "named env (cw_lists w (cp_guid p)) w"
  shows "\<exists>w'. cleanup_channels env p w = Inr w' \<and>
    (\<forall>k. cleanup_loop (length (cw_lists w (cp_guid p)) + k) env p w = Inr w') \<and>
    cw_lists w' (cp_guid p) = [] \<and>
    (\<forall>g b. b \<in> set (cw_lists w' g) \<longrightarrow> (\<exists>c. om_get (cw_heap w') b = Some c \<and> is_on c g))"
proof -
  have room: "roomy (length (cw_lists w (cp_guid p))) w" by (rule fits_roomy [OF assms(2), where g = "cp_guid p"]) simp
  note inv = reachable_chat_inv [OF assms(1)]
  from cleanup_succeeds [OF inv room order_refl assms(3)] obtain w' where
    w': "cleanup_loop (length (cw_lists w (cp_guid p))) env p w = Inr w'" by blast
  with cleanup_safe [OF inv room order_refl, of env] have "chat_inv w'" "cw_lists w' (cp_guid p) = []" by simp_all
  with w' cleanup_more_fuel [OF w'] chat_inv_dest(8) show ?thesis by (fastforce simp: cleanup_channels_def)
qed

theorem logout_empties_the_list_witness:
  "\<exists>w w'. chat_step demo_chat_env (Request JoinChannel (demo_player 1) demo_join) empty_chat_world = Inr w \<and>
     cw_lists w 1 = [0] \<and> cleanup_channels demo_chat_env (demo_player 1) w = Inr w' \<and> cw_lists w' 1 = []"
proof -
  obtain w where w: "chat_step demo_chat_env (Request JoinChannel (demo_player 1) demo_join) empty_chat_world = Inr w"
    "chat_reachable w" "fits w" "cw_lists w 1 = [0]" "named demo_chat_env (cw_lists w 1) w" by (rule demo_joined)
  have "named demo_chat_env (cw_lists w (cp_guid (demo_player 1))) w" using w(5) by simp
  from logout_empties_the_list [OF w(2,3) this] w(1,4) show ?thesis by auto
qed

section \<open>The opcode that appoints an owner\<close>

lemma ok_broadcast_sends:
  "builds f \<Longrightarrow> (\<And>ks d. P (c\<lparr>cs_out := cs_out c @ map (\<lambda>k. SendTo k d) ks\<rparr>)) \<Longrightarrow> ok P (broadcast env f c)"
  unfolding builds_def broadcast_def send_to_all_def by auto

lemma set_owner_flag: "pi_set_owner True (pi_set_owner False i) = pi_set_owner True i"
proof -
  have "(f AND NOT MEMBER_FLAG_OWNER) OR MEMBER_FLAG_OWNER = f OR MEMBER_FLAG_OWNER" for f :: u8
    by (rule bit_eqI) (auto simp: bit_simps)
  then show ?thesis by (simp add: pi_set_owner_def)
qed

lemma set_owner_takes:
  assumes "length (ch_name c) \<le> 127" and "g \<noteq> 0"
  shows "ok (\<lambda>s. ch_owner_guid s = g \<and> om_get (ch_players s) g = Some (pi_set_owner True (slot c g)) \<and>
      (\<forall>S. joined (cs_out s) S = joined (cs_out c) S))
    (channel_set_owner_guid env g ex c)" (is "ok ?P _")
proof -
  let ?c = "with_slot g (pi_set_owner True) (owner_cleared g c)"
  have "slot (owner_cleared g c) g = slot c g \<or> slot (owner_cleared g c) g = pi_set_owner False (slot c g)"
    by (simp add: owner_cleared_def)
  then have "pi_set_owner True (slot (owner_cleared g c) g) = pi_set_owner True (slot c g)"
    using set_owner_flag by metis
  then have "om_get (ch_players ?c) g = Some (pi_set_owner True (slot c g))"
    by (simp add: with_slot_def)
  moreover have out: "cs_out ?c = cs_out c" by (simp add: with_slot_def owner_cleared_def)
  ultimately have P: "?P (?c\<lparr>cs_out := cs_out c @ map (\<lambda>k. SendTo k d) ks @ map (\<lambda>k. SendTo k d') ks'\<rparr>)" for d ks d' ks'
    by (simp add: joined_append joined_sends)
  have name: "length (ch_name ?c) \<le> 127" using assms(1) by (simp add: owner_cleared_name)
  show ?thesis
    unfolding channel_set_owner_guid_eq Let_def
    using assms(2) name out P [of _ _ _ "[]"] P by (auto intro!: ok_intros ok_broadcast_sends built)
qed

text \<open>
  C18: The set-owner request hands a channel to whoever sends it. \<open>HandleChannelSetOwnerOpcode\<close> calls the
  overload \<open>SetOwner(ObjectGuid, bool)\<close>, which checks nothing. After the request of any player, with
  whatever rights, the named player is not looked at and the sender is the recorded owner of the
  channel: a member keeps his entry and flags and gets the owner flag; a player who is not a member is
  entered with the owner flag and without a guid, and his own list of channels, like everyone
  else's, has not changed.
\<close>

theorem set_owner_opcode_takes_the_channel:
  assumes "read_channel_then_player_bits recv = Inr ((channelname, newp), recv')"
    and "target_name env newp = Inr (Some n)" and "channel_mgr_of env (cp_team p) = Some m"
    and "channel_key env channelname = Inr k" and "om_get (mgr_channels m w) k = Some a"
    and "om_get (cw_heap w) a = Some c" and "length (ch_name c) \<le> 127" and "cp_guid p \<noteq> 0"
  shows "\<exists>w' c'. handle_channel_set_owner env p recv w = Inr w' \<and> om_get (cw_heap w') a = Some c' \<and>
    ch_owner_guid c' = cp_guid p \<and>
    om_get (ch_players c') (cp_guid p) = Some
      (case om_get (ch_players c) (cp_guid p) of
         None \<Rightarrow> \<lparr>pi_player = 0, pi_flags = MEMBER_FLAG_OWNER\<rparr>
       | Some i \<Rightarrow> i\<lparr>pi_flags := pi_flags i OR MEMBER_FLAG_OWNER\<rparr>) \<and>
    (\<forall>g b. b \<in> set (cw_lists w' g) \<longleftrightarrow> b \<in> set (cw_lists w g))"
proof -
  let ?c = "channel.extend c \<lparr>cs_out = []\<rparr>" and ?e = "chan_env.truncate env" and ?g = "cp_guid p"
  have name: "length (ch_name ?c) \<le> 127" and out: "cs_out ?c = []" and members: "ch_players ?c = ch_players c"
    using assms(7) by (simp_all add: channel.defs)
  have entry: "pi_set_owner True (slot ?c ?g) = (case om_get (ch_players c) ?g of
      None \<Rightarrow> \<lparr>pi_player = 0, pi_flags = MEMBER_FLAG_OWNER\<rparr> | Some i \<Rightarrow> i\<lparr>pi_flags := pi_flags i OR MEMBER_FLAG_OWNER\<rparr>)"
    by (simp add: slot_def members pi_set_owner_def split: option.split)
  from set_owner_takes [OF name assms(8), of ?e True]
  obtain s where s: "channel_set_owner_guid ?e ?g True ?c = Inr s" "ch_owner_guid s = ?g"
      "om_get (ch_players s) ?g = Some (pi_set_owner True (slot ?c ?g))"
      "\<And>S. joined (cs_out s) S = S"
    by (auto simp: ok_def out)
  let ?w = "w\<lparr>cw_heap := om_put a (channel.truncate s) (cw_heap w)\<rparr>"
  have "handle_channel_set_owner env p recv w = Inr (fold (run_effect a) (cs_out s) ?w)"
    using assms(1-6) s(1)
    by (simp add: handle_channel_set_owner_def on_channel_with_def on_channel_def get_channel_def with_channel_def lift_bb_def)
  then show ?thesis
    using run_effects_rest [of a "cs_out s" ?w] run_effects_lists [of _ a "cs_out s" ?w] s(2) s(3) [unfolded entry] s(4)
    by (simp add: channel.defs)
qed

definition demo_chat_world :: chat_world where
  "demo_chat_world = \<lparr>cw_heap = [(0, channel.truncate demo_channel)], cw_next = 1,
     cw_alliance = [(map unat (ascii ''trade''), 0)], cw_horde = [],
     cw_lists = (\<lambda>g. if g = 1 \<or> g = 2 then [0] else []), cw_sent = []\<rparr>"

definition demo_set_owner :: world_packet where
  "demo_set_owner = (world_packet_new 0x141A)\<lparr>bb_storage := [0x05, 0x06] @ ascii ''Bob'' @ ascii ''trade''\<rparr>"

theorem set_owner_opcode_takes_the_channel_witness:
  "(\<exists>w' c'. handle_channel_set_owner demo_chat_env (demo_player 3) demo_set_owner demo_chat_world = Inr w' \<and>
     om_get (cw_heap w') 0 = Some c' \<and> ch_owner_guid c' = 3 \<and> om_get (ch_players c') 3 = Some \<lparr>pi_player = 0, pi_flags = 1\<rparr>) \<and>
   (\<exists>w' c'. handle_channel_set_owner demo_chat_env (demo_player 2) demo_set_owner demo_chat_world = Inr w' \<and>
     om_get (cw_heap w') 0 = Some c' \<and> ch_owner_guid c' = 2 \<and> om_get (ch_players c') 2 = Some \<lparr>pi_player = 2, pi_flags = 1\<rparr>)"
proof -
  have recv: "\<exists>r. read_channel_then_player_bits demo_set_owner = Inr ((ascii ''trade'', ascii ''Bob''), r)"
    by (simp add: read_channel_then_player_bits_def demo_set_owner_def ascii_def read_eval cong: sum_bind_weak)
  have name: "target_name demo_chat_env (ascii ''Bob'') = Inr (Some (ascii ''Bob''))"
    by (simp add: target_name_def demo_chat_env_def chan_env.defs strip_home_realm_suffix_def lift_text_def strip_realm_suffix_def normalize_realm_name_def
        normalize_player_name_def ascii_def utf8_to_wbuf_def demo_utf8_def MAX_INTERNAL_PLAYER_NAME_def
        utf16_units_def capitalize_def wchar_to_upper_def wchar_to_lower_def uint16_def wstr_to_utf8_def)
  show ?thesis
    using recv set_owner_opcode_takes_the_channel [OF _ name demo_mgr [of 3] demo_key, of demo_set_owner _ demo_chat_world 0 "channel.truncate demo_channel"]
      set_owner_opcode_takes_the_channel [OF _ name demo_mgr [of 2] demo_key, of demo_set_owner _ demo_chat_world 0 "channel.truncate demo_channel"]
    by (auto simp: demo_chat_world_def mgr_channels_def om_get_def demo_channel_def channel.defs)
qed

end
