(* ===== verification/Opcodes.thy ===== *)
theory Opcodes
  imports Prelude
begin

text \<open>
  The opcode tables of \<open>src/src/game/Server/Opcodes.cpp\<close>: which client opcodes have a handler, in
  what state of the session it may run and on which thread. Every registration of
  \<open>InitializeOpcodes\<close> is here, in its order, with the values of \<open>Opcodes.h\<close>; a handler (a pointer to
  a member function) is its name.
\<close>

section \<open>Registration\<close>

datatype session_status =
    STATUS_AUTHED | STATUS_LOGGEDIN | STATUS_TRANSFER | STATUS_LOGGEDIN_OR_TRANSFER
  | STATUS_LOGGEDIN_OR_RECENTLY_LOGGEDOUT | STATUS_NEVER | STATUS_UNHANDLED

datatype packet_processing = PROCESS_INPLACE | PROCESS_THREADUNSAFE | PROCESS_THREADSAFE

record opcode_handler =
  oh_name :: string
  oh_status :: session_status
  oh_processing :: packet_processing
  oh_handler :: string

datatype opcode_registration =
    DefC nat string session_status packet_processing string
  | DefS nat string

definition OPCODE_TABLE_SIZE_nat :: nat where "OPCODE_TABLE_SIZE_nat = 0x2000"

text \<open>An unclaimed slot has the default entry that \<open>InitializeOpcodes\<close> fills in.\<close>

record opcode_tables =
  ot_client :: "(nat, opcode_handler) omap"
  ot_server :: "(nat, opcode_handler) omap"

datatype opcode_error = OpcodeAssert nat

definition unhandled_client :: opcode_handler where
  "unhandled_client = \<lparr>oh_name = ''UNKNOWN'', oh_status = STATUS_UNHANDLED, oh_processing = PROCESS_INPLACE,
     oh_handler = ''Handle_NULL''\<rparr>"

definition unhandled_server :: opcode_handler where
  "unhandled_server = \<lparr>oh_name = ''UNKNOWN'', oh_status = STATUS_NEVER, oh_processing = PROCESS_INPLACE,
     oh_handler = ''Handle_ServerSide''\<rparr>"

definition claim_slot :: "nat \<Rightarrow> opcode_handler \<Rightarrow> (nat, opcode_handler) omap \<Rightarrow> opcode_error + (nat, opcode_handler) omap" where
  "claim_slot v h t =
     (if v \<ge> OPCODE_TABLE_SIZE_nat then Inl (OpcodeAssert v)
      else case om_get t v of
             Some h' \<Rightarrow> if oh_name h = oh_name h' then Inr (om_put v h t) else Inl (OpcodeAssert v)
           | None \<Rightarrow> Inr (om_put v h t))"

fun register_opcode :: "opcode_registration \<Rightarrow> opcode_tables \<Rightarrow> opcode_error + opcode_tables" where
  "register_opcode (DefC v name s p h) t =
     sum_bind (claim_slot v \<lparr>oh_name = name, oh_status = s, oh_processing = p, oh_handler = h\<rparr> (ot_client t))
       (\<lambda>c. Inr (t\<lparr>ot_client := c\<rparr>))"
| "register_opcode (DefS v name) t =
     sum_bind (claim_slot v \<lparr>oh_name = name, oh_status = STATUS_NEVER, oh_processing = PROCESS_INPLACE,
                             oh_handler = ''Handle_ServerSide''\<rparr> (ot_server t))
       (\<lambda>s. Inr (t\<lparr>ot_server := s\<rparr>))"

fun register_opcodes :: "opcode_registration list \<Rightarrow> opcode_tables \<Rightarrow> opcode_error + opcode_tables" where
  "register_opcodes [] t = Inr t"
| "register_opcodes (r # rs) t = sum_bind (register_opcode r t) (register_opcodes rs)"

section \<open>Lookup\<close>

definition client_slot :: "opcode_tables \<Rightarrow> nat \<Rightarrow> opcode_handler" where
  "client_slot t v = (case om_get (ot_client t) v of Some h \<Rightarrow> h | None \<Rightarrow> unhandled_client)"

definition server_slot :: "opcode_tables \<Rightarrow> nat \<Rightarrow> opcode_handler" where
  "server_slot t v = (case om_get (ot_server t) v of Some h \<Rightarrow> h | None \<Rightarrow> unhandled_server)"

definition lookup_client_opcode :: "opcode_tables \<Rightarrow> nat \<Rightarrow> opcode_handler option" where
  "lookup_client_opcode t value =
     (if value \<ge> OPCODE_TABLE_SIZE_nat then None
      else let h = client_slot t value in if oh_status h = STATUS_UNHANDLED then None else Some h)"

definition MSG_WOW_CONNECTION_nat :: nat where "MSG_WOW_CONNECTION_nat = 0x4F57"

definition lookup_client_opcode_name :: "opcode_tables \<Rightarrow> nat \<Rightarrow> string" where
  "lookup_client_opcode_name t value =
     (if value \<ge> OPCODE_TABLE_SIZE_nat
      then (if value = MSG_WOW_CONNECTION_nat then ''MSG_WOW_CONNECTION'' else ''OUT_OF_RANGE'')
      else oh_name (client_slot t value))"

definition lookup_server_opcode_name :: "opcode_tables \<Rightarrow> nat \<Rightarrow> string" where
  "lookup_server_opcode_name t value =
     (if value \<ge> OPCODE_TABLE_SIZE_nat
      then (if value = MSG_WOW_CONNECTION_nat then ''MSG_WOW_CONNECTION'' else ''OUT_OF_RANGE'')
      else oh_name (server_slot t value))"

section \<open>The registrations\<close>

definition opcode_register_inc :: "opcode_registration list" where
  "opcode_register_inc = [
     DefC 0x00B2 ''CMSG_AUTH_SESSION'' STATUS_NEVER PROCESS_THREADUNSAFE ''Handle_EarlyProccess'',
     DefC 0x0F1D ''CMSG_CHAR_CREATE'' STATUS_AUTHED PROCESS_THREADUNSAFE ''HandleCharCreateOpcode'',
     DefC 0x00E0 ''CMSG_CHAR_ENUM'' STATUS_AUTHED PROCESS_THREADUNSAFE ''HandleCharEnumOpcode'',
     DefC 0x1A87 ''CMSG_KEEP_ALIVE'' STATUS_NEVER PROCESS_THREADUNSAFE ''Handle_EarlyProccess'',
     DefC 0x10B3 ''CMSG_LOG_DISCONNECT'' STATUS_NEVER PROCESS_INPLACE ''Handle_EarlyProccess'',
     DefC 0x0012 ''CMSG_PING'' STATUS_NEVER PROCESS_INPLACE ''Handle_EarlyProccess'',
     DefC 0x158F ''CMSG_PLAYER_LOGIN'' STATUS_AUTHED PROCESS_THREADUNSAFE ''HandlePlayerLoginOpcode'',
     DefC 0x031C ''CMSG_READY_FOR_ACCOUNT_DATA_TIMES'' STATUS_AUTHED PROCESS_THREADUNSAFE ''HandleReadyForAccountDataTimesOpcode'',
     DefC 0x0062 ''CMSG_REALM_SPLIT'' STATUS_AUTHED PROCESS_THREADUNSAFE ''HandleRealmSplitOpcode'',
     DefS 0x162B ''SMSG_ACCOUNT_DATA_TIMES'',
     DefS 0x160A ''SMSG_ADDON_INFO'',
     DefS 0x0949 ''SMSG_AUTH_CHALLENGE'',
     DefS 0x0ABA ''SMSG_AUTH_RESPONSE'',
     DefS 0x1CAA ''SMSG_CHAR_CREATE'',
     DefS 0x11C3 ''SMSG_CHAR_ENUM'',
     DefS 0x002A ''SMSG_CLIENTCACHE_VERSION'',
     DefS 0x16BB ''SMSG_FEATURE_SYSTEM_STATUS'',
     DefS 0x082B ''SMSG_LOGIN_SETTIMESPEED'',
     DefS 0x1969 ''SMSG_PONG'',
     DefS 0x1A2E ''SMSG_REALM_SPLIT'',
     DefS 0x19C1 ''SMSG_SET_TIME_ZONE_INFORMATION'',
     DefS 0x1B90 ''SMSG_TUTORIAL_FLAGS'']"

definition opcode_registrations_1 :: "opcode_registration list" where
  "opcode_registrations_1 = [
     DefC 0x04E2 ''CMSG_CHAR_DELETE'' STATUS_AUTHED PROCESS_THREADUNSAFE ''HandleCharDeleteOpcode'',
     DefS 0x0C9F ''SMSG_CHAR_DELETE'',
     DefC 0x0A13 ''CMSG_CHAR_CUSTOMIZE'' STATUS_AUTHED PROCESS_THREADUNSAFE ''HandleCharCustomizeOpcode'',
     DefS 0x1432 ''SMSG_CHAR_CUSTOMIZE'',
     DefC 0x0068 ''CMSG_UPDATE_ACCOUNT_DATA'' STATUS_AUTHED PROCESS_THREADUNSAFE ''HandleUpdateAccountData'',
     DefC 0x1D8A ''CMSG_REQUEST_ACCOUNT_DATA'' STATUS_AUTHED PROCESS_THREADUNSAFE ''HandleRequestAccountData'',
     DefS 0x0AAE ''SMSG_UPDATE_ACCOUNT_DATA'',
     DefC 0x18B2 ''CMSG_BATTLE_PAY_GET_PURCHASE_LIST'' STATUS_AUTHED PROCESS_INPLACE ''HandleBattlePayGetPurchaseListOpcode'',
     DefC 0x0DE0 ''CMSG_BATTLE_PAY_GET_PRODUCT_LIST'' STATUS_AUTHED PROCESS_INPLACE ''HandleBattlePayGetProductListOpcode'',
     DefS 0x023A ''SMSG_BATTLE_PAY_GET_PURCHASE_LIST_RESPONSE'',
     DefC 0x0B1C ''CMSG_GENERATE_RANDOM_CHARACTER_NAME'' STATUS_AUTHED PROCESS_THREADUNSAFE ''HandleRandomizeCharNameOpcode'',
     DefS 0x169F ''SMSG_RANDOMIZE_CHAR_NAME'',
     DefS 0x1A0B ''SMSG_CHARACTER_LOGIN_FAILED'',
     DefS 0x11E1 ''SMSG_ATTACKSWING_ERROR'',
     DefS 0x0817 ''SMSG_MOVE_SET_SWIM_SPEED'',
     DefS 0x184C ''SMSG_MOVE_SET_RUN_SPEED'',
     DefS 0x0469 ''SMSG_MOVE_SET_WALK_SPEED'',
     DefS 0x02F1 ''SMSG_SPLINE_MOVE_SET_RUN_SPEED'',
     DefS 0x0A83 ''SMSG_MOVE_SET_RUN_BACK_SPEED'',
     DefS 0x006E ''SMSG_MOVE_SET_FLIGHT_SPEED'',
     DefS 0x08B2 ''SMSG_SPLINE_MOVE_SET_WALK_SPEED'',
     DefS 0x1F9F ''SMSG_SPLINE_MOVE_SET_RUN_BACK_SPEED'',
     DefS 0x1D8E ''SMSG_SPLINE_MOVE_SET_SWIM_SPEED'',
     DefS 0x1DAB ''SMSG_SPLINE_MOVE_SET_FLIGHT_SPEED'',
     DefS 0x0046 ''SMSG_SPLINE_MOVE_SET_SWIM_BACK_SPEED'',
     DefS 0x0832 ''SMSG_SPLINE_MOVE_SET_TURN_RATE'',
     DefS 0x0B28 ''SMSG_SPLINE_MOVE_SET_FLIGHT_BACK_SPEED'',
     DefS 0x0AB3 ''SMSG_SPLINE_MOVE_SET_PITCH_RATE'',
     DefS 0x0962 ''SMSG_MOVE_SET_SWIM_BACK_SPEED'',
     DefS 0x0069 ''SMSG_MOVE_SET_TURN_RATE'',
     DefS 0x0319 ''SMSG_MOVE_SET_FLIGHT_BACK_SPEED'',
     DefS 0x17AB ''SMSG_MOVE_SET_PITCH_RATE'',
     DefS 0x141A ''SMSG_RANDOM_ROLL'',
     DefS 0x0332 ''SMSG_UPDATE_INSTANCE_ENCOUNTER_UNIT'',
     DefS 0x0591 ''SMSG_SET_RAID_DIFFICULTY'',
     DefS 0x1283 ''SMSG_SET_DUNGEON_DIFFICULTY'',
     DefS 0x042E ''SMSG_TRAINER_BUY_FAILED'',
     DefS 0x02A6 ''SMSG_GM_TICKET_UPDATE'',
     DefC 0x1A86 ''CMSG_GMTICKET_CREATE'' STATUS_LOGGEDIN PROCESS_THREADUNSAFE ''HandleGMTicketCreateOpcode'',
     DefC 0x1F89 ''CMSG_GMTICKET_GETTICKET'' STATUS_LOGGEDIN PROCESS_THREADUNSAFE ''HandleGMTicketGetTicketOpcode'',
     DefS 0x129B ''SMSG_GMTICKET_GETTICKET'',
     DefC 0x0A82 ''CMSG_GMTICKET_SYSTEMSTATUS'' STATUS_LOGGEDIN PROCESS_THREADUNSAFE ''HandleGMTicketSystemStatusOpcode'',
     DefS 0x163B ''SMSG_GMTICKET_SYSTEMSTATUS'',
     DefC 0x15A8 ''CMSG_GM_UPDATE_TICKET_STATUS'' STATUS_LOGGEDIN PROCESS_THREADUNSAFE ''HandleGMUpdateTicketStatusOpcode'',
     DefS 0x148E ''SMSG_GM_TICKET_CASE_STATUS'',
     DefS 0x1C0F ''SMSG_LOGIN_VERIFY_WORLD'',
     DefS 0x1C3B ''SMSG_NEW_WORLD'',
     DefS 0x18BA ''SMSG_SUSPEND_TOKEN'',
     DefC 0x0292 ''CMSG_SUSPEND_TOKEN_RESPONSE'' STATUS_TRANSFER PROCESS_THREADUNSAFE ''HandleSuspendTokenResponse'',
     DefS 0x061B ''SMSG_TRANSFER_PENDING'',
     DefS 0x0C8F ''SMSG_TRANSFER_ABORTED'',
     DefS 0x082B ''SMSG_LOGIN_SETTIMESPEED'',
     DefS 0x1A8F ''SMSG_TIME_SYNC_REQ'',
     DefC 0x01DB ''CMSG_TIME_SYNC_RESP'' STATUS_LOGGEDIN PROCESS_THREADUNSAFE ''HandleTimeSyncResp'',
     DefC 0x0058 ''CMSG_TIME_SYNC_RESPONSE_FAILED'' STATUS_LOGGEDIN PROCESS_THREADUNSAFE ''HandleTimeSyncResponseFailed'',
     DefC 0x10D3 ''CMSG_TIME_SYNC_RESPONSE_DROPPED'' STATUS_LOGGEDIN PROCESS_THREADUNSAFE ''HandleTimeSyncResponseDropped'',
     DefC 0x115B ''CMSG_DISCARDED_TIME_SYNC_ACKS'' STATUS_LOGGEDIN_OR_RECENTLY_LOGGEDOUT PROCESS_THREADUNSAFE ''HandleDiscardedTimeSyncAcks'',
     DefS 0x0B01 ''SMSG_TRIGGER_CINEMATIC'',
     DefS 0x0082 ''SMSG_WORLD_SERVER_INFO'',
     DefS 0x183B ''SMSG_MOTD'',
     DefS 0x022A ''SMSG_CORPSE_RECLAIM_DELAY'',
     DefC 0x06F5 ''CMSG_REQUEST_FORCED_REACTIONS'' STATUS_LOGGEDIN PROCESS_THREADUNSAFE ''HandleRequestForcedReactionsOpcode'',
     DefS 0x068F ''SMSG_SET_FORCED_REACTIONS'',
     DefS 0x10AA ''SMSG_SET_FACTION_STANDING'',
     DefS 0x1E8E ''SMSG_SET_FACTION_VISIBLE'',
     DefS 0x068E ''SMSG_TITLE_EARNED'',
     DefS 0x12BF ''SMSG_TITLE_LOST'',
     DefS 0x100A ''SMSG_PVP_CREDIT'',
     DefS 0x1E9E ''SMSG_CROSSED_INEBRIATION_THRESHOLD'',
     DefS 0x1560 ''SMSG_INIT_WORLD_STATES'',
     DefS 0x121B ''SMSG_UPDATE_WORLD_STATE'',
     DefS 0x18C1 ''SMSG_ITEM_TIME_UPDATE'',
     DefS 0x10A2 ''SMSG_ITEM_ENCHANT_TIME_UPDATE'',
     DefC 0x1259 ''CMSG_INSPECT'' STATUS_LOGGEDIN PROCESS_THREADUNSAFE ''HandleInspectOpcode'',
     DefS 0x1842 ''SMSG_INSPECT_RESULTS'',
     DefS 0x0B39 ''SMSG_MOVE_TELEPORT'',
     DefS 0x1043 ''SMSG_CLIENT_CONTROL_UPDATE'',
     DefS 0x0C6D ''SMSG_MOVE_SET_ACTIVE_MOVER'',
     DefS 0x129E ''SMSG_UPDATE_CURRENCY'',
     DefS 0x1A8B ''SMSG_SETUP_CURRENCY'']"

definition opcode_registrations_2 :: "opcode_registration list" where
  "opcode_registrations_2 = [
     DefS 0x023E ''SMSG_WEEKLY_RESET_CURRENCIES'',
     DefS 0x0E2A ''SMSG_SET_CURRENCY_WEEK_LIMIT'',
     DefS 0x00D8 ''SMSG_SPELL_EXECUTE_LOG'',
     DefS 0x0CF2 ''SMSG_SPELL_PERIODIC_AURA_LOG'',
     DefS 0x0DF9 ''SMSG_SPELLDISPELLOG'',
     DefS 0x1851 ''SMSG_SPELLINTERRUPTLOG'',
     DefS 0x09F8 ''SMSG_SPELLINSTAKILLLOG'',
     DefS 0x0D79 ''SMSG_SPELLENERGIZELOG'',
     DefS 0x09FB ''SMSG_SPELLHEALLOG'',
     DefS 0x05F3 ''SMSG_SPELLDAMAGESHIELD'',
     DefS 0x1570 ''SMSG_SPELLLOGMISS'',
     DefS 0x0072 ''SMSG_AURA_UPDATE'',
     DefS 0x1792 ''SMSG_UPDATE_OBJECT'',
     DefS 0x14C2 ''SMSG_DESTROY_OBJECT'',
     DefS 0x1A9A ''SMSG_MESSAGECHAT'',
     DefS 0x1082 ''SMSG_CHAT_PLAYER_NOT_FOUND'',
     DefS 0x061A ''SMSG_CHAT_PLAYER_AMBIGUOUS'',
     DefS 0x1A3B ''SMSG_CHAT_RESTRICTED'',
     DefC 0x029F ''CMSG_UNREGISTER_ALL_ADDON_PREFIXES'' STATUS_LOGGEDIN PROCESS_THREADUNSAFE ''HandleUnregisterAddonPrefixesOpcode'',
     DefC 0x040E ''CMSG_ADDON_REGISTERED_PREFIXES'' STATUS_LOGGEDIN PROCESS_THREADUNSAFE ''HandleAddonRegisteredPrefixesOpcode'',
     DefC 0x0A9A ''CMSG_MESSAGECHAT_SAY'' STATUS_LOGGEDIN PROCESS_THREADUNSAFE ''HandleMessagechatOpcode'',
     DefC 0x0EAB ''CMSG_MESSAGECHAT_AFK'' STATUS_LOGGEDIN PROCESS_THREADUNSAFE ''HandleMessagechatOpcode'',
     DefC 0x04AA ''CMSG_MESSAGECHAT_YELL'' STATUS_LOGGEDIN PROCESS_THREADUNSAFE ''HandleMessagechatOpcode'',
     DefC 0x103E ''CMSG_MESSAGECHAT_EMOTE'' STATUS_LOGGEDIN PROCESS_THREADUNSAFE ''HandleMessagechatOpcode'',
     DefC 0x002E ''CMSG_MESSAGECHAT_DND'' STATUS_LOGGEDIN PROCESS_THREADUNSAFE ''HandleMessagechatOpcode'',
     DefC 0x123E ''CMSG_MESSAGECHAT_WHISPER'' STATUS_LOGGEDIN PROCESS_THREADUNSAFE ''HandleMessagechatOpcode'',
     DefC 0x00BB ''CMSG_MESSAGECHAT_CHANNEL'' STATUS_LOGGEDIN PROCESS_THREADUNSAFE ''HandleMessagechatOpcode'',
     DefC 0x0CAE ''CMSG_MESSAGECHAT_GUILD'' STATUS_LOGGEDIN PROCESS_THREADUNSAFE ''HandleMessagechatOpcode'',
     DefC 0x0ABF ''CMSG_MESSAGECHAT_OFFICER'' STATUS_LOGGEDIN PROCESS_THREADUNSAFE ''HandleMessagechatOpcode'',
     DefC 0x109A ''CMSG_MESSAGECHAT_PARTY'' STATUS_LOGGEDIN PROCESS_THREADUNSAFE ''HandleMessagechatOpcode'',
     DefC 0x083E ''CMSG_MESSAGECHAT_RAID'' STATUS_LOGGEDIN PROCESS_THREADUNSAFE ''HandleMessagechatOpcode'',
     DefC 0x16AB ''CMSG_MESSAGECHAT_RAID_WARNING'' STATUS_LOGGEDIN PROCESS_THREADUNSAFE ''HandleMessagechatOpcode'',
     DefC 0x162A ''CMSG_MESSAGECHAT_INSTANCE'' STATUS_LOGGEDIN PROCESS_THREADUNSAFE ''HandleMessagechatOpcode'',
     DefC 0x009A ''CMSG_MESSAGECHAT_ADDON_RAID'' STATUS_LOGGEDIN PROCESS_THREADUNSAFE ''HandleAddonMessagechatOpcode'',
     DefC 0x028E ''CMSG_MESSAGECHAT_ADDON_PARTY'' STATUS_LOGGEDIN PROCESS_THREADUNSAFE ''HandleAddonMessagechatOpcode'',
     DefC 0x08AF ''CMSG_MESSAGECHAT_ADDON_INSTANCE'' STATUS_LOGGEDIN PROCESS_THREADUNSAFE ''HandleAddonMessagechatOpcode'',
     DefC 0x0E3B ''CMSG_MESSAGECHAT_ADDON_GUILD'' STATUS_LOGGEDIN PROCESS_THREADUNSAFE ''HandleAddonMessagechatOpcode'',
     DefC 0x180B ''CMSG_MESSAGECHAT_ADDON_OFFICER'' STATUS_LOGGEDIN PROCESS_THREADUNSAFE ''HandleAddonMessagechatOpcode'',
     DefC 0x0EBB ''CMSG_MESSAGECHAT_ADDON_WHISPER'' STATUS_LOGGEDIN PROCESS_THREADUNSAFE ''HandleAddonMessagechatOpcode'',
     DefC 0x048A ''CMSG_CHAT_IGNORED'' STATUS_LOGGEDIN PROCESS_THREADUNSAFE ''HandleChatIgnoredOpcode'',
     DefC 0x07E9 ''CMSG_TEXT_EMOTE'' STATUS_LOGGEDIN PROCESS_THREADUNSAFE ''HandleTextEmoteOpcode'',
     DefC 0x1924 ''CMSG_EMOTE'' STATUS_LOGGEDIN PROCESS_THREADUNSAFE ''HandleEmoteOpcode'',
     DefS 0x002E ''SMSG_TEXT_EMOTE'',
     DefS 0x0987 ''SMSG_EMOTE'',
     DefS 0x0C2A ''SMSG_NOTIFICATION'',
     DefS 0x1963 ''SMSG_TRADE_STATUS'',
     DefS 0x181E ''SMSG_TRADE_STATUS_EXTENDED'',
     DefC 0x1D36 ''CMSG_TUTORIAL_FLAG'' STATUS_LOGGEDIN PROCESS_THREADUNSAFE ''HandleTutorialFlagOpcode'',
     DefC 0x0F23 ''CMSG_TUTORIAL_CLEAR'' STATUS_LOGGEDIN PROCESS_THREADUNSAFE ''HandleTutorialClearOpcode'',
     DefC 0x0307 ''CMSG_TUTORIAL_RESET'' STATUS_LOGGEDIN PROCESS_THREADUNSAFE ''HandleTutorialResetOpcode'',
     DefS 0x045A ''SMSG_INITIAL_SPELLS'',
     DefS 0x10F1 ''SMSG_SEND_UNLEARN_SPELLS'',
     DefS 0x081A ''SMSG_ACTION_BUTTONS'',
     DefS 0x0AAA ''SMSG_INITIALIZE_FACTIONS'',
     DefS 0x180A ''SMSG_ALL_ACHIEVEMENT_DATA'',
     DefS 0x0E9B ''SMSG_CRITERIA_UPDATE'',
     DefC 0x1203 ''CMSG_REQUEST_CATEGORY_COOLDOWNS'' STATUS_LOGGEDIN PROCESS_THREADUNSAFE ''HandleRequestCategoryCooldowns'',
     DefS 0x01DB ''SMSG_CATEGORY_COOLDOWN'',
     DefS 0x0E3B ''SMSG_BINDPOINTUPDATE'',
     DefS 0x1440 ''SMSG_SET_PROFICIENCY'',
     DefS 0x06AB ''SMSG_WEATHER'',
     DefC 0x0643 ''CMSG_LOGOUT_REQUEST'' STATUS_LOGGEDIN PROCESS_THREADUNSAFE ''HandleLogoutRequestOpcode'',
     DefC 0x1349 ''CMSG_LOGOUT_REQUEST_IDLE'' STATUS_LOGGEDIN PROCESS_THREADUNSAFE ''HandleLogoutRequestOpcode'',
     DefC 0x06C1 ''CMSG_LOGOUT_CANCEL'' STATUS_LOGGEDIN PROCESS_THREADUNSAFE ''HandleLogoutCancelOpcode'',
     DefS 0x008F ''SMSG_LOGOUT_RESPONSE'',
     DefS 0x0AAF ''SMSG_LOGOUT_CANCEL_ACK'',
     DefS 0x142F ''SMSG_LOGOUT_COMPLETE'',
     DefC 0x158D ''CMSG_REQUEST_HOTFIX'' STATUS_AUTHED PROCESS_INPLACE ''HandleRequestHotfix'',
     DefC 0x148E ''CMSG_JOIN_CHANNEL'' STATUS_LOGGEDIN PROCESS_THREADUNSAFE ''HandleJoinChannelOpcode'',
     DefS 0x0F06 ''SMSG_CHANNEL_NOTIFY'',
     DefS 0x0B22 ''SMSG_CHANNEL_LIST'']"

definition opcode_registrations_3 :: "opcode_registration list" where
  "opcode_registrations_3 = [
     DefC 0x0C1B ''CMSG_CHANNEL_LIST'' STATUS_LOGGEDIN PROCESS_THREADUNSAFE ''HandleChannelListOpcode'',
     DefC 0x1941 ''CMSG_CANCEL_TRADE'' STATUS_LOGGEDIN_OR_RECENTLY_LOGGEDOUT PROCESS_THREADUNSAFE ''HandleCancelTradeOpcode'',
     DefC 0x1CE3 ''CMSG_BEGIN_TRADE'' STATUS_LOGGEDIN PROCESS_THREADUNSAFE ''HandleBeginTradeOpcode'',
     DefC 0x0267 ''CMSG_INITIATE_TRADE'' STATUS_LOGGEDIN PROCESS_THREADUNSAFE ''HandleInitiateTradeOpcode'',
     DefC 0x0023 ''CMSG_UNACCEPT_TRADE'' STATUS_LOGGEDIN PROCESS_THREADUNSAFE ''HandleUnacceptTradeOpcode'',
     DefC 0x14E3 ''CMSG_SET_TRADE_GOLD'' STATUS_LOGGEDIN PROCESS_THREADUNSAFE ''HandleSetTradeGoldOpcode'',
     DefC 0x03D5 ''CMSG_SET_TRADE_ITEM'' STATUS_LOGGEDIN PROCESS_THREADUNSAFE ''HandleSetTradeItemOpcode'',
     DefC 0x00A7 ''CMSG_CLEAR_TRADE_ITEM'' STATUS_LOGGEDIN PROCESS_THREADUNSAFE ''HandleClearTradeItemOpcode'',
     DefC 0x15AB ''CMSG_UI_TIME_REQUEST'' STATUS_LOGGEDIN PROCESS_INPLACE ''HandleUITimeRequestOpcode'',
     DefC 0x1DBD ''CMSG_LOAD_SCREEN'' STATUS_AUTHED PROCESS_THREADUNSAFE ''HandleLoadScreenOpcode'',
     DefC 0x044E ''CMSG_QUERY_COUNTDOWN_TIMER'' STATUS_LOGGEDIN PROCESS_THREADUNSAFE ''HandleQueryCountdownTimerOpcode'',
     DefS 0x0027 ''SMSG_UI_TIME'',
     DefS 0x103B ''SMSG_DB_REPLY'',
     DefS 0x0E3F ''SMSG_START_TIMER'',
     DefC 0x0150 ''CMSG_MOVE_TIME_SKIPPED'' STATUS_LOGGEDIN PROCESS_THREADUNSAFE ''HandleMoveTimeSkippedOpcode'',
     DefC 0x09F0 ''CMSG_SET_ACTIVE_MOVER'' STATUS_LOGGEDIN PROCESS_THREADUNSAFE ''HandleSetActiveMoverOpcode'',
     DefC 0x0672 ''CMSG_SET_ACTIONBAR_TOGGLES'' STATUS_AUTHED PROCESS_THREADUNSAFE ''HandleSetActionBarTogglesOpcode'',
     DefC 0x0040 ''CMSG_VIOLENCE_LEVEL'' STATUS_AUTHED PROCESS_INPLACE ''HandleViolenceLevelOpcode'',
     DefC 0x15A9 ''CMSG_VOICE_SESSION_ENABLE'' STATUS_LOGGEDIN PROCESS_INPLACE ''HandleVoiceSessionEnableOpcode'',
     DefC 0x0249 ''CMSG_SETSHEATHED'' STATUS_LOGGEDIN PROCESS_THREADUNSAFE ''HandleSetSheathedOpcode'',
     DefC 0x0740 ''CMSG_SET_SELECTION'' STATUS_LOGGEDIN PROCESS_THREADUNSAFE ''HandleSetSelectionOpcode'',
     DefC 0x03E6 ''CMSG_STANDSTATECHANGE'' STATUS_LOGGEDIN PROCESS_THREADUNSAFE ''HandleStandStateChangeOpcode'',
     DefC 0x1061 ''CMSG_OBJECT_UPDATE_FAILED'' STATUS_LOGGEDIN PROCESS_THREADUNSAFE ''HandleObjectUpdateFailedOpcode'',
     DefS 0x1C12 ''SMSG_STANDSTATE_UPDATE'',
     DefC 0x02E7 ''CMSG_ATTACKSWING'' STATUS_LOGGEDIN PROCESS_THREADUNSAFE ''HandleAttackSwingOpcode'',
     DefC 0x025B ''CMSG_PET_ACTION'' STATUS_LOGGEDIN PROCESS_THREADUNSAFE ''HandlePetAction'',
     DefC 0x065B ''CMSG_PET_STOP_ATTACK'' STATUS_LOGGEDIN PROCESS_THREADUNSAFE ''HandlePetStopAttack'',
     DefC 0x12E9 ''CMSG_PET_SET_ACTION'' STATUS_LOGGEDIN PROCESS_THREADUNSAFE ''HandlePetSetAction'',
     DefC 0x1C62 ''CMSG_PET_NAME_QUERY'' STATUS_LOGGEDIN PROCESS_THREADUNSAFE ''HandlePetNameQueryOpcode'',
     DefS 0x0ABE ''SMSG_PET_NAME_QUERY_RESPONSE'',
     DefS 0x178D ''SMSG_MOVE_SET_CAN_FLY'',
     DefS 0x0162 ''SMSG_MOVE_UNSET_CAN_FLY'',
     DefS 0x1046 ''SMSG_SPLINE_MOVE_SET_FLYING'',
     DefS 0x0DE2 ''SMSG_SPLINE_MOVE_UNSET_FLYING'',
     DefC 0x0345 ''CMSG_ATTACKSTOP'' STATUS_LOGGEDIN PROCESS_THREADUNSAFE ''HandleAttackStopOpcode'',
     DefS 0x1A9E ''SMSG_ATTACKSTART'',
     DefS 0x12AF ''SMSG_ATTACKSTOP'',
     DefS 0x06AA ''SMSG_ATTACKERSTATEUPDATE'',
     DefS 0x048A ''SMSG_PARTYKILLLOG'',
     DefS 0x001A ''SMSG_DUEL_OUTOFBOUNDS'',
     DefS 0x163A ''SMSG_DUEL_INBOUNDS'',
     DefS 0x1C0A ''SMSG_DUEL_COMPLETE'',
     DefS 0x129F ''SMSG_DUEL_COUNTDOWN'',
     DefS 0x0022 ''SMSG_DUEL_REQUESTED'',
     DefS 0x10E1 ''SMSG_DUEL_WINNER'',
     DefS 0x0E12 ''SMSG_START_MIRROR_TIMER'',
     DefS 0x1026 ''SMSG_STOP_MIRROR_TIMER'',
     DefS 0x10F9 ''SMSG_CHANNEL_START'',
     DefS 0x11D9 ''SMSG_CHANNEL_UPDATE'',
     DefS 0x15E3 ''SMSG_RESYNC_RUNES'',
     DefS 0x1860 ''SMSG_ADD_RUNE_POWER'',
     DefS 0x1A1B ''SMSG_CONVERT_RUNE'',
     DefS 0x0632 ''SMSG_THREAT_UPDATE'',
     DefS 0x14AE ''SMSG_HIGHEST_THREAT_UPDATE'',
     DefS 0x180B ''SMSG_THREAT_CLEAR'',
     DefS 0x1960 ''SMSG_THREAT_REMOVE'',
     DefS 0x0E3A ''SMSG_DISMOUNT'',
     DefS 0x19C0 ''SMSG_PRE_RESURRECT'',
     DefS 0x082F ''SMSG_UPDATE_COMBO_POINTS'',
     DefS 0x080B ''SMSG_ACHIEVEMENT_EARNED'',
     DefS 0x0007 ''SMSG_SHOW_BANK'',
     DefS 0x1F13 ''SMSG_SHOW_MAILBOX'',
     DefS 0x0302 ''SMSG_SERVER_MESSAGE'',
     DefS 0x182B ''SMSG_RECEIVED_MAIL'',
     DefS 0x000B ''SMSG_GM_TICKET_STATUS_UPDATE'',
     DefS 0x11E0 ''SMSG_CALENDAR_RAID_LOCKOUT_REMOVED'',
     DefS 0x0E8B ''SMSG_CANCEL_COMBAT'',
     DefS 0x1E0F ''SMSG_CANCEL_AUTO_REPEAT'',
     DefS 0x06AF ''SMSG_AI_REACTION'',
     DefS 0x109F ''SMSG_POWER_UPDATE'']"

definition opcode_registrations_4 :: "opcode_registration list" where
  "opcode_registrations_4 = [
     DefS 0x102A ''SMSG_PLAY_SOUND'',
     DefS 0x1443 ''SMSG_PLAY_OBJECT_SOUND'',
     DefS 0x0023 ''SMSG_PLAY_MUSIC'',
     DefS 0x15E2 ''SMSG_PET_ACTION_SOUND'',
     DefS 0x080E ''SMSG_PET_ACTION_FEEDBACK'',
     DefS 0x163F ''SMSG_PET_MODE'',
     DefS 0x095A ''SMSG_PET_SPELLS'',
     DefC 0x036A ''CMSG_QUESTGIVER_STATUS_QUERY'' STATUS_LOGGEDIN PROCESS_THREADUNSAFE ''HandleQuestgiverStatusQueryOpcode'',
     DefS 0x1275 ''SMSG_QUESTGIVER_STATUS'',
     DefC 0x12F3 ''CMSG_GOSSIP_HELLO'' STATUS_LOGGEDIN PROCESS_THREADUNSAFE ''HandleGossipHelloOpcode'',
     DefS 0x0244 ''SMSG_GOSSIP_MESSAGE'',
     DefC 0x0748 ''CMSG_GOSSIP_SELECT_OPTION'' STATUS_LOGGEDIN PROCESS_THREADUNSAFE ''HandleGossipSelectOptionOpcode'',
     DefS 0x0785 ''SMSG_GOSSIP_POI'',
     DefC 0x02D8 ''CMSG_LIST_INVENTORY'' STATUS_LOGGEDIN PROCESS_THREADUNSAFE ''HandleListInventoryOpcode'',
     DefS 0x1AAE ''SMSG_LIST_INVENTORY'',
     DefC 0x1358 ''CMSG_SELL_ITEM'' STATUS_LOGGEDIN PROCESS_THREADUNSAFE ''HandleSellItemOpcode'',
     DefC 0x0661 ''CMSG_BUYBACK_ITEM'' STATUS_LOGGEDIN PROCESS_THREADUNSAFE ''HandleBuybackItem'',
     DefS 0x048E ''SMSG_SELL_ITEM'',
     DefC 0x02E2 ''CMSG_BUY_ITEM'' STATUS_LOGGEDIN PROCESS_THREADUNSAFE ''HandleBuyItemOpcode'',
     DefS 0x101A ''SMSG_BUY_ITEM'',
     DefS 0x1563 ''SMSG_BUY_FAILED'',
     DefS 0x0E0A ''SMSG_ITEM_PUSH_RESULT'',
     DefC 0x02E1 ''CMSG_TAXINODE_STATUS_QUERY'' STATUS_LOGGEDIN PROCESS_THREADUNSAFE ''HandleTaxiNodeStatusQueryOpcode'',
     DefS 0x169E ''SMSG_TAXINODE_STATUS'',
     DefC 0x02E3 ''CMSG_TAXIQUERYAVAILABLENODES'' STATUS_LOGGEDIN PROCESS_THREADUNSAFE ''HandleTaxiQueryAvailableNodes'',
     DefS 0x1E1A ''SMSG_SHOWTAXINODES'',
     DefS 0x141B ''SMSG_NEW_TAXI_PATH'',
     DefC 0x03C9 ''CMSG_ACTIVATETAXI'' STATUS_LOGGEDIN PROCESS_THREADUNSAFE ''HandleActivateTaxiOpcode'',
     DefC 0x06FB ''CMSG_ACTIVATETAXIEXPRESS'' STATUS_LOGGEDIN PROCESS_THREADUNSAFE ''HandleActivateTaxiExpressOpcode'',
     DefC 0x11D9 ''CMSG_MOVE_SPLINE_DONE'' STATUS_LOGGEDIN PROCESS_THREADUNSAFE ''HandleMoveSplineDoneOpcode'',
     DefS 0x02A7 ''SMSG_ACTIVATETAXIREPLY'',
     DefC 0x03DF ''CMSG_SWAP_INV_ITEM'' STATUS_LOGGEDIN PROCESS_THREADUNSAFE ''HandleSwapInvItemOpcode'',
     DefC 0x035D ''CMSG_SWAP_ITEM'' STATUS_LOGGEDIN PROCESS_THREADUNSAFE ''HandleSwapItem'',
     DefC 0x025F ''CMSG_AUTOEQUIP_ITEM'' STATUS_LOGGEDIN PROCESS_THREADUNSAFE ''HandleAutoEquipItemOpcode'',
     DefC 0x067C ''CMSG_AUTOSTORE_BAG_ITEM'' STATUS_LOGGEDIN PROCESS_THREADUNSAFE ''HandleAutoStoreBagItemOpcode'',
     DefC 0x02EC ''CMSG_SPLIT_ITEM'' STATUS_LOGGEDIN PROCESS_THREADUNSAFE ''HandleSplitItemOpcode'',
     DefC 0x0026 ''CMSG_DESTROY_ITEM'' STATUS_LOGGEDIN PROCESS_THREADUNSAFE ''HandleDestroyItemOpcode'',
     DefS 0x0C1E ''SMSG_INVENTORY_CHANGE_FAILURE'',
     DefC 0x1CE2 ''CMSG_LOOT'' STATUS_LOGGEDIN PROCESS_THREADUNSAFE ''HandleLootOpcode'',
     DefC 0x0354 ''CMSG_AUTOSTORE_LOOT_ITEM'' STATUS_LOGGEDIN PROCESS_THREADUNSAFE ''HandleAutostoreLootItemOpcode'',
     DefC 0x02F6 ''CMSG_LOOT_MONEY'' STATUS_LOGGEDIN PROCESS_THREADUNSAFE ''HandleLootMoneyOpcode'',
     DefC 0x0840 ''CMSG_LOOT_RELEASE'' STATUS_LOGGEDIN PROCESS_THREADUNSAFE ''HandleLootReleaseOpcode'',
     DefS 0x128A ''SMSG_LOOT_RESPONSE'',
     DefS 0x123F ''SMSG_LOOT_RELEASE_RESPONSE'',
     DefS 0x0C3E ''SMSG_LOOT_REMOVED'',
     DefS 0x14C0 ''SMSG_LOOT_MONEY_NOTIFY'',
     DefS 0x1632 ''SMSG_LOOT_CLEAR_MONEY'',
     DefC 0x15C2 ''CMSG_LOOT_ROLL'' STATUS_LOGGEDIN PROCESS_THREADUNSAFE ''HandleLootRoll'',
     DefS 0x0EAA ''SMSG_LOOT_START_ROLL'',
     DefS 0x1840 ''SMSG_LOOT_ROLL'',
     DefS 0x0A3A ''SMSG_LOOT_ROLL_WON'',
     DefS 0x0EBB ''SMSG_LOOT_ALL_PASSED'',
     DefC 0x06D8 ''CMSG_GAMEOBJ_USE'' STATUS_LOGGEDIN PROCESS_THREADUNSAFE ''HandleGameObjectUseOpcode'',
     DefC 0x06D9 ''CMSG_GAMEOBJ_REPORT_USE'' STATUS_LOGGEDIN PROCESS_THREADUNSAFE ''HandleGameobjectReportUse'',
     DefS 0x001F ''SMSG_GAMEOBJECT_CUSTOM_ANIM'',
     DefS 0x108B ''SMSG_GAMEOBJECT_DESPAWN_ANIM'',
     DefS 0x14AF ''SMSG_GAMEOBJECT_PAGETEXT'',
     DefS 0x1222 ''SMSG_ENABLE_BARBER_SHOP'',
     DefC 0x07F0 ''CMSG_ALTER_APPEARANCE'' STATUS_LOGGEDIN PROCESS_THREADUNSAFE ''HandleAlterAppearanceOpcode'',
     DefS 0x0C3F ''SMSG_BARBER_SHOP_RESULT'',
     DefS 0x0227 ''SMSG_FISH_ESCAPED'',
     DefS 0x10BE ''SMSG_FISH_NOT_HOOKED'',
     DefC 0x1C44 ''CMSG_AREATRIGGER'' STATUS_LOGGEDIN PROCESS_THREADUNSAFE ''HandleAreaTriggerOpcode'',
     DefS 0x089E ''SMSG_AREA_TRIGGER_NO_CORPSE'',
     DefS 0x189A ''SMSG_EXPLORATION_EXPERIENCE'',
     DefS 0x1E9A ''SMSG_LOG_XPGAIN'',
     DefS 0x1961 ''SMSG_LEVELUP_INFO'',
     DefC 0x02F1 ''CMSG_QUESTGIVER_STATUS_MULTIPLE_QUERY'' STATUS_LOGGEDIN PROCESS_THREADUNSAFE ''HandleQuestgiverStatusMultipleQuery'',
     DefS 0x06CE ''SMSG_QUESTGIVER_STATUS_MULTIPLE'',
     DefC 0x02DB ''CMSG_QUESTGIVER_HELLO'' STATUS_LOGGEDIN PROCESS_THREADUNSAFE ''HandleQuestgiverHelloOpcode'',
     DefS 0x02D4 ''SMSG_QUESTGIVER_QUEST_LIST'',
     DefC 0x12F0 ''CMSG_QUESTGIVER_QUERY_QUEST'' STATUS_LOGGEDIN PROCESS_THREADUNSAFE ''HandleQuestgiverQueryQuestOpcode'',
     DefS 0x134C ''SMSG_QUESTGIVER_QUEST_DETAILS'',
     DefC 0x06D1 ''CMSG_QUESTGIVER_ACCEPT_QUEST'' STATUS_LOGGEDIN PROCESS_THREADUNSAFE ''HandleQuestgiverAcceptQuestOpcode'',
     DefS 0x034E ''SMSG_GOSSIP_COMPLETE'',
     DefS 0x027D ''SMSG_QUESTGIVER_QUEST_INVALID'',
     DefS 0x12DE ''SMSG_QUESTGIVER_QUEST_FAILED'',
     DefS 0x07FD ''SMSG_QUESTLOG_FULL'',
     DefS 0x06FF ''SMSG_QUESTUPDATE_FAILEDTIMER'',
     DefS 0x1645 ''SMSG_QUESTUPDATE_ADD_KILL'',
     DefC 0x0779 ''CMSG_QUESTLOG_REMOVE_QUEST'' STATUS_LOGGEDIN PROCESS_THREADUNSAFE ''HandleQuestLogRemoveQuest'',
     DefC 0x10C2 ''CMSG_QUEST_POI_QUERY'' STATUS_LOGGEDIN PROCESS_THREADUNSAFE ''HandleQuestPOIQueryOpcode'',
     DefC 0x1DAE ''CMSG_QUEST_NPC_QUERY'' STATUS_LOGGEDIN PROCESS_THREADUNSAFE ''HandleQuestNpcQueryOpcode'',
     DefS 0x067F ''SMSG_QUEST_POI_QUERY_RESPONSE'',
     DefS 0x036D ''SMSG_QUEST_NPC_QUERY_RESPONSE'',
     DefC 0x0659 ''CMSG_QUESTGIVER_COMPLETE_QUEST'' STATUS_LOGGEDIN PROCESS_THREADUNSAFE ''HandleQuestgiverCompleteQuest'',
     DefS 0x0277 ''SMSG_QUESTGIVER_REQUEST_ITEMS'',
     DefC 0x0378 ''CMSG_QUESTGIVER_REQUEST_REWARD'' STATUS_LOGGEDIN PROCESS_THREADUNSAFE ''HandleQuestgiverRequestRewardOpcode'',
     DefS 0x074F ''SMSG_QUESTGIVER_OFFER_REWARD'',
     DefC 0x07CB ''CMSG_QUESTGIVER_CHOOSE_REWARD'' STATUS_LOGGEDIN PROCESS_THREADUNSAFE ''HandleQuestgiverChooseRewardOpcode'',
     DefS 0x0346 ''SMSG_QUESTGIVER_QUEST_COMPLETE'']"

definition opcode_registrations_5 :: "opcode_registration list" where
  "opcode_registrations_5 = [
     DefS 0x0776 ''SMSG_QUESTUPDATE_COMPLETE'',
     DefC 0x02D5 ''CMSG_QUEST_QUERY'' STATUS_LOGGEDIN PROCESS_THREADUNSAFE ''HandleQuestQueryOpcode'',
     DefS 0x0276 ''SMSG_QUEST_QUERY_RESPONSE'',
     DefC 0x0287 ''CMSG_NPC_TEXT_QUERY'' STATUS_LOGGEDIN PROCESS_THREADUNSAFE ''HandleNpcTextQueryOpcode'',
     DefS 0x140A ''SMSG_NPC_TEXT_UPDATE'',
     DefC 0x08A2 ''CMSG_LFG_SET_ROLES'' STATUS_LOGGEDIN PROCESS_THREADUNSAFE ''HandleLfgSetRolesOpcode'',
     DefC 0x1D9D ''CMSG_LFG_PROPOSAL_RESPONSE'' STATUS_LOGGEDIN PROCESS_THREADUNSAFE ''HandleLfgProposalResponseOpcode'',
     DefC 0x032D ''CMSG_LFG_GET_STATUS'' STATUS_LOGGEDIN PROCESS_THREADUNSAFE ''HandleLfgGetStatusOpcode'',
     DefC 0x1AA2 ''CMSG_LFG_LFR_JOIN'' STATUS_LOGGEDIN PROCESS_THREADUNSAFE ''HandleLfrJoinOpcode'',
     DefC 0x00E3 ''CMSG_LFG_LFR_LEAVE'' STATUS_LOGGEDIN PROCESS_THREADUNSAFE ''HandleLfrLeaveOpcode'',
     DefS 0x1161 ''SMSG_LFG_UPDATE_SEARCH'',
     DefC 0x006B ''CMSG_LFG_LOCK_INFO_REQUEST'' STATUS_LOGGEDIN PROCESS_THREADUNSAFE ''HandleLfgLockInfoRequestOpcode'',
     DefS 0x1861 ''SMSG_LFG_PLAYER_INFO'',
     DefS 0x168E ''SMSG_LFG_PARTY_INFO'',
     DefC 0x0A87 ''CMSG_REQUEST_RAID_INFO'' STATUS_LOGGEDIN PROCESS_THREADUNSAFE ''HandleRequestRaidInfoOpcode'',
     DefS 0x16BF ''SMSG_RAID_INSTANCE_INFO'',
     DefC 0x0842 ''CMSG_CREATURE_QUERY'' STATUS_LOGGEDIN PROCESS_INPLACE ''HandleCreatureQueryOpcode'',
     DefS 0x048B ''SMSG_CREATURE_QUERY_RESPONSE'',
     DefC 0x1461 ''CMSG_GAMEOBJECT_QUERY'' STATUS_LOGGEDIN PROCESS_INPLACE ''HandleGameObjectQueryOpcode'',
     DefS 0x06BF ''SMSG_GAMEOBJECT_QUERY_RESPONSE'',
     DefC 0x1022 ''CMSG_PAGE_TEXT_QUERY'' STATUS_LOGGEDIN PROCESS_THREADUNSAFE ''HandlePageTextQueryOpcode'',
     DefS 0x081E ''SMSG_PAGE_TEXT_QUERY_RESPONSE'',
     DefC 0x0123 ''CMSG_ITEM_TEXT_QUERY'' STATUS_LOGGEDIN PROCESS_THREADUNSAFE ''HandleItemTextQuery'',
     DefS 0x1134 ''SMSG_ITEM_TEXT_QUERY_RESPONSE'',
     DefC 0x1FBE ''CMSG_CORPSE_QUERY'' STATUS_LOGGEDIN PROCESS_THREADUNSAFE ''HandleCorpseQueryOpcode'',
     DefS 0x0E0B ''SMSG_CORPSE_QUERY_RESPONSE'',
     DefC 0x134A ''CMSG_REPOP_REQUEST'' STATUS_LOGGEDIN PROCESS_THREADUNSAFE ''HandleRepopRequestOpcode'',
     DefC 0x12EA ''CMSG_RETURN_TO_GRAVEYARD'' STATUS_LOGGEDIN PROCESS_THREADUNSAFE ''HandleReturnToGraveyard'',
     DefC 0x03D3 ''CMSG_RECLAIM_CORPSE'' STATUS_LOGGEDIN PROCESS_THREADUNSAFE ''HandleReclaimCorpseOpcode'',
     DefS 0x1062 ''SMSG_RESURRECT_REQUEST'',
     DefC 0x0B0C ''CMSG_RESURRECT_RESPONSE'' STATUS_LOGGEDIN PROCESS_THREADUNSAFE ''HandleResurrectResponseOpcode'',
     DefS 0x1EAA ''SMSG_SPIRIT_HEALER_CONFIRM'',
     DefC 0x0340 ''CMSG_SPIRIT_HEALER_ACTIVATE'' STATUS_LOGGEDIN PROCESS_THREADUNSAFE ''HandleSpiritHealerActivateOpcode'',
     DefC 0x0360 ''CMSG_SELF_RES'' STATUS_LOGGEDIN PROCESS_THREADUNSAFE ''HandleSelfResOpcode'',
     DefC 0x0A16 ''CMSG_CORPSE_MAP_POSITION_QUERY'' STATUS_LOGGEDIN PROCESS_THREADUNSAFE ''HandleCorpseMapPositionQueryOpcode'',
     DefS 0x1A3A ''SMSG_CORPSE_MAP_POSITION_QUERY_RESPONSE'',
     DefS 0x1063 ''SMSG_DEATH_RELEASE_LOC'',
     DefS 0x1E3E ''SMSG_DURABILITY_DAMAGE_DEATH'',
     DefC 0x06E4 ''CMSG_REQUEST_CEMETERY_LIST'' STATUS_LOGGEDIN PROCESS_THREADUNSAFE ''HandleRequestCemeteryListOpcode'',
     DefS 0x042A ''SMSG_REQUEST_CEMETERY_LIST_RESPONSE'',
     DefC 0x03D2 ''CMSG_PUSHQUESTTOPARTY'' STATUS_LOGGEDIN PROCESS_THREADUNSAFE ''HandlePushQuestToParty'',
     DefC 0x124B ''CMSG_QUEST_CONFIRM_ACCEPT'' STATUS_LOGGEDIN PROCESS_THREADUNSAFE ''HandleQuestConfirmAccept'',
     DefC 0x1370 ''CMSG_QUEST_PUSH_RESULT'' STATUS_LOGGEDIN PROCESS_THREADUNSAFE ''HandleQuestPushResult'',
     DefS 0x13C7 ''SMSG_QUEST_CONFIRM_ACCEPT'',
     DefS 0x074D ''SMSG_QUEST_PUSH_RESULT'',
     DefS 0x0A8B ''SMSG_INITIAL_SETUP'',
     DefS 0x0354 ''SMSG_SET_QUEST_COMPLETED_BIT'',
     DefS 0x03EC ''SMSG_CLEAR_QUEST_COMPLETED_BIT'',
     DefS 0x0364 ''SMSG_CLEAR_QUEST_COMPLETED_BITS'',
     DefC 0x0328 ''CMSG_NAME_QUERY'' STATUS_LOGGEDIN PROCESS_THREADUNSAFE ''HandleNameQueryOpcode'',
     DefS 0x169B ''SMSG_NAME_QUERY_RESPONSE'',
     DefC 0x18A3 ''CMSG_WHO'' STATUS_LOGGEDIN PROCESS_THREADUNSAFE ''HandleWhoOpcode'',
     DefS 0x161B ''SMSG_WHO'',
     DefC 0x1A16 ''CMSG_REALM_NAME_QUERY'' STATUS_LOGGEDIN PROCESS_THREADUNSAFE ''HandleRealmNameQueryOpcode'',
     DefS 0x063E ''SMSG_REALM_NAME_QUERY_RESPONSE'',
     DefC 0x0640 ''CMSG_QUERY_TIME'' STATUS_LOGGEDIN PROCESS_THREADUNSAFE ''HandleQueryTimeOpcode'',
     DefS 0x100F ''SMSG_QUERY_TIME_RESPONSE'',
     DefC 0x03F6 ''CMSG_PLAYED_TIME'' STATUS_LOGGEDIN PROCESS_THREADUNSAFE ''HandlePlayedTime'',
     DefS 0x11E2 ''SMSG_PLAYED_TIME'']"

definition opcode_registrations_6 :: "opcode_registration list" where
  "opcode_registrations_6 = [
     DefC 0x0078 ''CMSG_MOVE_TELEPORT_ACK'' STATUS_LOGGEDIN PROCESS_THREADUNSAFE ''HandleMoveTeleportAckOpcode'',
     DefC 0x1FAD ''MSG_MOVE_WORLDPORT_ACK'' STATUS_TRANSFER PROCESS_THREADUNSAFE ''HandleMoveWorldportAckOpcode'',
     DefC 0x01F2 ''MSG_MOVE_HEARTBEAT'' STATUS_LOGGEDIN PROCESS_THREADUNSAFE ''HandleMovementOpcodes'',
     DefC 0x095A ''CMSG_MOVE_START_FORWARD'' STATUS_LOGGEDIN PROCESS_THREADUNSAFE ''HandleMovementOpcodes'',
     DefC 0x09D8 ''CMSG_MOVE_START_BACKWARD'' STATUS_LOGGEDIN PROCESS_THREADUNSAFE ''HandleMovementOpcodes'',
     DefC 0x08F1 ''CMSG_MOVE_STOP'' STATUS_LOGGEDIN PROCESS_THREADUNSAFE ''HandleMovementOpcodes'',
     DefC 0x1050 ''CMSG_MOVE_SET_FACING'' STATUS_LOGGEDIN PROCESS_THREADUNSAFE ''HandleMovementOpcodes'',
     DefC 0x08FA ''CMSG_MOVE_FALL_LAND'' STATUS_LOGGEDIN PROCESS_THREADUNSAFE ''HandleMovementOpcodes'',
     DefC 0x01F8 ''CMSG_MOVE_START_STRAFE_LEFT'' STATUS_LOGGEDIN PROCESS_THREADUNSAFE ''HandleMovementOpcodes'',
     DefC 0x1058 ''CMSG_MOVE_START_STRAFE_RIGHT'' STATUS_LOGGEDIN PROCESS_THREADUNSAFE ''HandleMovementOpcodes'',
     DefC 0x0171 ''CMSG_MOVE_STOP_STRAFE'' STATUS_LOGGEDIN PROCESS_THREADUNSAFE ''HandleMovementOpcodes'',
     DefC 0x1153 ''CMSG_MOVE_JUMP'' STATUS_LOGGEDIN PROCESS_THREADUNSAFE ''HandleMovementOpcodes'',
     DefC 0x01D0 ''CMSG_MOVE_START_TURN_LEFT'' STATUS_LOGGEDIN PROCESS_THREADUNSAFE ''HandleMovementOpcodes'',
     DefC 0x107B ''CMSG_MOVE_START_TURN_RIGHT'' STATUS_LOGGEDIN PROCESS_THREADUNSAFE ''HandleMovementOpcodes'',
     DefC 0x1170 ''CMSG_MOVE_STOP_TURN'' STATUS_LOGGEDIN PROCESS_THREADUNSAFE ''HandleMovementOpcodes'',
     DefC 0x09DB ''CMSG_MOVE_CHNG_TRANSPORT'' STATUS_LOGGEDIN PROCESS_THREADUNSAFE ''HandleMovementOpcodes'',
     DefC 0x01F1 ''CMSG_MOVE_SET_FLY'' STATUS_LOGGEDIN PROCESS_THREADUNSAFE ''HandleMovementOpcodes'',
     DefC 0x11FA ''CMSG_MOVE_START_ASCEND'' STATUS_LOGGEDIN PROCESS_THREADUNSAFE ''HandleMovementOpcodes'',
     DefC 0x115A ''CMSG_MOVE_STOP_ASCEND'' STATUS_LOGGEDIN PROCESS_THREADUNSAFE ''HandleMovementOpcodes'',
     DefC 0x01D1 ''CMSG_MOVE_START_DESCEND'' STATUS_LOGGEDIN PROCESS_THREADUNSAFE ''HandleMovementOpcodes'',
     DefS 0x0562 ''SMSG_MOVE_KNOCK_BACK'',
     DefC 0x00F2 ''CMSG_MOVE_KNOCK_BACK_ACK'' STATUS_LOGGEDIN PROCESS_THREADUNSAFE ''HandleMoveKnockBackAck'',
     DefS 0x0251 ''SMSG_MOVE_UPDATE_KNOCK_BACK'',
     DefC 0x1853 ''CMSG_FORCE_SWIM_SPEED_CHANGE_ACK'' STATUS_LOGGEDIN PROCESS_THREADUNSAFE ''HandleForceSpeedChangeAckOpcodes'',
     DefC 0x107A ''CMSG_FORCE_MOVE_ROOT_ACK'' STATUS_LOGGEDIN_OR_TRANSFER PROCESS_THREADUNSAFE ''HandleMoveRootAck'',
     DefC 0x1051 ''CMSG_FORCE_MOVE_UNROOT_ACK'' STATUS_LOGGEDIN PROCESS_THREADUNSAFE ''HandleMoveUnRootAck'',
     DefC 0x10F2 ''CMSG_MOVE_WATER_WALK_ACK'' STATUS_LOGGEDIN PROCESS_THREADUNSAFE ''HandleMoveWaterWalkAck'',
     DefS 0x15AE ''SMSG_FORCE_MOVE_ROOT'',
     DefS 0x1FAE ''SMSG_FORCE_MOVE_UNROOT'',
     DefS 0x1F9A ''SMSG_MOVE_WATER_WALK'',
     DefS 0x086A ''SMSG_MOVE_LAND_WALK'',
     DefS 0x1A32 ''SMSG_PLAYER_MOVE'',
     DefS 0x1A07 ''SMSG_MONSTER_MOVE'',
     DefS 0x0B08 ''SMSG_SPLINE_MOVE_SET_NORMAL_FALL'',
     DefS 0x0B18 ''SMSG_SPLINE_MOVE_SET_RUN_MODE'',
     DefS 0x1865 ''SMSG_SPLINE_MOVE_SET_WALK_MODE'',
     DefS 0x1823 ''SMSG_SPLINE_MOVE_SET_WATER_WALK'',
     DefS 0x159F ''SMSG_MOVE_GRAVITY_DISABLE'',
     DefS 0x0A27 ''SMSG_MOVE_GRAVITY_ENABLE'',
     DefS 0x0845 ''SMSG_SPLINE_MOVE_GRAVITY_DISABLE'',
     DefS 0x0865 ''SMSG_SPLINE_MOVE_GRAVITY_ENABLE'',
     DefS 0x1893 ''SMSG_SPLINE_MOVE_SET_FEATHER_FALL'',
     DefS 0x18B6 ''SMSG_SPLINE_MOVE_SET_LAND_WALK'',
     DefC 0x0206 ''CMSG_CAST_SPELL'' STATUS_LOGGEDIN PROCESS_THREADUNSAFE ''HandleCastSpellOpcode'',
     DefC 0x1CC1 ''CMSG_USE_ITEM'' STATUS_LOGGEDIN PROCESS_THREADUNSAFE ''HandleUseItemOpcode'',
     DefC 0x1861 ''CMSG_CANCEL_AURA'' STATUS_LOGGEDIN PROCESS_THREADUNSAFE ''HandleCancelAuraOpcode'',
     DefS 0x143A ''SMSG_CAST_FAILED'',
     DefS 0x149B ''SMSG_PET_CAST_FAILED'',
     DefS 0x107A ''SMSG_SPELL_START'',
     DefS 0x09D8 ''SMSG_SPELL_GO'',
     DefS 0x0452 ''SMSG_SPELL_COOLDOWN'',
     DefS 0x1458 ''SMSG_CLEAR_COOLDOWNS'',
     DefS 0x1163 ''SMSG_COOLDOWN_EVENT'',
     DefS 0x1904 ''SMSG_ITEM_COOLDOWN'',
     DefS 0x1061 ''SMSG_CLEAR_TARGET'',
     DefS 0x129A ''SMSG_LEARNED_SPELL'',
     DefS 0x14C3 ''SMSG_REMOVED_SPELL'',
     DefS 0x1943 ''SMSG_SUPERCEDED_SPELL'',
     DefS 0x0282 ''SMSG_PET_LEARNED_SPELL'',
     DefS 0x1CAE ''SMSG_PET_REMOVED_SPELL'',
     DefC 0x0869 ''CMSG_GUILD_INVITE'' STATUS_LOGGEDIN PROCESS_THREADUNSAFE ''HandleGuildInviteOpcode'',
     DefS 0x0B68 ''SMSG_GUILD_EVENT_MOTD'',
     DefS 0x0B69 ''SMSG_GUILD_EVENT_PLAYER_JOINED'',
     DefS 0x0B70 ''SMSG_GUILD_EVENT_PRESENCE_CHANGE'',
     DefS 0x0BF8 ''SMSG_GUILD_EVENT_PLAYER_LEFT'',
     DefS 0x0A60 ''SMSG_GUILD_RANKS_UPDATE'',
     DefS 0x0E69 ''SMSG_GUILD_EVENT_NEW_LEADER'',
     DefS 0x1E68 ''SMSG_GUILD_EVENT_DISBANDED'',
     DefS 0x0EF1 ''SMSG_GUILD_COMMAND_RESULT'',
     DefC 0x1AB6 ''CMSG_GUILD_QUERY'' STATUS_LOGGEDIN PROCESS_THREADUNSAFE ''HandleGuildQueryOpcode'',
     DefS 0x1B79 ''SMSG_GUILD_QUERY_RESPONSE'',
     DefC 0x145A ''CMSG_GUILD_PERMISSIONS'' STATUS_LOGGEDIN PROCESS_THREADUNSAFE ''HandleGuildPermissions'',
     DefS 0x0FF9 ''SMSG_GUILD_PERMISSIONS'',
     DefC 0x0D50 ''CMSG_GUILD_QUERY_RANKS'' STATUS_LOGGEDIN PROCESS_THREADUNSAFE ''HandleGuildQueryRanksOpcode'',
     DefS 0x0A79 ''SMSG_GUILD_QUERY_RANKS_RESULT'']"

definition opcode_registrations_7 :: "opcode_registration list" where
  "opcode_registrations_7 = [
     DefC 0x0CF0 ''CMSG_GUILD_SET_ACHIEVEMENT_TRACKING'' STATUS_LOGGEDIN PROCESS_THREADUNSAFE ''HandleGuildSetAchievementTracking'',
     DefC 0x1459 ''CMSG_GUILD_ROSTER'' STATUS_LOGGEDIN PROCESS_THREADUNSAFE ''HandleGuildRosterOpcode'',
     DefS 0x0BE0 ''SMSG_GUILD_ROSTER'',
     DefC 0x14DB ''CMSG_GUILD_BANK_MONEY_WITHDRAWN'' STATUS_LOGGEDIN PROCESS_THREADUNSAFE ''HandleGuildBankMoneyWithdrawn'',
     DefS 0x0B78 ''SMSG_GUILD_BANK_MONEY_WITHDRAWN'',
     DefC 0x11C3 ''CMSG_TABARD_VENDOR_ACTIVATE'' STATUS_LOGGEDIN PROCESS_THREADUNSAFE ''HandleTabardVendorActivateOpcode'',
     DefS 0x0A3E ''SMSG_TABARD_VENDOR_ACTIVATE'',
     DefC 0x1D60 ''CMSG_SAVE_GUILD_EMBLEM'' STATUS_LOGGEDIN PROCESS_THREADUNSAFE ''HandleSaveGuildEmblemOpcode'',
     DefS 0x089F ''SMSG_SAVE_GUILD_EMBLEM'',
     DefC 0x1248 ''CMSG_BINDER_ACTIVATE'' STATUS_LOGGEDIN PROCESS_THREADUNSAFE ''HandleBinderActivateOpcode'',
     DefS 0x1287 ''SMSG_BINDER_CONFIRM'',
     DefS 0x088E ''SMSG_PLAYERBOUND'',
     DefS 0x183A ''SMSG_LFG_BOOT_PLAYER'',
     DefS 0x0C2E ''SMSG_LFG_UPDATE_STATUS'',
     DefS 0x1006 ''SMSG_LFG_QUEUE_STATUS'',
     DefS 0x18E3 ''SMSG_LFG_JOIN_RESULT'',
     DefS 0x1EAB ''SMSG_LFG_OFFER_CONTINUE'',
     DefS 0x1E3B ''SMSG_LFG_PROPOSAL_UPDATE'',
     DefS 0x12BB ''SMSG_LFG_ROLE_CHECK_UPDATE'',
     DefS 0x063B ''SMSG_LFG_TELEPORT_DENIED'',
     DefC 0x1AA6 ''CMSG_LFG_TELEPORT'' STATUS_LOGGEDIN PROCESS_THREADUNSAFE ''HandleLfgTeleportOpcode'',
     DefC 0x17BE ''CMSG_LFG_BOOT_PLAYER_VOTE'' STATUS_LOGGEDIN PROCESS_THREADUNSAFE ''HandleLfgBootPlayerVoteOpcode'',
     DefS 0x1A1F ''SMSG_ROLE_CHOSEN'',
     DefS 0x121A ''SMSG_LFG_PLAYER_REWARD'',
     DefC 0x0275 ''CMSG_CONFIRM_RESPEC_WIPE'' STATUS_LOGGEDIN PROCESS_THREADUNSAFE ''HandleTalentWipeConfirmOpcode'',
     DefS 0x02AB ''SMSG_RESPEC_WIPE_CONFIRM'',
     DefC 0x0806 ''CMSG_REQUEST_PARTY_MEMBER_STATS'' STATUS_LOGGEDIN PROCESS_THREADUNSAFE ''HandleRequestPartyMemberStatsOpcode'',
     DefS 0x0A9A ''SMSG_PARTY_MEMBER_STATS'',
     DefC 0x178A ''CMSG_GROUP_REQUEST_JOIN_UPDATES'' STATUS_LOGGEDIN PROCESS_THREADUNSAFE ''HandleGroupRequestJoinUpdates'',
     DefS 0x0CBB ''SMSG_GROUP_LIST'',
     DefC 0x0D61 ''CMSG_GROUP_INVITE_RESPONSE'' STATUS_LOGGEDIN PROCESS_THREADUNSAFE ''HandleGroupInviteResponseOpcode'',
     DefC 0x072D ''CMSG_GROUP_INVITE'' STATUS_LOGGEDIN PROCESS_THREADUNSAFE ''HandleGroupInviteOpcode'',
     DefS 0x0A8F ''SMSG_GROUP_INVITE'',
     DefC 0x1798 ''CMSG_GROUP_DISBAND'' STATUS_LOGGEDIN PROCESS_THREADUNSAFE ''HandleGroupDisbandOpcode'',
     DefS 0x1B27 ''SMSG_GROUP_DESTROYED'',
     DefS 0x0F86 ''SMSG_PARTY_COMMAND_RESULT'',
     DefC 0x0CE1 ''CMSG_GROUP_UNINVITE_GUID'' STATUS_LOGGEDIN PROCESS_THREADUNSAFE ''HandleGroupUninviteGuidOpcode'',
     DefS 0x1313 ''SMSG_GROUP_UNINVITE'']"

definition opcode_registrations_8 :: "opcode_registration list" where
  "opcode_registrations_8 = [
     DefC 0x0DE1 ''CMSG_LOOT_METHOD'' STATUS_LOGGEDIN PROCESS_THREADUNSAFE ''HandleLootMethodOpcode'',
     DefC 0x15BB ''CMSG_GROUP_SET_LEADER'' STATUS_LOGGEDIN PROCESS_THREADUNSAFE ''HandleGroupSetLeaderOpcode'',
     DefS 0x18BF ''SMSG_GROUP_SET_LEADER'',
     DefC 0x1897 ''CMSG_GROUP_ASSISTANT_LEADER'' STATUS_LOGGEDIN PROCESS_THREADUNSAFE ''HandleGroupAssistantLeaderOpcode'',
     DefC 0x08A3 ''CMSG_RANDOM_ROLL'' STATUS_LOGGEDIN PROCESS_THREADUNSAFE ''HandleRandomRollOpcode'',
     DefC 0x1799 ''CMSG_GROUP_CHANGE_SUB_GROUP'' STATUS_LOGGEDIN PROCESS_THREADUNSAFE ''HandleGroupChangeSubGroupOpcode'',
     DefC 0x032C ''CMSG_GROUP_RAID_CONVERT'' STATUS_LOGGEDIN PROCESS_THREADUNSAFE ''HandleGroupRaidConvertOpcode'',
     DefC 0x1802 ''CMSG_SET_PARTY_ASSIGNMENT'' STATUS_LOGGEDIN PROCESS_THREADUNSAFE ''HandlePartyAssignmentOpcode'',
     DefC 0x01E1 ''CMSG_SET_EVERYONE_IS_ASSISTANT'' STATUS_LOGGEDIN PROCESS_THREADUNSAFE ''HandleGroupEveryoneIsAssistantOpcode'',
     DefC 0x1A92 ''CMSG_GROUP_SET_ROLES'' STATUS_LOGGEDIN PROCESS_THREADUNSAFE ''HandleGroupSetRolesOpcode'',
     DefC 0x1882 ''CMSG_GROUP_INITIATE_ROLE_POLL'' STATUS_LOGGEDIN PROCESS_THREADUNSAFE ''HandleGroupInitiateRolePollOpcode'',
     DefS 0x1007 ''SMSG_GROUP_ROLE_POLL_INFORM'',
     DefC 0x02CA ''CMSG_REQUEST_STABLED_PETS'' STATUS_LOGGEDIN PROCESS_THREADUNSAFE ''HandleListStabledPetsOpcode'',
     DefS 0x1613 ''SMSG_PET_STABLE_LIST'',
     DefS 0x14BE ''SMSG_STABLE_RESULT'',
     DefC 0x0A23 ''CMSG_BATTLE_PET_REQUEST_JOURNAL'' STATUS_LOGGEDIN PROCESS_THREADUNSAFE ''HandleBattlePetRequestJournal'',
     DefS 0x1542 ''SMSG_BATTLE_PET_JOURNAL'',
     DefC 0x0817 ''CMSG_DO_READY_CHECK'' STATUS_LOGGEDIN PROCESS_THREADUNSAFE ''HandleRaidReadyCheckOpcode'',
     DefC 0x158B ''CMSG_RAID_READY_CHECK_CONFIRM'' STATUS_LOGGEDIN PROCESS_THREADUNSAFE ''HandleRaidReadyCheckConfirmOpcode'',
     DefS 0x1C8E ''SMSG_RAID_READY_CHECK'',
     DefS 0x02AF ''SMSG_RAID_READY_CHECK_CONFIRM'',
     DefS 0x15C2 ''SMSG_RAID_READY_CHECK_COMPLETED'',
     DefC 0x0837 ''CMSG_MINIMAP_PING'' STATUS_LOGGEDIN PROCESS_THREADUNSAFE ''HandleMinimapPingOpcode'',
     DefC 0x0886 ''CMSG_RAID_TARGET_UPDATE'' STATUS_LOGGEDIN PROCESS_THREADUNSAFE ''HandleRaidTargetUpdateOpcode'',
     DefS 0x168F ''SMSG_MINIMAP_PING'',
     DefS 0x0283 ''SMSG_RAID_TARGET_UPDATE_ALL'',
     DefS 0x160B ''SMSG_RAID_TARGET_UPDATE_SINGLE'',
     DefC 0x0379 ''CMSG_AUCTION_HELLO'' STATUS_LOGGEDIN PROCESS_THREADUNSAFE ''HandleAuctionHelloOpcode'',
     DefS 0x10A7 ''SMSG_AUCTION_HELLO'',
     DefS 0x1002 ''SMSG_AUCTION_COMMAND_RESULT'',
     DefS 0x1A8E ''SMSG_AUCTION_OWNER_NOTIFICATION'',
     DefS 0x11C1 ''SMSG_AUCTION_WON_NOTIFICATION'',
     DefS 0x1A9F ''SMSG_AUCTION_OUTBID_NOTIFICATION'',
     DefS 0x18AE ''SMSG_AUCTION_BID_UPDATE_NOTIFICATION'',
     DefC 0x077B ''CMSG_MAIL_QUERY_NEXT_TIME'' STATUS_LOGGEDIN PROCESS_THREADUNSAFE ''HandleQueryNextMailTime'',
     DefS 0x089B ''SMSG_MAIL_QUERY_NEXT_TIME_RESULT'',
     DefC 0x1F9E ''CMSG_BATTLEFIELD_STATUS'' STATUS_LOGGEDIN PROCESS_THREADUNSAFE ''HandleBattlefieldStatusOpcode'',
     DefC 0x0826 ''CMSG_REQUEST_RATED_BG_STATS'' STATUS_LOGGEDIN PROCESS_THREADUNSAFE ''HandleRequestRatedBGStatsOpcode'',
     DefS 0x0EBA ''SMSG_BATTLEFIELD_RATED_INFO'',
     DefS 0x0433 ''SMSG_BATTLEFIELD_STATUS'',
     DefS 0x122E ''SMSG_BATTLEFIELD_STATUS_QUEUED'',
     DefS 0x1EAF ''SMSG_BATTLEFIELD_STATUS_NEEDCONFIRMATION'']"

definition opcode_registrations_9 :: "opcode_registration list" where
  "opcode_registrations_9 = [
     DefS 0x1AAF ''SMSG_BATTLEFIELD_STATUS_ACTIVE'',
     DefS 0x1140 ''SMSG_BATTLEFIELD_STATUS_FAILED'',
     DefC 0x0365 ''CMSG_REQUEST_CONQUEST_FORMULA_CONSTANTS'' STATUS_LOGGEDIN PROCESS_THREADUNSAFE ''HandleRequestConquestFormulaConstantsOpcode'',
     DefS 0x0EAB ''SMSG_CONQUEST_FORMULA_CONSTANTS'',
     DefS 0x16AE ''SMSG_CALENDAR_EVENT_INITIAL_INVITE'',
     DefS 0x1C9B ''SMSG_CALENDAR_EVENT_INVITE_STATUS'',
     DefS 0x048F ''SMSG_CALENDAR_EVENT_MODERATOR_STATUS'',
     DefC 0x1F9F ''CMSG_CALENDAR_GET_CALENDAR'' STATUS_LOGGEDIN PROCESS_THREADUNSAFE ''HandleCalendarGetCalendar'',
     DefC 0x030C ''CMSG_CALENDAR_GET_EVENT'' STATUS_LOGGEDIN PROCESS_THREADUNSAFE ''HandleCalendarGetEvent'',
     DefS 0x1A0A ''SMSG_CALENDAR_SEND_CALENDAR'',
     DefS 0x12AE ''SMSG_CALENDAR_SEND_EVENT'',
     DefC 0x0813 ''CMSG_CALENDAR_GET_NUM_PENDING'' STATUS_LOGGEDIN PROCESS_THREADUNSAFE ''HandleCalendarGetNumPending'',
     DefS 0x0A3F ''SMSG_CALENDAR_SEND_NUM_PENDING'',
     DefC 0x135B ''CMSG_REQUEST_PET_INFO'' STATUS_LOGGEDIN PROCESS_THREADUNSAFE ''HandleRequestPetInfoOpcode'',
     DefC 0x0257 ''CMSG_LEAVE_BATTLEFIELD'' STATUS_LOGGEDIN PROCESS_THREADUNSAFE ''HandleLeaveBattlefieldOpcode'',
     DefC 0x1F34 ''CMSG_COMPLETE_CINEMATIC'' STATUS_LOGGEDIN PROCESS_THREADUNSAFE ''HandleCompleteCinematic'',
     DefC 0x1124 ''CMSG_NEXT_CINEMATIC_CAMERA'' STATUS_LOGGEDIN PROCESS_THREADUNSAFE ''HandleNextCinematicCamera'',
     DefC 0x1DC3 ''CMSG_REQUEST_VEHICLE_EXIT'' STATUS_LOGGEDIN PROCESS_THREADUNSAFE ''HandleRequestVehicleExit'',
     DefC 0x18A2 ''CMSG_GUILD_ACCEPT'' STATUS_LOGGEDIN PROCESS_THREADUNSAFE ''HandleGuildAcceptOpcode'',
     DefC 0x03C7 ''CMSG_SET_TITLE'' STATUS_LOGGEDIN PROCESS_THREADUNSAFE ''HandleSetTitleOpcode'',
     DefC 0x06C9 ''CMSG_SET_WATCHED_FACTION'' STATUS_LOGGEDIN PROCESS_THREADUNSAFE ''HandleSetWatchedFactionOpcode'',
     DefC 0x03E4 ''CMSG_SET_CURRENCY_FLAGS'' STATUS_LOGGEDIN PROCESS_THREADUNSAFE ''HandleSetCurrencyFlagsOpcode'',
     DefC 0x1341 ''CMSG_FAR_SIGHT'' STATUS_LOGGEDIN PROCESS_THREADUNSAFE ''HandleFarSightOpcode'',
     DefC 0x126B ''CMSG_SHOWING_HELM'' STATUS_LOGGEDIN PROCESS_THREADUNSAFE ''HandleShowingHelmOpcode'',
     DefC 0x02F2 ''CMSG_SHOWING_CLOAK'' STATUS_LOGGEDIN PROCESS_THREADUNSAFE ''HandleShowingCloakOpcode'',
     DefC 0x046B ''CMSG_LFG_JOIN'' STATUS_LOGGEDIN PROCESS_THREADUNSAFE ''HandleLfgJoinOpcode'',
     DefC 0x01E0 ''CMSG_LFG_LEAVE'' STATUS_LOGGEDIN PROCESS_THREADUNSAFE ''HandleLfgLeaveOpcode'']"

definition opcode_registrations_10 :: "opcode_registration list" where
  "opcode_registrations_10 = [
     DefC 0x077A ''CMSG_GET_MAIL_LIST'' STATUS_LOGGEDIN PROCESS_THREADUNSAFE ''HandleGetMailList'',
     DefS 0x1C0B ''SMSG_MAIL_LIST_RESULT'',
     DefC 0x0241 ''CMSG_MAIL_MARK_AS_READ'' STATUS_LOGGEDIN PROCESS_THREADUNSAFE ''HandleMailMarkAsRead'',
     DefC 0x1371 ''CMSG_MAIL_TAKE_ITEM'' STATUS_LOGGEDIN PROCESS_THREADUNSAFE ''HandleMailTakeItem'',
     DefC 0x06FA ''CMSG_MAIL_TAKE_MONEY'' STATUS_LOGGEDIN PROCESS_THREADUNSAFE ''HandleMailTakeMoney'',
     DefC 0x1DBA ''CMSG_SEND_MAIL'' STATUS_LOGGEDIN PROCESS_THREADUNSAFE ''HandleSendMail'',
     DefC 0x14E2 ''CMSG_MAIL_DELETE'' STATUS_LOGGEDIN PROCESS_THREADUNSAFE ''HandleMailDelete'',
     DefC 0x1FA8 ''CMSG_MAIL_RETURN_TO_SENDER'' STATUS_LOGGEDIN PROCESS_THREADUNSAFE ''HandleMailReturnToSender'',
     DefC 0x1270 ''CMSG_MAIL_CREATE_TEXT_ITEM'' STATUS_LOGGEDIN PROCESS_THREADUNSAFE ''HandleMailCreateTextItem'',
     DefS 0x1A9B ''SMSG_SEND_MAIL_RESULT'',
     DefC 0x1263 ''CMSG_TOTEM_DESTROYED'' STATUS_LOGGEDIN PROCESS_THREADUNSAFE ''HandleTotemDestroyed'',
     DefC 0x0158 ''CMSG_FORCE_RUN_BACK_SPEED_CHANGE_ACK'' STATUS_LOGGEDIN PROCESS_THREADUNSAFE ''HandleForceSpeedChangeAckOpcodes'',
     DefC 0x10D1 ''CMSG_FORCE_SWIM_BACK_SPEED_CHANGE_ACK'' STATUS_LOGGEDIN PROCESS_THREADUNSAFE ''HandleForceSpeedChangeAckOpcodes'',
     DefC 0x105B ''CMSG_FORCE_FLIGHT_BACK_SPEED_CHANGE_ACK'' STATUS_LOGGEDIN PROCESS_THREADUNSAFE ''HandleForceSpeedChangeAckOpcodes'',
     DefC 0x00DB ''CMSG_FORCE_WALK_SPEED_CHANGE_ACK'' STATUS_LOGGEDIN PROCESS_THREADUNSAFE ''HandleForceSpeedChangeAckOpcodes'',
     DefC 0x10F3 ''CMSG_FORCE_RUN_SPEED_CHANGE_ACK'' STATUS_LOGGEDIN PROCESS_THREADUNSAFE ''HandleForceSpeedChangeAckOpcodes'',
     DefC 0x09DA ''CMSG_FORCE_FLIGHT_SPEED_CHANGE_ACK'' STATUS_LOGGEDIN PROCESS_THREADUNSAFE ''HandleForceSpeedChangeAckOpcodes'',
     DefC 0x1052 ''CMSG_MOVE_SET_CAN_FLY_ACK'' STATUS_LOGGEDIN PROCESS_THREADUNSAFE ''HandleMoveSetCanFlyAckOpcode'']"


record closure_row =
  lc_name :: string
  lc_value :: nat
  lc_client :: bool
  lc_out_of_band :: bool
  lc_handler :: "string option"

definition login_closure :: "closure_row list" where
  "login_closure = [
     \<lparr>lc_name = ''CMSG_AUTH_SESSION'', lc_value = 0x00B2, lc_client = True, lc_out_of_band = False, lc_handler = Some ''Handle_EarlyProccess''\<rparr>,
     \<lparr>lc_name = ''CMSG_CHAR_CREATE'', lc_value = 0x0F1D, lc_client = True, lc_out_of_band = False, lc_handler = Some ''HandleCharCreateOpcode''\<rparr>,
     \<lparr>lc_name = ''CMSG_CHAR_ENUM'', lc_value = 0x00E0, lc_client = True, lc_out_of_band = False, lc_handler = Some ''HandleCharEnumOpcode''\<rparr>,
     \<lparr>lc_name = ''CMSG_KEEP_ALIVE'', lc_value = 0x1A87, lc_client = True, lc_out_of_band = False, lc_handler = Some ''Handle_EarlyProccess''\<rparr>,
     \<lparr>lc_name = ''CMSG_LOG_DISCONNECT'', lc_value = 0x10B3, lc_client = True, lc_out_of_band = False, lc_handler = Some ''Handle_EarlyProccess''\<rparr>,
     \<lparr>lc_name = ''CMSG_PING'', lc_value = 0x0012, lc_client = True, lc_out_of_band = False, lc_handler = Some ''Handle_EarlyProccess''\<rparr>,
     \<lparr>lc_name = ''CMSG_PLAYER_LOGIN'', lc_value = 0x158F, lc_client = True, lc_out_of_band = False, lc_handler = Some ''HandlePlayerLoginOpcode''\<rparr>,
     \<lparr>lc_name = ''CMSG_REALM_SPLIT'', lc_value = 0x0062, lc_client = True, lc_out_of_band = False, lc_handler = Some ''HandleRealmSplitOpcode''\<rparr>,
     \<lparr>lc_name = ''MSG_WOW_CONNECTION'', lc_value = 0x4F57, lc_client = True, lc_out_of_band = True, lc_handler = None\<rparr>,
     \<lparr>lc_name = ''SMSG_ADDON_INFO'', lc_value = 0x160A, lc_client = False, lc_out_of_band = False, lc_handler = None\<rparr>,
     \<lparr>lc_name = ''SMSG_AUTH_CHALLENGE'', lc_value = 0x0949, lc_client = False, lc_out_of_band = False, lc_handler = None\<rparr>,
     \<lparr>lc_name = ''SMSG_AUTH_RESPONSE'', lc_value = 0x0ABA, lc_client = False, lc_out_of_band = False, lc_handler = None\<rparr>,
     \<lparr>lc_name = ''SMSG_CHAR_CREATE'', lc_value = 0x1CAA, lc_client = False, lc_out_of_band = False, lc_handler = None\<rparr>,
     \<lparr>lc_name = ''SMSG_CHAR_ENUM'', lc_value = 0x11C3, lc_client = False, lc_out_of_band = False, lc_handler = None\<rparr>,
     \<lparr>lc_name = ''SMSG_CLIENTCACHE_VERSION'', lc_value = 0x002A, lc_client = False, lc_out_of_band = False, lc_handler = None\<rparr>,
     \<lparr>lc_name = ''SMSG_FEATURE_SYSTEM_STATUS'', lc_value = 0x16BB, lc_client = False, lc_out_of_band = False, lc_handler = None\<rparr>,
     \<lparr>lc_name = ''SMSG_LOGIN_SETTIMESPEED'', lc_value = 0x082B, lc_client = False, lc_out_of_band = False, lc_handler = None\<rparr>,
     \<lparr>lc_name = ''SMSG_PONG'', lc_value = 0x1969, lc_client = False, lc_out_of_band = False, lc_handler = None\<rparr>,
     \<lparr>lc_name = ''SMSG_REALM_SPLIT'', lc_value = 0x1A2E, lc_client = False, lc_out_of_band = False, lc_handler = None\<rparr>,
     \<lparr>lc_name = ''SMSG_SET_TIME_ZONE_INFORMATION'', lc_value = 0x19C1, lc_client = False, lc_out_of_band = False, lc_handler = None\<rparr>,
     \<lparr>lc_name = ''SMSG_TUTORIAL_FLAGS'', lc_value = 0x1B90, lc_client = False, lc_out_of_band = False, lc_handler = None\<rparr>]"

section \<open>Initialisation\<close>

text \<open>\<open>AssertLoginClosureIntegrity\<close>.\<close>

fun closure_row_ok :: "opcode_tables \<Rightarrow> closure_row \<Rightarrow> bool" where
  "closure_row_ok t c =
     (if lc_out_of_band c
      then lookup_client_opcode t (lc_value c) = None \<and>
           lookup_client_opcode_name t (lc_value c) = ''MSG_WOW_CONNECTION''
      else if lc_client c
      then (case lookup_client_opcode t (lc_value c) of
              None \<Rightarrow> False
            | Some actual \<Rightarrow> lookup_client_opcode_name t (lc_value c) = lc_name c \<and> Some (oh_handler actual) = lc_handler c)
      else lookup_server_opcode_name t (lc_value c) = lc_name c)"

definition assert_login_closure :: "opcode_tables \<Rightarrow> opcode_error + opcode_tables" where
  "assert_login_closure t =
     (case filter (\<lambda>c. \<not> closure_row_ok t c) login_closure of
        [] \<Rightarrow> Inr t
      | c # cs \<Rightarrow> Inl (OpcodeAssert (lc_value c)))"

definition opcode_registrations :: "opcode_registration list" where
  "opcode_registrations =
     opcode_registrations_1 @
     opcode_registrations_2 @
     opcode_registrations_3 @
     opcode_registrations_4 @
     opcode_registrations_5 @
     opcode_registrations_6 @
     opcode_registrations_7 @
     opcode_registrations_8 @
     opcode_registrations_9 @
     opcode_registrations_10"

definition initialize_opcodes :: "opcode_error + opcode_tables" where
  "initialize_opcodes =
     sum_bind (register_opcodes opcode_register_inc \<lparr>ot_client = [], ot_server = []\<rparr>) (\<lambda>t.
     sum_bind (assert_login_closure t) (register_opcodes opcode_registrations))"

section \<open>What a run of registrations leaves behind\<close>

fun reg_value :: "opcode_registration \<Rightarrow> nat" where
  "reg_value (DefC v name s p h) = v"
| "reg_value (DefS v name) = v"

fun reg_entry :: "opcode_registration \<Rightarrow> opcode_handler" where
  "reg_entry (DefC v name s p h) = \<lparr>oh_name = name, oh_status = s, oh_processing = p, oh_handler = h\<rparr>"
| "reg_entry (DefS v name) =
     \<lparr>oh_name = name, oh_status = STATUS_NEVER, oh_processing = PROCESS_INPLACE, oh_handler = ''Handle_ServerSide''\<rparr>"

fun is_def_c :: "opcode_registration \<Rightarrow> bool" where
  "is_def_c (DefC v name s p h) = True"
| "is_def_c (DefS v name) = False"

definition reg_key :: "opcode_registration \<Rightarrow> bool \<times> nat" where
  "reg_key r = (is_def_c r, reg_value r)"

definition reg_slot :: "opcode_registration \<Rightarrow> opcode_tables \<Rightarrow> opcode_handler option" where
  "reg_slot r t = om_get (if is_def_c r then ot_client t else ot_server t) (reg_value r)"

text \<open>\<open>holds R t\<close>: the claimed slots of \<open>t\<close> are those of the registrations \<open>R\<close>.\<close>

definition slots :: "(opcode_registration \<Rightarrow> bool) \<Rightarrow> opcode_registration set \<Rightarrow> (nat, opcode_handler) omap \<Rightarrow> bool" where
  "slots P R T \<longleftrightarrow> (\<forall>v h. om_get T v = Some h \<longleftrightarrow> (\<exists>r \<in> R. P r \<and> reg_value r = v \<and> reg_entry r = h))"

definition holds :: "opcode_registration set \<Rightarrow> opcode_tables \<Rightarrow> bool" where
  "holds R t \<longleftrightarrow> slots is_def_c R (ot_client t) \<and> slots (\<lambda>r. \<not> is_def_c r) R (ot_server t)"

lemma slots_put:
  assumes "slots P R T" and "P r" and "\<And>r'. r' \<in> R \<Longrightarrow> P r' \<Longrightarrow> reg_value r' = reg_value r \<Longrightarrow> r' = r"
  shows "slots P (insert r R) (om_put (reg_value r) (reg_entry r) T)"
proof -
  have "om_get (om_put (reg_value r) (reg_entry r) T) v = Some h \<longleftrightarrow>
      (\<exists>r' \<in> insert r R. P r' \<and> reg_value r' = v \<and> reg_entry r' = h)" for v h
  proof (cases "v = reg_value r")
    case True
    then show ?thesis using assms(2,3) by simp metis
  next
    case False
    then show ?thesis using assms(1) unfolding slots_def by auto
  qed
  then show ?thesis unfolding slots_def by blast
qed

lemma slots_skip: "slots P R T \<Longrightarrow> \<not> P r \<Longrightarrow> slots P (insert r R) T"
  unfolding slots_def by auto

definition one_symbol :: "opcode_registration set \<Rightarrow> bool" where
  "one_symbol R \<longleftrightarrow> (\<forall>r \<in> R. \<forall>r' \<in> R. reg_key r = reg_key r' \<longrightarrow> r = r')"

lemma holds_empty: "holds {} \<lparr>ot_client = [], ot_server = []\<rparr>"
  by (simp add: holds_def slots_def om_get_def)

lemma register_opcode_holds:
  assumes t: "holds R t" and one: "one_symbol (insert r R)" and v: "reg_value r < OPCODE_TABLE_SIZE_nat"
  shows "\<exists>t'. register_opcode r t = Inr t' \<and> holds (insert r R) t'"
proof -
  have old: "h = reg_entry r" if "reg_slot r t = Some h" for h
  proof -
    from that t obtain r' where "r' \<in> R" "reg_key r' = reg_key r" "reg_entry r' = h"
      by (cases "is_def_c r") (fastforce simp: reg_slot_def holds_def slots_def reg_key_def)+
    with one show ?thesis unfolding one_symbol_def by blast
  qed
  have same: "r' = r" if "r' \<in> R" "is_def_c r' = is_def_c r" "reg_value r' = reg_value r" for r'
    using one that unfolding one_symbol_def reg_key_def by auto
  have eq: "register_opcode r t =
      (if is_def_c r then sum_bind (claim_slot (reg_value r) (reg_entry r) (ot_client t)) (\<lambda>c. Inr (t\<lparr>ot_client := c\<rparr>))
       else sum_bind (claim_slot (reg_value r) (reg_entry r) (ot_server t)) (\<lambda>c. Inr (t\<lparr>ot_server := c\<rparr>)))"
    by (cases r) simp_all
  have claim: "claim_slot (reg_value r) (reg_entry r) T = Inr (om_put (reg_value r) (reg_entry r) T)"
    if "T = (if is_def_c r then ot_client t else ot_server t)" for T
    using old v that by (auto simp: claim_slot_def reg_slot_def split: option.split)
  show ?thesis
  proof (cases "is_def_c r")
    case True
    have "holds (insert r R) (t\<lparr>ot_client := om_put (reg_value r) (reg_entry r) (ot_client t)\<rparr>)"
      using t same True unfolding holds_def by (simp add: slots_put slots_skip)
    then show ?thesis using True claim eq by simp
  next
    case False
    have "holds (insert r R) (t\<lparr>ot_server := om_put (reg_value r) (reg_entry r) (ot_server t)\<rparr>)"
      using t same False unfolding holds_def by (simp add: slots_put slots_skip)
    then show ?thesis using False claim eq by simp
  qed
qed

lemma register_opcodes_holds:
  "holds R t \<Longrightarrow> one_symbol (R \<union> set rs) \<Longrightarrow> \<forall>r \<in> set rs. reg_value r < OPCODE_TABLE_SIZE_nat \<Longrightarrow>
     \<exists>t'. register_opcodes rs t = Inr t' \<and> holds (R \<union> set rs) t'"
proof (induction rs arbitrary: R t)
  case (Cons r rs)
  have one: "one_symbol (insert r R)" using Cons.prems(2) unfolding one_symbol_def by simp
  have v: "reg_value r < OPCODE_TABLE_SIZE_nat" using Cons.prems(3) by simp
  obtain u where u: "register_opcode r t = Inr u" "holds (insert r R) u"
    using register_opcode_holds [OF Cons.prems(1) one v] by blast
  have e: "insert r R \<union> set rs = R \<union> set (r # rs)" by simp
  have "\<forall>r \<in> set rs. reg_value r < OPCODE_TABLE_SIZE_nat" using Cons.prems(3) by simp
  from Cons.IH [OF u(2) Cons.prems(2) [folded e] this] u(1) show ?case unfolding e by simp
qed simp

lemma holds_client:
  "holds R t \<Longrightarrow> r \<in> R \<Longrightarrow> is_def_c r \<Longrightarrow> om_get (ot_client t) (reg_value r) = Some (reg_entry r)"
  unfolding holds_def slots_def by blast

lemma holds_server:
  "holds R t \<Longrightarrow> r \<in> R \<Longrightarrow> \<not> is_def_c r \<Longrightarrow> om_get (ot_server t) (reg_value r) = Some (reg_entry r)"
  unfolding holds_def slots_def by blast

section \<open>The registrations of this core\<close>

lemma distinct_by_sort: "sorted_wrt (<) (sort xs) \<Longrightarrow> distinct (xs :: nat list)"
  using strict_sorted_iff distinct_sort by metis

definition client_values :: "opcode_registration list \<Rightarrow> nat list" where
  "client_values rs = map reg_value (filter is_def_c rs)"

definition server_values :: "opcode_registration list \<Rightarrow> nat list" where
  "server_values rs = map reg_value (filter (\<lambda>r. \<not> is_def_c r) rs)"

lemma values_simps:
  "client_values [] = []" "client_values (DefC v n s p h # rs) = v # client_values rs" "client_values (DefS v n # rs) = client_values rs"
  "server_values [] = []" "server_values (DefC v n s p h # rs) = server_values rs" "server_values (DefS v n # rs) = v # server_values rs"
  "client_values (rs @ rs') = client_values rs @ client_values rs'"
  "server_values (rs @ rs') = server_values rs @ server_values rs'"
  by (simp_all add: client_values_def server_values_def)

lemma one_symbol_values:
  assumes "distinct (client_values rs)" and "distinct (server_values rs)"
  shows "one_symbol (set rs)"
proof -
  have "r = r'" if "r \<in> set rs" "r' \<in> set rs" "is_def_c r = is_def_c r'" "reg_value r = reg_value r'" for r r'
    using assms that unfolding client_values_def server_values_def distinct_map inj_on_def
    by (cases "is_def_c r") simp_all
  then show ?thesis unfolding one_symbol_def reg_key_def by simp
qed

text \<open>One symbol is registered twice, in the login closure and after it.\<close>

fun twice :: "opcode_registration \<Rightarrow> bool" where
  "twice (DefC v name s p h) = False"
| "twice (DefS v name) = (v = 0x082B)"

lemma twice_iff: "twice r \<longleftrightarrow> \<not> is_def_c r \<and> reg_value r = 0x082B"
  by (cases r) simp_all

lemmas numeral_eval = numeral_eq_iff num.inject num.distinct if_True if_False simp_thms

section \<open>The values, file by file\<close>

lemma opcode_register_inc_values:
  "client_values opcode_register_inc =
     [0x00B2, 0x0F1D, 0x00E0, 0x1A87, 0x10B3, 0x0012, 0x158F, 0x031C, 0x0062]"
  "server_values opcode_register_inc =
     [0x162B, 0x160A, 0x0949, 0x0ABA, 0x1CAA, 0x11C3, 0x002A, 0x16BB, 0x082B, 0x1969, 0x1A2E, 0x19C1,
     0x1B90]"
  unfolding opcode_register_inc_def by (simp_all only: values_simps)

lemma opcode_registrations_1_values:
  "client_values opcode_registrations_1 =
     [0x04E2, 0x0A13, 0x0068, 0x1D8A, 0x18B2, 0x0DE0, 0x0B1C, 0x1A86, 0x1F89, 0x0A82, 0x15A8, 0x0292,
     0x01DB, 0x0058, 0x10D3, 0x115B, 0x06F5, 0x1259]"
  "server_values opcode_registrations_1 =
     [0x0C9F, 0x1432, 0x0AAE, 0x023A, 0x169F, 0x1A0B, 0x11E1, 0x0817, 0x184C, 0x0469, 0x02F1, 0x0A83,
     0x006E, 0x08B2, 0x1F9F, 0x1D8E, 0x1DAB, 0x0046, 0x0832, 0x0B28, 0x0AB3, 0x0962, 0x0069, 0x0319,
     0x17AB, 0x141A, 0x0332, 0x0591, 0x1283, 0x042E, 0x02A6, 0x129B, 0x163B, 0x148E, 0x1C0F, 0x1C3B,
     0x18BA, 0x061B, 0x0C8F, 0x082B, 0x1A8F, 0x0B01, 0x0082, 0x183B, 0x022A, 0x068F, 0x10AA, 0x1E8E,
     0x068E, 0x12BF, 0x100A, 0x1E9E, 0x1560, 0x121B, 0x18C1, 0x10A2, 0x1842, 0x0B39, 0x1043, 0x0C6D,
     0x129E, 0x1A8B]"
  unfolding opcode_registrations_1_def by (simp_all only: values_simps)

lemma opcode_registrations_2_values:
  "client_values opcode_registrations_2 =
     [0x029F, 0x040E, 0x0A9A, 0x0EAB, 0x04AA, 0x103E, 0x002E, 0x123E, 0x00BB, 0x0CAE, 0x0ABF, 0x109A,
     0x083E, 0x16AB, 0x162A, 0x009A, 0x028E, 0x08AF, 0x0E3B, 0x180B, 0x0EBB, 0x048A, 0x07E9, 0x1924,
     0x1D36, 0x0F23, 0x0307, 0x1203, 0x0643, 0x1349, 0x06C1, 0x158D, 0x148E]"
  "server_values opcode_registrations_2 =
     [0x023E, 0x0E2A, 0x00D8, 0x0CF2, 0x0DF9, 0x1851, 0x09F8, 0x0D79, 0x09FB, 0x05F3, 0x1570, 0x0072,
     0x1792, 0x14C2, 0x1A9A, 0x1082, 0x061A, 0x1A3B, 0x002E, 0x0987, 0x0C2A, 0x1963, 0x181E, 0x045A,
     0x10F1, 0x081A, 0x0AAA, 0x180A, 0x0E9B, 0x01DB, 0x0E3B, 0x1440, 0x06AB, 0x008F, 0x0AAF, 0x142F,
     0x0F06, 0x0B22]"
  unfolding opcode_registrations_2_def by (simp_all only: values_simps)

lemma opcode_registrations_3_values:
  "client_values opcode_registrations_3 =
     [0x0C1B, 0x1941, 0x1CE3, 0x0267, 0x0023, 0x14E3, 0x03D5, 0x00A7, 0x15AB, 0x1DBD, 0x044E, 0x0150,
     0x09F0, 0x0672, 0x0040, 0x15A9, 0x0249, 0x0740, 0x03E6, 0x1061, 0x02E7, 0x025B, 0x065B, 0x12E9,
     0x1C62, 0x0345]"
  "server_values opcode_registrations_3 =
     [0x0027, 0x103B, 0x0E3F, 0x1C12, 0x0ABE, 0x178D, 0x0162, 0x1046, 0x0DE2, 0x1A9E, 0x12AF, 0x06AA,
     0x048A, 0x001A, 0x163A, 0x1C0A, 0x129F, 0x0022, 0x10E1, 0x0E12, 0x1026, 0x10F9, 0x11D9, 0x15E3,
     0x1860, 0x1A1B, 0x0632, 0x14AE, 0x180B, 0x1960, 0x0E3A, 0x19C0, 0x082F, 0x080B, 0x0007, 0x1F13,
     0x0302, 0x182B, 0x000B, 0x11E0, 0x0E8B, 0x1E0F, 0x06AF, 0x109F]"
  unfolding opcode_registrations_3_def by (simp_all only: values_simps)

lemma opcode_registrations_4_values:
  "client_values opcode_registrations_4 =
     [0x036A, 0x12F3, 0x0748, 0x02D8, 0x1358, 0x0661, 0x02E2, 0x02E1, 0x02E3, 0x03C9, 0x06FB, 0x11D9,
     0x03DF, 0x035D, 0x025F, 0x067C, 0x02EC, 0x0026, 0x1CE2, 0x0354, 0x02F6, 0x0840, 0x15C2, 0x06D8,
     0x06D9, 0x07F0, 0x1C44, 0x02F1, 0x02DB, 0x12F0, 0x06D1, 0x0779, 0x10C2, 0x1DAE, 0x0659, 0x0378,
     0x07CB]"
  "server_values opcode_registrations_4 =
     [0x102A, 0x1443, 0x0023, 0x15E2, 0x080E, 0x163F, 0x095A, 0x1275, 0x0244, 0x0785, 0x1AAE, 0x048E,
     0x101A, 0x1563, 0x0E0A, 0x169E, 0x1E1A, 0x141B, 0x02A7, 0x0C1E, 0x128A, 0x123F, 0x0C3E, 0x14C0,
     0x1632, 0x0EAA, 0x1840, 0x0A3A, 0x0EBB, 0x001F, 0x108B, 0x14AF, 0x1222, 0x0C3F, 0x0227, 0x10BE,
     0x089E, 0x189A, 0x1E9A, 0x1961, 0x06CE, 0x02D4, 0x134C, 0x034E, 0x027D, 0x12DE, 0x07FD, 0x06FF,
     0x1645, 0x067F, 0x036D, 0x0277, 0x074F, 0x0346]"
  unfolding opcode_registrations_4_def by (simp_all only: values_simps)

lemma opcode_registrations_5_values:
  "client_values opcode_registrations_5 =
     [0x02D5, 0x0287, 0x08A2, 0x1D9D, 0x032D, 0x1AA2, 0x00E3, 0x006B, 0x0A87, 0x0842, 0x1461, 0x1022,
     0x0123, 0x1FBE, 0x134A, 0x12EA, 0x03D3, 0x0B0C, 0x0340, 0x0360, 0x0A16, 0x06E4, 0x03D2, 0x124B,
     0x1370, 0x0328, 0x18A3, 0x1A16, 0x0640, 0x03F6]"
  "server_values opcode_registrations_5 =
     [0x0776, 0x0276, 0x140A, 0x1161, 0x1861, 0x168E, 0x16BF, 0x048B, 0x06BF, 0x081E, 0x1134, 0x0E0B,
     0x1062, 0x1EAA, 0x1A3A, 0x1063, 0x1E3E, 0x042A, 0x13C7, 0x074D, 0x0A8B, 0x0354, 0x03EC, 0x0364,
     0x169B, 0x161B, 0x063E, 0x100F, 0x11E2]"
  unfolding opcode_registrations_5_def by (simp_all only: values_simps)

lemma opcode_registrations_6_values:
  "client_values opcode_registrations_6 =
     [0x0078, 0x1FAD, 0x01F2, 0x095A, 0x09D8, 0x08F1, 0x1050, 0x08FA, 0x01F8, 0x1058, 0x0171, 0x1153,
     0x01D0, 0x107B, 0x1170, 0x09DB, 0x01F1, 0x11FA, 0x115A, 0x01D1, 0x00F2, 0x1853, 0x107A, 0x1051,
     0x10F2, 0x0206, 0x1CC1, 0x1861, 0x0869, 0x1AB6, 0x145A, 0x0D50]"
  "server_values opcode_registrations_6 =
     [0x0562, 0x0251, 0x15AE, 0x1FAE, 0x1F9A, 0x086A, 0x1A32, 0x1A07, 0x0B08, 0x0B18, 0x1865, 0x1823,
     0x159F, 0x0A27, 0x0845, 0x0865, 0x1893, 0x18B6, 0x143A, 0x149B, 0x107A, 0x09D8, 0x0452, 0x1458,
     0x1163, 0x1904, 0x1061, 0x129A, 0x14C3, 0x1943, 0x0282, 0x1CAE, 0x0B68, 0x0B69, 0x0B70, 0x0BF8,
     0x0A60, 0x0E69, 0x1E68, 0x0EF1, 0x1B79, 0x0FF9, 0x0A79]"
  unfolding opcode_registrations_6_def by (simp_all only: values_simps)

lemma opcode_registrations_7_values:
  "client_values opcode_registrations_7 =
     [0x0CF0, 0x1459, 0x14DB, 0x11C3, 0x1D60, 0x1248, 0x1AA6, 0x17BE, 0x0275, 0x0806, 0x178A, 0x0D61,
     0x072D, 0x1798, 0x0CE1]"
  "server_values opcode_registrations_7 =
     [0x0BE0, 0x0B78, 0x0A3E, 0x089F, 0x1287, 0x088E, 0x183A, 0x0C2E, 0x1006, 0x18E3, 0x1EAB, 0x1E3B,
     0x12BB, 0x063B, 0x1A1F, 0x121A, 0x02AB, 0x0A9A, 0x0CBB, 0x0A8F, 0x1B27, 0x0F86, 0x1313]"
  unfolding opcode_registrations_7_def by (simp_all only: values_simps)

lemma opcode_registrations_8_values:
  "client_values opcode_registrations_8 =
     [0x0DE1, 0x15BB, 0x1897, 0x08A3, 0x1799, 0x032C, 0x1802, 0x01E1, 0x1A92, 0x1882, 0x02CA, 0x0A23,
     0x0817, 0x158B, 0x0837, 0x0886, 0x0379, 0x077B, 0x1F9E, 0x0826]"
  "server_values opcode_registrations_8 =
     [0x18BF, 0x1007, 0x1613, 0x14BE, 0x1542, 0x1C8E, 0x02AF, 0x15C2, 0x168F, 0x0283, 0x160B, 0x10A7,
     0x1002, 0x1A8E, 0x11C1, 0x1A9F, 0x18AE, 0x089B, 0x0EBA, 0x0433, 0x122E, 0x1EAF]"
  unfolding opcode_registrations_8_def by (simp_all only: values_simps)

lemma opcode_registrations_9_values:
  "client_values opcode_registrations_9 =
     [0x0365, 0x1F9F, 0x030C, 0x0813, 0x135B, 0x0257, 0x1F34, 0x1124, 0x1DC3, 0x18A2, 0x03C7, 0x06C9,
     0x03E4, 0x1341, 0x126B, 0x02F2, 0x046B, 0x01E0]"
  "server_values opcode_registrations_9 =
     [0x1AAF, 0x1140, 0x0EAB, 0x16AE, 0x1C9B, 0x048F, 0x1A0A, 0x12AE, 0x0A3F]"
  unfolding opcode_registrations_9_def by (simp_all only: values_simps)

lemma opcode_registrations_10_values:
  "client_values opcode_registrations_10 =
     [0x077A, 0x0241, 0x1371, 0x06FA, 0x1DBA, 0x14E2, 0x1FA8, 0x1270, 0x1263, 0x0158, 0x10D1, 0x105B,
     0x00DB, 0x10F3, 0x09DA, 0x1052]"
  "server_values opcode_registrations_10 =
     [0x1C0B, 0x1A9B]"
  unfolding opcode_registrations_10_def by (simp_all only: values_simps)

lemmas registration_values =
  opcode_register_inc_values
  opcode_registrations_1_values
  opcode_registrations_2_values
  opcode_registrations_3_values
  opcode_registrations_4_values
  opcode_registrations_5_values
  opcode_registrations_6_values
  opcode_registrations_7_values
  opcode_registrations_8_values
  opcode_registrations_9_values
  opcode_registrations_10_values

definition once :: "opcode_registration list \<Rightarrow> opcode_registration list" where
  "once rs = filter (\<lambda>r. \<not> twice r) rs"

lemma once_values:
  "client_values (once rs) = client_values rs" "server_values (once rs) = filter (\<lambda>v. v \<noteq> 0x082B) (server_values rs)"
  by (induction rs) (auto simp: once_def client_values_def server_values_def twice_iff)

lemma client_values_distinct: "distinct (client_values (opcode_register_inc @ once opcode_registrations))"
  unfolding once_values opcode_registrations_def values_simps registration_values append.simps
  by (simp only: distinct.simps list.set insert_iff empty_iff numeral_eval)

lemma server_values_distinct:
  "distinct (server_values opcode_registrations)" "distinct (server_values opcode_register_inc)"
  unfolding opcode_registrations_def values_simps registration_values append.simps
  by (simp_all only: distinct.simps list.set insert_iff empty_iff numeral_eval)

lemma server_values_apart:
  "\<forall>v \<in> set (server_values opcode_register_inc). v = 0x082B \<or> v \<notin> set (server_values opcode_registrations)"
  unfolding opcode_registrations_def values_simps registration_values append.simps
  by (simp only: list.set insert_iff empty_iff numeral_eval ball_simps)

lemma once_server_values_distinct: "distinct (server_values (opcode_register_inc @ once opcode_registrations))"
  unfolding once_values values_simps using server_values_distinct server_values_apart by auto

lemma values_in_range:
  "\<forall>v \<in> set (client_values (opcode_register_inc @ opcode_registrations)). v < OPCODE_TABLE_SIZE_nat"
  "\<forall>v \<in> set (server_values (opcode_register_inc @ opcode_registrations)). v < OPCODE_TABLE_SIZE_nat"
  unfolding opcode_registrations_def values_simps registration_values append.simps OPCODE_TABLE_SIZE_nat_def
  by simp_all

lemma in_values:
  "r \<in> set rs \<Longrightarrow> reg_value r \<in> set (client_values rs) \<or> reg_value r \<in> set (server_values rs)"
  by (auto simp: client_values_def server_values_def)

lemma registrations_in_range:
  "\<forall>r \<in> set (opcode_register_inc @ opcode_registrations). reg_value r < OPCODE_TABLE_SIZE_nat"
  using values_in_range in_values by blast

lemma twice_same:
  assumes "r \<in> set opcode_registrations" and "twice r"
  shows "r = DefS 0x082B ''SMSG_LOGIN_SETTIMESPEED''" (is "r = ?d")
proof -
  have "?d \<in> set opcode_registrations_1" unfolding opcode_registrations_1_def by simp
  then have "?d \<in> set opcode_registrations" unfolding opcode_registrations_def by simp
  with assms server_values_distinct(1) show ?thesis
    unfolding server_values_def distinct_map inj_on_def twice_iff by fastforce
qed

lemma once_set: "set (opcode_register_inc @ once opcode_registrations) = set (opcode_register_inc @ opcode_registrations)"
proof -
  have "DefS 0x082B ''SMSG_LOGIN_SETTIMESPEED'' \<in> set opcode_register_inc"
    unfolding opcode_register_inc_def by simp
  with twice_same show ?thesis by (auto simp: once_def)
qed

lemma registrations_one_symbol: "one_symbol (set (opcode_register_inc @ opcode_registrations))"
  using one_symbol_values [OF client_values_distinct once_server_values_distinct] unfolding once_set .

section \<open>The login closure\<close>

lemma closure_client_row:
  assumes "holds R t" and "\<exists>s p. s \<noteq> STATUS_UNHANDLED \<and> DefC v n s p h \<in> R" and "v < OPCODE_TABLE_SIZE_nat"
  shows "closure_row_ok t \<lparr>lc_name = n, lc_value = v, lc_client = True, lc_out_of_band = False, lc_handler = Some h\<rparr>"
proof -
  obtain s p where r: "s \<noteq> STATUS_UNHANDLED" "DefC v n s p h \<in> R" using assms(2) by blast
  from holds_client [OF assms(1) r(2)] r(1) assms(3) show ?thesis
    by (simp add: lookup_client_opcode_def lookup_client_opcode_name_def client_slot_def)
qed

lemma closure_server_row:
  assumes "holds R t" and "DefS v n \<in> R" and "v < OPCODE_TABLE_SIZE_nat"
  shows "closure_row_ok t \<lparr>lc_name = n, lc_value = v, lc_client = False, lc_out_of_band = False, lc_handler = None\<rparr>"
  using holds_server [OF assms(1,2)] assms(3) by (simp add: lookup_server_opcode_name_def server_slot_def)

lemma closure_greeting_row:
  "closure_row_ok t \<lparr>lc_name = n, lc_value = 0x4F57, lc_client = c, lc_out_of_band = True, lc_handler = None\<rparr>"
  by (simp add: lookup_client_opcode_def lookup_client_opcode_name_def OPCODE_TABLE_SIZE_nat_def MSG_WOW_CONNECTION_nat_def)

lemma login_closure_ok: "holds (set opcode_register_inc) t \<Longrightarrow> assert_login_closure t = Inr t"
proof -
  assume t: "holds (set opcode_register_inc) t"
  have "list_all (closure_row_ok t) login_closure"
    unfolding login_closure_def list.pred_inject
    by (intro conjI TrueI closure_client_row [OF t] closure_server_row [OF t] closure_greeting_row;
        simp add: opcode_register_inc_def OPCODE_TABLE_SIZE_nat_def)
  then have "filter (\<lambda>c. \<not> closure_row_ok t c) login_closure = []"
    by (simp add: list_all_iff filter_empty_conv)
  then show ?thesis by (simp add: assert_login_closure_def)
qed

lemma initialize_opcodes_holds:
  "\<exists>t. initialize_opcodes = Inr t \<and> holds (set (opcode_register_inc @ opcode_registrations)) t"
proof -
  let ?I = "set opcode_register_inc" and ?B = "set opcode_registrations"
  have all: "one_symbol (?I \<union> ?B)" using registrations_one_symbol by simp
  then have "one_symbol ({} \<union> ?I)" unfolding one_symbol_def by blast
  from register_opcodes_holds [OF holds_empty this] registrations_in_range
  obtain t where t: "register_opcodes opcode_register_inc \<lparr>ot_client = [], ot_server = []\<rparr> = Inr t" "holds ?I t"
    by auto
  from register_opcodes_holds [OF t(2) all] registrations_in_range
  obtain u where "register_opcodes opcode_registrations t = Inr u" "holds (?I \<union> ?B) u" by auto
  with t(1) login_closure_ok [OF t(2)] show ?thesis by (simp add: initialize_opcodes_def)
qed

section \<open>Properties\<close>

text \<open>
  C20: The server starts. \<open>InitializeOpcodes\<close> runs through: no two different symbols claim one
  opcode value, no value is outside of the table, and the login closure is registered as its
  metadata says. Afterwards exactly the registered client opcodes are dispatched, each to its own
  handler under its own rule.
\<close>

theorem opcode_tables_initialized:
  "\<exists>t. initialize_opcodes = Inr t \<and>
    (\<forall>v h. lookup_client_opcode t v = Some h \<longleftrightarrow>
       (\<exists>name s p f. DefC v name s p f \<in> set (opcode_register_inc @ opcode_registrations) \<and> s \<noteq> STATUS_UNHANDLED \<and>
          h = \<lparr>oh_name = name, oh_status = s, oh_processing = p, oh_handler = f\<rparr>))"
proof -
  let ?R = "set (opcode_register_inc @ opcode_registrations)"
  obtain t where t: "initialize_opcodes = Inr t" "holds ?R t" using initialize_opcodes_holds by blast
  have slot: "om_get (ot_client t) v = Some h \<longleftrightarrow> (\<exists>name s p f. DefC v name s p f \<in> ?R \<and>
      h = \<lparr>oh_name = name, oh_status = s, oh_processing = p, oh_handler = f\<rparr>)" for v h
  proof -
    have "om_get (ot_client t) v = Some h \<longleftrightarrow> (\<exists>r \<in> ?R. is_def_c r \<and> reg_value r = v \<and> reg_entry r = h)"
      using t(2) unfolding holds_def slots_def by blast
    also have "\<dots> \<longleftrightarrow> (\<exists>name s p f. DefC v name s p f \<in> ?R \<and>
        h = \<lparr>oh_name = name, oh_status = s, oh_processing = p, oh_handler = f\<rparr>)"
      by (metis is_def_c.elims(2) is_def_c.simps(1) reg_entry.simps(1) reg_value.simps(1))
    finally show ?thesis .
  qed
  have range: "v < OPCODE_TABLE_SIZE_nat" if "om_get (ot_client t) v = Some h" for v h
    using that registrations_in_range unfolding slot by force
  have look: "lookup_client_opcode t v = Some h \<longleftrightarrow> om_get (ot_client t) v = Some h \<and> oh_status h \<noteq> STATUS_UNHANDLED" for v h
    using range [of v h]
    by (auto simp: lookup_client_opcode_def client_slot_def unhandled_client_def Let_def split: option.splits if_splits)
  have pull: "(\<exists>n s p f. D v n s p f \<and> h = \<lparr>oh_name = n, oh_status = s, oh_processing = p, oh_handler = f\<rparr>) \<and>
      oh_status h \<noteq> u \<longleftrightarrow>
      (\<exists>n s p f. D v n s p f \<and> s \<noteq> u \<and> h = \<lparr>oh_name = n, oh_status = s, oh_processing = p, oh_handler = f\<rparr>)"
    for D :: "nat \<Rightarrow> string \<Rightarrow> session_status \<Rightarrow> packet_processing \<Rightarrow> string \<Rightarrow> bool" and v h u
    by auto
  have "lookup_client_opcode t v = Some h \<longleftrightarrow> (\<exists>name s p f. DefC v name s p f \<in> ?R \<and> s \<noteq> STATUS_UNHANDLED \<and>
      h = \<lparr>oh_name = name, oh_status = s, oh_processing = p, oh_handler = f\<rparr>)" for v h
    unfolding look slot by (rule pull [where D = "\<lambda>v n s p f. DefC v n s p f \<in> ?R"])
  with t(1) show ?thesis by (intro exI [of _ t] conjI allI)
qed

end
