(* ===== verification/SessionDispatch.thy ===== *)
theory SessionDispatch
  imports Opcodes WorldSessions "HOL-Library.Sublist" "HOL-Library.Multiset"
begin

text \<open>
  How a session runs the packets of its client: \<open>WorldSession::Update\<close> and \<open>ExecuteOpcode\<close>
  (\<open>src/src/game/Server/WorldSession.cpp\<close>) with the two packet filters that divide the packets
  between the world's tick and the tick of the player's map, and \<open>shared/LockedQueue\<close>. The handlers
  and the logout are the game: parameters that may change the session and the game's state \<open>'g\<close>,
  and may throw, but do not reach into the receive queue, which only these functions touch. The
  script engine's veto of a packet (\<open>OnPacketReceive\<close>, under \<open>ENABLE_ELUNA\<close>) is left out: the model
  is that of a build without the engine.
\<close>

section \<open>State\<close>

record session_player =
  sp_in_world :: bool
  sp_can_delay_teleport :: bool
  sp_has_delayed_teleport :: bool

record client_session = world_session +
  cs_player :: "session_player option"
  cs_link_closed :: bool
  cs_recently_logout :: bool
  cs_logout_time :: int

text \<open>\<open>gm_handler name packet\<close> is true where the handler throws a \<open>ByteBufferException\<close>.\<close>

record 'g game =
  gm_handler :: "string \<Rightarrow> world_packet \<Rightarrow> client_session \<times> 'g \<Rightarrow> bool \<times> (client_session \<times> 'g)"
  gm_teleport :: "client_session \<times> 'g \<Rightarrow> client_session \<times> 'g"
  gm_logout :: "client_session \<times> 'g \<Rightarrow> client_session \<times> 'g"
  gm_kick_on_bad_packet :: bool
  gm_tables :: opcode_tables

section \<open>Filters\<close>

datatype packet_filter = MapSessionFilter | WorldSessionFilter

definition packet_opcode :: "world_packet \<Rightarrow> nat" where
  "packet_opcode p = unat (wp_opcode p)"

definition map_session_filter_helper :: "client_session \<Rightarrow> opcode_handler \<Rightarrow> bool" where
  "map_session_filter_helper s h \<longleftrightarrow>
     (if oh_processing h = PROCESS_THREADUNSAFE then False
      else case cs_player s of None \<Rightarrow> False | Some plr \<Rightarrow> sp_in_world plr)"

definition filter_process :: "packet_filter \<Rightarrow> opcode_tables \<Rightarrow> client_session \<Rightarrow> world_packet \<Rightarrow> bool" where
  "filter_process flt t s p =
     (case lookup_client_opcode t (packet_opcode p) of
        None \<Rightarrow> True
      | Some h \<Rightarrow>
          if oh_processing h = PROCESS_INPLACE then True
          else case flt of
                 MapSessionFilter \<Rightarrow> map_session_filter_helper s h
               | WorldSessionFilter \<Rightarrow> \<not> map_session_filter_helper s h)"

definition process_logout :: "packet_filter \<Rightarrow> bool" where
  "process_logout flt = (case flt of MapSessionFilter \<Rightarrow> False | WorldSessionFilter \<Rightarrow> True)"

text \<open>\<open>LockedQueue::next(result, check)\<close>: the first element the filter accepts.\<close>

fun queue_next :: "('a \<Rightarrow> bool) \<Rightarrow> 'a list \<Rightarrow> ('a \<times> 'a list) option" where
  "queue_next check [] = None"
| "queue_next check (x # xs) =
     (if check x then Some (x, xs)
      else case queue_next check xs of None \<Rightarrow> None | Some (y, ys) \<Rightarrow> Some (y, x # ys))"

lemma queue_next_length: "queue_next check xs = Some (y, ys) \<Longrightarrow> length xs = Suc (length ys)"
  by (induction xs arbitrary: ys) (auto split: if_splits option.splits)

section \<open>One packet\<close>

definition set_can_delay :: "bool \<Rightarrow> client_session \<Rightarrow> client_session" where
  "set_can_delay b s = (case cs_player s of None \<Rightarrow> s | Some plr \<Rightarrow> s\<lparr>cs_player := Some (plr\<lparr>sp_can_delay_teleport := b\<rparr>)\<rparr>)"

text \<open>\<open>ExecuteOpcode\<close>: an exception leaves it at the handler call.\<close>

definition execute_opcode :: "'g game \<Rightarrow> opcode_handler \<Rightarrow> world_packet \<Rightarrow> client_session \<times> 'g \<Rightarrow> bool \<times> (client_session \<times> 'g)" where
  "execute_opcode gm h packet sg =
     (let (s, g) = sg;
          (thrown, s, g) = gm_handler gm (oh_handler h) packet (set_can_delay True s, g)
      in if thrown then (True, s, g)
         else let s = set_can_delay False s
              in case cs_player s of
                   None \<Rightarrow> (False, s, g)
                 | Some plr \<Rightarrow> (False, if sp_has_delayed_teleport plr then gm_teleport gm (s, g) else (s, g)))"

definition kick_session :: "client_session \<Rightarrow> client_session" where
  "kick_session s = (if ws_link s = None then s else s\<lparr>cs_link_closed := True\<rparr>)"

text \<open>
  The switch over the handler's status: whether the packet is executed, and the session as the
  handler finds it.
\<close>

definition CMSG_SET_ACTIVE_VOICE_CHANNEL :: nat where "CMSG_SET_ACTIVE_VOICE_CHANNEL = 0x4305"

definition status_switch :: "opcode_handler \<Rightarrow> world_packet \<Rightarrow> client_session \<Rightarrow> client_session option" where
  "status_switch h packet s =
     (case oh_status h of
        STATUS_LOGGEDIN \<Rightarrow>
          (case cs_player s of None \<Rightarrow> None | Some plr \<Rightarrow> if sp_in_world plr then Some s else None)
      | STATUS_LOGGEDIN_OR_RECENTLY_LOGGEDOUT \<Rightarrow>
          if cs_player s = None \<and> \<not> cs_recently_logout s then None else Some s
      | STATUS_TRANSFER \<Rightarrow>
          (case cs_player s of None \<Rightarrow> None | Some plr \<Rightarrow> if sp_in_world plr then None else Some s)
      | STATUS_LOGGEDIN_OR_TRANSFER \<Rightarrow> if cs_player s = None then None else Some s
      | STATUS_AUTHED \<Rightarrow>
          if ws_in_queue s then None
          else Some (if packet_opcode packet \<noteq> CMSG_SET_ACTIVE_VOICE_CHANNEL then s\<lparr>cs_recently_logout := False\<rparr> else s)
      | STATUS_NEVER \<Rightarrow> None
      | STATUS_UNHANDLED \<Rightarrow> None)"

text \<open>
  What became of each packet that was taken out of the queue: the session at that moment, and the
  handler that was called with it, if one was.
\<close>

type_synonym run_log = "(world_packet \<times> client_session \<times> opcode_handler option) list"

definition dispatch_packet :: "'g game \<Rightarrow> world_packet \<Rightarrow> client_session \<times> 'g \<Rightarrow> run_log \<times> (client_session \<times> 'g)" where
  "dispatch_packet gm packet sg =
     (case lookup_client_opcode (gm_tables gm) (packet_opcode packet) of
        None \<Rightarrow> ([(packet, fst sg, None)], sg)
      | Some h \<Rightarrow>
          (case status_switch h packet (fst sg) of
             None \<Rightarrow> ([(packet, fst sg, None)], sg)
           | Some s \<Rightarrow>
               let (thrown, s', g') = execute_opcode gm h packet (s, snd sg)
               in ([(packet, s, Some h)],
                   if thrown \<and> gm_kick_on_bad_packet gm then (kick_session s', g') else (s', g'))))"

section \<open>The tick\<close>

text \<open>
  The loop over the queue. It holds the queue apart from the session; every round takes one packet
  out, so the loop ends.
\<close>

function update_loop :: "packet_filter \<Rightarrow> 'g game \<Rightarrow> world_packet list \<Rightarrow> client_session \<times> 'g \<Rightarrow> run_log \<times> world_packet list \<times> (client_session \<times> 'g)" where
  "update_loop flt gm q sg =
     (if ws_link (fst sg) = None \<or> cs_link_closed (fst sg) then ([], q, sg)
      else case queue_next (filter_process flt (gm_tables gm) (fst sg)) q of
             None \<Rightarrow> ([], q, sg)
           | Some (packet, q') \<Rightarrow>
               let (runs, sg) = dispatch_packet gm packet sg;
                   (rest, q'', sg) = update_loop flt gm q' sg
               in (runs @ rest, q'', sg))"
  by pat_completeness auto
termination
  by (relation "measure (\<lambda>(flt, gm, q, sg). length q)") (auto dest: queue_next_length)

declare update_loop.simps [simp del]

definition should_log_out :: "client_session \<Rightarrow> int \<Rightarrow> bool" where
  "should_log_out s currTime \<longleftrightarrow> cs_logout_time s > 0 \<and> currTime \<ge> cs_logout_time s + 20"

text \<open>\<open>Update\<close>; the first result is false when the world is to remove the session.\<close>

definition session_update :: "packet_filter \<Rightarrow> 'g game \<Rightarrow> int \<Rightarrow> client_session \<times> 'g \<Rightarrow> bool \<times> run_log \<times> (client_session \<times> 'g)" where
  "session_update flt gm now sg =
     (let (runs, q, s, g) = update_loop flt gm (ws_recv_queue (fst sg)) sg;
          s = s\<lparr>ws_recv_queue := q\<rparr>;
          s = (if ws_link s \<noteq> None \<and> cs_link_closed s then s\<lparr>ws_link := None\<rparr> else s)
      in if process_logout flt
         then let (s, g) = (if ws_link s = None \<or> should_log_out s now \<and> \<not> ws_player_loading s
                            then gm_logout gm (s, g) else (s, g))
              in (ws_link s \<noteq> None, runs, s, g)
         else (True, runs, s, g))"

section \<open>What may run\<close>

lemma queue_next_split:
  "queue_next check q = Some (p, q') \<Longrightarrow> \<exists>xs ys. q = xs @ p # ys \<and> q' = xs @ ys \<and> check p \<and> (\<forall>x \<in> set xs. \<not> check x)"
proof (induction q arbitrary: q')
  case (Cons a q)
  show ?case
  proof (cases "check a")
    case True
    then show ?thesis using Cons.prems by (intro exI [of _ "[]"] exI [of _ q]) auto
  next
    case False
    then obtain r where r: "queue_next check q = Some (p, r)" "q' = a # r"
      using Cons.prems by (auto split: option.splits)
    from Cons.IH [OF r(1)] obtain xs ys where "q = xs @ p # ys" "r = xs @ ys" "check p" "\<forall>x \<in> set xs. \<not> check x" by blast
    with r False show ?thesis by (intro exI [of _ "a # xs"] exI [of _ ys]) auto
  qed
qed simp

lemma queue_next_None: "queue_next check q = None \<longleftrightarrow> (\<forall>x \<in> set q. \<not> check x)"
  by (induction q) (auto split: option.splits)

text \<open>The two halves of \<open>admissible\<close>: the filter and the status.\<close>

definition right_thread :: "packet_filter \<Rightarrow> opcode_handler \<Rightarrow> client_session \<Rightarrow> bool" where
  "right_thread flt h s \<longleftrightarrow> oh_processing h = PROCESS_INPLACE \<or>
     (oh_processing h = PROCESS_THREADSAFE \<and> (\<exists>plr. cs_player s = Some plr \<and> sp_in_world plr)) = (flt = MapSessionFilter)"

lemma filter_process_eq:
  "lookup_client_opcode t (packet_opcode p) = Some h \<Longrightarrow> filter_process flt t s p = right_thread flt h s"
  by (cases flt; cases "oh_processing h"; cases "cs_player s")
    (auto simp: filter_process_def right_thread_def map_session_filter_helper_def)

definition right_status :: "opcode_handler \<Rightarrow> client_session \<Rightarrow> bool" where
  "right_status h s \<longleftrightarrow>
     (case oh_status h of
        STATUS_LOGGEDIN \<Rightarrow> \<exists>plr. cs_player s = Some plr \<and> sp_in_world plr
      | STATUS_TRANSFER \<Rightarrow> \<exists>plr. cs_player s = Some plr \<and> \<not> sp_in_world plr
      | STATUS_LOGGEDIN_OR_TRANSFER \<Rightarrow> cs_player s \<noteq> None
      | STATUS_LOGGEDIN_OR_RECENTLY_LOGGEDOUT \<Rightarrow> cs_player s \<noteq> None \<or> cs_recently_logout s
      | STATUS_AUTHED \<Rightarrow> \<not> ws_in_queue s
      | STATUS_NEVER \<Rightarrow> False
      | STATUS_UNHANDLED \<Rightarrow> False)"

lemma status_switch_SomeD:
  assumes "status_switch h p s0 = Some s"
  shows "right_status h s" and "ws_link s = ws_link s0" and "cs_link_closed s = cs_link_closed s0"
    and "cs_player s = cs_player s0"
  using assms unfolding status_switch_def right_status_def
  by (cases "oh_status h"; simp split: option.splits if_splits; auto)+

lemma status_switch_None: "status_switch h p s = None \<longleftrightarrow> \<not> right_status h s"
  unfolding status_switch_def right_status_def
  by (cases "oh_status h"; simp split: option.splits if_splits)

definition admissible :: "packet_filter \<Rightarrow> opcode_tables \<Rightarrow> world_packet \<times> client_session \<times> opcode_handler option \<Rightarrow> bool" where
  "admissible flt t r =
     (case r of (p, s, called) \<Rightarrow>
        \<not> cs_link_closed s \<and> ws_link s \<noteq> None \<and>
        (case lookup_client_opcode t (packet_opcode p) of
           None \<Rightarrow> called = None
         | Some h \<Rightarrow> right_thread flt h s \<and> called = (if right_status h s then Some h else None)))"

lemma admissible_calledD:
  "admissible flt t (p, s, Some h) \<Longrightarrow> lookup_client_opcode t (packet_opcode p) = Some h \<and> right_status h s"
  by (auto simp: admissible_def split: option.splits if_splits)

lemma dispatch_admissible:
  assumes "ws_link (fst sg) \<noteq> None" and "\<not> cs_link_closed (fst sg)" and "filter_process flt (gm_tables gm) (fst sg) p"
    and "dispatch_packet gm p sg = (runs, sg')"
  shows "list_all (admissible flt (gm_tables gm)) runs"
proof (cases "lookup_client_opcode (gm_tables gm) (packet_opcode p)")
  case None
  then show ?thesis using assms by (auto simp: dispatch_packet_def admissible_def)
next
  case (Some h)
  note lk = Some
  note thread = assms(3) [unfolded filter_process_eq [OF lk]]
  show ?thesis
  proof (cases "status_switch h p (fst sg)")
    case None
    then have "runs = [(p, fst sg, None)]" using lk assms(4) by (auto simp: dispatch_packet_def)
    moreover have "\<not> right_status h (fst sg)" using None status_switch_None by blast
    ultimately show ?thesis using lk thread assms(1,2) by (simp add: admissible_def)
  next
    case (Some s)
    have runs: "runs = [(p, s, Some h)]"
      using Some lk assms(4) by (auto simp: dispatch_packet_def split: prod.splits)
    note s = status_switch_SomeD [OF Some]
    have "right_thread flt h s" using thread s(4) by (simp add: right_thread_def)
    with s assms(1,2) lk show ?thesis unfolding runs by (simp add: admissible_def)
  qed
qed

lemma dispatch_one: "dispatch_packet gm p sg = (runs, sg') \<Longrightarrow> map fst runs = [p]"
  by (auto simp: dispatch_packet_def split: option.splits prod.splits)

section \<open>The loop\<close>

text \<open>Every packet is taken once or stays, and only admissible handlers run.\<close>

lemma update_loop_spec:
  "update_loop flt gm q sg = (runs, q', sg') \<Longrightarrow>
     list_all (admissible flt (gm_tables gm)) runs \<and> subseq q' q \<and> mset (map fst runs) + mset q' = mset q \<and>
     (ws_link (fst sg') = None \<or> cs_link_closed (fst sg') \<or> (\<forall>p \<in> set q'. \<not> filter_process flt (gm_tables gm) (fst sg') p))"
proof (induction flt gm q sg arbitrary: runs q' sg' rule: update_loop.induct)
  case (1 flt gm q sg)
  show ?case
  proof (cases "ws_link (fst sg) = None \<or> cs_link_closed (fst sg)")
    case True
    then show ?thesis using "1.prems" by (auto simp: update_loop.simps [of flt gm q sg])
  next
    case open_link: False
    show ?thesis
    proof (cases "queue_next (filter_process flt (gm_tables gm) (fst sg)) q")
      case None
      then have "runs = []" "q' = q" "sg' = sg" using "1.prems" open_link by (auto simp: update_loop.simps [of flt gm q sg])
      then show ?thesis using iffD1 [OF queue_next_None None] by simp
    next
      case (Some pr)
      then obtain p r where n: "queue_next (filter_process flt (gm_tables gm) (fst sg)) q = Some (p, r)" by (cases pr) auto
      obtain runs1 sg1 where d: "dispatch_packet gm p sg = (runs1, sg1)" by (metis surj_pair)
      obtain runs2 sg2 q2 where l: "update_loop flt gm r sg1 = (runs2, q2, sg2)" by (metis surj_pair)
      have res: "runs = runs1 @ runs2" "q' = q2" "sg' = sg2"
        using "1.prems" open_link n d l by (auto simp: update_loop.simps [of flt gm q sg])
      from queue_next_split [OF n] obtain xs ys where q: "q = xs @ p # ys" "r = xs @ ys"
        "filter_process flt (gm_tables gm) (fst sg) p" by blast
      note ih = "1.IH" [OF _ n refl d [symmetric] refl l]
      have "subseq r q" unfolding q(1,2) by (intro list_emb_append_mono) auto
      then have "subseq q2 q" using ih open_link subseq_order.order_trans by blast
      moreover have "mset (map fst (runs1 @ runs2)) + mset q2 = mset q"
        using ih open_link dispatch_one [OF d] by (simp add: q(1,2))
      moreover have "list_all (admissible flt (gm_tables gm)) runs1"
        using dispatch_admissible [OF _ _ q(3) d] open_link by simp
      ultimately show ?thesis unfolding res using ih open_link by simp
    qed
  qed
qed

section \<open>With the tables of this core\<close>

text \<open>No registered handler is thread-safe, so the map's tick runs only the in-place ones.\<close>

definition core_opcode_tables :: opcode_tables where
  "core_opcode_tables = (case initialize_opcodes of Inr t \<Rightarrow> t | Inl e \<Rightarrow> \<lparr>ot_client = [], ot_server = []\<rparr>)"

lemma core_opcode_tables: "initialize_opcodes = Inr core_opcode_tables"
proof (cases initialize_opcodes)
  case (Inl e)
  then show ?thesis using initialize_opcodes_holds by (metis sum.distinct(1))
next
  case (Inr t)
  then show ?thesis unfolding core_opcode_tables_def by (metis sum.case(2))
qed

fun never_threadsafe :: "opcode_registration \<Rightarrow> bool" where
  "never_threadsafe (DefC v n s p h) = (p \<noteq> PROCESS_THREADSAFE)"
| "never_threadsafe (DefS v n) = True"

text \<open>The handlers a client can reach before it has a player, and those it can reach just after.\<close>

definition character_screen_handlers :: "string list" where
  "character_screen_handlers =
     [''HandleCharCreateOpcode'', ''HandleCharCustomizeOpcode'', ''HandleCharDeleteOpcode'', ''HandleCharEnumOpcode'',
      ''HandleLoadScreenOpcode'', ''HandlePlayerLoginOpcode'', ''HandleRandomizeCharNameOpcode'',
      ''HandleReadyForAccountDataTimesOpcode'', ''HandleRealmSplitOpcode'', ''HandleRequestAccountData'',
      ''HandleSetActionBarTogglesOpcode'', ''HandleUpdateAccountData'', ''HandleRequestHotfix'',
      ''HandleViolenceLevelOpcode'', ''HandleBattlePayGetPurchaseListOpcode'', ''HandleBattlePayGetProductListOpcode'']"

definition logged_out_handlers :: "string list" where
  "logged_out_handlers = [''HandleCancelTradeOpcode'', ''HandleDiscardedTimeSyncAcks'']"

fun screen_only :: "opcode_registration \<Rightarrow> bool" where
  "screen_only (DefC v n STATUS_AUTHED p h) = (h \<in> set character_screen_handlers)"
| "screen_only (DefC v n STATUS_LOGGEDIN p h) = True"
| "screen_only (DefC v n STATUS_TRANSFER p h) = True"
| "screen_only (DefC v n STATUS_LOGGEDIN_OR_TRANSFER p h) = True"
| "screen_only (DefC v n STATUS_LOGGEDIN_OR_RECENTLY_LOGGEDOUT p h) = (h \<in> set logged_out_handlers)"
| "screen_only (DefC v n STATUS_NEVER p h) = True"
| "screen_only (DefC v n STATUS_UNHANDLED p h) = True"
| "screen_only (DefS v n) = True"

lemma list_all_eval: "list_all P []" "list_all P (x # xs) = (P x \<and> list_all P xs)"
  by simp_all

lemmas screen_eval = list_all_eval screen_only.simps never_threadsafe.simps packet_processing.distinct simp_thms

lemma opcode_register_inc_statuses: "list_all screen_only opcode_register_inc" "list_all never_threadsafe opcode_register_inc"
  unfolding opcode_register_inc_def by (simp_all only: screen_eval) (simp_all add: character_screen_handlers_def logged_out_handlers_def)?

lemma opcode_registrations_1_statuses: "list_all screen_only opcode_registrations_1" "list_all never_threadsafe opcode_registrations_1"
  unfolding opcode_registrations_1_def by (simp_all only: screen_eval) (simp_all add: character_screen_handlers_def logged_out_handlers_def)?

lemma opcode_registrations_2_statuses: "list_all screen_only opcode_registrations_2" "list_all never_threadsafe opcode_registrations_2"
  unfolding opcode_registrations_2_def by (simp_all only: screen_eval) (simp_all add: character_screen_handlers_def logged_out_handlers_def)?

lemma opcode_registrations_3_statuses: "list_all screen_only opcode_registrations_3" "list_all never_threadsafe opcode_registrations_3"
  unfolding opcode_registrations_3_def by (simp_all only: screen_eval) (simp_all add: character_screen_handlers_def logged_out_handlers_def)?

lemma opcode_registrations_4_statuses: "list_all screen_only opcode_registrations_4" "list_all never_threadsafe opcode_registrations_4"
  unfolding opcode_registrations_4_def by (simp_all only: screen_eval) (simp_all add: character_screen_handlers_def logged_out_handlers_def)?

lemma opcode_registrations_5_statuses: "list_all screen_only opcode_registrations_5" "list_all never_threadsafe opcode_registrations_5"
  unfolding opcode_registrations_5_def by (simp_all only: screen_eval) (simp_all add: character_screen_handlers_def logged_out_handlers_def)?

lemma opcode_registrations_6_statuses: "list_all screen_only opcode_registrations_6" "list_all never_threadsafe opcode_registrations_6"
  unfolding opcode_registrations_6_def by (simp_all only: screen_eval) (simp_all add: character_screen_handlers_def logged_out_handlers_def)?

lemma opcode_registrations_7_statuses: "list_all screen_only opcode_registrations_7" "list_all never_threadsafe opcode_registrations_7"
  unfolding opcode_registrations_7_def by (simp_all only: screen_eval) (simp_all add: character_screen_handlers_def logged_out_handlers_def)?

lemma opcode_registrations_8_statuses: "list_all screen_only opcode_registrations_8" "list_all never_threadsafe opcode_registrations_8"
  unfolding opcode_registrations_8_def by (simp_all only: screen_eval) (simp_all add: character_screen_handlers_def logged_out_handlers_def)?

lemma opcode_registrations_9_statuses: "list_all screen_only opcode_registrations_9" "list_all never_threadsafe opcode_registrations_9"
  unfolding opcode_registrations_9_def by (simp_all only: screen_eval) (simp_all add: character_screen_handlers_def logged_out_handlers_def)?

lemma opcode_registrations_10_statuses: "list_all screen_only opcode_registrations_10" "list_all never_threadsafe opcode_registrations_10"
  unfolding opcode_registrations_10_def by (simp_all only: screen_eval) (simp_all add: character_screen_handlers_def logged_out_handlers_def)?

lemma registrations_statuses:
  "list_all screen_only (opcode_register_inc @ opcode_registrations)"
  "list_all never_threadsafe (opcode_register_inc @ opcode_registrations)"
  unfolding opcode_registrations_def list_all_append
  by (simp_all only: opcode_register_inc_statuses
    opcode_registrations_1_statuses
    opcode_registrations_2_statuses
    opcode_registrations_3_statuses
    opcode_registrations_4_statuses
    opcode_registrations_5_statuses
    opcode_registrations_6_statuses
    opcode_registrations_7_statuses
    opcode_registrations_8_statuses
    opcode_registrations_9_statuses
    opcode_registrations_10_statuses simp_thms)

lemma core_lookup:
  assumes "initialize_opcodes = Inr t" and "lookup_client_opcode t v = Some h"
  shows "oh_processing h \<noteq> PROCESS_THREADSAFE" and "oh_status h = STATUS_AUTHED \<Longrightarrow> oh_handler h \<in> set character_screen_handlers"
    and "oh_status h = STATUS_LOGGEDIN_OR_RECENTLY_LOGGEDOUT \<Longrightarrow> oh_handler h \<in> set logged_out_handlers"
proof -
  let ?R = "set (opcode_register_inc @ opcode_registrations)"
  obtain u where "initialize_opcodes = Inr u" "holds ?R u" using initialize_opcodes_holds by blast
  with assms(1) have "holds ?R t" by (metis sum.inject(2))
  then have "om_get (ot_client t) v = Some h' \<Longrightarrow> \<exists>r \<in> ?R. is_def_c r \<and> reg_entry r = h'" for h'
    unfolding holds_def slots_def by blast
  moreover have "om_get (ot_client t) v = Some h"
    using assms(2) by (auto simp: lookup_client_opcode_def client_slot_def unhandled_client_def Let_def split: option.splits if_splits)
  ultimately obtain r where r: "r \<in> ?R" "is_def_c r" "reg_entry r = h" by blast
  then have "screen_only r" "never_threadsafe r" using registrations_statuses unfolding list_all_iff by blast+
  with r(2,3) show "oh_processing h \<noteq> PROCESS_THREADSAFE"
    and "oh_status h = STATUS_AUTHED \<Longrightarrow> oh_handler h \<in> set character_screen_handlers"
    and "oh_status h = STATUS_LOGGEDIN_OR_RECENTLY_LOGGEDOUT \<Longrightarrow> oh_handler h \<in> set logged_out_handlers"
    by (cases r; auto)+
qed

text \<open>So the world's tick takes the packets strictly in their order.\<close>

lemma world_filter_all:
  "initialize_opcodes = Inr t \<Longrightarrow> filter_process WorldSessionFilter t s p"
  using core_lookup(1) [of t "packet_opcode p"]
  by (cases "lookup_client_opcode t (packet_opcode p)")
    (auto simp: filter_process_def map_session_filter_helper_def intro: packet_processing.exhaust)

lemma queue_next_head: "(\<And>x. check x) \<Longrightarrow> queue_next check q = (case q of [] \<Rightarrow> None | x # xs \<Rightarrow> Some (x, xs))"
  by (cases q) simp_all

lemma update_loop_in_order:
  assumes "initialize_opcodes = Inr (gm_tables gm)"
  shows "update_loop WorldSessionFilter gm q sg = (runs, q', sg') \<Longrightarrow>
     q = map fst runs @ q' \<and> (q' = [] \<or> ws_link (fst sg') = None \<or> cs_link_closed (fst sg'))"
proof (induction q arbitrary: sg runs)
  case Nil
  then show ?case by (auto simp: update_loop.simps [of _ _ "[]"] split: if_splits)
next
  case (Cons p q)
  show ?case
  proof (cases "ws_link (fst sg) = None \<or> cs_link_closed (fst sg)")
    case True
    then show ?thesis using Cons.prems by (auto simp: update_loop.simps)
  next
    case False
    obtain runs1 sg1 where d: "dispatch_packet gm p sg = (runs1, sg1)" by (metis surj_pair)
    obtain runs2 sg2 q2 where l: "update_loop WorldSessionFilter gm q sg1 = (runs2, q2, sg2)" by (metis surj_pair)
    have "queue_next (filter_process WorldSessionFilter (gm_tables gm) (fst sg)) (p # q) = Some (p, q)"
      using world_filter_all [OF assms] by simp
    with False d l Cons.prems have r: "runs = runs1 @ runs2" "q' = q2" "sg' = sg2"
      by (auto simp: update_loop.simps [of _ gm "p # q" sg])
    with Cons.IH [OF l [folded r]] dispatch_one [OF d] show ?thesis by simp
  qed
qed

section \<open>Properties\<close>

text \<open>
  C19: Handlers run exactly where their registration allows it, and no packet is lost. Whatever
  handlers do, on either thread, every packet that is taken out of the queue is taken with the link
  open, and its registered handler is called if the session is in the registered state and not
  otherwise: a handler for players in the world finds one, a handler for transfers finds a player
  outside of it, one of the character screen is not run while the client waits in the login queue,
  and thread-unsafe handlers are never run by the map's tick. The packets taken and the packets that
  stay are together the packets that were there, each as often as it was: none is lost, none handled
  twice. Those that stay keep their order, and when the link is still open they are those of the
  other thread.
\<close>

theorem session_runs_admissible:
  "case update_loop flt gm q sg of (runs, q', s, g) \<Rightarrow>
     list_all (admissible flt (gm_tables gm)) runs \<and>
     mset (map fst runs) + mset q' = mset q \<and> subseq q' q \<and>
     (ws_link s = None \<or> cs_link_closed s \<or> list_all (Not \<circ> filter_process flt (gm_tables gm) s) q')"
proof -
  obtain runs q' s g where l: "update_loop flt gm q sg = (runs, q', s, g)" by (metis surj_pair)
  from update_loop_spec [OF this] show ?thesis by (simp add: l list_all_iff)
qed

text \<open>
  C21: With the opcodes of this core, the world's tick takes the packets of a client in exactly their
  order, from the first on, and empties the queue unless the link closes. A handler that runs while
  the client has no player is one of the sixteen of the character screen, or, while the client is
  still marked as having just logged one out, \<open>HandleCancelTradeOpcode\<close> or
  \<open>HandleDiscardedTimeSyncAcks\<close>.
\<close>

theorem world_tick_serves_in_order:
  "case update_loop WorldSessionFilter (gm\<lparr>gm_tables := core_opcode_tables\<rparr>) q sg of (runs, q', s, g) \<Rightarrow>
     q = map fst runs @ q' \<and>
     (q' = [] \<or> ws_link s = None \<or> cs_link_closed s) \<and>
     list_all (\<lambda>(p, s, called). case called of None \<Rightarrow> True
         | Some h \<Rightarrow> oh_handler h \<in> set (character_screen_handlers @ (if cs_recently_logout s then logged_out_handlers else [])))
       (filter (\<lambda>(p, s, called). cs_player s = None) runs)"
proof -
  let ?gm = "gm\<lparr>gm_tables := core_opcode_tables\<rparr>"
  obtain runs q' s g where l: "update_loop WorldSessionFilter ?gm q sg = (runs, q', s, g)" by (metis surj_pair)
  have core: "initialize_opcodes = Inr (gm_tables ?gm)" using core_opcode_tables by simp
  have "oh_handler h \<in> set (character_screen_handlers @ (if cs_recently_logout s then logged_out_handlers else []))"
    if ran: "(p, s, Some h) \<in> set runs" and alone: "cs_player s = None" for h p s
  proof -
    have "admissible WorldSessionFilter (gm_tables ?gm) (p, s, Some h)"
      using update_loop_spec [OF l] ran by (simp add: list_all_iff)
    then have h: "lookup_client_opcode core_opcode_tables (packet_opcode p) = Some h" "right_status h s"
      using admissible_calledD by fastforce+
    then consider "oh_status h = STATUS_AUTHED"
      | "oh_status h = STATUS_LOGGEDIN_OR_RECENTLY_LOGGEDOUT" "cs_recently_logout s"
      using alone by (cases "oh_status h") (auto simp: right_status_def)
    then show ?thesis using core_lookup(2,3) [OF core_opcode_tables h(1)] by cases auto
  qed
  moreover note update_loop_in_order [OF core l]
  ultimately show ?thesis unfolding l prod.case list_all_iff by (auto split: option.split)
qed

end
