(* ===== verification/Currencies.thy ===== *)
theory Currencies
  imports PacketWriter
begin

text \<open>
  The currencies of a player (\<open>src/src/game/Object/CurrencyMgr.h\<close>, \<open>.cpp\<close>): points with a total and a
  weekly cap, their packets, and the rows of \<open>character_currencies\<close> they are loaded from and saved
  to. An \<open>int32\<close> is an integer whose arithmetic is \<open>checked\<close>: a signed overflow, undefined in C++, is
  an error. A \<open>uint32\<close> is a word.
\<close>

section \<open>Data\<close>

record currency_entry =
  ce_id :: u32
  ce_category :: u32
  ce_max_qty :: u32
  ce_max_per_week :: u32
  ce_flags :: u32

definition CURRENCY_CATEGORY_META :: u32 where "CURRENCY_CATEGORY_META = 89"
definition CURRENCY_FLAG_HAS_PRECISION :: u32 where "CURRENCY_FLAG_HAS_PRECISION = 0x08"
definition CURRENCY_FLAG_HAS_SEASON_COUNT :: u32 where "CURRENCY_FLAG_HAS_SEASON_COUNT = 0x80"
definition CURRENCY_CONQUEST_POINTS :: u32 where "CURRENCY_CONQUEST_POINTS = 390"
definition CURRENCY_CONQUEST_ARENA_META :: u32 where "CURRENCY_CONQUEST_ARENA_META = 483"
definition CURRENCY_CONQUEST_BG_META :: u32 where "CURRENCY_CONQUEST_BG_META = 484"

definition has_precision :: "currency_entry \<Rightarrow> bool" where
  "has_precision e \<longleftrightarrow> ce_flags e AND CURRENCY_FLAG_HAS_PRECISION \<noteq> 0"

definition has_season_count :: "currency_entry \<Rightarrow> bool" where
  "has_season_count e \<longleftrightarrow> ce_flags e AND CURRENCY_FLAG_HAS_SEASON_COUNT \<noteq> 0"

text \<open>\<open>GetPrecision\<close> is \<open>100.0f\<close> or \<open>1.0f\<close>.\<close>

definition get_precision :: "currency_entry \<Rightarrow> nat" where
  "get_precision e = (if has_precision e then 100 else 1)"

datatype currency_row_state =
  PLAYERCURRENCY_UNCHANGED | PLAYERCURRENCY_CHANGED | PLAYERCURRENCY_NEW | PLAYERCURRENCY_REMOVED

definition PLAYERCURRENCY_MASK_USED_BY_CLIENT :: u8 where "PLAYERCURRENCY_MASK_USED_BY_CLIENT = 0x4 OR 0x8"

record player_currency =
  pc_state :: currency_row_state
  pc_total :: u32
  pc_week :: u32
  pc_season :: u32
  pc_flags :: u8
  pc_entry :: currency_entry

text \<open>
  The rows of one character. Statements are executed one by one in their order: an update changes
  the matching rows only, an insert adds a row.
\<close>

record currency_row =
  cw_id :: u32
  cw_total :: u32
  cw_week :: u32
  cw_season :: u32
  cw_flags :: u8

text \<open>
  What the manager reads: the currency store and the configured weekly cap for conquest points; and
  of its owner, at the time of a call, the gain multiplier (applied to an \<open>int32\<close>) and whether the
  player can be told.
\<close>

record currency_config =
  cf_lookup :: "u32 \<Rightarrow> currency_entry option"
  cf_conquest_week_cap :: u32

record currency_owner =
  co_gain :: "u32 \<Rightarrow> int \<Rightarrow> int"
  co_in_world :: bool
  co_loading :: bool

datatype currency_error = SignedOverflow | FloatOverflow | NoCurrencyEntry | CurrencyPacket bb_error

datatype currency_effect =
    CurrencySend world_packet
  | CurrencyDirect world_packet
  | CurrencyEarned u32 u32
  | CurrencyAddedQuestCheck u32
  | CurrencyRemovedQuestCheck u32

text \<open>
  The map is unordered in the code; its iteration order matters only for the order of the entries in
  \<open>SMSG_SETUP_CURRENCY\<close>, which is the order of the keys here.
\<close>

record currency_state =
  cu_map :: "(u32, player_currency) omap"
  cu_rows :: "currency_row list"
  cu_out :: "currency_effect list"

definition checked :: "int \<Rightarrow> currency_error + int" where
  "checked n = (if - (2 ^ 31) \<le> n \<and> n < 2 ^ 31 then Inr n else Inl SignedOverflow)"

definition currency_packet :: "bb_error + world_packet \<Rightarrow> currency_error + world_packet" where
  "currency_packet m = (case m of Inl e \<Rightarrow> Inl (CurrencyPacket e) | Inr p \<Rightarrow> Inr p)"

definition currency_emit :: "currency_effect \<Rightarrow> currency_state \<Rightarrow> currency_state" where
  "currency_emit x c = c\<lparr>cu_out := cu_out c @ [x]\<rparr>"

section \<open>Packets\<close>

definition SMSG_SET_CURRENCY_WEEK_LIMIT :: u16 where "SMSG_SET_CURRENCY_WEEK_LIMIT = 0x0E2A"
definition SMSG_WEEKLY_RESET_CURRENCIES :: u16 where "SMSG_WEEKLY_RESET_CURRENCIES = 0x023E"
definition SMSG_UPDATE_CURRENCY :: u16 where "SMSG_UPDATE_CURRENCY = 0x129E"
definition SMSG_SETUP_CURRENCY :: u16 where "SMSG_SETUP_CURRENCY = 0x1A8B"

definition build_set_currency_week_limit :: "u32 \<Rightarrow> u32 \<Rightarrow> writer" where
  "build_set_currency_week_limit weekCap currencyId = chain [put_u32 weekCap, put_u32 currencyId]"

record currency_update =
  cup_currency :: u32
  cup_context :: u32
  cup_total :: u32
  cup_has_weekly :: bool
  cup_suppress :: bool
  cup_has_tracked :: bool
  cup_weekly :: u32
  cup_tracked :: u32

definition build_update_currency :: "currency_update \<Rightarrow> writer" where
  "build_update_currency u =
     chain [put_u32 (cup_currency u), put_u32 (cup_context u), put_u32 (cup_total u),
            write_bit (cup_has_weekly u), write_bit (cup_suppress u), write_bit (cup_has_tracked u),
            if cup_has_weekly u then put_u32 (cup_weekly u) else Inr,
            if cup_has_tracked u then put_u32 (cup_tracked u) else Inr,
            flush_bits]"

record currency_setup =
  cse_currency :: u32
  cse_total :: u32
  cse_weekly :: u32
  cse_tracked :: u32
  cse_maximum :: u32
  cse_flags :: u8
  cse_has_weekly :: bool
  cse_has_tracked :: bool
  cse_has_maximum :: bool

definition setup_entry_bits :: "currency_setup \<Rightarrow> writer list" where
  "setup_entry_bits e =
     [write_bit (cse_has_tracked e), write_bits (cse_flags e) 3, write_bit (cse_has_maximum e), write_bit (cse_has_weekly e)]"

definition setup_entry_bytes :: "currency_setup \<Rightarrow> writer list" where
  "setup_entry_bytes e =
     [if cse_has_weekly e then put_u32 (cse_weekly e) else Inr,
      put_u32 (cse_currency e),
      if cse_has_tracked e then put_u32 (cse_tracked e) else Inr,
      put_u32 (cse_total e),
      if cse_has_maximum e then put_u32 (cse_maximum e) else Inr]"

text \<open>\<open>None\<close> is the result \<open>false\<close>.\<close>

definition build_setup_currency :: "currency_setup list \<Rightarrow> world_packet \<Rightarrow> bb_error + world_packet option" where
  "build_setup_currency entries out =
     (if length entries > 0x7FFFF then Inr None
      else if \<exists>e \<in> set entries. cse_flags e > 7 then Inr None
      else sum_bind (chain (write_bits (of_nat (length entries) :: u64) 19 # concat (map setup_entry_bits entries) @
                            concat (map setup_entry_bytes entries) @ [flush_bits]) out)
             (\<lambda>p. Inr (Some p)))"

section \<open>Caps\<close>

definition get_count :: "currency_state \<Rightarrow> u32 \<Rightarrow> u32" where
  "get_count c id' = (case om_get (cu_map c) id' of None \<Rightarrow> 0 | Some p \<Rightarrow> pc_total p)"

definition get_season_count :: "currency_state \<Rightarrow> u32 \<Rightarrow> u32" where
  "get_season_count c id' = (case om_get (cu_map c) id' of None \<Rightarrow> 0 | Some p \<Rightarrow> pc_season p)"

definition get_week_count :: "currency_state \<Rightarrow> u32 \<Rightarrow> u32" where
  "get_week_count c id' = (case om_get (cu_map c) id' of None \<Rightarrow> 0 | Some p \<Rightarrow> pc_week p)"

definition get_week_cap :: "currency_config \<Rightarrow> currency_entry \<Rightarrow> u32" where
  "get_week_cap cf e = (if ce_id e = CURRENCY_CONQUEST_POINTS then cf_conquest_week_cap cf else ce_max_per_week e)"

definition get_total_cap :: "currency_entry \<Rightarrow> u32" where
  "get_total_cap e = ce_max_qty e"

text \<open>
  \<open>floor(cap / currency->GetPrecision())\<close> in single precision: the conversion of \<open>cap\<close> and the quotient
  are rounded to 24 binary digits, ties to even. Converting a quotient of 2^32, to which a cap just
  below it rounds up, back to \<open>uint32\<close> is undefined: the error \<open>FloatOverflow\<close>.
\<close>

definition round_half_even :: "nat \<Rightarrow> nat \<Rightarrow> nat" where
  "round_half_even n d =
     (let q = n div d; r = n mod d
      in if 2 * r < d \<or> 2 * r = d \<and> even q then q else q + 1)"

fun bit_length :: "nat \<Rightarrow> nat" where
  "bit_length n = (if n = 0 then 0 else Suc (bit_length (n div 2)))"

declare bit_length.simps [simp del]

definition to_float :: "nat \<Rightarrow> nat" where
  "to_float n = (let k = bit_length n - 24 in round_half_even n (2 ^ k) * 2 ^ k)"

definition float_quotient :: "nat \<Rightarrow> nat \<Rightarrow> nat" where
  "float_quotient x p =
     (let l = bit_length (x div p)
      in if l \<le> 24 then round_half_even (x * 2 ^ (24 - l)) p div 2 ^ (24 - l)
         else round_half_even x (p * 2 ^ (l - 24)) * 2 ^ (l - 24))"

definition send_week_cap :: "currency_config \<Rightarrow> currency_owner \<Rightarrow> currency_entry option \<Rightarrow> currency_state \<Rightarrow> currency_error + currency_state" where
  "send_week_cap cf own currency c =
     (case currency of
        None \<Rightarrow> Inr c
      | Some e \<Rightarrow>
          if \<not> co_in_world own \<or> co_loading own then Inr c
          else let cap = get_week_cap cf e;
                   shown = float_quotient (to_float (unat cap)) (get_precision e)
               in if cap = 0 then Inr c
                  else if 2 ^ 32 \<le> shown then Inl FloatOverflow
                  else sum_bind (currency_packet (build_set_currency_week_limit (of_nat shown) (ce_id e)
                                   (world_packet_new SMSG_SET_CURRENCY_WEEK_LIMIT)))
                         (\<lambda>p. Inr (currency_emit (CurrencySend p) c)))"

definition send_week_cap_id :: "currency_config \<Rightarrow> currency_owner \<Rightarrow> u32 \<Rightarrow> currency_state \<Rightarrow> currency_error + currency_state" where
  "send_week_cap_id cf own id' c = send_week_cap cf own (cf_lookup cf id') c"

section \<open>Changing a count\<close>

text \<open>The new total and weekly count: first the total cap, then the weekly cap.\<close>

definition capped_counts :: "currency_config \<Rightarrow> currency_entry \<Rightarrow> bool \<Rightarrow> int \<Rightarrow> int \<Rightarrow> int \<Rightarrow> currency_error + int \<times> int" where
  "capped_counts cf e modifyWeek oldTotal oldWeek count =
     sum_bind (checked (oldTotal + count)) (\<lambda>total.
     let total = (if total < 0 then 0 else total) in
     sum_bind (checked (oldWeek + (if modifyWeek \<and> count > 0 then count else 0))) (\<lambda>week.
     let week = (if week < 0 then 0 else week); totalCap = sint (get_total_cap e) in
     sum_bind (if totalCap \<noteq> 0 \<and> totalCap < total
               then sum_bind (checked (total - totalCap)) (\<lambda>delta.
                    sum_bind (checked (week - delta)) (\<lambda>week. Inr (totalCap, week)))
               else Inr (total, week)) (\<lambda>(total, week).
     let weekCap = sint (get_week_cap cf e) in
     if modifyWeek \<and> weekCap \<noteq> 0 \<and> week > weekCap
     then sum_bind (checked (week - weekCap)) (\<lambda>delta.
          sum_bind (checked (total - delta)) (\<lambda>total. Inr (total, weekCap)))
     else Inr (total, week))))"

text \<open>What the client is told of a change.\<close>

definition update_of :: "currency_config \<Rightarrow> u32 \<Rightarrow> currency_entry \<Rightarrow> bool \<Rightarrow> u32 \<Rightarrow> u32 \<Rightarrow> u32 \<Rightarrow> int \<Rightarrow> currency_update" where
  "update_of cf id' e modifyWeek quantity week season diff =
     (let precision = of_nat (get_precision e)
      in \<lparr>cup_currency = id', cup_context = 0, cup_total = quantity div precision,
          cup_has_weekly = (modifyWeek \<and> get_week_cap cf e \<noteq> 0 \<and> diff > 0),
          cup_suppress = (ce_category e = CURRENCY_CATEGORY_META), cup_has_tracked = has_season_count e,
          cup_weekly = week div precision, cup_tracked = season div precision\<rparr>)"

definition tell_owner :: "currency_config \<Rightarrow> currency_owner \<Rightarrow> u32 \<Rightarrow> currency_entry \<Rightarrow> bool \<Rightarrow> bool \<Rightarrow> player_currency \<Rightarrow> int \<Rightarrow> currency_state \<Rightarrow> currency_error + currency_state" where
  "tell_owner cf own id' e initWeek modifyWeek p diff c =
     (if \<not> co_in_world own \<or> co_loading own then Inr c
      else let c = (if diff > 0 then currency_emit (CurrencyEarned id' (pc_total p)) c else c)
           in sum_bind (currency_packet (build_update_currency (update_of cf id' e modifyWeek (pc_total p) (pc_week p) (pc_season p) diff)
                                          (world_packet_new SMSG_UPDATE_CURRENCY)))
                (\<lambda>packet. sum_bind (let c = currency_emit (CurrencySend packet) c
                                   in if initWeek then send_week_cap cf own (Some e) c else Inr c)
                (\<lambda>c. Inr (currency_emit (if diff > 0 then CurrencyAddedQuestCheck id' else CurrencyRemovedQuestCheck id') c))))"

definition new_currency :: "currency_entry \<Rightarrow> player_currency" where
  "new_currency e = \<lparr>pc_state = PLAYERCURRENCY_NEW, pc_total = 0, pc_week = 0, pc_season = 0, pc_flags = 0, pc_entry = e\<rparr>"

definition is_conquest_meta :: "u32 \<Rightarrow> bool" where
  "is_conquest_meta id' \<longleftrightarrow> id' = CURRENCY_CONQUEST_ARENA_META \<or> id' = CURRENCY_CONQUEST_BG_META"

text \<open>The entry of a currency, added when the player has none; the second result tells a new one.\<close>

definition find_or_add :: "currency_config \<Rightarrow> u32 \<Rightarrow> currency_state \<Rightarrow> currency_error + player_currency \<times> bool \<times> currency_state" where
  "find_or_add cf id' c =
     (case om_get (cu_map c) id' of
        Some p \<Rightarrow> Inr (p, False, c)
      | None \<Rightarrow>
          (case cf_lookup cf id' of
             None \<Rightarrow> Inl NoCurrencyEntry
           | Some e \<Rightarrow> Inr (new_currency e, True, c\<lparr>cu_map := om_put id' (new_currency e) (cu_map c)\<rparr>)))"

definition write_counts :: "int \<Rightarrow> int \<Rightarrow> int \<Rightarrow> bool \<Rightarrow> player_currency \<Rightarrow> player_currency" where
  "write_counts quantity week diff modifySeason p =
     p\<lparr>pc_state := (if pc_state p \<noteq> PLAYERCURRENCY_NEW then PLAYERCURRENCY_CHANGED else pc_state p),
       pc_total := word_of_int quantity, pc_week := word_of_int week,
       pc_season := (if diff > 0 \<and> modifySeason then pc_season p + word_of_int diff else pc_season p)\<rparr>"

text \<open>
  \<open>ModifyCount\<close> up to its recursive call; the second result is the change that the conquest points
  follow.
\<close>

definition apply_count :: "currency_config \<Rightarrow> currency_owner \<Rightarrow> u32 \<Rightarrow> int \<Rightarrow> bool \<Rightarrow> bool \<Rightarrow> currency_state \<Rightarrow> currency_error + currency_state \<times> int" where
  "apply_count cf own id' count modifyWeek modifySeason c =
     sum_bind (find_or_add cf id' c) (\<lambda>(p, fresh_entry, c).
     let e = pc_entry p; oldTotal = sint (pc_total p) in
     sum_bind (capped_counts cf e modifyWeek oldTotal (sint (pc_week p)) count) (\<lambda>(newTotal, newWeek).
     if newTotal = oldTotal then Inr (c, 0)
     else sum_bind (checked (newTotal - oldTotal)) (\<lambda>diff.
          let p = write_counts newTotal newWeek diff modifySeason p;
              initWeek = (fresh_entry \<and> get_week_cap cf e \<noteq> ce_max_per_week e)
          in sum_bind (tell_owner cf own id' e initWeek modifyWeek p diff (c\<lparr>cu_map := om_put id' p (cu_map c)\<rparr>))
               (\<lambda>c. Inr (c, diff)))))"

definition modify_one :: "currency_config \<Rightarrow> currency_owner \<Rightarrow> u32 \<Rightarrow> int \<Rightarrow> bool \<Rightarrow> bool \<Rightarrow> bool \<Rightarrow> currency_state \<Rightarrow> currency_error + currency_state \<times> int" where
  "modify_one cf own id' count modifyWeek modifySeason ignoreMultipliers c =
     (if count = 0 then Inr (c, 0)
      else sum_bind (if \<not> ignoreMultipliers \<and> count > 0 then checked (co_gain own id' count) else Inr count)
             (\<lambda>count. apply_count cf own id' count modifyWeek modifySeason c))"

text \<open>The recursive call is for another currency, which is none of the two, so it is the last.\<close>

definition modify_count :: "currency_config \<Rightarrow> currency_owner \<Rightarrow> u32 \<Rightarrow> int \<Rightarrow> bool \<Rightarrow> bool \<Rightarrow> bool \<Rightarrow> currency_state \<Rightarrow> currency_error + currency_state" where
  "modify_count cf own id' count modifyWeek modifySeason ignoreMultipliers c =
     sum_bind (modify_one cf own id' count modifyWeek modifySeason ignoreMultipliers c) (\<lambda>(c, diff).
       if diff \<noteq> 0 \<and> is_conquest_meta id'
       then sum_bind (modify_one cf own CURRENCY_CONQUEST_POINTS diff modifyWeek modifySeason ignoreMultipliers c) (\<lambda>(c, _). Inr c)
       else Inr c)"

definition set_count :: "currency_config \<Rightarrow> currency_owner \<Rightarrow> u32 \<Rightarrow> u32 \<Rightarrow> currency_state \<Rightarrow> currency_error + currency_state" where
  "set_count cf own id' count c = modify_count cf own id' (sint (count - get_count c id')) False False True c"

section \<open>Other operations\<close>

definition set_flags :: "u32 \<Rightarrow> u8 \<Rightarrow> currency_state \<Rightarrow> currency_state" where
  "set_flags id' flags c =
     (case om_get (cu_map c) id' of
        None \<Rightarrow> c
      | Some p \<Rightarrow> c\<lparr>cu_map := om_put id' (p\<lparr>pc_state := PLAYERCURRENCY_CHANGED, pc_flags := flags\<rparr>) (cu_map c)\<rparr>)"

definition reset_week_counts :: "currency_state \<Rightarrow> currency_state" where
  "reset_week_counts c =
     currency_emit (CurrencyDirect (world_packet_new SMSG_WEEKLY_RESET_CURRENCIES))
       (c\<lparr>cu_map := map (\<lambda>(k, p). (k, p\<lparr>pc_state := PLAYERCURRENCY_CHANGED, pc_week := 0\<rparr>)) (cu_map c)\<rparr>)"

definition setup_of :: "currency_config \<Rightarrow> u32 \<times> player_currency \<Rightarrow> currency_setup" where
  "setup_of cf kp =
     (let (k, p) = kp; e = pc_entry p; precision = of_nat (get_precision e); weekCap = get_week_cap cf e
      in \<lparr>cse_currency = k, cse_total = pc_total p div precision, cse_weekly = pc_week p div precision,
          cse_tracked = pc_season p div precision, cse_maximum = weekCap div precision,
          cse_flags = pc_flags p AND 0x7, cse_has_weekly = (weekCap \<noteq> 0 \<and> pc_week p \<noteq> 0),
          cse_has_tracked = has_season_count e, cse_has_maximum = (weekCap \<noteq> 0)\<rparr>)"

definition send_all :: "currency_config \<Rightarrow> currency_state \<Rightarrow> currency_error + currency_state" where
  "send_all cf c =
     (case build_setup_currency (map (setup_of cf) (cu_map c)) (world_packet_new SMSG_SETUP_CURRENCY) of
        Inl e \<Rightarrow> Inl (CurrencyPacket e)
      | Inr None \<Rightarrow> Inr c
      | Inr (Some p) \<Rightarrow> Inr (currency_emit (CurrencySend p) c))"

section \<open>Load and save\<close>

definition at_most_cap :: "u32 \<Rightarrow> u32 \<Rightarrow> u32" where
  "at_most_cap cap n = (if cap \<noteq> 0 \<and> n > cap then cap else n)"

definition currency_of_row :: "currency_config \<Rightarrow> currency_entry \<Rightarrow> currency_row \<Rightarrow> player_currency" where
  "currency_of_row cf e r =
     \<lparr>pc_state = PLAYERCURRENCY_UNCHANGED, pc_total = at_most_cap (get_total_cap e) (cw_total r),
      pc_week = at_most_cap (get_week_cap cf e) (cw_week r), pc_season = cw_season r,
      pc_flags = cw_flags r AND PLAYERCURRENCY_MASK_USED_BY_CLIENT, pc_entry = e\<rparr>"

text \<open>The identifier is read as 16 bits. A row of an unknown currency is deleted.\<close>

definition load_row :: "currency_config \<Rightarrow> currency_row \<Rightarrow> currency_state \<Rightarrow> currency_state" where
  "load_row cf r c =
     (let id' = ucast (ucast (cw_id r) :: u16) :: u32
      in case cf_lookup cf id' of
           None \<Rightarrow> c\<lparr>cu_rows := filter (\<lambda>r. cw_id r \<noteq> id') (cu_rows c)\<rparr>
         | Some e \<Rightarrow> c\<lparr>cu_map := om_put id' (currency_of_row cf e r) (cu_map c)\<rparr>)"

definition load_currencies :: "currency_config \<Rightarrow> currency_row list \<Rightarrow> currency_state \<Rightarrow> currency_state" where
  "load_currencies cf rows c = fold (load_row cf) rows c"

definition row_of_currency :: "u32 \<Rightarrow> player_currency \<Rightarrow> currency_row" where
  "row_of_currency k p = \<lparr>cw_id = k, cw_total = pc_total p, cw_week = pc_week p, cw_season = pc_season p, cw_flags = pc_flags p\<rparr>"

definition save_row :: "u32 \<times> player_currency \<Rightarrow> currency_row list \<Rightarrow> currency_row list" where
  "save_row kp rows =
     (case kp of (k, p) \<Rightarrow>
        (case pc_state p of
           PLAYERCURRENCY_CHANGED \<Rightarrow> map (\<lambda>r. if cw_id r = k then row_of_currency k p else r) rows
         | PLAYERCURRENCY_NEW \<Rightarrow> rows @ [row_of_currency k p]
         | PLAYERCURRENCY_UNCHANGED \<Rightarrow> rows
         | PLAYERCURRENCY_REMOVED \<Rightarrow> rows))"

definition save_currencies :: "currency_state \<Rightarrow> currency_state" where
  "save_currencies c =
     c\<lparr>cu_rows := fold save_row (cu_map c) (cu_rows c),
       cu_map := map (\<lambda>(k, p). (k, p\<lparr>pc_state := PLAYERCURRENCY_UNCHANGED\<rparr>))
                   (filter (\<lambda>(k, p). pc_state p \<noteq> PLAYERCURRENCY_REMOVED) (cu_map c))\<rparr>"

end
