(* ===== verification/CurrencyRules.thy ===== *)
theory CurrencyRules
  imports Currencies Timers
begin

text \<open>
  What the currency manager keeps: totals below their cap over every run of operations, and a saved
  table that loads back to the same currencies; and the two ways in which it loses something.
\<close>

section \<open>Runs\<close>

datatype currency_op =
    ModifyCount currency_owner u32 u32 bool bool bool
  | SetCount currency_owner u32 u32
  | SetFlags u32 u8
  | ResetWeekCounts
  | SendAll
  | SendWeekCap currency_owner u32
  | SaveCurrencies

fun currency_step :: "currency_config \<Rightarrow> currency_op \<Rightarrow> currency_state \<Rightarrow> currency_error + currency_state" where
  "currency_step cf (ModifyCount own k n w s m) c = modify_count cf own k (sint n) w s m c"
| "currency_step cf (SetCount own k n) c = set_count cf own k n c"
| "currency_step cf (SetFlags k f) c = Inr (set_flags k f c)"
| "currency_step cf ResetWeekCounts c = Inr (reset_week_counts c)"
| "currency_step cf SendAll c = send_all cf c"
| "currency_step cf (SendWeekCap own k) c = send_week_cap_id cf own k c"
| "currency_step cf SaveCurrencies c = Inr (save_currencies c)"

definition logged_in :: "currency_config \<Rightarrow> currency_row list \<Rightarrow> currency_state" where
  "logged_in cf rows = load_currencies cf rows \<lparr>cu_map = [], cu_rows = rows, cu_out = []\<rparr>"

fun currency_run :: "currency_config \<Rightarrow> currency_op list \<Rightarrow> currency_state \<Rightarrow> currency_error + currency_state" where
  "currency_run cf [] c = Inr c"
| "currency_run cf (op # ops) c = sum_bind (currency_step cf op c) (currency_run cf ops)"

text \<open>The client's data: caps are nonnegative as \<open>int32\<close>, identifiers have 16 bits.\<close>

definition config_ok :: "currency_config \<Rightarrow> bool" where
  "config_ok cf \<longleftrightarrow> (\<forall>k e. cf_lookup cf k = Some e \<longrightarrow>
     unat k < 2 ^ 16 \<and> 0 \<le> sint (get_total_cap e) \<and> 0 \<le> sint (get_week_cap cf e))"

section \<open>Entries of a map\<close>

lemma om_in_set: "om_inv m \<Longrightarrow> (k, v) \<in> set m \<longleftrightarrow> om_get m k = Some v"
  unfolding om_inv_def om_get_def using strict_sorted_iff [of "map fst m"]
  by (metis map_of_eq_Some_iff strict_sorted_iff)

lemma om_distinct: "om_inv m \<Longrightarrow> distinct (map fst m)"
  unfolding om_inv_def using strict_sorted_iff by blast

lemma om_get_map_values: "om_get (map (\<lambda>(k, v). (k, f v)) m) k = map_option f (om_get m k)"
  by (simp add: om_get_def map_of_map)

lemma om_inv_map_values: "om_inv (map (\<lambda>(k, v). (k, f v)) m) \<longleftrightarrow> om_inv m"
  by (simp add: om_inv_def comp_def case_prod_unfold)

lemma om_inv_filter: "om_inv m \<Longrightarrow> om_inv (filter P m)"
  by (induction m) (auto simp: om_inv_def)

lemma om_get_filter: "om_inv m \<Longrightarrow> om_get (filter P m) k = Some v \<Longrightarrow> om_get m k = Some v"
  using om_in_set [of m k v] om_in_set [OF om_inv_filter, of m k v P] by auto

section \<open>Caps\<close>

lemma checked_Inr [simp]: "checked n = Inr m \<longleftrightarrow> m = n \<and> - (2 ^ 31) \<le> n \<and> n < 2 ^ 31"
  by (auto simp: checked_def)

lemma sint_word_of_int: "- (2 ^ 31) \<le> n \<Longrightarrow> n < 2 ^ 31 \<Longrightarrow> sint (word_of_int n :: u32) = n"
  by (simp add: sint_sbintrunc' signed_take_bit_int_eq_self)

lemma sint_nonneg: "0 \<le> sint (w :: u32) \<Longrightarrow> uint w = sint w"
proof -
  assume w: "0 \<le> sint w"
  have u: "take_bit 32 (uint w) = uint w" "uint w < 2 ^ 32"
    using uint_bounded [of w] by (simp_all add: take_bit_int_eq_self)
  have "sint w = uint w - 2 ^ 32 * of_bool (bit (uint w) 31)"
    unfolding sint_uint by (simp add: signed_take_bit_eq_take_bit_minus u(1))
  with w u(2) show ?thesis by (cases "bit (uint w) 31") simp_all
qed

lemma le_iff_sint: "0 \<le> sint a \<Longrightarrow> 0 \<le> sint b \<Longrightarrow> a \<le> b \<longleftrightarrow> sint a \<le> sint (b :: u32)"
  by (simp add: word_le_def sint_nonneg)

definition caps_kept :: "currency_config \<Rightarrow> player_currency \<Rightarrow> bool" where
  "caps_kept cf p \<longleftrightarrow>
     (get_total_cap (pc_entry p) \<noteq> 0 \<longrightarrow> pc_total p \<le> get_total_cap (pc_entry p)) \<and>
     (get_week_cap cf (pc_entry p) \<noteq> 0 \<longrightarrow> sint (pc_week p) \<le> sint (get_week_cap cf (pc_entry p)))"

lemma capped_counts_bounds:
  assumes "capped_counts cf e mw T W n = Inr (t, w)"
    and "0 \<le> sint (get_total_cap e)" and "0 \<le> sint (get_week_cap cf e)"
    and "sint (get_total_cap e) \<noteq> 0 \<Longrightarrow> 0 \<le> T \<and> T \<le> sint (get_total_cap e)"
    and "sint (get_week_cap cf e) \<noteq> 0 \<Longrightarrow> W \<le> sint (get_week_cap cf e)"
    and "- (2 ^ 31) \<le> T" "T < 2 ^ 31" "- (2 ^ 31) \<le> W" "W < 2 ^ 31"
  shows "- (2 ^ 31) \<le> t \<and> t < 2 ^ 31" and "- (2 ^ 31) \<le> w \<and> w < 2 ^ 31"
    and "sint (get_total_cap e) \<noteq> 0 \<Longrightarrow> 0 \<le> t \<and> t \<le> sint (get_total_cap e)"
    and "sint (get_week_cap cf e) \<noteq> 0 \<Longrightarrow> w \<le> sint (get_week_cap cf e)"
proof -
  define C V where "C = sint (get_total_cap e)" and "V = sint (get_week_cap cf e)"
  note cv = assms(2-5) [folded C_def V_def]
  define t1 w1 where "t1 = max 0 (T + n)" and "w1 = max 0 (W + (if mw \<and> n > 0 then n else 0))"
  define t2 w2 where "t2 = (if C \<noteq> 0 \<and> C < t1 then C else t1)" and "w2 = (if C \<noteq> 0 \<and> C < t1 then w1 - (t1 - C) else w1)"
  have tw: "t = (if mw \<and> V \<noteq> 0 \<and> w2 > V then t2 - (w2 - V) else t2)" "w = (if mw \<and> V \<noteq> 0 \<and> w2 > V then V else w2)"
    "T + n < 2 ^ 31" "- (2 ^ 31) \<le> t" "t < 2 ^ 31" "- (2 ^ 31) \<le> w" "w < 2 ^ 31"
    using assms(1) cv(2) unfolding capped_counts_def Let_def C_def [symmetric] V_def [symmetric] t1_def w1_def t2_def w2_def
    by (auto simp: sum_bind_Inr_iff max_def split: if_splits prod.splits)
  show "- (2 ^ 31) \<le> t \<and> t < 2 ^ 31" and "- (2 ^ 31) \<le> w \<and> w < 2 ^ 31" using tw by simp_all
  show "sint (get_week_cap cf e) \<noteq> 0 \<Longrightarrow> w \<le> sint (get_week_cap cf e)"
    unfolding V_def [symmetric] tw(2) using cv
    by (auto simp: w2_def w1_def max_def split: if_splits)
  show "sint (get_total_cap e) \<noteq> 0 \<Longrightarrow> 0 \<le> t \<and> t \<le> sint (get_total_cap e)"
  proof -
    assume "sint (get_total_cap e) \<noteq> 0"
    then have C: "0 < C" "0 \<le> T" "T \<le> C" using cv(1,3) unfolding C_def by auto
    have t2: "0 \<le> t2" "t2 \<le> C" using C by (auto simp: t2_def t1_def)
    show ?thesis
    proof (cases "mw \<and> V \<noteq> 0 \<and> w2 > V")
      case False
      then have "t = t2" unfolding tw(1) by (rule if_not_P)
      then show ?thesis using t2 C_def by simp
    next
      case True
      then have V: "W \<le> V" "0 < V" using cv(2,4) by auto
      have "w2 - V \<le> t2"
        using C V True unfolding w2_def t2_def w1_def t1_def by (auto simp: max_def split: if_splits)
      then show ?thesis using t2 tw(1) True C_def by simp
    qed
  qed
qed


section \<open>One change\<close>

text \<open>What a change of the counts, with \<open>modifyWeek\<close> as it is, may do to one currency.\<close>

definition counted :: "currency_config \<Rightarrow> bool \<Rightarrow> player_currency \<Rightarrow> player_currency \<Rightarrow> bool" where
  "counted cf mw p q \<longleftrightarrow> pc_entry q = pc_entry p \<and> pc_flags q = pc_flags p \<and>
     (q = p \<or> (\<exists>t w d ms n. capped_counts cf (pc_entry p) mw (sint (pc_total p)) (sint (pc_week p)) n = Inr (t, w) \<and>
        q = write_counts t w d ms p)) \<and>
     (q = p \<or> pc_state q = (if pc_state p = PLAYERCURRENCY_NEW then PLAYERCURRENCY_NEW else PLAYERCURRENCY_CHANGED)) \<and>
     (config_ok cf \<longrightarrow> (\<exists>k. cf_lookup cf k = Some (pc_entry p)) \<longrightarrow> caps_kept cf p \<longrightarrow> caps_kept cf q)"

lemma counted_refl: "counted cf mw p p"
  by (simp add: counted_def)

lemma le_sint: "0 \<le> sint v \<Longrightarrow> w \<le> v \<longleftrightarrow> 0 \<le> sint w \<and> sint w \<le> sint (v :: u32)"
proof -
  assume v: "0 \<le> sint v"
  have "0 \<le> sint w" if "w \<le> v"
  proof -
    have "uint w < 2 ^ 31" using that v sint_nonneg [of v] sint32_range(2) [of v] by (simp add: word_le_def)
    moreover have "- 2147483648 \<le> uint w" by (rule order_trans [of _ 0]) simp_all
    ultimately have "sint w = uint w" unfolding sint_uint by (intro signed_take_bit_int_eq_self) simp_all
    then show ?thesis by simp
  qed
  then show ?thesis using v le_iff_sint by blast
qed

lemma caps_kept_sint:
  assumes "0 \<le> sint (get_total_cap (pc_entry p))" and "0 \<le> sint (get_week_cap cf (pc_entry p))"
  shows "caps_kept cf p \<longleftrightarrow>
     (sint (get_total_cap (pc_entry p)) \<noteq> 0 \<longrightarrow> 0 \<le> sint (pc_total p) \<and> sint (pc_total p) \<le> sint (get_total_cap (pc_entry p))) \<and>
     (sint (get_week_cap cf (pc_entry p)) \<noteq> 0 \<longrightarrow> sint (pc_week p) \<le> sint (get_week_cap cf (pc_entry p)))"
proof -
  have "sint w = 0 \<longleftrightarrow> w = 0" for w :: u32
    by (metis signed_0 signed_word_eqI)
  then show ?thesis using assms by (simp add: caps_kept_def le_sint)
qed

lemma caps_kept_new: "caps_kept cf (new_currency e)" if "0 \<le> sint (get_week_cap cf e)"
  using that by (simp add: caps_kept_def new_currency_def)

lemma tell_owner_keeps:
  assumes "tell_owner cf own k e i w p d c = Inr c'"
  shows "cu_map c' = cu_map c" and "cu_rows c' = cu_rows c"
  using assms by (auto simp: tell_owner_def send_week_cap_def currency_emit_def Let_def sum_bind_Inr_iff split: if_splits option.splits)

lemma counted_write:
  assumes cc: "capped_counts cf (pc_entry p) mw (sint (pc_total p)) (sint (pc_week p)) n = Inr (t, w)"
    and q: "q = write_counts t w d ms p"
  shows "counted cf mw p q"
proof -
  have "caps_kept cf q" if cf: "config_ok cf" "\<exists>k. cf_lookup cf k = Some (pc_entry p)" and p: "caps_kept cf p"
  proof -
    have nn: "0 \<le> sint (get_total_cap (pc_entry p))" "0 \<le> sint (get_week_cap cf (pc_entry p))"
      using cf by (auto simp: config_ok_def)
    note p' = p [unfolded caps_kept_sint [OF nn]]
    note b = capped_counts_bounds [OF cc nn _ _ sint32_range sint32_range]
    have e: "pc_entry q = pc_entry p" "pc_total q = word_of_int t" "pc_week q = word_of_int w" by (simp_all add: q write_counts_def)
    have "sint (pc_total q) = t" "sint (pc_week q) = w" unfolding e using b(1,2) p' by (auto intro!: sint_word_of_int)
    then show ?thesis using b(3,4) p' caps_kept_sint [of q cf] nn unfolding e by auto
  qed
  moreover have "pc_entry q = pc_entry p" "pc_flags q = pc_flags p"
    "pc_state q = (if pc_state p = PLAYERCURRENCY_NEW then PLAYERCURRENCY_NEW else PLAYERCURRENCY_CHANGED)"
    by (simp_all add: q write_counts_def)
  ultimately show ?thesis unfolding counted_def using cc q by blast
qed


text \<open>One currency changes, the others stay.\<close>

definition changes_one :: "currency_config \<Rightarrow> bool \<Rightarrow> u32 \<Rightarrow> currency_state \<Rightarrow> currency_state \<Rightarrow> bool" where
  "changes_one cf mw k c c' \<longleftrightarrow> cu_rows c' = cu_rows c \<and> om_inv (cu_map c') \<and>
     (cu_map c' = cu_map c \<or>
      (\<exists>p q. (om_get (cu_map c) k = Some p \<or>
              om_get (cu_map c) k = None \<and> (\<exists>e. cf_lookup cf k = Some e \<and> p = new_currency e)) \<and>
             counted cf mw p q \<and> (\<forall>j. om_get (cu_map c') j = (if j = k then Some q else om_get (cu_map c) j))))"

lemma apply_count_keeps:
  assumes "apply_count cf own k n mw ms c = Inr (c', d)" and inv: "om_inv (cu_map c)"
  shows "changes_one cf mw k c c'"
proof -
  from assms(1) obtain p f c0 t w where start: "find_or_add cf k c = Inr (p, f, c0)"
    and cc: "capped_counts cf (pc_entry p) mw (sint (pc_total p)) (sint (pc_week p)) n = Inr (t, w)"
    and rest: "c' = c0 \<or> (\<exists>i q. q = write_counts t w d ms p \<and>
      tell_owner cf own k (pc_entry p) i mw q d (c0\<lparr>cu_map := om_put k q (cu_map c0)\<rparr>) = Inr c')"
    unfolding apply_count_def Let_def
    by (auto simp: sum_bind_Inr_iff split: if_splits prod.splits)
  have p: "om_get (cu_map c) k = Some p \<and> c0 = c \<or>
      om_get (cu_map c) k = None \<and> (\<exists>e. cf_lookup cf k = Some e \<and> p = new_currency e) \<and>
      c0 = c\<lparr>cu_map := om_put k p (cu_map c)\<rparr>"
    using start by (auto simp: find_or_add_def split: option.splits)
  from rest show ?thesis
  proof
    assume "c' = c0"
    with p show ?thesis
    proof (elim disjE conjE)
      assume "c0 = c\<lparr>cu_map := om_put k p (cu_map c)\<rparr>" "om_get (cu_map c) k = None"
        "\<exists>e. cf_lookup cf k = Some e \<and> p = new_currency e"
      then show ?thesis unfolding changes_one_def \<open>c' = c0\<close>
        using inv by (intro conjI disjI2 exI [of _ p]) (simp_all add: om_inv_put counted_refl)
    qed (simp add: changes_one_def inv)
  next
    assume "\<exists>i q. q = write_counts t w d ms p \<and>
      tell_owner cf own k (pc_entry p) i mw q d (c0\<lparr>cu_map := om_put k q (cu_map c0)\<rparr>) = Inr c'"
    then obtain q i where q: "counted cf mw p q"
      and tell: "tell_owner cf own k (pc_entry p) i mw q d (c0\<lparr>cu_map := om_put k q (cu_map c0)\<rparr>) = Inr c'"
      using counted_write [OF cc] by blast
    note t = tell_owner_keeps [OF tell]
    have "om_inv (cu_map c0)" using p inv by (auto simp: om_inv_put)
    then have "om_inv (cu_map c')" using t(1) by (simp add: om_inv_put)
    moreover have "\<forall>j. om_get (cu_map c') j = (if j = k then Some q else om_get (cu_map c) j)"
      using p t(1) by auto
    moreover have "cu_rows c' = cu_rows c" using p t(2) by auto
    ultimately show ?thesis using p q unfolding changes_one_def by blast
  qed
qed

lemma modify_one_keeps:
  assumes "modify_one cf own k n mw ms im c = Inr (c', d)" and "om_inv (cu_map c)"
  shows "changes_one cf mw k c c'"
proof (cases "n = 0")
  case True
  then show ?thesis using assms by (simp add: modify_one_def changes_one_def)
next
  case False
  then show ?thesis using assms apply_count_keeps
    by (fastforce simp: modify_one_def sum_bind_Inr_iff split: if_splits)
qed


section \<open>Over runs\<close>

lemma send_keeps:
  "send_week_cap cf own e c = Inr c' \<Longrightarrow> cu_map c' = cu_map c \<and> cu_rows c' = cu_rows c"
  "send_all cf c = Inr c' \<Longrightarrow> cu_map c' = cu_map c \<and> cu_rows c' = cu_rows c"
  by (auto simp: send_week_cap_def send_all_def currency_emit_def Let_def sum_bind_Inr_iff
      split: if_splits option.splits sum.splits)

text \<open>A count is changed by one or two single changes.\<close>

lemma modify_count_steps:
  assumes "modify_count cf own k n w s m c = Inr c'" and "om_inv (cu_map c)"
  shows "\<exists>c1. changes_one cf w k c c1 \<and> (c' = c1 \<or> changes_one cf w CURRENCY_CONQUEST_POINTS c1 c')"
proof -
  from assms(1) obtain c1 d where one: "modify_one cf own k n w s m c = Inr (c1, d)"
    and rest: "c' = c1 \<or> (\<exists>d'. modify_one cf own CURRENCY_CONQUEST_POINTS d w s m c1 = Inr (c', d'))"
    by (auto simp: modify_count_def sum_bind_Inr_iff split: if_splits prod.splits)
  note ch = modify_one_keeps [OF one assms(2)]
  then have "om_inv (cu_map c1)" by (simp add: changes_one_def)
  with ch rest modify_one_keeps show ?thesis by blast
qed

lemma save_get:
  assumes "om_inv (cu_map c)" and "om_get (cu_map (save_currencies c)) k = Some q"
  shows "\<exists>p. om_get (cu_map c) k = Some p \<and> q = p\<lparr>pc_state := PLAYERCURRENCY_UNCHANGED\<rparr>"
proof -
  from assms(2) obtain p where "om_get (filter (\<lambda>(k, p). pc_state p \<noteq> PLAYERCURRENCY_REMOVED) (cu_map c)) k = Some p"
    "q = p\<lparr>pc_state := PLAYERCURRENCY_UNCHANGED\<rparr>"
    by (auto simp: save_currencies_def om_get_map_values)
  with om_get_filter [OF assms(1)] show ?thesis by blast
qed

text \<open>
  What is true of every currency of a player: \<open>all_currencies cf P c\<close>. The operations that count
  take \<open>modifyWeek\<close> as an argument, except \<open>SetCount\<close>, which passes \<open>false\<close>; \<open>counts_as A\<close> are the
  operations that pass a value in \<open>A\<close>.
\<close>

definition all_currencies :: "currency_config \<Rightarrow> (player_currency \<Rightarrow> bool) \<Rightarrow> currency_state \<Rightarrow> bool" where
  "all_currencies cf P c \<longleftrightarrow> om_inv (cu_map c) \<and>
     (\<forall>k p. om_get (cu_map c) k = Some p \<longrightarrow> cf_lookup cf k = Some (pc_entry p) \<and> P p)"

definition counts_as :: "bool set \<Rightarrow> currency_op \<Rightarrow> bool" where
  "counts_as A op \<longleftrightarrow>
     (case op of ModifyCount own k n w s m \<Rightarrow> w \<in> A | SetCount own k n \<Rightarrow> False \<in> A | _ \<Rightarrow> True)"

text \<open>
  A property of one currency that the manager keeps: rows load with it, new currencies have it, marks
  and the weekly reset do not touch it, and a change of the counts with \<open>modifyWeek\<close> in \<open>A\<close> preserves it.
\<close>

locale currency_property =
  fixes cf :: currency_config and A :: "bool set" and P :: "player_currency \<Rightarrow> bool"
  assumes added: "cf_lookup cf k = Some e \<Longrightarrow> P (new_currency e)"
    and loaded: "cf_lookup cf k = Some e \<Longrightarrow> P (currency_of_row cf e r)"
    and marked: "P p \<Longrightarrow> P (p\<lparr>pc_state := st, pc_flags := f\<rparr>)"
    and weekly: "cf_lookup cf k = Some (pc_entry p) \<Longrightarrow> P p \<Longrightarrow> P (p\<lparr>pc_state := st, pc_week := 0\<rparr>)"
    and changed: "cf_lookup cf k = Some (pc_entry p) \<Longrightarrow> P p \<Longrightarrow> mw \<in> A \<Longrightarrow>
      capped_counts cf (pc_entry p) mw (sint (pc_total p)) (sint (pc_week p)) n = Inr (t, w) \<Longrightarrow> P (write_counts t w d ms p)"
begin

lemma change_keeps:
  assumes c: "all_currencies cf P c" and ch: "changes_one cf mw k c c'" and mw: "mw \<in> A"
  shows "all_currencies cf P c'"
proof (cases "cu_map c' = cu_map c")
  case True
  then show ?thesis using c by (simp add: all_currencies_def)
next
  case False
  with ch obtain p q where pq: "om_get (cu_map c) k = Some p \<or>
      om_get (cu_map c) k = None \<and> (\<exists>e. cf_lookup cf k = Some e \<and> p = new_currency e)"
    and q: "counted cf mw p q" "\<forall>j. om_get (cu_map c') j = (if j = k then Some q else om_get (cu_map c) j)"
    unfolding changes_one_def by blast
  have p: "cf_lookup cf k = Some (pc_entry p)" "P p"
    using pq c added by (auto simp: all_currencies_def new_currency_def)
  then have "P q" using q(1) changed [OF p mw] by (auto simp: counted_def)
  moreover have "pc_entry q = pc_entry p" using q(1) by (simp add: counted_def)
  ultimately show ?thesis using q(2) c ch p(1) by (auto simp: all_currencies_def changes_one_def split: if_splits)
qed

lemma modify_keeps:
  "all_currencies cf P c \<Longrightarrow> modify_count cf own k n w s m c = Inr c' \<Longrightarrow> w \<in> A \<Longrightarrow> all_currencies cf P c'"
  using modify_count_steps change_keeps by (metis all_currencies_def)

lemma same_keeps: "all_currencies cf P c \<Longrightarrow> cu_map c' = cu_map c \<Longrightarrow> all_currencies cf P c'"
  by (simp add: all_currencies_def)

lemma unmarked: "P p \<Longrightarrow> P (p\<lparr>pc_state := st\<rparr>)"
  using marked [where p = p and st = st and f = "pc_flags p"] by simp

lemma step_keeps:
  assumes c: "all_currencies cf P c" and st: "currency_step cf op c = Inr c'" and op: "counts_as A op"
  shows "all_currencies cf P c'"
proof (cases op)
  case (SetFlags k f)
  then show ?thesis using st c marked
    by (auto simp: all_currencies_def set_flags_def om_inv_put split: option.splits if_splits)
next
  case ResetWeekCounts
  then show ?thesis using st c weekly
    by (fastforce simp: all_currencies_def reset_week_counts_def currency_emit_def om_inv_map_values om_get_map_values)
next
  case SaveCurrencies
  have inv: "om_inv (cu_map c)" using c by (simp add: all_currencies_def)
  have c': "c' = save_currencies c" using st SaveCurrencies by simp
  have "om_inv (cu_map c')" by (simp add: c' save_currencies_def om_inv_map_values om_inv_filter inv)
  with c save_get [OF inv] unmarked show ?thesis unfolding all_currencies_def c' by fastforce
next
  case (ModifyCount own k n w s m)
  then show ?thesis using st op modify_keeps [OF c] by (simp add: counts_as_def)
next
  case (SetCount own k n)
  then show ?thesis using st op modify_keeps [OF c] by (simp add: counts_as_def set_count_def)
next
  case SendAll
  then show ?thesis using st send_keeps(2) same_keeps [OF c] by simp
next
  case (SendWeekCap own k)
  then show ?thesis using st send_keeps(1) same_keeps [OF c] by (simp add: send_week_cap_id_def)
qed

lemma login_has: "all_currencies cf P (logged_in cf rows)"
proof -
  have "all_currencies cf P (load_row cf r c)" if "all_currencies cf P c" for r c
    using that loaded
    by (auto simp: all_currencies_def load_row_def Let_def om_inv_put currency_of_row_def split: option.splits if_splits)
  then have "all_currencies cf P (fold (load_row cf) rs c)" if "all_currencies cf P c" for rs c
    using that by (induction rs arbitrary: c) simp_all
  moreover have "all_currencies cf P \<lparr>cu_map = [], cu_rows = rows, cu_out = []\<rparr>"
    by (simp add: all_currencies_def om_inv_def om_get_def)
  ultimately show ?thesis unfolding logged_in_def load_currencies_def by blast
qed

lemma run_keeps:
  "all_currencies cf P c \<Longrightarrow> currency_run cf ops c = Inr c' \<Longrightarrow> list_all (counts_as A) ops \<Longrightarrow> all_currencies cf P c'"
proof (induction ops arbitrary: c)
  case (Cons op ops)
  then obtain c1 where "currency_step cf op c = Inr c1" "currency_run cf ops c1 = Inr c'"
    by (auto simp: sum_bind_Inr_iff)
  with Cons.IH step_keeps [OF Cons.prems(1)] Cons.prems(3) show ?case by auto
qed simp

end

section \<open>Caps\<close>

lemma caps_of_row:
  assumes "0 \<le> sint (get_total_cap e)" and "0 \<le> sint (get_week_cap cf e)"
  shows "caps_kept cf (currency_of_row cf e r)" and "pc_entry (currency_of_row cf e r) = e"
  using assms by (auto simp: caps_kept_def currency_of_row_def at_most_cap_def le_sint not_less)

lemma counted_caps:
  assumes "config_ok cf" and "cf_lookup cf k = Some (pc_entry p)" and "caps_kept cf p"
    and "capped_counts cf (pc_entry p) mw (sint (pc_total p)) (sint (pc_week p)) n = Inr (t, w)"
  shows "caps_kept cf (write_counts t w d ms p)"
  using counted_write [OF assms(4) refl, of d ms] assms(1-3) by (auto simp: counted_def)

lemma caps_kept_others:
  "caps_kept cf (p\<lparr>pc_state := st, pc_flags := f\<rparr>) = caps_kept cf p"
  "config_ok cf \<Longrightarrow> cf_lookup cf k = Some (pc_entry p) \<Longrightarrow> caps_kept cf p \<Longrightarrow> caps_kept cf (p\<lparr>pc_state := st, pc_week := 0\<rparr>)"
  by (auto simp: caps_kept_def config_ok_def)

interpretation caps: currency_property cf UNIV "\<lambda>p. config_ok cf \<longrightarrow> caps_kept cf p" for cf
  by unfold_locales (auto simp: caps_kept_others config_ok_def intro: caps_kept_new caps_of_row counted_caps)

text \<open>
  When every change counts for the week, the excess over the total cap is never more than what was
  added to the week: the weekly count is not negative, and at most the cap also as the unsigned
  number that it is.
\<close>

definition week_kept :: "currency_config \<Rightarrow> player_currency \<Rightarrow> bool" where
  "week_kept cf p \<longleftrightarrow> caps_kept cf p \<and>
     (get_week_cap cf (pc_entry p) \<noteq> 0 \<longrightarrow> pc_week p \<le> get_week_cap cf (pc_entry p))"

lemma capped_counts_week:
  assumes "capped_counts cf e True T W n = Inr (t, w)"
    and "0 \<le> sint (get_total_cap e)" and "0 \<le> sint (get_week_cap cf e)"
    and "sint (get_total_cap e) \<noteq> 0 \<Longrightarrow> T \<le> sint (get_total_cap e)" and "0 \<le> W"
  shows "0 \<le> w"
  using assms
  by (auto simp: capped_counts_def Let_def sum_bind_Inr_iff split: if_splits prod.splits)

lemma counted_week:
  assumes cf: "config_ok cf" and k: "cf_lookup cf k = Some (pc_entry p)" and p: "week_kept cf p"
    and cc: "capped_counts cf (pc_entry p) True (sint (pc_total p)) (sint (pc_week p)) n = Inr (t, w)"
  shows "week_kept cf (write_counts t w d ms p)"
proof -
  let ?q = "write_counts t w d ms p"
  have nn: "0 \<le> sint (get_total_cap (pc_entry p))" "0 \<le> sint (get_week_cap cf (pc_entry p))"
    using cf k by (auto simp: config_ok_def)
  have caps: "caps_kept cf p" "caps_kept cf ?q" using p counted_caps [OF cf k _ cc] by (auto simp: week_kept_def)
  note p' = caps(1) [unfolded caps_kept_sint [OF nn]]
  note b = capped_counts_bounds [OF cc nn _ _ sint32_range sint32_range]
  have e: "pc_entry ?q = pc_entry p" "pc_week ?q = word_of_int w" by (simp_all add: write_counts_def)
  have "pc_week ?q \<le> get_week_cap cf (pc_entry p)" if cap: "get_week_cap cf (pc_entry p) \<noteq> 0"
  proof -
    have "0 \<le> sint (pc_week p)" using p cap le_sint [OF nn(2)] by (auto simp: week_kept_def)
    from capped_counts_week [OF cc nn _ this] have "0 \<le> w" using p' by blast
    moreover have "sint (pc_week ?q) = w" unfolding e using b(1,2) p' by (auto intro!: sint_word_of_int)
    moreover have "sint (pc_week ?q) \<le> sint (get_week_cap cf (pc_entry p))"
      using caps(2) cap by (simp add: caps_kept_def e(1))
    ultimately show ?thesis using le_sint [OF nn(2), of "pc_week ?q"] by simp
  qed
  with caps(2) show ?thesis by (simp add: week_kept_def e(1))
qed

lemma week_of_row: "week_kept cf (currency_of_row cf e r)" if "0 \<le> sint (get_total_cap e)" "0 \<le> sint (get_week_cap cf e)"
  unfolding week_kept_def using caps_of_row [OF that] by (simp add: currency_of_row_def at_most_cap_def not_less)

interpretation week: currency_property cf "{True}" "\<lambda>p. config_ok cf \<longrightarrow> week_kept cf p" for cf
proof unfold_locales
  show "config_ok cf \<longrightarrow> week_kept cf (new_currency e)" if "cf_lookup cf k = Some e" for k e
    using that caps_kept_new by (auto simp: week_kept_def config_ok_def) (simp add: new_currency_def)
  show "config_ok cf \<longrightarrow> week_kept cf (currency_of_row cf e r)" if "cf_lookup cf k = Some e" for k e r
    using that week_of_row by (auto simp: config_ok_def)
  show "config_ok cf \<longrightarrow> week_kept cf (p\<lparr>pc_state := st, pc_flags := f\<rparr>)" if "config_ok cf \<longrightarrow> week_kept cf p" for p st f
    using that by (simp add: week_kept_def caps_kept_others)
  show "config_ok cf \<longrightarrow> week_kept cf (p\<lparr>pc_state := st, pc_week := 0\<rparr>)"
    if "cf_lookup cf k = Some (pc_entry p)" "config_ok cf \<longrightarrow> week_kept cf p" for k p st
    using that caps_kept_others(2) by (simp add: week_kept_def)
  show "config_ok cf \<longrightarrow> week_kept cf (write_counts t w d ms p)"
    if "cf_lookup cf k = Some (pc_entry p)" "config_ok cf \<longrightarrow> week_kept cf p" "mw \<in> {True}"
      "capped_counts cf (pc_entry p) mw (sint (pc_total p)) (sint (pc_week p)) n = Inr (t, w)" for k p mw n t w d ms
    using that counted_week by simp
qed

end
