(* ===== verification/CurrencyRows.thy ===== *)
theory CurrencyRows
  imports CurrencyRules
begin

text \<open>
  The rows of \<open>character_currencies\<close> beside the currencies in memory: which runs keep them in step,
  and what a player finds after the next login.
\<close>

section \<open>Rows\<close>

definition row_at :: "currency_row list \<Rightarrow> u32 \<Rightarrow> currency_row option" where
  "row_at rows k = map_of (map (\<lambda>r. (cw_id r, r)) rows) k"

lemma row_at_simps [simp]:
  "row_at [] k = None"
  "row_at (r # rows) k = (if k = cw_id r then Some r else row_at rows k)"
  "row_at (rows @ [r]) k = (case row_at rows k of None \<Rightarrow> if k = cw_id r then Some r else None | Some s \<Rightarrow> Some s)"
  by (auto simp: row_at_def map_add_def split: option.splits)

lemma row_at_None: "row_at rows k = None \<longleftrightarrow> k \<notin> set (map cw_id rows)"
  by (induction rows) auto

lemma row_at_Some: "row_at rows k = Some r \<Longrightarrow> r \<in> set rows \<and> cw_id r = k"
  by (induction rows) (auto split: if_splits)

lemma row_at_filter: "row_at (filter (\<lambda>r. cw_id r \<noteq> j) rows) k = (if k = j then None else row_at rows k)"
  by (induction rows) auto

lemma row_at_update:
  "cw_id s = j \<Longrightarrow> row_at (map (\<lambda>r. if cw_id r = j then s else r) rows) k =
     (if k = j then map_option (\<lambda>_. s) (row_at rows k) else row_at rows k)"
  by (induction rows) auto

section \<open>Load\<close>

lemma ucast_16: "unat (k :: u32) < 2 ^ 16 \<Longrightarrow> ucast (ucast k :: u16) = k"
  by (rule word_unat_eq_iff [THEN iffD2]) (simp add: unsigned_ucast_eq unsigned_take_bit_eq take_bit_nat_eq_self)

lemma load_currencies_spec:
  "distinct (map cw_id rows) \<Longrightarrow> \<forall>r \<in> set rows. unat (cw_id r) < 2 ^ 16 \<Longrightarrow> om_inv (cu_map c) \<Longrightarrow>
     distinct (map cw_id (cu_rows c)) \<Longrightarrow>
     (\<forall>k. om_get (cu_map (load_currencies cf rows c)) k =
       (case row_at rows k of
          None \<Rightarrow> om_get (cu_map c) k
        | Some r \<Rightarrow> (case cf_lookup cf k of None \<Rightarrow> om_get (cu_map c) k | Some e \<Rightarrow> Some (currency_of_row cf e r)))) \<and>
     (\<forall>k. row_at (cu_rows (load_currencies cf rows c)) k =
       (if row_at rows k \<noteq> None \<and> cf_lookup cf k = None then None else row_at (cu_rows c) k)) \<and>
     om_inv (cu_map (load_currencies cf rows c)) \<and>
     distinct (map cw_id (cu_rows (load_currencies cf rows c)))"
proof (induction rows arbitrary: c)
  case (Cons r rows)
  let ?c = "load_row cf r c"
  have id: "ucast (ucast (cw_id r) :: u16) = cw_id r" using Cons.prems(2) by (intro ucast_16) simp
  have c: "om_inv (cu_map ?c)" "distinct (map cw_id (cu_rows ?c))"
    using Cons.prems(3,4) by (auto simp: load_row_def Let_def id om_inv_put distinct_map_filter split: option.splits)
  have m: "om_get (cu_map ?c) j = (case cf_lookup cf (cw_id r) of None \<Rightarrow> om_get (cu_map c) j
      | Some e \<Rightarrow> if j = cw_id r then Some (currency_of_row cf e r) else om_get (cu_map c) j)" for j
    by (simp add: load_row_def Let_def id split: option.splits)
  have rw: "row_at (cu_rows ?c) j = (if j = cw_id r \<and> cf_lookup cf j = None then None else row_at (cu_rows c) j)" for j
    by (auto simp: load_row_def Let_def id row_at_filter split: option.splits)
  have step: "load_currencies cf (r # rows) c = load_currencies cf rows ?c" by (simp add: load_currencies_def)
  have notin: "row_at rows (cw_id r) = None" using Cons.prems(1) by (auto simp: row_at_None)
  have prems: "distinct (map cw_id rows)" "\<forall>r \<in> set rows. unat (cw_id r) < 2 ^ 16" using Cons.prems by auto
  note ih = Cons.IH [OF prems c]
  show ?case unfolding step
  proof (intro conjI allI)
    fix k
    show "om_get (cu_map (load_currencies cf rows ?c)) k =
       (case row_at (r # rows) k of
          None \<Rightarrow> om_get (cu_map c) k
        | Some r \<Rightarrow> (case cf_lookup cf k of None \<Rightarrow> om_get (cu_map c) k | Some e \<Rightarrow> Some (currency_of_row cf e r)))"
      using ih notin m by (auto split: option.splits)
    show "row_at (cu_rows (load_currencies cf rows ?c)) k =
       (if row_at (r # rows) k \<noteq> None \<and> cf_lookup cf k = None then None else row_at (cu_rows c) k)"
      using ih notin rw by auto
  qed (use ih in blast)+
qed (simp add: load_currencies_def)

section \<open>Save\<close>

definition saved_row :: "u32 \<Rightarrow> player_currency \<Rightarrow> currency_row option \<Rightarrow> currency_row option" where
  "saved_row k p r =
     (case pc_state p of
        PLAYERCURRENCY_CHANGED \<Rightarrow> map_option (\<lambda>_. row_of_currency k p) r
      | PLAYERCURRENCY_NEW \<Rightarrow> (case r of None \<Rightarrow> Some (row_of_currency k p) | Some s \<Rightarrow> Some s)
      | PLAYERCURRENCY_UNCHANGED \<Rightarrow> r
      | PLAYERCURRENCY_REMOVED \<Rightarrow> r)"

lemma cw_id_row_of_currency [simp]: "cw_id (row_of_currency k p) = k"
  by (simp add: row_of_currency_def)

lemma row_at_save_row: "row_at (save_row (k, p) rows) j = (if j = k then saved_row k p (row_at rows k) else row_at rows j)"
  by (cases "pc_state p") (auto simp: save_row_def saved_row_def row_at_update split: option.splits)

lemma distinct_save_row:
  "distinct (map cw_id rows) \<Longrightarrow> pc_state p = PLAYERCURRENCY_NEW \<longrightarrow> row_at rows k = None \<Longrightarrow>
     distinct (map cw_id (save_row (k, p) rows))"
proof (cases "pc_state p")
  case PLAYERCURRENCY_CHANGED
  have "map cw_id (map (\<lambda>r. if cw_id r = k then row_of_currency k p else r) rows) = map cw_id rows"
    by (induction rows) simp_all
  then show "distinct (map cw_id rows) \<Longrightarrow> ?thesis" using PLAYERCURRENCY_CHANGED by (simp add: save_row_def del: map_map)
qed (auto simp: save_row_def row_at_None)

lemma save_rows_spec:
  "distinct (map fst m) \<Longrightarrow> distinct (map cw_id rows) \<Longrightarrow>
     \<forall>(k, p) \<in> set m. pc_state p = PLAYERCURRENCY_NEW \<longrightarrow> row_at rows k = None \<Longrightarrow>
     (\<forall>j. row_at (fold save_row m rows) j =
        (case map_of m j of None \<Rightarrow> row_at rows j | Some p \<Rightarrow> saved_row j p (row_at rows j))) \<and>
     distinct (map cw_id (fold save_row m rows))"
proof (induction m arbitrary: rows)
  case (Cons e m)
  obtain k p where e: "e = (k, p)" by (cases e)
  let ?rows = "save_row (k, p) rows"
  have k: "k \<notin> fst ` set m" "distinct (map fst m)" using Cons.prems(1) e by auto
  have d: "distinct (map cw_id ?rows)" using Cons.prems(2,3) e by (intro distinct_save_row) auto
  have n: "\<forall>(j, q) \<in> set m. pc_state q = PLAYERCURRENCY_NEW \<longrightarrow> row_at ?rows j = None"
    using Cons.prems(3) k(1) by (force simp: row_at_save_row)
  have "map_of m k = None" using k(1) by (simp add: map_of_eq_None_iff)
  with Cons.IH [OF k(2) d n] show ?case by (auto simp: e row_at_save_row split: option.splits)
qed simp

section \<open>Memory and rows in step\<close>

definition entry_synced :: "currency_config \<Rightarrow> u32 \<Rightarrow> player_currency option \<Rightarrow> currency_row option \<Rightarrow> bool" where
  "entry_synced cf k po ro \<longleftrightarrow>
     (case po of
        None \<Rightarrow> ro = None
      | Some p \<Rightarrow> cf_lookup cf k = Some (pc_entry p) \<and> caps_kept cf p \<and>
          (case pc_state p of
             PLAYERCURRENCY_NEW \<Rightarrow> ro = None
           | PLAYERCURRENCY_CHANGED \<Rightarrow> ro \<noteq> None
           | PLAYERCURRENCY_UNCHANGED \<Rightarrow>
               (\<exists>r. ro = Some r \<and> currency_of_row cf (pc_entry p) r = currency_of_row cf (pc_entry p) (row_of_currency k p))
           | PLAYERCURRENCY_REMOVED \<Rightarrow> False))"

definition synced :: "currency_config \<Rightarrow> currency_state \<Rightarrow> bool" where
  "synced cf c \<longleftrightarrow> om_inv (cu_map c) \<and> distinct (map cw_id (cu_rows c)) \<and>
     (\<forall>k. entry_synced cf k (om_get (cu_map c) k) (row_at (cu_rows c) k))"

lemma counted_synced:
  assumes "config_ok cf" and "counted cf mw p q"
  shows "entry_synced cf k (Some p) ro \<Longrightarrow> entry_synced cf k (Some q) ro"
    and "cf_lookup cf k = Some e \<Longrightarrow> p = new_currency e \<Longrightarrow> entry_synced cf k (Some q) None"
proof -
  have q: "pc_entry q = pc_entry p"
    "q = p \<or> pc_state q = (if pc_state p = PLAYERCURRENCY_NEW then PLAYERCURRENCY_NEW else PLAYERCURRENCY_CHANGED)"
    "cf_lookup cf k = Some (pc_entry p) \<Longrightarrow> caps_kept cf p \<Longrightarrow> caps_kept cf q"
    using assms by (auto simp: counted_def)
  show "entry_synced cf k (Some p) ro \<Longrightarrow> entry_synced cf k (Some q) ro"
    using q by (cases "q = p"; cases "pc_state p") (auto simp: entry_synced_def)
  assume e: "cf_lookup cf k = Some e" "p = new_currency e"
  then have "caps_kept cf p" using assms(1) by (auto simp: config_ok_def intro!: caps_kept_new)
  moreover have "pc_state q = PLAYERCURRENCY_NEW" using q(2) e by (auto simp: new_currency_def)
  ultimately show "entry_synced cf k (Some q) None" using q e by (simp add: entry_synced_def new_currency_def)
qed

lemma changes_one_synced:
  assumes cf: "config_ok cf" and c: "synced cf c" and ch: "changes_one cf mw k c c'"
  shows "synced cf c'"
proof -
  have inv: "cu_rows c' = cu_rows c" "om_inv (cu_map c')" using ch by (auto simp: changes_one_def)
  have s: "entry_synced cf j (om_get (cu_map c) j) (row_at (cu_rows c) j)" for j using c by (simp add: synced_def)
  have "entry_synced cf j (om_get (cu_map c') j) (row_at (cu_rows c) j)" for j
  proof (cases "cu_map c' = cu_map c")
    case True
    then show ?thesis using s by simp
  next
    case False
    with ch obtain p q where pq: "om_get (cu_map c) k = Some p \<or>
        om_get (cu_map c) k = None \<and> (\<exists>e. cf_lookup cf k = Some e \<and> p = new_currency e)"
      "counted cf mw p q" "\<forall>j. om_get (cu_map c') j = (if j = k then Some q else om_get (cu_map c) j)"
      unfolding changes_one_def by blast
    show ?thesis
    proof (cases "j = k")
      case False
      then show ?thesis using pq(3) s by simp
    next
      case True
      have "entry_synced cf k (Some q) (row_at (cu_rows c) k)"
        using pq(1)
      proof (elim disjE conjE exE)
        assume "om_get (cu_map c) k = Some p"
        then show ?thesis using s [of k] counted_synced(1) [OF cf pq(2)] by simp
      next
        fix e assume "om_get (cu_map c) k = None" and e: "cf_lookup cf k = Some e" "p = new_currency e"
        then have "row_at (cu_rows c) k = None" using s [of k] by (simp add: entry_synced_def)
        then show ?thesis using counted_synced(2) [OF cf pq(2) e] by simp
      qed
      with True pq(3) show ?thesis by simp
    qed
  qed
  with inv c show ?thesis by (simp add: synced_def)
qed

lemma modify_count_synced:
  "config_ok cf \<Longrightarrow> synced cf c \<Longrightarrow> modify_count cf own k n w s m c = Inr c' \<Longrightarrow> synced cf c'"
  using modify_count_steps changes_one_synced by (metis synced_def)

text \<open>A value written over the entries one by one.\<close>

lemma synced_map_values:
  assumes "synced cf c" and "\<And>k p ro. om_get (cu_map c) k = Some p \<Longrightarrow> entry_synced cf k (Some p) ro \<Longrightarrow> entry_synced cf k (Some (f p)) (g k p ro)"
    and "om_inv (map (\<lambda>(k, p). (k, f p)) (cu_map c))"
    and "distinct (map cw_id rows)"
    and "\<And>k. row_at rows k = (case om_get (cu_map c) k of None \<Rightarrow> row_at (cu_rows c) k | Some p \<Rightarrow> g k p (row_at (cu_rows c) k))"
    and "cu_map c' = map (\<lambda>(k, p). (k, f p)) (cu_map c)" and "cu_rows c' = rows"
  shows "synced cf c'"
proof -
  have "entry_synced cf k (om_get (cu_map c') k) (row_at rows k)" for k
  proof -
    have "entry_synced cf k (om_get (cu_map c) k) (row_at (cu_rows c) k)" using assms(1) by (simp add: synced_def)
    then show ?thesis unfolding assms(5,6) om_get_map_values
      using assms(2) by (cases "om_get (cu_map c) k") (auto simp: entry_synced_def)
  qed
  with assms(3,4,6,7) show ?thesis by (simp add: synced_def)
qed

lemma flags_synced:
  assumes c: "synced cf c" and new: "\<And>p. om_get (cu_map c) k = Some p \<Longrightarrow> pc_state p \<noteq> PLAYERCURRENCY_NEW"
  shows "synced cf (set_flags k f c)"
proof (cases "om_get (cu_map c) k")
  case None
  then show ?thesis using c by (simp add: set_flags_def)
next
  case (Some p)
  have s: "entry_synced cf j (om_get (cu_map c) j) (row_at (cu_rows c) j)" for j using c by (simp add: synced_def)
  have "entry_synced cf k (Some (p\<lparr>pc_state := PLAYERCURRENCY_CHANGED, pc_flags := f\<rparr>)) (row_at (cu_rows c) k)"
    using s [of k] Some new [OF Some] by (cases "pc_state p") (auto simp: entry_synced_def caps_kept_def)
  with s c Some show ?thesis by (simp add: set_flags_def synced_def om_inv_put)
qed

lemma no_new_synced:
  assumes c: "synced cf c" and new: "\<And>k p. om_get (cu_map c) k = Some p \<Longrightarrow> pc_state p \<noteq> PLAYERCURRENCY_NEW"
    and cf: "config_ok cf"
  shows "synced cf (reset_week_counts c)"
proof (rule synced_map_values [OF c, of _ "\<lambda>_ _ r. r"])
  fix k p ro
  assume p: "om_get (cu_map c) k = Some p" and e: "entry_synced cf k (Some p) ro"
  then have "0 \<le> sint (get_week_cap cf (pc_entry p))" using cf by (auto simp: entry_synced_def config_ok_def)
  with p e new [OF p] show "entry_synced cf k (Some (p\<lparr>pc_state := PLAYERCURRENCY_CHANGED, pc_week := 0\<rparr>)) ro"
    by (cases "pc_state p") (auto simp: entry_synced_def caps_kept_def)
qed (use c in \<open>simp_all add: synced_def om_inv_map_values reset_week_counts_def currency_emit_def split: option.splits\<close>)

lemma saved_synced:
  assumes c: "synced cf c"
  shows "synced cf (save_currencies c)"
    and "om_get (cu_map (save_currencies c)) k = map_option (\<lambda>p. p\<lparr>pc_state := PLAYERCURRENCY_UNCHANGED\<rparr>) (om_get (cu_map c) k)"
proof -
  have inv: "om_inv (cu_map c)" and ids: "distinct (map cw_id (cu_rows c))" using c by (simp_all add: synced_def)
  have s: "entry_synced cf k (om_get (cu_map c) k) (row_at (cu_rows c) k)" for k using c by (simp add: synced_def)
  have "pc_state p \<noteq> PLAYERCURRENCY_REMOVED" "pc_state p = PLAYERCURRENCY_NEW \<longrightarrow> row_at (cu_rows c) k = None"
    if "(k, p) \<in> set (cu_map c)" for k p
    using s [of k] that om_in_set [OF inv, of k p] by (auto simp: entry_synced_def)
  then have all: "filter (\<lambda>(k, p). pc_state p \<noteq> PLAYERCURRENCY_REMOVED) (cu_map c) = cu_map c"
    and new: "\<forall>(k, p) \<in> set (cu_map c). pc_state p = PLAYERCURRENCY_NEW \<longrightarrow> row_at (cu_rows c) k = None"
    by (auto intro!: filter_True)
  note rows = save_rows_spec [OF om_distinct [OF inv] ids new]
  have m: "cu_map (save_currencies c) = map (\<lambda>(k, p). (k, p\<lparr>pc_state := PLAYERCURRENCY_UNCHANGED\<rparr>)) (cu_map c)"
    by (simp add: save_currencies_def all)
  show "om_get (cu_map (save_currencies c)) k = map_option (\<lambda>p. p\<lparr>pc_state := PLAYERCURRENCY_UNCHANGED\<rparr>) (om_get (cu_map c) k)"
    unfolding m by (rule om_get_map_values)
  show "synced cf (save_currencies c)"
  proof (rule synced_map_values [OF c _ _ _ _ m refl, where g = saved_row])
    show "distinct (map cw_id (cu_rows (save_currencies c)))" using rows by (simp add: save_currencies_def)
    show "row_at (cu_rows (save_currencies c)) k =
        (case om_get (cu_map c) k of None \<Rightarrow> row_at (cu_rows c) k | Some p \<Rightarrow> saved_row k p (row_at (cu_rows c) k))" for k
      using rows by (simp add: save_currencies_def om_get_def)
    show "entry_synced cf k (Some (p\<lparr>pc_state := PLAYERCURRENCY_UNCHANGED\<rparr>)) (saved_row k p ro)"
      if "entry_synced cf k (Some p) ro" for k p ro
      using that by (cases "pc_state p") (auto simp: entry_synced_def saved_row_def caps_kept_def row_of_currency_def)
  qed (simp add: om_inv_map_values inv)
qed

section \<open>Runs that track every row\<close>

text \<open>\<open>SetFlags\<close> and \<open>ResetWeekCounts\<close> mark even a new currency as merely changed.\<close>

fun spares_new :: "currency_op \<Rightarrow> currency_state \<Rightarrow> bool" where
  "spares_new (SetFlags k f) c = (case om_get (cu_map c) k of None \<Rightarrow> True | Some p \<Rightarrow> pc_state p \<noteq> PLAYERCURRENCY_NEW)"
| "spares_new ResetWeekCounts c = list_all (\<lambda>(k, p). pc_state p \<noteq> PLAYERCURRENCY_NEW) (cu_map c)"
| "spares_new (ModifyCount own k n w s m) c = True"
| "spares_new (SetCount own k n) c = True"
| "spares_new SendAll c = True"
| "spares_new (SendWeekCap own k) c = True"
| "spares_new SaveCurrencies c = True"

inductive tracked :: "currency_config \<Rightarrow> currency_state \<Rightarrow> bool" for cf where
  login: "distinct (map cw_id rows) \<Longrightarrow> \<forall>r \<in> set rows. unat (cw_id r) < 2 ^ 16 \<Longrightarrow> tracked cf (logged_in cf rows)"
| step: "tracked cf c \<Longrightarrow> currency_step cf op c = Inr c' \<Longrightarrow> spares_new op c \<Longrightarrow> tracked cf c'"

lemma at_most_cap_idem [simp]: "at_most_cap cap (at_most_cap cap n) = at_most_cap cap n"
  by (simp add: at_most_cap_def)

lemma row_of_loaded:
  "currency_of_row cf e (row_of_currency k (currency_of_row cf e r)) = currency_of_row cf e r"
  by (simp add: currency_of_row_def row_of_currency_def ac_simps)

lemma logged_in_get:
  assumes "distinct (map cw_id rows)" and "\<forall>r \<in> set rows. unat (cw_id r) < 2 ^ 16"
  shows "om_get (cu_map (logged_in cf rows)) k =
      (case row_at rows k of None \<Rightarrow> None | Some r \<Rightarrow> map_option (\<lambda>e. currency_of_row cf e r) (cf_lookup cf k))"
    and "row_at (cu_rows (logged_in cf rows)) k = (if cf_lookup cf k = None then None else row_at rows k)"
    and "om_inv (cu_map (logged_in cf rows))" and "distinct (map cw_id (cu_rows (logged_in cf rows)))"
  using load_currencies_spec [OF assms, of "\<lparr>cu_map = [], cu_rows = rows, cu_out = []\<rparr>" cf] assms(1)
  by (auto simp: logged_in_def om_inv_def split: option.splits)

lemma logged_in_synced:
  assumes cf: "config_ok cf" and rows: "distinct (map cw_id rows)" "\<forall>r \<in> set rows. unat (cw_id r) < 2 ^ 16"
  shows "synced cf (logged_in cf rows)"
proof -
  note l = logged_in_get [OF rows, of cf]
  have "entry_synced cf k (om_get (cu_map (logged_in cf rows)) k) (row_at (cu_rows (logged_in cf rows)) k)" for k
  proof (cases "cf_lookup cf k")
    case None
    then show ?thesis using l(1,2) [of k] by (simp add: entry_synced_def split: option.splits)
  next
    case (Some e)
    then have nn: "0 \<le> sint (get_total_cap e)" "0 \<le> sint (get_week_cap cf e)" using cf by (auto simp: config_ok_def)
    show ?thesis
    proof (cases "row_at rows k")
      case None
      then show ?thesis using l(1,2) [of k] by (simp add: entry_synced_def)
    next
      case r: (Some r)
      have "pc_state (currency_of_row cf e r) = PLAYERCURRENCY_UNCHANGED" by (simp add: currency_of_row_def)
      then show ?thesis using l(1,2) [of k] Some r caps_of_row [OF nn, of r] row_of_loaded [of cf e k r]
        by (simp add: entry_synced_def)
    qed
  qed
  with l(3,4) show ?thesis by (simp add: synced_def)
qed

lemma same_synced: "synced cf c \<Longrightarrow> cu_map c' = cu_map c \<and> cu_rows c' = cu_rows c \<Longrightarrow> synced cf c'"
  by (simp add: synced_def)

lemma currency_step_synced:
  assumes cf: "config_ok cf" and c: "synced cf c" and st: "currency_step cf op c = Inr c'" and sp: "spares_new op c"
  shows "synced cf c'"
proof (cases op)
  case (SetFlags k f)
  have "synced cf (set_flags k f c)" by (rule flags_synced [OF c]) (use sp SetFlags in simp)
  then show ?thesis using st SetFlags by simp
next
  case ResetWeekCounts
  have inv: "om_inv (cu_map c)" using c by (simp add: synced_def)
  have "pc_state p \<noteq> PLAYERCURRENCY_NEW" if "om_get (cu_map c) k = Some p" for k p
    using sp that om_in_set [OF inv, of k p] by (auto simp: ResetWeekCounts list_all_iff)
  then have "synced cf (reset_week_counts c)" by (rule no_new_synced [OF c _ cf])
  then show ?thesis using st ResetWeekCounts by simp
next
  case SaveCurrencies
  then show ?thesis using st saved_synced(1) [OF c] by simp
next
  case (ModifyCount own k n w s m)
  then show ?thesis using st modify_count_synced [OF cf c] by simp
next
  case (SetCount own k n)
  then show ?thesis using st modify_count_synced [OF cf c] by (simp add: set_count_def)
next
  case SendAll
  then have "send_all cf c = Inr c'" using st by simp
  from send_keeps(2) [OF this] show ?thesis by (rule same_synced [OF c])
next
  case (SendWeekCap own k)
  then have "send_week_cap cf own (cf_lookup cf k) c = Inr c'" using st by (simp add: send_week_cap_id_def)
  from send_keeps(1) [OF this] show ?thesis by (rule same_synced [OF c])
qed

lemma tracked_synced: "tracked cf c \<Longrightarrow> config_ok cf \<Longrightarrow> synced cf c"
proof (induction rule: tracked.induct)
  case (login rows)
  then show ?case by (intro logged_in_synced)
next
  case (step c op c')
  from currency_step_synced [OF step.prems step.IH [OF step.prems] step.hyps(2,3)] show ?case .
qed

section \<open>The next login\<close>

definition reloaded :: "currency_config \<Rightarrow> player_currency \<Rightarrow> player_currency" where
  "reloaded cf p = p\<lparr>pc_state := PLAYERCURRENCY_UNCHANGED, pc_week := at_most_cap (get_week_cap cf (pc_entry p)) (pc_week p),
     pc_flags := pc_flags p AND PLAYERCURRENCY_MASK_USED_BY_CLIENT\<rparr>"

lemma currency_of_saved_row:
  "caps_kept cf p \<Longrightarrow> currency_of_row cf (pc_entry p) (row_of_currency k p) = reloaded cf p"
  by (auto simp: caps_kept_def reloaded_def currency_of_row_def row_of_currency_def at_most_cap_def)

lemma known_rows:
  assumes "\<And>k. row_at rows k \<noteq> None \<Longrightarrow> cf_lookup cf k \<noteq> None" and "config_ok cf"
  shows "\<forall>r \<in> set rows. unat (cw_id r) < 2 ^ 16"
proof
  fix r assume "r \<in> set rows"
  then have "row_at rows (cw_id r) \<noteq> None" by (simp add: row_at_None)
  then show "unat (cw_id r) < 2 ^ 16" using assms unfolding config_ok_def by blast
qed

lemma synced_rows:
  assumes "synced cf c" and "config_ok cf"
  shows "distinct (map cw_id (cu_rows c))" and "\<forall>r \<in> set (cu_rows c). unat (cw_id r) < 2 ^ 16"
proof -
  show "distinct (map cw_id (cu_rows c))" using assms(1) by (simp add: synced_def)
  have "cf_lookup cf k \<noteq> None" if "row_at (cu_rows c) k \<noteq> None" for k
  proof -
    have "entry_synced cf k (om_get (cu_map c) k) (row_at (cu_rows c) k)" using assms(1) by (simp add: synced_def)
    then show ?thesis using that by (auto simp: entry_synced_def split: option.splits)
  qed
  then show "\<forall>r \<in> set (cu_rows c). unat (cw_id r) < 2 ^ 16" using assms(2) by (rule known_rows)
qed

lemma relog_synced:
  assumes cf: "config_ok cf" and c: "synced cf c"
  shows "om_get (cu_map (logged_in cf (cu_rows (save_currencies c)))) k = map_option (reloaded cf) (om_get (cu_map c) k)"
proof -
  let ?s = "save_currencies c"
  have s: "synced cf ?s" by (rule saved_synced(1) [OF c])
  then have e: "entry_synced cf k (om_get (cu_map ?s) k) (row_at (cu_rows ?s) k)" by (simp add: synced_def)
  note l = logged_in_get(1) [OF synced_rows [OF s cf], of cf k]
  show ?thesis
  proof (cases "om_get (cu_map c) k")
    case None
    then show ?thesis using e l saved_synced(2) [OF c, of k] by (simp add: entry_synced_def)
  next
    case (Some p)
    let ?q = "p\<lparr>pc_state := PLAYERCURRENCY_UNCHANGED\<rparr>"
    have q: "om_get (cu_map ?s) k = Some ?q" using saved_synced(2) [OF c, of k] Some by simp
    with e obtain r where r: "row_at (cu_rows ?s) k = Some r" "cf_lookup cf k = Some (pc_entry ?q)" "caps_kept cf ?q"
      "currency_of_row cf (pc_entry ?q) r = currency_of_row cf (pc_entry ?q) (row_of_currency k ?q)"
      by (auto simp: entry_synced_def)
    have "currency_of_row cf (pc_entry p) r = reloaded cf ?q"
      using r(4) currency_of_saved_row [OF r(3), of k] by simp
    then show ?thesis using l r(1,2) Some by (simp add: reloaded_def)
  qed
qed

section \<open>A new currency that is not inserted\<close>

lemma flagged_new_lost:
  assumes cf: "config_ok cf" and c: "synced cf c" and p: "om_get (cu_map c) k = Some p" and new: "pc_state p = PLAYERCURRENCY_NEW"
  shows "om_get (cu_map (logged_in cf (cu_rows (save_currencies (set_flags k f c))))) k = None"
proof -
  let ?q = "p\<lparr>pc_state := PLAYERCURRENCY_CHANGED, pc_flags := f\<rparr>" and ?d = "set_flags k f c"
  have d: "cu_map ?d = om_put k ?q (cu_map c)" "cu_rows ?d = cu_rows c" using p by (simp_all add: set_flags_def)
  have s: "entry_synced cf j (om_get (cu_map c) j) (row_at (cu_rows c) j)" for j using c by (simp add: synced_def)
  have inv: "om_inv (cu_map ?d)" using c d(1) by (simp add: synced_def om_inv_put)
  have get: "om_get (cu_map ?d) j = (if j = k then Some ?q else om_get (cu_map c) j)" for j by (simp add: d(1))
  have unsaved: "row_at (cu_rows c) j = None" if "om_get (cu_map ?d) j = Some q" "pc_state q = PLAYERCURRENCY_NEW" for j q
    using that s [of j] by (auto simp: get entry_synced_def split: if_splits)
  then have "\<forall>(j, q) \<in> set (cu_map ?d). pc_state q = PLAYERCURRENCY_NEW \<longrightarrow> row_at (cu_rows c) j = None"
    using om_in_set [OF inv] by blast
  moreover have "distinct (map cw_id (cu_rows c))" using c by (simp add: synced_def)
  ultimately have rows: "row_at (cu_rows (save_currencies ?d)) j =
      (case om_get (cu_map ?d) j of None \<Rightarrow> row_at (cu_rows c) j | Some q \<Rightarrow> saved_row j q (row_at (cu_rows c) j))"
    and ids: "distinct (map cw_id (cu_rows (save_currencies ?d)))" for j
    using save_rows_spec [OF om_distinct [OF inv], of "cu_rows c"] by (simp_all add: save_currencies_def d(2) om_get_def)
  have known: "cf_lookup cf j \<noteq> None" if "row_at (cu_rows (save_currencies ?d)) j \<noteq> None" for j
    using that s [of j] p s [of k] rows [of j] by (auto simp: get entry_synced_def split: option.splits if_splits)
  have "row_at (cu_rows c) k = None" using s [of k] p new by (simp add: entry_synced_def)
  then have "row_at (cu_rows (save_currencies ?d)) k = None" by (simp add: rows get saved_row_def)
  then show ?thesis using logged_in_get(1) [OF ids known_rows [OF known cf], of cf k] by simp
qed

section \<open>A gain that does not count for the week\<close>

lemma build_update_currency_total: "\<exists>p. build_update_currency u (world_packet_new opc) = Inr p"
  by (cases "cup_has_weekly u"; cases "cup_suppress u"; cases "cup_has_tracked u")
    (simp_all add: build_update_currency_def world_packet_new_def put_u32_def append_value_def write_bit_steps)

lemma capped_counts_over:
  assumes "0 \<le> T" "T + n < 2 ^ 31" "0 < n" "0 \<le> W" "W < 2 ^ 31" "0 < sint (get_total_cap e)" "sint (get_total_cap e) < T + n"
  shows "capped_counts cf e False T W n = Inr (sint (get_total_cap e), W - (T + n - sint (get_total_cap e)))"
  using assms unfolding capped_counts_def by (simp add: checked_def Let_def)

lemma tell_owner_total:
  "\<exists>c'. tell_owner cf own k e False w p d c = Inr c' \<and> cu_map c' = cu_map c \<and> cu_rows c' = cu_rows c"
proof -
  obtain u where "build_update_currency (update_of cf k e w (pc_total p) (pc_week p) (pc_season p) d) (world_packet_new SMSG_UPDATE_CURRENCY) = Inr u"
    using build_update_currency_total by blast
  then show ?thesis by (simp add: tell_owner_def currency_packet_def currency_emit_def Let_def)
qed

lemma modify_count_over:
  assumes p: "om_get (cu_map c) k = Some p" and k: "\<not> is_conquest_meta k"
    and cap: "0 < sint (get_total_cap (pc_entry p))" "sint (pc_total p) < sint (get_total_cap (pc_entry p))"
    and T: "0 \<le> sint (pc_total p)" and W: "0 \<le> sint (pc_week p)"
    and n: "sint (get_total_cap (pc_entry p)) < sint (pc_total p) + n" "sint (pc_total p) + n < 2 ^ 31"
  shows "\<exists>c' q. modify_count cf own k n False s True c = Inr c' \<and> om_get (cu_map c') k = Some q \<and>
     pc_entry q = pc_entry p \<and> pc_total q = get_total_cap (pc_entry p) \<and>
     pc_week q = word_of_int (sint (pc_week p) - (sint (pc_total p) + n - sint (get_total_cap (pc_entry p))))"
proof -
  let ?C = "sint (get_total_cap (pc_entry p))" and ?T = "sint (pc_total p)" and ?W = "sint (pc_week p)"
  have n0: "0 < n" using cap n by linarith
  have cc: "capped_counts cf (pc_entry p) False ?T ?W n = Inr (?C, ?W - (?T + n - ?C))"
    by (rule capped_counts_over) (use T W n n0 cap sint32_range(2) in auto)
  have diff: "checked (?C - ?T) = Inr (?C - ?T)" using cap T sint32_range(2) [of "get_total_cap (pc_entry p)"] by (simp add: checked_def)
  let ?q = "write_counts ?C (?W - (?T + n - ?C)) (?C - ?T) s p"
  obtain c' where tell: "tell_owner cf own k (pc_entry p) False False ?q (?C - ?T) (c\<lparr>cu_map := om_put k ?q (cu_map c)\<rparr>) = Inr c'"
    "cu_map c' = cu_map (c\<lparr>cu_map := om_put k ?q (cu_map c)\<rparr>)"
    using tell_owner_total [of cf own k "pc_entry p" False ?q] by blast
  have one: "apply_count cf own k n False s c = Inr (c', ?C - ?T)"
    using p cc diff tell(1) cap by (simp add: apply_count_def find_or_add_def Let_def del: checked_Inr)
  show ?thesis
  proof (intro exI conjI)
    show "modify_count cf own k n False s True c = Inr c'" using one n0 k by (simp add: modify_count_def modify_one_def)
    show "om_get (cu_map c') k = Some ?q" by (simp add: tell(2))
    show "pc_total ?q = get_total_cap (pc_entry p)" by (simp add: write_counts_def)
  qed (simp_all add: write_counts_def)
qed

section \<open>Properties\<close>

text \<open>
  C35: A player never has more of a currency than its total cap. Over every run of operations on the
  currencies of a player, gains and losses of any size by any owner, resets, saves, the total stays
  at most the cap. The weekly count, read as a signed number, stays at most the weekly cap; the
  unsigned number that is stored does in every run whose changes all count for the week, and need
  not in the others (C37).
\<close>

theorem currency_caps_hold:
  assumes "config_ok cf" and "currency_run cf ops (logged_in cf rows) = Inr c" and "om_get (cu_map c) k = Some p"
  shows "(get_total_cap (pc_entry p) \<noteq> 0 \<longrightarrow> pc_total p \<le> get_total_cap (pc_entry p)) \<and>
    (get_week_cap cf (pc_entry p) \<noteq> 0 \<longrightarrow> sint (pc_week p) \<le> sint (get_week_cap cf (pc_entry p))) \<and>
    (get_week_cap cf (pc_entry p) \<noteq> 0 \<and> list_all (counts_as {True}) ops \<longrightarrow> pc_week p \<le> get_week_cap cf (pc_entry p))"
proof -
  have "list_all (counts_as UNIV) ops" by (simp add: list_all_iff counts_as_def split: currency_op.split)
  from caps.run_keeps [OF caps.login_has assms(2) this] have "caps_kept cf p"
    using assms(1,3) by (auto simp: all_currencies_def)
  moreover have "week_kept cf p" if "list_all (counts_as {True}) ops"
    using week.run_keeps [OF week.login_has assms(2) that] assms(1,3) by (auto simp: all_currencies_def)
  ultimately show ?thesis by (simp add: caps_kept_def week_kept_def)
qed

text \<open>
  C34: What is saved is what the next login finds. In every run in which flags and weekly resets spare
  the currencies not yet in the table, saving and loading again gives every currency with its
  total, its season count and its visible flags, the weekly count cut to the weekly cap, and
  no other currency.
\<close>

theorem currencies_survive_relog:
  assumes "config_ok cf" and "tracked cf c"
  shows "om_get (cu_map (logged_in cf (cu_rows (save_currencies c)))) k =
    map_option (\<lambda>p. p\<lparr>pc_state := PLAYERCURRENCY_UNCHANGED, pc_week := at_most_cap (get_week_cap cf (pc_entry p)) (pc_week p),
       pc_flags := pc_flags p AND PLAYERCURRENCY_MASK_USED_BY_CLIENT\<rparr>) (om_get (cu_map c) k)"
  using relog_synced [OF assms(1) tracked_synced [OF assms(2,1)], of k]
  by (cases "om_get (cu_map c) k") (simp_all add: reloaded_def)

text \<open>
  C36: \<open>SetFlags\<close> loses a new currency. It marks a currency that has no row yet as changed, so that
  \<open>Save\<close> updates a row that does not exist instead of inserting one: after the next login
  the currency is gone.
\<close>

theorem flags_lose_new_currency:
  assumes "config_ok cf" and "tracked cf c" and "om_get (cu_map c) k = Some p" and "pc_state p = PLAYERCURRENCY_NEW"
  shows "om_get (cu_map (logged_in cf (cu_rows (save_currencies (set_flags k f c))))) k = None"
  by (rule flagged_new_lost [OF assms(1) tracked_synced [OF assms(2,1)] assms(3,4)])

text \<open>
  C37: A gain beyond the total cap that does not count for the week makes the weekly count negative: the
  excess is subtracted from it although the gain was never added. Stored as \<open>uint32\<close> it is
  huge, and the next login takes it for a full week.
\<close>

theorem untracked_gain_wraps_week:
  assumes "config_ok cf" and "tracked cf c" and p: "om_get (cu_map c) k = Some p" and "\<not> is_conquest_meta k"
    and "0 < sint (get_total_cap (pc_entry p))" and "sint (pc_total p) < sint (get_total_cap (pc_entry p))"
    and "0 \<le> sint (pc_week p)" and "sint (pc_week p) < sint (pc_total p) + sint n - sint (get_total_cap (pc_entry p))"
    and "sint (pc_total p) + sint n < 2 ^ 31"
  shows "case currency_step cf (ModifyCount own k n False s True) c of
      Inl _ \<Rightarrow> False
    | Inr c' \<Rightarrow> get_count c' k = get_total_cap (pc_entry p) \<and>
        uint (get_week_count c' k) = 2 ^ 32 + sint (pc_week p) - (sint (pc_total p) + sint n - sint (get_total_cap (pc_entry p))) \<and>
        (get_week_cap cf (pc_entry p) \<noteq> 0 \<longrightarrow>
           get_week_count (logged_in cf (cu_rows (save_currencies c'))) k = get_week_cap cf (pc_entry p))"
proof -
  let ?C = "sint (get_total_cap (pc_entry p))" and ?T = "sint (pc_total p)" and ?W = "sint (pc_week p)"
  have sc: "synced cf c" by (rule tracked_synced [OF assms(2,1)])
  then have e: "cf_lookup cf k = Some (pc_entry p)" "caps_kept cf p"
    using p by (auto simp: synced_def entry_synced_def dest!: spec [of _ k])
  have nn: "0 \<le> sint (get_total_cap (pc_entry p))" "0 \<le> sint (get_week_cap cf (pc_entry p))"
    using assms(1) e(1) by (auto simp: config_ok_def)
  have T: "0 \<le> ?T" using e(2) assms(5) caps_kept_sint [OF nn] by auto
  obtain c' q where st: "modify_count cf own k (sint n) False s True c = Inr c'" and q: "om_get (cu_map c') k = Some q"
    "pc_entry q = pc_entry p" "pc_total q = get_total_cap (pc_entry p)"
    "pc_week q = word_of_int (?W - (?T + sint n - ?C))"
    using modify_count_over [OF p assms(4,5,6) T assms(7) _ assms(9), of cf own s] assms(7,8) by auto
  have sc': "synced cf c'" by (rule modify_count_synced [OF assms(1) sc st])
  have neg: "- (2 ^ 31) \<le> ?W - (?T + sint n - ?C)" "?W - (?T + sint n - ?C) < 0"
    using assms(5,7-9) by linarith+
  have w: "uint (pc_week q) = 2 ^ 32 + ?W - (?T + sint n - ?C)"
  proof -
    have "uint (pc_week q) = (?W - (?T + sint n - ?C) + 2 ^ 32) mod 2 ^ 32" unfolding q(4) uint_word_of_int by simp
    also have "\<dots> = ?W - (?T + sint n - ?C) + 2 ^ 32" using neg by (intro mod_pos_pos_trivial) simp_all
    finally show ?thesis by simp
  qed
  have "get_week_cap cf (pc_entry p) < pc_week q"
    using w neg(1) sint_nonneg [OF nn(2)] sint32_range(2) [of "get_week_cap cf (pc_entry p)"]
    by (simp add: word_less_def)
  then have "get_week_count (logged_in cf (cu_rows (save_currencies c'))) k = get_week_cap cf (pc_entry p)"
    if "get_week_cap cf (pc_entry p) \<noteq> 0"
    using that relog_synced [OF assms(1) sc', of k] q(1,2) by (simp add: get_week_count_def reloaded_def at_most_cap_def)
  with st q w show ?thesis by (simp add: get_count_def get_week_count_def)
qed

section \<open>Witnesses\<close>

text \<open>A currency with a total cap of 1000 and a weekly cap of 500; a player with 900 of it, 100 this week.\<close>

definition demo_currency :: currency_entry where
  "demo_currency = \<lparr>ce_id = 396, ce_category = 22, ce_max_qty = 1000, ce_max_per_week = 500, ce_flags = 0\<rparr>"

definition demo_currency_config :: currency_config where
  "demo_currency_config = \<lparr>cf_lookup = (\<lambda>k. if k = 396 then Some demo_currency else None), cf_conquest_week_cap = 135000\<rparr>"

definition demo_owner :: currency_owner where
  "demo_owner = \<lparr>co_gain = (\<lambda>_ n. n), co_in_world = False, co_loading = True\<rparr>"

definition demo_rows :: "currency_row list" where
  "demo_rows = [\<lparr>cw_id = 396, cw_total = 900, cw_week = 100, cw_season = 0, cw_flags = 4\<rparr>]"

lemma demo_config_ok: "config_ok demo_currency_config"
  by (simp add: config_ok_def demo_currency_config_def demo_currency_def get_total_cap_def get_week_cap_def CURRENCY_CONQUEST_POINTS_def)

lemma demo_tracked: "tracked demo_currency_config (logged_in demo_currency_config demo_rows)"
  by (rule tracked.login) (simp_all add: demo_rows_def)

lemma demo_get:
  "om_get (cu_map (logged_in demo_currency_config demo_rows)) 396 = Some
     \<lparr>pc_state = PLAYERCURRENCY_UNCHANGED, pc_total = 900, pc_week = 100, pc_season = 0, pc_flags = 4, pc_entry = demo_currency\<rparr>"
  by (simp add: logged_in_def load_currencies_def load_row_def demo_rows_def demo_currency_config_def currency_of_row_def
      demo_currency_def at_most_cap_def get_total_cap_def get_week_cap_def CURRENCY_CONQUEST_POINTS_def
      PLAYERCURRENCY_MASK_USED_BY_CLIENT_def om_get_def)

text \<open>A gain of 400 is cut to 100 by the total cap.\<close>

lemmas count_eval =
  set_count_def modify_count_def modify_one_def apply_count_def find_or_add_def capped_counts_def checked_def tell_owner_def
  write_counts_def new_currency_def demo_owner_def is_conquest_meta_def
  CURRENCY_CONQUEST_POINTS_def CURRENCY_CONQUEST_ARENA_META_def CURRENCY_CONQUEST_BG_META_def Let_def

lemma demo_caps:
  "cf_lookup demo_currency_config 396 = Some demo_currency" "get_total_cap demo_currency = 1000"
  "get_week_cap demo_currency_config demo_currency = 500" "ce_max_per_week demo_currency = 500"
  by (simp_all add: demo_currency_def demo_currency_config_def get_total_cap_def get_week_cap_def CURRENCY_CONQUEST_POINTS_def)

lemma demo_run:
  "\<exists>c p. currency_run demo_currency_config [ModifyCount demo_owner 396 400 True True False] (logged_in demo_currency_config demo_rows) = Inr c \<and>
     om_get (cu_map c) 396 = Some p \<and> pc_total p = 1000 \<and> pc_week p = 200 \<and> pc_entry p = demo_currency"
  by (simp add: count_eval demo_get demo_caps del: checked_Inr)

theorem currency_caps_hold_witness:
  "\<exists>c p. currency_run demo_currency_config [ModifyCount demo_owner 396 400 True True False] (logged_in demo_currency_config demo_rows) = Inr c \<and>
     om_get (cu_map c) 396 = Some p \<and> pc_total p = 1000 \<and> pc_total p \<le> get_total_cap (pc_entry p) \<and>
     pc_week p = 200 \<and> pc_week p \<le> get_week_cap demo_currency_config (pc_entry p)"
proof -
  from demo_run obtain c p where run:
    "currency_run demo_currency_config [ModifyCount demo_owner 396 400 True True False] (logged_in demo_currency_config demo_rows) = Inr c"
    and p: "om_get (cu_map c) 396 = Some p" "pc_total p = 1000" "pc_week p = 200" "pc_entry p = demo_currency" by blast
  have "get_total_cap (pc_entry p) \<noteq> 0" "get_week_cap demo_currency_config (pc_entry p) \<noteq> 0" by (simp_all add: p(4) demo_caps)
  moreover have "list_all (counts_as {True}) [ModifyCount demo_owner 396 400 True True False]" by (simp add: counts_as_def)
  ultimately show ?thesis using currency_caps_hold [OF demo_config_ok run p(1)] run p by blast
qed

theorem currencies_survive_relog_witness:
  "om_get (cu_map (logged_in demo_currency_config
     (cu_rows (save_currencies (logged_in demo_currency_config demo_rows))))) 396 \<noteq> None"
  by (simp add: currencies_survive_relog [OF demo_config_ok demo_tracked, of 396] demo_get)

text \<open>The first points of a player who had none.\<close>

lemma demo_first:
  "\<exists>c p. currency_step demo_currency_config (ModifyCount demo_owner 396 400 True True False) (logged_in demo_currency_config []) = Inr c \<and>
     om_get (cu_map c) 396 = Some p \<and> pc_state p = PLAYERCURRENCY_NEW \<and> pc_total p = 400"
  by (simp add: count_eval logged_in_def load_currencies_def demo_caps om_get_def del: checked_Inr)

theorem flags_lose_new_currency_witness:
  "\<exists>c p. currency_step demo_currency_config (ModifyCount demo_owner 396 400 True True False) (logged_in demo_currency_config []) = Inr c \<and>
     om_get (cu_map c) 396 = Some p \<and> pc_total p = 400 \<and>
     om_get (cu_map (logged_in demo_currency_config (cu_rows (save_currencies (set_flags 396 4 c))))) 396 = None"
proof -
  from demo_first obtain c p where c:
    "currency_step demo_currency_config (ModifyCount demo_owner 396 400 True True False) (logged_in demo_currency_config []) = Inr c"
    and p: "om_get (cu_map c) 396 = Some p" "pc_state p = PLAYERCURRENCY_NEW" "pc_total p = 400" by blast
  have "tracked demo_currency_config (logged_in demo_currency_config [])" by (rule tracked.login) simp_all
  then have "tracked demo_currency_config c" by (rule tracked.step [OF _ c]) simp
  from flags_lose_new_currency [OF demo_config_ok this p(1,2)] c p show ?thesis by blast
qed

theorem untracked_gain_wraps_week_witness:
  "case currency_step demo_currency_config (ModifyCount demo_owner 396 400 False False True) (logged_in demo_currency_config demo_rows) of
      Inl _ \<Rightarrow> False
    | Inr c' \<Rightarrow> get_count c' 396 = 1000 \<and> uint (get_week_count c' 396) = 2 ^ 32 - 200 \<and>
        get_week_count (logged_in demo_currency_config (cu_rows (save_currencies c'))) 396 = 500"
  using untracked_gain_wraps_week [OF demo_config_ok demo_tracked demo_get, of 400 demo_owner False]
  by (cases "currency_step demo_currency_config (ModifyCount demo_owner 396 400 False False True)
        (logged_in demo_currency_config demo_rows)")
    (simp_all add: demo_caps is_conquest_meta_def CURRENCY_CONQUEST_ARENA_META_def CURRENCY_CONQUEST_BG_META_def
      del: currency_step.simps)

end
