(* ===== verification/Trade.thy ===== *)
theory Trade
  imports PacketWriter
begin

text \<open>
  The trade between two players: \<open>src/src/game/WorldHandlers/TradeHandler.cpp\<close>, the class
  \<open>TradeData\<close> and its packets (\<open>Object/Player.h\<close>, \<open>Object/Player.cpp\<close>) and \<open>Player::TradeCancel\<close>
  (\<open>Object/PlayerItem.cpp\<close>). Players are found under their guid; a pointer to a player is its guid,
  and following the pointer to a deleted player or a null \<open>TradeData\<close> is the error \<open>TradeFault\<close>. What
  the storage of items answers and does is a parameter.
\<close>

section \<open>Data\<close>

definition TRADE_SLOT_COUNT :: nat where "TRADE_SLOT_COUNT = 7"
definition TRADE_SLOT_TRADED_COUNT :: nat where "TRADE_SLOT_TRADED_COUNT = 6"
definition TRADE_SLOT_NONTRADED :: nat where "TRADE_SLOT_NONTRADED = 6"

datatype trade_status =
    TRADE_STATUS_FAILED | TRADE_STATUS_TARGET_STUNNED | TRADE_STATUS_INITIATED | TRADE_STATUS_CURRENCY_NOT_TRADABLE
  | TRADE_STATUS_PLAYER_NOT_FOUND | TRADE_STATUS_TOO_FAR_AWAY | TRADE_STATUS_ACCEPTED | TRADE_STATUS_DEAD
  | TRADE_STATUS_STATE_CHANGED | TRADE_STATUS_WRONG_FACTION | TRADE_STATUS_ALREADY_TRADING
  | TRADE_STATUS_RESTRICTED_ACCOUNT | TRADE_STATUS_COMPLETE | TRADE_STATUS_LOGGING_OUT | TRADE_STATUS_PLAYER_IGNORED
  | TRADE_STATUS_TARGET_LOGGING_OUT | TRADE_STATUS_PETITION | TRADE_STATUS_STUNNED | TRADE_STATUS_PLAYER_BUSY
  | TRADE_STATUS_WRONG_REALM | TRADE_STATUS_NOT_ENOUGH_CURRENCY | TRADE_STATUS_PROPOSED | TRADE_STATUS_UNACCEPTED
  | TRADE_STATUS_TARGET_DEAD | TRADE_STATUS_CANCELLED | TRADE_STATUS_NOT_ON_TAPLIST

fun trade_status_value :: "trade_status \<Rightarrow> u32" where
  "trade_status_value TRADE_STATUS_FAILED = 0"
| "trade_status_value TRADE_STATUS_TARGET_STUNNED = 1"
| "trade_status_value TRADE_STATUS_INITIATED = 2"
| "trade_status_value TRADE_STATUS_CURRENCY_NOT_TRADABLE = 3"
| "trade_status_value TRADE_STATUS_PLAYER_NOT_FOUND = 4"
| "trade_status_value TRADE_STATUS_TOO_FAR_AWAY = 5"
| "trade_status_value TRADE_STATUS_ACCEPTED = 6"
| "trade_status_value TRADE_STATUS_DEAD = 7"
| "trade_status_value TRADE_STATUS_STATE_CHANGED = 9"
| "trade_status_value TRADE_STATUS_WRONG_FACTION = 10"
| "trade_status_value TRADE_STATUS_ALREADY_TRADING = 11"
| "trade_status_value TRADE_STATUS_RESTRICTED_ACCOUNT = 13"
| "trade_status_value TRADE_STATUS_COMPLETE = 14"
| "trade_status_value TRADE_STATUS_LOGGING_OUT = 15"
| "trade_status_value TRADE_STATUS_PLAYER_IGNORED = 16"
| "trade_status_value TRADE_STATUS_TARGET_LOGGING_OUT = 17"
| "trade_status_value TRADE_STATUS_PETITION = 18"
| "trade_status_value TRADE_STATUS_STUNNED = 20"
| "trade_status_value TRADE_STATUS_PLAYER_BUSY = 21"
| "trade_status_value TRADE_STATUS_WRONG_REALM = 22"
| "trade_status_value TRADE_STATUS_NOT_ENOUGH_CURRENCY = 23"
| "trade_status_value TRADE_STATUS_PROPOSED = 24"
| "trade_status_value TRADE_STATUS_UNACCEPTED = 27"
| "trade_status_value TRADE_STATUS_TARGET_DEAD = 28"
| "trade_status_value TRADE_STATUS_CANCELLED = 30"
| "trade_status_value TRADE_STATUS_NOT_ON_TAPLIST = 31"

text \<open>An item with what the trade window shows of it.\<close>

record trade_item =
  ti_guid :: u64
  ti_entry :: u32
  ti_count :: u32
  ti_not_wrapped :: bool
  ti_creator :: u64
  ti_gift_creator :: u64
  ti_has_lock :: bool
  ti_max_durability :: u32
  ti_reforge :: u32
  ti_permanent_enchant :: u32
  ti_durability :: u32
  ti_gems :: "u32 \<times> u32 \<times> u32"
  ti_random_property :: u32
  ti_spell_charges :: u32
  ti_suffix_factor :: u32

record trade_data =
  td_trader :: u64
  td_accepted :: bool
  td_in_accept :: bool
  td_money :: u64
  td_spell :: u32
  td_cast_item :: u64
  td_items :: "u64 list"

definition trade_data_new :: "u64 \<Rightarrow> trade_data" where
  "trade_data_new trader =
     \<lparr>td_trader = trader, td_accepted = False, td_in_accept = False, td_money = 0, td_spell = 0, td_cast_item = 0,
      td_items = replicate TRADE_SLOT_COUNT 0\<rparr>"

record 'inv trader =
  tr_money :: u64
  tr_trade :: "trade_data option"
  tr_inv :: 'inv
  tr_alive :: bool
  tr_stunned :: bool
  tr_taxi :: bool
  tr_logging_out :: bool
  tr_recently_logout :: bool
  tr_team :: nat
  tr_ignores :: "u64 list"

datatype trade_notice = LANG_NOT_ENOUGH_GOLD | LANG_NOT_FREE_TRADE_SLOTS | LANG_NOT_PARTNER_FREE_TRADE_SLOTS | EQUIP_ERR_TOO_MUCH_GOLD

datatype trade_effect =
    TradePacket u64 world_packet
  | TradeNotice u64 trade_notice
  | TradeSpellStart u64 u32
  | TradeCastFailed u64 u32
  | TradeSaved u64 u64

record 'inv trade_world =
  tw_players :: "(u64, 'inv trader) omap"
  tw_out :: "trade_effect list"

datatype trade_error = TradeFault | TradePacketError bb_error

type_synonym 'a trade_result = "trade_error + 'a"

text \<open>
  Item storage. \<open>iv_can_store\<close> is \<open>CanStoreItem(NULL_BAG, NULL_SLOT, dest, item)\<close>: it adds the places
  it finds to \<open>dest\<close> and says whether there are enough. \<open>iv_store\<close> is \<open>MoveItemToInventory\<close>,
  \<open>iv_remove\<close> is \<open>MoveItemFromInventory\<close> from where the item is. \<open>iv_can_store_all\<close> and the cast check
  see which items carry the in-trade flag.
\<close>

record ('inv, 'dest) item_storage =
  iv_items :: "'inv \<Rightarrow> trade_item list"
  iv_at :: "'inv \<Rightarrow> u8 \<Rightarrow> u8 \<Rightarrow> trade_item option"
  iv_can_trade :: "'inv \<Rightarrow> trade_item \<Rightarrow> bool"
  iv_no_dest :: 'dest
  iv_can_store :: "'inv \<Rightarrow> 'dest \<Rightarrow> trade_item \<Rightarrow> bool \<times> 'dest"
  iv_can_store_all :: "u64 list \<Rightarrow> 'inv \<Rightarrow> trade_item option list \<Rightarrow> bool"
  iv_store :: "'dest \<Rightarrow> trade_item \<Rightarrow> 'inv \<Rightarrow> 'inv"
  iv_remove :: "trade_item \<Rightarrow> 'inv \<Rightarrow> 'inv"

text \<open>
  \<open>te_in_world\<close>: whom \<open>ObjectAccessor::FindPlayer\<close> finds; a player that is being teleported is not in
  the world, though its trade may still be open.
\<close>

record ('inv, 'dest) trade_env =
  te_storage :: "('inv, 'dest) item_storage"
  te_trade_range :: "u64 \<Rightarrow> u64 \<Rightarrow> bool"
  te_in_world :: "u64 \<Rightarrow> bool"
  te_invite_range :: "u64 \<Rightarrow> u64 \<Rightarrow> bool"
  te_spell_known :: "u32 \<Rightarrow> bool"
  te_check_cast :: "u64 \<Rightarrow> u32 \<Rightarrow> trade_item option \<Rightarrow> u64 list \<Rightarrow> 'inv trade_world \<Rightarrow> bool"

section \<open>Packets\<close>

definition SMSG_TRADE_STATUS :: u16 where "SMSG_TRADE_STATUS = 0x1963"
definition SMSG_TRADE_STATUS_EXTENDED :: u16 where "SMSG_TRADE_STATUS_EXTENDED = 0x181E"

record trade_status_data =
  sd_flag :: bool
  sd_first :: u32
  sd_second :: u32
  sd_slot :: u8
  sd_guid :: u64

definition status_data_new :: trade_status_data where
  "status_data_new = \<lparr>sd_flag = False, sd_first = 0, sd_second = 0, sd_slot = 0, sd_guid = 0\<rparr>"

fun status_fields :: "trade_status \<Rightarrow> trade_status_data \<Rightarrow> writer list" where
  "status_fields TRADE_STATUS_FAILED d = [write_bit (sd_flag d), put_u32 (sd_first d), put_u32 (sd_second d)]"
| "status_fields TRADE_STATUS_INITIATED d = [put_u32 (sd_first d)]"
| "status_fields TRADE_STATUS_CURRENCY_NOT_TRADABLE d = [put_u32 (sd_first d), put_u32 (sd_second d)]"
| "status_fields TRADE_STATUS_NOT_ENOUGH_CURRENCY d = [put_u32 (sd_first d), put_u32 (sd_second d)]"
| "status_fields TRADE_STATUS_WRONG_REALM d = [put_u8 (sd_slot d)]"
| "status_fields TRADE_STATUS_NOT_ON_TAPLIST d = [put_u8 (sd_slot d)]"
| "status_fields TRADE_STATUS_PROPOSED d =
     [write_guid_mask (sd_guid d) [6, 2, 1, 4, 7, 3, 0, 5], flush_bits, write_guid_bytes (sd_guid d) [6, 2, 1, 7, 5, 4, 0, 3]]"
| "status_fields _ d = [flush_bits]"

definition build_status :: "trade_status \<Rightarrow> trade_status_data \<Rightarrow> writer" where
  "build_status st d out =
     chain ([write_bit False, write_bits (trade_status_value st) 5] @ status_fields st d)
       (wp_initialize SMSG_TRADE_STATUS out)"

record trade_update =
  tu_spell :: u32
  tu_side :: u8
  tu_money :: u64
  tu_items :: "(u8 \<times> trade_item) list"

definition update_item_bits :: "trade_item \<Rightarrow> writer list" where
  "update_item_bits i =
     [write_bit (ti_not_wrapped i), write_guid_mask (ti_gift_creator i) [2]] @
     (if ti_not_wrapped i
      then [write_guid_mask (ti_creator i) [3, 5, 1, 6, 0], write_bit (ti_has_lock i), write_guid_mask (ti_creator i) [4, 7, 2]]
      else []) @
     [write_guid_mask (ti_gift_creator i) [0, 4, 7, 3, 6, 1, 5]]"

definition update_item_bytes :: "u8 \<Rightarrow> trade_item \<Rightarrow> writer list" where
  "update_item_bytes slot' i =
     (if ti_not_wrapped i
      then [write_guid_bytes (ti_creator i) [3], put_u32 (ti_max_durability i), put_u32 0, put_u32 (ti_reforge i),
            write_guid_bytes (ti_creator i) [1, 5, 7, 6, 0], put_u32 (ti_permanent_enchant i), put_u32 (ti_durability i),
            write_guid_bytes (ti_creator i) [2]] @ (case ti_gems i of (a, b, c) \<Rightarrow> [put_u32 a, put_u32 b, put_u32 c]) @
           [put_u32 (ti_random_property i), put_u32 (ti_spell_charges i), put_u32 (ti_suffix_factor i),
            write_guid_bytes (ti_creator i) [4]]
      else []) @
     [write_guid_bytes (ti_gift_creator i) [4], put_u8 slot', write_guid_bytes (ti_gift_creator i) [5, 1, 2, 3],
      put_u32 (ti_entry i), write_guid_bytes (ti_gift_creator i) [7, 0], put_u32 (ti_count i),
      write_guid_bytes (ti_gift_creator i) [6]]"

text \<open>\<open>None\<close> is the result \<open>false\<close>: too many items, or a slot twice.\<close>

definition build_update :: "trade_update \<Rightarrow> world_packet \<Rightarrow> bb_error + world_packet option" where
  "build_update u out =
     (if length (tu_items u) > 7 then Inr None
      else if (\<exists>(s, i) \<in> set (tu_items u). s > 6) \<or> \<not> distinct (map fst (tu_items u)) then Inr None
      else sum_bind (chain ([put_u32 0, put_u32 0, put_u32 (tu_spell u), put_u8 (tu_side u), put_u64 (tu_money u),
                             put_u32 (of_nat TRADE_SLOT_COUNT), put_u32 0, put_u32 (of_nat TRADE_SLOT_COUNT),
                             write_bits (of_nat (length (tu_items u)) :: u32) 20] @
                            concat (map (update_item_bits \<circ> snd) (tu_items u)) @
                            concat (map (\<lambda>(s, i). update_item_bytes s i) (tu_items u)) @ [flush_bits])
                      (wp_initialize SMSG_TRADE_STATUS_EXTENDED out))
             (\<lambda>p. Inr (Some p)))"

definition read_initiate_trade :: "world_packet \<Rightarrow> bb_error + u64 \<times> world_packet" where
  "read_initiate_trade p =
     sum_bind (read_guid_mask [5, 1, 4, 2, 3, 7, 0, 6] 0 p) (\<lambda>(g, p). read_guid_bytes [4, 6, 2, 0, 3, 7, 5, 1] g p)"

section \<open>Players and pointers\<close>

definition player_at :: "u64 \<Rightarrow> 'inv trade_world \<Rightarrow> 'inv trader trade_result" where
  "player_at p w = (case om_get (tw_players w) p of None \<Rightarrow> Inl TradeFault | Some t \<Rightarrow> Inr t)"

definition put_player :: "u64 \<Rightarrow> 'inv trader \<Rightarrow> 'inv trade_world \<Rightarrow> 'inv trade_world" where
  "put_player p t w = w\<lparr>tw_players := om_put p t (tw_players w)\<rparr>"

text \<open>\<open>GetTradeData()\<close>, and the same where the code follows the result without a test.\<close>

definition trade_of :: "u64 \<Rightarrow> 'inv trade_world \<Rightarrow> trade_data option trade_result" where
  "trade_of p w = sum_bind (player_at p w) (\<lambda>t. Inr (tr_trade t))"

definition trade_at :: "u64 \<Rightarrow> 'inv trade_world \<Rightarrow> trade_data trade_result" where
  "trade_at p w = sum_bind (trade_of p w) (\<lambda>d. case d of None \<Rightarrow> Inl TradeFault | Some d \<Rightarrow> Inr d)"

definition set_trade :: "u64 \<Rightarrow> trade_data option \<Rightarrow> 'inv trade_world \<Rightarrow> 'inv trade_world trade_result" where
  "set_trade p d w = sum_bind (player_at p w) (\<lambda>t. Inr (put_player p (t\<lparr>tr_trade := d\<rparr>) w))"

definition trade_emit :: "trade_effect \<Rightarrow> 'inv trade_world \<Rightarrow> 'inv trade_world" where
  "trade_emit x w = w\<lparr>tw_out := tw_out w @ [x]\<rparr>"

definition send_trade_status_with :: "u64 \<Rightarrow> trade_status \<Rightarrow> trade_status_data \<Rightarrow> 'inv trade_world \<Rightarrow> 'inv trade_world trade_result" where
  "send_trade_status_with p st d w =
     sum_bind (player_at p w) (\<lambda>_.
       case build_status st d (world_packet_new 0) of
         Inl e \<Rightarrow> Inl (TradePacketError e)
       | Inr data \<Rightarrow> Inr (trade_emit (TradePacket p data) w))"

definition send_trade_status :: "u64 \<Rightarrow> trade_status \<Rightarrow> 'inv trade_world \<Rightarrow> 'inv trade_world trade_result" where
  "send_trade_status p st w = send_trade_status_with p st status_data_new w"

definition send_notice :: "u64 \<Rightarrow> trade_notice \<Rightarrow> 'inv trade_world \<Rightarrow> 'inv trade_world trade_result" where
  "send_notice p n w = sum_bind (player_at p w) (\<lambda>_. Inr (trade_emit (TradeNotice p n) w))"

section \<open>The offer of one player\<close>

text \<open>\<open>GetItemByGuid\<close>, and \<open>GetItem\<close> of the trade of player \<open>p\<close>.\<close>

definition item_by_guid :: "('inv, 'dest) item_storage \<Rightarrow> u64 \<Rightarrow> 'inv \<Rightarrow> trade_item option" where
  "item_by_guid iv g bag = find (\<lambda>i. ti_guid i = g) (iv_items iv bag)"

definition trade_get_item :: "('inv, 'dest) item_storage \<Rightarrow> 'inv \<Rightarrow> trade_data \<Rightarrow> nat \<Rightarrow> trade_item option" where
  "trade_get_item iv bag d i = (if td_items d ! i \<noteq> 0 then item_by_guid iv (td_items d ! i) bag else None)"

definition trade_has_item :: "trade_data \<Rightarrow> u64 \<Rightarrow> bool" where
  "trade_has_item d g \<longleftrightarrow> g \<in> set (td_items d)"

definition spell_cast_item :: "('inv, 'dest) item_storage \<Rightarrow> 'inv \<Rightarrow> trade_data \<Rightarrow> trade_item option" where
  "spell_cast_item iv bag d = (if td_cast_item d \<noteq> 0 then item_by_guid iv (td_cast_item d) bag else None)"

definition send_update_trade :: "('inv, 'dest) item_storage \<Rightarrow> u64 \<Rightarrow> bool \<Rightarrow> 'inv trade_world \<Rightarrow> 'inv trade_world trade_result" where
  "send_update_trade iv q trader_state w =
     sum_bind (player_at q w) (\<lambda>me.
     case tr_trade me of
       None \<Rightarrow> Inr w
     | Some mine \<Rightarrow>
         (let owner = (if trader_state then td_trader mine else q)
          in sum_bind (player_at owner w) (\<lambda>o_player.
             case tr_trade o_player of
               None \<Rightarrow> Inr w
             | Some view_trade \<Rightarrow>
                 (let its = concat (map (\<lambda>i. case trade_get_item iv (tr_inv o_player) view_trade i of
                                                 None \<Rightarrow> [] | Some item \<Rightarrow> [(of_nat i, item)]) [0..<TRADE_SLOT_COUNT]);
                      u = \<lparr>tu_spell = td_spell view_trade, tu_side = (if trader_state then 1 else 0),
                           tu_money = td_money view_trade, tu_items = its\<rparr>
                  in case build_update u (world_packet_new 0) of
                       Inl e \<Rightarrow> Inl (TradePacketError e)
                     | Inr None \<Rightarrow> Inr w
                     | Inr (Some data) \<Rightarrow> Inr (trade_emit (TradePacket q data) w)))))"

text \<open>The methods of \<open>TradeData\<close>, on the trade of player \<open>p\<close>.\<close>

definition trade_refresh :: "('inv, 'dest) item_storage \<Rightarrow> bool \<Rightarrow> u64 \<Rightarrow> 'inv trade_world \<Rightarrow> 'inv trade_world trade_result" where
  "trade_refresh iv for_trader p w =
     (if for_trader then sum_bind (trade_at p w) (\<lambda>d. send_update_trade iv (td_trader d) True w)
      else send_update_trade iv p False w)"

definition set_accepted :: "u64 \<Rightarrow> bool \<Rightarrow> bool \<Rightarrow> 'inv trade_world \<Rightarrow> 'inv trade_world trade_result" where
  "set_accepted p state crosssend w =
     sum_bind (trade_at p w) (\<lambda>d.
     sum_bind (set_trade p (Some (d\<lparr>td_accepted := state\<rparr>)) w) (\<lambda>w.
     if state then Inr w
     else send_trade_status (if crosssend then td_trader d else p) TRADE_STATUS_UNACCEPTED w))"

definition set_in_accept :: "u64 \<Rightarrow> bool \<Rightarrow> 'inv trade_world \<Rightarrow> 'inv trade_world trade_result" where
  "set_in_accept p b w = sum_bind (trade_at p w) (\<lambda>d. set_trade p (Some (d\<lparr>td_in_accept := b\<rparr>)) w)"

text \<open>After a change of the offer both have to accept again.\<close>

definition unaccept_both :: "u64 \<Rightarrow> 'inv trade_world \<Rightarrow> 'inv trade_world trade_result" where
  "unaccept_both p w =
     sum_bind (trade_at p w) (\<lambda>d. sum_bind (set_accepted p False False w) (set_accepted (td_trader d) False False))"

definition set_trade_spell :: "('inv, 'dest) item_storage \<Rightarrow> u64 \<Rightarrow> u32 \<Rightarrow> u64 \<Rightarrow> 'inv trade_world \<Rightarrow> 'inv trade_world trade_result" where
  "set_trade_spell iv p spell cast w =
     sum_bind (trade_at p w) (\<lambda>d.
     if td_spell d = spell \<and> td_cast_item d = cast then Inr w
     else sum_bind (set_trade p (Some (d\<lparr>td_spell := spell, td_cast_item := cast\<rparr>)) w)
            (\<lambda>w. chain [unaccept_both p, trade_refresh iv True p, trade_refresh iv False p] w))"

definition set_trade_item :: "('inv, 'dest) item_storage \<Rightarrow> u64 \<Rightarrow> nat \<Rightarrow> u64 \<Rightarrow> 'inv trade_world \<Rightarrow> 'inv trade_world trade_result" where
  "set_trade_item iv p slot' item w =
     sum_bind (trade_at p w) (\<lambda>d.
     if td_items d ! slot' = item then Inr w
     else sum_bind (set_trade p (Some (d\<lparr>td_items := (td_items d)[slot' := item]\<rparr>)) w)
            (\<lambda>w. chain [unaccept_both p, trade_refresh iv True p,
                        if slot' = TRADE_SLOT_NONTRADED then set_trade_spell iv (td_trader d) 0 0 else Inr,
                        set_trade_spell iv p 0 0] w))"

definition set_trade_money :: "('inv, 'dest) item_storage \<Rightarrow> u64 \<Rightarrow> u64 \<Rightarrow> 'inv trade_world \<Rightarrow> 'inv trade_world trade_result" where
  "set_trade_money iv p money w =
     sum_bind (trade_at p w) (\<lambda>d.
     if td_money d = money then Inr w
     else sum_bind (set_trade p (Some (d\<lparr>td_money := money\<rparr>)) w)
            (\<lambda>w. chain [unaccept_both p, trade_refresh iv True p] w))"

section \<open>Money\<close>

definition MAX_MONEY_AMOUNT :: u64 where "MAX_MONEY_AMOUNT = 9999999999"

definition modify_money :: "int \<Rightarrow> u64 \<Rightarrow> u64" where
  "modify_money d money =
     (if d < 0 then (if money > word_of_int (- d) then money + word_of_int d else 0)
      else (if money < MAX_MONEY_AMOUNT - word_of_int d then money + word_of_int d else MAX_MONEY_AMOUNT))"

definition player_modify_money :: "u64 \<Rightarrow> int \<Rightarrow> 'inv trade_world \<Rightarrow> 'inv trade_world trade_result" where
  "player_modify_money p d w =
     sum_bind (player_at p w) (\<lambda>t.
     let m = modify_money d (tr_money t); w = put_player p (t\<lparr>tr_money := m\<rparr>) w
     in Inr (if m \<ge> MAX_MONEY_AMOUNT then trade_emit (TradeNotice p EQUIP_ERR_TOO_MUCH_GOLD) w else w))"

section \<open>The exchange\<close>

definition change_inv :: "u64 \<Rightarrow> ('inv \<Rightarrow> 'inv) \<Rightarrow> 'inv trade_world \<Rightarrow> 'inv trade_world trade_result" where
  "change_inv p f w = sum_bind (player_at p w) (\<lambda>t. Inr (put_player p (t\<lparr>tr_inv := f (tr_inv t)\<rparr>) w))"

text \<open>\<open>MoveItemFromInventory\<close> of the items of one slot, after they are marked as a gift.\<close>

definition remove_offered :: "('inv, 'dest) item_storage \<Rightarrow> u64 \<Rightarrow> trade_item option \<Rightarrow> 'inv trade_world \<Rightarrow> 'inv trade_world trade_result" where
  "remove_offered iv p item w = (case item of None \<Rightarrow> Inr w | Some i \<Rightarrow> change_inv p (iv_remove iv i) w)"

definition gift_of :: "u64 \<Rightarrow> trade_item option \<Rightarrow> trade_item option" where
  "gift_of p item = map_option (\<lambda>i. i\<lparr>ti_gift_creator := p\<rparr>) item"

text \<open>
  One slot of \<open>moveItems\<close>. When one item does not fit, both go back to where they came from; the lists
  of places are then used a second time, as the code does.
\<close>

definition give_back :: "('inv, 'dest) item_storage \<Rightarrow> u64 \<Rightarrow> 'dest \<Rightarrow> trade_item option \<Rightarrow> 'inv trade_world \<Rightarrow> 'inv trade_world trade_result" where
  "give_back iv p dst item w =
     (case item of
        None \<Rightarrow> Inr w
      | Some i \<Rightarrow>
          sum_bind (player_at p w) (\<lambda>t.
          let (fits, dst) = iv_can_store iv (tr_inv t) dst i
          in if fits then change_inv p (iv_store iv dst i) w else Inr w))"

definition hand_over :: "('inv, 'dest) item_storage \<Rightarrow> u64 \<Rightarrow> 'dest \<Rightarrow> trade_item option \<Rightarrow> 'inv trade_world \<Rightarrow> 'inv trade_world trade_result" where
  "hand_over iv p dst item w = (case item of None \<Rightarrow> Inr w | Some i \<Rightarrow> change_inv p (iv_store iv dst i) w)"

definition can_take :: "('inv, 'dest) item_storage \<Rightarrow> 'inv \<Rightarrow> trade_item option \<Rightarrow> bool \<times> 'dest" where
  "can_take iv bag item = (case item of None \<Rightarrow> (True, iv_no_dest iv) | Some i \<Rightarrow> iv_can_store iv bag (iv_no_dest iv) i)"

definition move_slot :: "('inv, 'dest) item_storage \<Rightarrow> u64 \<Rightarrow> u64 \<Rightarrow> trade_item option \<times> trade_item option \<Rightarrow> 'inv trade_world \<Rightarrow> 'inv trade_world trade_result" where
  "move_slot iv p q pair w =
     (case pair of (mine, his) \<Rightarrow>
     sum_bind (player_at p w) (\<lambda>me. sum_bind (player_at q w) (\<lambda>trader.
     let (traderCanTrade, traderDst) = can_take iv (tr_inv trader) mine;
         (playerCanTrade, playerDst) = can_take iv (tr_inv me) his
     in if traderCanTrade \<and> playerCanTrade
        then chain [hand_over iv q traderDst mine, hand_over iv p playerDst his] w
        else chain [give_back iv p playerDst mine, give_back iv q traderDst his] w)))"

definition move_items :: "('inv, 'dest) item_storage \<Rightarrow> u64 \<Rightarrow> u64 \<Rightarrow> trade_item option list \<Rightarrow> trade_item option list \<Rightarrow> 'inv trade_world \<Rightarrow> 'inv trade_world trade_result" where
  "move_items iv p q myItems hisItems = chain (map (move_slot iv p q) (zip myItems hisItems))"

section \<open>Accepting\<close>

definition offered :: "('inv, 'dest) item_storage \<Rightarrow> 'inv \<Rightarrow> trade_data \<Rightarrow> trade_item option list" where
  "offered iv bag d = map (trade_get_item iv bag d) [0..<TRADE_SLOT_TRADED_COUNT]"

definition guids_of :: "trade_item option list \<Rightarrow> u64 list" where
  "guids_of xs = concat (map (\<lambda>x. case x of None \<Rightarrow> [] | Some i \<Rightarrow> [ti_guid i]) xs)"

definition tradable :: "('inv, 'dest) item_storage \<Rightarrow> 'inv \<Rightarrow> trade_item option \<Rightarrow> bool" where
  "tradable iv bag x = (case x of None \<Rightarrow> True | Some i \<Rightarrow> iv_can_trade iv bag i)"

text \<open>The spell that \<open>p\<close> casts on what \<open>q\<close> shows in the slot that is not traded.\<close>

datatype trade_spell = SpellReady | SpellMisplaced | SpellRefused

definition spell_ready :: "('inv, 'dest) trade_env \<Rightarrow> u64 \<Rightarrow> u64 \<Rightarrow> u64 list \<Rightarrow> 'inv trade_world \<Rightarrow> trade_spell trade_result" where
  "spell_ready env p q inTrade w =
     sum_bind (player_at p w) (\<lambda>me. sum_bind (trade_at p w) (\<lambda>d. sum_bind (player_at q w) (\<lambda>other. sum_bind (trade_at q w) (\<lambda>d'.
     let iv = te_storage env; castItem = spell_cast_item iv (tr_inv me) d
     in Inr (if td_spell d = 0 then SpellReady
             else if \<not> te_spell_known env (td_spell d) \<or> trade_get_item iv (tr_inv other) d' TRADE_SLOT_NONTRADED = None \<or>
                     td_cast_item d \<noteq> 0 \<and> castItem = None then SpellMisplaced
             else if te_check_cast env p (td_spell d) castItem inTrade w then SpellReady
             else SpellRefused)))))"

definition start_spell :: "u64 \<Rightarrow> u32 \<Rightarrow> 'inv trade_world \<Rightarrow> 'inv trade_world" where
  "start_spell p spell w = (if spell = 0 then w else trade_emit (TradeSpellStart p spell) w)"

definition leave_accept :: "u64 \<Rightarrow> u64 \<Rightarrow> 'inv trade_world \<Rightarrow> 'inv trade_world trade_result" where
  "leave_accept p q w = chain [set_in_accept p False, set_in_accept q False] w"

text \<open>
  From the removal of the items to the end of the trade. Of the spells only their start is recorded,
  as an effect: what \<open>Spell::SpellStart\<close> does to the players before their trades end is the spell
  system's, and not modelled.
\<close>

definition complete_trade :: "('inv, 'dest) trade_env \<Rightarrow> u64 \<Rightarrow> u64 \<Rightarrow> trade_item option list \<Rightarrow> trade_item option list \<Rightarrow> 'inv trade_world \<Rightarrow> 'inv trade_world trade_result" where
  "complete_trade env p q myItems hisItems w =
     sum_bind (trade_at p w) (\<lambda>d. sum_bind (trade_at q w) (\<lambda>d'.
     let iv = te_storage env;
         myGifts = map (gift_of p) myItems; hisGifts = map (gift_of q) hisItems
     in chain (concat (map (\<lambda>(mine, his). [remove_offered iv p mine, remove_offered iv q his]) (zip myItems hisItems)) @
               [move_items iv p q myGifts hisGifts,
                player_modify_money p (- sint (td_money d)), player_modify_money p (sint (td_money d')),
                player_modify_money q (- sint (td_money d')), player_modify_money q (sint (td_money d)),
                Inr \<circ> start_spell p (td_spell d), Inr \<circ> start_spell q (td_spell d'),
                leave_accept p q, set_trade p None, set_trade q None,
                Inr \<circ> trade_emit (TradeSaved p q),
                send_trade_status q TRADE_STATUS_COMPLETE, send_trade_status p TRADE_STATUS_COMPLETE]) w))"

text \<open>A spell that cannot be cast ends the attempt and is taken out of the offer.\<close>

definition drop_spell :: "('inv, 'dest) item_storage \<Rightarrow> u64 \<Rightarrow> u64 \<Rightarrow> u64 \<Rightarrow> trade_spell \<Rightarrow> 'inv trade_world \<Rightarrow> 'inv trade_world trade_result" where
  "drop_spell iv p q caster chk w =
     sum_bind (trade_at caster w) (\<lambda>d.
       chain (if chk = SpellRefused then [Inr \<circ> trade_emit (TradeCastFailed caster (td_spell d)), leave_accept p q, set_trade_spell iv caster 0 0]
              else if caster = p then [leave_accept p q, set_trade_spell iv caster 0 0]
              else [set_trade_spell iv caster 0 0, leave_accept p q]) w)"

text \<open>Who has no room is told so, and both have to accept again.\<close>

definition no_room :: "u64 \<Rightarrow> u64 \<Rightarrow> trade_notice \<Rightarrow> trade_notice \<Rightarrow> 'inv trade_world \<Rightarrow> 'inv trade_world trade_result" where
  "no_room p q n n' w =
     chain [leave_accept p q, send_notice p n, send_notice q n', set_accepted p False False, set_accepted q False False] w"

text \<open>Both have accepted: the spells, the room for the items, the exchange.\<close>

definition accept_both :: "('inv, 'dest) trade_env \<Rightarrow> u64 \<Rightarrow> u64 \<Rightarrow> 'inv trade_world \<Rightarrow> 'inv trade_world trade_result" where
  "accept_both env p q w =
     sum_bind (chain [set_in_accept p True, set_in_accept q True] w) (\<lambda>w.
     sum_bind (player_at p w) (\<lambda>me. sum_bind (trade_at p w) (\<lambda>d. sum_bind (player_at q w) (\<lambda>trader. sum_bind (trade_at q w) (\<lambda>d'.
     let iv = te_storage env; myItems = offered iv (tr_inv me) d; hisItems = offered iv (tr_inv trader) d';
         inTrade = guids_of myItems @ guids_of hisItems
     in sum_bind (spell_ready env p q inTrade w) (\<lambda>mySpell.
        if mySpell \<noteq> SpellReady then drop_spell iv p q p mySpell w
        else sum_bind (spell_ready env q p inTrade w) (\<lambda>hisSpell.
        if hisSpell \<noteq> SpellReady then drop_spell iv p q q hisSpell w
        else sum_bind (send_trade_status q TRADE_STATUS_ACCEPTED w) (\<lambda>w.
        if \<not> iv_can_store_all iv inTrade (tr_inv me) hisItems
        then no_room p q LANG_NOT_FREE_TRADE_SLOTS LANG_NOT_PARTNER_FREE_TRADE_SLOTS w
        else if \<not> iv_can_store_all iv inTrade (tr_inv trader) myItems
        then no_room p q LANG_NOT_PARTNER_FREE_TRADE_SLOTS LANG_NOT_FREE_TRADE_SLOTS w
        else complete_trade env p q myItems hisItems w))))))))"

text \<open>The tests that follow once the acceptance is set.\<close>

definition check_accept :: "('inv, 'dest) trade_env \<Rightarrow> u64 \<Rightarrow> 'inv trader \<Rightarrow> trade_data \<Rightarrow> 'inv trader \<Rightarrow> trade_data \<Rightarrow> 'inv trade_world \<Rightarrow> 'inv trade_world trade_result" where
  "check_accept env p me d trader d' w =
     (let q = td_trader d; iv = te_storage env in
      if \<not> te_trade_range env p q
      then chain [send_trade_status p TRADE_STATUS_TOO_FAR_AWAY, set_accepted p False False] w
      else if td_money d > tr_money me
      then chain [send_notice p LANG_NOT_ENOUGH_GOLD, set_accepted p False True] w
      else if td_money d' > tr_money trader
      then chain [send_notice q LANG_NOT_ENOUGH_GOLD, set_accepted q False True] w
      else if \<not> (list_all (tradable iv (tr_inv me)) (offered iv (tr_inv me) d) \<and>
                list_all (tradable iv (tr_inv trader)) (offered iv (tr_inv trader) d'))
      then send_trade_status p TRADE_STATUS_CANCELLED w
      else if td_accepted d' then accept_both env p q w
      else send_trade_status q TRADE_STATUS_ACCEPTED w)"

definition accept_trade :: "('inv, 'dest) trade_env \<Rightarrow> u64 \<Rightarrow> 'inv trade_world \<Rightarrow> 'inv trade_world trade_result" where
  "accept_trade env p w =
     sum_bind (player_at p w) (\<lambda>me.
     case tr_trade me of
       None \<Rightarrow> Inr w
     | Some d \<Rightarrow>
         sum_bind (player_at (td_trader d) w) (\<lambda>trader.
         case tr_trade trader of
           None \<Rightarrow> Inr w
         | Some d' \<Rightarrow> sum_bind (set_accepted p True False w) (check_accept env p me d trader d')))"

definition handle_accept_trade :: "('inv, 'dest) trade_env \<Rightarrow> u64 \<Rightarrow> world_packet \<Rightarrow> 'inv trade_world \<Rightarrow> 'inv trade_world trade_result" where
  "handle_accept_trade env p packet w =
     (case read_skip 4 packet of Inl e \<Rightarrow> Inl (TradePacketError e) | Inr _ \<Rightarrow> accept_trade env p w)"

section \<open>The other requests\<close>

definition handle_unaccept_trade :: "u64 \<Rightarrow> 'inv trade_world \<Rightarrow> 'inv trade_world trade_result" where
  "handle_unaccept_trade p w =
     sum_bind (trade_of p w) (\<lambda>d. case d of None \<Rightarrow> Inr w | Some _ \<Rightarrow> set_accepted p False True w)"

definition handle_begin_trade :: "u64 \<Rightarrow> 'inv trade_world \<Rightarrow> 'inv trade_world trade_result" where
  "handle_begin_trade p w =
     sum_bind (trade_of p w) (\<lambda>d.
     case d of
       None \<Rightarrow> Inr w
     | Some d \<Rightarrow> chain [send_trade_status (td_trader d) TRADE_STATUS_INITIATED, send_trade_status p TRADE_STATUS_INITIATED] w)"

definition send_cancel_trade :: "u64 \<Rightarrow> 'inv trade_world \<Rightarrow> 'inv trade_world trade_result" where
  "send_cancel_trade p w =
     sum_bind (player_at p w) (\<lambda>t. if tr_recently_logout t then Inr w else send_trade_status p TRADE_STATUS_CANCELLED w)"

definition trade_cancel :: "u64 \<Rightarrow> bool \<Rightarrow> 'inv trade_world \<Rightarrow> 'inv trade_world trade_result" where
  "trade_cancel p sendback w =
     sum_bind (trade_of p w) (\<lambda>d.
     case d of
       None \<Rightarrow> Inr w
     | Some d \<Rightarrow> chain [if sendback then send_cancel_trade p else Inr, send_cancel_trade (td_trader d),
                        set_trade (td_trader d) None, set_trade p None] w)"

definition handle_cancel_trade :: "u64 \<Rightarrow> 'inv trade_world \<Rightarrow> 'inv trade_world trade_result" where
  "handle_cancel_trade p w = trade_cancel p True w"

definition initiate_trade :: "('inv, 'dest) trade_env \<Rightarrow> u64 \<Rightarrow> u64 \<Rightarrow> 'inv trade_world \<Rightarrow> 'inv trade_world trade_result" where
  "initiate_trade env p other w =
     sum_bind (player_at p w) (\<lambda>me.
     if tr_trade me \<noteq> None then Inr w
     else if \<not> tr_alive me then send_trade_status p TRADE_STATUS_DEAD w
     else if tr_stunned me then send_trade_status p TRADE_STATUS_STUNNED w
     else if tr_logging_out me then send_trade_status p TRADE_STATUS_LOGGING_OUT w
     else if tr_taxi me then send_trade_status p TRADE_STATUS_TOO_FAR_AWAY w
     else case (if te_in_world env other then om_get (tw_players w) other else None) of
            None \<Rightarrow> send_trade_status p TRADE_STATUS_PLAYER_NOT_FOUND w
          | Some o_player \<Rightarrow>
              if other = p \<or> tr_trade o_player \<noteq> None then send_trade_status p TRADE_STATUS_PLAYER_BUSY w
              else if \<not> tr_alive o_player then send_trade_status p TRADE_STATUS_TARGET_DEAD w
              else if tr_taxi o_player then send_trade_status p TRADE_STATUS_TOO_FAR_AWAY w
              else if tr_stunned o_player then send_trade_status p TRADE_STATUS_TARGET_STUNNED w
              else if tr_logging_out o_player then send_trade_status p TRADE_STATUS_TARGET_LOGGING_OUT w
              else if p \<in> set (tr_ignores o_player) then send_trade_status p TRADE_STATUS_PLAYER_IGNORED w
              else if tr_team o_player \<noteq> tr_team me then send_trade_status p TRADE_STATUS_WRONG_FACTION w
              else if \<not> te_invite_range env other p then send_trade_status p TRADE_STATUS_TOO_FAR_AWAY w
              else chain [set_trade p (Some (trade_data_new other)), set_trade other (Some (trade_data_new p)),
                          send_trade_status_with other TRADE_STATUS_PROPOSED (status_data_new\<lparr>sd_guid := p\<rparr>)] w)"

definition handle_initiate_trade :: "('inv, 'dest) trade_env \<Rightarrow> u64 \<Rightarrow> world_packet \<Rightarrow> 'inv trade_world \<Rightarrow> 'inv trade_world trade_result" where
  "handle_initiate_trade env p packet w =
     (case read_initiate_trade packet of
        Inl e \<Rightarrow> Inl (TradePacketError e)
      | Inr (g, _) \<Rightarrow> initiate_trade env p g w)"

definition handle_set_trade_gold :: "('inv, 'dest) trade_env \<Rightarrow> u64 \<Rightarrow> world_packet \<Rightarrow> 'inv trade_world \<Rightarrow> 'inv trade_world trade_result" where
  "handle_set_trade_gold env p packet w =
     (case get_u64 packet of
        Inl e \<Rightarrow> Inl (TradePacketError e)
      | Inr (gold, _) \<Rightarrow>
          sum_bind (trade_of p w) (\<lambda>d. case d of None \<Rightarrow> Inr w | Some _ \<Rightarrow> set_trade_money (te_storage env) p gold w))"

definition offer_item :: "('inv, 'dest) trade_env \<Rightarrow> u64 \<Rightarrow> u8 \<Rightarrow> u8 \<Rightarrow> u8 \<Rightarrow> 'inv trade_world \<Rightarrow> 'inv trade_world trade_result" where
  "offer_item env p tradeSlot slot' bag w =
     sum_bind (player_at p w) (\<lambda>me.
     case tr_trade me of
       None \<Rightarrow> Inr w
     | Some d \<Rightarrow>
         (let iv = te_storage env in
          if unat tradeSlot \<ge> TRADE_SLOT_COUNT then send_trade_status p TRADE_STATUS_CANCELLED w
          else case iv_at iv (tr_inv me) bag slot' of
                 None \<Rightarrow> send_trade_status p TRADE_STATUS_CANCELLED w
               | Some item \<Rightarrow>
                   if unat tradeSlot \<noteq> TRADE_SLOT_NONTRADED \<and> \<not> iv_can_trade iv (tr_inv me) item
                   then send_trade_status p TRADE_STATUS_CANCELLED w
                   else if trade_has_item d (ti_guid item) then send_trade_status p TRADE_STATUS_CANCELLED w
                   else set_trade_item iv p (unat tradeSlot) (ti_guid item) w))"

definition handle_set_trade_item :: "('inv, 'dest) trade_env \<Rightarrow> u64 \<Rightarrow> world_packet \<Rightarrow> 'inv trade_world \<Rightarrow> 'inv trade_world trade_result" where
  "handle_set_trade_item env p packet w =
     (case sum_bind (get_u8 packet) (\<lambda>(t, b). sum_bind (get_u8 b) (\<lambda>(s, b). sum_bind (get_u8 b) (\<lambda>(g, b). Inr (t, s, g)))) of
        Inl e \<Rightarrow> Inl (TradePacketError e)
      | Inr (t, s, g) \<Rightarrow> offer_item env p t s g w)"

definition clear_item :: "('inv, 'dest) trade_env \<Rightarrow> u64 \<Rightarrow> u8 \<Rightarrow> 'inv trade_world \<Rightarrow> 'inv trade_world trade_result" where
  "clear_item env p tradeSlot w =
     sum_bind (trade_of p w) (\<lambda>d.
     case d of
       None \<Rightarrow> Inr w
     | Some _ \<Rightarrow> if unat tradeSlot \<ge> TRADE_SLOT_COUNT then Inr w
                 else set_trade_item (te_storage env) p (unat tradeSlot) 0 w)"

definition handle_clear_trade_item :: "('inv, 'dest) trade_env \<Rightarrow> u64 \<Rightarrow> world_packet \<Rightarrow> 'inv trade_world \<Rightarrow> 'inv trade_world trade_result" where
  "handle_clear_trade_item env p packet w =
     (case get_u8 packet of Inl e \<Rightarrow> Inl (TradePacketError e) | Inr (t, _) \<Rightarrow> clear_item env p t w)"

text \<open>A spell cast on the slot that is not traded is remembered in the offer (end of \<open>Spell::CheckCast\<close>).\<close>

datatype trade_cast_result = SPELL_FAILED_NOT_TRADING | SPELL_FAILED_ITEM_NOT_READY | SPELL_FAILED_DONT_REPORT | SPELL_CAST_OK

definition cast_on_trade :: "('inv, 'dest) item_storage \<Rightarrow> u64 \<Rightarrow> u64 \<Rightarrow> u32 \<Rightarrow> u64 \<Rightarrow> 'inv trade_world \<Rightarrow> (trade_cast_result \<times> 'inv trade_world) trade_result" where
  "cast_on_trade iv p slot' spell cast w =
     sum_bind (trade_of p w) (\<lambda>d.
     case d of
       None \<Rightarrow> Inr (SPELL_FAILED_NOT_TRADING, w)
     | Some d \<Rightarrow>
         if slot' \<noteq> of_nat TRADE_SLOT_NONTRADED then Inr (SPELL_FAILED_ITEM_NOT_READY, w)
         else if \<not> td_in_accept d
         then sum_bind (set_trade_spell iv p spell cast w) (\<lambda>w. Inr (SPELL_FAILED_DONT_REPORT, w))
         else Inr (SPELL_CAST_OK, w))"

section \<open>What happens in the world\<close>

text \<open>
  The requests, a spell cast on the trade, the start of a taxi flight (\<open>ActivateTaxiPathTo\<close>), players who
  come and go (the constructor and \<open>CleanupsBeforeDelete\<close>), and everything else that may happen to a
  player: any change that leaves \<open>m_trade\<close> alone.
\<close>

datatype 'inv trade_op =
    AcceptTrade u64 world_packet | UnacceptTrade u64 | BeginTrade u64 | CancelTrade u64
  | InitiateTrade u64 world_packet | SetTradeGold u64 world_packet | SetTradeItem u64 world_packet
  | ClearTradeItem u64 world_packet | CastOnTrade u64 u64 u32 u64 | StartTaxi u64
  | EnterWorld u64 "'inv trader" | LeaveWorld u64 | OtherChange u64 "'inv trader \<Rightarrow> 'inv trader"

definition enter_world :: "u64 \<Rightarrow> 'inv trader \<Rightarrow> 'inv trade_world \<Rightarrow> 'inv trade_world" where
  "enter_world p t w = put_player p (t\<lparr>tr_trade := None\<rparr>) w"

definition leave_world :: "u64 \<Rightarrow> 'inv trade_world \<Rightarrow> 'inv trade_world trade_result" where
  "leave_world p w = sum_bind (trade_cancel p False w) (\<lambda>w. Inr (w\<lparr>tw_players := om_erase p (tw_players w)\<rparr>))"

definition other_change :: "u64 \<Rightarrow> ('inv trader \<Rightarrow> 'inv trader) \<Rightarrow> 'inv trade_world \<Rightarrow> 'inv trade_world trade_result" where
  "other_change p f w = sum_bind (player_at p w) (\<lambda>t. Inr (put_player p ((f t)\<lparr>tr_trade := tr_trade t\<rparr>) w))"

fun op_player :: "'inv trade_op \<Rightarrow> u64" where
  "op_player (AcceptTrade p _) = p"
| "op_player (UnacceptTrade p) = p"
| "op_player (BeginTrade p) = p"
| "op_player (CancelTrade p) = p"
| "op_player (InitiateTrade p _) = p"
| "op_player (SetTradeGold p _) = p"
| "op_player (SetTradeItem p _) = p"
| "op_player (ClearTradeItem p _) = p"
| "op_player (CastOnTrade p _ _ _) = p"
| "op_player (StartTaxi p) = p"
| "op_player (EnterWorld p _) = p"
| "op_player (LeaveWorld p) = p"
| "op_player (OtherChange p _) = p"

fun trade_act :: "('inv, 'dest) trade_env \<Rightarrow> 'inv trade_op \<Rightarrow> 'inv trade_world \<Rightarrow> 'inv trade_world trade_result" where
  "trade_act env (AcceptTrade p packet) w = handle_accept_trade env p packet w"
| "trade_act env (UnacceptTrade p) w = handle_unaccept_trade p w"
| "trade_act env (BeginTrade p) w = handle_begin_trade p w"
| "trade_act env (CancelTrade p) w = handle_cancel_trade p w"
| "trade_act env (InitiateTrade p packet) w = handle_initiate_trade env p packet w"
| "trade_act env (SetTradeGold p packet) w = handle_set_trade_gold env p packet w"
| "trade_act env (SetTradeItem p packet) w = handle_set_trade_item env p packet w"
| "trade_act env (ClearTradeItem p packet) w = handle_clear_trade_item env p packet w"
| "trade_act env (CastOnTrade p slot' spell cast) w = sum_bind (cast_on_trade (te_storage env) p slot' spell cast w) (\<lambda>(_, w). Inr w)"
| "trade_act env (StartTaxi p) w = trade_cancel p True w"
| "trade_act env (EnterWorld p t) w = Inr (enter_world p t w)"
| "trade_act env (LeaveWorld p) w = leave_world p w"
| "trade_act env (OtherChange p f) w = other_change p f w"

text \<open>Nothing is done for a player who is not there, and a player who is there does not enter again.\<close>

definition trade_step :: "('inv, 'dest) trade_env \<Rightarrow> 'inv trade_op \<Rightarrow> 'inv trade_world \<Rightarrow> 'inv trade_world trade_result" where
  "trade_step env x w =
     (if (om_get (tw_players w) (op_player x) = None) = (case x of EnterWorld _ _ \<Rightarrow> True | _ \<Rightarrow> False)
      then trade_act env x w else Inr w)"

text \<open>A request that cannot be read is dropped by the dispatcher; a fault ends the run.\<close>

fun trade_run :: "(('inv, 'dest) trade_env \<times> 'inv trade_op) list \<Rightarrow> 'inv trade_world \<Rightarrow> 'inv trade_world trade_result" where
  "trade_run [] w = Inr w"
| "trade_run ((env, x) # xs) w =
     (case trade_step env x w of
        Inl TradeFault \<Rightarrow> Inl TradeFault
      | Inl (TradePacketError _) \<Rightarrow> trade_run xs w
      | Inr w' \<Rightarrow> trade_run xs w')"

definition trade_world_new :: "'inv trade_world" where
  "trade_world_new = \<lparr>tw_players = [], tw_out = []\<rparr>"

end
