(* ===== verification/TradePackets.thy ===== *)
theory TradePackets
  imports Trade
begin

text \<open>
  The packets of the trade are always written: their size is bounded, so that the size assertion of
  the buffer never fails. A handler of the trade therefore fails only where it reads its request,
  before it has changed anything.
\<close>

section \<open>Writers of bounded size\<close>

definition sound :: "world_packet \<Rightarrow> bool" where
  "sound b \<longleftrightarrow> at_end b \<and> 0 < bb_bitpos b \<and> bb_bitpos b \<le> 8"

text \<open>\<open>fits n f\<close>: the writer \<open>f\<close> succeeds and adds at most \<open>n\<close> bytes.\<close>

definition fits :: "nat \<Rightarrow> writer \<Rightarrow> bool" where
  "fits n f \<longleftrightarrow> (\<forall>b. sound b \<longrightarrow> bb_size b + n < 10000000 \<longrightarrow>
     (\<exists>b'. f b = Inr b' \<and> sound b' \<and> bb_size b' \<le> bb_size b + n))"

named_theorems fitting \<open>the sizes of the primitive writers\<close>

lemma fits_mono: "fits m f \<Longrightarrow> m \<le> n \<Longrightarrow> fits n f"
  unfolding fits_def by (meson add_left_mono le_less_trans order_trans)

lemma fits_chain_Nil [fitting]: "fits 0 (chain [])"
  by (simp add: fits_def)

lemma fits_then:
  assumes "fits m f" and "fits n g"
  shows "fits (m + n) (\<lambda>b. sum_bind (f b) g)"
  unfolding fits_def
proof (intro allI impI)
  fix b :: world_packet
  assume b: "sound b" "bb_size b + (m + n) < 10000000"
  then obtain c where c: "f b = Inr c" "sound c" "bb_size c \<le> bb_size b + m"
    using assms(1) unfolding fits_def by fastforce
  then have "bb_size c + n < 10000000" using b(2) by simp
  then obtain d where "g c = Inr d" "sound d" "bb_size d \<le> bb_size c + n"
    using assms(2) c(2) unfolding fits_def by blast
  with c show "\<exists>b'. sum_bind (f b) g = Inr b' \<and> sound b' \<and> bb_size b' \<le> bb_size b + (m + n)" by auto
qed

lemma fits_chain: "fits m f \<Longrightarrow> fits n (chain fs) \<Longrightarrow> fits (m + n) (chain (f # fs))"
proof -
  assume "fits m f" "fits n (chain fs)"
  moreover have "chain (f # fs) = (\<lambda>b. sum_bind (f b) (chain fs))" by (rule ext) simp
  ultimately show "fits (m + n) (chain (f # fs))" using fits_then [of m f n "chain fs"] by simp
qed

text \<open>A list of writers is bounded by what each of them adds.\<close>

lemma fits_list: "list_all (fits n) fs \<Longrightarrow> fits (n * length fs) (chain fs)"
proof (induction fs)
  case (Cons f fs)
  then show ?case using fits_chain [of n f "n * length fs" fs] by (simp del: chain.simps)
qed (simp add: fits_def)

lemma fits_append:
  assumes "fits m (chain fs)" and "fits n (chain gs)"
  shows "fits (m + n) (chain (fs @ gs))"
proof -
  have "chain (fs @ gs) = (\<lambda>b. sum_bind (chain fs b) (chain gs))" by (rule ext) (simp add: chain_append)
  then show ?thesis using fits_then [OF assms] by simp
qed

lemma append_bytes_sound:
  assumes "sound b" and "bb_size b < 10000000"
  shows "\<exists>b'. append_bytes xs b = Inr b' \<and> sound b' \<and> bb_size b' = bb_size b + length xs"
  using assms append_bytes_at_end [of b xs] by (auto simp: sound_def)

lemma fits_flush [fitting]: "fits 1 flush_bits"
proof -
  have "\<exists>b'. flush_bits b = Inr b' \<and> sound b' \<and> bb_size b' \<le> bb_size b + 1" if "sound b" "bb_size b + 1 < 10000000" for b
    using append_bytes_sound [OF that(1), of "[bb_curbitval b]"] that
    by (auto simp: flush_bits_def sound_def at_end_def bb_size_def)
  then show ?thesis by (simp add: fits_def)
qed

lemma fits_append_bytes: "xs \<noteq> [] \<Longrightarrow> fits (length xs) (append_bytes xs)"
  unfolding fits_def using append_bytes_sound by (metis add_lessD1 order_refl)

lemma fits_value [fitting]: "fits 2 (put_u8 a)" "fits 5 (put_u32 b)" "fits 9 (put_u64 c)"
proof -
  have v: "fits (1 + LENGTH('w) div 8) (append_value v)" if "LENGTH('w) div 8 \<noteq> 0" for v :: "'w::len word"
  proof -
    have "le_bytes (LENGTH('w) div 8) v \<noteq> []" using that by (metis length_le_bytes list.size(3))
    from fits_then [OF fits_flush fits_append_bytes [OF this]] show ?thesis by (simp add: append_value_def [abs_def])
  qed
  show "fits 2 (put_u8 a)" "fits 5 (put_u32 b)" "fits 9 (put_u64 c)"
    using v [of a] v [of b] v [of c] by (simp_all add: numeral_2_eq_2 put_u8_def [abs_def] put_u32_def [abs_def] put_u64_def [abs_def])
qed

lemma fits_bit [fitting]: "fits 1 (write_bit x)"
proof -
  have "\<exists>b'. write_bit x b = Inr b' \<and> sound b' \<and> bb_size b' \<le> bb_size b + 1" if b: "sound b" "bb_size b + 1 < 10000000" for b
  proof (cases "bb_bitpos b = 1")
    case True
    define c where "c = b\<lparr>bb_bitpos := 8, bb_curbitval := (if x then bb_curbitval b OR push_bit 0 1 else bb_curbitval b)\<rparr>"
    have c: "sound c" "bb_size c < 10000000" "bb_size c = bb_size b"
      using b by (simp_all add: c_def sound_def at_end_def bb_size_def)
    obtain d where d: "append_bytes [bb_curbitval c] c = Inr d" "sound d" "bb_size d = bb_size c + 1"
      using append_bytes_sound [OF c(1,2), of "[bb_curbitval c]"] by auto
    have "write_bit x b = Inr (d\<lparr>bb_curbitval := 0\<rparr>)" using True d(1) by (simp add: write_bit_def Let_def c_def)
    with d c(3) show ?thesis by (simp add: sound_def at_end_def bb_size_def)
  next
    case False
    with b(1) show ?thesis by (auto simp: write_bit_def Let_def sound_def at_end_def bb_size_def)
  qed
  then show ?thesis by (simp add: fits_def)
qed

lemma fits_bits [fitting]: "fits n (write_bits v n)"
  by (induction n) (use fits_then [OF fits_bit] in \<open>auto simp: fits_def\<close>)

lemma fits_guid_mask [fitting]: "list_all (\<lambda>i. i < 8) q \<Longrightarrow> fits (length q) (write_guid_mask g q)"
  by (induction q) (use fits_then [OF fits_bit] in \<open>auto simp: fits_def\<close>)

lemma fits_guid_bytes [fitting]: "list_all (\<lambda>i. i < 8) q \<Longrightarrow> fits (2 * length q) (write_guid_bytes g q)"
proof (induction q)
  case (Cons i q)
  then have "fits (2 * length q) (write_guid_bytes g q)" by simp
  with fits_then [OF fits_value(1) this, of "guid_byte g i XOR 1"] fits_mono [OF this, of "2 * length (i # q)"] Cons.prems
  show ?case by (cases "guid_byte g i = 0") (auto simp: fits_def)
qed (simp add: fits_def)

section \<open>The two packets\<close>

lemma fits_primitive [simp]:
  "fits 20 (put_u8 a)" "fits 20 (put_u32 b)" "fits 20 (put_u64 c)" "fits 20 (write_bit x)" "fits 20 flush_bits"
  by (rule fits_mono, rule fitting, simp)+

lemma fits_sized [simp]:
  "n \<le> 20 \<Longrightarrow> fits 20 (write_bits v n)"
  "list_all (\<lambda>i. i < 8) q \<Longrightarrow> length q \<le> 8 \<Longrightarrow> fits 20 (write_guid_mask g q)"
  "list_all (\<lambda>i. i < 8) q \<Longrightarrow> length q \<le> 8 \<Longrightarrow> fits 20 (write_guid_bytes g q)"
  using fits_mono [OF fits_bits] fits_mono [OF fits_guid_mask, of q 20] fits_mono [OF fits_guid_bytes, of q 20] by simp_all

lemma fits_build:
  assumes "list_all (fits 20) fs" and "20 * length fs < 10000000"
  shows "\<exists>p'. chain fs (wp_initialize opc p) = Inr p'"
proof -
  have "sound (wp_initialize opc p)" "bb_size (wp_initialize opc p) = 0"
    by (simp_all add: wp_initialize_def bb_clear_def sound_def at_end_def bb_size_def)
  with fits_list [OF assms(1)] assms(2) show ?thesis unfolding fits_def by fastforce
qed

lemma build_status_total: "\<exists>data. build_status st d p = Inr data"
proof -
  have "list_all (fits 20) (status_fields st d) \<and> length (status_fields st d) \<le> 3" by (cases st) simp_all
  then show ?thesis unfolding build_status_def by (intro fits_build) auto
qed

lemma item_bits_fit: "list_all (fits 20) (update_item_bits i)" "length (update_item_bits i) \<le> 6"
  by (simp_all add: update_item_bits_def)

lemma item_bytes_fit: "list_all (fits 20) (update_item_bytes s i)" "length (update_item_bytes s i) \<le> 22"
  by (simp_all add: update_item_bytes_def split: prod.split)

lemma length_concat_le: "(\<And>x. length (f x) \<le> k) \<Longrightarrow> length (concat (map f xs)) \<le> k * length xs"
  by (induction xs) (auto intro: add_mono)

lemma build_update_total: "\<exists>r. build_update u p = Inr r"
proof (cases "length (tu_items u) > 7 \<or> (\<exists>(s, i) \<in> set (tu_items u). s > 6) \<or> \<not> distinct (map fst (tu_items u))")
  case True
  then show ?thesis by (auto simp: build_update_def)
next
  case False
  define bits where "bits = concat (map (update_item_bits \<circ> snd) (tu_items u))"
  define bytes where "bytes = concat (map (\<lambda>(s, i). update_item_bytes s i) (tu_items u))"
  have all: "list_all (fits 20) bits" "list_all (fits 20) bytes"
    using item_bits_fit(1) item_bytes_fit(1) by (auto simp: bits_def bytes_def list_all_iff)
  have "length bits \<le> 6 * length (tu_items u)" "length bytes \<le> 22 * length (tu_items u)"
    unfolding bits_def bytes_def by (rule length_concat_le, simp add: item_bits_fit item_bytes_fit split: prod.split)+
  then have len: "length bits + length bytes \<le> 196" using False by simp
  have "\<exists>p'. chain ([put_u32 0, put_u32 0, put_u32 (tu_spell u), put_u8 (tu_side u), put_u64 (tu_money u),
      put_u32 (of_nat TRADE_SLOT_COUNT), put_u32 0, put_u32 (of_nat TRADE_SLOT_COUNT),
      write_bits (of_nat (length (tu_items u)) :: u32) 20] @ bits @ bytes @ [flush_bits])
        (wp_initialize SMSG_TRADE_STATUS_EXTENDED p) = Inr p'"
    by (rule fits_build) (use all len in simp_all)
  with False show ?thesis by (auto simp: build_update_def bits_def [symmetric] bytes_def [symmetric] simp del: chain.simps)
qed

end
