(* ===== verification/TradeSafety.thy ===== *)
theory TradeSafety
  imports TradePackets
begin

text \<open>
  Over every sequence of requests, logins and logouts: trades come in pairs, so that no trade points
  to a player without one, and an acceptance stands only as long as neither offer changes.
\<close>

section \<open>Outcomes\<close>

text \<open>\<open>safe m Q\<close>: the outcome \<open>m\<close> is a result, and \<open>Q\<close> holds of it.\<close>

definition safe :: "'a trade_result \<Rightarrow> ('a \<Rightarrow> bool) \<Rightarrow> bool" where
  "safe m Q \<longleftrightarrow> (case m of Inl _ \<Rightarrow> False | Inr x \<Rightarrow> Q x)"

lemma safe_bind [simp]: "safe (sum_bind m f) Q \<longleftrightarrow> safe m (\<lambda>x. safe (f x) Q)"
  by (cases m) (simp_all add: safe_def)

lemma safe_result [simp]: "safe (Inr x) Q \<longleftrightarrow> Q x" "\<not> safe (Inl e) Q"
  by (simp_all add: safe_def)

lemma safe_chain [simp]:
  "safe (chain [] w) R \<longleftrightarrow> R w"
  "safe (chain (f # fs) w) R \<longleftrightarrow> safe (f w) (\<lambda>w. safe (chain fs w) R)"
  by simp_all

lemmas safe_simps = safe_bind safe_result safe_chain

lemma safe_mono: "safe m P \<Longrightarrow> (\<And>x. P x \<Longrightarrow> Q x) \<Longrightarrow> safe m Q"
  by (auto simp: safe_def split: sum.splits)

section \<open>The trades of a world\<close>

definition trades :: "'inv trade_world \<Rightarrow> u64 \<Rightarrow> trade_data option option" where
  "trades w p = map_option tr_trade (om_get (tw_players w) p)"

definition paired :: "(u64 \<Rightarrow> trade_data option option) \<Rightarrow> bool" where
  "paired T \<longleftrightarrow> (\<forall>p d. T p = Some (Some d) \<longrightarrow>
     td_trader d \<noteq> p \<and> (\<exists>d'. T (td_trader d) = Some (Some d') \<and> td_trader d' = p))"

lemma trades_simps [simp]:
  "trades (put_player p t w) = (trades w)(p := Some (tr_trade t))"
  "trades (trade_emit x w) = trades w"
  by (auto simp: trades_def put_player_def trade_emit_def)

lemma player_at_safe: "trades w p = Some x \<Longrightarrow> (\<And>t. om_get (tw_players w) p = Some t \<Longrightarrow> tr_trade t = x \<Longrightarrow> Q t) \<Longrightarrow> safe (player_at p w) Q"
  by (auto simp: trades_def player_at_def)

lemma trade_of_safe: "trades w p = Some x \<Longrightarrow> Q x \<Longrightarrow> safe (trade_of p w) Q"
  by (auto simp: trade_of_def intro: player_at_safe)

lemma trade_at_safe: "trades w p = Some (Some d) \<Longrightarrow> Q d \<Longrightarrow> safe (trade_at p w) Q"
  by (auto simp: trade_at_def intro: trade_of_safe)

lemma set_trade_safe: "trades w p = Some x \<Longrightarrow> (\<And>w'. trades w' = (trades w)(p := Some d) \<Longrightarrow> Q w') \<Longrightarrow> safe (set_trade p d w) Q"
  by (auto simp: set_trade_def intro!: player_at_safe)

lemma send_trade_status_safe:
  "trades w p = Some x \<Longrightarrow> (\<And>w'. trades w' = trades w \<Longrightarrow> Q w') \<Longrightarrow> safe (send_trade_status_with p st sd w) Q"
  "trades w p = Some x \<Longrightarrow> (\<And>w'. trades w' = trades w \<Longrightarrow> Q w') \<Longrightarrow> safe (send_trade_status p st w) Q"
proof -
  have "safe (send_trade_status_with p st sd w) Q" if "trades w p = Some x" "\<And>w'. trades w' = trades w \<Longrightarrow> Q w'" for sd
    using build_status_total [of st sd "world_packet_new 0"] that
    by (auto simp: send_trade_status_with_def intro!: player_at_safe)
  then show "trades w p = Some x \<Longrightarrow> (\<And>w'. trades w' = trades w \<Longrightarrow> Q w') \<Longrightarrow> safe (send_trade_status_with p st sd w) Q"
    and "trades w p = Some x \<Longrightarrow> (\<And>w'. trades w' = trades w \<Longrightarrow> Q w') \<Longrightarrow> safe (send_trade_status p st w) Q"
    by (simp_all add: send_trade_status_def)
qed

lemma send_notice_safe: "trades w p = Some x \<Longrightarrow> (\<And>w'. trades w' = trades w \<Longrightarrow> Q w') \<Longrightarrow> safe (send_notice p n w) Q"
  by (auto simp: send_notice_def intro!: player_at_safe)

lemma send_update_trade_safe:
  fixes w :: "'inv trade_world"
  assumes "paired (trades w)" and "trades w q = Some x" and "\<And>w'. trades w' = trades w \<Longrightarrow> Q w'"
  shows "safe (send_update_trade iv q b w) Q"
proof (cases x)
  case None
  then show ?thesis using assms by (auto simp: send_update_trade_def intro!: player_at_safe)
next
  case (Some d)
  have "\<exists>y. trades w (if b then td_trader d else q) = Some y" using assms(1,2) Some by (auto simp: paired_def)
  then obtain y where y: "trades w (if b then td_trader d else q) = Some y" by blast
  show ?thesis
    unfolding send_update_trade_def safe_simps
  proof (rule player_at_safe [OF assms(2)])
    fix me assume "tr_trade me = x"
    then have me: "tr_trade me = Some d" using Some by simp
    show "safe (case tr_trade me of None \<Rightarrow> Inr w
      | Some mine \<Rightarrow> let owner = if b then td_trader mine else q in
          sum_bind (player_at owner w) (\<lambda>o_player.
            case tr_trade o_player of None \<Rightarrow> Inr w
            | Some view_trade \<Rightarrow>
                let its = concat (map (\<lambda>i. case trade_get_item iv (tr_inv o_player) view_trade i of
                              None \<Rightarrow> [] | Some item \<Rightarrow> [(of_nat i, item)]) [0..<TRADE_SLOT_COUNT]);
                    u = \<lparr>tu_spell = td_spell view_trade, tu_side = if b then 1 else 0, tu_money = td_money view_trade, tu_items = its\<rparr>
                in case build_update u (world_packet_new 0) of Inl e \<Rightarrow> Inl (TradePacketError e) | Inr None \<Rightarrow> Inr w
                   | Inr (Some data) \<Rightarrow> Inr (trade_emit (TradePacket q data) w))) Q"
      unfolding me option.case Let_def safe_simps
    proof (rule player_at_safe [OF y])
      fix o_player :: "'inv trader"
      have "safe (case build_update u (world_packet_new 0) of Inl e \<Rightarrow> Inl (TradePacketError e) | Inr None \<Rightarrow> Inr w
          | Inr (Some data) \<Rightarrow> Inr (trade_emit (TradePacket q data) w)) Q" for u
        using build_update_total [of u "world_packet_new 0"] by (auto simp: assms(3) split: option.split)
      then show "safe (case tr_trade o_player of None \<Rightarrow> Inr w
            | Some view_trade \<Rightarrow>
                case build_update \<lparr>tu_spell = td_spell view_trade, tu_side = if b then 1 else 0, tu_money = td_money view_trade,
                  tu_items = concat (map (\<lambda>i. case trade_get_item iv (tr_inv o_player) view_trade i of
                              None \<Rightarrow> [] | Some item \<Rightarrow> [(of_nat i, item)]) [0..<TRADE_SLOT_COUNT])\<rparr> (world_packet_new 0)
                of Inl e \<Rightarrow> Inl (TradePacketError e) | Inr None \<Rightarrow> Inr w
                   | Inr (Some data) \<Rightarrow> Inr (trade_emit (TradePacket q data) w)) Q"
        by (simp add: assms(3) split: option.split)
    qed
  qed
qed

section \<open>Changes of an offer\<close>

lemma set_accepted_safe:
  fixes w :: "'inv trade_world"
  assumes "paired (trades w)" and "trades w p = Some (Some d)"
    and "\<And>w'. trades w' = (trades w)(p := Some (Some (d\<lparr>td_accepted := b\<rparr>))) \<Longrightarrow> Q w'"
  shows "safe (set_accepted p b c w) Q"
proof -
  obtain d' where d': "trades w (td_trader d) = Some (Some d')" using assms(1,2) unfolding paired_def by blast
  show ?thesis
    unfolding set_accepted_def safe_simps
  proof (rule trade_at_safe [OF assms(2)], rule set_trade_safe [OF assms(2)])
    fix w' :: "'inv trade_world"
    assume w': "trades w' = (trades w)(p := Some (Some (d\<lparr>td_accepted := b\<rparr>)))"
    show "safe (if b then Inr w' else send_trade_status (if c then td_trader d else p) TRADE_STATUS_UNACCEPTED w') Q"
    proof (cases b)
      case True
      then show ?thesis using assms(3) [OF w'] by simp
    next
      case False
      have "\<exists>x. trades w' (if c then td_trader d else p) = Some x" using w' d' by auto
      then obtain x where "trades w' (if c then td_trader d else p) = Some x" ..
      then show ?thesis using False assms(3) w' by (auto intro!: send_trade_status_safe(2))
    qed
  qed
qed

lemma set_in_accept_safe:
  "trades w p = Some (Some d) \<Longrightarrow> (\<And>w'. trades w' = (trades w)(p := Some (Some (d\<lparr>td_in_accept := b\<rparr>))) \<Longrightarrow> Q w') \<Longrightarrow>
     safe (set_in_accept p b w) Q"
  by (auto simp: set_in_accept_def intro!: trade_at_safe set_trade_safe)

section \<open>What a step may do to the trades\<close>

text \<open>An offer is a trade without the two flags.\<close>

definition unflagged :: "trade_data \<Rightarrow> trade_data" where
  "unflagged d = d\<lparr>td_accepted := False, td_in_accept := False\<rparr>"

definition offer_in :: "(u64 \<Rightarrow> trade_data option option) \<Rightarrow> u64 \<Rightarrow> trade_data option" where
  "offer_in T p = (case T p of Some (Some d) \<Rightarrow> Some (unflagged d) | _ \<Rightarrow> None)"

text \<open>Who has accepted afterwards, other than \<open>X\<close>, had accepted before, and the same offers.\<close>

definition honest :: "u64 set \<Rightarrow> (u64 \<Rightarrow> trade_data option option) \<Rightarrow> (u64 \<Rightarrow> trade_data option option) \<Rightarrow> bool" where
  "honest X T T' \<longleftrightarrow> (\<forall>r d'. r \<notin> X \<longrightarrow> T' r = Some (Some d') \<longrightarrow> td_accepted d' \<longrightarrow>
     (\<exists>d. T r = Some (Some d) \<and> td_accepted d \<and> unflagged d' = unflagged d \<and> offer_in T' (td_trader d) = offer_in T (td_trader d)))"

definition kept :: "u64 set \<Rightarrow> (u64 \<Rightarrow> trade_data option option) \<Rightarrow> (u64 \<Rightarrow> trade_data option option) \<Rightarrow> bool" where
  "kept X T T' \<longleftrightarrow> (\<forall>p. map_option (map_option td_trader) (T' p) = map_option (map_option td_trader) (T p)) \<and> honest X T T'"

lemma td_trader_unflagged: "unflagged d = unflagged e \<Longrightarrow> td_trader d = td_trader e"
  by (simp add: unflagged_def trade_data.splits) (metis trade_data.select_convs(1) trade_data.surjective trade_data.update_convs(2,3))

lemma kept_refl: "kept X T T"
  by (auto simp: kept_def honest_def)

lemma kept_mono: "kept X T T' \<Longrightarrow> X \<subseteq> Y \<Longrightarrow> kept Y T T'"
  unfolding kept_def honest_def by blast

lemma honest_trans:
  assumes h: "honest X T T'" "honest X T' T''"
  shows "honest X T T''"
  unfolding honest_def
proof (intro allI impI)
  fix r e assume r: "r \<notin> X" "T'' r = Some (Some e)" "td_accepted e"
  then obtain d' where d': "T' r = Some (Some d')" "td_accepted d'" "unflagged e = unflagged d'"
    "offer_in T'' (td_trader d') = offer_in T' (td_trader d')" using h(2) unfolding honest_def by blast
  then obtain d where d: "T r = Some (Some d)" "td_accepted d" "unflagged d' = unflagged d"
    "offer_in T' (td_trader d) = offer_in T (td_trader d)" using h(1) r(1) unfolding honest_def by blast
  have "td_trader d' = td_trader d" using d(3) by (rule td_trader_unflagged)
  with d d' show "\<exists>d. T r = Some (Some d) \<and> td_accepted d \<and> unflagged e = unflagged d \<and>
      offer_in T'' (td_trader d) = offer_in T (td_trader d)" by auto
qed

lemma kept_trans: "kept X T T' \<Longrightarrow> kept X T' T'' \<Longrightarrow> kept X T T''"
  unfolding kept_def using honest_trans by auto

lemma kept_Some: "kept X T T' \<Longrightarrow> T p = Some (Some d) \<Longrightarrow> \<exists>d'. T' p = Some (Some d') \<and> td_trader d' = td_trader d"
  unfolding kept_def by (metis (no_types, lifting) map_option_eq_Some option.simps(9))

lemma kept_paired: "kept X T T' \<Longrightarrow> paired T \<Longrightarrow> paired T'"
  unfolding paired_def
proof (intro allI impI)
  fix p e assume k: "kept X T T'" and pr: "\<forall>p d. T p = Some (Some d) \<longrightarrow> td_trader d \<noteq> p \<and> (\<exists>d'. T (td_trader d) = Some (Some d') \<and> td_trader d' = p)"
    and e: "T' p = Some (Some e)"
  then obtain d where d: "T p = Some (Some d)" "td_trader d = td_trader e"
    unfolding kept_def by (metis (no_types, lifting) map_option_eq_Some option.simps(9))
  with pr obtain d' where "td_trader d \<noteq> p" "T (td_trader d) = Some (Some d')" "td_trader d' = p" by blast
  with kept_Some [OF k this(2)] d(2) show "td_trader e \<noteq> p \<and> (\<exists>d'. T' (td_trader e) = Some (Some d') \<and> td_trader d' = p)" by auto
qed

lemma offer_in_upd: "offer_in (T(p := Some (Some e))) q = (if q = p then Some (unflagged e) else offer_in T q)"
  by (simp add: offer_in_def)

lemma kept_flag:
  assumes "T p = Some (Some d)" and "unflagged e = unflagged d" and "td_accepted e \<Longrightarrow> td_accepted d \<or> p \<in> X"
  shows "kept X T (T(p := Some (Some e)))"
proof -
  have o: "offer_in (T(p := Some (Some e))) q = offer_in T q" for q using assms(1,2) by (simp add: offer_in_def)
  show ?thesis using assms td_trader_unflagged [OF assms(2)]
    by (auto simp: kept_def honest_def o)
qed

lemma unflagged_flags [simp]:
  "unflagged (d\<lparr>td_accepted := b\<rparr>) = unflagged d" "unflagged (d\<lparr>td_in_accept := b\<rparr>) = unflagged d"
  by (simp_all add: unflagged_def)

lemma kept_change:
  assumes "paired T" and p: "T p = Some (Some d)" and e: "td_trader e = td_trader d" "\<not> td_accepted e"
    and q: "T (td_trader d) = Some (Some d')"
  shows "kept X T (T(p := Some (Some e), td_trader d := Some (Some (d'\<lparr>td_accepted := False\<rparr>))))" (is "kept X T ?T'")
proof -
  have "honest X T ?T'"
    unfolding honest_def
  proof (intro allI impI)
    fix r c assume r: "?T' r = Some (Some c)" "td_accepted c"
    then have "r \<noteq> p" "r \<noteq> td_trader d" using e(2) by (auto split: if_splits)
    then have c: "T r = Some (Some c)" using r(1) by simp
    then obtain c' where "T (td_trader c) = Some (Some c')" "td_trader c' = r" using assms(1) unfolding paired_def by blast
    moreover have "\<exists>d''. T (td_trader d) = Some (Some d'') \<and> td_trader d'' = p" using assms(1) p unfolding paired_def by blast
    ultimately have "td_trader c \<noteq> p" "td_trader c \<noteq> td_trader d"
      using p \<open>r \<noteq> p\<close> \<open>r \<noteq> td_trader d\<close> by auto
    then have "offer_in ?T' (td_trader c) = offer_in T (td_trader c)" by (simp add: offer_in_def)
    with c r(2) show "\<exists>d. T r = Some (Some d) \<and> td_accepted d \<and> unflagged c = unflagged d \<and>
        offer_in ?T' (td_trader d) = offer_in T (td_trader d)" by blast
  qed
  then show ?thesis using p q e(1) by (auto simp: kept_def)
qed

section \<open>Operations on an offer\<close>

text \<open>\<open>keeps X w m\<close>: the outcome \<open>m\<close> of an operation on \<open>w\<close> is no fault and keeps the trades.\<close>

definition keeps :: "u64 set \<Rightarrow> 'inv trade_world \<Rightarrow> 'inv trade_world trade_result \<Rightarrow> bool" where
  "keeps X w m \<longleftrightarrow> safe m (\<lambda>w'. kept X (trades w) (trades w'))"

lemma keeps_same: "keeps X w (Inr w)"
  by (simp add: keeps_def kept_refl)

lemma keeps_then:
  assumes "keeps X w m" and "\<And>w'. kept X (trades w) (trades w') \<Longrightarrow> keeps X w' (f w')"
  shows "keeps X w (sum_bind m f)"
  unfolding keeps_def safe_bind
  by (rule safe_mono [OF assms(1) [unfolded keeps_def]])
    (use assms(2) in \<open>auto simp: keeps_def intro: safe_mono kept_trans\<close>)

lemma keeps_chain:
  assumes "\<And>f w'. f \<in> set fs \<Longrightarrow> kept X (trades w) (trades w') \<Longrightarrow> keeps X w' (f w')"
  shows "keeps X w (chain fs w)"
  using assms
proof (induction fs arbitrary: w)
  case Nil
  then show ?case by (simp add: keeps_same)
next
  case (Cons f fs)
  have "keeps X w (f w)" using Cons.prems [of f w] by (simp add: kept_refl)
  moreover have "keeps X w' (chain fs w')" if "kept X (trades w) (trades w')" for w'
    using Cons.prems that kept_trans by (intro Cons.IH) (metis list.set_intros(2))
  ultimately show ?case by (simp add: keeps_then)
qed

lemma keeps_status: "trades w p = Some x \<Longrightarrow> keeps X w (send_trade_status p st w)"
  by (auto simp: keeps_def kept_refl intro!: send_trade_status_safe(2))

lemma keeps_notice: "trades w p = Some x \<Longrightarrow> keeps X w (send_notice p n w)"
  by (auto simp: keeps_def kept_refl intro!: send_notice_safe)

lemma keeps_refresh:
  assumes "paired (trades w)" and "trades w p = Some (Some d)"
  shows "keeps X w (trade_refresh iv b p w)"
proof -
  obtain d' where "trades w (td_trader d) = Some (Some d')" using assms unfolding paired_def by blast
  with assms show ?thesis
    by (auto simp: keeps_def trade_refresh_def kept_refl intro!: trade_at_safe send_update_trade_safe)
qed

lemma keeps_set_accepted:
  "paired (trades w) \<Longrightarrow> trades w p = Some (Some d) \<Longrightarrow> (b \<Longrightarrow> p \<in> X) \<Longrightarrow> keeps X w (set_accepted p b c w)"
  by (auto simp: keeps_def intro!: set_accepted_safe kept_flag)

lemma keeps_set_in_accept: "trades w p = Some (Some d) \<Longrightarrow> keeps X w (set_in_accept p b w)"
  by (auto simp: keeps_def intro!: set_in_accept_safe kept_flag)

text \<open>The change of an offer and the withdrawal of both acceptances, as one step.\<close>

lemma keeps_change:
  fixes w :: "'inv trade_world"
  assumes pr: "paired (trades w)" and p: "trades w p = Some (Some d)" and e: "td_trader e = td_trader d"
  shows "keeps X w (sum_bind (set_trade p (Some e) w) (unaccept_both p))"
proof -
  let ?q = "td_trader d"
  obtain d' where q: "trades w ?q = Some (Some d')" "?q \<noteq> p" using pr p unfolding paired_def by blast
  have "safe (unaccept_both p w1) (\<lambda>w'. kept X (trades w) (trades w'))"
    if w1: "trades w1 = (trades w)(p := Some (Some e))" for w1 :: "'inv trade_world"
  proof -
    have "kept UNIV (trades w) (trades w1)" unfolding w1 using p e by (auto simp: kept_def honest_def)
    then have pr1: "paired (trades w1)" by (rule kept_paired [OF _ pr])
    have p1: "trades w1 p = Some (Some e)" by (simp add: w1)
    show ?thesis
      unfolding unaccept_both_def safe_simps
    proof (rule trade_at_safe [OF p1], rule set_accepted_safe [OF pr1 p1])
      fix w2 :: "'inv trade_world"
      assume w2: "trades w2 = (trades w1)(p := Some (Some (e\<lparr>td_accepted := False\<rparr>)))"
      have "kept UNIV (trades w1) (trades w2)" unfolding w2 using p1 by (intro kept_flag) simp_all
      then have pr2: "paired (trades w2)" by (rule kept_paired [OF _ pr1])
      have q2: "trades w2 (td_trader e) = Some (Some d')" using q e by (simp add: w2 w1)
      show "safe (set_accepted (td_trader e) False False w2) (\<lambda>w'. kept X (trades w) (trades w'))"
      proof (rule set_accepted_safe [OF pr2 q2])
        fix w3 :: "'inv trade_world"
        assume "trades w3 = (trades w2)(td_trader e := Some (Some (d'\<lparr>td_accepted := False\<rparr>)))"
        then have "trades w3 = (trades w)(p := Some (Some (e\<lparr>td_accepted := False\<rparr>)), ?q := Some (Some (d'\<lparr>td_accepted := False\<rparr>)))"
          using e by (simp add: w2 w1)
        then show "kept X (trades w) (trades w3)"
          using kept_change [OF pr p _ _ q(1), of "e\<lparr>td_accepted := False\<rparr>"] e by simp
      qed
    qed
  qed
  then show ?thesis unfolding keeps_def safe_bind by (intro set_trade_safe [OF p])
qed

lemma keeps_change_then:
  assumes "paired (trades w)" and "trades w p = Some (Some d)" and "td_trader e = td_trader d"
    and "\<And>w'. kept X (trades w) (trades w') \<Longrightarrow> keeps X w' (chain fs w')"
  shows "keeps X w (sum_bind (set_trade p (Some e) w) (chain (unaccept_both p # fs)))"
proof -
  have "chain (unaccept_both p # fs) = (\<lambda>w. sum_bind (unaccept_both p w) (chain fs))" by (rule ext) simp
  then show ?thesis using keeps_then [OF keeps_change [OF assms(1-3)] assms(4)] by (simp add: sum_bind_assoc)
qed

lemma keeps_at: "trades w p = Some (Some d) \<Longrightarrow> keeps X w (f d) \<Longrightarrow> keeps X w (sum_bind (trade_at p w) f)"
  by (auto simp: keeps_def intro!: trade_at_safe)

text \<open>What holds of the trades after any number of such steps.\<close>

lemma kept_still:
  assumes "kept X T T'" and "paired T" and "T p = Some (Some d)"
  obtains d' where "paired T'" and "T' p = Some (Some d')" and "td_trader d' = td_trader d"
  using kept_paired [OF assms(1,2)] kept_Some [where T = T and T' = T' and p = p, OF assms(1,3)] by blast

lemma keeps_set_spell:
  fixes w :: "'inv trade_world"
  assumes pr: "paired (trades w)" and p: "trades w p = Some (Some d)"
  shows "keeps X w (set_trade_spell iv p spell cast w)"
proof -
  let ?e = "d\<lparr>td_spell := spell, td_cast_item := cast\<rparr>"
  have refresh: "keeps X w' (trade_refresh iv b p w')" if "kept X (trades w) (trades w')" for w' :: "'inv trade_world" and b
    by (rule kept_still [OF that pr p]) (rule keeps_refresh)
  have "keeps X w (sum_bind (set_trade p (Some ?e) w) (chain [unaccept_both p, trade_refresh iv True p, trade_refresh iv False p]))"
  proof (rule keeps_change_then [OF pr p], simp)
    fix w' :: "'inv trade_world"
    assume w': "kept X (trades w) (trades w')"
    show "keeps X w' (chain [trade_refresh iv True p, trade_refresh iv False p] w')"
      by (rule keeps_chain) (use refresh kept_trans [OF w'] in auto)
  qed
  then show ?thesis unfolding set_trade_spell_def by (intro keeps_at [OF p]) (simp add: keeps_same)
qed

lemma keeps_set_item:
  fixes w :: "'inv trade_world"
  assumes pr: "paired (trades w)" and p: "trades w p = Some (Some d)"
  shows "keeps X w (set_trade_item iv p s g w)"
proof -
  let ?e = "d\<lparr>td_items := (td_items d)[s := g]\<rparr>"
  let ?fs = "[trade_refresh iv True p, if s = TRADE_SLOT_NONTRADED then set_trade_spell iv (td_trader ?e) 0 0 else Inr,
      set_trade_spell iv p 0 0]"
  obtain d' where q: "trades w (td_trader d) = Some (Some d')" using pr p unfolding paired_def by blast
  have one: "keeps X w' (f w')" if f: "f \<in> set ?fs" and k: "kept X (trades w) (trades w')" for f w'
  proof -
    obtain c where c: "paired (trades w')" "trades w' p = Some (Some c)" by (rule kept_still [OF k pr p])
    obtain c' where c': "trades w' (td_trader d) = Some (Some c')" by (rule kept_still [OF k pr q])
    show ?thesis
      using f keeps_refresh [OF c] keeps_set_spell [OF c] keeps_set_spell [OF c(1) c'] keeps_same by (auto split: if_splits)
  qed
  have "keeps X w (sum_bind (set_trade p (Some ?e) w) (chain (unaccept_both p # ?fs)))"
  proof (rule keeps_change_then [OF pr p], simp)
    fix w' :: "'inv trade_world"
    assume w': "kept X (trades w) (trades w')"
    show "keeps X w' (chain ?fs w')"
      by (rule keeps_chain) (use one kept_trans [OF w'] in blast)
  qed
  then show ?thesis
    unfolding set_trade_item_def
    by (intro keeps_at [OF p]) (cases "s = TRADE_SLOT_NONTRADED"; cases "td_items d ! s = g"; simp add: keeps_same)
qed

lemma keeps_set_money:
  fixes w :: "'inv trade_world"
  assumes pr: "paired (trades w)" and p: "trades w p = Some (Some d)"
  shows "keeps X w (set_trade_money iv p m w)"
proof -
  have "keeps X w (sum_bind (set_trade p (Some (d\<lparr>td_money := m\<rparr>)) w) (chain [unaccept_both p, trade_refresh iv True p]))"
  proof (rule keeps_change_then [OF pr p], simp)
    fix w' :: "'inv trade_world"
    assume w': "kept X (trades w) (trades w')"
    show "keeps X w' (chain [trade_refresh iv True p] w')"
    proof (rule keeps_chain, simp)
      fix w2 :: "'inv trade_world"
      assume "kept X (trades w') (trades w2)"
      then have "kept X (trades w) (trades w2)" by (rule kept_trans [OF w'])
      then show "keeps X w2 (trade_refresh iv True p w2)" by (rule kept_still [OF _ pr p]) (rule keeps_refresh)
    qed
  qed
  then show ?thesis unfolding set_trade_money_def by (intro keeps_at [OF p]) (simp add: keeps_same)
qed

section \<open>The exchange and the end of a trade\<close>

text \<open>\<open>steps X w m\<close>: no fault, trades in pairs, acceptances only for the present offers.\<close>

definition steps :: "u64 set \<Rightarrow> 'inv trade_world \<Rightarrow> 'inv trade_world trade_result \<Rightarrow> bool" where
  "steps X w m \<longleftrightarrow> safe m (\<lambda>w'. paired (trades w') \<and> honest X (trades w) (trades w'))"

lemma keeps_steps: "keeps X w m \<Longrightarrow> paired (trades w) \<Longrightarrow> steps X w m"
  unfolding keeps_def steps_def by (erule safe_mono) (auto intro: kept_paired simp: kept_def)

lemma steps_then:
  assumes "keeps X w m" and "\<And>w'. kept X (trades w) (trades w') \<Longrightarrow> steps X w' (f w')"
  shows "steps X w (sum_bind m f)"
  unfolding steps_def safe_bind
  by (rule safe_mono [OF assms(1) [unfolded keeps_def]])
    (use assms(2) in \<open>auto simp: steps_def kept_def intro: safe_mono honest_trans\<close>)

lemma steps_same: "paired (trades w) \<Longrightarrow> steps X w (Inr w)"
  by (rule keeps_steps [OF keeps_same])

lemma honest_close:
  assumes "paired T" and "T p = Some (Some d)"
  shows "honest X T (T(p := Some None, td_trader d := Some None))" and "paired (T(p := Some None, td_trader d := Some None))"
proof -
  let ?T = "T(p := Some None, td_trader d := Some None)"
  obtain d' where d': "T (td_trader d) = Some (Some d')" "td_trader d' = p" using assms unfolding paired_def by blast
  have away: "td_trader c \<noteq> p \<and> td_trader c \<noteq> td_trader d \<and> T r = Some (Some c)" if "?T r = Some (Some c)" for r c
  proof -
    have r: "r \<noteq> p" "r \<noteq> td_trader d" "T r = Some (Some c)" using that by (auto split: if_splits)
    then obtain c' where "T (td_trader c) = Some (Some c')" "td_trader c' = r" using assms(1) unfolding paired_def by blast
    with r d' assms(2) show ?thesis by auto
  qed
  show "paired ?T"
    unfolding paired_def
  proof (intro allI impI)
    fix r c assume "?T r = Some (Some c)"
    from away [OF this] assms(1) show "td_trader c \<noteq> r \<and> (\<exists>d'. ?T (td_trader c) = Some (Some d') \<and> td_trader d' = r)"
      unfolding paired_def by (metis fun_upd_other)
  qed
  show "honest X T ?T"
    unfolding honest_def
  proof (intro allI impI)
    fix r c assume "?T r = Some (Some c)" "td_accepted c"
    with away [OF this(1)] show "\<exists>d. T r = Some (Some d) \<and> td_accepted d \<and> unflagged c = unflagged d \<and>
        offer_in ?T (td_trader d) = offer_in T (td_trader d)"
      by (intro exI [of _ c]) (simp add: offer_in_def)
  qed
qed

lemma steps_close:
  fixes w :: "'inv trade_world"
  assumes pr: "paired (trades w)" and p: "trades w p = Some (Some d)"
    and fs: "\<And>f w1. f \<in> set fs \<Longrightarrow> trades w1 = (trades w)(td_trader d := Some None, p := Some None) \<Longrightarrow>
        safe (f w1) (\<lambda>w2. trades w2 = trades w1)"
  shows "steps X w (chain (set_trade (td_trader d) None # set_trade p None # fs) w)"
    and "steps X w (chain (set_trade p None # set_trade (td_trader d) None # fs) w)"
proof -
  obtain d' where q: "trades w (td_trader d) = Some (Some d')" "td_trader d \<noteq> p" using pr p unfolding paired_def by blast
  let ?T = "(trades w)(td_trader d := Some None, p := Some None)"
  have swap: "(trades w)(p := Some None, td_trader d := Some None) = ?T" using q(2) by (simp add: fun_upd_twist)
  note close = honest_close [OF pr p, unfolded swap]
  have rest: "safe (chain fs w1) (\<lambda>w2. trades w2 = ?T)" if "trades w1 = ?T" for w1
    using that fs
  proof (induction fs arbitrary: w1)
    case (Cons f fs)
    have "safe (f w1) (\<lambda>w2. trades w2 = trades w1)" by (rule Cons.prems(2) [OF _ Cons.prems(1)]) simp
    then have "safe (f w1) (\<lambda>w2. trades w2 = ?T)" by (rule safe_mono) (erule trans, rule Cons.prems(1))
    then show ?case unfolding safe_chain
      by (rule safe_mono) (rule Cons.IH, assumption, rule Cons.prems(2), simp_all)
  qed simp
  have fin: "safe (chain fs w1) (\<lambda>w'. paired (trades w') \<and> honest X (trades w) (trades w'))" if "trades w1 = ?T" for w1
    by (rule safe_mono [OF rest [OF that]]) (simp add: close)
  show "steps X w (chain (set_trade (td_trader d) None # set_trade p None # fs) w)"
    unfolding steps_def safe_chain
    by (rule set_trade_safe [OF q(1)], rule set_trade_safe [where x = "Some d"]) (use p q(2) fin in simp_all)
  show "steps X w (chain (set_trade p None # set_trade (td_trader d) None # fs) w)"
    unfolding steps_def safe_chain
    by (rule set_trade_safe [OF p], rule set_trade_safe [where x = "Some d'"]) (use q fin swap in simp_all)
qed

section \<open>The handlers\<close>

text \<open>What does not touch the trades.\<close>

definition tame :: "'inv trade_world \<Rightarrow> 'inv trade_world trade_result \<Rightarrow> bool" where
  "tame w m \<longleftrightarrow> safe m (\<lambda>w'. trades w' = trades w)"

lemma keeps_tame: "tame w m \<Longrightarrow> keeps X w m"
  unfolding keeps_def tame_def by (erule safe_mono) (simp add: kept_refl)

lemma tame_same: "tame w (Inr w)" "trades w' = trades w \<Longrightarrow> tame w (Inr w')"
  by (simp_all add: tame_def)

lemma tame_status: "trades w p = Some x \<Longrightarrow> tame w (send_trade_status p st w)"
  by (auto simp: tame_def intro!: send_trade_status_safe(2))

lemma tame_status_with: "trades w p = Some x \<Longrightarrow> tame w (send_trade_status_with p st sd w)"
  by (auto simp: tame_def intro!: send_trade_status_safe(1))

lemma tame_notice: "trades w p = Some x \<Longrightarrow> tame w (send_notice p n w)"
  by (auto simp: tame_def intro!: send_notice_safe)

lemma tame_change_inv: "trades w p = Some x \<Longrightarrow> tame w (change_inv p f w)"
  by (auto simp: tame_def change_inv_def intro!: player_at_safe)

lemma tame_money: "trades w p = Some x \<Longrightarrow> tame w (player_modify_money p d w)"
  by (auto simp: tame_def player_modify_money_def Let_def intro!: player_at_safe)

lemma start_spell_trades [simp]: "trades (start_spell p s w) = trades w"
  by (simp add: start_spell_def)

lemma tame_player: "trades w p = Some x \<Longrightarrow> (\<And>t. tr_trade t = x \<Longrightarrow> tame w (f t)) \<Longrightarrow> tame w (sum_bind (player_at p w) f)"
  by (auto simp: tame_def intro!: player_at_safe)

lemma tame_chain:
  assumes "\<And>f w'. f \<in> set fs \<Longrightarrow> trades w' = trades w \<Longrightarrow> tame w' (f w')"
  shows "tame w (chain fs w)"
  using assms
proof (induction fs arbitrary: w)
  case (Cons f fs)
  have "tame w (f w)" by (rule Cons.prems) simp_all
  moreover have "tame w2 (chain fs w2)" if "trades w2 = trades w" for w2
    using Cons.IH [of w2] Cons.prems that by simp
  ultimately show ?case unfolding tame_def safe_chain by (auto elim!: safe_mono)
qed (simp add: tame_def)

lemma tame_give:
  assumes "trades w p = Some x"
  shows "tame w (give_back iv p dst item w)" and "tame w (hand_over iv p dst item w)" and "tame w (remove_offered iv p item w)"
  using assms tame_change_inv [OF assms]
  by (auto simp: give_back_def hand_over_def remove_offered_def tame_same Let_def intro!: tame_player split: option.splits prod.splits)

lemma tame_move_slot:
  assumes p: "trades w p = Some x" and q: "trades w q = Some y"
  shows "tame w (move_slot iv p q pair w)"
proof (cases pair)
  case (Pair mine his)
  have h: "tame w (chain [hand_over iv q a m, hand_over iv p b n] w)"
    and g: "tame w (chain [give_back iv p a m, give_back iv q b n] w)" for a b m n
    by (rule tame_chain; use p q in \<open>auto intro: tame_give\<close>)+
  show ?thesis
    unfolding move_slot_def Pair prod.case
    by (rule tame_player [OF p], rule tame_player [OF q])
      (use h g in \<open>auto simp: Let_def simp del: chain.simps split: prod.splits\<close>)
qed

lemma tame_move_items:
  fixes w :: "'inv trade_world"
  assumes "trades w p = Some x" and "trades w q = Some y"
  shows "tame w (move_items iv p q xs ys w)"
  unfolding move_items_def
proof (rule tame_chain)
  fix f :: "'inv trade_world \<Rightarrow> 'inv trade_world trade_result" and w' :: "'inv trade_world"
  assume "f \<in> set (map (move_slot iv p q) (zip xs ys))" "trades w' = trades w"
  with assms show "tame w' (f w')" by (auto intro!: tame_move_slot)
qed

lemma keeps_leave_accept:
  fixes w :: "'inv trade_world"
  assumes "paired (trades w)" and "trades w p = Some (Some d)" and "trades w q = Some (Some d')"
  shows "keeps X w (leave_accept p q w)"
  unfolding leave_accept_def
proof (rule keeps_chain)
  fix f :: "'inv trade_world \<Rightarrow> 'inv trade_world trade_result" and w' :: "'inv trade_world"
  assume f: "f \<in> set [set_in_accept p False, set_in_accept q False]" and k: "kept X (trades w) (trades w')"
  obtain c where "trades w' p = Some (Some c)" by (rule kept_still [OF k assms(1,2)])
  moreover obtain c' where "trades w' q = Some (Some c')" by (rule kept_still [OF k assms(1,3)])
  ultimately show "keeps X w' (f w')" using f keeps_set_in_accept by auto
qed

lemma steps_complete_trade:
  fixes w :: "'inv trade_world"
  assumes pr: "paired (trades w)" and p: "trades w p = Some (Some d)" and q: "td_trader d = q"
  shows "steps X w (complete_trade env p q xs ys w)"
proof -
  obtain d' where d': "trades w q = Some (Some d')" using pr p q unfolding paired_def by blast
  let ?iv = "te_storage env"
  let ?A = "concat (map (\<lambda>(mine, his). [remove_offered ?iv p mine, remove_offered ?iv q his]) (zip xs ys)) @
       [move_items ?iv p q (map (gift_of p) xs) (map (gift_of q) ys),
        player_modify_money p (- sint (td_money d)), player_modify_money p (sint (td_money d')),
        player_modify_money q (- sint (td_money d')), player_modify_money q (sint (td_money d)),
        Inr \<circ> start_spell p (td_spell d), Inr \<circ> start_spell q (td_spell d')]"
  let ?E = "[Inr \<circ> trade_emit (TradeSaved p q), send_trade_status q TRADE_STATUS_COMPLETE, send_trade_status p TRADE_STATUS_COMPLETE]"
  have A: "tame w (chain ?A w)"
  proof (rule tame_chain)
    fix f :: "'inv trade_world \<Rightarrow> 'inv trade_world trade_result" and w' :: "'inv trade_world"
    assume f: "f \<in> set ?A" and w': "trades w' = trades w"
    note pq = p [folded w'] d' [folded w']
    from f show "tame w' (f w')"
      using tame_give(3) [OF pq(1)] tame_give(3) [OF pq(2)] tame_move_items [OF pq] tame_money [OF pq(1)] tame_money [OF pq(2)]
      by (auto simp: tame_same)
  qed
  have B: "steps X w' (chain (leave_accept p q # set_trade p None # set_trade q None # ?E) w')" if "trades w' = trades w" for w' :: "'inv trade_world"
  proof -
    note pq = p [folded that] d' [folded that]
    have "steps X w'' (chain (set_trade p None # set_trade q None # ?E) w'')" if k: "kept X (trades w') (trades w'')" for w'' :: "'inv trade_world"
    proof -
      obtain c where c: "paired (trades w'')" "trades w'' p = Some (Some c)" "td_trader c = q"
        using kept_still [OF k _ pq(1)] pr \<open>trades w' = trades w\<close> q by metis
      show ?thesis
      proof (rule steps_close(2) [OF c(1,2), unfolded c(3)])
        fix f :: "'inv trade_world \<Rightarrow> 'inv trade_world trade_result" and w1 :: "'inv trade_world"
        assume f: "f \<in> set ?E" and w1: "trades w1 = (trades w'')(q := Some None, p := Some None)"
        have "trades w1 p = Some None" and "trades w1 q = Some None" by (simp_all add: w1)
        then have "tame w1 (f w1)" using f tame_status [of w1 p] tame_status [of w1 q] by (auto simp: tame_same)
        then show "safe (f w1) (\<lambda>w2. trades w2 = trades w1)" by (simp add: tame_def)
      qed
    qed
    moreover have "keeps X w' (leave_accept p q w')" by (rule keeps_leave_accept) (use pr pq that in simp_all)
    ultimately show ?thesis using steps_then [of X w' "leave_accept p q w'" "chain (set_trade p None # set_trade q None # ?E)"] by simp
  qed
  have "steps X w (sum_bind (chain ?A w) (chain (leave_accept p q # set_trade p None # set_trade q None # ?E)))"
    unfolding steps_def safe_bind
    by (rule safe_mono [OF A [unfolded tame_def]]) (use B in \<open>simp add: steps_def\<close>)
  then show ?thesis
    unfolding complete_trade_def steps_def safe_bind Let_def
    by (intro trade_at_safe [OF p] trade_at_safe [OF d']) (simp add: chain_append del: safe_chain)
qed

lemma keeps_drop_spell:
  fixes w :: "'inv trade_world"
  assumes pr: "paired (trades w)" and p: "trades w p = Some (Some d)" and q: "trades w q = Some (Some d')"
    and c: "caster = p \<or> caster = q"
  shows "keeps X w (drop_spell iv p q caster chk w)"
proof -
  obtain e where e: "trades w caster = Some (Some e)" using p q c by blast
  have "keeps X w (chain (if chk = SpellRefused then [Inr \<circ> trade_emit (TradeCastFailed caster (td_spell e)), leave_accept p q, set_trade_spell iv caster 0 0]
      else if caster = p then [leave_accept p q, set_trade_spell iv caster 0 0]
      else [set_trade_spell iv caster 0 0, leave_accept p q]) w)" (is "keeps X w (chain ?fs w)")
  proof (rule keeps_chain)
    fix f :: "'inv trade_world \<Rightarrow> 'inv trade_world trade_result" and w' :: "'inv trade_world"
    assume f: "f \<in> set ?fs" and k: "kept X (trades w) (trades w')"
    obtain c1 where c1: "paired (trades w')" "trades w' p = Some (Some c1)" by (rule kept_still [OF k pr p])
    obtain c2 where c2: "trades w' q = Some (Some c2)" by (rule kept_still [OF k pr q])
    obtain c3 where c3: "trades w' caster = Some (Some c3)" by (rule kept_still [OF k pr e])
    from f show "keeps X w' (f w')"
      using keeps_leave_accept [OF c1 c2] keeps_set_spell [OF c1(1) c3]
      by (auto simp: keeps_same keeps_tame tame_same split: if_splits)
  qed
  then show ?thesis unfolding drop_spell_def by (rule keeps_at [OF e])
qed

lemma keeps_no_room:
  fixes w :: "'inv trade_world"
  assumes pr: "paired (trades w)" and p: "trades w p = Some (Some d)" and q: "trades w q = Some (Some d')"
  shows "keeps X w (no_room p q n n' w)"
  unfolding no_room_def
proof (rule keeps_chain)
  fix f :: "'inv trade_world \<Rightarrow> 'inv trade_world trade_result" and w' :: "'inv trade_world"
  assume f: "f \<in> set [leave_accept p q, send_notice p n, send_notice q n', set_accepted p False False, set_accepted q False False]"
    and k: "kept X (trades w) (trades w')"
  obtain c1 where c1: "paired (trades w')" "trades w' p = Some (Some c1)" by (rule kept_still [OF k pr p])
  obtain c2 where c2: "trades w' q = Some (Some c2)" by (rule kept_still [OF k pr q])
  from f show "keeps X w' (f w')"
    using keeps_leave_accept [OF c1 c2] keeps_notice [OF c1(2)] keeps_notice [OF c2] keeps_set_accepted [OF c1] keeps_set_accepted [OF c1(1) c2]
    by auto
qed

text \<open>Reads do not change the world.\<close>

lemma steps_player: "trades w p = Some x \<Longrightarrow> (\<And>t. om_get (tw_players w) p = Some t \<Longrightarrow> tr_trade t = x \<Longrightarrow> steps X w (f t)) \<Longrightarrow>
    steps X w (sum_bind (player_at p w) f)"
  by (auto simp: steps_def intro!: player_at_safe)

lemma steps_at: "trades w p = Some (Some d) \<Longrightarrow> steps X w (f d) \<Longrightarrow> steps X w (sum_bind (trade_at p w) f)"
  by (auto simp: steps_def intro!: trade_at_safe)

lemma steps_of: "trades w p = Some x \<Longrightarrow> steps X w (f x) \<Longrightarrow> steps X w (sum_bind (trade_of p w) f)"
  by (auto simp: steps_def intro!: trade_of_safe)

lemma steps_spell_ready:
  assumes "trades w p = Some (Some d)" and "trades w q = Some (Some d')" and "\<And>b. steps X w (f b)"
  shows "steps X w (sum_bind (spell_ready env p q t w) f)"
  using assms(3) unfolding spell_ready_def
  by (auto simp: steps_def Let_def intro!: player_at_safe [OF assms(1)] player_at_safe [OF assms(2)] trade_at_safe [OF assms(1)] trade_at_safe [OF assms(2)])

lemma steps_accept_both:
  fixes w :: "'inv trade_world"
  assumes pr: "paired (trades w)" and p: "trades w p = Some (Some d)" and q: "td_trader d = q"
  shows "steps X w (accept_both env p q w)"
proof -
  obtain d' where d': "trades w q = Some (Some d')" using pr p q unfolding paired_def by blast
  have start: "keeps X w (chain [set_in_accept p True, set_in_accept q True] w)"
  proof (rule keeps_chain)
    fix f :: "'inv trade_world \<Rightarrow> 'inv trade_world trade_result" and w' :: "'inv trade_world"
    assume f: "f \<in> set [set_in_accept p True, set_in_accept q True]" and k: "kept X (trades w) (trades w')"
    obtain c1 where "trades w' p = Some (Some c1)" by (rule kept_still [OF k pr p])
    moreover obtain c2 where "trades w' q = Some (Some c2)" by (rule kept_still [OF k pr d'])
    ultimately show "keeps X w' (f w')" using f keeps_set_in_accept by auto
  qed
  show ?thesis
    unfolding accept_both_def
  proof (rule steps_then [OF start])
    fix w' :: "'inv trade_world"
    assume k: "kept X (trades w) (trades w')"
    obtain c1 where c1: "paired (trades w')" "trades w' p = Some (Some c1)" "td_trader c1 = q" by (rule kept_still [OF k pr p]) (use q in simp)
    obtain c2 where c2: "trades w' q = Some (Some c2)" by (rule kept_still [OF k pr d'])
    have room: "steps X w2 (no_room p q n n' w2)" "steps X w2 (complete_trade env p q xs ys w2)"
      if "trades w2 = trades w'" for n n' xs ys and w2 :: "'inv trade_world"
    proof -
      note t = c1 [folded that] c2 [folded that]
      show "steps X w2 (no_room p q n n' w2)" by (rule keeps_steps [OF keeps_no_room [OF t(1,2,4)] t(1)])
      show "steps X w2 (complete_trade env p q xs ys w2)" by (rule steps_complete_trade [OF t(1,2,3)])
    qed
    have drop: "steps X w' (drop_spell iv p q p chk w')" "steps X w' (drop_spell iv p q q chk w')" for iv chk
      by (rule keeps_steps [OF keeps_drop_spell [OF c1(1,2) c2] c1(1)]; simp)+
    have status: "steps X w' (sum_bind (send_trade_status q TRADE_STATUS_ACCEPTED w') f)"
      if "\<And>w2. trades w2 = trades w' \<Longrightarrow> steps X w2 (f w2)" for f
      unfolding steps_def safe_bind
      by (rule send_trade_status_safe(2) [OF c2]) (use that in \<open>simp add: steps_def\<close>)
    show "steps X w' (sum_bind (player_at p w') (\<lambda>me. sum_bind (trade_at p w') (\<lambda>d. sum_bind (player_at q w') (\<lambda>trader. sum_bind (trade_at q w') (\<lambda>d'.
       let iv = te_storage env; myItems = offered iv (tr_inv me) d; hisItems = offered iv (tr_inv trader) d';
           inTrade = guids_of myItems @ guids_of hisItems
       in sum_bind (spell_ready env p q inTrade w') (\<lambda>mySpell.
          if mySpell \<noteq> SpellReady then drop_spell iv p q p mySpell w'
          else sum_bind (spell_ready env q p inTrade w') (\<lambda>hisSpell.
          if hisSpell \<noteq> SpellReady then drop_spell iv p q q hisSpell w'
          else sum_bind (send_trade_status q TRADE_STATUS_ACCEPTED w') (\<lambda>w.
          if \<not> iv_can_store_all iv inTrade (tr_inv me) hisItems
          then no_room p q LANG_NOT_FREE_TRADE_SLOTS LANG_NOT_PARTNER_FREE_TRADE_SLOTS w
          else if \<not> iv_can_store_all iv inTrade (tr_inv trader) myItems
          then no_room p q LANG_NOT_PARTNER_FREE_TRADE_SLOTS LANG_NOT_FREE_TRADE_SLOTS w
          else complete_trade env p q myItems hisItems w))))))))"
      unfolding Let_def
      by (rule steps_player [OF c1(2)], rule steps_at [OF c1(2)], rule steps_player [OF c2], rule steps_at [OF c2],
          rule steps_spell_ready [OF c1(2) c2])
        (auto intro!: drop room status steps_spell_ready [OF c2 c1(2)])
  qed
qed

lemma steps_undo:
  assumes "paired (trades w)" and "trades w r = Some (Some d)"
  shows "steps X w (chain [send_trade_status r st, set_accepted r False c] w)"
    and "steps X w (chain [send_notice r n, set_accepted r False c] w)"
proof -
  have "keeps X w' (set_accepted r False c w')" if "kept X (trades w) (trades w')" for w'
    by (rule kept_still [OF that assms]) (rule keeps_set_accepted, simp_all)
  then show "steps X w (chain [send_trade_status r st, set_accepted r False c] w)"
    and "steps X w (chain [send_notice r n, set_accepted r False c] w)"
    using keeps_status [OF assms(2)] keeps_notice [OF assms(2)]
    by (auto intro!: keeps_steps [OF _ assms(1)] keeps_then keeps_same)
qed

lemma steps_tame: "tame w m \<Longrightarrow> paired (trades w) \<Longrightarrow> steps X w m"
  by (rule keeps_steps [OF keeps_tame])

lemma steps_check_accept:
  assumes pr: "paired (trades w)" and p: "trades w p = Some (Some e)" and e: "td_trader e = td_trader d"
    and q: "trades w (td_trader d) = Some (Some e')"
  shows "steps X w (check_accept env p me d trader d' w)"
  using steps_undo [OF pr p] steps_undo [OF pr q] steps_tame [OF tame_status [OF p] pr] steps_tame [OF tame_status [OF q] pr]
  by (simp add: check_accept_def Let_def steps_accept_both [OF pr p e] del: chain.simps)

lemma steps_accept_trade:
  fixes w :: "'inv trade_world"
  assumes pr: "paired (trades w)" and x: "trades w p = Some x" and X: "p \<in> X"
  shows "steps X w (accept_trade env p w)"
proof (cases x)
  case None
  with x pr show ?thesis unfolding accept_trade_def by (auto intro!: steps_player steps_same)
next
  case (Some d)
  note p = x [unfolded Some]
  obtain d' where q: "trades w (td_trader d) = Some (Some d')" using pr p unfolding paired_def by blast
  have "steps X w (sum_bind (set_accepted p True False w) (check_accept env p me d trader d'))" for me trader :: "'inv trader"
  proof (rule steps_then [OF keeps_set_accepted [OF pr p]])
    fix w' :: "'inv trade_world"
    assume k: "kept X (trades w) (trades w')"
    obtain e where "paired (trades w')" "trades w' p = Some (Some e)" "td_trader e = td_trader d" by (rule kept_still [OF k pr p])
    moreover obtain e' where "trades w' (td_trader d) = Some (Some e')" by (rule kept_still [OF k pr q])
    ultimately show "steps X w' (check_accept env p me d trader d' w')" by (rule steps_check_accept)
  qed (rule X)
  then show ?thesis
    unfolding accept_trade_def by (intro steps_player [OF p]) (auto intro!: steps_player [OF q])
qed

section \<open>Players come and go\<close>

lemma blank_trade:
  assumes pr: "paired T" and p: "T p = None \<or> T p = Some None" and y: "y = None \<or> y = Some None"
  shows "paired (T(p := y))" and "honest X T (T(p := y))"
proof -
  have o: "offer_in (T(p := y)) r = offer_in T r" for r using p y by (auto simp: offer_in_def)
  show "honest X T (T(p := y))" using y by (auto simp: honest_def o split: if_splits)
  show "paired (T(p := y))"
    unfolding paired_def
  proof (intro allI impI)
    fix r d assume "(T(p := y)) r = Some (Some d)"
    then have r: "T r = Some (Some d)" using y by (auto split: if_splits)
    then obtain d' where "td_trader d \<noteq> r" "T (td_trader d) = Some (Some d')" "td_trader d' = r" using pr unfolding paired_def by blast
    with p show "td_trader d \<noteq> r \<and> (\<exists>d'. (T(p := y)) (td_trader d) = Some (Some d') \<and> td_trader d' = r)" by auto
  qed
qed

lemma honest_open:
  assumes pr: "paired T" and pq: "T p = Some None" "T q = Some None" "p \<noteq> q"
  shows "paired (T(p := Some (Some (trade_data_new q)), q := Some (Some (trade_data_new p))))" 
    and "honest X T (T(p := Some (Some (trade_data_new q)), q := Some (Some (trade_data_new p))))"
proof -
  let ?T = "T(p := Some (Some (trade_data_new q)), q := Some (Some (trade_data_new p)))"
  have away: "T r = Some (Some d) \<and> td_trader d \<noteq> p \<and> td_trader d \<noteq> q" if "?T r = Some (Some d)" "r \<noteq> p" "r \<noteq> q" for r d
  proof -
    have r: "T r = Some (Some d)" using that by simp
    then obtain d' where "T (td_trader d) = Some (Some d')" using pr unfolding paired_def by blast
    with r pq show ?thesis by auto
  qed
  show "paired ?T"
    unfolding paired_def
  proof (intro allI impI)
    fix r d assume r: "?T r = Some (Some d)"
    show "td_trader d \<noteq> r \<and> (\<exists>d'. ?T (td_trader d) = Some (Some d') \<and> td_trader d' = r)"
    proof (cases "r = p \<or> r = q")
      case True
      with r pq(3) show ?thesis by (auto simp: trade_data_new_def)
    next
      case False
      with away [OF r] pr show ?thesis unfolding paired_def by fastforce
    qed
  qed
  show "honest X T ?T"
    unfolding honest_def
  proof (intro allI impI)
    fix r d assume r: "?T r = Some (Some d)" "td_accepted d"
    then have "r \<noteq> p" "r \<noteq> q" by (auto simp: trade_data_new_def split: if_splits)
    from away [OF r(1) this] r(2) show "\<exists>e. T r = Some (Some e) \<and> td_accepted e \<and> unflagged d = unflagged e \<and>
        offer_in ?T (td_trader e) = offer_in T (td_trader e)"
      by (intro exI [of _ d]) (simp add: offer_in_def)
  qed
qed

lemma tame_cancel_notice: "trades w p = Some x \<Longrightarrow> tame w (send_cancel_trade p w)"
  unfolding send_cancel_trade_def by (rule tame_player) (auto intro: tame_status tame_same)

lemma trade_cancel_safe:
  fixes w :: "'inv trade_world"
  assumes pr: "paired (trades w)" and x: "trades w p = Some x"
  shows "safe (trade_cancel p b w)
    (\<lambda>w'. trades w' = (case x of None \<Rightarrow> trades w | Some d \<Rightarrow> (trades w)(p := Some None, td_trader d := Some None)))"
proof (cases x)
  case None
  with x show ?thesis unfolding trade_cancel_def by (auto intro!: trade_of_safe)
next
  case (Some d)
  note p = x [unfolded Some]
  obtain d' where q: "trades w (td_trader d) = Some (Some d')" "td_trader d \<noteq> p" using pr p unfolding paired_def by blast
  have sends: "tame w (chain [if b then send_cancel_trade p else Inr, send_cancel_trade (td_trader d)] w)"
  proof (rule tame_chain)
    fix f :: "'inv trade_world \<Rightarrow> 'inv trade_world trade_result" and w' :: "'inv trade_world"
    assume f: "f \<in> set [if b then send_cancel_trade p else Inr, send_cancel_trade (td_trader d)]" and w': "trades w' = trades w"
    show "tame w' (f w')"
      using f tame_cancel_notice [OF p [folded w']] tame_cancel_notice [OF q(1) [folded w']] by (auto simp: tame_same split: if_splits)
  qed
  have close: "safe (chain [set_trade (td_trader d) None, set_trade p None] w')
      (\<lambda>w2. trades w2 = (trades w)(p := Some None, td_trader d := Some None))" if w': "trades w' = trades w" for w' :: "'inv trade_world"
    unfolding safe_chain
    by (rule set_trade_safe [OF q(1) [folded w']], rule set_trade_safe [where x = "Some d"])
      (use p q(2) w' in \<open>simp_all add: fun_upd_twist\<close>)
  have "safe (sum_bind (chain [if b then send_cancel_trade p else Inr, send_cancel_trade (td_trader d)] w)
      (chain [set_trade (td_trader d) None, set_trade p None])) (\<lambda>w2. trades w2 = (trades w)(p := Some None, td_trader d := Some None))"
    unfolding safe_bind by (rule safe_mono [OF sends [unfolded tame_def]]) (rule close)
  then show ?thesis
    unfolding trade_cancel_def safe_bind Some option.case
    by (intro trade_of_safe [OF p]) simp
qed

lemma steps_trade_cancel:
  assumes pr: "paired (trades w)" and x: "trades w p = Some x"
  shows "steps X w (trade_cancel p b w)"
  unfolding steps_def
  by (rule safe_mono [OF trade_cancel_safe [OF assms]])
    (use pr x honest_close [OF pr] in \<open>auto simp: honest_def split: option.splits\<close>)

lemma steps_leave_world:
  fixes w :: "'inv trade_world"
  assumes pr: "paired (trades w)" and x: "trades w p = Some x"
  shows "steps X w (leave_world p w)"
  unfolding steps_def leave_world_def safe_simps
proof (rule safe_mono [OF trade_cancel_safe [OF assms]])
  fix w' :: "'inv trade_world"
  assume w': "trades w' = (case x of None \<Rightarrow> trades w | Some d \<Rightarrow> (trades w)(p := Some None, td_trader d := Some None))"
  have h: "paired (trades w') \<and> honest X (trades w) (trades w') \<and> trades w' p = Some None"
    using pr x honest_close [OF pr] by (auto simp: w' honest_def split: option.splits)
  have "trades (w'\<lparr>tw_players := om_erase p (tw_players w')\<rparr>) = (trades w')(p := None)" by (auto simp: trades_def)
  with h blank_trade(1) [of "trades w'" p None] blank_trade(2) [of "trades w'" p None X] show "paired (trades (w'\<lparr>tw_players := om_erase p (tw_players w')\<rparr>)) \<and>
      honest X (trades w) (trades (w'\<lparr>tw_players := om_erase p (tw_players w')\<rparr>))"
    by (auto intro: honest_trans)
qed

lemma steps_initiate_trade:
  fixes w :: "'inv trade_world"
  assumes pr: "paired (trades w)" and x: "trades w p = Some x"
  shows "steps X w (initiate_trade env p q w)"
proof -
  have say: "steps X w (send_trade_status p st w)" for st by (rule steps_tame [OF tame_status [OF x] pr])
  have begin': "steps X w (chain [set_trade p (Some (trade_data_new q)), set_trade q (Some (trade_data_new p)),
      send_trade_status_with q TRADE_STATUS_PROPOSED sd] w)"
    if pq: "trades w p = Some None" "trades w q = Some None" "p \<noteq> q" for sd
    unfolding steps_def safe_chain
  proof (rule set_trade_safe [OF pq(1)], rule set_trade_safe [where x = None])
    fix w1 :: "'inv trade_world"
    assume w1: "trades w1 = (trades w)(p := Some (Some (trade_data_new q)))"
    show "trades w1 q = Some None" using pq by (simp add: w1)
    fix w2 :: "'inv trade_world"
    assume w2: "trades w2 = (trades w1)(q := Some (Some (trade_data_new p)))"
    show "safe (send_trade_status_with q TRADE_STATUS_PROPOSED sd w2) (\<lambda>w'. paired (trades w') \<and> honest X (trades w) (trades w'))"
      by (rule send_trade_status_safe(1) [where x = "Some (trade_data_new p)"])
        (use honest_open [OF pr pq] in \<open>simp_all add: w2 w1\<close>)
  qed
  have open': "steps X w (chain [set_trade p (Some (trade_data_new q)), set_trade q (Some (trade_data_new p)),
      send_trade_status_with q TRADE_STATUS_PROPOSED sd] w)"
    if "x = None" "om_get (tw_players w) q = Some t" "tr_trade t = None" "q \<noteq> p" for sd t
    by (rule begin') (use that x in \<open>simp_all add: trades_def\<close>)
  note same = steps_same [OF pr, of X]
  show ?thesis
    unfolding initiate_trade_def
    by (rule steps_player [OF x], cases "te_in_world env q"; cases "om_get (tw_players w) q") (simp_all add: say same open' del: chain.simps)
qed

lemma steps_offer_item:
  fixes w :: "'inv trade_world"
  assumes pr: "paired (trades w)" and x: "trades w p = Some x"
  shows "steps X w (offer_item env p t s bag w)" and "steps X w (clear_item env p t w)"
    and "\<forall>e. get_u64 packet \<noteq> Inl e \<Longrightarrow> steps X w (handle_set_trade_gold env p packet w)"
    and "steps X w (handle_unaccept_trade p w)" and "steps X w (handle_begin_trade p w)"
    and "steps X w (sum_bind (cast_on_trade iv p slot' spell cast w) (\<lambda>(_, w). Inr w))"
proof -
  have say: "steps X w (send_trade_status p st w)" for st by (rule steps_tame [OF tame_status [OF x] pr])
  have own: "steps X w (set_trade_item iv p i g w)" "steps X w (set_trade_money iv p m w)"
    "steps X w (set_accepted p False c w)" "steps X w (set_trade_spell iv p sp it w)"
    if "x = Some d" for d iv i g m c sp it
    by (rule keeps_steps [OF keeps_set_item [OF pr x [unfolded that]] pr],
        rule keeps_steps [OF keeps_set_money [OF pr x [unfolded that]] pr],
        rule keeps_steps [OF keeps_set_accepted [OF pr x [unfolded that]] pr], simp,
        rule keeps_steps [OF keeps_set_spell [OF pr x [unfolded that]] pr])
  note same = steps_same [OF pr, of X]
  show "steps X w (offer_item env p t s bag w)"
    unfolding offer_item_def
    by (rule steps_player [OF x]) (auto simp: Let_def say same own split: option.splits)
  show "steps X w (clear_item env p t w)"
    unfolding clear_item_def
    by (rule steps_of [OF x], cases x) (simp_all add: same own)
  have "steps X w (sum_bind (trade_of p w) (case_option (Inr w) (\<lambda>_. set_trade_money (te_storage env) p g w)))" for g
    by (rule steps_of [OF x], cases x) (simp_all add: same own)
  then show "\<forall>e. get_u64 packet \<noteq> Inl e \<Longrightarrow> steps X w (handle_set_trade_gold env p packet w)"
    by (cases "get_u64 packet") (auto simp: handle_set_trade_gold_def)
  show "steps X w (handle_unaccept_trade p w)"
    unfolding handle_unaccept_trade_def
    by (rule steps_of [OF x], cases x) (simp_all add: same own)
  show "steps X w (handle_begin_trade p w)"
    unfolding handle_begin_trade_def
  proof (rule steps_of [OF x], cases x)
    case (Some d)
    obtain d' where q: "trades w (td_trader d) = Some (Some d')" using pr x Some unfolding paired_def by blast
    have "tame w (chain [send_trade_status (td_trader d) TRADE_STATUS_INITIATED, send_trade_status p TRADE_STATUS_INITIATED] w)"
    proof (rule tame_chain)
      fix f :: "'inv trade_world \<Rightarrow> 'inv trade_world trade_result" and w' :: "'inv trade_world"
      assume f: "f \<in> set [send_trade_status (td_trader d) TRADE_STATUS_INITIATED, send_trade_status p TRADE_STATUS_INITIATED]" and w': "trades w' = trades w"
      show "tame w' (f w')" using f tame_status [OF x [folded w']] tame_status [OF q [folded w']] by auto
    qed
    then show "steps X w (case x of None \<Rightarrow> Inr w
        | Some d \<Rightarrow> chain [send_trade_status (td_trader d) TRADE_STATUS_INITIATED, send_trade_status p TRADE_STATUS_INITIATED] w)"
      using steps_tame pr Some by (simp del: chain.simps)
  qed (simp add: steps_same pr)
  show "steps X w (sum_bind (cast_on_trade iv p slot' spell cast w) (\<lambda>(_, w). Inr w))"
    unfolding cast_on_trade_def sum_bind_assoc
    by (rule steps_of [OF x], cases x)
      (use own(4) same in \<open>auto simp: steps_def\<close>)
qed

section \<open>Every run\<close>

text \<open>Whoever accepts with a step, if anyone.\<close>

fun accepting :: "'inv trade_op \<Rightarrow> u64 set" where
  "accepting (AcceptTrade p _) = {p}"
| "accepting _ = {}"

lemma steps_put: "paired (trades w) \<Longrightarrow> trades w p = Some (tr_trade t) \<Longrightarrow> steps X w (Inr (put_player p t w))"
  unfolding steps_def by (auto simp: fun_upd_idem honest_def)

text \<open>A request too short for what its handler reads.\<close>

fun unreadable :: "'inv trade_op \<Rightarrow> bool" where
  "unreadable (AcceptTrade _ packet) = isl (read_skip 4 packet)"
| "unreadable (InitiateTrade _ packet) = isl (read_initiate_trade packet)"
| "unreadable (SetTradeGold _ packet) = isl (get_u64 packet)"
| "unreadable (SetTradeItem _ packet) =
     isl (sum_bind (get_u8 packet) (\<lambda>(t, b). sum_bind (get_u8 b) (\<lambda>(s, b). sum_bind (get_u8 b) (\<lambda>(g, b). Inr (t, s, g)))))"
| "unreadable (ClearTradeItem _ packet) = isl (get_u8 packet)"
| "unreadable _ = False"

lemma steps_trade_step:
  fixes w :: "'inv trade_world"
  assumes pr: "paired (trades w)" and readable: "\<not> unreadable x"
  shows "steps (accepting x) w (trade_step env x w)"
proof (cases "om_get (tw_players w) (op_player x)")
  case None
  then have "trades w (op_player x) = None" by (simp add: trades_def)
  then show ?thesis using None pr blank_trade [of "trades w" "op_player x" "Some None"]
    by (cases x) (auto simp: trade_step_def enter_world_def steps_def honest_def [of _ "trades w" "trades w"])
next
  case (Some t)
  then have at: "trades w (op_player x) = Some (tr_trade t)" by (simp add: trades_def)
  have other: "steps Y w (other_change p f w)" if "op_player x = p" for Y p f
    unfolding other_change_def using at that by (intro steps_player steps_put) (auto simp: pr)
  show ?thesis
    using Some at readable by (cases x)
      (auto simp: trade_step_def handle_accept_trade_def handle_cancel_trade_def handle_initiate_trade_def
        handle_set_trade_item_def handle_clear_trade_item_def other isl_def split: sum.splits prod.splits
        intro: steps_offer_item [OF pr] steps_initiate_trade [OF pr] steps_accept_trade [OF pr] steps_trade_cancel [OF pr] steps_leave_world [OF pr]
        steps_same [OF pr])
qed

lemma unread_step: "unreadable x \<Longrightarrow> trade_step env x w = Inr w \<or> (\<exists>b. trade_step env x w = Inl (TradePacketError b))"
  by (cases x) (auto simp: trade_step_def handle_accept_trade_def handle_initiate_trade_def handle_set_trade_gold_def
      handle_set_trade_item_def handle_clear_trade_item_def isl_def)

lemma paired_run: "paired (trades w) \<Longrightarrow> \<exists>w'. trade_run xs w = Inr w' \<and> paired (trades w')"
proof (induction xs arbitrary: w)
  case (Cons ex xs)
  obtain env x where ex: "ex = (env, x)" by (cases ex)
  show ?case
  proof (cases "unreadable x")
    case True
    with unread_step [of x env w] Cons show ?thesis by (auto simp: ex)
  next
    case False
    with steps_trade_step [OF Cons.prems, of x env] obtain w1 where "trade_step env x w = Inr w1" "paired (trades w1)"
      by (auto simp: steps_def safe_def split: sum.splits)
    with Cons.IH show ?thesis by (simp add: ex)
  qed
qed simp

lemma paired_new: "paired (trades trade_world_new)"
  by (simp add: paired_def trades_def trade_world_new_def)

text \<open>
  C4: whatever players do, and in whatever order, no handler follows a pointer to a player who is gone
  or to a trade that is not there: every run has a result, in it the trades come in pairs, and the next
  step fails only if its request is too short, before anything has changed.\<close>
theorem trades_never_dangle:
  "\<exists>w. trade_run xs trade_world_new = Inr w \<and> paired (trades w) \<and>
     (case trade_step env x w of Inl e \<Rightarrow> e \<noteq> TradeFault \<and> unreadable x | Inr w' \<Rightarrow> paired (trades w'))"
proof -
  obtain w where w: "trade_run xs trade_world_new = Inr w" "paired (trades w)" using paired_run [OF paired_new] by blast
  moreover have "case trade_step env x w of Inl e \<Rightarrow> e \<noteq> TradeFault \<and> unreadable x | Inr w' \<Rightarrow> paired (trades w')"
    using unread_step [of x env w] steps_trade_step [OF w(2), of x env] w(2)
    by (cases "unreadable x") (auto simp: steps_def safe_def split: sum.splits)
  ultimately show ?thesis by blast
qed

text \<open>
  C5: in every reachable world, a step leaves a player's acceptance standing only if it stood before and
  neither that player's offer nor the partner's has changed since; only a player's own acceptance sets it.\<close>
theorem acceptance_means_present_offers:
  "\<exists>w. trade_run xs trade_world_new = Inr w \<and>
     (case trade_step env x w of Inl _ \<Rightarrow> unreadable x | Inr w' \<Rightarrow> honest (accepting x) (trades w) (trades w'))"
proof -
  obtain w where w: "trade_run xs trade_world_new = Inr w" "paired (trades w)" using paired_run [OF paired_new] by blast
  have "honest Y T T" for Y T by (auto simp: honest_def)
  then have "case trade_step env x w of Inl _ \<Rightarrow> unreadable x | Inr w' \<Rightarrow> honest (accepting x) (trades w) (trades w')"
    using unread_step [of x env w] steps_trade_step [OF w(2), of x env]
    by (cases "unreadable x") (auto simp: steps_def safe_def split: sum.splits)
  with w show ?thesis by blast
qed

end
