(* ===== verification/TradeExchange.thy ===== *)
theory TradeExchange
  imports TradeSafety
begin

text \<open>
  What an accepted trade does to the two players: the money and the items change hands as the pure
  function \<open>exchange\<close> says. Two gaps of the protocol follow: an offered item that has left the inventory
  is paid for all the same, and an acceptance sent before the offer changed counts for the new offer.
\<close>

section \<open>Outcomes\<close>

lemma ends_then: "safe m P \<Longrightarrow> (\<And>x. P x \<Longrightarrow> safe (f x) Q) \<Longrightarrow> safe (sum_bind m f) Q"
  by (auto elim: safe_mono)

lemma ends_chain: "safe (f w) P \<Longrightarrow> (\<And>w. P w \<Longrightarrow> safe (chain fs w) Q) \<Longrightarrow> safe (chain (f # fs) w) Q"
  by (auto elim: safe_mono)

lemma ends_result: "safe m Q \<Longrightarrow> \<exists>x. m = Inr x \<and> Q x"
  by (cases m) simp_all

section \<open>Two players\<close>

definition between :: "(u64 \<Rightarrow> 'inv trader option) \<Rightarrow> u64 \<Rightarrow> u64 \<Rightarrow> 'inv trader \<Rightarrow> 'inv trader \<Rightarrow> 'inv trade_world \<Rightarrow> bool" where
  "between L p q me other w \<longleftrightarrow> p \<noteq> q \<and> om_get (tw_players w) = L(p \<mapsto> me, q \<mapsto> other)"

lemma between_swap: "between L p q me other = between L q p other me"
  by (rule ext) (auto simp: between_def fun_upd_twist)

lemma between_player: "between L p q me other w \<Longrightarrow> player_at p w = Inr me" "between L p q me other w \<Longrightarrow> player_at q w = Inr other"
  by (auto simp: between_def player_at_def)

lemma between_trade:
  "between L p q me other w \<Longrightarrow> tr_trade me = Some d \<Longrightarrow> trade_at p w = Inr d"
  "between L p q me other w \<Longrightarrow> tr_trade other = Some d' \<Longrightarrow> trade_at q w = Inr d'"
  by (simp_all add: trade_at_def trade_of_def between_player)

lemma between_put:
  assumes "between L p q me other w"
  shows "between L p q me' other (put_player p me' w)"
proof -
  have "om_get (tw_players (put_player p me' w)) = (om_get (tw_players w))(p \<mapsto> me')" by (rule ext) (simp add: put_player_def)
  then show ?thesis using assms fun_upd_twist [of p q "om_get (tw_players w)"] by (auto simp: between_def fun_upd_twist)
qed

lemma between_emit: "between L p q me other (trade_emit x w) = between L p q me other w"
  by (simp add: between_def trade_emit_def)

lemma ends_set_trade: "between L p q me other w \<Longrightarrow> safe (set_trade p d w) (between L p q (me\<lparr>tr_trade := d\<rparr>) other)"
  by (simp add: set_trade_def between_player(1) between_put)

lemma ends_change_inv: "between L p q me other w \<Longrightarrow> safe (change_inv p f w) (between L p q (me\<lparr>tr_inv := f (tr_inv me)\<rparr>) other)"
  by (simp add: change_inv_def between_player(1) between_put)

lemma ends_money:
  "between L p q me other w \<Longrightarrow>
     safe (player_modify_money p c w) (between L p q (me\<lparr>tr_money := modify_money c (tr_money me)\<rparr>) other)"
  by (simp add: player_modify_money_def between_player(1) between_put between_emit Let_def)

lemma ends_status: "between L p q me other w \<Longrightarrow> safe (send_trade_status p st w) (between L p q me other)"
  using build_status_total [of st status_data_new "world_packet_new 0"]
  by (auto simp: send_trade_status_def send_trade_status_with_def between_player(1) between_emit)

lemma ends_in_accept:
  "between L p q me other w \<Longrightarrow> tr_trade me = Some d \<Longrightarrow>
     safe (set_in_accept p b w) (between L p q (me\<lparr>tr_trade := Some (d\<lparr>td_in_accept := b\<rparr>)\<rparr>) other)"
  by (simp add: set_in_accept_def between_trade(1) ends_set_trade)

section \<open>The exchange of items\<close>

definition stored :: "('inv, 'dest) item_storage \<Rightarrow> 'dest \<Rightarrow> trade_item option \<Rightarrow> 'inv \<Rightarrow> 'inv" where
  "stored iv dst x bag = (case x of None \<Rightarrow> bag | Some i \<Rightarrow> iv_store iv dst i bag)"

definition returned :: "('inv, 'dest) item_storage \<Rightarrow> 'dest \<Rightarrow> trade_item option \<Rightarrow> 'inv \<Rightarrow> 'inv" where
  "returned iv dst x bag =
     (case x of None \<Rightarrow> bag
      | Some i \<Rightarrow> (let (ok, dst') = iv_can_store iv bag dst i in if ok then iv_store iv dst' i bag else bag))"

definition removed :: "('inv, 'dest) item_storage \<Rightarrow> trade_item option \<Rightarrow> 'inv \<Rightarrow> 'inv" where
  "removed iv x bag = (case x of None \<Rightarrow> bag | Some i \<Rightarrow> iv_remove iv i bag)"

fun exchange_slot :: "('inv, 'dest) item_storage \<Rightarrow> trade_item option \<times> trade_item option \<Rightarrow> 'inv \<times> 'inv \<Rightarrow> 'inv \<times> 'inv" where
  "exchange_slot iv (mine, his) (a, b) =
     (let (b_takes, dst_b) = can_take iv b mine; (a_takes, dst_a) = can_take iv a his
      in if b_takes \<and> a_takes then (stored iv dst_a his a, stored iv dst_b mine b)
         else (returned iv dst_a mine a, returned iv dst_b his b))"

definition exchange :: "('inv, 'dest) item_storage \<Rightarrow> u64 \<Rightarrow> u64 \<Rightarrow> trade_item option list \<Rightarrow> trade_item option list \<Rightarrow> 'inv \<times> 'inv \<Rightarrow> 'inv \<times> 'inv" where
  "exchange iv p q mine his ab =
     fold (exchange_slot iv) (zip (map (gift_of p) mine) (map (gift_of q) his))
       (fold (removed iv) mine (fst ab), fold (removed iv) his (snd ab))"

lemma ends_remove:
  "between L p q me other w \<Longrightarrow> safe (remove_offered iv p x w) (between L p q (me\<lparr>tr_inv := removed iv x (tr_inv me)\<rparr>) other)"
  by (cases x) (simp_all add: remove_offered_def removed_def ends_change_inv)

lemma ends_hand_over:
  "between L p q me other w \<Longrightarrow> safe (hand_over iv p dst x w) (between L p q (me\<lparr>tr_inv := stored iv dst x (tr_inv me)\<rparr>) other)"
  by (cases x) (simp_all add: hand_over_def stored_def ends_change_inv)

lemma ends_give_back:
  "between L p q me other w \<Longrightarrow> safe (give_back iv p dst x w) (between L p q (me\<lparr>tr_inv := returned iv dst x (tr_inv me)\<rparr>) other)"
  by (cases x) (auto simp: give_back_def returned_def between_player(1) Let_def split: prod.split intro: ends_change_inv)

text \<open>The same for the second of the two.\<close>

lemma ends_second:
  fixes w :: "'inv trade_world"
  assumes w: "between L p q me other w"
  shows "safe (set_trade q d w) (between L p q me (other\<lparr>tr_trade := d\<rparr>))"
    and "safe (player_modify_money q c w) (between L p q me (other\<lparr>tr_money := modify_money c (tr_money other)\<rparr>))"
    and "safe (send_trade_status q st w) (between L p q me other)"
    and "tr_trade other = Some e \<Longrightarrow>
      safe (set_in_accept q b w) (between L p q me (other\<lparr>tr_trade := Some (e\<lparr>td_in_accept := b\<rparr>)\<rparr>))"
    and "safe (remove_offered iv q x w) (between L p q me (other\<lparr>tr_inv := removed iv x (tr_inv other)\<rparr>))"
    and "safe (hand_over iv q dst x w) (between L p q me (other\<lparr>tr_inv := stored iv dst x (tr_inv other)\<rparr>))"
    and "safe (give_back iv q dst x w) (between L p q me (other\<lparr>tr_inv := returned iv dst x (tr_inv other)\<rparr>))"
proof -
  note v = w [unfolded between_swap [of L p q]]
  show "safe (set_trade q d w) (between L p q me (other\<lparr>tr_trade := d\<rparr>))"
    and "safe (player_modify_money q c w) (between L p q me (other\<lparr>tr_money := modify_money c (tr_money other)\<rparr>))"
    and "safe (send_trade_status q st w) (between L p q me other)"
    and "tr_trade other = Some e \<Longrightarrow>
      safe (set_in_accept q b w) (between L p q me (other\<lparr>tr_trade := Some (e\<lparr>td_in_accept := b\<rparr>)\<rparr>))"
    and "safe (remove_offered iv q x w) (between L p q me (other\<lparr>tr_inv := removed iv x (tr_inv other)\<rparr>))"
    and "safe (hand_over iv q dst x w) (between L p q me (other\<lparr>tr_inv := stored iv dst x (tr_inv other)\<rparr>))"
    and "safe (give_back iv q dst x w) (between L p q me (other\<lparr>tr_inv := returned iv dst x (tr_inv other)\<rparr>))"
    unfolding between_swap [of L p q]
    by (rule ends_set_trade [OF v], rule ends_money [OF v], rule ends_status [OF v], rule ends_in_accept [OF v], assumption,
        rule ends_remove [OF v], rule ends_hand_over [OF v], rule ends_give_back [OF v])
qed

lemma ends_move_slot:
  fixes w :: "'inv trade_world"
  assumes w: "between L p q me other w"
  shows "safe (move_slot iv p q (mine, his) w)
    (between L p q (me\<lparr>tr_inv := fst (exchange_slot iv (mine, his) (tr_inv me, tr_inv other))\<rparr>)
       (other\<lparr>tr_inv := snd (exchange_slot iv (mine, his) (tr_inv me, tr_inv other))\<rparr>))"
proof -
  have go: "safe (chain [hand_over iv q e mine, hand_over iv p c his] w)
      (between L p q (me\<lparr>tr_inv := stored iv c his (tr_inv me)\<rparr>) (other\<lparr>tr_inv := stored iv e mine (tr_inv other)\<rparr>))" for c e
    by (rule ends_chain, rule ends_second(6) [OF w], rule ends_chain, erule ends_hand_over) simp
  have undo: "safe (chain [give_back iv p c mine, give_back iv q e his] w)
      (between L p q (me\<lparr>tr_inv := returned iv c mine (tr_inv me)\<rparr>) (other\<lparr>tr_inv := returned iv e his (tr_inv other)\<rparr>))" for c e
    by (rule ends_chain, rule ends_give_back [OF w], rule ends_chain, erule ends_second(7)) simp
  show ?thesis
    using go undo
    by (auto simp: move_slot_def between_player [OF w] Let_def simp del: chain.simps safe_chain split: prod.split)
qed

lemma ends_move_items:
  fixes w :: "'inv trade_world"
  assumes "between L p q me other w" and "length xs = length ys"
    and "r = fold (exchange_slot iv) (zip xs ys) (tr_inv me, tr_inv other)"
  shows "safe (move_items iv p q xs ys w) (between L p q (me\<lparr>tr_inv := fst r\<rparr>) (other\<lparr>tr_inv := snd r\<rparr>))"
  using assms(2,1,3)
proof (induction xs ys arbitrary: me other w r rule: list_induct2)
  case Nil
  then show ?case by (simp add: move_items_def)
next
  case (Cons x xs y ys)
  show ?case
    unfolding move_items_def zip_Cons_Cons list.map
  proof (rule ends_chain, rule ends_move_slot [OF Cons.prems(1)])
    fix w1 :: "'inv trade_world"
    let ?r = "exchange_slot iv (x, y) (tr_inv me, tr_inv other)"
    assume "between L p q (me\<lparr>tr_inv := fst ?r\<rparr>) (other\<lparr>tr_inv := snd ?r\<rparr>) w1"
    from Cons.IH [OF this refl] Cons.prems(2)
    show "safe (chain (map (move_slot iv p q) (zip xs ys)) w1) (between L p q (me\<lparr>tr_inv := fst r\<rparr>) (other\<lparr>tr_inv := snd r\<rparr>))"
      by (simp add: move_items_def)
  qed
qed

lemma ends_removals:
  fixes w :: "'inv trade_world"
  assumes "between L p q me other w" and "length xs = length ys"
  shows "safe (chain (concat (map (\<lambda>(mine, his). [remove_offered iv p mine, remove_offered iv q his]) (zip xs ys))) w)
    (between L p q (me\<lparr>tr_inv := fold (removed iv) xs (tr_inv me)\<rparr>) (other\<lparr>tr_inv := fold (removed iv) ys (tr_inv other)\<rparr>))"
  using assms(2,1)
proof (induction xs ys arbitrary: me other w rule: list_induct2)
  case (Cons x xs y ys)
  let ?rest = "concat (map (\<lambda>(mine, his). [remove_offered iv p mine, remove_offered iv q his]) (zip xs ys))"
  have "safe (chain (remove_offered iv p x # remove_offered iv q y # ?rest) w)
    (between L p q (me\<lparr>tr_inv := fold (removed iv) (x # xs) (tr_inv me)\<rparr>) (other\<lparr>tr_inv := fold (removed iv) (y # ys) (tr_inv other)\<rparr>))"
    by (rule ends_chain, rule ends_remove [OF Cons.prems], rule ends_chain, erule ends_second(5), drule Cons.IH) simp
  then show ?case by simp
qed simp

section \<open>An accepted trade\<close>

text \<open>What is left of a player after the trade.\<close>

definition settled :: "'inv \<Rightarrow> u64 \<Rightarrow> u64 \<Rightarrow> 'inv trader \<Rightarrow> 'inv trader" where
  "settled bag pays gets t =
     t\<lparr>tr_inv := bag, tr_money := modify_money (sint gets) (modify_money (- sint pays) (tr_money t)), tr_trade := None\<rparr>"

lemma ends_complete_trade:
  fixes w :: "'inv trade_world"
  assumes w: "between L p q me other w" and d: "tr_trade me = Some d" and d': "tr_trade other = Some d'"
    and len: "length xs = length ys" and r: "r = exchange (te_storage env) p q xs ys (tr_inv me, tr_inv other)"
  shows "safe (complete_trade env p q xs ys w)
    (between L p q (settled (fst r) (td_money d) (td_money d') me) (settled (snd r) (td_money d') (td_money d) other))"
proof -
  let ?rm = "concat (map (\<lambda>(mine, his). [remove_offered (te_storage env) p mine, remove_offered (te_storage env) q his]) (zip xs ys))"
  let ?rest = "[move_items (te_storage env) p q (map (gift_of p) xs) (map (gift_of q) ys),
        player_modify_money p (- sint (td_money d)), player_modify_money p (sint (td_money d')),
        player_modify_money q (- sint (td_money d')), player_modify_money q (sint (td_money d)),
        Inr \<circ> start_spell p (td_spell d), Inr \<circ> start_spell q (td_spell d'),
        leave_accept p q, set_trade p None, set_trade q None,
        Inr \<circ> trade_emit (TradeSaved p q),
        send_trade_status q TRADE_STATUS_COMPLETE, send_trade_status p TRADE_STATUS_COMPLETE]"
  have spell: "safe ((Inr \<circ> start_spell s n) w') (between L p q a b)" if "between L p q a b w'" for s n a b and w' :: "'inv trade_world"
    using that by (simp add: start_spell_def between_emit)
  have emit: "safe ((Inr \<circ> trade_emit x) w') (between L p q a b)" if "between L p q a b w'" for x a b and w' :: "'inv trade_world"
    using that by (simp add: between_emit)
  have leave: "safe (leave_accept p q w') (between L p q (a\<lparr>tr_trade := Some (x\<lparr>td_in_accept := False\<rparr>)\<rparr>) (b\<lparr>tr_trade := Some (y\<lparr>td_in_accept := False\<rparr>)\<rparr>))"
    if "between L p q a b w'" "tr_trade a = Some x" "tr_trade b = Some y" for a b x y and w' :: "'inv trade_world"
    unfolding leave_accept_def
    by (rule ends_chain, rule ends_in_accept [OF that(1,2)], rule ends_chain, erule ends_second(4)) (simp_all add: that)
  have "safe (chain ?rest w1) (between L p q (settled (fst r) (td_money d) (td_money d') me) (settled (snd r) (td_money d') (td_money d) other))"
    if w1: "between L p q (me\<lparr>tr_inv := fold (removed (te_storage env)) xs (tr_inv me)\<rparr>) (other\<lparr>tr_inv := fold (removed (te_storage env)) ys (tr_inv other)\<rparr>) w1"
    for w1 :: "'inv trade_world"
    by (rule ends_chain, rule ends_move_items [OF w1 _ refl], simp add: len,
        rule ends_chain, erule ends_money, rule ends_chain, erule ends_money,
        rule ends_chain, erule ends_second(2), rule ends_chain, erule ends_second(2),
        rule ends_chain, erule spell, rule ends_chain, erule spell,
        rule ends_chain, erule leave, simp add: d, simp add: d',
        rule ends_chain, erule ends_set_trade, rule ends_chain, erule ends_second(1),
        rule ends_chain, erule emit, rule ends_chain, erule ends_second(3), rule ends_chain, erule ends_status)
      (simp add: settled_def r exchange_def)
  with ends_removals [OF w len, of "te_storage env"]
  have "safe (sum_bind (chain ?rm w) (chain ?rest)) (between L p q (settled (fst r) (td_money d) (td_money d') me) (settled (snd r) (td_money d') (td_money d) other))"
    by (rule ends_then)
  then show ?thesis
    unfolding complete_trade_def
    by (simp add: between_trade [OF w] d d' Let_def chain_append del: chain.simps safe_bind safe_chain)
qed

text \<open>Nothing stands in the way of the trade of \<open>me\<close>, once \<open>me\<close> accepts.\<close>

definition agreed :: "('inv, 'dest) trade_env \<Rightarrow> u64 \<Rightarrow> 'inv trader \<Rightarrow> trade_data \<Rightarrow> 'inv trader \<Rightarrow> trade_data \<Rightarrow> bool" where
  "agreed env p me d other d' \<longleftrightarrow>
     (let iv = te_storage env; mine = offered iv (tr_inv me) d; his = offered iv (tr_inv other) d';
          inTrade = guids_of mine @ guids_of his
      in td_accepted d' \<and> te_trade_range env p (td_trader d) \<and>
         td_money d \<le> tr_money me \<and> td_money d' \<le> tr_money other \<and>
         list_all (tradable iv (tr_inv me)) mine \<and> list_all (tradable iv (tr_inv other)) his \<and>
         td_spell d = 0 \<and> td_spell d' = 0 \<and>
         iv_can_store_all iv inTrade (tr_inv me) his \<and> iv_can_store_all iv inTrade (tr_inv other) mine)"

lemma offered_flags [simp]:
  "offered iv bag (d\<lparr>td_accepted := a\<rparr>) = offered iv bag d" "offered iv bag (d\<lparr>td_in_accept := a\<rparr>) = offered iv bag d"
  by (simp_all add: offered_def trade_get_item_def)

lemma length_offered [simp]: "length (offered iv bag d) = TRADE_SLOT_TRADED_COUNT"
  by (simp add: offered_def)

definition exchanged :: "('inv, 'dest) trade_env \<Rightarrow> u64 \<Rightarrow> u64 \<Rightarrow> 'inv trader \<Rightarrow> trade_data \<Rightarrow> 'inv trader \<Rightarrow> trade_data \<Rightarrow> 'inv \<times> 'inv" where
  "exchanged env p q me d other d' =
     (let iv = te_storage env
      in exchange iv p q (offered iv (tr_inv me) d) (offered iv (tr_inv other) d') (tr_inv me, tr_inv other))"

lemma ends_accept_trade:
  fixes w :: "'inv trade_world"
  assumes w: "between L p q me other w" and d: "tr_trade me = Some d" "td_trader d = q"
    and d': "tr_trade other = Some d'" and a: "agreed env p me d other d'"
  shows "safe (accept_trade env p w)
    (between L p q (settled (fst (exchanged env p q me d other d')) (td_money d) (td_money d') me)
       (settled (snd (exchanged env p q me d other d')) (td_money d') (td_money d) other))"
    (is "safe _ ?Q")
proof -
  note ok = a [unfolded agreed_def Let_def]
  let ?d = "d\<lparr>td_accepted := True, td_in_accept := True\<rparr>" and ?d' = "d'\<lparr>td_in_accept := True\<rparr>"
  have start: "safe (chain [set_in_accept p True, set_in_accept q True] w1) (between L p q (me\<lparr>tr_trade := Some ?d\<rparr>) (other\<lparr>tr_trade := Some ?d'\<rparr>))"
    if w1: "between L p q (me\<lparr>tr_trade := Some (d\<lparr>td_accepted := True\<rparr>)\<rparr>) other w1" for w1 :: "'inv trade_world"
    by (rule ends_chain, rule ends_in_accept [OF w1], simp, rule ends_chain, erule ends_second(4), rule d') simp
  have both: "safe (accept_both env p q w1) ?Q"
    if w1: "between L p q (me\<lparr>tr_trade := Some (d\<lparr>td_accepted := True\<rparr>)\<rparr>) other w1" for w1 :: "'inv trade_world"
    unfolding accept_both_def
  proof (rule ends_then [OF start [OF w1]])
    fix w2 :: "'inv trade_world"
    assume w2: "between L p q (me\<lparr>tr_trade := Some ?d\<rparr>) (other\<lparr>tr_trade := Some ?d'\<rparr>) w2"
    have fin: "safe (sum_bind (send_trade_status q TRADE_STATUS_ACCEPTED w2)
        (complete_trade env p q (offered (te_storage env) (tr_inv me) d) (offered (te_storage env) (tr_inv other) d'))) ?Q"
    proof (rule ends_then, rule ends_second(3) [OF w2])
      fix w3 :: "'inv trade_world"
      assume "between L p q (me\<lparr>tr_trade := Some ?d\<rparr>) (other\<lparr>tr_trade := Some ?d'\<rparr>) w3"
      from ends_complete_trade [OF this _ _ _ refl, of ?d ?d' "offered (te_storage env) (tr_inv me) d" "offered (te_storage env) (tr_inv other) d'" env]
      show "safe (complete_trade env p q (offered (te_storage env) (tr_inv me) d) (offered (te_storage env) (tr_inv other) d') w3) ?Q"
        by (simp add: exchanged_def settled_def Let_def)
    qed
    have "spell_ready env p q t w2 = Inr SpellReady" "spell_ready env q p t w2 = Inr SpellReady" for t
      using ok by (simp_all add: spell_ready_def between_player [OF w2] between_trade [OF w2])
    with fin ok show "safe (sum_bind (player_at p w2) (\<lambda>me. sum_bind (trade_at p w2) (\<lambda>d. sum_bind (player_at q w2) (\<lambda>trader. sum_bind (trade_at q w2) (\<lambda>d'.
       let iv = te_storage env; myItems = offered iv (tr_inv me) d; hisItems = offered iv (tr_inv trader) d';
           inTrade = guids_of myItems @ guids_of hisItems
       in sum_bind (spell_ready env p q inTrade w2) (\<lambda>mySpell.
          if mySpell \<noteq> SpellReady then drop_spell iv p q p mySpell w2
          else sum_bind (spell_ready env q p inTrade w2) (\<lambda>hisSpell.
          if hisSpell \<noteq> SpellReady then drop_spell iv p q q hisSpell w2
          else sum_bind (send_trade_status q TRADE_STATUS_ACCEPTED w2) (\<lambda>w.
          if \<not> iv_can_store_all iv inTrade (tr_inv me) hisItems
          then no_room p q LANG_NOT_FREE_TRADE_SLOTS LANG_NOT_PARTNER_FREE_TRADE_SLOTS w
          else if \<not> iv_can_store_all iv inTrade (tr_inv trader) myItems
          then no_room p q LANG_NOT_PARTNER_FREE_TRADE_SLOTS LANG_NOT_FREE_TRADE_SLOTS w
          else complete_trade env p q myItems hisItems w)))))))) ?Q"
      by (simp add: between_player [OF w2] between_trade [OF w2] Let_def del: safe_bind safe_chain)
  qed
  have "safe (set_accepted p True False w) (between L p q (me\<lparr>tr_trade := Some (d\<lparr>td_accepted := True\<rparr>)\<rparr>) other)"
    unfolding set_accepted_def
    by (simp add: between_trade [OF w] d ends_set_trade [OF w])
  then have "safe (sum_bind (set_accepted p True False w) (check_accept env p me d other d')) ?Q"
  proof (rule ends_then)
    fix w1 :: "'inv trade_world"
    assume "between L p q (me\<lparr>tr_trade := Some (d\<lparr>td_accepted := True\<rparr>)\<rparr>) other w1"
    moreover have "\<not> tr_money me < td_money d" "\<not> tr_money other < td_money d'" using ok by auto
    ultimately show "safe (check_accept env p me d other d' w1) ?Q"
      using ok d(2) both by (simp add: check_accept_def Let_def del: chain.simps safe_chain)
  qed
  then show ?thesis
    by (simp add: accept_trade_def between_player [OF w] d d' del: safe_bind safe_chain)
qed

section \<open>A concrete trade\<close>

text \<open>An inventory that is a list of items with room for everything.\<close>

definition list_storage :: "(trade_item list, unit) item_storage" where
  "list_storage =
     \<lparr>iv_items = (\<lambda>bag. bag), iv_at = (\<lambda>bag _ s. if unat s < length bag then Some (bag ! unat s) else None),
      iv_can_trade = (\<lambda>_ _. True), iv_no_dest = (), iv_can_store = (\<lambda>_ _ _. (True, ())),
      iv_can_store_all = (\<lambda>_ _ _. True), iv_store = (\<lambda>_ i bag. bag @ [i]),
      iv_remove = (\<lambda>i. filter (\<lambda>j. ti_guid j \<noteq> ti_guid i))\<rparr>"

definition list_env :: "(trade_item list, unit) trade_env" where
  "list_env =
     \<lparr>te_storage = list_storage, te_trade_range = (\<lambda>_ _. True), te_in_world = (\<lambda>_. True), te_invite_range = (\<lambda>_ _. True),
      te_spell_known = (\<lambda>_. True), te_check_cast = (\<lambda>_ _ _ _ _. True)\<rparr>"

definition sword :: trade_item where
  "sword = \<lparr>ti_guid = 77, ti_entry = 25, ti_count = 1, ti_not_wrapped = True, ti_creator = 0, ti_gift_creator = 0,
     ti_has_lock = False, ti_max_durability = 20, ti_reforge = 0, ti_permanent_enchant = 0, ti_durability = 20,
     ti_gems = (0, 0, 0), ti_random_property = 0, ti_spell_charges = 0, ti_suffix_factor = 0\<rparr>"

text \<open>Player 1 offers \<open>goods\<close>, player 2 offers 300 for it and may have accepted.\<close>

definition seller :: "u64 list \<Rightarrow> trade_item list trader" where
  "seller goods = \<lparr>tr_money = 1000, tr_trade = Some ((trade_data_new 2)\<lparr>td_items := goods\<rparr>), tr_inv = [sword], tr_alive = True, tr_stunned = False,
     tr_taxi = False, tr_logging_out = False, tr_recently_logout = False, tr_team = 0, tr_ignores = []\<rparr>"

definition buyer :: "bool \<Rightarrow> trade_item list trader" where
  "buyer ok = (seller [])\<lparr>tr_trade := Some ((trade_data_new 1)\<lparr>td_money := 300, td_accepted := ok\<rparr>), tr_inv := []\<rparr>"

definition shop :: "u64 list \<Rightarrow> bool \<Rightarrow> trade_item list trade_world" where
  "shop goods ok = \<lparr>tw_players = [(1, seller goods), (2, buyer ok)], tw_out = []\<rparr>"

lemma shop_players [simp]: "om_get (tw_players (shop goods ok)) 1 = Some (seller goods)" "om_get (tw_players (shop goods ok)) 2 = Some (buyer ok)"
  by (simp_all add: shop_def om_get_def)

lemma shop_trades [simp]:
  "tr_trade (seller goods) = Some ((trade_data_new 2)\<lparr>td_items := goods\<rparr>)"
  "tr_trade (buyer ok) = Some ((trade_data_new 1)\<lparr>td_money := 300, td_accepted := ok\<rparr>)"
  "tr_inv (seller goods) = [sword]" "tr_inv (buyer ok) = []" "tr_money (seller goods) = 1000" "tr_money (buyer ok) = 1000"
  by (simp_all add: seller_def buyer_def)

lemma new_trade [simp]:
  "td_items (trade_data_new r) = [0, 0, 0, 0, 0, 0, 0]" "td_money (trade_data_new r) = 0" "td_spell (trade_data_new r) = 0"
  "td_trader (trade_data_new r) = r" "\<not> td_accepted (trade_data_new r)"
  by (simp_all add: trade_data_new_def TRADE_SLOT_COUNT_def numeral_eq_Suc)

lemma list_env_simps [simp]:
  "te_storage list_env = list_storage" "te_trade_range list_env p q" "iv_items list_storage bag = bag"
  "iv_can_trade list_storage bag i" "iv_can_store list_storage bag dst i = (True, ())"
  "iv_can_store_all list_storage gs bag xs" "iv_store list_storage dst i bag = bag @ [i]"
  "iv_remove list_storage i bag = filter (\<lambda>j. ti_guid j \<noteq> ti_guid i) bag" "ti_guid sword = 77"
  by (simp_all add: list_env_def list_storage_def sword_def)

lemmas shop_eval = agreed_def item_by_guid_def tradable_def Let_def

lemma offered_six [simp]:
  "td_items d = [a, b, c, e, f, g, h] \<Longrightarrow> offered iv bag d = map (\<lambda>x. if x \<noteq> 0 then item_by_guid iv x bag else None) [a, b, c, e, f, g]"
  by (simp add: offered_def trade_get_item_def TRADE_SLOT_TRADED_COUNT_def upt_rec)

definition four_bytes :: world_packet where
  "four_bytes = (world_packet_new 0)\<lparr>bb_storage := [1, 2, 3, 4]\<rparr>"

definition gold_request :: "u64 \<Rightarrow> world_packet" where
  "gold_request g = (world_packet_new 0)\<lparr>bb_storage := le_bytes 8 g\<rparr>"

lemma slots_7: "TRADE_SLOT_COUNT = length [0, 0, 0, 0, 0, 0, 0 :: u64]" "replicate TRADE_SLOT_COUNT 0 = [0, 0, 0, 0, 0, 0, 0 :: u64]"
  by (simp_all add: TRADE_SLOT_COUNT_def numeral_eq_Suc)

text \<open>
  C6: once the partner has accepted, is near, and both can pay, trade and store what they offer (with
  no spell in the trade), the acceptance of \<open>p\<close> completes the trade: both trades end, the items change
  hands as \<open>exchange\<close> says, each side pays its gold and gets the other's, and no other player changes.\<close>
theorem accepted_trade_completes:
  fixes w :: "'inv trade_world"
  assumes "om_get (tw_players w) p = Some me" and "tr_trade me = Some d" and "td_trader d = q" and "p \<noteq> q"
    and "om_get (tw_players w) q = Some other" and "tr_trade other = Some d'"
    and "agreed env p me d other d'"
  shows "\<exists>w'. accept_trade env p w = Inr w' \<and>
    om_get (tw_players w') = (om_get (tw_players w))
      (p \<mapsto> settled (fst (exchanged env p q me d other d')) (td_money d) (td_money d') me,
       q \<mapsto> settled (snd (exchanged env p q me d other d')) (td_money d') (td_money d) other)"
proof -
  have "between (om_get (tw_players w)) p q me other w" using assms by (auto simp: between_def fun_upd_idem)
  from ends_result [OF ends_accept_trade [OF this assms(2,3,6,7)]] show ?thesis by (auto simp: between_def)
qed

theorem accepted_trade_completes_witness:
  "\<exists>w'. accept_trade list_env 1 (shop [77, 0, 0, 0, 0, 0, 0] True) = Inr w' \<and>
    om_get (tw_players w') = (om_get (tw_players (shop [77, 0, 0, 0, 0, 0, 0] True)))
      (1 \<mapsto> settled [] 0 300 (seller [77, 0, 0, 0, 0, 0, 0]), 2 \<mapsto> settled [sword\<lparr>ti_gift_creator := 1\<rparr>] 300 0 (buyer True))"
proof -
  have "agreed list_env 1 (seller [77, 0, 0, 0, 0, 0, 0]) ((trade_data_new 2)\<lparr>td_items := [77, 0, 0, 0, 0, 0, 0]\<rparr>)
      (buyer True) ((trade_data_new 1)\<lparr>td_money := 300, td_accepted := True\<rparr>)"
    by (simp add: shop_eval)
  from accepted_trade_completes [OF _ _ _ _ _ _ this, of "shop [77, 0, 0, 0, 0, 0, 0] True" 2]
  show ?thesis
    by (simp add: exchanged_def exchange_def shop_eval removed_def gift_of_def can_take_def stored_def)
qed

section \<open>Gold\<close>

lemma sint_gold: "g \<le> MAX_MONEY_AMOUNT \<Longrightarrow> sint g = uint g"
proof -
  assume "g \<le> MAX_MONEY_AMOUNT"
  then have "uint g \<le> 9999999999" by (simp add: MAX_MONEY_AMOUNT_def word_le_def)
  then have "uint g < 2 ^ 63" by simp
  moreover have "- (2 ^ 63) \<le> uint g" by (rule order_trans [of _ 0]) simp_all
  ultimately show "sint g = uint g" by (simp add: sint_uint signed_take_bit_int_eq_self_iff)
qed

lemma modify_money_pay:
  assumes "x \<le> a" and "a \<le> MAX_MONEY_AMOUNT"
  shows "modify_money (- sint x) a = a - x"
proof -
  have s: "sint x = uint x" by (rule sint_gold) (use assms in auto)
  show ?thesis
  proof (cases "x = 0")
    case True
    then show ?thesis using assms(2) by (auto simp: modify_money_def)
  next
    case False
    then have "uint x \<noteq> 0" by (simp add: uint_0_iff)
    then have "0 < uint x" using uint_ge_0 [of x] by linarith
    then show ?thesis using assms(1) by (auto simp: modify_money_def s)
  qed
qed

lemma modify_money_get:
  assumes "a \<le> MAX_MONEY_AMOUNT" and "y \<le> MAX_MONEY_AMOUNT"
  shows "unat (modify_money (sint y) a) = min (unat MAX_MONEY_AMOUNT) (unat a + unat y)"
proof -
  have s: "sint y = uint y" by (rule sint_gold [OF assms(2)])
  have m: "unat (MAX_MONEY_AMOUNT - y) = unat MAX_MONEY_AMOUNT - unat y" by (rule unat_sub [OF assms(2)])
  have b: "unat a \<le> unat MAX_MONEY_AMOUNT" "unat y \<le> unat MAX_MONEY_AMOUNT" using assms by (simp_all add: word_le_nat_alt)
  then have "unat a + unat y < 2 ^ LENGTH(64)" by (simp add: MAX_MONEY_AMOUNT_def)
  then have "unat (a + y) = unat a + unat y" by (rule unat_add_lem [THEN iffD1])
  then show ?thesis using b by (auto simp: modify_money_def s m word_less_nat_alt)
qed

text \<open>
  each side's purse after a trade is what it had, less what it pays, plus what it gets, but never
  above the limit of gold: what would exceed it is lost to both sides.\<close>
theorem traded_gold:
  assumes "pays \<le> tr_money t" and "tr_money t \<le> MAX_MONEY_AMOUNT" and "gets \<le> MAX_MONEY_AMOUNT"
  shows "unat (tr_money (settled bag pays gets t)) =
    min (unat MAX_MONEY_AMOUNT) (unat (tr_money t) - unat pays + unat gets)"
proof -
  have "tr_money t - pays \<le> MAX_MONEY_AMOUNT" using assms(1,2) word_sub_le order_trans by blast
  then show ?thesis using modify_money_pay [OF assms(1,2)] modify_money_get [OF _ assms(3)]
    by (simp add: settled_def unat_sub [OF assms(1)])
qed

theorem traded_gold_witness:
  "unat (tr_money (settled [] 300 0 (buyer True))) = 700 \<and> unat (tr_money (settled [] 0 9999999999 (seller []))) = 9999999999"
  using traded_gold [of 300 "buyer True" 0 "[]"] traded_gold [of 0 "seller []" 9999999999 "[]"]
  by (simp add: MAX_MONEY_AMOUNT_def)

section \<open>What the partner accepted\<close>

lemma exchange_nothing: "exchange iv p q (replicate n None) (replicate n None) ab = ab"
proof -
  have "fold (exchange_slot iv) (replicate n (None, None)) ab = ab" for ab
    by (induction n arbitrary: ab) (auto simp: can_take_def stored_def)
  moreover have "fold (removed iv) (replicate n None) bag = bag" for bag
    by (induction n arbitrary: bag) (auto simp: removed_def)
  ultimately show ?thesis by (simp add: exchange_def gift_of_def zip_replicate)
qed

lemma offered_nothing:
  assumes "length (td_items d) = TRADE_SLOT_COUNT" and "list_all (\<lambda>g. g = 0 \<or> item_by_guid iv g bag = None) (td_items d)"
  shows "offered iv bag d = replicate TRADE_SLOT_TRADED_COUNT None"
proof -
  have "trade_get_item iv bag d i = None" if "i < TRADE_SLOT_TRADED_COUNT" for i
  proof -
    have "td_items d ! i \<in> set (td_items d)"
      using that assms(1) by (simp add: TRADE_SLOT_COUNT_def TRADE_SLOT_TRADED_COUNT_def)
    with assms(2) show ?thesis by (auto simp: trade_get_item_def list_all_iff)
  qed
  then show ?thesis by (simp add: offered_def list_eq_iff_nth_eq)
qed

lemma exchanged_nothing:
  assumes "offered (te_storage env) (tr_inv me) d = replicate TRADE_SLOT_TRADED_COUNT None"
    and "offered (te_storage env) (tr_inv other) d' = replicate TRADE_SLOT_TRADED_COUNT None"
  shows "exchanged env p q me d other d' = (tr_inv me, tr_inv other)"
  by (simp add: exchanged_def assms exchange_nothing Let_def)

lemma run_accept:
  fixes w :: "'inv trade_world"
  assumes w: "between L p q me other w" and t: "tr_trade me = Some d" "td_trader d = q" "tr_trade other = Some d'"
    and "agreed env p me d other d'" and "read_skip 4 packet = Inr rest"
    and bare: "offered (te_storage env) (tr_inv me) d = replicate TRADE_SLOT_TRADED_COUNT None"
      "offered (te_storage env) (tr_inv other) d' = replicate TRADE_SLOT_TRADED_COUNT None"
  shows "safe (trade_run [(env, AcceptTrade p packet)] w)
    (between L p q (settled (tr_inv me) (td_money d) (td_money d') me) (settled (tr_inv other) (td_money d') (td_money d) other))"
proof -
  have ex: "exchanged env p q me d other d' = (tr_inv me, tr_inv other)" using bare by (simp add: exchanged_nothing)
  have "om_get (tw_players w) p = Some me" using w by (auto simp: between_def)
  moreover obtain w' where "accept_trade env p w = Inr w'"
    "between L p q (settled (tr_inv me) (td_money d) (td_money d') me) (settled (tr_inv other) (td_money d') (td_money d) other) w'"
    using ends_result [OF ends_accept_trade [OF w t assms(5)]] by (auto simp: ex)
  ultimately show ?thesis using assms(6) by (simp add: trade_step_def handle_accept_trade_def)
qed

text \<open>
  C26: an item that leaves the inventory of \<open>p\<close> while it is on offer withdraws no acceptance: \<open>p\<close>
  accepts after it is gone, \<open>q\<close> pays the gold it had promised for it and gets nothing.\<close>
theorem vanished_item_is_paid_for:
  fixes w :: "'inv trade_world"
  assumes "om_get (tw_players w) p = Some me" and "tr_trade me = Some d" and "td_trader d = q" and "p \<noteq> q"
    and "om_get (tw_players w) q = Some other" and "tr_trade other = Some d'"
    and "length (td_items d) = TRADE_SLOT_COUNT" and "td_items d' = replicate TRADE_SLOT_COUNT 0"
    and "list_all (\<lambda>g. g = 0 \<or> item_by_guid (te_storage env) g bag = None) (td_items d)"
    and "agreed env p (me\<lparr>tr_inv := bag\<rparr>) d other d'" and "read_skip 4 packet = Inr rest"
  shows "\<exists>w'. trade_run [(env, OtherChange p (\<lambda>t. t\<lparr>tr_inv := bag\<rparr>)), (env, AcceptTrade p packet)] w = Inr w' \<and>
    om_get (tw_players w') = (om_get (tw_players w))
      (p \<mapsto> settled bag (td_money d) (td_money d') me, q \<mapsto> settled (tr_inv other) (td_money d') (td_money d) other)"
proof -
  let ?me = "me\<lparr>tr_inv := bag\<rparr>"
  have "between (om_get (tw_players w)) p q me other w" using assms by (auto simp: between_def fun_upd_idem)
  then have w1: "between (om_get (tw_players w)) p q ?me other (put_player p ?me w)" by (rule between_put)
  have "offered (te_storage env) (tr_inv ?me) d = replicate TRADE_SLOT_TRADED_COUNT None"
    using offered_nothing [OF assms(7,9)] by simp
  moreover have "offered (te_storage env) (tr_inv other) d' = replicate TRADE_SLOT_TRADED_COUNT None"
    by (rule offered_nothing) (simp_all add: assms(8) list_all_iff)
  ultimately obtain w' where w': "trade_run [(env, AcceptTrade p packet)] (put_player p ?me w) = Inr w'"
    "between (om_get (tw_players w)) p q (settled (tr_inv ?me) (td_money d) (td_money d') ?me)
       (settled (tr_inv other) (td_money d') (td_money d) other) w'"
    using ends_result [OF run_accept [OF w1 _ assms(3,6,10,11)]] assms(2) by auto
  moreover have "?me\<lparr>tr_trade := tr_trade me\<rparr> = ?me" by simp
  ultimately show ?thesis using assms(1)
    by (auto simp: trade_step_def other_change_def player_at_def between_def settled_def simp del: trade_run.simps(2)
        simp: trade_run.simps(2) [of _ "OtherChange p (\<lambda>t. t\<lparr>tr_inv := bag\<rparr>)"])
qed

lemma four_bytes_read: "\<exists>rest. read_skip 4 four_bytes = Inr rest"
  by (simp add: four_bytes_def read_skip_def world_packet_new_def bb_size_def reset_bit_reader_def Let_def)

theorem vanished_item_is_paid_for_witness:
  "\<exists>w'. trade_run [(list_env, OtherChange 1 (\<lambda>t. t\<lparr>tr_inv := []\<rparr>)), (list_env, AcceptTrade 1 four_bytes)]
      (shop [77, 0, 0, 0, 0, 0, 0] True) = Inr w' \<and>
    om_get (tw_players w') = (om_get (tw_players (shop [77, 0, 0, 0, 0, 0, 0] True)))
      (1 \<mapsto> settled [] 0 300 (seller [77, 0, 0, 0, 0, 0, 0]), 2 \<mapsto> settled [] 300 0 (buyer True))"
proof -
  obtain rest where rest: "read_skip 4 four_bytes = Inr rest" using four_bytes_read by blast
  have "agreed list_env 1 ((seller [77, 0, 0, 0, 0, 0, 0])\<lparr>tr_inv := []\<rparr>) ((trade_data_new 2)\<lparr>td_items := [77, 0, 0, 0, 0, 0, 0]\<rparr>)
      (buyer True) ((trade_data_new 1)\<lparr>td_money := 300, td_accepted := True\<rparr>)"
    by (simp add: shop_eval)
  from vanished_item_is_paid_for [OF _ _ _ _ _ _ _ _ _ this rest, of "shop [77, 0, 0, 0, 0, 0, 0] True" 2]
  show ?thesis by (simp add: slots_7 item_by_guid_def)
qed

lemma ends_unaccept:
  fixes w :: "'inv trade_world"
  assumes w: "between L p q me other w" and d: "tr_trade me = Some d" "td_trader d = q" and d': "tr_trade other = Some d'" "td_trader d' = p"
  shows "safe (unaccept_both p w)
    (between L p q (me\<lparr>tr_trade := Some (d\<lparr>td_accepted := False\<rparr>)\<rparr>) (other\<lparr>tr_trade := Some (d'\<lparr>td_accepted := False\<rparr>)\<rparr>))"
proof -
  have one: "safe (set_accepted r False False v) (between L r s (a\<lparr>tr_trade := Some (e\<lparr>td_accepted := False\<rparr>)\<rparr>) b)"
    if "between L r s a b v" "tr_trade a = Some e" for L r s a b e and v :: "'inv trade_world"
    unfolding set_accepted_def
    by (simp add: between_trade [OF that(1)] that(2) del: safe_bind safe_chain)
      (rule ends_then, rule ends_set_trade [OF that(1)], erule ends_status)
  show ?thesis
    unfolding unaccept_both_def
    by (simp add: between_trade [OF w] d del: safe_bind safe_chain)
      (rule ends_then, rule one [OF w d(1)],
        unfold between_swap [of L p q], rule one, assumption, rule d'(1))
qed

lemma ends_refresh:
  fixes w :: "'inv trade_world"
  assumes w: "between L p q me other w" and d: "tr_trade me = Some d" "td_trader d = q" and d': "tr_trade other = Some d'" "td_trader d' = p"
  shows "safe (trade_refresh iv True p w) (between L p q me other)"
proof -
  have "safe (case build_update u (world_packet_new 0) of Inl e \<Rightarrow> Inl (TradePacketError e) | Inr None \<Rightarrow> Inr w
      | Inr (Some data) \<Rightarrow> Inr (trade_emit (TradePacket r data) w)) (between L p q me other)" for u r
    using build_update_total [of u "world_packet_new 0"] w by (auto simp: between_emit split: option.split)
  then show ?thesis
    by (simp add: trade_refresh_def send_update_trade_def between_trade [OF w] between_player [OF w] d d' Let_def)
qed

lemma ends_set_money:
  fixes w :: "'inv trade_world"
  assumes w: "between L p q me other w" and d: "tr_trade me = Some d" "td_trader d = q" and d': "tr_trade other = Some d'" "td_trader d' = p"
    and "g \<noteq> td_money d"
  shows "safe (set_trade_money iv p g w)
    (between L p q (me\<lparr>tr_trade := Some (d\<lparr>td_money := g, td_accepted := False\<rparr>)\<rparr>) (other\<lparr>tr_trade := Some (d'\<lparr>td_accepted := False\<rparr>)\<rparr>))"
    (is "safe _ ?Q")
proof -
  have "safe (chain [unaccept_both p, trade_refresh iv True p] w1) ?Q"
    if w1: "between L p q (me\<lparr>tr_trade := Some (d\<lparr>td_money := g\<rparr>)\<rparr>) other w1" for w1 :: "'inv trade_world"
    by (rule ends_chain, rule ends_unaccept [OF w1 _ _ d'], simp, simp add: d,
        rule ends_chain, rule ends_refresh, assumption, simp, simp add: d, simp, simp add: d') simp
  with ends_set_trade [OF w] have "safe (sum_bind (set_trade p (Some (d\<lparr>td_money := g\<rparr>)) w) (chain [unaccept_both p, trade_refresh iv True p])) ?Q"
    by (rule ends_then)
  then show ?thesis using assms(6) by (simp add: set_trade_money_def between_trade [OF w] d del: chain.simps safe_bind safe_chain)
qed

lemma ends_run:
  assumes "safe (trade_step env x w) P" and "\<And>w'. P w' \<Longrightarrow> safe (trade_run xs w') Q"
  shows "safe (trade_run ((env, x) # xs) w) Q"
  using assms by (cases "trade_step env x w") auto

lemma ends_step:
  fixes w :: "'inv trade_world"
  assumes "between L p q me other w" and "safe (trade_act env x w) Q" and "op_player x = p"
    and "(case x of EnterWorld _ _ \<Rightarrow> False | _ \<Rightarrow> True)"
  shows "safe (trade_step env x w) Q"
proof -
  have "om_get (tw_players w) p = Some me" using assms(1) by (auto simp: between_def)
  then show ?thesis using assms(2-4) by (cases x) (simp_all add: trade_step_def)
qed

lemma tradable_bare [simp]: "list_all (tradable iv bag) (replicate n None)" "guids_of (replicate n None) = []"
  by (simp_all add: list_all_iff tradable_def guids_of_def)

text \<open>The first of the two acceptances only tells the partner.\<close>

lemma ends_first_accept:
  fixes w :: "'inv trade_world"
  assumes w: "between L p q me other w" and d: "tr_trade me = Some d" "td_trader d = q" and d': "tr_trade other = Some d'" "\<not> td_accepted d'"
    and ok: "te_trade_range env p q" "td_money d \<le> tr_money me" "td_money d' \<le> tr_money other"
    and bare: "offered (te_storage env) (tr_inv me) d = replicate TRADE_SLOT_TRADED_COUNT None"
      "offered (te_storage env) (tr_inv other) d' = replicate TRADE_SLOT_TRADED_COUNT None"
  shows "safe (accept_trade env p w) (between L p q (me\<lparr>tr_trade := Some (d\<lparr>td_accepted := True\<rparr>)\<rparr>) other)" (is "safe _ ?Q")
proof -
  have "safe (set_accepted p True False w) ?Q"
    unfolding set_accepted_def by (simp add: between_trade [OF w] d ends_set_trade [OF w])
  then have "safe (sum_bind (set_accepted p True False w) (check_accept env p me d other d')) ?Q"
  proof (rule ends_then)
    fix w1 :: "'inv trade_world"
    assume "?Q w1"
    moreover have "\<not> tr_money me < td_money d" "\<not> tr_money other < td_money d'" using ok by auto
    ultimately show "safe (check_accept env p me d other d' w1) ?Q"
      using ok(1) d(2) d'(2) ends_second(3) bare by (simp add: check_accept_def Let_def del: chain.simps safe_chain)
  qed
  then show ?thesis by (simp add: accept_trade_def between_player [OF w] d d' del: safe_bind safe_chain)
qed

text \<open>
  C27: the four bytes of an acceptance say which offer it means, and are not looked at: when \<open>q\<close> changes
  its gold and accepts, the acceptance that \<open>p\<close> sent for the old offer completes the trade with the new
  one, whatever it holds.\<close>
theorem stale_accept_completes:
  fixes w :: "'inv trade_world"
  assumes "om_get (tw_players w) p = Some me" and "tr_trade me = Some d" and "td_trader d = q" and "p \<noteq> q"
    and "om_get (tw_players w) q = Some other" and "tr_trade other = Some d'" and "td_trader d' = p"
    and "td_items d = replicate TRADE_SLOT_COUNT 0" and "td_items d' = replicate TRADE_SLOT_COUNT 0"
    and "td_spell d = 0" and "td_spell d' = 0" and "te_trade_range env p q" and "te_trade_range env q p"
    and "iv_can_store_all (te_storage env) [] (tr_inv me) (replicate TRADE_SLOT_TRADED_COUNT None)"
    and "iv_can_store_all (te_storage env) [] (tr_inv other) (replicate TRADE_SLOT_TRADED_COUNT None)"
    and "get_u64 offer = Inr (g, rest)" and "g \<noteq> td_money d'" and "g \<le> tr_money other" and "td_money d \<le> tr_money me"
    and "read_skip 4 fresh = Inr rest'" and "read_skip 4 stale = Inr rest''"
  shows "\<exists>w'. trade_run [(env, SetTradeGold q offer), (env, AcceptTrade q fresh), (env, AcceptTrade p stale)] w = Inr w' \<and>
    om_get (tw_players w') = (om_get (tw_players w))
      (p \<mapsto> settled (tr_inv me) (td_money d) g me, q \<mapsto> settled (tr_inv other) g (td_money d) other)"
proof -
  let ?L = "om_get (tw_players w)"
  let ?e = "d\<lparr>td_accepted := False\<rparr>" and ?e' = "d'\<lparr>td_money := g, td_accepted := False\<rparr>" and ?f' = "d'\<lparr>td_money := g, td_accepted := True\<rparr>"
  have w: "between ?L q p other me w" using assms by (auto simp: between_def fun_upd_idem)
  have bare: "offered (te_storage env) bag x = replicate TRADE_SLOT_TRADED_COUNT None"
    if "td_items x = replicate TRADE_SLOT_COUNT 0" for bag x
    by (rule offered_nothing) (simp_all add: that list_all_iff)
  have 1: "safe (trade_step env (SetTradeGold q offer) w)
      (between ?L q p (other\<lparr>tr_trade := Some ?e'\<rparr>) (me\<lparr>tr_trade := Some ?e\<rparr>))"
    by (rule ends_step [OF w])
      (use ends_set_money [OF w assms(6,7,2,3,17)] assms(16) in
        \<open>simp_all add: handle_set_trade_gold_def trade_of_def between_player [OF w] assms(6)\<close>)
  have 2: "safe (trade_step env (AcceptTrade q fresh) w1)
      (between ?L q p (other\<lparr>tr_trade := Some ?f'\<rparr>) (me\<lparr>tr_trade := Some ?e\<rparr>))"
    if w1: "between ?L q p (other\<lparr>tr_trade := Some ?e'\<rparr>) (me\<lparr>tr_trade := Some ?e\<rparr>) w1" for w1 :: "'inv trade_world"
    by (rule ends_step [OF w1])
      (use ends_first_accept [OF w1, of ?e' ?e env] assms(7,8,9,13,18,19,20) bare in \<open>simp_all add: handle_accept_trade_def\<close>)
  have 3: "safe (trade_run [(env, AcceptTrade p stale)] w2)
      (between ?L p q (settled (tr_inv me) (td_money d) g me) (settled (tr_inv other) g (td_money d) other))"
    if "between ?L q p (other\<lparr>tr_trade := Some ?f'\<rparr>) (me\<lparr>tr_trade := Some ?e\<rparr>) w2" for w2 :: "'inv trade_world"
  proof -
    have "agreed env p (me\<lparr>tr_trade := Some ?e\<rparr>) ?e (other\<lparr>tr_trade := Some ?f'\<rparr>) ?f'"
      using assms(3,8-15,18,19) bare by (simp add: agreed_def Let_def)
    from run_accept [OF that [unfolded between_swap [of _ q p]] _ _ _ this assms(21)]
    show ?thesis using assms(3,8,9) bare by (simp add: settled_def)
  qed
  from ends_result [OF ends_run [OF 1 ends_run [OF 2 3]]] show ?thesis by (auto simp: between_def)
qed

theorem stale_accept_completes_witness:
  "\<exists>w'. trade_run [(list_env, SetTradeGold 2 (gold_request 0)), (list_env, AcceptTrade 2 four_bytes), (list_env, AcceptTrade 1 four_bytes)]
      (shop [0, 0, 0, 0, 0, 0, 0] False) = Inr w' \<and>
    om_get (tw_players w') = (om_get (tw_players (shop [0, 0, 0, 0, 0, 0, 0] False)))
      (1 \<mapsto> settled [sword] 0 0 (seller [0, 0, 0, 0, 0, 0, 0]), 2 \<mapsto> settled [] 0 0 (buyer False))"
proof -
  obtain rest where rest: "read_skip 4 four_bytes = Inr rest" using four_bytes_read by blast
  have "\<exists>r. get_u64 (gold_request 0) = Inr (0, r)"
    by (simp add: gold_request_def get_u64_def read_value_eq world_packet_new_def bb_size_def del: le_bytes.simps)
  then obtain r where "get_u64 (gold_request 0) = Inr (0, r)" by blast
  from stale_accept_completes [where w = "shop [0, 0, 0, 0, 0, 0, 0] False" and p = 1 and q = 2 and env = list_env
      and me = "seller [0, 0, 0, 0, 0, 0, 0]" and other = "buyer False"
      and d = "(trade_data_new 2)\<lparr>td_items := [0, 0, 0, 0, 0, 0, 0]\<rparr>"
      and d' = "(trade_data_new 1)\<lparr>td_money := 300, td_accepted := False\<rparr>",
      OF _ _ _ _ _ _ _ _ _ _ _ _ _ _ _ this _ _ _ rest rest]
  show ?thesis by (simp add: slots_7 del: trade_run.simps)
qed

end
