(* ===== verification/Loot.thy ===== *)
theory Loot
  imports ObjectGuid
begin

text \<open>
  The contents of a corpse or chest: \<open>LootItem\<close> and \<open>Loot\<close> (\<open>src/src/game/Object/LootMgr.h\<close>,
  \<open>LootMgr.cpp\<close>), how a container is filled for the members of a group, which entry a player sees in
  a slot, and \<open>HandleAutostoreLootItemOpcode\<close> (\<open>WorldHandlers/LootHandler.cpp\<close>), which takes entries
  out. What the stores, conditions, quests and inventories answer is an argument. Packets are
  recorded with their fields; every item that changes hands is recorded with the place it came from.
\<close>

section \<open>Data\<close>

definition MAX_NR_LOOT_ITEMS :: nat where "MAX_NR_LOOT_ITEMS = 16"
definition MAX_NR_QUEST_ITEMS :: nat where "MAX_NR_QUEST_ITEMS = 32"

definition LOOT_ITEM_TYPE_ITEM :: u8 where "LOOT_ITEM_TYPE_ITEM = 0"
definition LOOT_ITEM_TYPE_CURRENCY :: u8 where "LOOT_ITEM_TYPE_CURRENCY = 1"

datatype loot_slot_type = LOOT_SLOT_NORMAL | LOOT_SLOT_VIEW | LOOT_SLOT_MASTER | LOOT_SLOT_REQS | LOOT_SLOT_OWNER | MAX_LOOT_SLOT_TYPE

datatype loot_permission = ALL_PERMISSION | GROUP_PERMISSION | MASTER_PERMISSION | OWNER_PERMISSION | NONE_PERMISSION

definition to_wire_loot_slot_type :: "loot_slot_type \<Rightarrow> u8" where
  "to_wire_loot_slot_type t =
     (case t of LOOT_SLOT_OWNER \<Rightarrow> 4 | LOOT_SLOT_NORMAL \<Rightarrow> 3 | LOOT_SLOT_MASTER \<Rightarrow> 2
      | LOOT_SLOT_VIEW \<Rightarrow> 7 | LOOT_SLOT_REQS \<Rightarrow> 7 | MAX_LOOT_SLOT_TYPE \<Rightarrow> 7)"

record loot_store_item =
  lsi_itemid :: u32
  lsi_type :: u8
  lsi_mincount :: u32
  lsi_maxcount :: u8
  lsi_needs_quest :: bool
  lsi_condition :: u16

record loot_item =
  li_itemid :: u32
  li_type :: u8
  li_suffix :: u32
  li_property :: u32
  li_count :: u32
  li_condition :: u16
  li_currency :: bool
  li_looted :: bool
  li_blocked :: bool
  li_ffa :: bool
  li_under :: bool
  li_counted :: bool
  li_needs_quest :: bool

record quest_item =
  qi_index :: u8
  qi_looted :: bool

text \<open>\<open>lo_fill\<close> counts how often the container was cleared; it tells the fillings of one container apart.\<close>

record loot =
  lo_items :: "loot_item list"
  lo_gold :: u32
  lo_unlooted :: u8
  lo_quest_items :: "loot_item list"
  lo_looting :: "(guid, unit) omap"
  lo_currencies :: "(u32, quest_item list) omap"
  lo_quests :: "(u32, quest_item list) omap"
  lo_ffas :: "(u32, quest_item list) omap"
  lo_conds :: "(u32, quest_item list) omap"
  lo_fill :: nat

definition loot_new :: loot where
  "loot_new = \<lparr>lo_items = [], lo_gold = 0, lo_unlooted = 0, lo_quest_items = [], lo_looting = [],
     lo_currencies = [], lo_quests = [], lo_ffas = [], lo_conds = [], lo_fill = 0\<rparr>"

definition loot_clear :: "loot \<Rightarrow> loot" where
  "loot_clear l = l\<lparr>lo_currencies := [], lo_quests := [], lo_ffas := [], lo_conds := [], lo_looting := [],
     lo_items := [], lo_quest_items := [], lo_gold := 0, lo_unlooted := 0, lo_fill := Suc (lo_fill l)\<rparr>"

definition loot_empty :: "loot \<Rightarrow> bool" where
  "loot_empty l \<longleftrightarrow> lo_items l = [] \<and> lo_gold l = 0"

definition loot_is_looted :: "loot \<Rightarrow> bool" where
  "loot_is_looted l \<longleftrightarrow> lo_gold l = 0 \<and> lo_unlooted l = 0"

definition add_looter :: "guid \<Rightarrow> loot \<Rightarrow> loot" where
  "add_looter g l = l\<lparr>lo_looting := om_put g () (lo_looting l)\<rparr>"

definition remove_looter :: "guid \<Rightarrow> loot \<Rightarrow> loot" where
  "remove_looter g l = l\<lparr>lo_looting := om_erase g (lo_looting l)\<rparr>"

section \<open>What the rest of the server answers\<close>

record item_prototype =
  ip_party_loot :: bool
  ip_horde_only :: bool
  ip_alliance_only :: bool
  ip_need_disabled :: bool
  ip_quality :: u32
  ip_start_quest :: u32
  ip_disenchant :: u32
  ip_disenchant_skill :: u32

text \<open>
  Places in a container, and what a player got: an item, the loot of a disenchanted item, or currency.
\<close>

datatype loot_place = Plain_at nat | Quest_at nat

record loot_source =
  ls_loot :: guid
  ls_fill :: nat
  ls_place :: loot_place
  ls_item :: loot_item

datatype loot_award =
    Stored guid loot_source
  | Disenchanted guid loot_source u32
  | Currency_gained guid u32 u32
  | Money_gained guid u64

definition HORDE :: nat where "HORDE = 67"
definition ALLIANCE :: nat where "ALLIANCE = 469"

record loot_env =
  le_proto :: "u32 \<Rightarrow> item_prototype option"
  le_condition :: "u16 \<Rightarrow> guid \<Rightarrow> bool"
  le_team :: "guid \<Rightarrow> nat"
  le_quest_item :: "guid \<Rightarrow> u32 \<Rightarrow> bool"
  le_quest_none :: "guid \<Rightarrow> u32 \<Rightarrow> bool"
  le_game_master :: "guid \<Rightarrow> bool"
  le_archaeology :: "guid \<Rightarrow> bool"
  le_meta_currency :: "u32 \<Rightarrow> bool"
  le_archaeology_currency :: "u32 \<Rightarrow> bool"
  le_currency_precision :: "u32 \<Rightarrow> u32 option"
  le_can_store :: "loot_award list \<Rightarrow> guid \<Rightarrow> u32 \<Rightarrow> u32 \<Rightarrow> u8"
  le_reach :: "guid \<Rightarrow> guid \<Rightarrow> bool"
  le_online :: "guid \<Rightarrow> bool"
  le_opt_out :: "guid \<Rightarrow> bool"
  le_near :: "guid \<Rightarrow> guid \<Rightarrow> bool"
  le_reward_distance :: "guid \<Rightarrow> guid \<Rightarrow> bool"
  le_can_use :: "guid \<Rightarrow> u32 \<Rightarrow> bool"
  le_enchanting :: u32
  le_urand :: "nat \<Rightarrow> u32"
  le_vote_order :: "guid list \<Rightarrow> guid list"

definition EQUIP_ERR_OK :: u8 where "EQUIP_ERR_OK = 0"
definition EQUIP_ERR_ALREADY_LOOTED :: u8 where "EQUIP_ERR_ALREADY_LOOTED = 49"

section \<open>Loot items\<close>

text \<open>What the constructor of an item draws: the count in its range, the enchantment suffix and property.\<close>

record item_draw =
  dr_count :: u32
  dr_suffix :: u32
  dr_property :: u32

definition loot_item_new :: "loot_env \<Rightarrow> (u32 \<Rightarrow> u32) \<Rightarrow> item_draw \<Rightarrow> loot_store_item \<Rightarrow> loot_item" where
  "loot_item_new env rate dr li =
     (let currency = lsi_type li = LOOT_ITEM_TYPE_CURRENCY in
      \<lparr>li_itemid = lsi_itemid li, li_type = lsi_type li,
       li_suffix = (if currency then 0 else dr_suffix dr),
       li_property = (if currency then 0 else dr_property dr),
       li_count = (if currency then rate (dr_count dr) else dr_count dr),
       li_condition = lsi_condition li, li_currency = currency,
       li_looted = False, li_blocked = False,
       li_ffa = (\<not> currency \<and> (case le_proto env (lsi_itemid li) of None \<Rightarrow> False | Some p \<Rightarrow> ip_party_loot p)),
       li_under = False, li_counted = False, li_needs_quest = (\<not> currency \<and> lsi_needs_quest li)\<rparr>)"

definition allowed_for_player :: "loot_env \<Rightarrow> guid \<Rightarrow> loot_item \<Rightarrow> bool" where
  "allowed_for_player env p li \<longleftrightarrow>
     \<not> (li_condition li \<noteq> 0 \<and> \<not> le_condition env (li_condition li) p) \<and>
     (if li_type li = LOOT_ITEM_TYPE_ITEM then
        (case le_proto env (li_itemid li) of
           None \<Rightarrow> False
         | Some proto \<Rightarrow>
             \<not> (ip_horde_only proto \<and> le_team env p \<noteq> HORDE) \<and>
             \<not> (ip_alliance_only proto \<and> le_team env p \<noteq> ALLIANCE) \<and>
             (if li_needs_quest li then le_quest_item env p (li_itemid li)
              else \<not> (ip_start_quest proto \<noteq> 0 \<and> \<not> le_quest_none env p (ip_start_quest proto) \<and>
                       \<not> le_quest_item env p (li_itemid li))))
      else if li_type li = LOOT_ITEM_TYPE_CURRENCY then
        li_itemid li \<noteq> 0 \<and>
        (le_game_master env p \<or>
         \<not> le_meta_currency env (li_itemid li) \<and>
         \<not> (le_archaeology_currency env (li_itemid li) \<and> \<not> le_archaeology env p))
      else True)"

definition slot_type_for_shared_loot :: "loot_env \<Rightarrow> loot_permission \<Rightarrow> guid \<Rightarrow> bool \<Rightarrow> loot_item \<Rightarrow> loot_slot_type" where
  "slot_type_for_shared_loot env permission viewer condition_ok li =
     (if li_currency li \<or> li_looted li \<or> li_ffa li \<or> (li_condition li \<noteq> 0 \<and> \<not> condition_ok) \<or>
         \<not> allowed_for_player env viewer li
      then MAX_LOOT_SLOT_TYPE
      else case permission of
          ALL_PERMISSION \<Rightarrow> LOOT_SLOT_NORMAL
        | GROUP_PERMISSION \<Rightarrow> (if li_blocked li \<or> li_under li then LOOT_SLOT_NORMAL else LOOT_SLOT_VIEW)
        | MASTER_PERMISSION \<Rightarrow> (if \<not> li_under li then LOOT_SLOT_MASTER else LOOT_SLOT_NORMAL)
        | OWNER_PERMISSION \<Rightarrow> LOOT_SLOT_OWNER
        | NONE_PERMISSION \<Rightarrow> MAX_LOOT_SLOT_TYPE)"

section \<open>Filling\<close>

definition loot_add_item :: "loot_env \<Rightarrow> (u32 \<Rightarrow> u32) \<Rightarrow> loot_store_item \<times> item_draw \<Rightarrow> loot \<Rightarrow> loot" where
  "loot_add_item env rate e l =
     (let item = fst e; new = loot_item_new env rate (snd e) item in
      if lsi_needs_quest item then
        if length (lo_quest_items l) < MAX_NR_QUEST_ITEMS then l\<lparr>lo_quest_items := lo_quest_items l @ [new]\<rparr> else l
      else if length (lo_items l) < MAX_NR_LOOT_ITEMS then
        let l = l\<lparr>lo_items := lo_items l @ [new]\<rparr> in
        if lsi_condition item = 0 \<and> lsi_type item = LOOT_ITEM_TYPE_ITEM \<and>
           (case le_proto env (lsi_itemid item) of None \<Rightarrow> True | Some p \<Rightarrow> \<not> ip_party_loot p)
        then l\<lparr>lo_unlooted := lo_unlooted l + 1\<rparr> else l
      else l)"

definition quest_item_new :: "nat \<Rightarrow> quest_item" where
  "quest_item_new i = \<lparr>qi_index = of_nat i, qi_looted = False\<rparr>"

text \<open>The places of the items with a property, in order: the loops that only collect and count.\<close>

definition places_of :: "('a \<Rightarrow> bool) \<Rightarrow> 'a list \<Rightarrow> nat list" where
  "places_of P xs = filter (\<lambda>i. P (xs ! i)) [0 ..< length xs]"

definition fill_currency_loot :: "loot_env \<Rightarrow> guid \<Rightarrow> loot \<Rightarrow> loot" where
  "fill_currency_loot env p l =
     (let ql = map quest_item_new (places_of (\<lambda>it. \<not> li_looted it \<and> li_currency it \<and> allowed_for_player env p it) (lo_items l));
          l = l\<lparr>lo_unlooted := lo_unlooted l + of_nat (length ql)\<rparr> in
      if ql = [] then l else l\<lparr>lo_currencies := om_put (get_counter p) ql (lo_currencies l)\<rparr>)"

definition fill_ffa_loot :: "loot_env \<Rightarrow> guid \<Rightarrow> loot \<Rightarrow> loot" where
  "fill_ffa_loot env p l =
     (let ql = map quest_item_new (places_of (\<lambda>it. \<not> li_looted it \<and> li_ffa it \<and> allowed_for_player env p it) (lo_items l));
          l = l\<lparr>lo_unlooted := lo_unlooted l + of_nat (length ql)\<rparr> in
      if ql = [] then l else l\<lparr>lo_ffas := om_put (get_counter p) ql (lo_ffas l)\<rparr>)"

text \<open>The loop of \<open>FillQuestLoot\<close> blocks what it lists and stops when the window is full.\<close>

fun fill_quest_loop :: "loot_env \<Rightarrow> guid \<Rightarrow> nat list \<Rightarrow> quest_item list \<Rightarrow> loot \<Rightarrow> quest_item list \<times> loot" where
  "fill_quest_loop env p [] ql l = (ql, l)"
| "fill_quest_loop env p (i # is) ql l =
     (let it = lo_quest_items l ! i in
      if \<not> li_looted it \<and> allowed_for_player env p it then
        let ql = ql @ [quest_item_new i];
            l = (if li_ffa it \<or> \<not> li_blocked it then l\<lparr>lo_unlooted := lo_unlooted l + 1\<rparr> else l);
            l = l\<lparr>lo_quest_items := (lo_quest_items l)[i := it\<lparr>li_blocked := True\<rparr>]\<rparr> in
        if length (lo_items l) + length ql = MAX_NR_LOOT_ITEMS then (ql, l) else fill_quest_loop env p is ql l
      else fill_quest_loop env p is ql l)"

definition fill_quest_loot :: "loot_env \<Rightarrow> guid \<Rightarrow> loot \<Rightarrow> loot" where
  "fill_quest_loot env p l =
     (if length (lo_items l) = MAX_NR_LOOT_ITEMS then l
      else let (ql, l) = fill_quest_loop env p [0 ..< length (lo_quest_items l)] [] l in
        if ql = [] then l else l\<lparr>lo_quests := om_put (get_counter p) ql (lo_quests l)\<rparr>)"

fun fill_cond_loop :: "loot_env \<Rightarrow> guid \<Rightarrow> nat list \<Rightarrow> quest_item list \<Rightarrow> loot \<Rightarrow> quest_item list \<times> loot" where
  "fill_cond_loop env p [] ql l = (ql, l)"
| "fill_cond_loop env p (i # is) ql l =
     (let it = lo_items l ! i in
      if \<not> li_looted it \<and> \<not> li_ffa it \<and> \<not> li_currency it \<and> li_condition it \<noteq> 0 \<and> allowed_for_player env p it then
        fill_cond_loop env p is (ql @ [quest_item_new i])
          (if \<not> li_counted it
           then l\<lparr>lo_unlooted := lo_unlooted l + 1, lo_items := (lo_items l)[i := it\<lparr>li_counted := True\<rparr>]\<rparr> else l)
      else fill_cond_loop env p is ql l)"

definition fill_cond_loot :: "loot_env \<Rightarrow> guid \<Rightarrow> loot \<Rightarrow> loot" where
  "fill_cond_loot env p l =
     (let (ql, l) = fill_cond_loop env p [0 ..< length (lo_items l)] [] l in
      if ql = [] then l else l\<lparr>lo_conds := om_put (get_counter p) ql (lo_conds l)\<rparr>)"

definition fill_not_normal_loot_for :: "loot_env \<Rightarrow> guid \<Rightarrow> loot \<Rightarrow> loot" where
  "fill_not_normal_loot_for env p l =
     (let low = get_counter p;
          l = (if om_get (lo_quests l) low = None then fill_quest_loot env p l else l);
          l = (if om_get (lo_currencies l) low = None then fill_currency_loot env p l else l);
          l = (if om_get (lo_ffas l) low = None then fill_ffa_loot env p l else l) in
      if om_get (lo_conds l) low = None then fill_cond_loot env p l else l)"

text \<open>
  \<open>FillLoot\<close> after the template was found: what it generates, and the players whose rights it sets
  (the members of the owner's group, or the owner alone for personal loot).
\<close>

definition fill_loot :: "loot_env \<Rightarrow> (u32 \<Rightarrow> u32) \<Rightarrow> (loot_store_item \<times> item_draw) list \<Rightarrow> guid list \<Rightarrow> loot \<Rightarrow> loot" where
  "fill_loot env rate generated players l =
     fold (fill_not_normal_loot_for env) players (fold (loot_add_item env rate) generated l)"

section \<open>The world of loot\<close>

text \<open>
  \<open>LootFault\<close> is a null pointer or an index out of range. A player's loot guid is absent when it is
  empty.
\<close>

datatype loot_error = LootFault

type_synonym 'a loot_result = "loot_error + 'a"

datatype loot_out =
    Loot_release guid guid
  | Loot_removed guid u8
  | Equip_error guid u8 u32
  | New_item guid u32 u32
  | Start_roll guid guid u8 u8
  | Roll_update guid guid u32 u8 u8
  | Roll_won guid guid u32 u8 u8
  | All_passed guid u8
  | Master_list guid "guid list"
  | Money_notify guid u32 bool
  | Money_removed guid

record loot_world =
  lw_loots :: "(guid, loot) omap"
  lw_open :: "(guid, guid) omap"
  lw_got :: "loot_award list"
  lw_out :: "loot_out list"

definition loot_emit :: "loot_out list \<Rightarrow> 'a loot_world_scheme \<Rightarrow> 'a loot_world_scheme" where
  "loot_emit xs w = w\<lparr>lw_out := lw_out w @ xs\<rparr>"

definition loot_give :: "loot_award \<Rightarrow> 'a loot_world_scheme \<Rightarrow> 'a loot_world_scheme" where
  "loot_give a w = w\<lparr>lw_got := lw_got w @ [a]\<rparr>"

definition put_loot :: "guid \<Rightarrow> loot \<Rightarrow> 'a loot_world_scheme \<Rightarrow> 'a loot_world_scheme" where
  "put_loot g l w = w\<lparr>lw_loots := om_put g l (lw_loots w)\<rparr>"

definition loot_at :: "guid \<Rightarrow> 'a loot_world_scheme \<Rightarrow> loot loot_result" where
  "loot_at g w = (case om_get (lw_loots w) g of None \<Rightarrow> Inl LootFault | Some l \<Rightarrow> Inr l)"

section \<open>Notices to the looters\<close>

definition send_loot_item_removed :: "guid \<Rightarrow> u8 \<Rightarrow> 'a loot_world_scheme \<Rightarrow> 'a loot_world_scheme" where
  "send_loot_item_removed p slot w =
     (if om_get (lw_open w) p = None then w else loot_emit [Loot_removed p slot] w)"

fun notify_looters :: "loot_env \<Rightarrow> (guid \<Rightarrow> u8 option) \<Rightarrow> guid \<Rightarrow> (guid \<times> unit) list \<Rightarrow> 'a loot_world_scheme \<Rightarrow> 'a loot_world_scheme loot_result" where
  "notify_looters env slot_of src [] w = Inr w"
| "notify_looters env slot_of src ((p, u) # ps) w =
     (if le_online env p then
        notify_looters env slot_of src ps (case slot_of p of None \<Rightarrow> w | Some slot \<Rightarrow> send_loot_item_removed p slot w)
      else sum_bind (loot_at src w) (\<lambda>l. notify_looters env slot_of src ps (put_loot src (remove_looter p l) w)))"

definition notify_item_removed :: "loot_env \<Rightarrow> guid \<Rightarrow> u8 \<Rightarrow> 'a loot_world_scheme \<Rightarrow> 'a loot_world_scheme loot_result" where
  "notify_item_removed env src slot w =
     sum_bind (loot_at src w) (\<lambda>l. notify_looters env (\<lambda>_. Some slot) src (lo_looting l) w)"

definition find_place :: "quest_item list \<Rightarrow> nat \<Rightarrow> nat option" where
  "find_place ql i = find (\<lambda>j. unat (qi_index (ql ! j)) = i) [0 ..< length ql]"

definition notify_quest_item_removed :: "loot_env \<Rightarrow> guid \<Rightarrow> u8 \<Rightarrow> 'a loot_world_scheme \<Rightarrow> 'a loot_world_scheme loot_result" where
  "notify_quest_item_removed env src index w =
     sum_bind (loot_at src w) (\<lambda>l.
       notify_looters env
         (\<lambda>p. case om_get (lo_quests l) (get_counter p) of None \<Rightarrow> None
               | Some ql \<Rightarrow> map_option (\<lambda>j. of_nat (length (lo_items l) + j)) (find_place ql (unat index)))
         src (lo_looting l) w)"

section \<open>Taking entries out\<close>

record slot_view =
  sv_place :: loot_place
  sv_item :: loot_item
  sv_quest :: "nat option"
  sv_ffa :: "nat option"
  sv_cond :: "nat option"
  sv_currency :: "nat option"

definition slot_view_of :: "loot_place \<Rightarrow> loot_item \<Rightarrow> slot_view" where
  "slot_view_of place it = \<lparr>sv_place = place, sv_item = it, sv_quest = None, sv_ffa = None, sv_cond = None, sv_currency = None\<rparr>"

definition own_entry :: "(u32, quest_item list) omap \<Rightarrow> guid \<Rightarrow> nat \<Rightarrow> (nat \<times> quest_item) option" where
  "own_entry m p i =
     (case om_get m (get_counter p) of None \<Rightarrow> None
      | Some ql \<Rightarrow> map_option (\<lambda>j. (j, ql ! j)) (find_place ql i))"

definition loot_item_in_slot :: "nat \<Rightarrow> guid \<Rightarrow> loot \<Rightarrow> slot_view option loot_result" where
  "loot_item_in_slot slot p l =
     (if length (lo_items l) \<le> slot then
        let quest_slot = slot - length (lo_items l) in
        case om_get (lo_quests l) (get_counter p) of
          None \<Rightarrow> Inr None
        | Some ql \<Rightarrow>
            if quest_slot < length ql then
              let q = ql ! quest_slot; i = unat (qi_index q) in
              if length (lo_quest_items l) \<le> i then Inl LootFault
              else Inr (if qi_looted q then None
                        else Some ((slot_view_of (Quest_at i) (lo_quest_items l ! i))\<lparr>sv_quest := Some quest_slot\<rparr>))
            else Inr None
      else
        let it = lo_items l ! slot; v = slot_view_of (Plain_at slot) it;
            entry = (if li_currency it then own_entry (lo_currencies l) p slot
                     else if li_ffa it then own_entry (lo_ffas l) p slot
                     else if li_condition it \<noteq> 0 then own_entry (lo_conds l) p slot
                     else None);
            is_looted = (case entry of None \<Rightarrow> li_looted it | Some (j, q) \<Rightarrow> qi_looted q);
            at = map_option fst entry in
        Inr (if is_looted then None
             else Some (if li_currency it then v\<lparr>sv_currency := at\<rparr>
                        else if li_ffa it then v\<lparr>sv_ffa := at\<rparr>
                        else v\<lparr>sv_cond := at\<rparr>)))"

definition get_max_slot_in_loot_for :: "guid \<Rightarrow> loot \<Rightarrow> nat" where
  "get_max_slot_in_loot_for p l =
     length (lo_items l) + (case om_get (lo_quests l) (get_counter p) of None \<Rightarrow> 0 | Some ql \<Rightarrow> length ql)"

definition mark_own :: "guid \<Rightarrow> nat option \<Rightarrow> (u32, quest_item list) omap \<Rightarrow> (u32, quest_item list) omap" where
  "mark_own p at m =
     (case (at, om_get m (get_counter p)) of
        (Some j, Some ql) \<Rightarrow> om_put (get_counter p) (ql[j := (ql ! j)\<lparr>qi_looted := True\<rparr>]) m
      | _ \<Rightarrow> m)"

definition set_looted :: "loot_place \<Rightarrow> loot \<Rightarrow> loot" where
  "set_looted place l =
     (case place of
        Plain_at i \<Rightarrow> l\<lparr>lo_items := (lo_items l)[i := (lo_items l ! i)\<lparr>li_looted := True\<rparr>]\<rparr>
      | Quest_at i \<Rightarrow> l\<lparr>lo_quest_items := (lo_quest_items l)[i := (lo_quest_items l ! i)\<lparr>li_looted := True\<rparr>]\<rparr>)"

definition on_loot :: "guid \<Rightarrow> (loot \<Rightarrow> loot) \<Rightarrow> 'a loot_world_scheme \<Rightarrow> 'a loot_world_scheme loot_result" where
  "on_loot src f w = sum_bind (loot_at src w) (\<lambda>l. Inr (put_loot src (f l) w))"

definition source_of :: "guid \<Rightarrow> loot \<Rightarrow> loot_place \<Rightarrow> loot_item \<Rightarrow> loot_source" where
  "source_of src l place it = \<lparr>ls_loot = src, ls_fill = lo_fill l, ls_place = place, ls_item = it\<rparr>"

text \<open>The entry is marked for the player who took it, and the looters are told.\<close>

definition mark_taken :: "loot_env \<Rightarrow> guid \<Rightarrow> guid \<Rightarrow> u8 \<Rightarrow> slot_view \<Rightarrow> 'a loot_world_scheme \<Rightarrow> 'a loot_world_scheme loot_result" where
  "mark_taken env p src slot v w =
     (case sv_quest v of
        Some j \<Rightarrow>
          sum_bind (on_loot src (\<lambda>l. l\<lparr>lo_quests := mark_own p (Some j) (lo_quests l)\<rparr>) w) (\<lambda>w.
          sum_bind (loot_at src w) (\<lambda>l.
            if li_ffa (sv_item v) \<or> length (lo_quests l) = 1 then Inr (send_loot_item_removed p slot w)
            else case om_get (lo_quests l) (get_counter p) of
                None \<Rightarrow> Inl LootFault
              | Some ql \<Rightarrow> notify_quest_item_removed env src (qi_index (ql ! j)) w))
      | None \<Rightarrow>
          if sv_ffa v \<noteq> None then
            sum_bind (on_loot src (\<lambda>l. l\<lparr>lo_ffas := mark_own p (sv_ffa v) (lo_ffas l)\<rparr>) w) (\<lambda>w.
              Inr (send_loot_item_removed p slot w))
          else
            sum_bind (on_loot src (\<lambda>l. l\<lparr>lo_conds := mark_own p (sv_cond v) (lo_conds l)\<rparr>) w) (\<lambda>w.
              notify_item_removed env src slot w))"

text \<open>The entry that the player sees in a slot; the result says whether the loop goes on.\<close>

definition take_view :: "loot_env \<Rightarrow> guid \<Rightarrow> guid \<Rightarrow> u8 \<Rightarrow> loot \<Rightarrow> slot_view \<Rightarrow> 'a loot_world_scheme \<Rightarrow> (bool \<times> 'a loot_world_scheme) loot_result" where
  "take_view env p src slot l v w =
     (let it = sv_item v in
      if sv_quest v = None \<and> li_blocked it then Inr (False, loot_emit [Loot_release p src] w)
      else if sv_currency v \<noteq> None then
        let w = (case le_currency_precision env (li_itemid it) of None \<Rightarrow> w
                 | Some precision \<Rightarrow> loot_give (Currency_gained p (li_itemid it) (li_count it * precision)) w) in
        sum_bind (on_loot src (\<lambda>l. l\<lparr>lo_currencies := mark_own p (sv_currency v) (lo_currencies l),
                                      lo_unlooted := lo_unlooted l - 1\<rparr>) w) (\<lambda>w.
          Inr (True, send_loot_item_removed p slot w))
      else
        let msg = le_can_store env (lw_got w) p (li_itemid it) (li_count it) in
        if msg = EQUIP_ERR_OK then
          sum_bind (mark_taken env p src slot v (loot_give (Stored p (source_of src l (sv_place v) it)) w)) (\<lambda>w.
          sum_bind (on_loot src (\<lambda>l. (if li_ffa it then l else set_looted (sv_place v) l)
                                        \<lparr>lo_unlooted := lo_unlooted l - 1\<rparr>) w) (\<lambda>w.
            Inr (True, loot_emit [New_item p (li_itemid it) (li_count it)] w)))
        else Inr (False, loot_emit [Equip_error p msg (li_itemid it)] w))"

definition take_entry :: "loot_env \<Rightarrow> guid \<Rightarrow> guid \<Rightarrow> u8 \<Rightarrow> 'a loot_world_scheme \<Rightarrow> (bool \<times> 'a loot_world_scheme) loot_result" where
  "take_entry env p src slot w =
     sum_bind (loot_at src w) (\<lambda>l.
     sum_bind (loot_item_in_slot (unat slot) p l) (\<lambda>view.
       case view of
         None \<Rightarrow> Inr (False, loot_emit [Equip_error p EQUIP_ERR_ALREADY_LOOTED 0] w)
       | Some v \<Rightarrow> take_view env p src slot l v w))"

fun take_entries :: "loot_env \<Rightarrow> guid \<Rightarrow> guid \<Rightarrow> u8 list \<Rightarrow> 'a loot_world_scheme \<Rightarrow> 'a loot_world_scheme loot_result" where
  "take_entries env p src [] w = Inr w"
| "take_entries env p src (slot # slots) w =
     sum_bind (take_entry env p src slot w) (\<lambda>r. if fst r then take_entries env p src slots (snd r) else Inr (snd r))"

text \<open>
  The request, for the loot of creatures, chests and corpses: \<open>le_reach\<close> says that the object of the
  player's loot guid is there, lootable and near. An entry with another loot guid ends the request.
\<close>

definition handle_autostore_loot_item :: "loot_env \<Rightarrow> guid \<Rightarrow> (guid \<times> u8) list \<Rightarrow> 'a loot_world_scheme \<Rightarrow> 'a loot_world_scheme loot_result" where
  "handle_autostore_loot_item env p entries w =
     (let lguid = (case om_get (lw_open w) p of None \<Rightarrow> 0 | Some g \<Rightarrow> g) in
      if \<exists>e \<in> set entries. fst e \<noteq> lguid then Inr w
      else if om_get (lw_loots w) lguid = None \<or> \<not> le_reach env p lguid then Inr (loot_emit [Loot_release p lguid] w)
      else take_entries env p lguid (map snd entries) w)"

end
