(* ===== verification/LootRolls.thy ===== *)
theory LootRolls
  imports Loot
begin

text \<open>
  The rolls of a group for the items of a corpse or chest: the class \<open>Roll\<close> and the loot system of
  \<open>Group\<close> (\<open>src/src/game/WorldHandlers/Group.h\<close>, \<open>Group.cpp\<close>), the rolls of a member who leaves
  (\<open>GroupMemberState.cpp\<close>), the roll request (\<open>GroupHandler.cpp\<close>), and the corpse that starts and stops
  the rolls (\<open>Object/Creature.cpp\<close>, \<open>Object/PlayerLoot.cpp\<close>, \<open>LootHandler.cpp\<close>). A roll's validator
  reference is the guid of the container while it is linked. The votes are a hash map: their order
  is an argument.
\<close>

section \<open>Data\<close>

datatype loot_method = FREE_FOR_ALL | ROUND_ROBIN | MASTER_LOOT | GROUP_LOOT | NEED_BEFORE_GREED | NOT_GROUP_TYPE_LOOT

datatype roll_vote = ROLL_PASS | ROLL_NEED | ROLL_GREED | ROLL_DISENCHANT | ROLL_NOT_EMITED_YET | ROLL_NOT_VALID

fun roll_vote_value :: "roll_vote \<Rightarrow> u8" where
  "roll_vote_value ROLL_PASS = 0"
| "roll_vote_value ROLL_NEED = 1"
| "roll_vote_value ROLL_GREED = 2"
| "roll_vote_value ROLL_DISENCHANT = 3"
| "roll_vote_value ROLL_NOT_EMITED_YET = 4"
| "roll_vote_value ROLL_NOT_VALID = 5"

definition roll_vote_of :: "u8 \<Rightarrow> roll_vote" where
  "roll_vote_of v = (if v = 0 then ROLL_PASS else if v = 1 then ROLL_NEED else if v = 2 then ROLL_GREED
     else if v = 3 then ROLL_DISENCHANT else if v = 4 then ROLL_NOT_EMITED_YET else ROLL_NOT_VALID)"

definition MAX_ROLL_FROM_CLIENT :: u8 where "MAX_ROLL_FROM_CLIENT = 4"

definition ROLL_VOTE_MASK_NEED :: u8 where "ROLL_VOTE_MASK_NEED = 0x02"
definition ROLL_VOTE_MASK_DISENCHANT :: u8 where "ROLL_VOTE_MASK_DISENCHANT = 0x08"
definition ROLL_VOTE_MASK_ALL :: u8 where "ROLL_VOTE_MASK_ALL = 0x0F"

definition LOOT_ROLL_TIMEOUT :: u32 where "LOOT_ROLL_TIMEOUT = 60000"

record roll =
  ro_target :: guid
  ro_itemid :: u32
  ro_property :: u32
  ro_suffix :: u32
  ro_count :: u8
  ro_votes :: "(guid \<times> roll_vote) list"
  ro_players :: u8
  ro_need :: u8
  ro_greed :: u8
  ro_pass :: u8
  ro_slot :: u8
  ro_method :: loot_method
  ro_mask :: u8
  ro_loot :: "guid option"

definition roll_new :: "guid \<Rightarrow> loot_method \<Rightarrow> loot_item \<Rightarrow> roll" where
  "roll_new target method li =
     \<lparr>ro_target = target, ro_itemid = li_itemid li, ro_property = li_property li, ro_suffix = li_suffix li,
      ro_count = ucast (li_count li), ro_votes = [], ro_players = 0, ro_need = 0, ro_greed = 0, ro_pass = 0,
      ro_slot = 0, ro_method = method, ro_mask = ROLL_VOTE_MASK_ALL, ro_loot = None\<rparr>"

definition calculate_common_vote_mask :: "loot_env \<Rightarrow> roll \<Rightarrow> roll loot_result" where
  "calculate_common_vote_mask env r =
     (case le_proto env (ro_itemid r) of
        None \<Rightarrow> Inl LootFault
      | Some proto \<Rightarrow>
          let mask = ROLL_VOTE_MASK_ALL;
              mask = (if ip_need_disabled proto then mask AND NOT ROLL_VOTE_MASK_NEED else mask);
              mask = (if ip_disenchant proto = 0 \<or> le_enchanting env < ip_disenchant_skill proto
                      then mask AND NOT ROLL_VOTE_MASK_DISENCHANT else mask) in
          Inr (r\<lparr>ro_mask := mask\<rparr>))"

definition get_vote_mask_for :: "loot_env \<Rightarrow> guid \<Rightarrow> roll \<Rightarrow> u8" where
  "get_vote_mask_for env p r =
     (if ro_method r \<noteq> NEED_BEFORE_GREED \<or> le_can_use env p (ro_itemid r) then ro_mask r
      else ro_mask r AND NOT ROLL_VOTE_MASK_NEED)"

text \<open>The group with its rolls, and the corpses whose roll timer runs.\<close>

record roll_world = loot_world +
  lw_rolls :: "roll list"
  lw_members :: "guid list"
  lw_method :: loot_method
  lw_threshold :: u32
  lw_timers :: "(guid, u32) omap"
  lw_draws :: nat

definition put_roll :: "nat \<Rightarrow> roll \<Rightarrow> roll_world \<Rightarrow> roll_world" where
  "put_roll i r w = w\<lparr>lw_rolls := (lw_rolls w)[i := r]\<rparr>"

definition erase_roll :: "nat \<Rightarrow> roll_world \<Rightarrow> roll_world" where
  "erase_roll i w = w\<lparr>lw_rolls := take i (lw_rolls w) @ drop (Suc i) (lw_rolls w)\<rparr>"

section \<open>Packets\<close>

definition told :: "loot_env \<Rightarrow> roll \<Rightarrow> guid list" where
  "told env r = map fst (filter (\<lambda>(q, v). le_online env q \<and> v \<noteq> ROLL_NOT_VALID) (ro_votes r))"

definition send_loot_start_roll :: "loot_env \<Rightarrow> roll \<Rightarrow> roll_world \<Rightarrow> roll_world" where
  "send_loot_start_roll env r w =
     (if le_proto env (ro_itemid r) = None then w
      else loot_emit (map (\<lambda>q. Start_roll q (ro_target r) (ro_slot r) (get_vote_mask_for env q r)) (told env r)) w)"

definition send_loot_roll :: "loot_env \<Rightarrow> guid \<Rightarrow> u32 \<Rightarrow> roll_vote \<Rightarrow> roll \<Rightarrow> roll_world \<Rightarrow> roll_world" where
  "send_loot_roll env target number vote r w =
     (if le_proto env (ro_itemid r) = None then w
      else loot_emit (map (\<lambda>q. Roll_update q target number (ro_slot r) (roll_vote_value vote)) (told env r)) w)"

definition send_loot_roll_won :: "loot_env \<Rightarrow> guid \<Rightarrow> u32 \<Rightarrow> roll_vote \<Rightarrow> roll \<Rightarrow> roll_world \<Rightarrow> roll_world" where
  "send_loot_roll_won env target number vote r w =
     (if le_proto env (ro_itemid r) = None then w
      else loot_emit (map (\<lambda>q. Roll_won q target number (ro_slot r) (roll_vote_value vote)) (told env r)) w)"

definition send_loot_all_passed :: "loot_env \<Rightarrow> roll \<Rightarrow> roll_world \<Rightarrow> roll_world" where
  "send_loot_all_passed env r w =
     (if le_proto env (ro_itemid r) = None then w
      else loot_emit (map (\<lambda>q. All_passed q (ro_slot r)) (told env r)) w)"

section \<open>Starting rolls\<close>

definition set_blocked :: "nat \<Rightarrow> bool \<Rightarrow> loot \<Rightarrow> loot" where
  "set_blocked i b l = l\<lparr>lo_items := (lo_items l)[i := (lo_items l ! i)\<lparr>li_blocked := b\<rparr>]\<rparr>"

definition set_under :: "nat \<Rightarrow> loot \<Rightarrow> loot" where
  "set_under i l = l\<lparr>lo_items := (lo_items l)[i := (lo_items l ! i)\<lparr>li_under := True\<rparr>]\<rparr>"

definition roll_candidates :: "loot_env \<Rightarrow> guid \<Rightarrow> loot_item \<Rightarrow> guid list \<Rightarrow> guid list" where
  "roll_candidates env src it members =
     filter (\<lambda>p. le_online env p \<and> \<not> le_opt_out env p \<and> allowed_for_player env p it \<and> le_near env p src) members"

text \<open>The new roll, with a vote to come from every candidate, and how it is queued.\<close>

definition open_roll :: "loot_env \<Rightarrow> guid \<Rightarrow> loot_method \<Rightarrow> nat \<Rightarrow> loot_item \<Rightarrow> guid list \<Rightarrow> roll" where
  "open_roll env src method slot it cands =
     (roll_new src method it)\<lparr>ro_votes := map (\<lambda>p. (p, ROLL_NOT_EMITED_YET)) (le_vote_order env cands),
       ro_players := of_nat (length cands), ro_slot := of_nat slot, ro_loot := Some src\<rparr>"

definition queue_roll :: "loot_env \<Rightarrow> guid \<Rightarrow> nat \<Rightarrow> loot \<Rightarrow> roll \<Rightarrow> roll_world \<Rightarrow> roll_world loot_result" where
  "queue_roll env src slot l r w =
     (if ro_players r = 1 then
        Inr (w\<lparr>lw_rolls := lw_rolls w @ [r\<lparr>ro_votes := (case ro_votes r of [] \<Rightarrow> [] | (p, v) # vs \<Rightarrow> (p, ROLL_NEED) # vs)\<rparr>]\<rparr>)
      else
        sum_bind (calculate_common_vote_mask env r) (\<lambda>r.
          let w = send_loot_start_roll env r w in
          Inr ((put_loot src (set_blocked slot True l) w)
            \<lparr>lw_timers := om_put src LOOT_ROLL_TIMEOUT (lw_timers w), lw_rolls := lw_rolls w @ [r]\<rparr>)))"

definition start_loot_roll :: "loot_env \<Rightarrow> guid \<Rightarrow> loot_method \<Rightarrow> nat \<Rightarrow> roll_world \<Rightarrow> roll_world loot_result" where
  "start_loot_roll env src method slot w =
     sum_bind (loot_at src w) (\<lambda>l.
       if length (lo_items l) \<le> slot then Inr w
       else let it = lo_items l ! slot in
         if li_currency it then Inr w
         else let r = open_roll env src method slot it (roll_candidates env src it (lw_members w)) in
           if 0 < ro_players r then queue_roll env src slot l r w else Inr w)"

text \<open>The loop of \<open>GroupLoot\<close> and \<open>NeedBeforeGreed\<close> over the slots.\<close>

fun loot_rolls_loop :: "loot_env \<Rightarrow> guid \<Rightarrow> loot_method \<Rightarrow> nat list \<Rightarrow> roll_world \<Rightarrow> roll_world loot_result" where
  "loot_rolls_loop env src method [] w = Inr w"
| "loot_rolls_loop env src method (slot # slots) w =
     sum_bind (loot_at src w) (\<lambda>l.
       let it = lo_items l ! slot in
       if li_currency it then loot_rolls_loop env src method slots w
       else case le_proto env (li_itemid it) of
           None \<Rightarrow> loot_rolls_loop env src method slots w
         | Some proto \<Rightarrow>
             if lw_threshold w \<le> ip_quality proto \<and> \<not> li_ffa it
             then sum_bind (start_loot_roll env src method slot w) (loot_rolls_loop env src method slots)
             else loot_rolls_loop env src method slots (put_loot src (set_under slot l) w))"

definition group_loot :: "loot_env \<Rightarrow> guid \<Rightarrow> roll_world \<Rightarrow> roll_world loot_result" where
  "group_loot env src w =
     sum_bind (loot_at src w) (\<lambda>l. loot_rolls_loop env src GROUP_LOOT [0 ..< length (lo_items l)] w)"

definition need_before_greed :: "loot_env \<Rightarrow> guid \<Rightarrow> roll_world \<Rightarrow> roll_world loot_result" where
  "need_before_greed env src w =
     sum_bind (loot_at src w) (\<lambda>l. loot_rolls_loop env src NEED_BEFORE_GREED [0 ..< length (lo_items l)] w)"

definition master_loot :: "loot_env \<Rightarrow> guid \<Rightarrow> roll_world \<Rightarrow> roll_world loot_result" where
  "master_loot env src w =
     sum_bind (loot_at src w) (\<lambda>l.
       let mark = (\<lambda>it. if li_currency it then it
             else case le_proto env (li_itemid it) of None \<Rightarrow> it
               | Some proto \<Rightarrow> if ip_quality proto < lw_threshold w then it\<lparr>li_under := True\<rparr> else it);
           near = filter (\<lambda>p. le_near env p src) (lw_members w);
           looters = filter (le_online env) near in
       Inr (loot_emit (map (\<lambda>p. Master_list p looters) near) (put_loot src (l\<lparr>lo_items := map mark (lo_items l)\<rparr>) w)))"

section \<open>Deciding a roll\<close>

definition roll_at :: "nat \<Rightarrow> roll_world \<Rightarrow> roll loot_result" where
  "roll_at i w = (if i < length (lw_rolls w) then Inr (lw_rolls w ! i) else Inl LootFault)"

text \<open>The item of a roll: \<open>getLoot()->items[itemSlot]\<close>.\<close>

definition roll_item :: "roll \<Rightarrow> roll_world \<Rightarrow> (guid \<times> loot \<times> loot_item) loot_result" where
  "roll_item r w =
     (case ro_loot r of
        None \<Rightarrow> Inl LootFault
      | Some src \<Rightarrow> sum_bind (loot_at src w) (\<lambda>l.
          if unat (ro_slot r) < length (lo_items l) then Inr (src, l, lo_items l ! unat (ro_slot r)) else Inl LootFault))"

definition unblock_item :: "roll \<Rightarrow> roll_world \<Rightarrow> roll_world loot_result" where
  "unblock_item r w =
     sum_bind (roll_item r w) (\<lambda>(src, l, it). Inr (put_loot src (set_blocked (unat (ro_slot r)) False l) w))"

text \<open>The item is marked, the looters are told, and one entry less is left.\<close>

definition take_rolled_item :: "loot_env \<Rightarrow> roll \<Rightarrow> roll_world \<Rightarrow> roll_world loot_result" where
  "take_rolled_item env r w =
     sum_bind (roll_item r w) (\<lambda>(src, l, it).
     sum_bind (notify_item_removed env src (ro_slot r) (put_loot src (set_looted (Plain_at (unat (ro_slot r))) l) w)) (\<lambda>w.
       on_loot src (\<lambda>l. l\<lparr>lo_unlooted := lo_unlooted l - 1\<rparr>) w))"

definition store_rolled_item :: "loot_env \<Rightarrow> guid \<Rightarrow> roll \<Rightarrow> roll_world \<Rightarrow> roll_world loot_result" where
  "store_rolled_item env p r w =
     sum_bind (roll_item r w) (\<lambda>(src, l, it).
       let msg = le_can_store env (lw_got w) p (ro_itemid r) (li_count it) in
       if msg = EQUIP_ERR_OK then
         sum_bind (take_rolled_item env r w) (\<lambda>w.
           Inr (loot_give (Stored p (source_of src l (Plain_at (unat (ro_slot r))) it)) w))
       else sum_bind (unblock_item r w) (\<lambda>w. Inr (loot_emit [Equip_error p msg (ro_itemid r)] w)))"

definition disenchant_rolled_item :: "loot_env \<Rightarrow> guid \<Rightarrow> roll \<Rightarrow> roll_world \<Rightarrow> roll_world loot_result" where
  "disenchant_rolled_item env p r w =
     sum_bind (roll_item r w) (\<lambda>(src, l, it).
     sum_bind (take_rolled_item env r w) (\<lambda>w.
       case le_proto env (ro_itemid r) of
         None \<Rightarrow> Inl LootFault
       | Some proto \<Rightarrow>
           Inr (loot_give (Disenchanted p (source_of src l (Plain_at (unat (ro_slot r))) it) (ip_disenchant proto)) w)))"

text \<open>The dice: the highest throw so far, who threw it and what he had voted.\<close>

fun need_dice :: "loot_env \<Rightarrow> roll \<Rightarrow> (guid \<times> roll_vote) list \<Rightarrow> guid \<times> u32 \<Rightarrow> roll_world \<Rightarrow> (guid \<times> u32) \<times> roll_world" where
  "need_dice env r [] best w = (best, w)"
| "need_dice env r ((p, v) # vs) best w =
     (if v \<noteq> ROLL_NEED then need_dice env r vs best w
      else let n = le_urand env (lw_draws w);
               w = send_loot_roll env p n ROLL_NEED r (w\<lparr>lw_draws := Suc (lw_draws w)\<rparr>) in
        need_dice env r vs (if snd best < n then (p, n) else best) w)"

fun greed_dice :: "loot_env \<Rightarrow> roll \<Rightarrow> (guid \<times> roll_vote) list \<Rightarrow> guid \<times> u32 \<times> roll_vote \<Rightarrow> roll_world \<Rightarrow> (guid \<times> u32 \<times> roll_vote) \<times> roll_world" where
  "greed_dice env r [] best w = (best, w)"
| "greed_dice env r ((p, v) # vs) best w =
     (if v \<noteq> ROLL_GREED \<and> v \<noteq> ROLL_DISENCHANT then greed_dice env r vs best w
      else let n = le_urand env (lw_draws w);
               w = send_loot_roll env p n v r (w\<lparr>lw_draws := Suc (lw_draws w)\<rparr>) in
        greed_dice env r vs (if fst (snd best) < n then (p, n, v) else best) w)"

definition need_branch :: "loot_env \<Rightarrow> roll \<Rightarrow> roll_world \<Rightarrow> roll_world loot_result" where
  "need_branch env r w =
     (case ro_votes r of
        [] \<Rightarrow> Inr w
      | e # _ \<Rightarrow>
          let ((p, n), w) = need_dice env r (ro_votes r) (fst e, 0) w;
              w = send_loot_roll_won env p n ROLL_NEED r w in
          if le_online env p then store_rolled_item env p r w else Inr w)"

definition greed_branch :: "loot_env \<Rightarrow> roll \<Rightarrow> roll_world \<Rightarrow> roll_world loot_result" where
  "greed_branch env r w =
     (case ro_votes r of
        [] \<Rightarrow> Inr w
      | e # _ \<Rightarrow>
          let ((p, n, v), w) = greed_dice env r (ro_votes r) (fst e, 0, ROLL_PASS) w;
              w = send_loot_roll_won env p n v r w in
          if le_online env p then
            if v = ROLL_GREED then store_rolled_item env p r w
            else if v = ROLL_DISENCHANT then disenchant_rolled_item env p r w
            else Inr w
          else Inr w)"

definition count_the_roll :: "loot_env \<Rightarrow> nat \<Rightarrow> roll_world \<Rightarrow> roll_world loot_result" where
  "count_the_roll env i w =
     sum_bind (roll_at i w) (\<lambda>r.
       if ro_loot r = None then Inr (erase_roll i w)
       else sum_bind
         (if 0 < ro_need r then need_branch env r w
          else if 0 < ro_greed r then greed_branch env r w
          else unblock_item r (send_loot_all_passed env r w))
         (\<lambda>w. Inr (erase_roll i w)))"

section \<open>Votes\<close>

definition cast_vote :: "guid \<Rightarrow> roll_vote \<Rightarrow> roll \<Rightarrow> roll" where
  "cast_vote p v r = r\<lparr>ro_votes := map (\<lambda>e. if fst e = p then (p, v) else e) (ro_votes r)\<rparr>"

definition count_vote :: "loot_env \<Rightarrow> guid \<Rightarrow> roll_vote \<Rightarrow> roll \<Rightarrow> roll_world \<Rightarrow> roll \<times> roll_world" where
  "count_vote env p v r w =
     (case v of
        ROLL_PASS \<Rightarrow> (cast_vote p v (r\<lparr>ro_pass := ro_pass r + 1\<rparr>), send_loot_roll env p (- 1) v r w)
      | ROLL_NEED \<Rightarrow> (cast_vote p v (r\<lparr>ro_need := ro_need r + 1\<rparr>), send_loot_roll env p 0 v r w)
      | ROLL_GREED \<Rightarrow> (cast_vote p v (r\<lparr>ro_greed := ro_greed r + 1\<rparr>), send_loot_roll env p (- 1) v r w)
      | ROLL_DISENCHANT \<Rightarrow> (cast_vote p v (r\<lparr>ro_greed := ro_greed r + 1\<rparr>), send_loot_roll env p (- 1) v r w)
      | _ \<Rightarrow> (r, w))"

definition all_voted :: "roll \<Rightarrow> bool" where
  "all_voted r \<longleftrightarrow> unat (ro_players r) \<le> unat (ro_pass r) + unat (ro_need r) + unat (ro_greed r)"

definition roll_loot_is_empty :: "roll \<Rightarrow> roll_world \<Rightarrow> bool" where
  "roll_loot_is_empty r w \<longleftrightarrow>
     (case ro_loot r of None \<Rightarrow> False
      | Some src \<Rightarrow> (case om_get (lw_loots w) src of None \<Rightarrow> False | Some l \<Rightarrow> lo_items l = []))"

definition count_roll_vote :: "loot_env \<Rightarrow> guid \<Rightarrow> nat \<Rightarrow> roll_vote \<Rightarrow> roll_world \<Rightarrow> (bool \<times> roll_world) loot_result" where
  "count_roll_vote env p i v w =
     sum_bind (roll_at i w) (\<lambda>r.
       if map_of (ro_votes r) p = None then Inr (True, w)
       else if roll_loot_is_empty r w then Inr (False, w)
       else let (r, w) = count_vote env p v r w; w = put_roll i r w in
         if all_voted r then sum_bind (count_the_roll env i w) (\<lambda>w. Inr (True, w))
         else Inr (False, w))"

definition find_roll :: "guid \<Rightarrow> u8 \<Rightarrow> roll list \<Rightarrow> nat option" where
  "find_roll target slot rs =
     find (\<lambda>i. ro_loot (rs ! i) \<noteq> None \<and> ro_target (rs ! i) = target \<and> ro_slot (rs ! i) = slot) [0 ..< length rs]"

definition count_player_roll_vote :: "loot_env \<Rightarrow> guid \<Rightarrow> guid \<Rightarrow> u8 \<Rightarrow> roll_vote \<Rightarrow> roll_world \<Rightarrow> (bool \<times> roll_world) loot_result" where
  "count_player_roll_vote env p target slot v w =
     (case find_roll target slot (lw_rolls w) of
        None \<Rightarrow> Inr (False, w)
      | Some i \<Rightarrow>
          if \<not> bit (get_vote_mask_for env p (lw_rolls w ! i)) (unat (roll_vote_value v)) then Inr (False, w)
          else sum_bind (count_roll_vote env p i v w) (\<lambda>r. Inr (True, snd r)))"

definition handle_loot_roll :: "loot_env \<Rightarrow> guid \<Rightarrow> guid \<Rightarrow> u8 \<Rightarrow> u8 \<Rightarrow> roll_world \<Rightarrow> roll_world loot_result" where
  "handle_loot_roll env p target slot roll_type w =
     (if p \<notin> set (lw_members w) then Inr w
      else if MAX_ROLL_FROM_CLIENT \<le> roll_type then Inr w
      else sum_bind (count_player_roll_vote env p target slot (roll_vote_of roll_type) w) (\<lambda>r. Inr (snd r)))"

section \<open>A member who leaves\<close>

definition drop_vote :: "guid \<Rightarrow> roll_vote \<Rightarrow> roll \<Rightarrow> roll" where
  "drop_vote p v r =
     (let r = (if v = ROLL_GREED \<or> v = ROLL_DISENCHANT then r\<lparr>ro_greed := ro_greed r - 1\<rparr> else r);
          r = (if v = ROLL_NEED then r\<lparr>ro_need := ro_need r - 1\<rparr> else r);
          r = (if v = ROLL_PASS then r\<lparr>ro_pass := ro_pass r - 1\<rparr> else r);
          r = (if v \<noteq> ROLL_NOT_VALID then r\<lparr>ro_players := ro_players r - 1\<rparr> else r) in
      r\<lparr>ro_votes := filter (\<lambda>e. fst e \<noteq> p) (ro_votes r)\<rparr>)"

lemma drop_vote_votes [simp]: "ro_votes (drop_vote p v r) = filter (\<lambda>e. fst e \<noteq> p) (ro_votes r)"
  by (simp add: drop_vote_def Let_def)

lemma map_of_filter_fst: "map_of (filter (\<lambda>e. fst e \<noteq> p) xs) p = None"
  by (induction xs) auto

lemma count_roll_vote_absent:
  "i < length (lw_rolls w) \<Longrightarrow> map_of (ro_votes (lw_rolls w ! i)) p = None \<Longrightarrow> count_roll_vote env p i v w = Inr (True, w)"
  by (simp add: count_roll_vote_def roll_at_def)

definition votes_left :: "roll_world \<Rightarrow> nat" where
  "votes_left w = sum_list (map (length \<circ> ro_votes) (lw_rolls w))"

lemma put_roll_rolls [simp]: "lw_rolls (put_roll i r w) = (lw_rolls w)[i := r]"
  by (simp add: put_roll_def)

lemma filter_fst_less: "map_of xs p = Some v \<Longrightarrow> length (filter (\<lambda>e. fst e \<noteq> p) xs) < length xs"
  by (rule length_filter_less [where x = "(p, v)"]) (auto dest: map_of_SomeD)

lemma votes_left_drop:
  assumes "i < length (lw_rolls w)" and "map_of (ro_votes (lw_rolls w ! i)) p = Some v"
  shows "votes_left (put_roll i (drop_vote p v (lw_rolls w ! i)) w) < votes_left w"
proof -
  have "sum_list (map (length \<circ> ro_votes) (lw_rolls w)) =
      length (ro_votes (lw_rolls w ! i)) + sum_list (map (length \<circ> ro_votes) (take i (lw_rolls w) @ drop (Suc i) (lw_rolls w)))"
    by (subst id_take_nth_drop [OF assms(1)]) simp
  moreover have "votes_left (put_roll i (drop_vote p v (lw_rolls w ! i)) w) =
      length (filter (\<lambda>e. fst e \<noteq> p) (ro_votes (lw_rolls w ! i))) +
      sum_list (map (length \<circ> ro_votes) (take i (lw_rolls w) @ drop (Suc i) (lw_rolls w)))"
    using assms(1) by (simp add: votes_left_def upd_conv_take_nth_drop)
  ultimately show ?thesis using filter_fst_less [OF assms(2)] by (simp add: votes_left_def)
qed

lemma count_roll_vote_dropped:
  assumes "i < length (lw_rolls w)"
  shows "count_roll_vote env p i v' (put_roll i (drop_vote p v (lw_rolls w ! i)) w) =
    Inr (True, put_roll i (drop_vote p v (lw_rolls w ! i)) w)"
  using assms by (intro count_roll_vote_absent) (simp_all add: map_of_filter_fst)

text \<open>
  \<open>_removeRolls\<close>: where the vote is counted away the iterator stays, and the same roll comes again
  without the player.
\<close>

function remove_rolls_from :: "loot_env \<Rightarrow> guid \<Rightarrow> nat \<Rightarrow> roll_world \<Rightarrow> roll_world loot_result" where
  "remove_rolls_from env p i w =
     (if length (lw_rolls w) \<le> i then Inr w
      else case map_of (ro_votes (lw_rolls w ! i)) p of
          None \<Rightarrow> remove_rolls_from env p (Suc i) w
        | Some v \<Rightarrow>
            (case count_roll_vote env p i ROLL_NOT_EMITED_YET (put_roll i (drop_vote p v (lw_rolls w ! i)) w) of
               Inl e \<Rightarrow> Inl e
             | Inr (True, w) \<Rightarrow> remove_rolls_from env p i w
             | Inr (False, w) \<Rightarrow> remove_rolls_from env p (Suc i) w))"
  by pat_completeness auto

termination
  by (relation "measure (\<lambda>(env, p, i, w). votes_left w + (length (lw_rolls w) - i))")
    (auto simp: count_roll_vote_dropped dest: votes_left_drop [rotated])

declare remove_rolls_from.simps [simp del]

definition remove_rolls :: "loot_env \<Rightarrow> guid \<Rightarrow> roll_world \<Rightarrow> roll_world loot_result" where
  "remove_rolls env p w = remove_rolls_from env p 0 w"

text \<open>What \<open>_removeMember\<close> does to the group's loot: the player leaves the list, then its rolls go.\<close>

definition leave_group :: "loot_env \<Rightarrow> guid \<Rightarrow> roll_world \<Rightarrow> roll_world loot_result" where
  "leave_group env p w = remove_rolls env p (w\<lparr>lw_members := filter (\<lambda>q. q \<noteq> p) (lw_members w)\<rparr>)"

definition link_member :: "guid \<Rightarrow> roll_world \<Rightarrow> roll_world" where
  "link_member p w = w\<lparr>lw_members := p # lw_members w\<rparr>"

section \<open>The end of the rolls\<close>

lemma put_loot_rolls [simp]: "lw_rolls (put_loot g l w) = lw_rolls w"
  by (simp add: put_loot_def)

lemma loot_emit_rolls [simp]: "lw_rolls (loot_emit xs w) = lw_rolls w"
  by (simp add: loot_emit_def)

lemma loot_give_rolls [simp]: "lw_rolls (loot_give a w) = lw_rolls w"
  by (simp add: loot_give_def)

lemma send_rolls [simp]:
  "lw_rolls (send_loot_roll env p n v r w) = lw_rolls w"
  "lw_rolls (send_loot_roll_won env p n v r w) = lw_rolls w"
  "lw_rolls (send_loot_all_passed env r w) = lw_rolls w"
  "lw_rolls (send_loot_start_roll env r w) = lw_rolls w"
  "lw_rolls (send_loot_item_removed p slot w) = lw_rolls w"
  by (simp_all add: send_loot_roll_def send_loot_roll_won_def send_loot_all_passed_def send_loot_start_roll_def
      send_loot_item_removed_def)

lemma notify_looters_rolls: "notify_looters env f src ps (w :: roll_world) = Inr w' \<Longrightarrow> lw_rolls w' = lw_rolls w"
  by (induction env f src ps w rule: notify_looters.induct)
    (auto simp: sum_bind_Inr_iff split: if_splits option.splits)

lemma on_loot_rolls: "on_loot src f (w :: roll_world) = Inr w' \<Longrightarrow> lw_rolls w' = lw_rolls w"
  by (auto simp: on_loot_def sum_bind_Inr_iff)

lemma take_rolled_item_rolls: "take_rolled_item env r w = Inr w' \<Longrightarrow> lw_rolls w' = lw_rolls w"
  by (auto simp: take_rolled_item_def notify_item_removed_def sum_bind_Inr_iff dest!: notify_looters_rolls on_loot_rolls)

lemma unblock_item_rolls: "unblock_item r w = Inr w' \<Longrightarrow> lw_rolls w' = lw_rolls w"
  by (auto simp: unblock_item_def sum_bind_Inr_iff)

lemma store_rolled_item_rolls: "store_rolled_item env p r w = Inr w' \<Longrightarrow> lw_rolls w' = lw_rolls w"
  by (auto simp: store_rolled_item_def sum_bind_Inr_iff Let_def split: if_splits
      dest!: take_rolled_item_rolls unblock_item_rolls)

lemma disenchant_rolled_item_rolls: "disenchant_rolled_item env p r w = Inr w' \<Longrightarrow> lw_rolls w' = lw_rolls w"
  by (auto simp: disenchant_rolled_item_def sum_bind_Inr_iff split: option.splits dest!: take_rolled_item_rolls)

lemma need_dice_rolls: "lw_rolls (snd (need_dice env r vs b w)) = lw_rolls w"
  by (induction env r vs b w rule: need_dice.induct) (simp_all add: Let_def)

lemma greed_dice_rolls: "lw_rolls (snd (greed_dice env r vs b w)) = lw_rolls w"
  by (induction env r vs b w rule: greed_dice.induct) (simp_all add: Let_def)

lemma need_branch_rolls: "need_branch env r w = Inr w' \<Longrightarrow> lw_rolls w' = lw_rolls w"
  using need_dice_rolls [of env r "ro_votes r" "(fst (hd (ro_votes r)), 0)" w]
  by (auto simp: need_branch_def Let_def split: list.splits prod.splits if_splits dest!: store_rolled_item_rolls)

lemma greed_branch_rolls: "greed_branch env r w = Inr w' \<Longrightarrow> lw_rolls w' = lw_rolls w"
  using greed_dice_rolls [of env r "ro_votes r" "(fst (hd (ro_votes r)), 0, ROLL_PASS)" w]
  by (auto simp: greed_branch_def Let_def split: list.splits prod.splits if_splits
      dest!: store_rolled_item_rolls disenchant_rolled_item_rolls)

lemma count_the_roll_rolls:
  assumes "count_the_roll env i w = Inr w'"
  shows "i < length (lw_rolls w)" and "lw_rolls w' = take i (lw_rolls w) @ drop (Suc i) (lw_rolls w)"
  using assms
  by (auto simp: count_the_roll_def roll_at_def erase_roll_def sum_bind_Inr_iff split: if_splits
      dest!: need_branch_rolls greed_branch_rolls unblock_item_rolls)

function end_roll :: "loot_env \<Rightarrow> roll_world \<Rightarrow> roll_world loot_result" where
  "end_roll env w =
     (if lw_rolls w = [] then Inr w
      else case count_the_roll env 0 w of Inl e \<Rightarrow> Inl e | Inr w \<Rightarrow> end_roll env w)"
  by pat_completeness auto

termination
  by (relation "measure (\<lambda>(env, w). length (lw_rolls w))") (auto dest!: count_the_roll_rolls(2))

declare end_roll.simps [simp del]

text \<open>The corpse: \<open>m_groupLootId\<close> and its timer, the update of a dead creature, and its removal.\<close>

definition stop_group_loot :: "loot_env \<Rightarrow> guid \<Rightarrow> roll_world \<Rightarrow> roll_world loot_result" where
  "stop_group_loot env src w =
     (if om_get (lw_timers w) src = None then Inr w
      else sum_bind (end_roll env w) (\<lambda>w. Inr (w\<lparr>lw_timers := om_erase src (lw_timers w)\<rparr>)))"

definition update_group_loot :: "loot_env \<Rightarrow> guid \<Rightarrow> u32 \<Rightarrow> roll_world \<Rightarrow> roll_world loot_result" where
  "update_group_loot env src diff w =
     (case om_get (lw_timers w) src of
        None \<Rightarrow> Inr w
      | Some t \<Rightarrow>
          if t \<le> diff then stop_group_loot env src w
          else Inr (w\<lparr>lw_timers := om_put src (t - diff) (lw_timers w)\<rparr>))"

text \<open>\<open>Loot::clear\<close> with the validator references it breaks.\<close>

definition clear_loot :: "guid \<Rightarrow> roll_world \<Rightarrow> roll_world loot_result" where
  "clear_loot src w =
     sum_bind (loot_at src w) (\<lambda>l.
       Inr ((put_loot src (loot_clear l) w)
         \<lparr>lw_rolls := map (\<lambda>r. if ro_loot r = Some src then r\<lparr>ro_loot := None\<rparr> else r) (lw_rolls w)\<rparr>))"

definition remove_corpse :: "loot_env \<Rightarrow> guid \<Rightarrow> roll_world \<Rightarrow> roll_world loot_result" where
  "remove_corpse env src w = sum_bind (stop_group_loot env src w) (clear_loot src)"

section \<open>The requests\<close>

definition do_loot_release :: "loot_env \<Rightarrow> guid \<Rightarrow> guid \<Rightarrow> roll_world \<Rightarrow> roll_world loot_result" where
  "do_loot_release env p src w =
     (let w = loot_emit [Loot_release p src] (w\<lparr>lw_open := om_erase p (lw_open w)\<rparr>) in
      if \<not> le_online env p then Inr w
      else case om_get (lw_loots w) src of
          None \<Rightarrow> Inr w
        | Some l \<Rightarrow>
            if \<not> le_reach env p src then Inr w
            else sum_bind (if loot_is_looted l then clear_loot src w else Inr w) (on_loot src (remove_looter p)))"

definition handle_loot_release :: "loot_env \<Rightarrow> guid \<Rightarrow> roll_world \<Rightarrow> roll_world loot_result" where
  "handle_loot_release env p w =
     (case om_get (lw_open w) p of None \<Rightarrow> Inr w | Some src \<Rightarrow> do_loot_release env p src w)"

text \<open>
  \<open>SendLoot\<close> on a corpse whose recipient is the group: \<open>fresh\<close> is what the templates generate and the
  gold, for a body that was not opened before, and the group's method starts with that first
  filling. For such a body a player has a permission other than \<open>NONE_PERMISSION\<close> exactly as a member.
  Pickpocketing, skinning and the other kinds of loot, which start no rolls, are left out.
\<close>

definition start_group_method :: "loot_env \<Rightarrow> guid \<Rightarrow> roll_world \<Rightarrow> roll_world loot_result" where
  "start_group_method env src w =
     (case lw_method w of
        GROUP_LOOT \<Rightarrow> group_loot env src w
      | NEED_BEFORE_GREED \<Rightarrow> need_before_greed env src w
      | MASTER_LOOT \<Rightarrow> master_loot env src w
      | _ \<Rightarrow> Inr w)"

definition fill_corpse :: "loot_env \<Rightarrow> (u32 \<Rightarrow> u32) \<Rightarrow> guid \<Rightarrow> (loot_store_item \<times> item_draw) list \<Rightarrow> u32 \<Rightarrow> roll_world \<Rightarrow> roll_world loot_result" where
  "fill_corpse env rate src generated gold w =
     sum_bind (clear_loot src w) (\<lambda>w.
     sum_bind (on_loot src (\<lambda>l. (fill_loot env rate generated (lw_members w) l)\<lparr>lo_gold := gold\<rparr>) w)
       (start_group_method env src))"

definition send_loot :: "loot_env \<Rightarrow> (u32 \<Rightarrow> u32) \<Rightarrow> guid \<Rightarrow> guid \<Rightarrow> ((loot_store_item \<times> item_draw) list \<times> u32) option \<Rightarrow> roll_world \<Rightarrow> roll_world loot_result" where
  "send_loot env rate p src fresh w =
     sum_bind (handle_loot_release env p w) (\<lambda>w.
       if om_get (lw_loots w) src = None \<or> \<not> le_reach env p src then Inr (loot_emit [Loot_release p src] w)
       else
         sum_bind (case fresh of None \<Rightarrow> Inr w | Some (generated, gold) \<Rightarrow> fill_corpse env rate src generated gold w) (\<lambda>w.
           let w = w\<lparr>lw_open := om_put p src (lw_open w)\<rparr> in
           if p \<in> set (lw_members w) then on_loot src (add_looter p) w else Inr w))"

definition notify_money_removed :: "loot_env \<Rightarrow> loot \<Rightarrow> roll_world \<Rightarrow> roll_world" where
  "notify_money_removed env l w =
     loot_emit (map Money_removed (filter (\<lambda>p. le_online env p \<and> om_get (lw_open w) p \<noteq> None) (map fst (lo_looting l)))) w"

text \<open>\<open>share\<close> is false for a pickpocketed creature.\<close>

definition handle_loot_money :: "loot_env \<Rightarrow> bool \<Rightarrow> guid \<Rightarrow> roll_world \<Rightarrow> roll_world loot_result" where
  "handle_loot_money env share p w =
     (case om_get (lw_open w) p of
        None \<Rightarrow> Inr w
      | Some src \<Rightarrow>
          (case om_get (lw_loots w) src of
             None \<Rightarrow> Inr w
           | Some l \<Rightarrow>
               if \<not> le_reach env p src then Inr w
               else
                 let near = (if share \<and> p \<in> set (lw_members w) then filter (le_reward_distance env p) (lw_members w) else []);
                     part = (lo_gold l) div of_nat (length near);
                     w = (if near = [] then loot_emit [Money_notify p (lo_gold l) True] (loot_give (Money_gained p (ucast (lo_gold l))) w)
                          else fold (\<lambda>q w. loot_emit [Money_notify q part (length near \<le> 1)] (loot_give (Money_gained q (ucast part)) w)) near w);
                     w = notify_money_removed env l w in
                 Inr (put_loot src (l\<lparr>lo_gold := 0,
                   lo_looting := filter (\<lambda>e. le_online env (fst e)) (lo_looting l)\<rparr>) w)))"

section \<open>What can happen\<close>

datatype loot_act =
    Open_loot "u32 \<Rightarrow> u32" guid guid "((loot_store_item \<times> item_draw) list \<times> u32) option"
  | Take_loot guid "(guid \<times> u8) list"
  | Release_loot guid
  | Loot_money bool guid
  | Roll_vote guid guid u8 u8
  | Leave_group guid
  | Join_group guid
  | Corpse_update guid u32
  | Corpse_removed guid
  | Set_loot_rules loot_method u32

fun loot_step :: "loot_env \<Rightarrow> loot_act \<Rightarrow> roll_world \<Rightarrow> roll_world loot_result" where
  "loot_step env (Open_loot rate p src new_loot) w = send_loot env rate p src new_loot w"
| "loot_step env (Take_loot p entries) w = handle_autostore_loot_item env p entries w"
| "loot_step env (Release_loot p) w = handle_loot_release env p w"
| "loot_step env (Loot_money share p) w = handle_loot_money env share p w"
| "loot_step env (Roll_vote p target slot t) w = handle_loot_roll env p target slot t w"
| "loot_step env (Leave_group p) w = leave_group env p w"
| "loot_step env (Join_group p) w = Inr (link_member p w)"
| "loot_step env (Corpse_update src diff) w = update_group_loot env src diff w"
| "loot_step env (Corpse_removed src) w = (if om_get (lw_loots w) src = None then Inr w else remove_corpse env src w)"
| "loot_step env (Set_loot_rules m threshold) w = Inr (w\<lparr>lw_method := m, lw_threshold := threshold\<rparr>)"

end
