(* ===== verification/LootSafety.thy ===== *)
theory LootSafety
  imports LootRolls
begin

text \<open>
  Over every sequence of requests, votes, departures and timeouts: no request follows a null pointer
  or leaves an array, and an item that exists once goes to at most one player, as long as no roll
  starts with a single player.
\<close>

section \<open>Outcomes\<close>

definition delivers :: "'a loot_result \<Rightarrow> ('a \<Rightarrow> bool) \<Rightarrow> bool" where
  "delivers m Q \<longleftrightarrow> (\<exists>x. m = Inr x \<and> Q x)"

lemma delivers_simps [simp]:
  "delivers (Inr x) Q \<longleftrightarrow> Q x"
  "\<not> delivers (Inl e) Q"
  "delivers (sum_bind m f) Q \<longleftrightarrow> delivers m (\<lambda>x. delivers (f x) Q)"
  by (auto simp: delivers_def sum_bind_Inr_iff)

lemma delivers_mono: "delivers m P \<Longrightarrow> (\<And>x. P x \<Longrightarrow> Q x) \<Longrightarrow> delivers m Q"
  by (auto simp: delivers_def)

section \<open>What the awards and the rolls say about a container\<close>

type_synonym award_key = "guid \<times> nat \<times> loot_place"

text \<open>An item that exists once: not free for all, no currency, and not listed per player.\<close>

definition single_item :: "loot_item \<Rightarrow> bool" where
  "single_item it \<longleftrightarrow> \<not> li_ffa it \<and> \<not> li_currency it \<and> li_condition it = 0"

definition source_key :: "loot_source \<Rightarrow> award_key list" where
  "source_key s = (case ls_place s of
     Plain_at i \<Rightarrow> (if single_item (ls_item s) then [(ls_loot s, ls_fill s, ls_place s)] else [])
   | Quest_at i \<Rightarrow> [])"

fun award_keys :: "loot_award \<Rightarrow> award_key list" where
  "award_keys (Stored p s) = source_key s"
| "award_keys (Disenchanted p s d) = source_key s"
| "award_keys (Currency_gained p c n) = []"
| "award_keys (Money_gained p n) = []"

text \<open>The single items that changed hands: which container, which filling of it, which place.\<close>

definition single_keys :: "loot_award list \<Rightarrow> award_key list" where
  "single_keys G = concat (map award_keys G)"

lemma single_keys_simps [simp]:
  "single_keys [] = []"
  "single_keys (G @ [a]) = single_keys G @ award_keys a"
  by (simp_all add: single_keys_def)

definition flags :: "loot \<Rightarrow> (bool \<times> bool) list" where
  "flags l = map (\<lambda>it. (li_looted it, li_blocked it)) (lo_items l)"

lemma length_flags [simp]: "length (flags l) = length (lo_items l)"
  by (simp add: flags_def)

lemma nth_flags [simp]: "i < length (lo_items l) \<Longrightarrow> flags l ! i = (li_looted (lo_items l ! i), li_blocked (lo_items l ! i))"
  by (simp add: flags_def)

definition quests_ok :: "loot \<Rightarrow> bool" where
  "quests_ok l \<longleftrightarrow> (\<forall>low ql. om_get (lo_quests l) low = Some ql \<longrightarrow>
     (\<forall>q \<in> set ql. unat (qi_index q) < length (lo_quest_items l)))"

text \<open>Changes of a container that neither the rolls nor the awards notice.\<close>

definition same_loot :: "loot \<Rightarrow> loot \<Rightarrow> bool" where
  "same_loot l l' \<longleftrightarrow> lo_fill l' = lo_fill l \<and> flags l' = flags l \<and> (quests_ok l \<longrightarrow> quests_ok l')"

lemma same_loot_refl [simp, intro]: "same_loot l l"
  by (simp add: same_loot_def)

lemma same_loot_trans: "same_loot l l' \<Longrightarrow> same_loot l' l'' \<Longrightarrow> same_loot l l''"
  by (simp add: same_loot_def)

type_synonym roll_essence = "guid option \<times> nat \<times> u32"

definition essence :: "roll \<Rightarrow> roll_essence" where
  "essence r = (ro_loot r, unat (ro_slot r), ro_itemid r)"

definition roll_places :: "roll_essence list \<Rightarrow> (guid option \<times> nat) list" where
  "roll_places E = map (\<lambda>(s, i, t). (s, i)) (filter (\<lambda>e. fst e \<noteq> None) E)"

lemma roll_places_simps [simp]:
  "roll_places [] = []"
  "roll_places ((s, i, t) # E) = (if s = None then roll_places E else (s, i) # roll_places E)"
  "roll_places (E @ E') = roll_places E @ roll_places E'"
  by (simp_all add: roll_places_def)

lemma in_roll_places: "(s, i) \<in> set (roll_places E) \<longleftrightarrow> s \<noteq> None \<and> (\<exists>t. (s, i, t) \<in> set E)"
  by (force simp: roll_places_def)

definition rolls_ok :: "(u32 \<Rightarrow> item_prototype option) \<Rightarrow> (guid \<Rightarrow> loot option) \<Rightarrow> roll_essence list \<Rightarrow> bool" where
  "rolls_ok protos L E \<longleftrightarrow> (\<forall>src i t. (Some src, i, t) \<in> set E \<longrightarrow>
     (\<exists>l. L src = Some l \<and> i < length (lo_items l) \<and> flags l ! i = (False, True)) \<and> protos t \<noteq> None)"

definition key_ok :: "(guid \<Rightarrow> loot option) \<Rightarrow> guid \<Rightarrow> nat \<Rightarrow> loot_place \<Rightarrow> bool" where
  "key_ok L src f pl \<longleftrightarrow> (\<exists>l. L src = Some l \<and> f \<le> lo_fill l \<and>
     (f = lo_fill l \<longrightarrow> (\<exists>i. pl = Plain_at i \<and> i < length (lo_items l) \<and> fst (flags l ! i))))"

definition loot_ok :: "(u32 \<Rightarrow> item_prototype option) \<Rightarrow> (guid \<Rightarrow> loot option) \<Rightarrow> roll_essence list \<Rightarrow> award_key list \<Rightarrow> bool" where
  "loot_ok protos L E K \<longleftrightarrow>
     (\<forall>src l. L src = Some l \<longrightarrow> quests_ok l) \<and> rolls_ok protos L E \<and>
     distinct (roll_places E) \<and> distinct K \<and> (\<forall>src f pl. (src, f, pl) \<in> set K \<longrightarrow> key_ok L src f pl)"

lemma loot_okD:
  assumes "loot_ok protos L E K"
  shows "L src = Some l \<Longrightarrow> quests_ok l"
    and "rolls_ok protos L E" and "distinct (roll_places E)" and "distinct K"
    and "(src, f, pl) \<in> set K \<Longrightarrow> key_ok L src f pl"
  using assms by (simp_all add: loot_ok_def)

lemma rolls_okE:
  assumes "rolls_ok protos L E" and "(Some src, i, t) \<in> set E"
  obtains l where "L src = Some l" "i < length (lo_items l)" "flags l ! i = (False, True)" "protos t \<noteq> None"
  using assms unfolding rolls_ok_def by blast

lemma rolls_ok_subset: "rolls_ok protos L E \<Longrightarrow> set E' \<subseteq> set E \<Longrightarrow> rolls_ok protos L E'"
  unfolding rolls_ok_def by blast

lemma same_loot_length: "same_loot l l' \<Longrightarrow> length (lo_items l') = length (lo_items l)"
  using length_flags [of l] length_flags [of l'] by (simp add: same_loot_def del: length_flags)

lemma rolls_ok_same:
  assumes "rolls_ok protos L E" and "\<And>src l. L src = Some l \<Longrightarrow> \<exists>l'. L' src = Some l' \<and> same_loot l l'"
  shows "rolls_ok protos L' E"
  unfolding rolls_ok_def
proof (intro allI impI)
  fix src i t assume "(Some src, i, t) \<in> set E"
  with assms(1) obtain l where l: "L src = Some l" "i < length (lo_items l)" "flags l ! i = (False, True)" "protos t \<noteq> None"
    by (rule rolls_okE)
  from assms(2) [OF l(1)] obtain l' where l': "L' src = Some l'" "same_loot l l'" by blast
  from l l' same_loot_length [OF l'(2)] show "(\<exists>l. L' src = Some l \<and> i < length (lo_items l) \<and> flags l ! i = (False, True)) \<and> protos t \<noteq> None"
    by (auto simp: same_loot_def)
qed

lemma key_ok_same:
  assumes "key_ok L src f pl" and "\<And>l. L src = Some l \<Longrightarrow> \<exists>l'. L' src = Some l' \<and> same_loot l l'"
  shows "key_ok L' src f pl"
proof -
  obtain l where l: "L src = Some l" "f \<le> lo_fill l"
    "f = lo_fill l \<longrightarrow> (\<exists>i. pl = Plain_at i \<and> i < length (lo_items l) \<and> fst (flags l ! i))"
    using assms(1) unfolding key_ok_def by blast
  from assms(2) [OF l(1)] obtain l' where l': "L' src = Some l'" "same_loot l l'" by blast
  from l l' same_loot_length [OF l'(2)] show ?thesis by (auto simp: key_ok_def same_loot_def)
qed

text \<open>Containers that change in a way nothing depends on.\<close>

lemma loot_ok_same:
  assumes ok: "loot_ok protos L E K" and same: "\<And>src. rel_option same_loot (L src) (L' src)"
  shows "loot_ok protos L' E K"
proof -
  have bwd: "\<exists>l. L src = Some l \<and> same_loot l l'" if "L' src = Some l'" for src l'
    using same [of src] that by (cases "L src") auto
  have fwd: "\<exists>l'. L' src = Some l' \<and> same_loot l l'" if "L src = Some l" for src l
    using same [of src] that by (cases "L' src") auto
  have "quests_ok l'" if "L' src = Some l'" for src l'
    using bwd [OF that] loot_okD(1) [OF ok] by (auto simp: same_loot_def)
  moreover have "rolls_ok protos L' E" by (rule rolls_ok_same [OF loot_okD(2) [OF ok] fwd])
  moreover have "key_ok L' src f pl" if "(src, f, pl) \<in> set K" for src f pl
    by (rule key_ok_same [OF loot_okD(5) [OF ok that] fwd])
  ultimately show ?thesis using loot_okD(3,4) [OF ok] unfolding loot_ok_def by blast
qed

text \<open>A roll that is over, or whose container is cleared.\<close>

lemma loot_ok_fewer_rolls:
  assumes ok: "loot_ok protos L E K" and "set E' \<subseteq> set E" and "distinct (roll_places E')"
  shows "loot_ok protos L E' K"
  using ok rolls_ok_subset [OF loot_okD(2) [OF ok] assms(2)] assms(3) by (simp add: loot_ok_def)

text \<open>
  One place of one container changes: it may be unblocked, and it may be taken, which is what an
  award of a single item needs. No roll may still be about it.
\<close>

lemma loot_ok_settle:
  assumes ok: "loot_ok protos L E K" and l: "L src = Some l" and i: "i < length (lo_items l)"
    and l': "lo_fill l' = lo_fill l" "flags l' = (flags l)[i := (gone, b)]" "quests_ok l'"
    and gone: "fst (flags l ! i) \<Longrightarrow> gone"
    and E': "set E' \<subseteq> set E" "distinct (roll_places E')" "(Some src, i) \<notin> set (roll_places E')"
    and K': "K' = [] \<or> K' = [(src, lo_fill l, Plain_at i)] \<and> gone \<and> \<not> fst (flags l ! i)"
  shows "loot_ok protos (L(src := Some l')) E' (K @ K')"
proof -
  have len: "length (lo_items l') = length (lo_items l)"
    using arg_cong [OF l'(2), of length] by simp
  let ?L = "L(src := Some l')"
  have fl: "flags l' ! j = (if j = i then (gone, b) else flags l ! j)" if "j < length (lo_items l)" for j
    using that i unfolding l'(2) by simp
  have "quests_ok x" if "?L s = Some x" for s x
    using that loot_okD(1) [OF ok] l'(3) by (auto split: if_splits)
  moreover have "rolls_ok protos ?L E'"
    unfolding rolls_ok_def
  proof (intro allI impI)
    fix s j t assume e: "(Some s, j, t) \<in> set E'"
    then have "(Some s, j, t) \<in> set E" using E'(1) by blast
    with loot_okD(2) [OF ok] obtain x where x: "L s = Some x" "j < length (lo_items x)" "flags x ! j = (False, True)" "protos t \<noteq> None"
      by (rule rolls_okE)
    have "s \<noteq> src \<or> j \<noteq> i" using e E'(3) by (auto simp: in_roll_places)
    then show "(\<exists>x. ?L s = Some x \<and> j < length (lo_items x) \<and> flags x ! j = (False, True)) \<and> protos t \<noteq> None"
      using x l len fl [of j] by (cases "s = src") auto
  qed
  moreover have "key_ok ?L s f pl" if k: "(s, f, pl) \<in> set (K @ K')" for s f pl
  proof (cases "(s, f, pl) \<in> set K")
    case True
    from loot_okD(5) [OF ok True] obtain x where x: "L s = Some x" "f \<le> lo_fill x"
      "f = lo_fill x \<longrightarrow> (\<exists>i. pl = Plain_at i \<and> i < length (lo_items x) \<and> fst (flags x ! i))"
      unfolding key_ok_def by blast
    show ?thesis
    proof (cases "s = src")
      case True
      with x l have "x = l" by simp
      with x True l'(1) len fl gone show ?thesis by (fastforce simp: key_ok_def)
    next
      case False
      with x show ?thesis by (auto simp: key_ok_def)
    qed
  next
    case False
    with k K' have "s = src" "f = lo_fill l" "pl = Plain_at i" gone by auto
    then show ?thesis using i len fl [OF i] l'(1) by (auto simp: key_ok_def)
  qed
  moreover have "distinct (K @ K')"
  proof -
    have "(src, lo_fill l, Plain_at i) \<notin> set K" if "\<not> fst (flags l ! i)"
    proof
      assume "(src, lo_fill l, Plain_at i) \<in> set K"
      from loot_okD(5) [OF ok this] l that show False by (auto simp: key_ok_def)
    qed
    then show ?thesis using loot_okD(4) [OF ok] K' by auto
  qed
  ultimately show ?thesis using E'(2) unfolding loot_ok_def by blast
qed

text \<open>A container without rolls and awards of its present filling may change at will.\<close>

definition untouched :: "guid \<Rightarrow> loot \<Rightarrow> roll_essence list \<Rightarrow> award_key list \<Rightarrow> bool" where
  "untouched src l E K \<longleftrightarrow> (\<forall>e \<in> set E. fst e \<noteq> Some src) \<and> (\<forall>f pl. (src, f, pl) \<in> set K \<longrightarrow> f < lo_fill l)"

lemma loot_ok_untouched:
  assumes ok: "loot_ok protos L E K" and u: "untouched src l E K" and l: "quests_ok l"
  shows "loot_ok protos (L(src := Some l)) E K"
proof -
  let ?L = "L(src := Some l)"
  have "quests_ok x" if "?L s = Some x" for s x
    using that loot_okD(1) [OF ok] l by (auto split: if_splits)
  moreover have "rolls_ok protos ?L E"
    unfolding rolls_ok_def
  proof (intro allI impI)
    fix s j t assume e: "(Some s, j, t) \<in> set E"
    with loot_okD(2) [OF ok] obtain x where "L s = Some x" "j < length (lo_items x)" "flags x ! j = (False, True)" "protos t \<noteq> None"
      by (rule rolls_okE)
    moreover have "s \<noteq> src" using e u by (auto simp: untouched_def)
    ultimately show "(\<exists>x. ?L s = Some x \<and> j < length (lo_items x) \<and> flags x ! j = (False, True)) \<and> protos t \<noteq> None"
      by auto
  qed
  moreover have "key_ok ?L s f pl" if k: "(s, f, pl) \<in> set K" for s f pl
  proof (cases "s = src")
    case True
    with k u have "f < lo_fill l" unfolding untouched_def by blast
    with True show ?thesis by (simp add: key_ok_def)
  next
    case False
    with loot_okD(5) [OF ok k] show ?thesis by (simp add: key_ok_def)
  qed
  ultimately show ?thesis using loot_okD(3,4) [OF ok] unfolding loot_ok_def by blast
qed

text \<open>The references to a container are broken.\<close>

definition unlink :: "guid \<Rightarrow> roll_essence \<Rightarrow> roll_essence" where
  "unlink src e = (if fst e = Some src then (None, snd e) else e)"

lemma unlink_member: "(Some s, i, t) \<in> unlink src ` E \<longleftrightarrow> (Some s, i, t) \<in> E \<and> s \<noteq> src"
  by (force simp: unlink_def split: if_splits)

lemma roll_places_unlink: "roll_places (map (unlink src) E) = filter (\<lambda>k. fst k \<noteq> Some src) (roll_places E)"
  by (induction E) (auto simp: unlink_def)

lemma rolls_ok_unlink: "rolls_ok protos L E \<Longrightarrow> rolls_ok protos L (map (unlink src) E)"
  unfolding rolls_ok_def set_map unlink_member by blast

lemma loot_ok_unlink: "loot_ok protos L E K \<Longrightarrow> loot_ok protos L (map (unlink src) E) K"
  unfolding loot_ok_def roll_places_unlink by (auto simp: rolls_ok_unlink)

text \<open>A roll starts on a place that is blocked for it.\<close>

lemma loot_ok_add_roll:
  assumes ok: "loot_ok protos L E K" and l: "L src = Some l" "i < length (lo_items l)" "flags l ! i = (False, True)"
    and t: "protos t \<noteq> None" and free: "(Some src, i) \<notin> set (roll_places E)"
  shows "loot_ok protos L (E @ [(Some src, i, t)]) K"
proof -
  have "rolls_ok protos L (E @ [(Some src, i, t)])"
    using loot_okD(2) [OF ok] l t unfolding rolls_ok_def by auto
  then show ?thesis using ok free by (simp add: loot_ok_def)
qed

section \<open>Worlds\<close>

definition world_ok :: "(u32 \<Rightarrow> item_prototype option) \<Rightarrow> roll_world \<Rightarrow> bool" where
  "world_ok protos w \<longleftrightarrow> loot_ok protos (om_get (lw_loots w)) (map essence (lw_rolls w)) (single_keys (lw_got w))"

definition same_world :: "roll_world \<Rightarrow> roll_world \<Rightarrow> bool" where
  "same_world w w' \<longleftrightarrow> lw_rolls w' = lw_rolls w \<and> single_keys (lw_got w') = single_keys (lw_got w) \<and>
     (\<forall>src. rel_option same_loot (om_get (lw_loots w) src) (om_get (lw_loots w') src))"

definition keeps_loots :: "roll_world \<Rightarrow> roll_world \<Rightarrow> bool" where
  "keeps_loots w w' \<longleftrightarrow> (\<forall>src. om_get (lw_loots w') src = None \<longleftrightarrow> om_get (lw_loots w) src = None)"

lemma rel_option_same_refl [simp]: "rel_option same_loot x x"
  by (cases x) simp_all

lemma same_world_refl [simp]: "same_world w w"
  by (simp add: same_world_def)

lemma same_world_trans:
  assumes "same_world w w'" and "same_world w' w''"
  shows "same_world w w''"
proof -
  have "rel_option same_loot a c" if "rel_option same_loot a b" "rel_option same_loot b c" for a b c
    using that by (cases a; cases b; cases c) (auto intro: same_loot_trans)
  then show ?thesis using assms unfolding same_world_def by metis
qed

lemma same_world_ok: "same_world w w' \<Longrightarrow> world_ok protos w \<Longrightarrow> world_ok protos w'"
  unfolding world_ok_def same_world_def using loot_ok_same by metis

lemma same_world_keeps: "same_world w w' \<Longrightarrow> keeps_loots w w'"
proof -
  have "a = None \<longleftrightarrow> b = None" if "rel_option same_loot a b" for a b
    using that by (cases a; cases b) auto
  moreover assume "same_world w w'"
  ultimately show ?thesis unfolding same_world_def keeps_loots_def by metis
qed

lemma same_world_at: "same_world w w' \<Longrightarrow> om_get (lw_loots w) src = Some l \<Longrightarrow> \<exists>l'. om_get (lw_loots w') src = Some l' \<and> same_loot l l'"
  unfolding same_world_def by (metis option_rel_Some1)

lemma keeps_refl [simp]: "keeps_loots w w"
  by (simp add: keeps_loots_def)

lemma keeps_trans: "keeps_loots w w' \<Longrightarrow> keeps_loots w' w'' \<Longrightarrow> keeps_loots w w''"
  by (simp add: keeps_loots_def)

lemma keeps_loot_at: "keeps_loots w w' \<Longrightarrow> om_get (lw_loots w) src = Some l \<Longrightarrow> \<exists>l'. om_get (lw_loots w') src = Some l'"
  by (auto simp: keeps_loots_def) (metis not_None_eq)

named_theorems quiet \<open>updates that change no container, roll or award\<close>

lemma same_world_updates [quiet]:
  "same_world w (w\<lparr>lw_out := a\<rparr>)" "same_world w (w\<lparr>lw_open := b\<rparr>)" "same_world w (w\<lparr>lw_members := c\<rparr>)"
  "same_world w (w\<lparr>lw_timers := d\<rparr>)" "same_world w (w\<lparr>lw_draws := e\<rparr>)" "same_world w (w\<lparr>lw_method := m\<rparr>)"
  "same_world w (w\<lparr>lw_threshold := t\<rparr>)"
  by (simp_all add: same_world_def)

lemma same_world_emit [quiet]: "same_world w (loot_emit xs w)"
  by (simp add: loot_emit_def quiet)

lemma same_world_sends [quiet]:
  "same_world w (send_loot_item_removed p slot w)"
  "same_world w (send_loot_roll env p n v r w)" "same_world w (send_loot_roll_won env p n v r w)"
  "same_world w (send_loot_all_passed env r w)" "same_world w (send_loot_start_roll env r w)"
  by (simp_all add: send_loot_item_removed_def send_loot_roll_def send_loot_roll_won_def send_loot_all_passed_def
      send_loot_start_roll_def quiet)

lemma same_world_give [quiet]: "award_keys a = [] \<Longrightarrow> same_world w (loot_give a w)"
  by (simp add: same_world_def loot_give_def)

lemma put_loot_loots [simp]: "lw_loots (put_loot src l w) = om_put src l (lw_loots w)"
  by (simp add: put_loot_def)

lemma put_loot_got [simp]: "lw_got (put_loot src l w) = lw_got w"
  by (simp add: put_loot_def)

lemma put_loot_members [simp]: "lw_members (put_loot src l w) = lw_members w"
  by (simp add: put_loot_def)

lemma emit_loots [simp]: "lw_loots (loot_emit xs w) = lw_loots w" "lw_got (loot_emit xs w) = lw_got w"
  by (simp_all add: loot_emit_def)

lemma give_loots [simp]: "lw_loots (loot_give a w) = lw_loots w" "lw_got (loot_give a w) = lw_got w @ [a]"
  by (simp_all add: loot_give_def)

lemma same_world_put: "om_get (lw_loots w) src = Some l \<Longrightarrow> same_loot l l' \<Longrightarrow> same_world w (put_loot src l' w)"
  by (simp add: same_world_def)

lemma loot_at_delivers: "om_get (lw_loots w) src = Some l \<Longrightarrow> delivers (loot_at src w) Q = Q l"
  by (simp add: loot_at_def)

lemma on_loot_same:
  "om_get (lw_loots w) src = Some l \<Longrightarrow> (\<And>l. same_loot l (f l)) \<Longrightarrow> delivers (on_loot src f w) (same_world w)"
  by (simp add: on_loot_def loot_at_delivers same_world_put)

lemma quests_ok_updates [simp]:
  "quests_ok (l\<lparr>lo_items := a\<rparr>) = quests_ok l" "quests_ok (l\<lparr>lo_unlooted := b\<rparr>) = quests_ok l"
  "quests_ok (l\<lparr>lo_looting := c\<rparr>) = quests_ok l" "quests_ok (l\<lparr>lo_gold := d\<rparr>) = quests_ok l"
  "quests_ok (l\<lparr>lo_currencies := e\<rparr>) = quests_ok l" "quests_ok (l\<lparr>lo_ffas := f\<rparr>) = quests_ok l"
  "quests_ok (l\<lparr>lo_conds := g\<rparr>) = quests_ok l" "quests_ok (l\<lparr>lo_fill := h\<rparr>) = quests_ok l"
  by (simp_all add: quests_ok_def)

lemma flags_updates [simp]:
  "flags (l\<lparr>lo_unlooted := b\<rparr>) = flags l" "flags (l\<lparr>lo_looting := c\<rparr>) = flags l" "flags (l\<lparr>lo_gold := d\<rparr>) = flags l"
  "flags (l\<lparr>lo_currencies := e\<rparr>) = flags l" "flags (l\<lparr>lo_ffas := f\<rparr>) = flags l" "flags (l\<lparr>lo_conds := g\<rparr>) = flags l"
  "flags (l\<lparr>lo_quests := h\<rparr>) = flags l" "flags (l\<lparr>lo_quest_items := k\<rparr>) = flags l"
  by (simp_all add: flags_def)

lemma mark_own_quests_ok: "quests_ok l \<Longrightarrow> quests_ok (l\<lparr>lo_quests := mark_own p at (lo_quests l)\<rparr>)"
proof -
  assume ok: "quests_ok l"
  have "unat (qi_index q) < length (lo_quest_items l)"
    if "om_get (lo_quests l) low = Some ql" "q \<in> set (ql[j := (ql ! j)\<lparr>qi_looted := True\<rparr>])" for low ql j q
  proof (cases "j < length ql")
    case True
    then have "q = (ql ! j)\<lparr>qi_looted := True\<rparr> \<or> q \<in> set ql" using that(2) set_update_subset_insert by fastforce
    then show ?thesis using ok that(1) True unfolding quests_ok_def by auto
  next
    case False
    then show ?thesis using ok that unfolding quests_ok_def by (auto simp: list_update_beyond)
  qed
  then show ?thesis using ok unfolding quests_ok_def mark_own_def
    by (auto split: option.splits if_splits)
qed

lemma same_loot_updates [simp]:
  "same_loot l (l\<lparr>lo_unlooted := b\<rparr>)" "same_loot l (remove_looter p l)" "same_loot l (add_looter p l)"
  "same_loot l (l\<lparr>lo_currencies := e, lo_unlooted := b\<rparr>)" "same_loot l (l\<lparr>lo_ffas := f\<rparr>)" "same_loot l (l\<lparr>lo_conds := g\<rparr>)"
  "same_loot l (l\<lparr>lo_quests := mark_own p at (lo_quests l)\<rparr>)" "same_loot l (l\<lparr>lo_gold := d, lo_looting := c\<rparr>)"
  by (simp_all add: same_loot_def remove_looter_def add_looter_def mark_own_quests_ok)

lemma notify_looters_same:
  "om_get (lw_loots w) src = Some l \<Longrightarrow> delivers (notify_looters env f src ps w) (same_world w)"
proof (induction ps arbitrary: w l)
  case (Cons e ps)
  obtain p u where e: "e = (p, u)" by (cases e)
  have step: "delivers (notify_looters env f src ps w') (same_world w)" if "same_world w w'" for w'
  proof -
    from same_world_at [OF that Cons.prems] obtain l' where "om_get (lw_loots w') src = Some l'" by blast
    from Cons.IH [OF this] show ?thesis by (rule delivers_mono) (rule same_world_trans [OF that])
  qed
  show ?case
    by (auto simp: e loot_at_delivers [OF Cons.prems] intro!: step quiet same_world_put [OF Cons.prems] split: option.split)
qed simp

lemma notify_item_removed_same:
  "om_get (lw_loots w) src = Some l \<Longrightarrow> delivers (notify_item_removed env src slot w) (same_world w)"
  by (simp add: notify_item_removed_def loot_at_delivers notify_looters_same)

lemma notify_quest_item_removed_same:
  "om_get (lw_loots w) src = Some l \<Longrightarrow> delivers (notify_quest_item_removed env src index w) (same_world w)"
  by (simp add: notify_quest_item_removed_def loot_at_delivers notify_looters_same)

section \<open>Taking entries\<close>

definition quiet_step :: "(u32 \<Rightarrow> item_prototype option) \<Rightarrow> roll_world \<Rightarrow> roll_world \<Rightarrow> bool" where
  "quiet_step protos w w' \<longleftrightarrow> world_ok protos w' \<and> keeps_loots w w'"

lemma same_world_quiet: "world_ok protos w \<Longrightarrow> same_world w w' \<Longrightarrow> quiet_step protos w w'"
  by (simp add: quiet_step_def same_world_ok same_world_keeps)

lemma quiet_step_trans: "quiet_step protos w w' \<Longrightarrow> quiet_step protos w' w'' \<Longrightarrow> quiet_step protos w w''"
  by (auto simp: quiet_step_def intro: keeps_trans)

lemma world_okD: "world_ok protos w \<Longrightarrow> om_get (lw_loots w) src = Some l \<Longrightarrow> quests_ok l"
  unfolding world_ok_def by (rule loot_okD(1))

text \<open>An entry that a player sees.\<close>

lemma loot_item_in_slot_seen:
  assumes "quests_ok l"
  shows "delivers (loot_item_in_slot slot p l) (\<lambda>view. \<forall>v. view = Some v \<longrightarrow>
    (case sv_place v of
       Plain_at i \<Rightarrow> i = slot \<and> i < length (lo_items l) \<and> sv_item v = lo_items l ! i \<and> sv_quest v = None \<and>
         (single_item (sv_item v) \<longrightarrow> \<not> li_looted (sv_item v))
     | Quest_at i \<Rightarrow> (\<exists>j ql. sv_quest v = Some j \<and> om_get (lo_quests l) (get_counter p) = Some ql \<and> j < length ql)))"
proof (cases "slot < length (lo_items l)")
  case True
  then show ?thesis
    by (auto simp: loot_item_in_slot_def Let_def slot_view_of_def single_item_def own_entry_def)
next
  case False
  have "\<not> length (lo_quest_items l) \<le> unat (qi_index (ql ! j))"
    if "om_get (lo_quests l) (get_counter p) = Some ql" "j < length ql" for ql j
    using assms that unfolding quests_ok_def by (metis nth_mem not_le)
  note inside = this
  show ?thesis
  proof (cases "om_get (lo_quests l) (get_counter p)")
    case (Some ql)
    with False inside [OF Some] show ?thesis by (simp add: loot_item_in_slot_def Let_def slot_view_of_def)
  qed (use False in \<open>simp add: loot_item_in_slot_def Let_def\<close>)
qed

lemma mark_taken_same:
  assumes "om_get (lw_loots w) src = Some l"
    and "\<And>j. sv_quest v = Some j \<Longrightarrow> \<exists>ql. om_get (lo_quests l) (get_counter p) = Some ql"
  shows "delivers (mark_taken env p src slot v w) (same_world w)"
proof (cases "sv_quest v")
  case None
  let ?f = "l\<lparr>lo_ffas := mark_own p (sv_ffa v) (lo_ffas l)\<rparr>" and ?c = "l\<lparr>lo_conds := mark_own p (sv_cond v) (lo_conds l)\<rparr>"
  have f: "same_world w (put_loot src ?f w)" and c: "same_world w (put_loot src ?c w)"
    using assms(1) by (auto intro: same_world_put)
  have "delivers (notify_item_removed env src slot (put_loot src ?c w)) (same_world w)"
    by (rule delivers_mono [OF notify_item_removed_same same_world_trans [OF c]]) simp_all
  moreover have "same_world w (send_loot_item_removed p slot (put_loot src ?f w))"
    by (rule same_world_trans [OF f]) (rule quiet)
  ultimately show ?thesis
    using assms(1) None by (simp add: mark_taken_def on_loot_def loot_at_delivers)
next
  case (Some j)
  with assms(2) obtain ql where ql: "om_get (lo_quests l) (get_counter p) = Some ql" by blast
  let ?l = "l\<lparr>lo_quests := mark_own p (Some j) (lo_quests l)\<rparr>" and ?w = "put_loot src (l\<lparr>lo_quests := mark_own p (Some j) (lo_quests l)\<rparr>) w"
  have w: "om_get (lw_loots ?w) src = Some ?l" "same_world w ?w" using assms(1) by (auto intro: same_world_put)
  have "\<exists>ql. om_get (lo_quests ?l) (get_counter p) = Some ql" using ql by (simp add: mark_own_def)
  then obtain ql' where ql': "om_get (lo_quests ?l) (get_counter p) = Some ql'" by blast
  have "delivers (notify_quest_item_removed env src index ?w) (same_world w)" for index
    by (rule delivers_mono [OF notify_quest_item_removed_same [OF w(1)] same_world_trans [OF w(2)]])
  moreover have "same_world w (send_loot_item_removed p slot ?w)"
    by (rule same_world_trans [OF w(2)]) (rule quiet)
  ultimately show ?thesis
    using assms(1) ql' by (simp add: mark_taken_def Some on_loot_def loot_at_delivers)
qed

lemma om_get_put_fun: "om_get (om_put k v m) = (om_get m)(k := Some v)"
  by (rule ext) simp

lemma place_free:
  "rolls_ok protos L E \<Longrightarrow> L src = Some l \<Longrightarrow> flags l ! i \<noteq> (False, True) \<Longrightarrow> (Some src, i) \<notin> set (roll_places E)"
  by (auto simp: in_roll_places elim: rolls_okE)

lemma settle_world:
  assumes ok: "world_ok protos w" and same: "\<And>s. rel_option same_loot (om_get (lw_loots w) s) (om_get (lw_loots w') s)"
    and l: "om_get (lw_loots w') src = Some l" and i: "i < length (lo_items l)"
    and l': "lo_fill l' = lo_fill l" "flags l' = (flags l)[i := (gone, b)]" "quests_ok l \<Longrightarrow> quests_ok l'"
    and gone: "fst (flags l ! i) \<Longrightarrow> gone"
    and E': "set E' \<subseteq> set (map essence (lw_rolls w))" "distinct (roll_places E')" "(Some src, i) \<notin> set (roll_places E')"
    and K': "K' = [] \<or> K' = [(src, lo_fill l, Plain_at i)] \<and> gone \<and> \<not> fst (flags l ! i)"
  shows "loot_ok protos (om_get (om_put src l' (lw_loots w'))) E' (single_keys (lw_got w) @ K')"
proof -
  have ok': "loot_ok protos (om_get (lw_loots w')) (map essence (lw_rolls w)) (single_keys (lw_got w))"
    by (rule loot_ok_same [OF ok [unfolded world_ok_def]]) (rule same)
  show ?thesis
    unfolding om_get_put_fun
    by (rule loot_ok_settle [OF ok' l i l'(1,2) l'(3) [OF loot_okD(1) [OF ok' l]] gone E' K'])
qed

lemma flags_set_looted: "i < length (lo_items l) \<Longrightarrow> flags (set_looted (Plain_at i) l) = (flags l)[i := (True, snd (flags l ! i))]"
  by (simp add: set_looted_def flags_def map_update)

lemma set_looted_simps [simp]:
  "lo_fill (set_looted pl l) = lo_fill l" "quests_ok (set_looted pl l) = quests_ok l"
  "flags (set_looted (Quest_at i) l) = flags l"
  by (simp_all add: set_looted_def quests_ok_def split: loot_place.split)

lemma set_looted_same: "same_loot l ((set_looted (Quest_at i) l)\<lparr>lo_unlooted := n\<rparr>)"
  by (simp add: same_loot_def)

lemma put_same_quiet:
  assumes "world_ok protos w" and "same_world w w'" and "om_get (lw_loots w') src = Some l" and "same_loot l l'"
  shows "quiet_step protos w (put_loot src l' w')"
  by (rule same_world_quiet [OF assms(1) same_world_trans [OF assms(2) same_world_put [OF assms(3,4)]]])

text \<open>An item leaves the container for good.\<close>

lemma put_taken_quiet:
  assumes ok: "world_ok protos w" and rolls: "lw_rolls w' = lw_rolls w" and got: "single_keys (lw_got w') = single_keys (lw_got w) @ K"
    and loots: "\<And>s. rel_option same_loot (om_get (lw_loots w) s) (om_get (lw_loots w') s)"
    and l: "om_get (lw_loots w') src = Some l" and i: "i < length (lo_items l)" and unblocked: "\<not> snd (flags l ! i)"
    and K: "K = [] \<or> K = [(src, lo_fill l, Plain_at i)] \<and> \<not> fst (flags l ! i)"
  shows "quiet_step protos w (put_loot src ((set_looted (Plain_at i) l)\<lparr>lo_unlooted := n\<rparr>) w')"
proof -
  let ?E = "map essence (lw_rolls w)" and ?l = "(set_looted (Plain_at i) l)\<lparr>lo_unlooted := n\<rparr>"
  have ok': "loot_ok protos (om_get (lw_loots w')) ?E (single_keys (lw_got w))"
    by (rule loot_ok_same [OF ok [unfolded world_ok_def]]) (rule loots)
  have "(Some src, i) \<notin> set (roll_places ?E)"
    by (rule place_free [OF loot_okD(2) [OF ok'] l]) (use unblocked in auto)
  then have "loot_ok protos (om_get (om_put src ?l (lw_loots w'))) ?E (single_keys (lw_got w) @ K)"
    using loot_okD(3) [OF ok'] K
    by (intro settle_world [OF ok loots l i, where gone = True and b = False])
      (auto simp: flags_set_looted [OF i] unblocked)
  moreover have "keeps_loots w (put_loot src ?l w')"
    using loots l by (auto simp: keeps_loots_def) (metis option.rel_distinct(1,2) option.exhaust)+
  ultimately show ?thesis using rolls got by (simp add: quiet_step_def world_ok_def)
qed

definition seen :: "guid \<Rightarrow> loot \<Rightarrow> slot_view \<Rightarrow> bool" where
  "seen p l v \<longleftrightarrow> (case sv_place v of
     Plain_at i \<Rightarrow> i < length (lo_items l) \<and> sv_item v = lo_items l ! i \<and> sv_quest v = None \<and>
       (single_item (sv_item v) \<longrightarrow> \<not> li_looted (sv_item v))
   | Quest_at i \<Rightarrow> (\<exists>j ql. sv_quest v = Some j \<and> om_get (lo_quests l) (get_counter p) = Some ql \<and> j < length ql))"

lemma loot_item_in_slot_seen':
  "quests_ok l \<Longrightarrow> delivers (loot_item_in_slot slot p l) (\<lambda>view. \<forall>v. view = Some v \<longrightarrow> seen p l v)"
  by (rule delivers_mono [OF loot_item_in_slot_seen]) (auto simp: seen_def split: loot_place.splits)

lemma seen_quest: "seen p l v \<Longrightarrow> sv_quest v = Some j \<Longrightarrow> \<exists>ql. om_get (lo_quests l) (get_counter p) = Some ql"
  by (auto simp: seen_def split: loot_place.splits)

lemma taken_entry_quiet:
  assumes ok: "world_ok protos w" and l: "om_get (lw_loots w) src = Some l" and v: "seen p l v"
    and unblocked: "sv_quest v = None \<Longrightarrow> \<not> li_blocked (sv_item v)"
    and w': "same_world (loot_give (Stored p (source_of src l (sv_place v) (sv_item v))) w) w'"
    and l': "om_get (lw_loots w') src = Some l'"
  shows "quiet_step protos w (put_loot src
    ((if li_ffa (sv_item v) then l' else set_looted (sv_place v) l')\<lparr>lo_unlooted := lo_unlooted l' - 1\<rparr>) w')"
proof -
  let ?s = "source_of src l (sv_place v) (sv_item v)"
  have rolls: "lw_rolls w' = lw_rolls w" and got: "single_keys (lw_got w') = single_keys (lw_got w) @ source_key ?s"
    and loots: "rel_option same_loot (om_get (lw_loots w) s) (om_get (lw_loots w') s)" for s
    using w' by (simp_all add: same_world_def)
  have ll': "same_loot l l'" using loots [of src] l l' by simp
  show ?thesis
  proof (cases "sv_place v")
    case (Quest_at i)
    then have "same_world w w'" using rolls got loots by (simp add: same_world_def source_key_def source_of_def)
    moreover have "same_loot l' ((if li_ffa (sv_item v) then l' else set_looted (sv_place v) l')\<lparr>lo_unlooted := lo_unlooted l' - 1\<rparr>)"
      using Quest_at by (simp add: set_looted_same)
    ultimately show ?thesis by (rule put_same_quiet [OF ok _ l'])
  next
    case (Plain_at i)
    with v have i: "i < length (lo_items l)" "sv_item v = lo_items l ! i" "sv_quest v = None"
      "single_item (sv_item v) \<Longrightarrow> \<not> li_looted (sv_item v)"
      by (auto simp: seen_def)
    have i': "i < length (lo_items l')" "flags l' ! i = flags l ! i" "lo_fill l' = lo_fill l"
      using ll' i(1) same_loot_length [OF ll'] by (simp_all add: same_loot_def del: nth_flags)
    show ?thesis
    proof (cases "li_ffa (sv_item v)")
      case True
      then have "same_world w w'" using rolls got loots Plain_at
        by (simp add: same_world_def source_key_def source_of_def single_item_def)
      then show ?thesis using True by (simp add: put_same_quiet [OF ok _ l'])
    next
      case False
      have "quiet_step protos w (put_loot src ((set_looted (Plain_at i) l')\<lparr>lo_unlooted := lo_unlooted l' - 1\<rparr>) w')"
      proof (rule put_taken_quiet [OF ok rolls got loots l' i'(1)])
        show "\<not> snd (flags l' ! i)" using unblocked i unfolding i'(2) by simp
        show "source_key ?s = [] \<or> source_key ?s = [(src, lo_fill l', Plain_at i)] \<and> \<not> fst (flags l' ! i)"
          using i Plain_at unfolding i'(2,3) by (simp add: source_key_def source_of_def)
      qed
      then show ?thesis using False Plain_at by simp
    qed
  qed
qed

lemma take_view_quiet:
  assumes ok: "world_ok protos w" and l: "om_get (lw_loots w) src = Some l" and v: "seen p l v"
  shows "delivers (take_view env p src slot l v w) (\<lambda>r. quiet_step protos w (snd r))"
proof -
  have stays: "quiet_step protos w w'" if "same_world w w'" for w' using same_world_quiet [OF ok that] .
  have after: "quiet_step protos w (loot_emit xs w')" "quiet_step protos w (send_loot_item_removed p slot w')"
    if "quiet_step protos w w'" for w' xs
    using that same_world_ok same_world_keeps keeps_trans quiet unfolding quiet_step_def by metis+
  have store: "delivers (mark_taken env p src slot v (loot_give (Stored p (source_of src l (sv_place v) (sv_item v))) w))
      (\<lambda>w'. delivers (on_loot src (\<lambda>l. (if li_ffa (sv_item v) then l else set_looted (sv_place v) l)\<lparr>lo_unlooted := lo_unlooted l - 1\<rparr>) w')
        (\<lambda>w'. quiet_step protos w (loot_emit xs w')))"
    if unblocked: "sv_quest v = None \<Longrightarrow> \<not> li_blocked (sv_item v)" for xs
  proof (rule delivers_mono [OF mark_taken_same])
    let ?w = "loot_give (Stored p (source_of src l (sv_place v) (sv_item v))) w"
    show l1: "om_get (lw_loots ?w) src = Some l" using l by simp
    show "\<exists>ql. om_get (lo_quests l) (get_counter p) = Some ql" if "sv_quest v = Some j" for j using seen_quest [OF v that] .
    fix w' assume w': "same_world ?w w'"
    from same_world_at [OF w' l1] obtain l' where l': "om_get (lw_loots w') src = Some l'" by blast
    have "quiet_step protos w (put_loot src
        ((if li_ffa (sv_item v) then l' else set_looted (sv_place v) l')\<lparr>lo_unlooted := lo_unlooted l' - 1\<rparr>) w')"
      using taken_entry_quiet [OF ok l v unblocked w' l'] by blast
    then show "delivers (on_loot src (\<lambda>l. (if li_ffa (sv_item v) then l else set_looted (sv_place v) l)\<lparr>lo_unlooted := lo_unlooted l - 1\<rparr>) w')
        (\<lambda>w'. quiet_step protos w (loot_emit xs w'))"
      unfolding on_loot_def delivers_simps loot_at_delivers [OF l'] by (rule after)
  qed
  have currency: "delivers (on_loot src (\<lambda>l. l\<lparr>lo_currencies := mark_own p at (lo_currencies l), lo_unlooted := lo_unlooted l - 1\<rparr>) w')
      (\<lambda>w'. quiet_step protos w (send_loot_item_removed p slot w'))"
    if w': "same_world w w'" "lw_loots w' = lw_loots w" for w' at
  proof -
    have l': "om_get (lw_loots w') src = Some l" using that(2) l by simp
    have "quiet_step protos w (put_loot src (l\<lparr>lo_currencies := mark_own p at (lo_currencies l), lo_unlooted := lo_unlooted l - 1\<rparr>) w')"
      by (rule put_same_quiet [OF ok w'(1) l']) simp
    then show ?thesis unfolding on_loot_def delivers_simps loot_at_delivers [OF l'] by (rule after)
  qed
  show ?thesis
    unfolding take_view_def
    by (auto simp: Let_def stays quiet intro!: store currency quiet split: option.split)
qed

lemma take_entry_quiet:
  assumes ok: "world_ok protos w" and l: "om_get (lw_loots w) src = Some l"
  shows "delivers (take_entry env p src slot w) (\<lambda>r. quiet_step protos w (snd r))"
  unfolding take_entry_def delivers_simps loot_at_delivers [OF l]
  by (rule delivers_mono [OF loot_item_in_slot_seen' [OF world_okD [OF ok l]]])
    (auto split: option.split intro: take_view_quiet [OF ok l] same_world_quiet [OF ok] quiet)

lemma take_entries_quiet:
  "world_ok protos w \<Longrightarrow> om_get (lw_loots w) src = Some l \<Longrightarrow> delivers (take_entries env p src slots w) (quiet_step protos w)"
proof (induction slots arbitrary: w l)
  case Nil
  then show ?case by (simp add: quiet_step_def)
next
  case (Cons slot slots)
  show ?case
    unfolding take_entries.simps delivers_simps
  proof (rule delivers_mono [OF take_entry_quiet [OF Cons.prems]])
    fix r :: "bool \<times> roll_world" assume r: "quiet_step protos w (snd r)"
    then obtain l' where "world_ok protos (snd r)" "om_get (lw_loots (snd r)) src = Some l'"
      using keeps_loot_at [OF _ Cons.prems(2)] by (auto simp: quiet_step_def)
    from delivers_mono [OF Cons.IH [OF this] quiet_step_trans [OF r]] r
    show "delivers (if fst r then take_entries env p src slots (snd r) else Inr (snd r)) (quiet_step protos w)"
      by simp
  qed
qed

section \<open>Deciding a roll\<close>

text \<open>The place of a roll is settled: the rolls about other places may go on.\<close>

definition settled :: "(u32 \<Rightarrow> item_prototype option) \<Rightarrow> guid \<Rightarrow> nat \<Rightarrow> roll_world \<Rightarrow> roll_world \<Rightarrow> bool" where
  "settled protos src i w w' \<longleftrightarrow> lw_rolls w' = lw_rolls w \<and> keeps_loots w w' \<and>
     (\<forall>E'. set E' \<subseteq> set (map essence (lw_rolls w)) \<longrightarrow> distinct (roll_places E') \<longrightarrow> (Some src, i) \<notin> set (roll_places E') \<longrightarrow>
        loot_ok protos (om_get (lw_loots w')) E' (single_keys (lw_got w')))"

lemma same_world_settled:
  assumes "world_ok protos w" and "same_world w w'"
  shows "settled protos src i w w'"
proof -
  have "lw_rolls w' = lw_rolls w" using assms(2) by (simp add: same_world_def)
  with same_world_ok [OF assms(2,1)] same_world_keeps [OF assms(2)] show ?thesis
    unfolding settled_def world_ok_def by (metis loot_ok_fewer_rolls)
qed

lemma settled_after_same:
  assumes "same_world w w'" and "settled protos src i w' w''"
  shows "settled protos src i w w''"
  using assms same_world_keeps [OF assms(1)] keeps_trans by (auto simp: settled_def same_world_def)

lemma settled_put:
  assumes ok: "world_ok protos w" and l: "om_get (lw_loots w) src = Some l" and i: "i < length (lo_items l)"
    and l': "lo_fill l' = lo_fill l" "flags l' = (flags l)[i := (gone, b)]" "quests_ok l'"
    and open_place: "\<not> fst (flags l ! i)"
    and K: "K = [] \<or> K = [(src, lo_fill l, Plain_at i)] \<and> gone"
    and w': "same_world (put_loot src l' w) w'" "single_keys (lw_got w'') = single_keys (lw_got w') @ K"
      "lw_rolls w'' = lw_rolls w'" "lw_loots w'' = lw_loots w'"
  shows "settled protos src i w w''"
  unfolding settled_def
proof (intro conjI allI impI)
  show "lw_rolls w'' = lw_rolls w" using w' by (simp add: same_world_def)
  show "keeps_loots w w''" using same_world_keeps [OF w'(1)] l w'(4) by (auto simp: keeps_loots_def)
  fix E' assume E': "set E' \<subseteq> set (map essence (lw_rolls w))" "distinct (roll_places E')" "(Some src, i) \<notin> set (roll_places E')"
  have "loot_ok protos (om_get (om_put src l' (lw_loots w))) E' (single_keys (lw_got w) @ K)"
    by (rule settle_world [OF ok _ l i l'(1,2) l'(3) _ E']) (use open_place K in auto)
  moreover have "rel_option same_loot (om_get (om_put src l' (lw_loots w)) s) (om_get (lw_loots w'') s)" for s
    using w' by (simp add: same_world_def del: om_simps)
  moreover have "single_keys (lw_got w'') = single_keys (lw_got w) @ K" using w' by (simp add: same_world_def)
  ultimately show "loot_ok protos (om_get (lw_loots w'')) E' (single_keys (lw_got w''))"
    by (metis loot_ok_same)
qed

lemma roll_item_seen:
  assumes "world_ok protos w" and "r \<in> set (lw_rolls w)" and "ro_loot r = Some src"
  obtains l where "om_get (lw_loots w) src = Some l" "unat (ro_slot r) < length (lo_items l)"
    "flags l ! unat (ro_slot r) = (False, True)" "protos (ro_itemid r) \<noteq> None"
    "roll_item r w = Inr (src, l, lo_items l ! unat (ro_slot r))"
proof -
  have "(Some src, unat (ro_slot r), ro_itemid r) \<in> set (map essence (lw_rolls w))"
    using assms(2,3) by (force simp: essence_def)
  with loot_okD(2) [OF assms(1) [unfolded world_ok_def]] obtain l where
    "om_get (lw_loots w) src = Some l" "unat (ro_slot r) < length (lo_items l)"
    "flags l ! unat (ro_slot r) = (False, True)" "protos (ro_itemid r) \<noteq> None"
    by (rule rolls_okE)
  then show ?thesis using that assms(3) by (simp add: roll_item_def loot_at_def)
qed

lemma flags_set_blocked: "i < length (lo_items l) \<Longrightarrow> flags (set_blocked i b l) = (flags l)[i := (fst (flags l ! i), b)]"
  by (simp add: set_blocked_def flags_def map_update)

lemma set_blocked_simps [simp]: "lo_fill (set_blocked i b l) = lo_fill l" "quests_ok (set_blocked i b l) = quests_ok l"
  by (simp_all add: set_blocked_def)

lemma unblock_item_settled:
  assumes ok: "world_ok protos w" and r: "r \<in> set (lw_rolls w)" "ro_loot r = Some src"
  shows "delivers (unblock_item r w) (settled protos src (unat (ro_slot r)) w)"
proof -
  from roll_item_seen [OF ok r] obtain l where l: "om_get (lw_loots w) src = Some l" "unat (ro_slot r) < length (lo_items l)"
    "flags l ! unat (ro_slot r) = (False, True)" "roll_item r w = Inr (src, l, lo_items l ! unat (ro_slot r))"
    by metis
  let ?w = "put_loot src (set_blocked (unat (ro_slot r)) False l) w"
  have "settled protos src (unat (ro_slot r)) w ?w"
    by (rule settled_put [OF ok l(1,2) _ _ _ _ _ same_world_refl, where gone = False and b = False and K = "[]"])
      (use l(3) world_okD [OF ok l(1)] in \<open>simp_all add: flags_set_blocked [OF l(2)]\<close>)
  then show ?thesis by (simp add: unblock_item_def l(4))
qed

lemma take_rolled_item_same:
  assumes l: "om_get (lw_loots w) src = Some l" and item: "roll_item r w = Inr (src, l, it)"
  shows "delivers (take_rolled_item env r w) (same_world (put_loot src (set_looted (Plain_at (unat (ro_slot r))) l) w))"
proof -
  let ?l = "set_looted (Plain_at (unat (ro_slot r))) l"
  have at: "om_get (lw_loots (put_loot src ?l w)) src = Some ?l" by simp
  have "delivers (notify_item_removed env src (ro_slot r) (put_loot src ?l w))
    (\<lambda>w'. delivers (on_loot src (\<lambda>l. l\<lparr>lo_unlooted := lo_unlooted l - 1\<rparr>) w') (same_world (put_loot src ?l w)))"
  proof (rule delivers_mono [OF notify_item_removed_same [OF at]])
    fix w' assume w': "same_world (put_loot src ?l w) w'"
    from same_world_at [OF w' at] obtain l' where "om_get (lw_loots w') src = Some l'" by blast
    then show "delivers (on_loot src (\<lambda>l. l\<lparr>lo_unlooted := lo_unlooted l - 1\<rparr>) w') (same_world (put_loot src ?l w))"
      by (rule delivers_mono [OF on_loot_same same_world_trans [OF w']]) simp_all
  qed
  then show ?thesis by (simp add: take_rolled_item_def item)
qed

lemma taken_settled:
  assumes ok: "world_ok protos w" and r: "r \<in> set (lw_rolls w)" "ro_loot r = Some src"
    and l: "om_get (lw_loots w) src = Some l" "roll_item r w = Inr (src, l, it)"
    and award: "award_keys a = [] \<or> award_keys a = [(src, lo_fill l, Plain_at (unat (ro_slot r)))]"
  shows "delivers (take_rolled_item env r w) (\<lambda>w'. settled protos src (unat (ro_slot r)) w (loot_give a w'))"
proof (rule delivers_mono [OF take_rolled_item_same [OF l]])
  let ?l = "set_looted (Plain_at (unat (ro_slot r))) l"
  from roll_item_seen [OF ok r] l have i: "unat (ro_slot r) < length (lo_items l)" "flags l ! unat (ro_slot r) = (False, True)"
    by (metis option.inject)+
  fix w' assume w': "same_world (put_loot src ?l w) w'"
  show "settled protos src (unat (ro_slot r)) w (loot_give a w')"
    by (rule settled_put [OF ok l(1) i(1) _ _ _ _ _ w', where gone = True and b = True and K = "award_keys a"])
      (use award i world_okD [OF ok l(1)] in \<open>simp_all add: flags_set_looted [OF i(1)] loot_give_rolls\<close>)
qed

lemma source_award_keys:
  "source_key (source_of src l (Plain_at i) it) = [] \<or> source_key (source_of src l (Plain_at i) it) = [(src, lo_fill l, Plain_at i)]"
  by (simp add: source_key_def source_of_def)

lemma store_rolled_item_settled:
  assumes ok: "world_ok protos w" and r: "r \<in> set (lw_rolls w)" "ro_loot r = Some src"
  shows "delivers (store_rolled_item env p r w) (settled protos src (unat (ro_slot r)) w)"
proof -
  from roll_item_seen [OF ok r] obtain l where l: "om_get (lw_loots w) src = Some l"
    "roll_item r w = Inr (src, l, lo_items l ! unat (ro_slot r))" by metis
  have emit: "settled protos src i w (loot_emit xs w')" if "settled protos src i w w'" for i xs w'
    using that by (simp add: settled_def keeps_loots_def)
  show ?thesis
    using taken_settled [OF ok r l] delivers_mono [OF unblock_item_settled [OF ok r] emit]
    by (simp add: store_rolled_item_def l(2) Let_def source_award_keys)
qed

lemma disenchant_rolled_item_settled:
  assumes ok: "world_ok protos w" and r: "r \<in> set (lw_rolls w)" "ro_loot r = Some src" and protos: "le_proto env = protos"
  shows "delivers (disenchant_rolled_item env p r w) (settled protos src (unat (ro_slot r)) w)"
proof -
  from roll_item_seen [OF ok r] obtain l where l: "om_get (lw_loots w) src = Some l"
    "roll_item r w = Inr (src, l, lo_items l ! unat (ro_slot r))" and "protos (ro_itemid r) \<noteq> None" by metis
  then obtain proto where "le_proto env (ro_itemid r) = Some proto" using protos by blast
  then show ?thesis
    using taken_settled [OF ok r l] by (simp add: disenchant_rolled_item_def l(2) source_award_keys)
qed

lemma need_dice_same: "same_world w (snd (need_dice env r vs b w))"
proof (induction env r vs b w rule: need_dice.induct)
  case (2 env r p v vs best w)
  have step: "same_world w (send_loot_roll env p n ROLL_NEED r (w\<lparr>lw_draws := Suc (lw_draws w)\<rparr>))" for n
    by (rule same_world_trans [where w' = "w\<lparr>lw_draws := Suc (lw_draws w)\<rparr>"]) (rule quiet)+
  show ?case
  proof (cases "v \<noteq> ROLL_NEED")
    case True
    with 2(1) show ?thesis by (simp add: Let_def)
  next
    case False
    from 2(2) [OF False refl refl] show ?thesis
      using False by (simp only: need_dice.simps greed_dice.simps if_False Let_def same_world_trans [OF step])
  qed
qed simp

lemma greed_dice_same: "same_world w (snd (greed_dice env r vs b w))"
proof (induction env r vs b w rule: greed_dice.induct)
  case (2 env r p v vs best w)
  have step: "same_world w (send_loot_roll env p n v r (w\<lparr>lw_draws := Suc (lw_draws w)\<rparr>))" for n
    by (rule same_world_trans [where w' = "w\<lparr>lw_draws := Suc (lw_draws w)\<rparr>"]) (rule quiet)+
  show ?case
  proof (cases "v \<noteq> ROLL_GREED \<and> v \<noteq> ROLL_DISENCHANT")
    case True
    with 2(1) show ?thesis by (simp add: Let_def)
  next
    case False
    from 2(2) [OF False refl refl] show ?thesis
      using False by (simp only: need_dice.simps greed_dice.simps if_False Let_def same_world_trans [OF step])
  qed
qed simp

lemma same_world_member: "same_world w w' \<Longrightarrow> r \<in> set (lw_rolls w) \<Longrightarrow> r \<in> set (lw_rolls w')"
  by (simp add: same_world_def)

lemma need_branch_settled:
  assumes ok: "world_ok protos w" and r: "r \<in> set (lw_rolls w)" "ro_loot r = Some src"
  shows "delivers (need_branch env r w) (settled protos src (unat (ro_slot r)) w)"
proof (cases "ro_votes r")
  case Nil
  then show ?thesis by (simp add: need_branch_def same_world_settled [OF ok])
next
  case (Cons e vs)
  obtain p n w1 where d: "need_dice env r (ro_votes r) (fst e, 0) w = ((p, n), w1)" by (metis surj_pair)
  let ?w = "send_loot_roll_won env p n ROLL_NEED r w1"
  have same: "same_world w ?w"
    using need_dice_same [of w env r "ro_votes r" "(fst e, 0)"] d by (auto intro: same_world_trans quiet)
  note ok' = same_world_ok [OF same ok] and r' = same_world_member [OF same r(1)]
  have "delivers (store_rolled_item env p r ?w) (settled protos src (unat (ro_slot r)) w)"
    by (rule delivers_mono [OF store_rolled_item_settled [OF ok' r' r(2)] settled_after_same [OF same]])
  then show ?thesis
    using Cons d same_world_settled [OF ok same] by (simp add: need_branch_def Let_def)
qed

lemma greed_branch_settled:
  assumes ok: "world_ok protos w" and r: "r \<in> set (lw_rolls w)" "ro_loot r = Some src" and protos: "le_proto env = protos"
  shows "delivers (greed_branch env r w) (settled protos src (unat (ro_slot r)) w)"
proof (cases "ro_votes r")
  case Nil
  then show ?thesis by (simp add: greed_branch_def same_world_settled [OF ok])
next
  case (Cons e vs)
  obtain p n v w1 where d: "greed_dice env r (ro_votes r) (fst e, 0, ROLL_PASS) w = ((p, n, v), w1)" by (metis surj_pair)
  let ?w = "send_loot_roll_won env p n v r w1"
  have same: "same_world w ?w"
    using greed_dice_same [of w env r "ro_votes r" "(fst e, 0, ROLL_PASS)"] d by (auto intro: same_world_trans quiet)
  note ok' = same_world_ok [OF same ok] and r' = same_world_member [OF same r(1)]
  have "delivers (store_rolled_item env p r ?w) (settled protos src (unat (ro_slot r)) w)"
    by (rule delivers_mono [OF store_rolled_item_settled [OF ok' r' r(2)] settled_after_same [OF same]])
  moreover have "delivers (disenchant_rolled_item env p r ?w) (settled protos src (unat (ro_slot r)) w)"
    by (rule delivers_mono [OF disenchant_rolled_item_settled [OF ok' r' r(2) protos] settled_after_same [OF same]])
  ultimately show ?thesis
    using Cons d same_world_settled [OF ok same] by (cases v) (simp_all add: greed_branch_def Let_def)
qed

lemma roll_places_erase:
  assumes "distinct (roll_places E)" and "i < length E"
  shows "distinct (roll_places (take i E @ drop (Suc i) E))"
    and "E ! i = (Some src, j, t) \<Longrightarrow> (Some src, j) \<notin> set (roll_places (take i E @ drop (Suc i) E))"
proof -
  have "roll_places E = roll_places (take i E) @ roll_places [E ! i] @ roll_places (drop (Suc i) E)"
    by (metis append.assoc append_Cons append_Nil assms(2) id_take_nth_drop roll_places_simps(3))
  with assms(1) have d: "distinct (roll_places (take i E) @ roll_places [E ! i] @ roll_places (drop (Suc i) E))" by simp
  then show "distinct (roll_places (take i E @ drop (Suc i) E))" by auto
  assume "E ! i = (Some src, j, t)"
  with d show "(Some src, j) \<notin> set (roll_places (take i E @ drop (Suc i) E))" by auto
qed

lemma erase_roll_simps [simp]:
  "lw_loots (erase_roll i w) = lw_loots w" "lw_got (erase_roll i w) = lw_got w"
  "lw_rolls (erase_roll i w) = take i (lw_rolls w) @ drop (Suc i) (lw_rolls w)"
  by (simp_all add: erase_roll_def)

lemma set_erase_subset: "set (take i xs @ drop (Suc i) xs) \<subseteq> set xs"
  using set_take_subset [of i xs] set_drop_subset [of "Suc i" xs] by auto

lemma count_the_roll_quiet:
  assumes ok: "world_ok protos w" and i: "i < length (lw_rolls w)" and protos: "le_proto env = protos"
  shows "delivers (count_the_roll env i w) (quiet_step protos w)"
proof -
  let ?r = "lw_rolls w ! i" and ?E = "map essence (lw_rolls w)"
  have d: "distinct (roll_places ?E)" using loot_okD(3) [OF ok [unfolded world_ok_def]] .
  have i': "i < length ?E" using i by simp
  have E': "map essence (take i (lw_rolls w) @ drop (Suc i) (lw_rolls w)) = take i ?E @ drop (Suc i) ?E"
    by (simp add: take_map drop_map)
  have r: "?r \<in> set (lw_rolls w)" using i by simp
  show ?thesis
  proof (cases "ro_loot ?r")
    case None
    have "quiet_step protos w (erase_roll i w)"
      using loot_ok_fewer_rolls [OF ok [unfolded world_ok_def] set_erase_subset roll_places_erase(1) [OF d i']]
      by (simp add: quiet_step_def world_ok_def keeps_loots_def E' del: map_append)
    then show ?thesis using i None by (simp add: count_the_roll_def roll_at_def)
  next
    case (Some src)
    have e: "?E ! i = (Some src, unat (ro_slot ?r), ro_itemid ?r)" using i Some by (simp add: essence_def)
    have over: "quiet_step protos w (erase_roll i w')" if "settled protos src (unat (ro_slot ?r)) w w'" for w'
      using that set_erase_subset [of i ?E] roll_places_erase(1) [OF d i'] roll_places_erase(2) [OF d i' e]
      unfolding settled_def quiet_step_def world_ok_def keeps_loots_def
      by (simp add: E' del: map_append roll_places_simps set_append)
    have pass: "delivers (unblock_item ?r (send_loot_all_passed env ?r w)) (settled protos src (unat (ro_slot ?r)) w)"
    proof -
      have same: "same_world w (send_loot_all_passed env ?r w)" by (rule quiet)
      show ?thesis
        by (rule delivers_mono [OF unblock_item_settled [OF same_world_ok [OF same ok] same_world_member [OF same r] Some]
              settled_after_same [OF same]])
    qed
    show ?thesis
      using i Some delivers_mono [OF need_branch_settled [OF ok r Some] over]
        delivers_mono [OF greed_branch_settled [OF ok r Some protos] over] delivers_mono [OF pass over]
      by (simp add: count_the_roll_def roll_at_def)
  qed
qed

section \<open>Votes, departures and timeouts\<close>

lemma essence_counts [simp]:
  "essence (cast_vote p v r) = essence r" "essence (drop_vote p v r) = essence r"
  "essence (fst (count_vote env p v r w)) = essence r"
  by (simp_all add: essence_def cast_vote_def drop_vote_def count_vote_def Let_def split: roll_vote.split)

lemma put_roll_quiet:
  assumes "world_ok protos w" and "i < length (lw_rolls w)" and "essence r = essence (lw_rolls w ! i)"
  shows "quiet_step protos w (put_roll i r w)"
proof -
  have "map essence ((lw_rolls w)[i := r]) = map essence (lw_rolls w)"
    using assms(2,3) by (metis list_update_id map_update)
  then show ?thesis using assms(1) by (simp add: quiet_step_def world_ok_def keeps_loots_def put_roll_def)
qed

lemma count_vote_same: "same_world w (snd (count_vote env p v r w))"
  by (simp add: count_vote_def quiet split: roll_vote.split)

lemma count_vote_rolls [simp]: "lw_rolls (snd (count_vote env p v r w)) = lw_rolls w"
  using count_vote_same by (simp add: same_world_def)

lemma count_roll_vote_quiet:
  assumes ok: "world_ok protos w" and i: "i < length (lw_rolls w)" and protos: "le_proto env = protos"
  shows "delivers (count_roll_vote env p i v w) (\<lambda>r. quiet_step protos w (snd r))"
proof -
  obtain r w1 where rw: "count_vote env p v (lw_rolls w ! i) w = (r, w1)" by (metis surj_pair)
  have w1: "same_world w w1" "lw_rolls w1 = lw_rolls w" "essence r = essence (lw_rolls w ! i)"
    using count_vote_same [of w env p v "lw_rolls w ! i"] count_vote_rolls [of env p v "lw_rolls w ! i" w]
      essence_counts(3) [of env p v "lw_rolls w ! i" w] rw by simp_all
  have q: "quiet_step protos w (put_roll i r w1)"
    by (rule quiet_step_trans [OF same_world_quiet [OF ok w1(1)] put_roll_quiet [OF same_world_ok [OF w1(1) ok]]])
      (use i w1 in simp_all)
  then have "world_ok protos (put_roll i r w1)" "i < length (lw_rolls (put_roll i r w1))"
    using i w1(2) by (simp_all add: quiet_step_def)
  from delivers_mono [OF count_the_roll_quiet [OF this protos] quiet_step_trans [OF q]]
  have "delivers (count_the_roll env i (put_roll i r w1)) (quiet_step protos w)" .
  then show ?thesis
    using i q same_world_quiet [OF ok same_world_refl] by (simp add: count_roll_vote_def roll_at_def rw Let_def)
qed

lemma find_roll_less: "find_roll target slot rs = Some i \<Longrightarrow> i < length rs"
  by (auto simp: find_roll_def find_Some_iff)

lemma handle_loot_roll_quiet:
  assumes "world_ok protos w" and "le_proto env = protos"
  shows "delivers (handle_loot_roll env p target slot t w) (quiet_step protos w)"
  using same_world_quiet [OF assms(1) same_world_refl] count_roll_vote_quiet [OF assms(1) find_roll_less assms(2)]
  by (auto simp: handle_loot_roll_def count_player_roll_vote_def split: option.split)

lemma remove_rolls_from_quiet:
  "world_ok protos w \<Longrightarrow> delivers (remove_rolls_from env p i w) (quiet_step protos w)"
proof (induction env p i w rule: remove_rolls_from.induct)
  case (1 env p i w)
  show ?case
  proof (cases "length (lw_rolls w) \<le> i")
    case True
    then show ?thesis using same_world_quiet [OF "1.prems" same_world_refl] by (simp add: remove_rolls_from.simps [of env p i w])
  next
    case False
    then have i: "i < length (lw_rolls w)" by simp
    show ?thesis
    proof (cases "map_of (ro_votes (lw_rolls w ! i)) p")
      case None
      then show ?thesis using 1(1) [OF False None "1.prems"] False by (simp add: remove_rolls_from.simps [of env p i w])
    next
      case (Some v)
      let ?w = "put_roll i (drop_vote p v (lw_rolls w ! i)) w"
      have q: "quiet_step protos w ?w" by (rule put_roll_quiet [OF "1.prems" i]) simp
      have "delivers (remove_rolls_from env p i ?w) (quiet_step protos ?w)"
        by (rule 1(2) [OF False Some count_roll_vote_dropped [OF i] refl refl]) (use q in \<open>simp add: quiet_step_def\<close>)
      from delivers_mono [OF this quiet_step_trans [OF q]] show ?thesis
        using False Some by (simp add: remove_rolls_from.simps [of env p i w] count_roll_vote_dropped [OF i])
    qed
  qed
qed

lemma leave_group_quiet:
  assumes "world_ok protos w"
  shows "delivers (leave_group env p w) (quiet_step protos w)"
proof -
  let ?w = "w\<lparr>lw_members := filter (\<lambda>q. q \<noteq> p) (lw_members w)\<rparr>"
  have q: "quiet_step protos w ?w" by (rule same_world_quiet [OF assms]) (rule quiet)
  then have "world_ok protos ?w" by (simp add: quiet_step_def)
  from delivers_mono [OF remove_rolls_from_quiet [OF this] quiet_step_trans [OF q]]
  show ?thesis by (simp add: leave_group_def remove_rolls_def)
qed

lemma end_roll_quiet:
  "world_ok protos w \<Longrightarrow> le_proto env = protos \<Longrightarrow> delivers (end_roll env w) (\<lambda>w'. quiet_step protos w w' \<and> lw_rolls w' = [])"
proof (induction env w rule: end_roll.induct)
  case (1 env w)
  show ?case
  proof (cases "lw_rolls w = []")
    case True
    then show ?thesis using same_world_quiet [OF "1.prems"(1) same_world_refl] by (simp add: end_roll.simps [of env w])
  next
    case False
    then have "0 < length (lw_rolls w)" by simp
    from count_the_roll_quiet [OF "1.prems"(1) this "1.prems"(2)] obtain w1
      where w1: "count_the_roll env 0 w = Inr w1" "quiet_step protos w w1" by (auto simp: delivers_def)
    have "delivers (end_roll env w1) (\<lambda>w'. quiet_step protos w1 w' \<and> lw_rolls w' = [])"
      by (rule 1(1) [OF False w1(1) _ "1.prems"(2)]) (use w1(2) in \<open>simp add: quiet_step_def\<close>)
    then have "delivers (end_roll env w1) (\<lambda>w'. quiet_step protos w w' \<and> lw_rolls w' = [])"
      by (rule delivers_mono) (blast intro: quiet_step_trans [OF w1(2)])
    then show ?thesis using False w1(1) by (simp add: end_roll.simps [of env w])
  qed
qed

lemma stop_group_loot_quiet:
  assumes "world_ok protos w" and "le_proto env = protos"
  shows "delivers (stop_group_loot env src w) (quiet_step protos w)"
proof -
  have "quiet_step protos w (w'\<lparr>lw_timers := t\<rparr>)" if "quiet_step protos w w'" for w' t
    using that same_world_quiet [of protos w' "w'\<lparr>lw_timers := t\<rparr>"] quiet
    by (auto simp: quiet_step_def intro: keeps_trans)
  then show ?thesis
    using same_world_quiet [OF assms(1) same_world_refl] delivers_mono [OF end_roll_quiet [OF assms]]
    by (simp add: stop_group_loot_def)
qed

lemma update_group_loot_quiet:
  assumes "world_ok protos w" and "le_proto env = protos"
  shows "delivers (update_group_loot env src diff w) (quiet_step protos w)"
  using stop_group_loot_quiet [OF assms] same_world_quiet [OF assms(1)]
  by (simp add: update_group_loot_def quiet split: option.split)

section \<open>Clearing and filling\<close>

definition empty_handed :: "guid \<Rightarrow> loot \<Rightarrow> roll_world \<Rightarrow> bool" where
  "empty_handed src l w \<longleftrightarrow> untouched src l (map essence (lw_rolls w)) (single_keys (lw_got w))"

lemma put_untouched:
  assumes "world_ok protos w" and "om_get (lw_loots w) src \<noteq> None" and "empty_handed src l w" and "quests_ok l"
  shows "quiet_step protos w (put_loot src l w)"
  using loot_ok_untouched [OF assms(1) [unfolded world_ok_def] assms(3) [unfolded empty_handed_def] assms(4)] assms(2)
  by (auto simp: quiet_step_def world_ok_def keeps_loots_def om_get_put_fun)

lemma clear_loot_quiet:
  assumes ok: "world_ok protos w" and l: "om_get (lw_loots w) src = Some l"
  shows "delivers (clear_loot src w) (\<lambda>w'. quiet_step protos w w' \<and> lw_members w' = lw_members w \<and>
    length (lw_rolls w') = length (lw_rolls w) \<and>
    om_get (lw_loots w') src = Some (loot_clear l) \<and> empty_handed src (loot_clear l) w')"
proof -
  let ?rs = "map (\<lambda>r. if ro_loot r = Some src then r\<lparr>ro_loot := None\<rparr> else r) (lw_rolls w)"
  let ?w = "w\<lparr>lw_rolls := ?rs\<rparr>"
  have E: "map essence ?rs = map (unlink src) (map essence (lw_rolls w))"
    by (simp add: essence_def unlink_def)
  have ok': "world_ok protos ?w"
    using loot_ok_unlink [OF ok [unfolded world_ok_def]] by (simp add: world_ok_def E del: map_map)
  have "\<forall>f pl. (src, f, pl) \<in> set (single_keys (lw_got w)) \<longrightarrow> f < Suc (lo_fill l)"
    using loot_okD(5) [OF ok [unfolded world_ok_def]] l by (fastforce simp: key_ok_def)
  moreover have "\<forall>e \<in> set (map (unlink src) (map essence (lw_rolls w))). fst e \<noteq> Some src"
    by (auto simp: unlink_def)
  ultimately have eh: "empty_handed src (loot_clear l) ?w"
    by (simp add: empty_handed_def untouched_def loot_clear_def E del: map_map)
  have q: "quests_ok (loot_clear l)" by (simp add: quests_ok_def loot_clear_def)
  have "quiet_step protos ?w (put_loot src (loot_clear l) ?w)"
    by (rule put_untouched [OF ok' _ eh q]) (use l in simp)
  moreover have "quiet_step protos w ?w" using ok' by (simp add: quiet_step_def keeps_loots_def)
  ultimately have "quiet_step protos w (put_loot src (loot_clear l) ?w)" by (rule quiet_step_trans [rotated])
  moreover have commute: "(put_loot src (loot_clear l) w)\<lparr>lw_rolls := ?rs\<rparr> = put_loot src (loot_clear l) ?w" by (simp add: put_loot_def)
  moreover have "empty_handed src (loot_clear l) (put_loot src (loot_clear l) ?w)"
    using eh by (simp add: empty_handed_def)
  ultimately show ?thesis
    using l by (simp add: clear_loot_def loot_at_delivers commute)
qed

text \<open>What a container holds before anybody has taken anything.\<close>

definition fresh :: "nat \<Rightarrow> loot \<Rightarrow> bool" where
  "fresh f l \<longleftrightarrow> lo_fill l = f \<and> length (lo_items l) \<le> 16 \<and> length (lo_quest_items l) \<le> 32 \<and>
     (\<forall>it \<in> set (lo_items l). \<not> li_looted it) \<and> quests_ok l"

lemma fresh_clear: "fresh (Suc (lo_fill l)) (loot_clear l)"
  by (simp add: fresh_def loot_clear_def quests_ok_def)

lemma fresh_updates [simp]:
  "fresh f (l\<lparr>lo_unlooted := a\<rparr>) = fresh f l" "fresh f (l\<lparr>lo_currencies := b\<rparr>) = fresh f l"
  "fresh f (l\<lparr>lo_ffas := c\<rparr>) = fresh f l" "fresh f (l\<lparr>lo_conds := d\<rparr>) = fresh f l" "fresh f (l\<lparr>lo_gold := g\<rparr>) = fresh f l"
  "fresh f (l\<lparr>lo_unlooted := a, lo_currencies := b\<rparr>) = fresh f l" "fresh f (l\<lparr>lo_unlooted := a, lo_ffas := c\<rparr>) = fresh f l"
  by (simp_all add: fresh_def)

lemma loot_item_new_looted [simp]: "\<not> li_looted (loot_item_new env rate dr li)"
  by (simp add: loot_item_new_def Let_def)

lemma fresh_add_item: "fresh f l \<Longrightarrow> fresh f (loot_add_item env rate e l)"
  unfolding loot_add_item_def fresh_def quests_ok_def MAX_NR_LOOT_ITEMS_def MAX_NR_QUEST_ITEMS_def Let_def
  by (auto simp: less_Suc_eq)

lemma quest_item_new_index: "i < 256 \<Longrightarrow> unat (qi_index (quest_item_new i)) = i"
  by (simp add: quest_item_new_def unsigned_of_nat take_bit_nat_eq_self)

lemma fresh_quest_loop:
  "fresh f l \<Longrightarrow> set is \<subseteq> {..<length (lo_quest_items l)} \<Longrightarrow> (\<forall>q \<in> set ql. unat (qi_index q) < length (lo_quest_items l)) \<Longrightarrow>
   fill_quest_loop env p is ql l = (ql', l') \<Longrightarrow>
   fresh f l' \<and> length (lo_quest_items l') = length (lo_quest_items l) \<and> (\<forall>q \<in> set ql'. unat (qi_index q) < length (lo_quest_items l))"
proof (induction env p "is" ql l arbitrary: ql' l' rule: fill_quest_loop.induct)
  case (2 env p i "is" ql l)
  have i: "i < length (lo_quest_items l)" "i < 256" using "2.prems"(1,2) by (auto simp: fresh_def)
  have l1: "fresh f (l\<lparr>lo_unlooted := n, lo_quest_items := (lo_quest_items l)[i := it]\<rparr>)"
    "fresh f (l\<lparr>lo_quest_items := (lo_quest_items l)[i := it]\<rparr>)" for n it
    using "2.prems"(1) by (auto simp: fresh_def quests_ok_def)
  show ?case
    using 2 i l1 by (auto simp: Let_def quest_item_new_index split: if_splits)
qed auto

lemma fresh_put_quests:
  "fresh f l \<Longrightarrow> (\<forall>q \<in> set ql. unat (qi_index q) < length (lo_quest_items l)) \<Longrightarrow> fresh f (l\<lparr>lo_quests := om_put low ql (lo_quests l)\<rparr>)"
  by (auto simp: fresh_def quests_ok_def)

lemma fresh_fill_quest:
  assumes "fresh f l"
  shows "fresh f (fill_quest_loot env p l)"
proof -
  obtain ql l' where e: "fill_quest_loop env p [0 ..< length (lo_quest_items l)] [] l = (ql, l')" by (metis surj_pair)
  have "set [0 ..< length (lo_quest_items l)] \<subseteq> {..<length (lo_quest_items l)}" by auto
  from fresh_quest_loop [OF assms this _ e] have "fresh f l'" "\<forall>q \<in> set ql. unat (qi_index q) < length (lo_quest_items l')"
    by simp_all
  then show ?thesis using assms by (simp add: fill_quest_loot_def e fresh_put_quests)
qed

lemma fresh_set_item:
  assumes "fresh f l" and "i < length (lo_items l)" and "li_looted it = li_looted (lo_items l ! i)"
  shows "fresh f (l\<lparr>lo_items := (lo_items l)[i := it]\<rparr>)"
proof -
  have "\<not> li_looted x" if "x \<in> set ((lo_items l)[i := it])" for x
  proof -
    from that set_update_subset_insert have "x = it \<or> x \<in> set (lo_items l)" by fast
    then show ?thesis using assms nth_mem [OF assms(2)] unfolding fresh_def by metis
  qed
  then show ?thesis using assms(1) by (simp add: fresh_def)
qed

lemma fresh_cond_loop: "fresh f l \<Longrightarrow> set is \<subseteq> {..<length (lo_items l)} \<Longrightarrow> fresh f (snd (fill_cond_loop env p is ql l))"
proof (induction "is" arbitrary: ql l)
  case (Cons i "is")
  let ?l = "l\<lparr>lo_unlooted := lo_unlooted l + 1, lo_items := (lo_items l)[i := (lo_items l ! i)\<lparr>li_counted := True\<rparr>]\<rparr>"
  have i: "i < length (lo_items l)" "set is \<subseteq> {..<length (lo_items l)}" using Cons.prems(2) by auto
  have "fresh f ?l"
    using fresh_set_item [of f "l\<lparr>lo_unlooted := lo_unlooted l + 1\<rparr>" i] Cons.prems(1) i(1) by simp
  moreover have "length (lo_items ?l) = length (lo_items l)" by simp
  ultimately show ?case
    using Cons.IH [of l] Cons.IH [of ?l] Cons.prems(1) i(2) by (simp add: Let_def)
qed simp

lemma fresh_fill_cond:
  assumes "fresh f l"
  shows "fresh f (fill_cond_loot env p l)"
proof -
  obtain ql l' where e: "fill_cond_loop env p [0 ..< length (lo_items l)] [] l = (ql, l')" by (metis surj_pair)
  have "set [0 ..< length (lo_items l)] \<subseteq> {..<length (lo_items l)}" by auto
  from fresh_cond_loop [OF assms this, of env p "[]"] have "fresh f l'" by (simp add: e)
  then show ?thesis by (simp add: fill_cond_loot_def e)
qed

lemma fresh_fill_player: "fresh f l \<Longrightarrow> fresh f (fill_not_normal_loot_for env p l)"
  by (simp add: fill_not_normal_loot_for_def Let_def fresh_fill_quest fresh_fill_cond fill_currency_loot_def fill_ffa_loot_def)

lemma fresh_fill: "fresh f l \<Longrightarrow> fresh f (fill_loot env rate generated players l)"
proof -
  have "fresh f l \<Longrightarrow> fresh f (fold (loot_add_item env rate) generated l)" for l
    by (induction generated arbitrary: l) (simp_all add: fresh_add_item)
  moreover have "fresh f l \<Longrightarrow> fresh f (fold (fill_not_normal_loot_for env) players l)" for l
    by (induction players arbitrary: l) (simp_all add: fresh_fill_player)
  ultimately show "fresh f l \<Longrightarrow> ?thesis" by (simp add: fill_loot_def)
qed

section \<open>Starting rolls\<close>

text \<open>The rolls that a step adds are more than one player's.\<close>

definition no_sole_roll :: "roll_world \<Rightarrow> roll_world \<Rightarrow> bool" where
  "no_sole_roll w w' \<longleftrightarrow> (\<forall>r \<in> set (drop (length (lw_rolls w)) (lw_rolls w')). ro_players r \<noteq> 1)"

definition adds_rolls :: "roll_world \<Rightarrow> roll_world \<Rightarrow> bool" where
  "adds_rolls w w' \<longleftrightarrow> keeps_loots w w' \<and> (\<exists>new. lw_rolls w' = lw_rolls w @ new)"

lemma adds_refl [simp]: "adds_rolls w w"
  by (simp add: adds_rolls_def)

lemma adds_rolls_trans: "adds_rolls w w' \<Longrightarrow> adds_rolls w' w'' \<Longrightarrow> adds_rolls w w''"
  by (auto simp: adds_rolls_def intro: keeps_trans)

lemma no_sole_split:
  assumes "adds_rolls w w'" and "adds_rolls w' w''" and "no_sole_roll w w''"
  shows "no_sole_roll w w'" and "no_sole_roll w' w''"
proof -
  from assms obtain new new' where "lw_rolls w' = lw_rolls w @ new" "lw_rolls w'' = lw_rolls w' @ new'"
    unfolding adds_rolls_def by blast
  with assms(3) show "no_sole_roll w w'" "no_sole_roll w' w''" by (auto simp: no_sole_roll_def)
qed

lemma put_adds_rolls: "om_get (lw_loots w) src \<noteq> None \<Longrightarrow> adds_rolls w (put_loot src l w)"
  by (auto simp: adds_rolls_def keeps_loots_def)

lemma start_loot_roll_delivers:
  assumes l: "om_get (lw_loots w) src = Some l" and proto: "le_proto env (li_itemid (lo_items l ! slot)) \<noteq> None"
  shows "delivers (start_loot_roll env src how slot w) (adds_rolls w)"
  using proto by (auto simp: start_loot_roll_def queue_roll_def loot_at_delivers [OF l] Let_def adds_rolls_def keeps_loots_def l
      calculate_common_vote_mask_def open_roll_def roll_new_def send_loot_start_roll_def)

lemma loot_rolls_loop_delivers:
  "om_get (lw_loots w) src = Some l \<Longrightarrow> delivers (loot_rolls_loop env src how slots w) (adds_rolls w)"
proof (induction slots arbitrary: w l)
  case Nil
  then show ?case by simp
next
  case (Cons slot slots)
  have rest: "delivers (loot_rolls_loop env src how slots w') (adds_rolls w)" if w': "adds_rolls w w'" for w'
  proof -
    from w' Cons.prems obtain l' where "om_get (lw_loots w') src = Some l'"
      using keeps_loot_at unfolding adds_rolls_def by blast
    from Cons.IH [OF this] show ?thesis by (rule delivers_mono) (rule adds_rolls_trans [OF w'])
  qed
  show ?case
  proof (cases "le_proto env (li_itemid (lo_items l ! slot))")
    case None
    then show ?thesis using rest [OF adds_refl] by (simp add: loot_at_delivers [OF Cons.prems] Let_def)
  next
    case (Some proto)
    have "delivers (start_loot_roll env src how slot w) (\<lambda>w'. delivers (loot_rolls_loop env src how slots w') (adds_rolls w))"
      by (rule delivers_mono [OF start_loot_roll_delivers [OF Cons.prems] rest]) (simp_all add: Some)
    then show ?thesis
      using rest [OF adds_refl] rest [OF put_adds_rolls, of src "set_under slot l"] Cons.prems
      by (auto simp: loot_at_delivers [OF Cons.prems] Let_def Some)
  qed
qed

text \<open>While rolls start on a container, those about it are for the slots before.\<close>

definition starting :: "(u32 \<Rightarrow> item_prototype option) \<Rightarrow> guid \<Rightarrow> nat \<Rightarrow> nat \<Rightarrow> roll_world \<Rightarrow> bool" where
  "starting protos src m n w \<longleftrightarrow> world_ok protos w \<and> (\<exists>l. om_get (lw_loots w) src = Some l \<and> length (lo_items l) = m \<and>
     (\<forall>it \<in> set (lo_items l). \<not> li_looted it)) \<and> m \<le> 16 \<and>
     (\<forall>i t. (Some src, i, t) \<in> set (map essence (lw_rolls w)) \<longrightarrow> i < n)"

lemma starting_Suc: "starting protos src m n w \<Longrightarrow> starting protos src m (Suc n) w"
  by (force simp: starting_def intro: less_SucI simp del: set_map)

lemma starting_at:
  assumes "starting protos src m n w"
  obtains l where "om_get (lw_loots w) src = Some l" "length (lo_items l) = m" "\<forall>it \<in> set (lo_items l). \<not> li_looted it"
  using assms unfolding starting_def by blast

lemma items_update_not_looted:
  assumes "\<forall>it \<in> set xs. \<not> li_looted it" and "\<not> li_looted y"
  shows "\<forall>it \<in> set (xs[i := y]). \<not> li_looted it"
  using assms set_update_subset_insert [of xs i y] by blast

lemma set_under_items: "lo_items (set_under i l) = (lo_items l)[i := (lo_items l ! i)\<lparr>li_under := True\<rparr>]"
  by (simp add: set_under_def)

lemma set_blocked_items: "lo_items (set_blocked i b l) = (lo_items l)[i := (lo_items l ! i)\<lparr>li_blocked := b\<rparr>]"
  by (simp add: set_blocked_def)

lemma starting_under:
  assumes s: "starting protos src m n w" and l: "om_get (lw_loots w) src = Some l" and i: "i < length (lo_items l)"
  shows "starting protos src m n (put_loot src (set_under i l) w)"
proof -
  from s l have l': "length (lo_items l) = m" "\<forall>it \<in> set (lo_items l). \<not> li_looted it"
    by (auto elim: starting_at)
  have "flags (set_under i l) = flags l"
    using i by (auto simp: set_under_def flags_def map_update intro!: list_update_same_conv [THEN iffD2])
  then have "same_loot l (set_under i l)" by (simp add: same_loot_def set_under_def)
  then have "world_ok protos (put_loot src (set_under i l) w)"
    using s same_world_ok [OF same_world_put [OF l]] by (simp add: starting_def)
  moreover have "\<not> li_looted (lo_items l ! i)" using l'(2) nth_mem [OF i] by blast
  then have "\<forall>it \<in> set (lo_items (set_under i l)). \<not> li_looted it"
    unfolding set_under_items by (intro items_update_not_looted [OF l'(2)]) simp
  moreover have "length (lo_items (set_under i l)) = m" using l'(1) by (simp add: set_under_def)
  ultimately show ?thesis using s by (simp add: starting_def)
qed

lemma start_loot_roll_starting:
  assumes s: "starting protos src m slot w" and protos: "le_proto env = protos" and slot: "slot < m"
    and w': "start_loot_roll env src how slot w = Inr w'" and sole: "no_sole_roll w w'"
  shows "starting protos src m (Suc slot) w'"
proof -
  from s obtain l where l: "om_get (lw_loots w) src = Some l" "length (lo_items l) = m" "\<forall>it \<in> set (lo_items l). \<not> li_looted it"
    by (rule starting_at)
  have m: "m \<le> 16" using s by (simp add: starting_def)
  let ?it = "lo_items l ! slot" and ?E = "map essence (lw_rolls w)"
  let ?r = "open_roll env src how slot ?it (roll_candidates env src ?it (lw_members w))"
  have fl: "\<not> li_looted ?it" "slot < length (lo_items l)" using l slot by auto
  have "start_loot_roll env src how slot w =
      (if li_currency ?it then Inr w else if 0 < ro_players ?r then queue_roll env src slot l ?r w else Inr w)"
    unfolding start_loot_roll_def loot_at_def l(1) option.case sum_bind_simps Let_def using fl(2) by (simp only: not_le [symmetric] if_False)
  with w' consider (none) "w' = w" | (queued) "queue_roll env src slot l ?r w = Inr w'"
    by (metis sum.inject(2))
  then consider (none) "w' = w" | (sole) r where "lw_rolls w' = lw_rolls w @ [r]" "ro_players r = 1"
    | (more) r where "calculate_common_vote_mask env ?r = Inr r"
        "w' = (put_loot src (set_blocked slot True l) (send_loot_start_roll env r w))
          \<lparr>lw_timers := om_put src LOOT_ROLL_TIMEOUT (lw_timers (send_loot_start_roll env r w)),
           lw_rolls := lw_rolls (send_loot_start_roll env r w) @ [r]\<rparr>"
  proof cases
    case queued
    show ?thesis
    proof (cases "ro_players ?r = 1")
      case True
      with queued sole show ?thesis by (auto simp: queue_roll_def intro!: that(2))
    next
      case False
      with queued show ?thesis by (auto simp: queue_roll_def sum_bind_Inr_iff Let_def intro!: that(3))
    qed
  qed (rule that(1))
  note start = this
  show ?thesis
  proof (cases rule: start)
    case none
    then show ?thesis using starting_Suc [OF s] by simp
  next
    case sole
    then show ?thesis using assms(5) by (simp add: no_sole_roll_def)
  next
    case (more r)
    have r: "essence r = (Some src, slot, li_itemid ?it)" and t: "protos (li_itemid ?it) \<noteq> None"
      using more(1) protos slot m
      by (auto simp: calculate_common_vote_mask_def essence_def open_roll_def roll_new_def Let_def unsigned_of_nat take_bit_nat_eq_self
          split: option.splits)
    have ok: "loot_ok protos (om_get (lw_loots w)) ?E (single_keys (lw_got w))"
      using s by (simp add: starting_def world_ok_def)
    have free: "(Some src, slot) \<notin> set (roll_places ?E)"
      using s unfolding starting_def in_roll_places by blast
    let ?l = "set_blocked slot True l"
    have ok2: "loot_ok protos ((om_get (lw_loots w))(src := Some ?l)) ?E (single_keys (lw_got w) @ [])"
      by (rule loot_ok_settle [OF ok l(1) fl(2) _ flags_set_blocked [OF fl(2)] _ _ subset_refl loot_okD(3) [OF ok] free])
        (use loot_okD(1) [OF ok l(1)] in simp_all)
    have ok3: "loot_ok protos ((om_get (lw_loots w))(src := Some ?l)) (?E @ [(Some src, slot, li_itemid ?it)]) (single_keys (lw_got w))"
    proof (rule loot_ok_add_roll [OF ok2 [unfolded append_Nil2], where l = ?l])
      show "slot < length (lo_items ?l)" using fl(2) by (simp add: set_blocked_items)
      show "flags ?l ! slot = (False, True)" using fl by (simp add: flags_set_blocked)
    qed (use t free in simp_all)
    have same: "same_world w (send_loot_start_roll env r w)" by (rule quiet)
    have lo: "lw_loots (send_loot_start_roll env r w) = lw_loots w" "lw_got (send_loot_start_roll env r w) = lw_got w"
      by (simp_all add: send_loot_start_roll_def)
    have "world_ok protos w'"
      using ok3 by (simp add: world_ok_def more(2) om_get_put_fun lo r)
    moreover have "om_get (lw_loots w') src = Some ?l" by (simp add: more(2))
    moreover have "length (lo_items ?l) = m" using l(2) by (simp add: set_blocked_def)
    moreover have "\<forall>it \<in> set (lo_items ?l). \<not> li_looted it"
      unfolding set_blocked_items by (intro items_update_not_looted [OF l(3)]) (use fl(1) in simp)
    moreover have "i < Suc slot" if "(Some src, i, t') \<in> set (map essence (lw_rolls w'))" for i t'
      using that s by (auto simp: more(2) starting_def r intro: less_SucI)
    ultimately show ?thesis using m by (auto simp: starting_def)
  qed
qed

lemma loot_rolls_loop_starting:
  "starting protos src m n w \<Longrightarrow> le_proto env = protos \<Longrightarrow> n + k = m \<Longrightarrow>
   loot_rolls_loop env src how [n ..< m] w = Inr w' \<Longrightarrow> no_sole_roll w w' \<Longrightarrow> world_ok protos w'"
proof (induction k arbitrary: n w)
  case 0
  then show ?case by (simp add: starting_def)
next
  case (Suc k)
  from Suc.prems(1) obtain l where l: "om_get (lw_loots w) src = Some l" "length (lo_items l) = m" by (rule starting_at)
  have n: "[n ..< m] = n # [Suc n ..< m]" "n < m" using Suc.prems(3) by (simp_all add: upt_conv_Cons)
  have rest: "world_ok protos w'"
    if s: "starting protos src m (Suc n) w1" and r: "loot_rolls_loop env src how [Suc n ..< m] w1 = Inr w'" and a: "adds_rolls w w1" for w1
  proof (rule Suc.IH [OF s Suc.prems(2) _ r])
    show "Suc n + k = m" using Suc.prems(3) by simp
    from s obtain l1 where "om_get (lw_loots w1) src = Some l1" by (rule starting_at)
    from loot_rolls_loop_delivers [OF this] r have "adds_rolls w1 w'" by (metis delivers_simps(1))
    then show "no_sole_roll w1 w'" using no_sole_split [OF a _ Suc.prems(5)] by blast
  qed
  show ?case
  proof (cases "\<not> li_currency (lo_items l ! n) \<and> (\<exists>proto. le_proto env (li_itemid (lo_items l ! n)) = Some proto \<and>
      lw_threshold w \<le> ip_quality proto \<and> \<not> li_ffa (lo_items l ! n))")
    case True
    then obtain proto where p: "\<not> li_currency (lo_items l ! n)" "le_proto env (li_itemid (lo_items l ! n)) = Some proto"
      "lw_threshold w \<le> ip_quality proto" "\<not> li_ffa (lo_items l ! n)" by blast
    have "sum_bind (start_loot_roll env src how n w) (loot_rolls_loop env src how [Suc n ..< m]) = Inr w'"
      using Suc.prems(4) p l(1) by (simp add: n(1) loot_at_def)
    then obtain w1 where w1: "start_loot_roll env src how n w = Inr w1" "loot_rolls_loop env src how [Suc n ..< m] w1 = Inr w'"
      by (auto simp: sum_bind_Inr_iff)
    have a: "adds_rolls w w1"
      using start_loot_roll_delivers [OF l(1), of env n how] w1(1) p(2) by simp
    obtain l1 where "om_get (lw_loots w1) src = Some l1" using a keeps_loot_at [OF _ l(1)] by (auto simp: adds_rolls_def)
    from loot_rolls_loop_delivers [OF this] w1(2) have "adds_rolls w1 w'" by (metis delivers_simps(1))
    then have "no_sole_roll w w1" using no_sole_split [OF a _ Suc.prems(5)] by blast
    from rest [OF start_loot_roll_starting [OF Suc.prems(1,2) n(2) w1(1) this] w1(2) a] show ?thesis .
  next
    case False
    then have "loot_rolls_loop env src how [Suc n ..< m] w = Inr w' \<or>
        loot_rolls_loop env src how [Suc n ..< m] (put_loot src (set_under n l) w) = Inr w'"
      using Suc.prems(4) l(1) by (auto simp: n(1) loot_at_def Let_def split: if_splits option.splits)
    then show ?thesis
    proof
      assume "loot_rolls_loop env src how [Suc n ..< m] w = Inr w'"
      from rest [OF starting_Suc [OF Suc.prems(1)] this adds_refl] show ?thesis .
    next
      assume r: "loot_rolls_loop env src how [Suc n ..< m] (put_loot src (set_under n l) w) = Inr w'"
      have "n < length (lo_items l)" using l(2) n(2) by simp
      from rest [OF starting_Suc [OF starting_under [OF Suc.prems(1) l(1) this]] r put_adds_rolls] l(1) show ?thesis by simp
    qed
  qed
qed

section \<open>Opening a corpse\<close>

lemma master_loot_same:
  assumes l: "om_get (lw_loots w) src = Some l"
  shows "delivers (master_loot env src w) (same_world w)"
proof -
  let ?mark = "\<lambda>it. if li_currency it then it else case le_proto env (li_itemid it) of None \<Rightarrow> it
      | Some proto \<Rightarrow> if ip_quality proto < lw_threshold w then it\<lparr>li_under := True\<rparr> else it"
  have "flags (l\<lparr>lo_items := map ?mark (lo_items l)\<rparr>) = flags l"
    by (auto simp: flags_def split: option.split)
  then have "same_loot l (l\<lparr>lo_items := map ?mark (lo_items l)\<rparr>)" by (simp add: same_loot_def)
  from same_world_put [OF l this] have "same_world w (loot_emit xs (put_loot src (l\<lparr>lo_items := map ?mark (lo_items l)\<rparr>) w))" for xs
    by (rule same_world_trans) (rule quiet)
  then show ?thesis by (simp add: master_loot_def loot_at_delivers [OF l] Let_def)
qed

lemma start_group_method_delivers:
  assumes l: "om_get (lw_loots w) src = Some l"
  shows "delivers (start_group_method env src w) (adds_rolls w)"
  using loot_rolls_loop_delivers [OF l] delivers_mono [OF master_loot_same [OF l]]
  by (auto simp: start_group_method_def group_loot_def need_before_greed_def loot_at_delivers [OF l]
      adds_rolls_def same_world_keeps same_world_def split: loot_method.split)

lemma start_group_method_ok:
  assumes s: "starting protos src m 0 w" and protos: "le_proto env = protos"
    and w': "start_group_method env src w = Inr w'" and sole: "no_sole_roll w w'"
  shows "world_ok protos w'"
proof -
  from s obtain l where l: "om_get (lw_loots w) src = Some l" "length (lo_items l) = m" by (rule starting_at)
  have ok: "world_ok protos w" using s by (simp add: starting_def)
  have loop: "world_ok protos w'" if "loot_rolls_loop env src how [0 ..< m] w = Inr w'" for how
    by (rule loot_rolls_loop_starting [OF s protos _ that sole]) simp
  have "world_ok protos w'" if "master_loot env src w = Inr w'"
    using master_loot_same [OF l(1), of env] that same_world_ok [OF _ ok] by simp
  then show ?thesis
    using w' loop ok l by (auto simp: start_group_method_def group_loot_def need_before_greed_def loot_at_def split: loot_method.splits)
qed

lemma fresh_flags: "fresh f l \<Longrightarrow> lo_fill l = f \<and> quests_ok l \<and> length (lo_items l) \<le> 16 \<and> (\<forall>it \<in> set (lo_items l). \<not> li_looted it)"
  by (simp add: fresh_def)

lemma fill_corpse_quiet:
  assumes ok: "world_ok protos w" and l: "om_get (lw_loots w) src = Some l" and protos: "le_proto env = protos"
  shows "delivers (fill_corpse env rate src generated gold w) (\<lambda>w'. keeps_loots w w' \<and> (no_sole_roll w w' \<longrightarrow> world_ok protos w'))"
proof -
  from clear_loot_quiet [OF ok l] obtain w1 where w1: "clear_loot src w = Inr w1" "quiet_step protos w w1"
    "length (lw_rolls w1) = length (lw_rolls w)" "om_get (lw_loots w1) src = Some (loot_clear l)" "empty_handed src (loot_clear l) w1"
    by (auto simp: delivers_def)
  let ?l = "(fill_loot env rate generated (lw_members w1) (loot_clear l))\<lparr>lo_gold := gold\<rparr>" 
  let ?w = "put_loot src ?l w1"
  have f: "fresh (Suc (lo_fill l)) ?l" by (simp add: fresh_fill fresh_clear)
  have eh: "empty_handed src ?l w1"
    using w1(5) fresh_flags [OF f] by (simp add: empty_handed_def untouched_def loot_clear_def)
  have q: "quiet_step protos w1 ?w"
    by (rule put_untouched [OF _ _ eh]) (use w1 fresh_flags [OF f] in \<open>auto simp: quiet_step_def\<close>)
  have at: "om_get (lw_loots ?w) src = Some ?l" by simp
  have "(Some src, i, t) \<notin> set (map essence (lw_rolls w1))" for i t
    using eh unfolding empty_handed_def untouched_def by (metis fst_conv)
  then have s: "starting protos src (length (lo_items ?l)) 0 ?w"
    using q fresh_flags [OF f] by (simp add: starting_def quiet_step_def del: set_map)
  have fill: "fill_corpse env rate src generated gold w = start_group_method env src ?w"
    by (simp add: fill_corpse_def w1(1) on_loot_def loot_at_def w1(4))
  from start_group_method_delivers [OF at, of env] obtain w' where w': "start_group_method env src ?w = Inr w'" "adds_rolls ?w w'"
    by (auto simp: delivers_def)
  have "keeps_loots w w'"
    using w1(2) q w'(2) keeps_trans unfolding quiet_step_def adds_rolls_def by blast
  moreover have "world_ok protos w'" if "no_sole_roll w w'"
    by (rule start_group_method_ok [OF s protos w'(1)]) (use that w1(3) in \<open>simp add: no_sole_roll_def\<close>)
  ultimately show ?thesis by (simp add: fill w'(1))
qed

section \<open>Requests\<close>

lemma clear_loot_same_rolls: "clear_loot src w = Inr w' \<Longrightarrow> length (lw_rolls w') = length (lw_rolls w)"
  by (auto simp: clear_loot_def sum_bind_Inr_iff)

lemma do_loot_release_quiet:
  assumes ok: "world_ok protos w"
  shows "delivers (do_loot_release env p src w) (\<lambda>w'. quiet_step protos w w' \<and> length (lw_rolls w') = length (lw_rolls w))"
proof -
  let ?w = "loot_emit [Loot_release p src] (w\<lparr>lw_open := om_erase p (lw_open w)\<rparr>)"
  have same: "same_world w ?w" by (rule same_world_trans [where w' = "w\<lparr>lw_open := om_erase p (lw_open w)\<rparr>"]) (rule quiet)+
  note q = same_world_quiet [OF ok same]
  have rolls: "lw_rolls ?w = lw_rolls w" by simp
  show ?thesis
  proof (cases "om_get (lw_loots w) src")
    case None
    then show ?thesis using q by (simp add: do_loot_release_def Let_def)
  next
    case (Some l)
    have remove: "delivers (on_loot src (remove_looter p) w') (\<lambda>w'. quiet_step protos w w' \<and> length (lw_rolls w') = length (lw_rolls w))"
      if w': "quiet_step protos w w'" and len: "length (lw_rolls w') = length (lw_rolls w)" for w'
    proof -
      from w' Some obtain l' where "om_get (lw_loots w') src = Some l'" using keeps_loot_at unfolding quiet_step_def by blast
      from on_loot_same [OF this, of "remove_looter p"] show ?thesis
      proof (rule delivers_mono)
        fix w'' assume "same_world w' w''"
        then show "quiet_step protos w w'' \<and> length (lw_rolls w'') = length (lw_rolls w)"
          using w' len quiet_step_trans [OF w' same_world_quiet] by (auto simp: quiet_step_def same_world_def)
      qed simp
    qed
    have Some': "om_get (lw_loots ?w) src = Some l" using Some by simp
    have "delivers (clear_loot src ?w) (\<lambda>w'. quiet_step protos w w' \<and> length (lw_rolls w') = length (lw_rolls w))"
      by (rule delivers_mono [OF clear_loot_quiet [OF same_world_ok [OF same ok] Some']]) (use quiet_step_trans [OF q] in auto)
    then have "delivers (clear_loot src ?w) (\<lambda>w'. delivers (on_loot src (remove_looter p) w')
        (\<lambda>w'. quiet_step protos w w' \<and> length (lw_rolls w') = length (lw_rolls w)))"
      by (rule delivers_mono) (use remove in blast)
    then show ?thesis
      using q Some remove [OF q] by (simp add: do_loot_release_def Let_def)
  qed
qed

lemma handle_loot_release_quiet:
  assumes "world_ok protos w"
  shows "delivers (handle_loot_release env p w) (\<lambda>w'. quiet_step protos w w' \<and> length (lw_rolls w') = length (lw_rolls w))"
  using do_loot_release_quiet [OF assms] same_world_quiet [OF assms same_world_refl]
  by (simp add: handle_loot_release_def split: option.split)

lemma send_loot_quiet:
  assumes ok: "world_ok protos w" and protos: "le_proto env = protos"
  shows "delivers (send_loot env rate p src new_loot w) (\<lambda>w'. no_sole_roll w w' \<longrightarrow> world_ok protos w')"
proof -
  from handle_loot_release_quiet [OF ok, of env p] obtain w1 where w1: "handle_loot_release env p w = Inr w1"
    "world_ok protos w1" "length (lw_rolls w1) = length (lw_rolls w)" by (auto simp: delivers_def quiet_step_def)
  have sole: "no_sole_roll w w' = no_sole_roll w1 w'" for w' by (simp add: no_sole_roll_def w1(3))
  show ?thesis
  proof (cases "om_get (lw_loots w1) src")
    case None
    then show ?thesis using same_world_ok [OF same_world_emit w1(2)] by (simp add: send_loot_def w1(1))
  next
    case (Some l)
    have after: "delivers (if p \<in> set (lw_members w2) then on_loot src (add_looter p) (w2\<lparr>lw_open := o'\<rparr>) else Inr (w2\<lparr>lw_open := o'\<rparr>))
        (\<lambda>w'. no_sole_roll w w' \<longrightarrow> world_ok protos w')"
      if w2: "keeps_loots w1 w2" "no_sole_roll w1 w2 \<longrightarrow> world_ok protos w2" for w2 o'
    proof -
      have same: "same_world w2 (w2\<lparr>lw_open := o'\<rparr>)" by (rule quiet)
      have fin: "no_sole_roll w w' \<longrightarrow> world_ok protos w'" if "same_world w2 w'" for w'
        using that w2(2) same_world_ok [OF that] by (simp add: no_sole_roll_def same_world_def w1(3))
      from keeps_loot_at [OF w2(1) Some] obtain l' where "om_get (lw_loots (w2\<lparr>lw_open := o'\<rparr>)) src = Some l'" by auto
      from delivers_mono [OF on_loot_same [OF this] fin [OF same_world_trans [OF same]]]
      have "delivers (on_loot src (add_looter p) (w2\<lparr>lw_open := o'\<rparr>)) (\<lambda>w'. no_sole_roll w w' \<longrightarrow> world_ok protos w')"
        by simp
      then show ?thesis using fin [OF same] by simp
    qed
    have "delivers (case new_loot of None \<Rightarrow> Inr w1 | Some (generated, gold) \<Rightarrow> fill_corpse env rate src generated gold w1)
        (\<lambda>w2. keeps_loots w1 w2 \<and> (no_sole_roll w1 w2 \<longrightarrow> world_ok protos w2))"
      using w1(2) fill_corpse_quiet [OF w1(2) Some protos] by (auto split: option.split)
    then have "delivers (case new_loot of None \<Rightarrow> Inr w1 | Some (generated, gold) \<Rightarrow> fill_corpse env rate src generated gold w1)
        (\<lambda>w2. delivers (let w = w2\<lparr>lw_open := om_put p src (lw_open w2)\<rparr> in
             if p \<in> set (lw_members w) then on_loot src (add_looter p) w else Inr w)
           (\<lambda>w'. no_sole_roll w w' \<longrightarrow> world_ok protos w'))"
      by (rule delivers_mono) (use after in \<open>simp add: Let_def\<close>)
    then show ?thesis
      using Some same_world_ok [OF same_world_emit w1(2)] by (simp add: send_loot_def w1(1))
  qed
qed

text \<open>The loot of every step.\<close>

lemma handle_autostore_quiet:
  assumes "world_ok protos w"
  shows "delivers (handle_autostore_loot_item env p entries w) (world_ok protos)"
proof -
  have q: "world_ok protos (loot_emit xs w)" for xs using same_world_ok [OF same_world_emit assms] .
  have "delivers (take_entries env p src slots w) (world_ok protos)" if "om_get (lw_loots w) src = Some l" for src slots l
    by (rule delivers_mono [OF take_entries_quiet [OF assms that]]) (simp add: quiet_step_def)
  then show ?thesis using assms q by (auto simp: handle_autostore_loot_item_def Let_def)
qed

lemma handle_loot_money_quiet:
  assumes ok: "world_ok protos w"
  shows "delivers (handle_loot_money env share p w) (world_ok protos)"
proof -
  have give: "same_world w (fold (\<lambda>q w. loot_emit (f q) (loot_give (Money_gained q n) w)) qs w')" if "same_world w w'" for f n qs w'
    using that
  proof (induction qs arbitrary: w')
    case (Cons q qs)
    have "same_world w (loot_emit (f q) (loot_give (Money_gained q n) w'))"
      by (rule same_world_trans [OF same_world_trans [OF Cons.prems same_world_give] same_world_emit]) simp
    from Cons.IH [OF this] show ?case by simp
  qed simp
  have one: "same_world w (loot_emit xs (loot_give (Money_gained q n) w))" for xs q n
    by (rule same_world_trans [OF same_world_give same_world_emit]) simp
  have put: "world_ok protos (put_loot src (l\<lparr>lo_gold := g, lo_looting := lk\<rparr>) (notify_money_removed env l w'))"
    if "same_world w w'" "om_get (lw_loots w') src = Some l" for src l g lk w'
  proof -
    have "same_world w' (notify_money_removed env l w')" by (simp add: notify_money_removed_def quiet)
    note same = same_world_trans [OF that(1) this]
    have "om_get (lw_loots (notify_money_removed env l w')) src = Some l" using that(2) by (simp add: notify_money_removed_def)
    from same_world_put [OF this] have "same_world (notify_money_removed env l w') (put_loot src (l\<lparr>lo_gold := g, lo_looting := lk\<rparr>) (notify_money_removed env l w'))"
      by simp
    from same_world_ok [OF same_world_trans [OF same this] ok] show ?thesis .
  qed
  have fold_loots: "lw_loots (fold (\<lambda>q w. loot_emit (f q) (loot_give (Money_gained q n) w)) qs w') = lw_loots w'" for f n qs and w' :: roll_world
    by (induction qs arbitrary: w') simp_all
  show ?thesis
    using ok put [OF one] put [OF give [OF same_world_refl]]
    by (auto simp: handle_loot_money_def Let_def fold_loots split: option.split)
qed

lemma remove_corpse_quiet:
  assumes ok: "world_ok protos w" and protos: "le_proto env = protos" and src: "om_get (lw_loots w) src = Some l"
  shows "delivers (remove_corpse env src w) (world_ok protos)"
proof -
  from stop_group_loot_quiet [OF ok protos] obtain w1 where w1: "stop_group_loot env src w = Inr w1" "quiet_step protos w w1"
    by (auto simp: delivers_def)
  from w1(2) src obtain l' where l': "world_ok protos w1" "om_get (lw_loots w1) src = Some l'"
    using keeps_loot_at unfolding quiet_step_def by blast
  have "delivers (clear_loot src w1) (world_ok protos)"
    by (rule delivers_mono [OF clear_loot_quiet [OF l']]) (simp add: quiet_step_def)
  then show ?thesis by (simp add: remove_corpse_def w1(1))
qed

lemma loot_step_ok:
  assumes ok: "world_ok protos w" and protos: "le_proto env = protos"
  shows "delivers (loot_step env a w) (\<lambda>w'. no_sole_roll w w' \<longrightarrow> world_ok protos w')"
proof -
  have always: "delivers m (\<lambda>w'. no_sole_roll w w' \<longrightarrow> world_ok protos w')" if "delivers m (world_ok protos)" for m
    using that by (rule delivers_mono) simp
  have quiet': "delivers m (world_ok protos)" if "delivers m (quiet_step protos w)" for m
    using that by (rule delivers_mono) (simp add: quiet_step_def)
  show ?thesis
  proof (cases a)
    case (Open_loot rate p src new_loot)
    then show ?thesis using send_loot_quiet [OF ok protos] by simp
  next
    case (Take_loot p entries)
    then show ?thesis using always handle_autostore_quiet [OF ok] by simp
  next
    case (Release_loot p)
    have "delivers (handle_loot_release env p w) (world_ok protos)"
      by (rule delivers_mono [OF handle_loot_release_quiet [OF ok]]) (simp add: quiet_step_def)
    then show ?thesis using Release_loot always by simp
  next
    case (Loot_money share p)
    then show ?thesis using always handle_loot_money_quiet [OF ok] by simp
  next
    case (Roll_vote p target slot t)
    then show ?thesis using always quiet' handle_loot_roll_quiet [OF ok protos] by simp
  next
    case (Leave_group p)
    then show ?thesis using always quiet' leave_group_quiet [OF ok] by simp
  next
    case (Join_group p)
    then show ?thesis using same_world_ok [OF same_world_updates(3) ok] by (simp add: link_member_def)
  next
    case (Corpse_update src diff)
    then show ?thesis using always quiet' update_group_loot_quiet [OF ok protos] by simp
  next
    case (Corpse_removed src)
    then show ?thesis using always remove_corpse_quiet [OF ok protos] ok by (cases "om_get (lw_loots w) src") simp_all
  next
    case (Set_loot_rules m threshold)
    have "same_world w (w\<lparr>lw_method := m, lw_threshold := threshold\<rparr>)" by (simp add: same_world_def)
    then show ?thesis using Set_loot_rules same_world_ok [OF _ ok] by simp
  qed
qed

end
