(* ===== verification/LootRules.thy ===== *)
theory LootRules
  imports LootSafety
begin

text \<open>
  How rolls end: nobody gets a single item twice, the highest need wins, a departure decides nothing
  and a timeout ends every roll.
\<close>

section \<open>Runs\<close>

definition loot_start :: "roll_world \<Rightarrow> bool" where
  "loot_start w \<longleftrightarrow> lw_rolls w = [] \<and> lw_got w = [] \<and> (\<forall>src l. om_get (lw_loots w) src = Some l \<longrightarrow> l = loot_new)"

text \<open>
  The servers answers may differ from step to step; the item prototypes stay. No step starts a roll
  with one player only: what such a roll leads to is shown apart.
\<close>

inductive loot_reach :: "(u32 \<Rightarrow> item_prototype option) \<Rightarrow> roll_world \<Rightarrow> bool" for protos where
  loot_reach_start: "loot_start w \<Longrightarrow> loot_reach protos w"
| loot_reach_step: "loot_reach protos w \<Longrightarrow> le_proto env = protos \<Longrightarrow> loot_step env a w = Inr w' \<Longrightarrow> no_sole_roll w w' \<Longrightarrow>
    loot_reach protos w'"

lemma loot_start_ok:
  assumes "loot_start w"
  shows "world_ok protos w"
proof -
  have "quests_ok loot_new" by (simp add: quests_ok_def loot_new_def)
  with assms show ?thesis by (auto simp: loot_start_def world_ok_def loot_ok_def rolls_ok_def)
qed

lemma loot_reach_ok: "loot_reach protos w \<Longrightarrow> world_ok protos w"
proof (induction rule: loot_reach.induct)
  case (loot_reach_step w env a w')
  from loot_step_ok [OF loot_reach_step.IH loot_reach_step.hyps(2), of a] loot_reach_step.hyps(3,4) show ?case by simp
qed (rule loot_start_ok)

section \<open>A concrete corpse\<close>

text \<open>
  Two players in a group, one corpse. The first player opens it and finds one item of rare quality,
  so a roll starts; then the first player votes need and the second one greed.
\<close>

definition demo_proto :: item_prototype where
  "demo_proto = \<lparr>ip_party_loot = False, ip_horde_only = False, ip_alliance_only = False, ip_need_disabled = False,
     ip_quality = 3, ip_start_quest = 0, ip_disenchant = 0, ip_disenchant_skill = 0\<rparr>"

definition demo_env :: loot_env where
  "demo_env = \<lparr>le_proto = (\<lambda>i. if i = 7 then Some demo_proto else None), le_condition = (\<lambda>_ _. True), le_team = (\<lambda>_. HORDE),
     le_quest_item = (\<lambda>_ _. False), le_quest_none = (\<lambda>_ _. True), le_game_master = (\<lambda>_. False), le_archaeology = (\<lambda>_. False),
     le_meta_currency = (\<lambda>_. False), le_archaeology_currency = (\<lambda>_. False), le_currency_precision = (\<lambda>_. Some 100),
     le_can_store = (\<lambda>_ _ _ _. EQUIP_ERR_OK), le_reach = (\<lambda>_ _. True), le_online = (\<lambda>_. True), le_opt_out = (\<lambda>_. False),
     le_near = (\<lambda>_ _. True), le_reward_distance = (\<lambda>_ _. True), le_can_use = (\<lambda>_ _. True), le_enchanting = 0,
     le_urand = (\<lambda>k. if k = 0 then 1 else 50), le_vote_order = (\<lambda>ps. ps)\<rparr>"

definition demo_item :: loot_item where
  "demo_item = \<lparr>li_itemid = 7, li_type = 0, li_suffix = 0, li_property = 0, li_count = 1, li_condition = 0, li_currency = False,
     li_looted = False, li_blocked = False, li_ffa = False, li_under = False, li_counted = False, li_needs_quest = False\<rparr>"

definition demo_loot :: "loot_item \<Rightarrow> loot" where
  "demo_loot it = loot_new\<lparr>lo_items := [it], lo_unlooted := 1, lo_looting := [(1, ())], lo_fill := 1\<rparr>"

definition demo_world :: "(guid, loot) omap \<Rightarrow> guid list \<Rightarrow> roll list \<Rightarrow> roll_world" where
  "demo_world ls ps rs = \<lparr>lw_loots = ls, lw_open = [], lw_got = [], lw_out = [], lw_rolls = rs, lw_members = ps,
     lw_method = GROUP_LOOT, lw_threshold = 2, lw_timers = [], lw_draws = 0\<rparr>"

definition demo_start :: roll_world where
  "demo_start = demo_world [(9, loot_new)] [1, 2] []"

definition demo_open :: loot_act where
  "demo_open = Open_loot (\<lambda>n. n) 1 9 (Some ([(\<lparr>lsi_itemid = 7, lsi_type = LOOT_ITEM_TYPE_ITEM, lsi_mincount = 1,
     lsi_maxcount = 1, lsi_needs_quest = False, lsi_condition = 0\<rparr>, \<lparr>dr_count = 1, dr_suffix = 0, dr_property = 0\<rparr>)], 0))"

definition demo_roll :: roll where
  "demo_roll = \<lparr>ro_target = 9, ro_itemid = 7, ro_property = 0, ro_suffix = 0, ro_count = 1,
     ro_votes = [(1, ROLL_NOT_EMITED_YET), (2, ROLL_NOT_EMITED_YET)], ro_players = 2, ro_need = 0, ro_greed = 0, ro_pass = 0,
     ro_slot = 0, ro_method = GROUP_LOOT, ro_mask = 7, ro_loot = Some 9\<rparr>"

definition demo_needed :: roll where
  "demo_needed = demo_roll\<lparr>ro_votes := [(1, ROLL_NEED), (2, ROLL_NOT_EMITED_YET)], ro_need := 1\<rparr>"

definition demo_rolling :: roll_world where
  "demo_rolling = (demo_world [(9, demo_loot (demo_item\<lparr>li_blocked := True\<rparr>))] [1, 2] [demo_roll])
     \<lparr>lw_open := [(1, 9)], lw_out := [Start_roll 1 9 0 7, Start_roll 2 9 0 7], lw_timers := [(9, 60000)]\<rparr>"

definition demo_voted :: roll_world where
  "demo_voted = demo_rolling\<lparr>lw_rolls := [demo_needed], lw_out := lw_out demo_rolling @ [Roll_update 1 1 0 0 1, Roll_update 2 1 0 0 1]\<rparr>"

definition demo_won :: roll_world where
  "demo_won = demo_voted\<lparr>lw_loots := [(9, (demo_loot (demo_item\<lparr>li_blocked := True, li_looted := True\<rparr>))\<lparr>lo_unlooted := 0\<rparr>)],
     lw_got := [Stored 1 \<lparr>ls_loot = 9, ls_fill = 1, ls_place = Plain_at 0, ls_item = demo_item\<lparr>li_blocked := True\<rparr>\<rparr>],
     lw_out := lw_out demo_voted @ [Roll_update 1 2 (- 1) 0 2, Roll_update 2 2 (- 1) 0 2, Roll_update 1 1 1 0 1, Roll_update 2 1 1 0 1,
       Roll_won 1 1 1 0 1, Roll_won 2 1 1 0 1, Loot_removed 1 0], lw_rolls := [], lw_draws := 1\<rparr>"

lemma demo_steps:
  "loot_step demo_env demo_open demo_start = Inr demo_rolling"
  "loot_step demo_env (Roll_vote 1 9 0 1) demo_rolling = Inr demo_voted"
  "loot_step demo_env (Roll_vote 2 9 0 2) demo_voted = Inr demo_won"
  by code_simp+

lemma demo_reach:
  "loot_reach (le_proto demo_env) demo_rolling" "loot_reach (le_proto demo_env) demo_voted" "loot_reach (le_proto demo_env) demo_won"
proof -
  have "loot_start demo_start" by (auto simp: loot_start_def demo_start_def demo_world_def om_get_def split: if_splits)
  then have s: "loot_reach (le_proto demo_env) demo_start" by (rule loot_reach_start)
  show r: "loot_reach (le_proto demo_env) demo_rolling"
    by (rule loot_reach_step [OF s refl demo_steps(1)])
      (simp add: no_sole_roll_def demo_start_def demo_rolling_def demo_world_def demo_roll_def)
  show v: "loot_reach (le_proto demo_env) demo_voted"
    by (rule loot_reach_step [OF r refl demo_steps(2)])
      (simp add: no_sole_roll_def demo_rolling_def demo_world_def demo_voted_def)
  show "loot_reach (le_proto demo_env) demo_won"
    by (rule loot_reach_step [OF v refl demo_steps(3)])
      (simp add: no_sole_roll_def demo_won_def)
qed

lemmas demo_defs = demo_rolling_def demo_voted_def demo_won_def demo_world_def demo_loot_def demo_roll_def demo_needed_def demo_item_def loot_new_def

text \<open>
  C7: Over every sequence of openings, takings, votes, departures and timeouts no step faults, and no
  single item of a filling of a container is awarded twice, as long as no roll starts with one player.
\<close>

theorem single_items_go_once:
  assumes "loot_reach protos w"
  shows "distinct (single_keys (lw_got w)) \<and> (\<forall>env a. le_proto env = protos \<longrightarrow> (\<exists>w'. loot_step env a w = Inr w'))"
proof -
  note ok = loot_reach_ok [OF assms]
  have "\<exists>w'. loot_step env a w = Inr w'" if "le_proto env = protos" for env a
    using loot_step_ok [OF ok that, of a] by (auto simp: delivers_def)
  then show ?thesis using loot_okD(4) [OF ok [unfolded world_ok_def]] by blast
qed

theorem single_items_go_once_witness:
  "distinct (single_keys (lw_got demo_won)) \<and> single_keys (lw_got demo_won) = [(9, 1, Plain_at 0)]"
  using single_items_go_once [OF demo_reach(3)]
  by (simp add: demo_defs single_keys_def source_key_def single_item_def)

section \<open>Departures and timeouts\<close>

text \<open>A roll without one player: the vote goes, and each total counts it no longer.\<close>

definition without :: "guid \<Rightarrow> roll \<Rightarrow> roll" where
  "without p r = (case map_of (ro_votes r) p of None \<Rightarrow> r
     | Some v \<Rightarrow> r\<lparr>ro_votes := filter (\<lambda>(q, u). q \<noteq> p) (ro_votes r),
         ro_players := ro_players r - of_bool (v \<noteq> ROLL_NOT_VALID), ro_need := ro_need r - of_bool (v = ROLL_NEED),
         ro_greed := ro_greed r - of_bool (v \<in> {ROLL_GREED, ROLL_DISENCHANT}), ro_pass := ro_pass r - of_bool (v = ROLL_PASS)\<rparr>)"

lemma without_drop_vote: "map_of (ro_votes r) p = Some v \<Longrightarrow> without p r = drop_vote p v r"
  by (cases v) (simp_all add: without_def drop_vote_def case_prod_unfold)

lemma without_absent: "map_of (ro_votes (without p r)) p = None"
proof (cases "map_of (ro_votes r) p")
  case (Some v)
  then show ?thesis by (simp add: without_drop_vote map_of_filter_fst)
qed (simp add: without_def)

lemma without_idem [simp]: "without p (without p r) = without p r"
  using without_absent [of p r] by (simp add: without_def [of p "without p r"])

lemma remove_rolls_from_eq:
  "remove_rolls_from env p i w = Inr (w\<lparr>lw_rolls := take i (lw_rolls w) @ map (without p) (drop i (lw_rolls w))\<rparr>)"
proof (induction env p i w rule: remove_rolls_from.induct)
  case (1 env p i w)
  show ?case
  proof (cases "length (lw_rolls w) \<le> i")
    case True
    then show ?thesis by (simp add: remove_rolls_from.simps [of env p i w])
  next
    case False
    then have i: "i < length (lw_rolls w)" by simp
    note step = remove_rolls_from.simps [of env p i w]
    have d: "drop i (lw_rolls w) = (lw_rolls w ! i) # drop (Suc i) (lw_rolls w)" using i by (rule Cons_nth_drop_Suc [symmetric])
    have t: "take (Suc i) (lw_rolls w) = take i (lw_rolls w) @ [lw_rolls w ! i]" using i by (rule take_Suc_conv_app_nth)
    show ?thesis
    proof (cases "map_of (ro_votes (lw_rolls w ! i)) p")
      case None
      then have "without p (lw_rolls w ! i) = lw_rolls w ! i" by (simp add: without_def)
      then show ?thesis using 1(1) [OF False None] False None by (simp add: step d t)
    next
      case (Some v)
      let ?r = "drop_vote p v (lw_rolls w ! i)"
      have r: "without p (lw_rolls w ! i) = ?r" using Some by (rule without_drop_vote)
      then have r': "without p ?r = ?r" by (metis without_idem)
      have "remove_rolls_from env p i w = remove_rolls_from env p i (put_roll i ?r w)"
        using False Some by (simp add: step count_roll_vote_dropped [OF i])
      also have "\<dots> = Inr ((put_roll i ?r w)\<lparr>lw_rolls := take i (lw_rolls (put_roll i ?r w)) @ map (without p) (drop i (lw_rolls (put_roll i ?r w)))\<rparr>)"
        by (rule 1(2) [OF False Some count_roll_vote_dropped [OF i] refl refl])
      also have "drop i (lw_rolls (put_roll i ?r w)) = ?r # drop (Suc i) (lw_rolls w)"
        using i by (simp add: drop_update_swap Cons_nth_drop_Suc [symmetric])
      finally show ?thesis by (simp add: d r r') (simp add: put_roll_def)
    qed
  qed
qed

text \<open>
  C13: When a player leaves the group, \<open>_removeRolls\<close> ends and takes the player's vote out of every
  roll; it decides no roll, not even one that waited for this player alone, and awards nothing.
\<close>

theorem leaving_decides_nothing:
  "leave_group env p w = Inr (w\<lparr>lw_members := filter (\<lambda>q. q \<noteq> p) (lw_members w), lw_rolls := map (without p) (lw_rolls w)\<rparr>)"
  by (simp add: leave_group_def remove_rolls_def remove_rolls_from_eq)

text \<open>
  C12: When the roll timer of a corpse runs out, every roll of the group ends without a fault, also the
  rolls for other corpses.
\<close>

theorem timeout_ends_every_roll:
  assumes "loot_reach protos w" and "le_proto env = protos" and "om_get (lw_timers w) src = Some t" and "t \<le> diff"
  shows "\<exists>w'. loot_step env (Corpse_update src diff) w = Inr w' \<and> lw_rolls w' = [] \<and> om_get (lw_timers w') src = None"
proof -
  from end_roll_quiet [OF loot_reach_ok [OF assms(1)] assms(2)] obtain w1 where "end_roll env w = Inr w1" "lw_rolls w1 = []"
    by (auto simp: delivers_def)
  then show ?thesis using assms(3,4) by (simp add: update_group_loot_def stop_group_loot_def)
qed

theorem timeout_ends_every_roll_witness:
  "\<exists>w'. loot_step demo_env (Corpse_update 9 60000) demo_rolling = Inr w' \<and> lw_rolls w' = [] \<and> om_get (lw_timers w') 9 = None"
  by (rule timeout_ends_every_roll [OF demo_reach(1) refl, of _ 60000]) (simp_all add: demo_defs om_get_def)

section \<open>Counting votes\<close>

definition votes_for :: "roll_vote set \<Rightarrow> roll \<Rightarrow> nat" where
  "votes_for V r = length (filter (\<lambda>e. snd e \<in> V) (ro_votes r))"

text \<open>Every total is the number of votes that it stands for.\<close>

definition exact :: "roll \<Rightarrow> bool" where
  "exact r \<longleftrightarrow> distinct (map fst (ro_votes r)) \<and> length (ro_votes r) < 256 \<and>
     unat (ro_players r) = length (ro_votes r) \<and> unat (ro_need r) = votes_for {ROLL_NEED} r \<and>
     unat (ro_greed r) = votes_for {ROLL_GREED, ROLL_DISENCHANT} r \<and> unat (ro_pass r) = votes_for {ROLL_PASS} r \<and>
     votes_for {ROLL_NOT_VALID} r = 0"

definition undecided :: "roll \<Rightarrow> guid list" where
  "undecided r = map fst (filter (\<lambda>e. snd e = ROLL_NOT_EMITED_YET) (ro_votes r))"

lemma votes_split:
  "length (ro_votes r) = votes_for {ROLL_NEED} r + votes_for {ROLL_GREED, ROLL_DISENCHANT} r + votes_for {ROLL_PASS} r +
     votes_for {ROLL_NOT_VALID} r + length (undecided r)"
proof -
  have "length xs = length (filter (\<lambda>e. snd e = ROLL_NEED) xs) + length (filter (\<lambda>e. snd e = ROLL_GREED \<or> snd e = ROLL_DISENCHANT) xs) +
     length (filter (\<lambda>e. snd e = ROLL_PASS) xs) + length (filter (\<lambda>e. snd e = ROLL_NOT_VALID) xs) +
     length (filter (\<lambda>e. snd e = ROLL_NOT_EMITED_YET) xs)" for xs :: "(guid \<times> roll_vote) list"
  proof (induction xs)
    case (Cons e xs)
    then show ?case by (cases "snd e") simp_all
  qed simp
  from this [of "ro_votes r"] show ?thesis
    by (simp only: votes_for_def undecided_def length_map insert_iff empty_iff simp_thms)
qed

lemma exact_all_voted:
  assumes "exact r"
  shows "all_voted r \<longleftrightarrow> undecided r = []"
proof -
  have "unat (ro_players r) = unat (ro_pass r) + unat (ro_need r) + unat (ro_greed r) + length (undecided r)"
    using votes_split [of r] assms unfolding exact_def by linarith
  then have "unat (ro_players r) \<le> unat (ro_pass r) + unat (ro_need r) + unat (ro_greed r) \<longleftrightarrow> length (undecided r) = 0"
    by linarith
  then show ?thesis by (simp only: all_voted_def length_0_conv)
qed

lemma votes_for_cast:
  assumes "distinct (map fst (ro_votes r))" and "(p, u) \<in> set (ro_votes r)"
  shows "votes_for V (cast_vote p v r) + (if u \<in> V then 1 else 0) = votes_for V r + (if v \<in> V then 1 else 0)"
proof -
  have "length (filter (\<lambda>e. snd e \<in> V) (map (\<lambda>e. if fst e = p then (p, v) else e) xs)) + (if u \<in> V then 1 else 0) =
      length (filter (\<lambda>e. snd e \<in> V) xs) + (if v \<in> V then 1 else 0)"
    if "distinct (map fst xs)" "(p, u) \<in> set xs" for xs :: "(guid \<times> roll_vote) list"
    using that
  proof (induction xs)
    case (Cons e xs)
    show ?case
    proof (cases "fst e = p")
      case True
      then have p: "p \<notin> set (map fst xs)" using Cons.prems(1) by auto
      then have "(p, u) \<notin> set xs" by force
      then have e: "e = (p, u)" using Cons.prems(2) by simp
      from p have "map (\<lambda>e. if fst e = p then (p, v) else e) xs = xs" by (intro map_idI) auto
      then show ?thesis by (simp add: e)
    next
      case False
      with Cons show ?thesis by auto
    qed
  qed simp
  then show ?thesis using assms by (simp add: votes_for_def cast_vote_def)
qed

lemma cast_vote_simps [simp]:
  "map fst (ro_votes (cast_vote p v r)) = map fst (ro_votes r)" "length (ro_votes (cast_vote p v r)) = length (ro_votes r)"
  "ro_players (cast_vote p v r) = ro_players r" "ro_need (cast_vote p v r) = ro_need r"
  "ro_greed (cast_vote p v r) = ro_greed r" "ro_pass (cast_vote p v r) = ro_pass r" "ro_loot (cast_vote p v r) = ro_loot r"
  "ro_slot (cast_vote p v r) = ro_slot r" "ro_target (cast_vote p v r) = ro_target r"
  by (auto simp: cast_vote_def)

lemma votes_for_counts [simp]:
  "votes_for V (r\<lparr>ro_need := a\<rparr>) = votes_for V r" "votes_for V (r\<lparr>ro_greed := a\<rparr>) = votes_for V r"
  "votes_for V (r\<lparr>ro_pass := a\<rparr>) = votes_for V r"
  by (simp_all add: votes_for_def)

lemma cast_vote_counts [simp]:
  "cast_vote p v (r\<lparr>ro_need := a\<rparr>) = (cast_vote p v r)\<lparr>ro_need := a\<rparr>"
  "cast_vote p v (r\<lparr>ro_greed := a\<rparr>) = (cast_vote p v r)\<lparr>ro_greed := a\<rparr>"
  "cast_vote p v (r\<lparr>ro_pass := a\<rparr>) = (cast_vote p v r)\<lparr>ro_pass := a\<rparr>"
  by (simp_all add: cast_vote_def)

lemma unat_u8_Suc: "unat (x :: u8) < 255 \<Longrightarrow> unat (x + 1) = unat x + 1"
  by (simp add: unat_word_ariths)

lemma unat_u8_below:
  assumes "unat (x :: u8) < unat (y :: u8)"
  shows "unat (x + 1) = unat x + 1"
proof -
  have "unat y < 2 ^ LENGTH(8)" by (rule unsigned_less)
  then show ?thesis using assms by (intro unat_u8_Suc) simp
qed

lemma undecided_cast:
  assumes "v \<noteq> ROLL_NOT_EMITED_YET"
  shows "undecided (cast_vote p v r) = filter (\<lambda>q. q \<noteq> p) (undecided r)"
proof -
  have "map fst (filter (\<lambda>e. snd e = ROLL_NOT_EMITED_YET) (map (\<lambda>e. if fst e = p then (p, v) else e) xs)) =
      filter (\<lambda>q. q \<noteq> p) (map fst (filter (\<lambda>e. snd e = ROLL_NOT_EMITED_YET) xs))" for xs :: "(guid \<times> roll_vote) list"
    using assms by (induction xs) simp_all
  then show ?thesis by (simp add: undecided_def cast_vote_def)
qed

definition client_votes :: "roll_vote set" where
  "client_votes = {ROLL_PASS, ROLL_NEED, ROLL_GREED, ROLL_DISENCHANT}"

lemma exact_count_vote:
  assumes e: "exact r" and p: "p \<in> set (undecided r)" and v: "v \<in> client_votes"
  shows "exact (fst (count_vote env p v r w))" and "undecided (fst (count_vote env p v r w)) = filter (\<lambda>q. q \<noteq> p) (undecided r)"
proof -
  from p have pu: "(p, ROLL_NOT_EMITED_YET) \<in> set (ro_votes r)" by (auto simp: undecided_def)
  have d: "distinct (map fst (ro_votes r))" using e by (simp add: exact_def)
  have "0 < length (undecided r)" using p by (cases "undecided r") auto
  then have small: "unat (ro_need r) < 255" "unat (ro_greed r) < 255" "unat (ro_pass r) < 255"
    using votes_split [of r] e unfolding exact_def by linarith+
  note Suc = small [THEN unat_u8_Suc]
  note cast = votes_for_cast [OF d pu, of _ v, simplified]
  show "exact (fst (count_vote env p v r w))"
    using e v cast [of "{ROLL_NEED}"] cast [of "{ROLL_GREED, ROLL_DISENCHANT}"] cast [of "{ROLL_PASS}"] cast [of "{ROLL_NOT_VALID}"]
    by (auto simp: exact_def client_votes_def count_vote_def Suc)
  show "undecided (fst (count_vote env p v r w)) = filter (\<lambda>q. q \<noteq> p) (undecided r)"
    using v undecided_cast [of v p] by (auto simp: client_votes_def count_vote_def) (simp_all add: undecided_def)
qed

lemma undecided_listed:
  assumes "p \<in> set (undecided r)"
  shows "map_of (ro_votes r) p \<noteq> None"
proof -
  from assms have "(p, ROLL_NOT_EMITED_YET) \<in> set (ro_votes r)" by (auto simp: undecided_def)
  then have "p \<in> fst ` set (ro_votes r)" by (rule image_eqI [rotated]) simp
  then show ?thesis by (simp add: map_of_eq_None_iff)
qed

text \<open>The first vote of a player keeps the totals exact, and decides the roll if it is the last one.\<close>

lemma first_vote_counts:
  assumes "i < length (lw_rolls w)" and "exact (lw_rolls w ! i)" and "p \<in> set (undecided (lw_rolls w ! i))"
    and "v \<in> client_votes" and "\<not> roll_loot_is_empty (lw_rolls w ! i) w"
  shows "\<exists>r'. exact r' \<and> undecided r' = filter (\<lambda>q. q \<noteq> p) (undecided (lw_rolls w ! i)) \<and> map_of (ro_votes r') p = Some v \<and>
    count_roll_vote env p i v w =
      (let w' = put_roll i r' (snd (count_vote env p v (lw_rolls w ! i) w)) in
       if \<forall>q \<in> set (undecided (lw_rolls w ! i)). q = p
       then sum_bind (count_the_roll env i w') (\<lambda>w. Inr (True, w)) else Inr (False, w'))"
proof (intro exI conjI)
  let ?r = "lw_rolls w ! i"
  let ?r' = "fst (count_vote env p v ?r w)"
  note e = exact_count_vote [OF assms(2,3,4), of env w]
  show "exact ?r'" and u: "undecided ?r' = filter (\<lambda>q. q \<noteq> p) (undecided ?r)" by (rule e)+
  have "map_of (map (\<lambda>e. if fst e = p then (p, v) else e) xs) p = Some v" if "map_of xs p \<noteq> None" for xs :: "(guid \<times> roll_vote) list"
    using that by (induction xs) auto
  from this [OF undecided_listed [OF assms(3)]] show "map_of (ro_votes ?r') p = Some v"
    using assms(4) by (auto simp: client_votes_def count_vote_def) (simp_all add: cast_vote_def)
  have "all_voted ?r' \<longleftrightarrow> (\<forall>q \<in> set (undecided ?r). q = p)"
    unfolding exact_all_voted [OF e(1)] u by (auto simp: filter_empty_conv)
  then show "count_roll_vote env p i v w =
      (let w' = put_roll i ?r' (snd (count_vote env p v ?r w)) in
       if \<forall>q \<in> set (undecided ?r). q = p
       then sum_bind (count_the_roll env i w') (\<lambda>w. Inr (True, w)) else Inr (False, w'))"
    using assms(1,5) undecided_listed [OF assms(3)]
    by (cases "count_vote env p v ?r w") (auto simp: count_roll_vote_def roll_at_def Let_def)
qed

section \<open>The highest need\<close>

fun best_throw :: "(nat \<Rightarrow> u32) \<Rightarrow> guid \<times> u32 \<Rightarrow> guid list \<Rightarrow> nat \<Rightarrow> guid \<times> u32" where
  "best_throw dice best [] d = best"
| "best_throw dice best (p # ps) d = best_throw dice (if snd best < dice d then (p, dice d) else best) ps (Suc d)"

lemma send_draws [simp]: "lw_draws (send_loot_roll env p n v r w) = lw_draws w"
  by (simp add: send_loot_roll_def loot_emit_def)

lemma need_dice_best:
  "fst (need_dice env r vs best w) = best_throw (le_urand env) best (map fst (filter (\<lambda>e. snd e = ROLL_NEED) vs)) (lw_draws w)"
  by (induction env r vs best w rule: need_dice.induct) (simp_all add: Let_def)

lemma best_throw_wins:
  "best_throw dice best ps d = (p, n) \<Longrightarrow>
     snd best \<le> n \<and> (\<forall>k < length ps. dice (d + k) \<le> n) \<and>
     ((p, n) = best \<or> snd best < n \<and> (\<exists>j < length ps. p = ps ! j \<and> n = dice (d + j) \<and> (\<forall>k < j. dice (d + k) < n)))"
proof (induction ps arbitrary: best d)
  case (Cons q ps)
  let ?best = "if snd best < dice d then (q, dice d) else best"
  from Cons.IH [of ?best "Suc d"] Cons.prems have ih: "snd ?best \<le> n" "\<forall>k < length ps. dice (Suc d + k) \<le> n"
    "(p, n) = ?best \<or> snd ?best < n \<and> (\<exists>j < length ps. p = ps ! j \<and> n = dice (Suc d + j) \<and> (\<forall>k < j. dice (Suc d + k) < n))" by auto
  have all: "\<forall>k < length (q # ps). dice (d + k) \<le> n"
  proof (intro allI impI)
    fix k assume "k < length (q # ps)"
    then show "dice (d + k) \<le> n" using ih(1,2) by (cases k) (auto split: if_splits)
  qed
  have below: "snd best \<le> n" using ih(1) by (auto split: if_splits)
  from ih(3) consider (kept) "(p, n) = ?best"
    | (later) j where "snd ?best < n" "j < length ps" "p = ps ! j" "n = dice (Suc d + j)" "\<forall>k < j. dice (Suc d + k) < n" by blast
  then have "(p, n) = best \<or> snd best < n \<and> (\<exists>j < length (q # ps). p = (q # ps) ! j \<and> n = dice (d + j) \<and> (\<forall>k < j. dice (d + k) < n))"
  proof cases
    case kept
    then show ?thesis by (auto split: if_splits intro: exI [where x = 0])
  next
    case later
    have "dice d < n" "snd best < n" using later(1) by (auto split: if_splits)
    then have "dice (d + k) < n" if "k < Suc j" for k using that later(5) by (cases k) auto
    then show ?thesis using later \<open>snd best < n\<close> by (intro disjI2 conjI exI [where x = "Suc j"]) auto
  qed
  with all below show ?case by blast
qed simp

lemma notify_looters_keeps:
  "notify_looters env f src ps v = Inr v' \<Longrightarrow> lw_got v' = lw_got v \<and> lw_members v' = lw_members v" for v v' :: roll_world
  by (induction env f src ps v rule: notify_looters.induct)
    (auto simp: sum_bind_Inr_iff send_loot_item_removed_def loot_emit_def split: if_splits option.splits)

lemma take_rolled_item_got: "take_rolled_item env r w = Inr w' \<Longrightarrow> lw_got w' = lw_got w"
  by (auto simp: take_rolled_item_def notify_item_removed_def on_loot_def sum_bind_Inr_iff dest!: notify_looters_keeps)

lemma need_dice_got: "lw_got (snd (need_dice env r vs b w)) = lw_got w"
  by (induction env r vs b w rule: need_dice.induct) (simp_all add: Let_def send_loot_roll_def)

lemma need_dice_loots: "lw_loots (snd (need_dice env r vs b w)) = lw_loots w"
  by (induction env r vs b w rule: need_dice.induct) (simp_all add: Let_def send_loot_roll_def)

lemma roll_item_loots: "lw_loots w' = lw_loots w \<Longrightarrow> roll_item r w' = roll_item r w"
  by (simp add: roll_item_def loot_at_def cong: option.case_cong)

definition needers :: "roll \<Rightarrow> guid list" where
  "needers r = map fst (filter (\<lambda>e. snd e = ROLL_NEED) (ro_votes r))"

text \<open>What the winner of a roll gets: the item if it can be stored, nothing when offline.\<close>

definition rolled_award :: "loot_env \<Rightarrow> guid \<Rightarrow> guid \<Rightarrow> loot \<Rightarrow> roll \<Rightarrow> loot_award list \<Rightarrow> loot_award list" where
  "rolled_award env p src l r got =
     (let i = unat (ro_slot r); it = lo_items l ! i in
      if le_online env p \<and> le_can_store env got p (ro_itemid r) (li_count it) = EQUIP_ERR_OK
      then [Stored p (source_of src l (Plain_at i) it)] else [])"

lemma store_rolled_item_got:
  assumes "store_rolled_item env p r w = Inr w'" and "roll_item r w = Inr (src, l, lo_items l ! unat (ro_slot r))" and "le_online env p"
  shows "lw_got w' = lw_got w @ rolled_award env p src l r (lw_got w)"
  using assms by (auto simp: store_rolled_item_def rolled_award_def Let_def sum_bind_Inr_iff unblock_item_def split: if_splits
      dest!: take_rolled_item_got)

lemma need_branch_got:
  assumes w': "need_branch env r w = Inr w'" and item: "roll_item r w = Inr (src, l, lo_items l ! unat (ro_slot r))"
    and needers: "needers r \<noteq> []" and dice: "\<And>k. 0 < le_urand env k"
  shows "\<exists>j < length (needers r).
    (\<forall>k < length (needers r). le_urand env (lw_draws w + k) \<le> le_urand env (lw_draws w + j)) \<and>
    (\<forall>k < j. le_urand env (lw_draws w + k) < le_urand env (lw_draws w + j)) \<and>
    lw_got w' = lw_got w @ rolled_award env (needers r ! j) src l r (lw_got w)"
proof -
  obtain e vs where votes: "ro_votes r = e # vs" using needers by (cases "ro_votes r") (auto simp: needers_def)
  obtain p n w1 where d: "need_dice env r (ro_votes r) (fst e, 0) w = ((p, n), w1)" by (metis surj_pair)
  have best: "best_throw (le_urand env) (fst e, 0) (needers r) (lw_draws w) = (p, n)"
    using need_dice_best [of env r "ro_votes r" "(fst e, 0)" w] by (simp add: d needers_def)
  note wins = best_throw_wins [OF best]
  have "n \<noteq> 0"
    using wins dice [of "lw_draws w"] needers by (metis add.right_neutral length_greater_0_conv word_le_0_iff word_not_simps(1))
  with wins obtain j where j: "j < length (needers r)" "p = needers r ! j" "n = le_urand env (lw_draws w + j)"
    "\<forall>k < length (needers r). le_urand env (lw_draws w + k) \<le> n" "\<forall>k < j. le_urand env (lw_draws w + k) < n" by auto
  let ?w = "send_loot_roll_won env p n ROLL_NEED r w1"
  have got: "lw_got ?w = lw_got w" and loots: "lw_loots ?w = lw_loots w"
    using need_dice_got [of env r "ro_votes r" "(fst e, 0)" w] need_dice_loots [of env r "ro_votes r" "(fst e, 0)" w] d
    by (simp_all add: send_loot_roll_won_def)
  have item': "roll_item r ?w = Inr (src, l, lo_items l ! unat (ro_slot r))"
    using item roll_item_loots [OF loots] by simp
  have "(if le_online env p then store_rolled_item env p r ?w else Inr ?w) = Inr w'"
    using w' d by (simp add: need_branch_def votes Let_def)
  then have "lw_got w' = lw_got w @ rolled_award env p src l r (lw_got w)"
    using store_rolled_item_got [OF _ item'] got by (auto simp: rolled_award_def Let_def split: if_splits)
  then show ?thesis using j by auto
qed

text \<open>
  C10: A roll that somebody needs goes to the first of those whose throw no other need voter beats: that
  player gets the item if it fits, or the item is only unblocked; and the roll is over.
\<close>

theorem highest_need_wins:
  assumes "loot_reach protos w" and "le_proto env = protos" and "i < length (lw_rolls w)" and "exact (lw_rolls w ! i)"
    and "ro_loot (lw_rolls w ! i) = Some src" and "needers (lw_rolls w ! i) \<noteq> []" and "\<forall>k. 0 < le_urand env k"
  shows "\<exists>w' j l. count_the_roll env i w = Inr w' \<and> om_get (lw_loots w) src = Some l \<and>
    j < length (needers (lw_rolls w ! i)) \<and>
    (\<forall>k < length (needers (lw_rolls w ! i)). le_urand env (lw_draws w + k) \<le> le_urand env (lw_draws w + j)) \<and>
    (\<forall>k < j. le_urand env (lw_draws w + k) < le_urand env (lw_draws w + j)) \<and>
    lw_got w' = lw_got w @ rolled_award env (needers (lw_rolls w ! i) ! j) src l (lw_rolls w ! i) (lw_got w) \<and>
    lw_rolls w' = take i (lw_rolls w) @ drop (Suc i) (lw_rolls w)"
proof -
  let ?r = "lw_rolls w ! i"
  note ok = loot_reach_ok [OF assms(1)]
  have r: "?r \<in> set (lw_rolls w)" using assms(3) by simp
  from roll_item_seen [OF ok r assms(5)] obtain l where l: "om_get (lw_loots w) src = Some l"
    "roll_item ?r w = Inr (src, l, lo_items l ! unat (ro_slot ?r))" by metis
  have "0 < votes_for {ROLL_NEED} ?r" using assms(6) by (simp add: needers_def votes_for_def)
  then have need: "0 < ro_need ?r" using assms(4) by (auto simp: exact_def word_neq_0_conv [symmetric] unat_eq_0 [symmetric])
  from count_the_roll_quiet [OF ok assms(3,2)] obtain w' where w': "count_the_roll env i w = Inr w'" by (auto simp: delivers_def)
  then obtain w1 where w1: "need_branch env ?r w = Inr w1" "w' = erase_roll i w1"
    using need assms(3,5) by (auto simp: count_the_roll_def roll_at_def sum_bind_Inr_iff)
  have "0 < le_urand env k" for k using assms(7) by blast
  from need_branch_got [OF w1(1) l(2) assms(6) this] show ?thesis
    using w' w1(2) l(1) count_the_roll_rolls(2) [OF w'] by auto
qed

theorem highest_need_wins_witness:
  "\<exists>w' l. count_the_roll demo_env 0 demo_voted = Inr w' \<and> om_get (lw_loots demo_voted) 9 = Some l \<and>
    lw_got w' = [Stored 1 (source_of 9 l (Plain_at 0) (lo_items l ! 0))]"
proof -
  have r: "lw_rolls demo_voted = [demo_needed]" "lw_got demo_voted = []" by (simp_all add: demo_defs)
  have n: "needers demo_needed = [1]" by (simp add: needers_def demo_defs)
  have throws: "0 < le_urand demo_env k" for k
    by (simp add: demo_env_def)
  have "\<exists>w' j l. count_the_roll demo_env 0 demo_voted = Inr w' \<and> om_get (lw_loots demo_voted) 9 = Some l \<and>
    j < length (needers (lw_rolls demo_voted ! 0)) \<and>
    (\<forall>k < length (needers (lw_rolls demo_voted ! 0)). le_urand demo_env (lw_draws demo_voted + k) \<le> le_urand demo_env (lw_draws demo_voted + j)) \<and>
    (\<forall>k < j. le_urand demo_env (lw_draws demo_voted + k) < le_urand demo_env (lw_draws demo_voted + j)) \<and>
    lw_got w' = lw_got demo_voted @ rolled_award demo_env (needers (lw_rolls demo_voted ! 0) ! j) 9 l (lw_rolls demo_voted ! 0) (lw_got demo_voted) \<and>
    lw_rolls w' = take 0 (lw_rolls demo_voted) @ drop (Suc 0) (lw_rolls demo_voted)"
    by (rule highest_need_wins [OF demo_reach(2) refl])
      (simp_all add: r n throws, simp_all add: demo_defs exact_def votes_for_def om_get_def)
  then show ?thesis
    by (auto simp: r n rolled_award_def Let_def) (simp_all add: demo_env_def demo_defs)
qed

end
