(* ===== verification/LootFlaws.thy ===== *)
theory LootFlaws
  imports LootRules
begin

text \<open>
  Where the rules of group loot are broken: a roll with a single player pays an item that the player
  has already taken, and a player who votes again and again decides a roll alone.
\<close>

section \<open>A roll with one player\<close>

text \<open>What the notices to the looters keep.\<close>

definition kept :: "roll_world \<Rightarrow> roll_world \<Rightarrow> bool" where
  "kept w w' \<longleftrightarrow> same_world w w' \<and> lw_got w' = lw_got w \<and> lw_members w' = lw_members w"

lemma kept_world_trans: "kept w w' \<Longrightarrow> kept w' w'' \<Longrightarrow> kept w w''"
  by (auto simp: kept_def intro: same_world_trans)

lemma kept_put: "om_get (lw_loots w) src = Some l \<Longrightarrow> same_loot l l' \<Longrightarrow> kept w (put_loot src l' w)"
  by (simp add: kept_def same_world_put)

lemma kept_at: "kept w w' \<Longrightarrow> om_get (lw_loots w) src = Some l \<Longrightarrow> \<exists>l'. om_get (lw_loots w') src = Some l' \<and> same_loot l l'"
  unfolding kept_def using same_world_at by blast

lemma loot_give_members [simp]: "lw_members (loot_give a w) = lw_members w"
  by (simp add: loot_give_def)

lemma notify_item_removed_kept:
  assumes "om_get (lw_loots w) src = Some l"
  shows "delivers (notify_item_removed env src slot w) (kept w)"
proof -
  from notify_looters_same [OF assms, of env "\<lambda>_. Some slot" "lo_looting l"] obtain w'
    where "notify_looters env (\<lambda>_. Some slot) src (lo_looting l) w = Inr w'" "same_world w w'" by (auto simp: delivers_def)
  with notify_looters_keeps [OF this(1)] show ?thesis
    by (simp add: notify_item_removed_def loot_at_delivers [OF assms] kept_def)
qed

lemma mark_taken_plain_kept:
  assumes l: "om_get (lw_loots w) src = Some l"
  shows "delivers (mark_taken env p src slot (slot_view_of place it) w) (kept w)"
proof -
  let ?l = "l\<lparr>lo_conds := mark_own p None (lo_conds l)\<rparr>"
  have at: "om_get (lw_loots (put_loot src ?l w)) src = Some ?l" by simp
  have "kept w (put_loot src ?l w)" by (rule kept_put [OF l]) simp
  then have "delivers (notify_item_removed env src slot (put_loot src ?l w)) (kept w)"
    by (rule delivers_mono [OF notify_item_removed_kept [OF at] kept_world_trans])
  then show ?thesis by (simp add: mark_taken_def slot_view_of_def on_loot_def loot_at_delivers [OF l])
qed

text \<open>A player takes a single item that is neither taken nor blocked.\<close>

lemma take_single_item:
  fixes w :: roll_world
  assumes l: "om_get (lw_loots w) src = Some l" "i < length (lo_items l)" "i < 256"
    and it: "single_item (lo_items l ! i)" "flags l ! i = (False, False)"
    and p: "om_get (lw_open w) p = Some src" "le_reach env p src"
    and store: "le_can_store env (lw_got w) p (li_itemid (lo_items l ! i)) (li_count (lo_items l ! i)) = EQUIP_ERR_OK"
  shows "delivers (handle_autostore_loot_item env p [(src, of_nat i)] w) (\<lambda>w'.
    lw_got w' = lw_got w @ [Stored p (source_of src l (Plain_at i) (lo_items l ! i))] \<and>
    lw_rolls w' = lw_rolls w \<and> lw_members w' = lw_members w \<and>
    (\<exists>l'. om_get (lw_loots w') src = Some l' \<and> lo_fill l' = lo_fill l \<and> length (lo_items l') = length (lo_items l)))"
proof -
  let ?it = "lo_items l ! i" and ?v = "slot_view_of (Plain_at i) (lo_items l ! i)"
  let ?w = "loot_give (Stored p (source_of src l (Plain_at i) ?it)) w"
  have i: "unat (of_nat i :: u8) = i" using l(3) by (simp add: unsigned_of_nat take_bit_nat_eq_self)
  have open_item: "\<not> li_looted ?it" "\<not> li_blocked ?it" using it(2) l(2) by simp_all
  then have "loot_item_in_slot i p l = Inr (Some ?v)"
    using it(1) l(2) by (simp add: loot_item_in_slot_def single_item_def slot_view_of_def Let_def)
  then have "take_entry env p src (of_nat i) w = take_view env p src (of_nat i) l ?v w"
    by (simp add: take_entry_def loot_at_def l(1) i)
  moreover have "delivers (take_view env p src (of_nat i) l ?v w) (\<lambda>r. fst r \<and>
      lw_got (snd r) = lw_got ?w \<and> lw_rolls (snd r) = lw_rolls w \<and> lw_members (snd r) = lw_members w \<and>
      (\<exists>l'. om_get (lw_loots (snd r)) src = Some l' \<and> lo_fill l' = lo_fill l \<and> length (lo_items l') = length (lo_items l)))"
  proof -
    have at: "om_get (lw_loots ?w) src = Some l" using l(1) by simp
    have "delivers (mark_taken env p src (of_nat i) ?v ?w) (\<lambda>w. delivers
        (on_loot src (\<lambda>l. (if li_ffa ?it then l else set_looted (Plain_at i) l)\<lparr>lo_unlooted := lo_unlooted l - 1\<rparr>) w)
        (\<lambda>w'. lw_got w' = lw_got ?w \<and> lw_rolls w' = lw_rolls ?w \<and> lw_members w' = lw_members ?w \<and>
          (\<exists>l'. om_get (lw_loots w') src = Some l' \<and> lo_fill l' = lo_fill l \<and> length (lo_items l') = length (lo_items l))))"
    proof (rule delivers_mono [OF mark_taken_plain_kept [OF at]])
      fix w' assume w': "kept ?w w'"
      from kept_at [OF this at] obtain l' where l': "om_get (lw_loots w') src = Some l'" "same_loot l l'" by blast
      then have "length (lo_items l') = length (lo_items l)" by (simp add: same_loot_length)
      with w' l' show "delivers
          (on_loot src (\<lambda>l. (if li_ffa ?it then l else set_looted (Plain_at i) l)\<lparr>lo_unlooted := lo_unlooted l - 1\<rparr>) w')
          (\<lambda>w'. lw_got w' = lw_got ?w \<and> lw_rolls w' = lw_rolls ?w \<and> lw_members w' = lw_members ?w \<and>
            (\<exists>l'. om_get (lw_loots w') src = Some l' \<and> lo_fill l' = lo_fill l \<and> length (lo_items l') = length (lo_items l)))"
        by (simp add: on_loot_def loot_at_delivers [OF l'(1)] kept_def same_world_def same_loot_def set_looted_def)
    qed
    moreover have "sv_place ?v = Plain_at i" "sv_item ?v = ?it" "sv_quest ?v = None" "sv_currency ?v = None"
      by (simp_all add: slot_view_of_def)
    ultimately show ?thesis using open_item store by (simp add: take_view_def Let_def loot_emit_def cong: if_cong)
  qed
  ultimately show ?thesis
    using l(1) p by (simp add: handle_autostore_loot_item_def) (auto simp: delivers_def)
qed


lemma four: "\<not> (4 :: u8) \<le> 1"
  by (simp add: word_le_nat_alt)

lemma find_roll_last:
  assumes "find_roll src slot rs = None" and "ro_loot r \<noteq> None" and "ro_target r = src" and "ro_slot r = slot"
  shows "find_roll src slot (rs @ [r]) = Some (length rs)"
  using assms by (auto simp: find_roll_def find_None_iff find_Some_iff nth_append)

text \<open>The only player who needs gets the item.\<close>

lemma sole_need:
  assumes r: "needers r = [p]" "ro_loot r = Some src"
    and l: "om_get (lw_loots w) src = Some l" "unat (ro_slot r) < length (lo_items l)"
    and p: "le_online env p" "\<forall>got item n. le_can_store env got p item n = EQUIP_ERR_OK"
    and dice: "fst (hd (ro_votes r)) = p \<or> 0 < le_urand env (lw_draws w)"
  shows "\<exists>w'. need_branch env r w = Inr w' \<and>
    lw_got w' = lw_got w @ [Stored p (source_of src l (Plain_at (unat (ro_slot r))) (lo_items l ! unat (ro_slot r)))]"
proof -
  obtain e vs where votes: "ro_votes r = e # vs" using r(1) by (cases "ro_votes r") (auto simp: needers_def)
  obtain q n w1 where d: "need_dice env r (ro_votes r) (fst e, 0) w = ((q, n), w1)" by (metis surj_pair)
  have "best_throw (le_urand env) (fst e, 0) [p] (lw_draws w) = (q, n)"
    using need_dice_best [of env r "ro_votes r" "(fst e, 0)" w] by (simp add: d needers_def [symmetric] r(1))
  then have "q = p" using dice by (auto simp: votes split: if_splits)
  let ?w = "send_loot_roll_won env p n ROLL_NEED r w1"
  have same: "lw_got ?w = lw_got w" "lw_loots ?w = lw_loots w"
    using need_dice_got [of env r "ro_votes r" "(fst e, 0)" w] need_dice_loots [of env r "ro_votes r" "(fst e, 0)" w] d
    by (simp_all add: send_loot_roll_won_def)
  have at: "om_get (lw_loots ?w) src = Some l" using l(1) same by simp
  then have item: "roll_item r ?w = Inr (src, l, lo_items l ! unat (ro_slot r))"
    using r(2) l(2) by (simp add: roll_item_def loot_at_def)
  from take_rolled_item_same [OF at item, of env] obtain w' where "take_rolled_item env r ?w = Inr w'" by (auto simp: delivers_def)
  then obtain w'' where "store_rolled_item env p r ?w = Inr w''"
    using p(2) by (simp add: store_rolled_item_def item Let_def)
  moreover have "need_branch env r w = store_rolled_item env p r ?w"
    using d p(1) \<open>q = p\<close> by (simp add: need_branch_def Let_def votes)
  ultimately show ?thesis
    using store_rolled_item_got [OF _ item p(1)] p same by (auto simp: rolled_award_def Let_def)
qed

text \<open>One player of the group, with the corpse open before the rolls start.\<close>

definition demo_alone :: roll_world where
  "demo_alone = (demo_world [(9, demo_loot demo_item)] [1] [])\<lparr>lw_open := [(1, 9)]\<rparr>"

text \<open>
  C8: A roll that only one player may take part in is queued without blocking the item: the player takes
  it from the window, then votes need, and gets the same item of the same corpse once more.
\<close>

theorem sole_looter_takes_twice:
  assumes l: "om_get (lw_loots w) src = Some l" "i < length (lo_items l)" "i < 256"
    and it: "single_item (lo_items l ! i)" "flags l ! i = (False, False)"
    and cands: "roll_candidates env src (lo_items l ! i) (lw_members w) = [p]" "le_vote_order env [p] = [p]"
    and p: "om_get (lw_open w) p = Some src" "le_reach env p src" "find_roll src (of_nat i) (lw_rolls w) = None"
    and store: "\<forall>got item n. le_can_store env got p item n = EQUIP_ERR_OK"
  shows "\<exists>w1 w2 w3 s s'. start_loot_roll env src GROUP_LOOT i w = Inr w1 \<and>
    loot_step env (Take_loot p [(src, of_nat i)]) w1 = Inr w2 \<and> loot_step env (Roll_vote p src (of_nat i) 1) w2 = Inr w3 \<and>
    lw_got w3 = lw_got w @ [Stored p s, Stored p s'] \<and>
    (ls_loot s, ls_fill s, ls_place s) = (src, lo_fill l, Plain_at i) \<and>
    (ls_loot s', ls_fill s', ls_place s') = (src, lo_fill l, Plain_at i)"
proof -
  let ?it = "lo_items l ! i"
  let ?r = "(roll_new src GROUP_LOOT ?it)\<lparr>ro_votes := [(p, ROLL_NEED)], ro_players := 1, ro_slot := of_nat i, ro_loot := Some src\<rparr>"
  let ?w1 = "w\<lparr>lw_rolls := lw_rolls w @ [?r]\<rparr>"
  have i: "unat (of_nat i :: u8) = i" using l(3) by (simp add: unsigned_of_nat take_bit_nat_eq_self)
  have "p \<in> set (roll_candidates env src ?it (lw_members w))" by (simp add: cands)
  then have member: "p \<in> set (lw_members w)" "le_online env p" by (auto simp: roll_candidates_def)
  have w1: "start_loot_roll env src GROUP_LOOT i w = Inr ?w1"
    using l it by (simp add: start_loot_roll_def loot_at_def single_item_def cands open_roll_def queue_roll_def Let_def)
  have "delivers (handle_autostore_loot_item env p [(src, of_nat i)] ?w1) (\<lambda>w'.
    lw_got w' = lw_got ?w1 @ [Stored p (source_of src l (Plain_at i) ?it)] \<and>
    lw_rolls w' = lw_rolls ?w1 \<and> lw_members w' = lw_members ?w1 \<and>
    (\<exists>l'. om_get (lw_loots w') src = Some l' \<and> lo_fill l' = lo_fill l \<and> length (lo_items l') = length (lo_items l)))"
    by (rule take_single_item) (use l it p store in simp_all)
  then obtain w2 l2 where w2: "handle_autostore_loot_item env p [(src, of_nat i)] ?w1 = Inr w2"
    "lw_got w2 = lw_got w @ [Stored p (source_of src l (Plain_at i) ?it)]" "lw_rolls w2 = lw_rolls w @ [?r]"
    "lw_members w2 = lw_members w" "om_get (lw_loots w2) src = Some l2" "lo_fill l2 = lo_fill l"
    "length (lo_items l2) = length (lo_items l)" by (auto simp: delivers_def)
  let ?n = "length (lw_rolls w)"
  let ?r' = "?r\<lparr>ro_need := 1\<rparr>"
  let ?w2 = "put_roll ?n ?r' (send_loot_roll env p 0 ROLL_NEED ?r w2)"
  have items: "lo_items l2 \<noteq> []" using w2(7) l(2) by auto
  have find: "find_roll src (of_nat i) (lw_rolls w2) = Some ?n"
    unfolding w2(3) by (rule find_roll_last [OF p(3)]) (simp_all add: roll_new_def)
  have vote: "count_roll_vote env p ?n ROLL_NEED w2 = sum_bind (count_the_roll env ?n ?w2) (\<lambda>w. Inr (True, w))"
    using w2 items by (simp add: count_roll_vote_def roll_at_def roll_loot_is_empty_def count_vote_def all_voted_def cast_vote_def roll_new_def)
  have "\<exists>w'. need_branch env ?r' ?w2 = Inr w' \<and>
      lw_got w' = lw_got ?w2 @ [Stored p (source_of src l2 (Plain_at (unat (ro_slot ?r'))) (lo_items l2 ! unat (ro_slot ?r')))]"
    by (rule sole_need) (use w2 l member store i in \<open>simp_all add: send_loot_roll_def needers_def put_roll_def\<close>)
  then obtain w3 where w3: "need_branch env ?r' ?w2 = Inr w3"
    "lw_got w3 = lw_got ?w2 @ [Stored p (source_of src l2 (Plain_at i) (lo_items l2 ! i))]" by (auto simp: i)
  have got: "lw_got ?w2 = lw_got w2" by (simp add: send_loot_roll_def put_roll_def)
  have "loot_step env (Roll_vote p src (of_nat i) 1) w2 = Inr (erase_roll ?n w3)"
    using member w2 find vote w3 four
    by (simp add: handle_loot_roll_def MAX_ROLL_FROM_CLIENT_def roll_vote_of_def count_player_roll_vote_def get_vote_mask_for_def
        roll_new_def ROLL_VOTE_MASK_ALL_def count_the_roll_def roll_at_def)
  then show ?thesis using w1 w2 w3(2) got by (auto simp: source_of_def erase_roll_def)
qed

theorem sole_looter_takes_twice_witness:
  "\<exists>w1 w2 w3 s s'. start_loot_roll demo_env 9 GROUP_LOOT 0 demo_alone = Inr w1 \<and>
    loot_step demo_env (Take_loot 1 [(9, 0)]) w1 = Inr w2 \<and> loot_step demo_env (Roll_vote 1 9 0 1) w2 = Inr w3 \<and>
    lw_got w3 = [Stored 1 s, Stored 1 s'] \<and> ls_place s = ls_place s'"
proof -
  have alone: "om_get (lw_loots demo_alone) 9 = Some (demo_loot demo_item)" "lo_items (demo_loot demo_item) = [demo_item]"
      "lw_members demo_alone = [1]" "lw_got demo_alone = []"
    by (simp_all add: demo_alone_def demo_world_def om_get_def demo_loot_def)
  have "\<exists>w1 w2 w3 s s'. start_loot_roll demo_env 9 GROUP_LOOT 0 demo_alone = Inr w1 \<and>
    loot_step demo_env (Take_loot 1 [(9, of_nat 0)]) w1 = Inr w2 \<and> loot_step demo_env (Roll_vote 1 9 (of_nat 0) 1) w2 = Inr w3 \<and>
    lw_got w3 = lw_got demo_alone @ [Stored 1 s, Stored 1 s'] \<and>
    (ls_loot s, ls_fill s, ls_place s) = (9, lo_fill (demo_loot demo_item), Plain_at 0) \<and>
    (ls_loot s', ls_fill s', ls_place s') = (9, lo_fill (demo_loot demo_item), Plain_at 0)"
    by (rule sole_looter_takes_twice [OF alone(1)])
      (simp_all add: alone, simp_all add: demo_alone_def demo_world_def demo_env_def demo_item_def demo_proto_def single_item_def
        flags_def demo_loot_def roll_candidates_def allowed_for_player_def LOOT_ITEM_TYPE_ITEM_def om_get_def find_roll_def)
  then show ?thesis by (auto simp: alone)
qed

section \<open>One player who votes again and again\<close>

fun loot_run :: "loot_env \<Rightarrow> loot_act list \<Rightarrow> roll_world \<Rightarrow> roll_world loot_result" where
  "loot_run env [] w = Inr w"
| "loot_run env (a # as) w = sum_bind (loot_step env a w) (loot_run env as)"

text \<open>The roll \<open>i\<close> is open, and only \<open>p\<close> has voted: need, as often as the total says.\<close>

definition alone :: "loot_env \<Rightarrow> guid \<Rightarrow> nat \<Rightarrow> roll_world \<Rightarrow> bool" where
  "alone env p i w \<longleftrightarrow> (let r = lw_rolls w ! i in
     find_roll (ro_target r) (ro_slot r) (lw_rolls w) = Some i \<and> bit (get_vote_mask_for env p r) 1 \<and>
     map_of (ro_votes r) p \<noteq> None \<and> distinct (map fst (ro_votes r)) \<and> set (needers r) \<subseteq> {p} \<and>
     ro_pass r = 0 \<and> ro_greed r = 0)"

lemma needers_cast:
  assumes "map_of (ro_votes r) p \<noteq> None" and "distinct (map fst (ro_votes r))" and "set (needers r) \<subseteq> {p}"
  shows "needers (cast_vote p ROLL_NEED r) = [p]"
proof -
  have none: "map fst (filter (\<lambda>e. snd e = ROLL_NEED) (map (\<lambda>e. if fst e = p then (p, ROLL_NEED) else e) xs)) = []"
    if "p \<notin> fst ` set xs" "\<forall>e \<in> set xs. snd e = ROLL_NEED \<longrightarrow> fst e = p" for xs :: "(guid \<times> roll_vote) list"
    using that by (induction xs) auto
  have "map fst (filter (\<lambda>e. snd e = ROLL_NEED) (map (\<lambda>e. if fst e = p then (p, ROLL_NEED) else e) xs)) = [p]"
    if "map_of xs p \<noteq> None" "distinct (map fst xs)" "\<forall>e \<in> set xs. snd e = ROLL_NEED \<longrightarrow> fst e = p" for xs :: "(guid \<times> roll_vote) list"
    using that
  proof (induction xs)
    case (Cons e xs)
    then show ?case using none [of xs] by (cases e) (auto split: if_splits)
  qed simp
  from this [OF assms(1,2)] show ?thesis using assms(3) by (auto simp: needers_def cast_vote_def)
qed

lemma find_roll_update:
  assumes "find_roll src slot rs = Some i" and "ro_loot r' = ro_loot (rs ! i)" "ro_target r' = ro_target (rs ! i)" "ro_slot r' = ro_slot (rs ! i)"
  shows "find_roll src slot (rs[i := r']) = Some i"
proof -
  have "ro_loot (rs[i := r'] ! x) = ro_loot (rs ! x) \<and> ro_target (rs[i := r'] ! x) = ro_target (rs ! x) \<and>
      ro_slot (rs[i := r'] ! x) = ro_slot (rs ! x)" if "x < length rs" for x
    using that assms(2-4) by (cases "x = i") simp_all
  then have "find_roll src slot (rs[i := r']) = find_roll src slot rs" unfolding find_roll_def by (intro find_cong) auto
  then show ?thesis using assms(1) by simp
qed

text \<open>A vote that does not complete the count only adds one to it.\<close>

lemma need_again:
  assumes alone: "alone env p i w" and p: "p \<in> set (lw_members w)"
    and r: "r = lw_rolls w ! i" "ro_loot r = Some src"
    and l: "om_get (lw_loots w) src = Some l" "lo_items l \<noteq> []"
  shows "\<exists>w'. lw_rolls w' = (lw_rolls w)[i := cast_vote p ROLL_NEED (r\<lparr>ro_need := ro_need r + 1\<rparr>)] \<and>
    lw_got w' = lw_got w \<and> lw_loots w' = lw_loots w \<and> lw_members w' = lw_members w \<and> lw_draws w' = lw_draws w \<and>
    loot_step env (Roll_vote p (ro_target r) (ro_slot r) 1) w =
      (if unat (ro_players r) \<le> unat (ro_need r + 1) then count_the_roll env i w' else Inr w')"
proof (intro exI conjI)
  let ?r = "cast_vote p ROLL_NEED (r\<lparr>ro_need := ro_need r + 1\<rparr>)"
  let ?w = "put_roll i ?r (send_loot_roll env p 0 ROLL_NEED r w)"
  show "lw_rolls ?w = (lw_rolls w)[i := ?r]" "lw_got ?w = lw_got w" "lw_loots ?w = lw_loots w" "lw_members ?w = lw_members w"
      "lw_draws ?w = lw_draws w"
    by (simp_all add: put_roll_def send_loot_roll_def loot_emit_def)
  have find: "find_roll (ro_target r) (ro_slot r) (lw_rolls w) = Some i" "bit (get_vote_mask_for env p r) 1"
      "map_of (ro_votes r) p \<noteq> None" "ro_pass r = 0" "ro_greed r = 0"
    using alone unfolding alone_def Let_def r(1) by blast+
  obtain v where v: "map_of (ro_votes r) p = Some v" using find(3) by blast
  have "count_roll_vote env p i ROLL_NEED w =
      (if unat (ro_players r) \<le> unat (ro_need r + 1) then sum_bind (count_the_roll env i ?w) (\<lambda>w. Inr (True, w)) else Inr (False, ?w))"
    using find_roll_less [OF find(1)] v find(4,5) r(2) l
    by (simp add: r(1) [symmetric] count_roll_vote_def roll_at_def roll_loot_is_empty_def count_vote_def all_voted_def cast_vote_def)
  then show "loot_step env (Roll_vote p (ro_target r) (ro_slot r) 1) w =
      (if unat (ro_players r) \<le> unat (ro_need r + 1) then count_the_roll env i ?w else Inr ?w)"
    using p find(1,2) four
    by (simp add: handle_loot_roll_def MAX_ROLL_FROM_CLIENT_def roll_vote_of_def count_player_roll_vote_def r(1) [symmetric])
      (cases "count_the_roll env i ?w"; simp)
qed

lemma alone_cast:
  assumes "alone env p i w" and "lw_rolls w' = (lw_rolls w)[i := cast_vote p ROLL_NEED ((lw_rolls w ! i)\<lparr>ro_need := n\<rparr>)]"
  shows "alone env p i w'" and "needers (lw_rolls w' ! i) = [p]"
proof -
  let ?r = "lw_rolls w ! i" and ?r' = "cast_vote p ROLL_NEED ((lw_rolls w ! i)\<lparr>ro_need := n\<rparr>)"
  have old: "find_roll (ro_target ?r) (ro_slot ?r) (lw_rolls w) = Some i" "bit (get_vote_mask_for env p ?r) 1"
      "map_of (ro_votes ?r) p \<noteq> None" "distinct (map fst (ro_votes ?r))" "set (needers ?r) \<subseteq> {p}" "ro_pass ?r = 0" "ro_greed ?r = 0"
    using assms(1) unfolding alone_def Let_def by blast+
  have i: "lw_rolls w' ! i = ?r'" using find_roll_less [OF old(1)] assms(2) by simp
  have n: "needers ?r' = [p]" by (rule needers_cast) (use old in \<open>simp_all add: needers_def\<close>)
  have same: "ro_loot ?r' = ro_loot ?r" "ro_target ?r' = ro_target ?r" "ro_slot ?r' = ro_slot ?r"
      "get_vote_mask_for env p ?r' = get_vote_mask_for env p ?r"
    by (simp_all add: cast_vote_def get_vote_mask_for_def)
  have "map_of (ro_votes ?r') p \<noteq> None"
    using old(3) cast_vote_simps(1) [of p ROLL_NEED "?r\<lparr>ro_need := n\<rparr>"] unfolding map_of_eq_None_iff set_map [symmetric] by simp
  moreover have "find_roll (ro_target ?r') (ro_slot ?r') (lw_rolls w') = Some i"
    unfolding assms(2) same by (rule find_roll_update [OF old(1) same(1-3)])
  ultimately show "alone env p i w'" unfolding alone_def Let_def i same using old n by simp
  show "needers (lw_rolls w' ! i) = [p]" unfolding i by (rule n)
qed

lemma needs_until_decided:
  assumes "alone env p i w" and "r = lw_rolls w ! i" and "unat (ro_players r) = unat (ro_need r) + Suc m"
    and "p \<in> set (lw_members w)" and "ro_loot r = Some src" and "om_get (lw_loots w) src = Some l"
    and "unat (ro_slot r) < length (lo_items l)" and "le_online env p"
    and store: "\<forall>got item n. le_can_store env got p item n = EQUIP_ERR_OK" and dice: "\<forall>k. 0 < le_urand env k"
  shows "\<exists>w'. loot_run env (replicate (Suc m) (Roll_vote p (ro_target r) (ro_slot r) 1)) w = Inr w' \<and>
    lw_got w' = lw_got w @ [Stored p (source_of src l (Plain_at (unat (ro_slot r))) (lo_items l ! unat (ro_slot r)))] \<and>
    length (lw_rolls w') + 1 = length (lw_rolls w)"
  using assms(1-8)
proof (induction m arbitrary: w r)
  case (0 w r)
  have "lo_items l \<noteq> []" using 0(7) by auto
  from need_again [OF 0(1,4,2,5,6) this] obtain w1
    where w1: "lw_rolls w1 = (lw_rolls w)[i := cast_vote p ROLL_NEED (r\<lparr>ro_need := ro_need r + 1\<rparr>)]"
    "lw_got w1 = lw_got w" "lw_loots w1 = lw_loots w"
    "loot_step env (Roll_vote p (ro_target r) (ro_slot r) 1) w =
      (if unat (ro_players r) \<le> unat (ro_need r + 1) then count_the_roll env i w1 else Inr w1)"
    by blast
  let ?r = "cast_vote p ROLL_NEED (r\<lparr>ro_need := ro_need r + 1\<rparr>)"
  have i: "i < length (lw_rolls w)" using 0(1) unfolding alone_def Let_def by (blast intro: find_roll_less)
  then have r: "lw_rolls w1 ! i = ?r" by (simp add: w1(1))
  have more: "unat (ro_need r + 1) = unat (ro_players r)"
    using 0(3) unat_u8_below [of "ro_need r" "ro_players r"] by simp
  then have pos: "0 < ro_need r + 1" using 0(3) by (simp add: word_less_nat_alt)
  have slot: "ro_slot ?r = ro_slot r" by (simp add: cast_vote_def)
  have "\<exists>w'. need_branch env ?r w1 = Inr w' \<and>
      lw_got w' = lw_got w1 @ [Stored p (source_of src l (Plain_at (unat (ro_slot ?r))) (lo_items l ! unat (ro_slot ?r)))]"
    by (rule sole_need) (use alone_cast(2) [OF 0(1) w1(1) [unfolded 0(2)]] r 0 w1 slot store dice in simp_all)
  then obtain w2 where w2: "need_branch env ?r w1 = Inr w2"
    "lw_got w2 = lw_got w @ [Stored p (source_of src l (Plain_at (unat (ro_slot r))) (lo_items l ! unat (ro_slot r)))]"
    by (auto simp: w1(2))
  then have count: "count_the_roll env i w1 = Inr (erase_roll i w2)"
    using i pos 0(5) by (simp add: count_the_roll_def roll_at_def r [symmetric]) (simp add: r w1(1))
  have "length (lw_rolls (erase_roll i w2)) + 1 = length (lw_rolls w)"
    using count_the_roll_rolls(2) [OF count] i by (simp add: w1(1))
  moreover have "lw_got (erase_roll i w2) = lw_got w2" by (simp add: erase_roll_def)
  ultimately show ?case using w1(4) more count w2(2) by simp
next
  case (Suc m w r)
  have "lo_items l \<noteq> []" using Suc.prems(7) by auto
  from need_again [OF Suc.prems(1,4,2,5,6) this] obtain w1
    where w1: "lw_rolls w1 = (lw_rolls w)[i := cast_vote p ROLL_NEED (r\<lparr>ro_need := ro_need r + 1\<rparr>)]"
    "lw_got w1 = lw_got w" "lw_loots w1 = lw_loots w" "lw_members w1 = lw_members w"
    "loot_step env (Roll_vote p (ro_target r) (ro_slot r) 1) w =
      (if unat (ro_players r) \<le> unat (ro_need r + 1) then count_the_roll env i w1 else Inr w1)"
    by blast
  let ?r = "cast_vote p ROLL_NEED (r\<lparr>ro_need := ro_need r + 1\<rparr>)"
  have i: "i < length (lw_rolls w)" using Suc.prems(1) unfolding alone_def Let_def by (blast intro: find_roll_less)
  then have r: "?r = lw_rolls w1 ! i" by (simp add: w1(1))
  have same: "ro_target ?r = ro_target r" "ro_slot ?r = ro_slot r" by (simp_all add: cast_vote_def)
  have more: "unat (ro_need r + 1) = unat (ro_need r) + 1"
    using Suc.prems(3) unat_u8_below [of "ro_need r" "ro_players r"] by simp
  have "\<exists>w'. loot_run env (replicate (Suc m) (Roll_vote p (ro_target ?r) (ro_slot ?r) 1)) w1 = Inr w' \<and>
    lw_got w' = lw_got w1 @ [Stored p (source_of src l (Plain_at (unat (ro_slot ?r))) (lo_items l ! unat (ro_slot ?r)))] \<and>
    length (lw_rolls w') + 1 = length (lw_rolls w1)"
    by (rule Suc.IH [OF alone_cast(1) [OF Suc.prems(1) w1(1) [unfolded Suc.prems(2)]] r])
      (use Suc.prems w1 more same in simp_all)
  then show ?case using w1 more Suc.prems(3) same by simp
qed

text \<open>
  C9: Votes are not checked against earlier ones: a player of an open roll who sends need as often as
  there are players decides it before anybody else has voted, and gets the item.
\<close>

theorem repeated_need_decides:
  assumes r: "find_roll (ro_target r) (ro_slot r) (lw_rolls w) = Some i" "r = lw_rolls w ! i" "ro_loot r = Some src"
    and votes: "\<forall>e \<in> set (ro_votes r). snd e = ROLL_NOT_EMITED_YET" "distinct (map fst (ro_votes r))" "map_of (ro_votes r) p \<noteq> None"
    and totals: "0 < ro_players r" "ro_need r = 0" "ro_greed r = 0" "ro_pass r = 0"
    and p: "p \<in> set (lw_members w)" "le_online env p" "bit (get_vote_mask_for env p r) 1"
    and l: "om_get (lw_loots w) src = Some l" "unat (ro_slot r) < length (lo_items l)"
    and env: "\<forall>got item n. le_can_store env got p item n = EQUIP_ERR_OK" "\<forall>k. 0 < le_urand env k"
  shows "\<exists>w'. loot_run env (replicate (unat (ro_players r)) (Roll_vote p (ro_target r) (ro_slot r) 1)) w = Inr w' \<and>
    lw_got w' = lw_got w @ [Stored p (source_of src l (Plain_at (unat (ro_slot r))) (lo_items l ! unat (ro_slot r)))] \<and>
    length (lw_rolls w') + 1 = length (lw_rolls w)"
proof -
  have "needers r = []" using votes(1) by (auto simp: needers_def filter_empty_conv)
  then have "alone env p i w" using r votes totals p(3) unfolding alone_def Let_def by (simp only: r(2)) simp
  moreover obtain m where "unat (ro_players r) = Suc m" using totals(1) by (cases "unat (ro_players r)") (auto simp: word_less_nat_alt)
  ultimately show ?thesis using needs_until_decided [of env p i w r m src l] r p l env totals(2) by simp
qed

theorem repeated_need_decides_witness:
  "\<exists>w' s. loot_run demo_env [Roll_vote 1 9 0 1, Roll_vote 1 9 0 1] demo_rolling = Inr w' \<and> lw_got w' = [Stored 1 s] \<and> lw_rolls w' = []"
proof -
  let ?l = "demo_loot (demo_item\<lparr>li_blocked := True\<rparr>)"
  have rolls: "lw_rolls demo_rolling = [demo_roll]" "lw_got demo_rolling = []" by (simp_all add: demo_defs)
  have "\<exists>w'. loot_run demo_env (replicate (unat (ro_players demo_roll)) (Roll_vote 1 (ro_target demo_roll) (ro_slot demo_roll) 1)) demo_rolling = Inr w' \<and>
    lw_got w' = lw_got demo_rolling @ [Stored 1 (source_of 9 ?l (Plain_at (unat (ro_slot demo_roll))) (lo_items ?l ! unat (ro_slot demo_roll)))] \<and>
    length (lw_rolls w') + 1 = length (lw_rolls demo_rolling)"
    by (rule repeated_need_decides [where i = 0])
      (simp_all add: rolls find_roll_def, simp_all add: demo_defs demo_env_def om_get_def get_vote_mask_for_def bit_simps)
  moreover have "replicate (unat (ro_players demo_roll)) (Roll_vote 1 (ro_target demo_roll) (ro_slot demo_roll) 1) = [Roll_vote 1 9 0 1, Roll_vote 1 9 0 1]"
    by (simp add: demo_roll_def) (simp add: numeral_2_eq_2)
  ultimately show ?thesis by (auto simp: rolls)
qed

end
