(* ===== verification/LootVotes.thy ===== *)
theory LootVotes
  imports LootRules "HOL-Library.Multiset"
begin

text \<open>
  Runs in which nobody votes twice on a roll: the totals of every roll are then the numbers of its
  votes, whoever opens, takes, leaves or joins, and a roll is decided exactly when its last player
  has voted.
\<close>

section \<open>Runs with one vote each\<close>

text \<open>A vote in the request is the player's first on the roll that the request finds.\<close>

definition first_vote :: "loot_act \<Rightarrow> roll_world \<Rightarrow> bool" where
  "first_vote a w \<longleftrightarrow>
     (case a of
        Roll_vote p target slot t \<Rightarrow>
          (case find_roll target slot (lw_rolls w) of
             None \<Rightarrow> True
           | Some i \<Rightarrow> map_of (ro_votes (lw_rolls w ! i)) p \<in> {None, Some ROLL_NOT_EMITED_YET})
      | _ \<Rightarrow> True)"

text \<open>A group lists nobody twice and has fewer than 256 members; a hash map loses nobody.\<close>

definition group_ok :: "loot_env \<Rightarrow> roll_world \<Rightarrow> bool" where
  "group_ok env w \<longleftrightarrow> distinct (lw_members w) \<and> length (lw_members w) < 256 \<and> (\<forall>ps. mset (le_vote_order env ps) = mset ps)"

inductive fair_reach :: "(u32 \<Rightarrow> item_prototype option) \<Rightarrow> roll_world \<Rightarrow> bool" for protos where
  fair_start: "loot_start w \<Longrightarrow> fair_reach protos w"
| fair_step: "fair_reach protos w \<Longrightarrow> le_proto env = protos \<Longrightarrow> loot_step env a w = Inr w' \<Longrightarrow> no_sole_roll w w' \<Longrightarrow>
    group_ok env w \<Longrightarrow> first_vote a w \<Longrightarrow> fair_reach protos w'"

section \<open>Steps that leave the rolls alone\<close>

definition calm :: "roll_world \<Rightarrow> roll_world \<Rightarrow> bool" where
  "calm w w' \<longleftrightarrow> lw_rolls w' = lw_rolls w \<and> lw_members w' = lw_members w"

named_theorems calm \<open>operations that change neither the rolls nor the members\<close>

lemma calm_refl [calm]: "calm w w"
  by (simp add: calm_def)

lemma calm_trans: "calm w w' \<Longrightarrow> calm w' w'' \<Longrightarrow> calm w w''"
  by (simp add: calm_def)

lemma calm_updates [calm]:
  "calm w (put_loot src l w)" "calm w (loot_emit xs w)" "calm w (loot_give x w)" "calm w (w\<lparr>lw_open := b\<rparr>)"
  "calm w (w\<lparr>lw_timers := t\<rparr>)" "calm w (send_loot_item_removed p slot w)"
  by (simp_all add: calm_def put_loot_def loot_emit_def loot_give_def send_loot_item_removed_def)

lemma calm_on_loot: "on_loot src f w = Inr w' \<Longrightarrow> calm w w'"
  by (auto simp: on_loot_def sum_bind_Inr_iff calm)

lemma calm_notify_looters: "notify_looters env f src ps w = Inr w' \<Longrightarrow> calm w w'"
proof (induction env f src ps w rule: notify_looters.induct)
  case (2 env f src p u ps w)
  then show ?case
    by (auto simp: sum_bind_Inr_iff calm split: if_splits option.splits intro: calm_trans [rotated])
qed (simp add: calm)

lemma calm_mark_taken: "mark_taken env p src slot v w = Inr w' \<Longrightarrow> calm w w'"
  by (auto simp: mark_taken_def notify_item_removed_def notify_quest_item_removed_def sum_bind_Inr_iff
      split: option.splits if_splits dest!: calm_on_loot calm_notify_looters
      intro: calm_trans calm_trans [OF _ calm_updates(6)])

lemma calm_take_view: "take_view env p src slot l v w = Inr r \<Longrightarrow> calm w (snd r)"
  by (auto simp: take_view_def Let_def sum_bind_Inr_iff calm_def loot_emit_def loot_give_def send_loot_item_removed_def
      split: option.splits if_splits dest!: calm_on_loot calm_mark_taken)

lemma calm_take_entry: "take_entry env p src slot w = Inr r \<Longrightarrow> calm w (snd r)"
  by (auto simp: take_entry_def sum_bind_Inr_iff calm split: option.splits dest: calm_take_view)

lemma calm_take_entries: "take_entries env p src slots w = Inr w' \<Longrightarrow> calm w w'"
proof (induction slots arbitrary: w)
  case (Cons slot slots)
  then obtain r where r: "take_entry env p src slot w = Inr r" by (auto simp: sum_bind_Inr_iff)
  with Cons.prems Cons.IH [of "snd r"] calm_take_entry [OF r] show ?case
    by (auto split: if_splits intro: calm_trans)
qed (simp add: calm)

lemma calm_autostore: "handle_autostore_loot_item env p entries w = Inr w' \<Longrightarrow> calm w w'"
  by (auto simp: handle_autostore_loot_item_def Let_def calm split: if_splits dest: calm_take_entries)

lemma calm_money: "handle_loot_money env share p w = Inr w' \<Longrightarrow> calm w w'"
proof -
  have "calm w (fold (\<lambda>q w. loot_emit (f q) (loot_give (Money_gained q n) w)) qs w)" for f n qs w
    by (induction qs arbitrary: w) (auto simp: calm_def loot_emit_def loot_give_def)
  then show "handle_loot_money env share p w = Inr w' \<Longrightarrow> calm w w'"
    by (auto simp: handle_loot_money_def Let_def notify_money_removed_def calm_def put_loot_def loot_emit_def loot_give_def
        split: option.splits if_splits)
qed

section \<open>Exact totals\<close>

definition all_exact :: "roll_world \<Rightarrow> bool" where
  "all_exact w \<longleftrightarrow> (\<forall>r \<in> set (lw_rolls w). exact r)"

lemma exact_loot [simp]: "exact (r\<lparr>ro_loot := x\<rparr>) = exact r" "exact (r\<lparr>ro_mask := m\<rparr>) = exact r"
  by (simp_all add: exact_def votes_for_def)

lemma calm_exact: "calm w w' \<Longrightarrow> all_exact w \<Longrightarrow> all_exact w'"
  by (simp add: calm_def all_exact_def)

lemma clear_loot_exact: "clear_loot src w = Inr w' \<Longrightarrow> all_exact w \<Longrightarrow> all_exact w' \<and> lw_members w' = lw_members w"
  by (auto simp: clear_loot_def sum_bind_Inr_iff all_exact_def put_loot_def)

lemma release_exact:
  "handle_loot_release env p w = Inr w' \<Longrightarrow> all_exact w \<Longrightarrow> all_exact w' \<and> lw_members w' = lw_members w \<and> length (lw_rolls w') = length (lw_rolls w)"
proof -
  have upd: "all_exact (loot_emit xs (w\<lparr>lw_open := o'\<rparr>)) = all_exact w" for xs w o'
    by (simp add: all_exact_def)
  have rolls: "on_loot src f w = Inr w' \<Longrightarrow> lw_rolls w' = lw_rolls w \<and> lw_members w' = lw_members w" for src f and w w' :: roll_world
    using calm_on_loot by (simp add: calm_def)
  assume "handle_loot_release env p w = Inr w'" "all_exact w"
  then show "all_exact w' \<and> lw_members w' = lw_members w \<and> length (lw_rolls w') = length (lw_rolls w)"
    by (auto simp: handle_loot_release_def do_loot_release_def Let_def sum_bind_Inr_iff all_exact_def
        split: option.splits if_splits dest!: rolls)
      (auto simp: clear_loot_def sum_bind_Inr_iff loot_emit_def put_loot_def)
qed

text \<open>A roll that starts.\<close>

lemma open_roll_exact:
  assumes "distinct cands" and "length cands < 256" and "mset (le_vote_order env cands) = mset cands"
  shows "exact (open_roll env src how slot it cands)"
proof -
  have len: "length (le_vote_order env cands) = length cands" using assms(3) by (metis size_mset)
  have dist: "distinct (le_vote_order env cands)" using assms(1,3) mset_eq_imp_distinct_iff by blast
  have none: "votes_for V (open_roll env src how slot it cands) = 0" if "ROLL_NOT_EMITED_YET \<notin> V" for V
    using that by (simp add: votes_for_def open_roll_def roll_new_def)
  have "unat (of_nat (length cands) :: u8) = length cands" using assms(2) by (simp add: unat_of_nat)
  then show ?thesis
    using dist len assms(2) none by (simp add: exact_def) (simp add: open_roll_def roll_new_def comp_def)
qed

text \<open>\<open>opens w w'\<close>: the rolls of \<open>w'\<close> are those of \<open>w\<close> and new ones with exact totals.\<close>

definition opens :: "roll_world \<Rightarrow> roll_world \<Rightarrow> bool" where
  "opens w w' \<longleftrightarrow> lw_members w' = lw_members w \<and>
     (\<exists>rs. lw_rolls w' = lw_rolls w @ rs \<and> (\<forall>r \<in> set rs. ro_players r \<noteq> 1 \<longrightarrow> exact r))"

lemma opens_trans: "opens w w' \<Longrightarrow> opens w' w'' \<Longrightarrow> opens w w''"
  unfolding opens_def by (metis Un_iff append.assoc set_append)

lemma calm_opens: "calm w w' \<Longrightarrow> opens w w'"
  by (simp add: calm_def opens_def)

lemma start_loot_roll_opens:
  assumes g: "group_ok env w" and w': "start_loot_roll env src how slot w = Inr w'"
  shows "opens w w'"
proof -
  have q: "opens w w'" if queue: "queue_roll env src slot l r w = Inr w'" and e: "exact r" for l r
  proof (cases "ro_players r = 1")
    case True
    then show ?thesis using queue by (auto simp: queue_roll_def opens_def)
  next
    case False
    then obtain r1 where r1: "calculate_common_vote_mask env r = Inr r1"
      "w' = (put_loot src (set_blocked slot True l) (send_loot_start_roll env r1 w))
            \<lparr>lw_timers := om_put src LOOT_ROLL_TIMEOUT (lw_timers (send_loot_start_roll env r1 w)), lw_rolls := lw_rolls w @ [r1]\<rparr>"
      using queue by (auto simp: queue_roll_def sum_bind_Inr_iff Let_def)
    have "exact r1" using e r1(1) by (auto simp: calculate_common_vote_mask_def Let_def split: option.splits)
    moreover have "lw_members (send_loot_start_roll env r1 w) = lw_members w" by (simp add: send_loot_start_roll_def loot_emit_def)
    ultimately show ?thesis using r1(2) by (simp add: opens_def put_loot_def)
  qed
  have "exact (open_roll env src how slot it (roll_candidates env src it (lw_members w)))" for it
  proof (rule open_roll_exact)
    have "length (roll_candidates env src it (lw_members w)) \<le> length (lw_members w)"
      unfolding roll_candidates_def by (rule length_filter_le)
    then show "length (roll_candidates env src it (lw_members w)) < 256" using g by (simp add: group_ok_def)
  qed (use g in \<open>simp_all add: group_ok_def roll_candidates_def\<close>)
  then show ?thesis
    using w' q calm_opens [OF calm_refl [of w]]
    by (auto simp: start_loot_roll_def sum_bind_Inr_iff Let_def split: if_splits)
qed

lemma group_ok_opens: "opens w w' \<Longrightarrow> group_ok env w \<Longrightarrow> group_ok env w'"
  by (simp add: opens_def group_ok_def)

lemma loot_rolls_loop_opens: "loot_rolls_loop env src how slots w = Inr w' \<Longrightarrow> group_ok env w \<Longrightarrow> opens w w'"
proof (induction slots arbitrary: w)
  case Nil
  then show ?case by (simp add: calm_opens calm)
next
  case (Cons slot slots)
  have put: "opens w w'" if "loot_rolls_loop env src how slots (put_loot src l w) = Inr w'" for l
  proof -
    have o: "opens w (put_loot src l w)" by (simp add: calm_opens calm)
    from Cons.IH [OF that group_ok_opens [OF o Cons.prems(2)]] show ?thesis by (rule opens_trans [OF o])
  qed
  have start: "opens w w'" if "start_loot_roll env src how slot w = Inr w1" "loot_rolls_loop env src how slots w1 = Inr w'" for w1
  proof -
    note o = start_loot_roll_opens [OF Cons.prems(2) that(1)]
    from Cons.IH [OF that(2) group_ok_opens [OF o Cons.prems(2)]] show ?thesis by (rule opens_trans [OF o])
  qed
  show ?case
    using Cons.prems(1) put start Cons.IH [OF _ Cons.prems(2)]
    by (auto simp: sum_bind_Inr_iff Let_def split: if_splits option.splits)
qed

lemma start_group_method_opens: "start_group_method env src w = Inr w' \<Longrightarrow> group_ok env w \<Longrightarrow> opens w w'"
  by (auto simp: start_group_method_def group_loot_def need_before_greed_def master_loot_def Let_def sum_bind_Inr_iff
      calm_opens calm calm_def put_loot_def loot_emit_def split: loot_method.splits dest: loot_rolls_loop_opens)

lemma opens_exact:
  assumes "opens w1 w2" and "all_exact w1" and "length (lw_rolls w1) = length (lw_rolls w)" and "no_sole_roll w w2"
  shows "all_exact w2"
  using assms by (auto simp: opens_def all_exact_def no_sole_roll_def)

lemma send_loot_exact:
  assumes w': "send_loot env rate p src new_loot w = Inr w'" and e: "all_exact w" and g: "group_ok env w" and sole: "no_sole_roll w w'"
  shows "all_exact w'"
proof -
  obtain w1 where r: "handle_loot_release env p w = Inr w1" using w' by (auto simp: send_loot_def sum_bind_Inr_iff)
  note w1 = release_exact [OF r e]
  then have g1: "group_ok env w1" using g by (simp add: group_ok_def)
  show ?thesis
  proof (cases "om_get (lw_loots w1) src = None \<or> \<not> le_reach env p src")
    case True
    then show ?thesis using w' r w1 by (auto simp: send_loot_def all_exact_def)
  next
    case False
    then obtain w2 where w2: "(case new_loot of None \<Rightarrow> Inr w1 | Some (generated, gold) \<Rightarrow> fill_corpse env rate src generated gold w1) = Inr w2"
      and tail: "calm w2 w'"
      using w' r by (auto simp: send_loot_def sum_bind_Inr_iff Let_def calm_def split: if_splits dest!: calm_on_loot)
    have "\<exists>w3. opens w3 w2 \<and> all_exact w3 \<and> length (lw_rolls w3) = length (lw_rolls w)"
    proof (cases new_loot)
      case None
      then show ?thesis using w2 w1 calm_opens [OF calm_refl] by auto
    next
      case (Some f)
      obtain generated gold where f: "new_loot = Some (generated, gold)" using Some by (cases f) auto
      let ?fill = "\<lambda>l. (fill_loot env rate generated (lw_members w1) l)\<lparr>lo_gold := gold\<rparr>"
      from w2 f obtain w3 w4 where w3: "clear_loot src w1 = Inr w3" and w4: "start_group_method env src w4 = Inr w2"
        and calm: "calm w3 w4"
        by (auto simp: fill_corpse_def sum_bind_Inr_iff dest: calm_on_loot)
      have "group_ok env w4" using clear_loot_exact [OF w3] w1 g1 calm by (simp add: group_ok_def calm_def)
      from start_group_method_opens [OF w4 this] have "opens w4 w2" .
      moreover have "all_exact w4" using clear_loot_exact [OF w3] w1 calm_exact [OF calm] by blast
      moreover have "length (lw_rolls w4) = length (lw_rolls w)"
        using clear_loot_same_rolls [OF w3] w1 calm by (simp add: calm_def)
      ultimately show ?thesis by blast
    qed
    then obtain w3 where w3: "opens w3 w2" "all_exact w3" "length (lw_rolls w3) = length (lw_rolls w)" by blast
    have "no_sole_roll w w2" using sole tail by (simp add: no_sole_roll_def calm_def)
    from calm_exact [OF tail opens_exact [OF w3 this]] show ?thesis .
  qed
qed

text \<open>A vote, and a departure.\<close>

lemma count_roll_vote_exact:
  assumes w': "count_roll_vote env p i v w = Inr (b, w')" and e: "all_exact w" and v: "v \<in> client_votes"
    and first: "i < length (lw_rolls w) \<Longrightarrow> map_of (ro_votes (lw_rolls w ! i)) p \<in> {None, Some ROLL_NOT_EMITED_YET}"
  shows "all_exact w'"
proof -
  obtain r where r: "roll_at i w = Inr r" using w' by (auto simp: count_roll_vote_def sum_bind_Inr_iff)
  then have i: "i < length (lw_rolls w)" "r = lw_rolls w ! i" by (auto simp: roll_at_def split: if_splits)
  show ?thesis
  proof (cases "map_of (ro_votes r) p = None \<or> roll_loot_is_empty r w")
    case True
    then show ?thesis using w' r e by (auto simp: count_roll_vote_def split: if_splits)
  next
    case False
    obtain r1 w1 where c: "count_vote env p v r w = (r1, w1)" by (metis surj_pair)
    have "map_of (ro_votes r) p = Some ROLL_NOT_EMITED_YET" using first [OF i(1)] False i(2) by auto
    then have "p \<in> set (undecided r)" by (force simp: undecided_def dest: map_of_SomeD)
    moreover have "exact r" using e i by (simp add: all_exact_def)
    ultimately have "exact r1" using exact_count_vote(1) [of r p v env w] v c by simp
    moreover have same: "lw_rolls w1 = lw_rolls w" using count_vote_rolls [of env p v r w] c by simp
    ultimately have p: "all_exact (put_roll i r1 w1)"
      using e by (auto simp: all_exact_def dest: set_update_subset_insert [THEN subsetD])
    then have "all_exact w2" if "count_the_roll env i (put_roll i r1 w1) = Inr w2" for w2
      using count_the_roll_rolls(2) [OF that] e by (auto simp: all_exact_def same dest: in_set_takeD in_set_dropD)
    then show ?thesis using w' r False c p by (auto simp: count_roll_vote_def Let_def sum_bind_Inr_iff split: if_splits)
  qed
qed

lemma find_roll_length: "find_roll target slot rs = Some i \<Longrightarrow> i < length rs"
  by (auto simp: find_roll_def find_Some_iff)

lemma vote_of_client: "\<not> MAX_ROLL_FROM_CLIENT \<le> t \<Longrightarrow> roll_vote_of t \<in> client_votes"
proof -
  assume "\<not> MAX_ROLL_FROM_CLIENT \<le> t"
  then have "unat t < 4" by (simp add: MAX_ROLL_FROM_CLIENT_def word_le_nat_alt)
  then have "unat t = 0 \<or> unat t = 1 \<or> unat t = 2 \<or> unat t = 3" by linarith
  then have "t = 0 \<or> t = 1 \<or> t = 2 \<or> t = 3" unfolding word_unat_eq_iff by simp
  then show ?thesis by (elim disjE) (simp_all add: roll_vote_of_def client_votes_def)
qed

lemma handle_loot_roll_exact:
  assumes "handle_loot_roll env p target slot t w = Inr w'" and "all_exact w" and "first_vote (Roll_vote p target slot t) w"
  shows "all_exact w'"
  using assms
  by (auto simp: handle_loot_roll_def count_player_roll_vote_def sum_bind_Inr_iff first_vote_def
      split: if_splits option.splits intro: count_roll_vote_exact [OF _ assms(2) vote_of_client])

lemma unat_u8_pred: "0 < unat (x :: u8) \<Longrightarrow> unat (x - 1) = unat x - 1"
  by (metis unat_gt_0 unat_minus_one)

lemma votes_for_without:
  assumes "distinct (map fst (ro_votes r))" and "map_of (ro_votes r) p = Some v"
  shows "votes_for V (without p r) + (if v \<in> V then 1 else 0) = votes_for V r"
proof -
  have "length (filter (\<lambda>e. snd e \<in> V) (filter (\<lambda>e. fst e \<noteq> p) xs)) + (if v \<in> V then 1 else 0) = length (filter (\<lambda>e. snd e \<in> V) xs)"
    if "distinct (map fst xs)" "map_of xs p = Some v" for xs :: "(guid \<times> roll_vote) list"
    using that
  proof (induction xs)
    case (Cons e xs)
    show ?case
    proof (cases "fst e = p")
      case True
      then have "filter (\<lambda>e. fst e \<noteq> p) xs = xs" using Cons.prems(1) by (intro filter_True) (metis fst_conv image_eqI list.set_map list.simps(9) distinct.simps(2))
      then show ?thesis using True Cons.prems(2) by simp
    next
      case False
      with Cons show ?thesis by auto
    qed
  qed simp
  then show ?thesis using assms by (simp add: votes_for_def without_drop_vote)
qed

lemma without_exact:
  assumes e: "exact r"
  shows "exact (without p r)"
proof (cases "map_of (ro_votes r) p")
  case None
  then show ?thesis using e by (simp add: without_def)
next
  case (Some v)
  have d: "distinct (map fst (ro_votes r))" using e by (simp add: exact_def)
  note n = votes_for_without [OF d Some]
  have in_v: "(p, v) \<in> set (ro_votes r)" using Some by (rule map_of_SomeD)
  have pos: "v \<in> V \<Longrightarrow> 0 < votes_for V r" for V using n [of V] by simp
  have all: "votes_for UNIV r = length (ro_votes r)" "votes_for UNIV (without p r) = length (ro_votes (without p r))"
    by (simp_all add: votes_for_def)
  have len: "length (ro_votes (without p r)) + 1 = length (ro_votes r)" using n [of UNIV] all by simp
  have "v \<noteq> ROLL_NOT_VALID" using pos [of "{ROLL_NOT_VALID}"] e by (auto simp: exact_def)
  moreover have "distinct (map fst (ro_votes (without p r)))"
    using d by (simp add: without_drop_vote [OF Some] distinct_map inj_on_def)
  moreover have "0 < length (ro_votes r)" using len by linarith
  then have "0 < unat (ro_players r)" using e by (simp add: exact_def)
  ultimately show ?thesis
    using e len n [of "{ROLL_NEED}"] n [of "{ROLL_GREED, ROLL_DISENCHANT}"] n [of "{ROLL_PASS}"] n [of "{ROLL_NOT_VALID}"]
    unfolding exact_def
    by (cases v) (auto simp: without_def Some unat_u8_pred)
qed

section \<open>Every run with one vote each\<close>

lemma end_roll_empty: "end_roll env w = Inr w' \<Longrightarrow> lw_rolls w' = []"
proof (induction env w rule: end_roll.induct)
  case (1 env w)
  then show ?case by (subst (asm) end_roll.simps) (auto split: if_splits sum.splits)
qed

lemma stop_exact: "stop_group_loot env src w = Inr w' \<Longrightarrow> all_exact w \<Longrightarrow> all_exact w'"
  by (auto simp: stop_group_loot_def sum_bind_Inr_iff all_exact_def split: if_splits dest!: end_roll_empty)

lemma fair_step_exact:
  assumes step: "loot_step env a w = Inr w'" and e: "all_exact w" and g: "group_ok env w"
    and first: "first_vote a w" and sole: "no_sole_roll w w'"
  shows "all_exact w'"
proof (cases a)
  case (Open_loot rate p src new_loot)
  then show ?thesis using step send_loot_exact [OF _ e g sole] by simp
next
  case (Take_loot p entries)
  then show ?thesis using step calm_exact [OF calm_autostore e] by simp
next
  case (Release_loot p)
  then show ?thesis using step release_exact [OF _ e] by simp
next
  case (Loot_money share p)
  then show ?thesis using step calm_exact [OF calm_money e] by simp
next
  case (Roll_vote p target slot t)
  then show ?thesis using step handle_loot_roll_exact [OF _ e] first by simp
next
  case (Leave_group p)
  then show ?thesis using step e
    by (auto simp: leave_group_def remove_rolls_def remove_rolls_from_eq all_exact_def without_exact)
next
  case (Join_group p)
  then show ?thesis using step e by (auto simp: link_member_def all_exact_def)
next
  case (Corpse_update src diff)
  then show ?thesis using step e stop_exact [of env src w w']
    by (auto simp: update_group_loot_def all_exact_def split: option.splits if_splits)
next
  case (Corpse_removed src)
  then show ?thesis using step e stop_exact [OF _ e] clear_loot_exact
    by (auto simp: remove_corpse_def sum_bind_Inr_iff split: if_splits)
next
  case (Set_loot_rules m threshold)
  then show ?thesis using step e by (auto simp: all_exact_def)
qed

lemma fair_reach_exact: "fair_reach protos w \<Longrightarrow> all_exact w"
proof (induction rule: fair_reach.induct)
  case (fair_start w)
  then show ?case by (simp add: loot_start_def all_exact_def)
next
  case (fair_step w env a w')
  then show ?case using fair_step_exact by blast
qed

lemma fair_reach_runs: "fair_reach protos w \<Longrightarrow> loot_reach protos w"
  by (induction rule: fair_reach.induct) (auto intro: loot_reach.intros)

section \<open>Waiting for everybody\<close>

lemma demo_fair: "fair_reach (le_proto demo_env) demo_rolling" "fair_reach (le_proto demo_env) demo_voted"
proof -
  have g: "group_ok demo_env demo_start" "group_ok demo_env demo_rolling"
    by (simp_all add: group_ok_def demo_env_def demo_defs demo_start_def)
  have "loot_start demo_start" by (auto simp: loot_start_def demo_start_def demo_world_def om_get_def split: if_splits)
  then have s: "fair_reach (le_proto demo_env) demo_start" by (rule fair_start)
  show r: "fair_reach (le_proto demo_env) demo_rolling"
    by (rule fair_step [OF s refl demo_steps(1) _ g(1)])
      (simp_all add: no_sole_roll_def demo_start_def demo_defs first_vote_def demo_open_def)
  show "fair_reach (le_proto demo_env) demo_voted"
    by (rule fair_step [OF r refl demo_steps(2) _ g(2)])
      (simp_all add: no_sole_roll_def demo_defs first_vote_def find_roll_def)
qed

text \<open>
  C11: As long as nobody votes twice, a roll waits for everybody. Over every sequence of openings,
  takings, votes, departures and timeouts in which each vote is its player's first on that roll, the
  totals of every roll are the numbers of its votes; the next vote of an undecided player leaves them
  so, and decides the roll at once if nobody else is undecided, and leaves it open otherwise. The
  program does not check that a vote is the first one: what a second vote does is C9.
\<close>

theorem roll_waits_for_all:
  assumes "fair_reach protos w" and "i < length (lw_rolls w)" and "p \<in> set (undecided (lw_rolls w ! i))"
    and "v \<in> client_votes" and "\<not> roll_loot_is_empty (lw_rolls w ! i) w"
  shows "list_all exact (lw_rolls w) \<and>
    (\<exists>r'. exact r' \<and> undecided r' = filter (\<lambda>q. q \<noteq> p) (undecided (lw_rolls w ! i)) \<and> map_of (ro_votes r') p = Some v \<and>
      count_roll_vote env p i v w =
        (let w' = put_roll i r' (snd (count_vote env p v (lw_rolls w ! i) w)) in
         if undecided r' = []
         then sum_bind (count_the_roll env i w') (\<lambda>w. Inr (True, w)) else Inr (False, w')))"
proof -
  have all: "list_all exact (lw_rolls w)" using fair_reach_exact [OF assms(1)] by (simp add: all_exact_def list_all_iff)
  then have "exact (lw_rolls w ! i)" using assms(2) by (simp add: list_all_length)
  from first_vote_counts [OF assms(2) this assms(3-5), of env] obtain r' where
    r': "exact r'" "undecided r' = filter (\<lambda>q. q \<noteq> p) (undecided (lw_rolls w ! i))" "map_of (ro_votes r') p = Some v"
    "count_roll_vote env p i v w =
      (let w' = put_roll i r' (snd (count_vote env p v (lw_rolls w ! i) w)) in
       if \<forall>q \<in> set (undecided (lw_rolls w ! i)). q = p
       then sum_bind (count_the_roll env i w') (\<lambda>w. Inr (True, w)) else Inr (False, w'))" by (elim exE conjE)
  have empty: "undecided r' = [] \<longleftrightarrow> (\<forall>q \<in> set (undecided (lw_rolls w ! i)). q = p)"
    unfolding r'(2) by (simp add: filter_empty_conv)
  show ?thesis
  proof (intro conjI exI [of _ r'])
    show "count_roll_vote env p i v w =
        (let w' = put_roll i r' (snd (count_vote env p v (lw_rolls w ! i) w)) in
         if undecided r' = []
         then sum_bind (count_the_roll env i w') (\<lambda>w. Inr (True, w)) else Inr (False, w'))"
      unfolding empty by (rule r'(4))
  qed (rule all r'(1-3))+
qed

theorem roll_waits_for_all_witness:
  "(\<exists>r'. undecided r' = [2] \<and> count_roll_vote demo_env 1 0 ROLL_NEED demo_rolling =
      Inr (False, put_roll 0 r' (snd (count_vote demo_env 1 ROLL_NEED demo_roll demo_rolling)))) \<and>
   (\<exists>r'. undecided r' = [] \<and> count_roll_vote demo_env 2 0 ROLL_GREED demo_voted =
      sum_bind (count_the_roll demo_env 0 (put_roll 0 r' (snd (count_vote demo_env 2 ROLL_GREED demo_needed demo_voted))))
        (\<lambda>w. Inr (True, w)))"
proof -
  have r: "lw_rolls demo_rolling = [demo_roll]" "lw_rolls demo_voted = [demo_needed]" by (simp_all add: demo_defs)
  have u: "undecided demo_roll = [1, 2]" "undecided demo_needed = [2]" by (simp_all add: undecided_def demo_roll_def demo_needed_def)
  have loot: "\<not> roll_loot_is_empty (lw_rolls demo_rolling ! 0) demo_rolling" "\<not> roll_loot_is_empty (lw_rolls demo_voted ! 0) demo_voted"
    by (simp_all add: demo_defs roll_loot_is_empty_def om_get_def)
  have v: "ROLL_NEED \<in> client_votes" "ROLL_GREED \<in> client_votes" by (simp_all add: client_votes_def)
  have p: "0 < length (lw_rolls demo_rolling)" "1 \<in> set (undecided (lw_rolls demo_rolling ! 0))"
    "0 < length (lw_rolls demo_voted)" "2 \<in> set (undecided (lw_rolls demo_voted ! 0))" by (simp_all add: r u)
  from roll_waits_for_all [OF demo_fair(1) p(1,2) v(1) loot(1), of demo_env]
    roll_waits_for_all [OF demo_fair(2) p(3,4) v(2) loot(2), of demo_env]
  show ?thesis by (auto simp: r u Let_def)
qed

end
