(* ===== verification/Spec2Isabelle.thy ===== *)
theory Spec2Isabelle
  imports Timers ObjectGuid Segmentation GatewaySafety ChannelEvents SessionDispatch CurrencyRows TradeExchange LootFlaws LootVotes
begin

text \<open>
  A verification development for MaNGOS Four, the World of Warcraft 5.4.8 server in this
  repository: everything between the bytes of a client's TCP stream and the sessions and login
  queue of the world, the dispatch of a session's packets to their handlers, and above it the chat
  channels with the names they go by, the currencies of a player and the trade between players.

  The program's parts and how they interact. \<open>src/src/proto\<close> decodes the byte stream of one client
  (\<open>ClientConnection\<close>): greeting, challenge, authentication, then encrypted headers. It knows the
  world through \<open>IWorldGateway\<close> only. \<open>src/src/game/Server/WorldGateway.cpp\<close> implements that
  interface: it decides on the admission of an account, creates the \<open>WorldSession\<close>, hands it to
  the world's add queue and resolves the handle that the connection keeps. The world
  (\<open>src/src/game/WorldHandlers/World.cpp\<close>, \<open>WorldSessionMgr.cpp\<close>) takes the queue at its next tick,
  files the session under its account, replaces an older one, queues the client when the server
  is full, and deletes sessions whose link has closed. Below them are the packet buffer, the
  identifiers, the timers and the ciphers of \<open>src/src/shared\<close>.

  Theories, in the order of their imports.

  \<^item> \<open>Prelude\<close>: machine words, little-endian bytes, results with exceptions, and \<open>std::map\<close> as a
    sorted association list behind the locale \<open>ordered_map\<close>.
  \<^item> \<open>ByteBuffer\<close> (\<open>shared/Utilities/ByteBuffer.h\<close>): the packet buffer with its byte and bit cursors.
    Positions are natural numbers; an exception or assertion is \<open>Inl\<close>.
  \<^item> \<open>ObjectGuid\<close> (\<open>game/Object/ObjectGuid.h\<close>, \<open>.cpp\<close>): identifiers as 64-bit words, their fields, and
    the packed and masked wire forms with their round trips.
  \<^item> \<open>Timers\<close> (\<open>shared/Utilities/Timer.h\<close>): the timers and the difference of wrapping stamps.
  \<^item> \<open>WireCodec\<close> (\<open>proto/MopWireCodec.h\<close>, \<open>MopHandshake.h\<close>): headers, handshake rules, challenge.
  \<^item> \<open>FrameReader\<close> (\<open>proto/MopFrameReader.h\<close>): the reader as written, with a compacting buffer, and the
    abstract reader over the unread bytes that it refines.
  \<^item> \<open>AuthCrypt\<close> (\<open>shared/Auth/ARC4.cpp\<close>, \<open>HMACSHA1.cpp\<close>, \<open>AuthCrypt.cpp\<close>), \<open>SessionKey\<close>
    (\<open>MopAuthKey\<close>, \<open>BigNumber.cpp\<close>, \<open>proto/MopAuthProof.cpp\<close>), \<open>AuthSession\<close>
    (\<open>proto/MopAuthSession.cpp\<close>) and \<open>AuthResponse\<close> (\<open>game/Server/MopAuthResponse.cpp\<close>): the four
    pieces of the login. OpenSSL is a parameter (\<open>evp\<close>, \<open>bn_lib\<close>, \<open>env_sha1\<close>); what the properties
    use of RC4, HMAC and the number library are the hypotheses \<open>rc4_laws\<close> and \<open>bn_laws\<close>.
  \<^item> \<open>ClientConnection\<close> (\<open>proto/ClientConnection.cpp\<close>): one connection, every handler on every branch.
    The gateway is a record of functions on a world state; whether \<open>Attach\<close> ran the commit
    callback is part of its result. The receive loop terminates because each frame shortens the
    unread bytes (\<open>reader_measure\<close>), so no fuel is needed anywhere.
  \<^item> \<open>ConnectionSafety\<close>: the locale \<open>world_gateway\<close> (what a connection relies on) and, inside it,
    the handshake invariant over every event sequence.
  \<^item> \<open>WorldSessions\<close> and \<open>WorldQueue\<close>: the session map, the login queue and the tick of the world.
    Sessions live on a heap; \<open>delete\<close> removes an address and using a removed one is an error value,
    so memory safety is that no operation returns it.
  \<^item> \<open>WorldGateway\<close>: the gateway's state and operations, and the interpretation of \<open>world_gateway\<close>.
  \<^item> \<open>Authentication\<close>: connection and gateway together.
  \<^item> \<open>Segmentation\<close>: independence of the cut of the byte stream.
  \<^item> \<open>GatewaySafety\<close>: gateway and world over every interleaving of their operations, the meaning of
    handles, and the stale pointer that a second login of the same account leaves behind.
  \<^item> \<open>PacketWriter\<close>: what writers append, and rules that evaluate reads of concrete packets.
  \<^item> \<open>ChatPackets\<close> (\<open>game/WorldHandlers/Chat.h\<close>, \<open>ChatMessage.cpp\<close>): chat messages and their layout.
  \<^item> \<open>Channel\<close> (\<open>game/WorldHandlers/Channel.h\<close>, \<open>.cpp\<close>): a channel as a record, every operation and
    every notification. \<open>ChannelSafety\<close> and \<open>ChannelRules\<close>: the invariant of members, owner and bans
    over all operations, who may change what, and the two ways in which the invariant is lost: the
    owner who removes himself, and \<open>SetOwner\<close> by guid for a player who is not a member.
  \<^item> \<open>PlayerNames\<close> (\<open>shared/Utilities/Util.h\<close>, \<open>Util.cpp\<close>, \<open>game/Object/ObjectMgrNameCheck.cpp\<close>):
    conversions, normal form and checks of names. The \<open>utf8\<close> library is a parameter; what it
    documents is the hypothesis \<open>utf8_documented\<close>.
  \<^item> \<open>ChannelWorld\<close> (\<open>ChannelMgr.cpp\<close>, \<open>ChannelHandler.cpp\<close>, \<open>PlayerChannel.cpp\<close>): the managers, the
    request handlers and each player's list of channels, over a heap of channels.
    \<open>ChannelLists\<close> and \<open>ChannelEvents\<close>: no pointer in them dangles, over every run of events.
    \<open>CleanupChannels\<close> takes the length of the list as fuel; every iteration shortens it by one at
    least, and more fuel gives the same result (\<open>cleanup_more_fuel\<close>).
  \<^item> \<open>Opcodes\<close> (\<open>game/Server/Opcodes.cpp\<close>, \<open>Opcodes.h\<close>, \<open>opcode_register.inc\<close>,
    \<open>opcode_closure.inc\<close>): every registration of \<open>InitializeOpcodes\<close>, its assertions as errors, and
    the lookups. A handler is the name of the member function.
  \<^item> \<open>SessionDispatch\<close> (\<open>game/Server/WorldSession.cpp\<close>, \<open>shared/LockedQueue\<close>): the filters of the two
    threads, the receive queue and \<open>WorldSession::Update\<close>. What handlers, logout and teleports do to
    the session and the game is a parameter. Each round takes a packet out of the queue, so the
    loop ends; the log of the loop says of every packet taken whether a handler was called.
  \<^item> \<open>Currencies\<close> (\<open>game/Object/CurrencyMgr.h\<close>, \<open>.cpp\<close>): the currencies of a player, their caps and
    packets, load and save. An \<open>int32\<close> whose arithmetic overflows is an error, a row of the table
    is changed by each statement in turn. \<open>CurrencyRules\<close>: the locale \<open>currency_property\<close> of what holds
    of every currency over runs, and its two instances, the caps and the weekly count;
    \<open>CurrencyRows\<close>: memory and table in step, and the two operations that break it.
  \<^item> \<open>Trade\<close> (\<open>game/WorldHandlers/TradeHandler.cpp\<close>, \<open>TradeData\<close> and its packets in
    \<open>game/Object/Player.h\<close> and \<open>Player.cpp\<close>): the requests of a trade, over players found by guid.
    Item storage, casting and distances are parameters; \<open>trade_run\<close> interleaves the requests of all
    players with their coming and going. \<open>TradePackets\<close>: its packets are always written.
    \<open>TradeSafety\<close>: trades come in pairs, acceptances stand for the present offers.
    \<open>TradeExchange\<close>: the exchange as a pure function, and two ways to be paid for nothing.
  \<^item> \<open>Loot\<close> (\<open>game/Object/LootMgr.h\<close>, \<open>.cpp\<close>, \<open>game/WorldHandlers/LootHandler.cpp\<close>): the contents of
    a container, how they are filled and listed for the members of a group, which entry a player sees
    in a slot, and taking entries out. \<open>LootRolls\<close> (the class \<open>Roll\<close> and the loot system of
    \<open>game/WorldHandlers/Group.cpp\<close>, \<open>GroupMemberState.cpp\<close>, \<open>GroupHandler.cpp\<close>, \<open>game/Object/Creature.cpp\<close>,
    \<open>PlayerLoot.cpp\<close>): rolls from their start to their end, votes, members who leave, the corpse's
    timer, opening, releasing and money. \<open>loot_step\<close> is one request or event; every award records the
    place that the item came from, and a ghost counter tells the fillings of a container apart.
    \<open>remove_rolls_from\<close> ends because each round takes a vote away or goes on in the list, \<open>end_roll\<close>
    because each round erases a roll. \<open>LootSafety\<close>: an item under a roll is blocked and not taken, and
    what was awarded is marked as taken. \<open>LootRules\<close>: how rolls end. \<open>LootFlaws\<close>: the roll with one
    player, and repeated votes. A currency in a container has its client record, as the loader of the
    loot tables demands, and the answer to opening can always be written. \<open>LootVotes\<close>: runs in which
    nobody votes twice, where a roll waits for all its players.

  What the lemmas show. Round trips and exact byte layouts of every wire format of the login;
  refinement of the frame reader; the one-shot state machine and the key streams of the cipher;
  that authentication needs the proof; the connection's invariant; memory safety of the world's
  tick and of the channel pointers; first-in first-out order of the login queue; who may change a
  channel; that no two symbols share an opcode and where each handler may run; where name conversion leaves its buffer; caps and persistence of
  currencies; that trades never dangle, that a change of an offer withdraws both acceptances, and what
  a completed trade moves; that no item of a corpse is awarded twice while rolls have more than one
  player, who wins a roll, that a roll waits for everybody while nobody votes twice, and that a
  timeout ends every roll.

  Threads. The code's locks make each gateway operation and each world tick atomic as far as this
  state is concerned; an execution is a sequence of operations (\<open>gw_run\<close>). Data races on the fields
  of a session are not modelled.

  Where the code's behaviour is undefined the model has an error or a fault: deleted objects, signed
  overflow, a float too large for its integer. After the first fault of a gateway run
  (\<open>gs_fault\<close>) the model goes on with the world unchanged; nothing is claimed of the code there.
  The session map, whose order is unspecified, is gone through by account. Spells that a completed
  trade starts are recorded as started and do nothing else. \<open>send_loot\<close> is the loot of bodies that
  belong to the group.

  Not modelled: sockets and threads, databases, what the other packet handlers of a session
  do (the game proper: units, spells, maps, items, groups, guilds, battlegrounds; of players only what trades, currencies
  and loot touch), the generation of loot from templates, master loot assignment (its request has no handler registered), the loot of single items, logging, Eluna and
  Warden (both compiled out or without a caller), floating-point fields of packets.
\<close>

end
